(* ===== verification/Prelude.thy ===== *)
theory Prelude
  imports Complex_Main "HOL-Library.AList" "HOL-Library.Char_ord" "HOL-Library.List_Lexorder"
    "HOL-Library.Product_Lexorder"
begin

text \<open>
  Shared vocabulary of the development: the Python exceptions the modelled code raises, the
  exception hierarchy its \<^verbatim>\<open>except\<close> clauses test, the dynamically typed values that cross the
  program's trust boundaries, sequencing of fallible steps, tables stored as association lists
  keyed by their primary key, ordered selection (\<^verbatim>\<open>ORDER BY .. LIMIT\<close>), and splitting at a separator.

  Python strings are modelled by \<^typ>\<open>string\<close>, a list of characters with codes 0 to 255.
\<close>

named_theorems result_simps \<open>equations for sequenced fallible steps\<close>
named_theorems table_simps \<open>equations for lookups after table updates\<close>

section \<open>Exceptions\<close>

datatype py_error =
    ValueError string
  | TypeError string
  | KeyError string
  | RuntimeError string
  | PermissionError string
  | FileNotFoundError string
  | FileExistsError string
  | OSError string
  | AdmissionTimeout string
  | ProtocolError string
  | WorkerLaunchError string
  | SingletonActiveError string
  | ControlStoreError string
  | MaintenanceUnavailableError string
  | StaleDurableAuthorityError string
  | FencingContentionError string
  | PublicationRouteChangedError string
  | ExternalRowSortError string
  | StructuralDigestError string
  | UniqueViolation string
  | CheckViolation string
  | ForeignKeyViolation string
  | LockNotAvailable
  | QueryCanceled
  | OperationalError string

text \<open>The class tests of the \<^verbatim>\<open>except\<close> clauses: a handler for a class also catches its subclasses.\<close>

fun is_ValueError :: "py_error \<Rightarrow> bool" where
  "is_ValueError (ValueError _) = True"
| "is_ValueError (AdmissionTimeout _) = True"
| "is_ValueError (ProtocolError _) = True"
| "is_ValueError (WorkerLaunchError _) = True"
| "is_ValueError (PublicationRouteChangedError _) = True"
| "is_ValueError (ExternalRowSortError _) = True"
| "is_ValueError (StructuralDigestError _) = True"
| "is_ValueError _ = False"

fun is_PermissionError :: "py_error \<Rightarrow> bool" where
  "is_PermissionError (PermissionError _) = True"
| "is_PermissionError (StaleDurableAuthorityError _) = True"
| "is_PermissionError (FencingContentionError _) = True"
| "is_PermissionError _ = False"

fun is_FileNotFoundError :: "py_error \<Rightarrow> bool" where
  "is_FileNotFoundError (FileNotFoundError _) = True"
| "is_FileNotFoundError _ = False"

definition is_OSError :: "py_error \<Rightarrow> bool" where
  "is_OSError e = (is_PermissionError e \<or> is_FileNotFoundError e
     \<or> (case e of OSError _ \<Rightarrow> True | FileExistsError _ \<Rightarrow> True | _ \<Rightarrow> False))"

fun is_RuntimeError :: "py_error \<Rightarrow> bool" where
  "is_RuntimeError (RuntimeError _) = True"
| "is_RuntimeError (SingletonActiveError _) = True"
| "is_RuntimeError (ControlStoreError _) = True"
| "is_RuntimeError (MaintenanceUnavailableError _) = True"
| "is_RuntimeError _ = False"

fun is_lock_timeout :: "py_error \<Rightarrow> bool" where
  "is_lock_timeout LockNotAvailable = True"
| "is_lock_timeout QueryCanceled = True"
| "is_lock_timeout _ = False"

section \<open>Fallible steps\<close>

type_synonym 'a result = "py_error + 'a"

fun bindE :: "'e + 'a \<Rightarrow> ('a \<Rightarrow> 'e + 'b) \<Rightarrow> 'e + 'b" where
  "bindE (Inl e) f = Inl e"
| "bindE (Inr x) f = f x"

definition guardE :: "bool \<Rightarrow> 'e \<Rightarrow> 'e + 'a \<Rightarrow> 'e + 'a" where
  "guardE ok e r = (if ok then r else Inl e)"

lemma bindE_Inr_iff [result_simps]:
  "bindE m f = Inr y \<longleftrightarrow> (\<exists>x. m = Inr x \<and> f x = Inr y)"
  by (cases m) auto

lemma bindE_Inl_iff [result_simps]:
  "bindE m f = Inl e \<longleftrightarrow> m = Inl e \<or> (\<exists>x. m = Inr x \<and> f x = Inl e)"
  by (cases m) auto

lemma guardE_Inr_iff [result_simps]: "guardE ok e r = Inr y \<longleftrightarrow> ok \<and> r = Inr y"
  by (simp add: guardE_def)

lemma guardE_Inl_iff [result_simps]:
  "guardE ok e r = Inl e' \<longleftrightarrow> (\<not> ok \<and> e' = e) \<or> (ok \<and> r = Inl e')"
  by (auto simp: guardE_def)

lemma bindE_assoc: "bindE (bindE m f) g = bindE m (\<lambda>x. bindE (f x) g)"
  by (cases m) auto

lemma guardE_True [simp]: "guardE True e r = r"
  and guardE_False [simp]: "guardE False e r = Inl e"
  by (simp_all add: guardE_def)

text \<open>A loop whose body may raise, threading the state it updates.\<close>

fun foldE :: "('a \<Rightarrow> 's \<Rightarrow> 'e + 's) \<Rightarrow> 'a list \<Rightarrow> 's \<Rightarrow> 'e + 's" where
  "foldE f [] s = Inr s"
| "foldE f (x # xs) s = bindE (f x s) (foldE f xs)"

lemma foldE_invariant:
  assumes "foldE f xs s = Inr s'" and "I s"
    and "\<And>x s s'. x \<in> set xs \<Longrightarrow> I s \<Longrightarrow> f x s = Inr s' \<Longrightarrow> I s'"
  shows "I s'"
  using assms
proof (induction xs arbitrary: s)
  case (Cons x xs)
  then obtain t where "f x s = Inr t" "foldE f xs t = Inr s'" by (auto simp: result_simps)
  with Cons show ?case by (metis list.set_intros)
qed simp

section \<open>Dynamically typed values\<close>

text \<open>Decoded JSON and other \<^verbatim>\<open>object\<close>-typed arguments. Dictionaries keep insertion order.\<close>

datatype pyval =
    VNone
  | VBool bool
  | VInt int
  | VFloat rat
  | VStr string
  | VList "pyval list"
  | VDict "(string \<times> pyval) list"

text \<open>Python's \<open>==\<close> against an integer: booleans and floats compare by value.\<close>

fun py_eq_int :: "pyval \<Rightarrow> int \<Rightarrow> bool" where
  "py_eq_int (VInt i) n = (i = n)"
| "py_eq_int (VBool b) n = ((if b then 1 else 0) = n)"
| "py_eq_int (VFloat r) n = (r = of_int n)"
| "py_eq_int _ n = False"

text \<open>\<^verbatim>\<open>isinstance(v, int) and not isinstance(v, bool)\<close>.\<close>

fun is_plain_int :: "pyval \<Rightarrow> bool" where
  "is_plain_int (VInt _) = True"
| "is_plain_int _ = False"

fun is_bool :: "pyval \<Rightarrow> bool" where
  "is_bool (VBool _) = True"
| "is_bool _ = False"

definition dict_get :: "(string \<times> pyval) list \<Rightarrow> string \<Rightarrow> pyval" where
  \<comment> \<open>\<^verbatim>\<open>d.get(k)\<close>, with \<open>VNone\<close> for a missing key\<close>
  "dict_get d k = (case map_of d k of None \<Rightarrow> VNone | Some v \<Rightarrow> v)"

definition dict_keys :: "(string \<times> pyval) list \<Rightarrow> string list" where
  "dict_keys d = map fst d"

definition same_set :: "'a list \<Rightarrow> 'a list \<Rightarrow> bool" where
  \<comment> \<open>equality of the sets two lists stand for\<close>
  "same_set xs ys = (list_all (\<lambda>x. List.member ys x) xs \<and> list_all (\<lambda>y. List.member xs y) ys)"

lemma same_set_iff: "same_set xs ys \<longleftrightarrow> set xs = set ys"
  by (auto simp: same_set_def list_all_iff)

section \<open>Tables\<close>

text \<open>
  A table is an association list from its primary key to the row. Lookups and single-row updates
  are \<^const>\<open>map_of\<close> and \<^const>\<open>AList.update\<close>; scans run over the rows.
\<close>

type_synonym ('k, 'r) table = "('k \<times> 'r) list"

definition table_ok :: "('k, 'r) table \<Rightarrow> bool" where
  \<comment> \<open>the primary key constraint\<close>
  "table_ok t = distinct (map fst t)"

definition delete_where :: "('k \<Rightarrow> bool) \<Rightarrow> ('k, 'r) table \<Rightarrow> ('k, 'r) table" where
  "delete_where p t = filter (\<lambda>(k, r). \<not> p k) t"

lemma table_ok_Nil [simp]: "table_ok []"
  by (simp add: table_ok_def)

lemma table_ok_update [simp]: "table_ok t \<Longrightarrow> table_ok (AList.update k r t)"
  by (simp add: table_ok_def distinct_update)

lemma table_ok_delete [simp]: "table_ok t \<Longrightarrow> table_ok (AList.delete k t)"
  by (simp add: table_ok_def distinct_delete)

lemma table_ok_delete_where [simp]: "table_ok t \<Longrightarrow> table_ok (delete_where p t)"
  unfolding table_ok_def delete_where_def by (rule distinct_map_filter)

lemma lookup_update [table_simps, simp]:
  "map_of (AList.update k r t) = (map_of t)(k \<mapsto> r)"
  by (rule update_conv')

lemma lookup_delete [table_simps, simp]:
  "map_of (AList.delete k t) = (map_of t)(k := None)"
  by (rule delete_conv')

lemma lookup_delete_where [table_simps]:
  "map_of (delete_where p t) k = (if p k then None else map_of t k)"
  by (induction t) (auto simp: delete_where_def)

lemma table_row_iff: "table_ok t \<Longrightarrow> (k, r) \<in> set t \<longleftrightarrow> map_of t k = Some r"
  by (simp add: table_ok_def)

section \<open>Ordered selection\<close>

definition select_by :: "('r \<Rightarrow> 'o::linorder) \<Rightarrow> ('r \<Rightarrow> bool) \<Rightarrow> ('k, 'r) table \<Rightarrow> 'r list" where
  \<comment> \<open>\<^verbatim>\<open>SELECT * FROM t WHERE p ORDER BY key\<close>\<close>
  "select_by key p t = sort_key key (filter p (map snd t))"

lemma set_select_by [simp]: "set (select_by key p t) = {r \<in> snd ` set t. p r}"
  by (auto simp: select_by_def)

lemma sorted_select_by: "sorted (map key (select_by key p t))"
  by (simp add: select_by_def)

lemma select_by_hd_least:
  assumes "select_by key p t = r # rs" and "r' \<in> snd ` set t" and "p r'"
  shows "key r \<le> key r'"
proof -
  from assms(1) have s: "sorted (map key (r # rs))"
    using sorted_select_by [of key p t] by simp
  from assms have "r' \<in> set (r # rs)"
    by (metis (mono_tags, lifting) mem_Collect_eq set_select_by)
  with s show ?thesis by auto
qed

lemma select_by_Nil_iff: "select_by key p t = [] \<longleftrightarrow> (\<forall>r \<in> snd ` set t. \<not> p r)"
proof -
  have "select_by key p t = [] \<longleftrightarrow> set (select_by key p t) = {}"
    by (rule set_empty [symmetric])
  then show ?thesis unfolding set_select_by by blast
qed

section \<open>Splitting at a separator\<close>

fun split_on :: "'a \<Rightarrow> 'a list \<Rightarrow> 'a list list" where
  \<comment> \<open>\<^verbatim>\<open>str.split\<close> with a one-character separator\<close>
  "split_on c [] = [[]]"
| "split_on c (x # xs) = (if x = c then [] # split_on c xs else (x # hd (split_on c xs)) # tl (split_on c xs))"

fun join_with :: "'a \<Rightarrow> 'a list list \<Rightarrow> 'a list" where
  "join_with c [] = []"
| "join_with c [x] = x"
| "join_with c (x # y # xs) = x @ c # join_with c (y # xs)"

lemma split_on_nonempty [simp]: "split_on c s \<noteq> []"
  by (cases s) simp_all

lemma split_free: "c \<notin> set p \<Longrightarrow> split_on c p = [p]"
  by (induction p) auto

lemma split_on_append: "c \<notin> set p \<Longrightarrow> split_on c (p @ c # s) = p # split_on c s"
  by (induction p) auto

lemma split_join: "ps \<noteq> [] \<Longrightarrow> list_all (\<lambda>p. c \<notin> set p) ps \<Longrightarrow> split_on c (join_with c ps) = ps"
  by (induction c ps rule: join_with.induct) (auto simp: split_free split_on_append)

lemma join_Cons: "ps \<noteq> [] \<Longrightarrow> join_with c (p # ps) = p @ c # join_with c ps"
  by (cases ps) simp_all

lemma join_split: "join_with c (split_on c s) = s"
proof (induction s)
  case (Cons x s)
  obtain p ps where s: "split_on c s = p # ps" by (cases "split_on c s") auto
  with Cons show ?case by (cases "ps = []") (auto simp: join_Cons)
qed simp

lemma split_parts: "p \<in> set (split_on c s) \<Longrightarrow> c \<notin> set p"
proof (induction s arbitrary: p)
  case (Cons x s)
  obtain q qs where s: "split_on c s = q # qs" by (cases "split_on c s") auto
  with Cons show ?case by (auto split: if_splits)
qed simp

lemma split_chars: "p \<in> set (split_on c s) \<Longrightarrow> set p \<subseteq> set s"
proof (induction s arbitrary: p)
  case (Cons x s)
  obtain q qs where s: "split_on c s = q # qs" by (cases "split_on c s") auto
  with Cons show ?case by (fastforce split: if_splits)
qed simp

end
