(* ===== verification/Coordinator_Limits.thy ===== *)
theory Coordinator_Limits
  imports Prelude
begin

text \<open>
  Resource limits of the coordinator (\<^verbatim>\<open>coordinator/limits.py\<close>): the limit record with its
  defaults and hard maxima, start-up validation, public counters, and admission deadlines. Times
  are exact rationals where the code uses floats.
\<close>

section \<open>Admission deadlines\<close>

definition SUBMIT_ADMISSION_CEILING_SECONDS :: rat where
  "SUBMIT_ADMISSION_CEILING_SECONDS = 300"

fun valid_admission_number :: "pyval \<Rightarrow> bool" where
  "valid_admission_number (VInt i) = (\<bar>i\<bar> < 10 ^ 12)"
| "valid_admission_number (VFloat r) = (\<bar>r\<bar> < 10 ^ 12)"
| "valid_admission_number _ = False"

record AdmissionDeadline =
  expires_at :: rat
  monotonic_end :: rat

definition remaining :: "rat \<Rightarrow> rat \<Rightarrow> AdmissionDeadline \<Rightarrow> rat result" where
  \<comment> \<open>\<open>wall\<close> is \<^verbatim>\<open>time.time()\<close> and \<open>tick\<close> is \<^verbatim>\<open>time.monotonic()\<close> at the call\<close>
  "remaining wall tick d =
     (let r = min (expires_at d - wall) (monotonic_end d - tick)
      in if r \<le> 0 then Inl (AdmissionTimeout ''admission_timeout'') else Inr r)"

fun wire_number :: "pyval \<Rightarrow> rat" where
  "wire_number (VInt i) = of_int i"
| "wire_number (VFloat r) = r"
| "wire_number _ = 0"

definition from_wire :: "rat \<Rightarrow> rat \<Rightarrow> pyval \<Rightarrow> AdmissionDeadline result" where
  "from_wire wall tick v =
     (if \<not> valid_admission_number v then Inl (ValueError ''invalid admission deadline'')
      else let expiration = wire_number v; left = expiration - wall
           in if left > SUBMIT_ADMISSION_CEILING_SECONDS
              then Inl (ValueError ''invalid admission deadline'')
              else let d = \<lparr>expires_at = expiration, monotonic_end = tick + left\<rparr>
                   in bindE (remaining wall tick d) (\<lambda>_. Inr d))"

section \<open>The limit record\<close>

record CoordinatorLimits =
  max_nonterminal_jobs :: int
  max_queued_manual_jobs_per_graph :: int
  manual_claim_burst :: int
  max_running_workers :: int
  max_running_mutating_workers :: int
  max_running_read_operations :: int
  max_client_connections :: int
  max_in_flight_requests :: int
  watcher_hint_buffer_size :: int
  progress_counter_delta :: int
  progress_min_interval_seconds :: int
  heartbeat_seconds :: int
  claim_deadline_seconds :: int
  graph_lease_duration_seconds :: int
  lease_renewal_interval_seconds :: int
  cancel_deadline_seconds :: int
  process_deadline_seconds :: int
  refresh_attempt_deadline_seconds :: int
  max_retry_attempts :: int
  max_retry_backoff_seconds :: int
  terminal_retention_seconds :: int
  cleanup_batch_size :: int
  max_protocol_line_bytes :: int
  max_diagnostic_bytes :: int
  max_array_items :: int
  max_identifier_chars :: int
  max_summary_chars :: int
  max_counter :: int

definition DEFAULT_LIMITS :: CoordinatorLimits where
  "DEFAULT_LIMITS = \<lparr>
     max_nonterminal_jobs = 256,
     max_queued_manual_jobs_per_graph = 8,
     manual_claim_burst = 3,
     max_running_workers = 4,
     max_running_mutating_workers = 2,
     max_running_read_operations = 4,
     max_client_connections = 32,
     max_in_flight_requests = 64,
     watcher_hint_buffer_size = 256,
     progress_counter_delta = 10,
     progress_min_interval_seconds = 1,
     heartbeat_seconds = 10,
     claim_deadline_seconds = 30,
     graph_lease_duration_seconds = 60,
     lease_renewal_interval_seconds = 10,
     cancel_deadline_seconds = 10,
     process_deadline_seconds = 600,
     refresh_attempt_deadline_seconds = 3600,
     max_retry_attempts = 3,
     max_retry_backoff_seconds = 300,
     terminal_retention_seconds = 7 * 24 * 60 * 60,
     cleanup_batch_size = 64,
     max_protocol_line_bytes = 1024 * 1024,
     max_diagnostic_bytes = 16 * 1024,
     max_array_items = 32,
     max_identifier_chars = 128,
     max_summary_chars = 512,
     max_counter = 2 ^ 31 - 1\<rparr>"

definition HARD_MAX_LIMITS :: CoordinatorLimits where
  "HARD_MAX_LIMITS = \<lparr>
     max_nonterminal_jobs = 4096,
     max_queued_manual_jobs_per_graph = 64,
     manual_claim_burst = 32,
     max_running_workers = 32,
     max_running_mutating_workers = 16,
     max_running_read_operations = 32,
     max_client_connections = 256,
     max_in_flight_requests = 1024,
     watcher_hint_buffer_size = 4096,
     progress_counter_delta = 10000,
     progress_min_interval_seconds = 60,
     heartbeat_seconds = 60,
     claim_deadline_seconds = 300,
     graph_lease_duration_seconds = 600,
     lease_renewal_interval_seconds = 60,
     cancel_deadline_seconds = 120,
     process_deadline_seconds = 3600,
     refresh_attempt_deadline_seconds = 86400,
     max_retry_attempts = 10,
     max_retry_backoff_seconds = 3600,
     terminal_retention_seconds = 90 * 24 * 60 * 60,
     cleanup_batch_size = 4096,
     max_protocol_line_bytes = 1024 * 1024,
     max_diagnostic_bytes = 64 * 1024,
     max_array_items = 256,
     max_identifier_chars = 256,
     max_summary_chars = 4096,
     max_counter = 2 ^ 63 - 1\<rparr>"

definition DEFAULT_COORDINATOR_STARTUP_WAIT_SECONDS :: int where
  "DEFAULT_COORDINATOR_STARTUP_WAIT_SECONDS = graph_lease_duration_seconds DEFAULT_LIMITS + 15"

fun valid_counter :: "pyval \<Rightarrow> CoordinatorLimits \<Rightarrow> bool" where
  "valid_counter (VInt i) limits = (0 \<le> i \<and> i \<le> max_counter limits)"
| "valid_counter _ limits = False"

definition limit_fields :: "CoordinatorLimits \<Rightarrow> (string \<times> int) list" where
  \<comment> \<open>\<^verbatim>\<open>dataclasses.fields\<close>: the fields in declaration order\<close>
  "limit_fields l = [
     (''max_nonterminal_jobs'', max_nonterminal_jobs l),
     (''max_queued_manual_jobs_per_graph'', max_queued_manual_jobs_per_graph l),
     (''manual_claim_burst'', manual_claim_burst l),
     (''max_running_workers'', max_running_workers l),
     (''max_running_mutating_workers'', max_running_mutating_workers l),
     (''max_running_read_operations'', max_running_read_operations l),
     (''max_client_connections'', max_client_connections l),
     (''max_in_flight_requests'', max_in_flight_requests l),
     (''watcher_hint_buffer_size'', watcher_hint_buffer_size l),
     (''progress_counter_delta'', progress_counter_delta l),
     (''progress_min_interval_seconds'', progress_min_interval_seconds l),
     (''heartbeat_seconds'', heartbeat_seconds l),
     (''claim_deadline_seconds'', claim_deadline_seconds l),
     (''graph_lease_duration_seconds'', graph_lease_duration_seconds l),
     (''lease_renewal_interval_seconds'', lease_renewal_interval_seconds l),
     (''cancel_deadline_seconds'', cancel_deadline_seconds l),
     (''process_deadline_seconds'', process_deadline_seconds l),
     (''refresh_attempt_deadline_seconds'', refresh_attempt_deadline_seconds l),
     (''max_retry_attempts'', max_retry_attempts l),
     (''max_retry_backoff_seconds'', max_retry_backoff_seconds l),
     (''terminal_retention_seconds'', terminal_retention_seconds l),
     (''cleanup_batch_size'', cleanup_batch_size l),
     (''max_protocol_line_bytes'', max_protocol_line_bytes l),
     (''max_diagnostic_bytes'', max_diagnostic_bytes l),
     (''max_array_items'', max_array_items l),
     (''max_identifier_chars'', max_identifier_chars l),
     (''max_summary_chars'', max_summary_chars l),
     (''max_counter'', max_counter l)]"

fun check_fields :: "((string \<times> int) \<times> int) list \<Rightarrow> unit result" where
  "check_fields [] = Inr ()"
| "check_fields (((name, val), hi) # rest) =
     (if \<not> 0 < val then Inl (ValueError (name @ '' must be a positive integer''))
      else if \<not> 0 < hi \<or> hi < val then Inl (ValueError (name @ '' exceeds its hard maximum''))
      else check_fields rest)"

fun check_relations :: "(bool \<times> string) list \<Rightarrow> unit result" where
  "check_relations [] = Inr ()"
| "check_relations ((ok, message) # rest) =
     (if \<not> ok then Inl (ValueError message) else check_relations rest)"

definition limit_relationships :: "CoordinatorLimits \<Rightarrow> (bool \<times> string) list" where
  "limit_relationships l = [
     (max_running_mutating_workers l \<le> max_running_workers l,
        ''mutating workers cannot exceed all running workers''),
     (max_running_read_operations l \<le> max_running_workers l,
        ''read operations cannot exceed all running workers''),
     (max_in_flight_requests l \<ge> max_client_connections l,
        ''in-flight requests cannot be below client connections''),
     (max_diagnostic_bytes l \<le> max_protocol_line_bytes l,
        ''diagnostics cannot exceed a protocol line''),
     (max_retry_backoff_seconds l \<ge> heartbeat_seconds l,
        ''maximum retry backoff cannot be below the heartbeat interval''),
     (cleanup_batch_size l \<le> max_nonterminal_jobs l,
        ''cleanup batch cannot exceed the bounded working set''),
     (claim_deadline_seconds l \<ge> heartbeat_seconds l,
        ''claim deadline cannot be below the heartbeat interval''),
     (lease_renewal_interval_seconds l < graph_lease_duration_seconds l,
        ''lease renewal interval must be below the lease duration''),
     (process_deadline_seconds l \<ge> cancel_deadline_seconds l,
        ''process deadline cannot be below the cancel deadline''),
     (refresh_attempt_deadline_seconds l > process_deadline_seconds l,
        ''refresh attempt deadline must be greater than the process deadline'')]"

definition validate_limits :: "CoordinatorLimits \<Rightarrow> CoordinatorLimits \<Rightarrow> unit result" where
  "validate_limits hard_maxima l =
     bindE (check_fields (zip (limit_fields l) (map snd (limit_fields hard_maxima))))
       (\<lambda>_. check_relations (limit_relationships l))"

section \<open>Properties\<close>

lemma check_fields_ok:
  "check_fields xs = Inr () \<longleftrightarrow> (\<forall>((n, v), hi) \<in> set xs. 0 < v \<and> v \<le> hi)"
  by (induction xs rule: check_fields.induct) auto

lemma check_relations_ok: "check_relations xs = Inr () \<longleftrightarrow> (\<forall>(ok, m) \<in> set xs. ok)"
  by (induction xs rule: check_relations.induct) auto

lemma validate_limits_ok:
  "validate_limits hard l = Inr () \<longleftrightarrow>
   (\<forall>((n, v), hi) \<in> set (zip (limit_fields l) (map snd (limit_fields hard))). 0 < v \<and> v \<le> hi)
   \<and> (\<forall>(ok, m) \<in> set (limit_relationships l). ok)"
  by (auto simp: validate_limits_def bindE_Inr_iff check_fields_ok check_relations_ok)

lemma default_limits_validate: "validate_limits HARD_MAX_LIMITS DEFAULT_LIMITS = Inr ()"
  unfolding validate_limits_ok
  by (simp add: limit_fields_def limit_relationships_def DEFAULT_LIMITS_def HARD_MAX_LIMITS_def)

lemma hard_limits_validate: "validate_limits HARD_MAX_LIMITS HARD_MAX_LIMITS = Inr ()"
  unfolding validate_limits_ok
  by (simp add: limit_fields_def limit_relationships_def HARD_MAX_LIMITS_def)

lemma validated_bounds:
  assumes "validate_limits HARD_MAX_LIMITS l = Inr ()"
  shows "0 < max_retry_attempts l" and "max_retry_attempts l \<le> 10"
    and "0 < lease_renewal_interval_seconds l"
    and "lease_renewal_interval_seconds l < graph_lease_duration_seconds l"
    and "graph_lease_duration_seconds l \<le> 600"
    and "max_running_mutating_workers l \<le> max_running_workers l"
    and "max_running_workers l \<le> 32"
    and "0 < max_nonterminal_jobs l" and "max_nonterminal_jobs l \<le> 4096"
    and "cancel_deadline_seconds l \<le> process_deadline_seconds l"
    and "process_deadline_seconds l < refresh_attempt_deadline_seconds l"
  using assms unfolding validate_limits_ok
  by (simp_all add: limit_fields_def limit_relationships_def HARD_MAX_LIMITS_def)

lemma from_wire_remaining:
  assumes "from_wire wall tick v = Inr d"
  shows "0 < expires_at d - wall" and "expires_at d - wall \<le> SUBMIT_ADMISSION_CEILING_SECONDS"
    and "monotonic_end d - tick = expires_at d - wall"
  using assms by (auto simp: from_wire_def remaining_def Let_def bindE_Inr_iff split: if_splits)

lemma remaining_never_extends:
  assumes "from_wire wall tick v = Inr d" and "tick \<le> tick'" and "remaining wall' tick' d = Inr r"
  shows "0 < r" and "r \<le> SUBMIT_ADMISSION_CEILING_SECONDS - (tick' - tick)"
  using from_wire_remaining [OF assms(1)] assms(2,3)
  by (auto simp: remaining_def Let_def split: if_splits)

end
