(* ===== verification/Patterns.thy ===== *)
theory Patterns
  imports Prelude
begin

text \<open>
  The part of Python's \<^verbatim>\<open>re\<close> module the program relies on. The code only ever asks whether
  \<^verbatim>\<open>fullmatch\<close> or \<^verbatim>\<open>search\<close> finds a match, so a pattern denotes the set of positions it can
  reach; the order in which the engine backtracks does not matter.

  A position is the character before it (\<open>None\<close> at the start of the subject) and the rest of the
  subject. Repetition carries an explicit bound; an iteration that consumes nothing is dropped,
  which loses no position, so the matcher is total.
\<close>

section \<open>Character classes\<close>

definition code :: "char \<Rightarrow> nat" where
  "code c = of_char c"

definition in_range :: "nat \<Rightarrow> nat \<Rightarrow> char \<Rightarrow> bool" where
  "in_range lo hi c = (lo \<le> code c \<and> code c \<le> hi)"

definition c_lower :: "char \<Rightarrow> bool" where "c_lower c = in_range 97 122 c"
definition c_upper :: "char \<Rightarrow> bool" where "c_upper c = in_range 65 90 c"
definition c_digit :: "char \<Rightarrow> bool" where "c_digit c = in_range 48 57 c"
definition c_alnum :: "char \<Rightarrow> bool" where "c_alnum c = (c_lower c \<or> c_upper c \<or> c_digit c)"
definition c_in :: "string \<Rightarrow> char \<Rightarrow> bool" where "c_in cs c = List.member cs c"

text \<open>
  \<^verbatim>\<open>\s\<close>, \<^verbatim>\<open>\w\<close> and \<^verbatim>\<open>\d\<close> on text, restricted to character codes below 256. (In that range the
  decimal digits are the ASCII ones.)
\<close>

definition c_space :: "char \<Rightarrow> bool" where
  "c_space c = (in_range 9 13 c \<or> in_range 28 32 c \<or> code c = 133 \<or> code c = 160)"

definition c_word :: "char \<Rightarrow> bool" where
  "c_word c = (c_alnum c \<or> code c = 95 \<or> code c = 170 \<or> code c = 178 \<or> code c = 179
     \<or> code c = 181 \<or> code c = 185 \<or> code c = 186 \<or> in_range 188 190 c
     \<or> in_range 192 214 c \<or> in_range 216 246 c \<or> in_range 248 255 c)"

definition lower_char :: "char \<Rightarrow> char" where
  "lower_char c = (if c_upper c then char_of (code c + 32) else c)"

text \<open>Code equations that compute with binary integers instead of \<^typ>\<open>nat\<close>.\<close>

lemma code_int: "of_char c = int (code c)"
  by (simp add: code_def of_nat_of_char)

lemma in_range_int:
  "in_range (numeral m) (numeral n) c \<longleftrightarrow> numeral m \<le> (of_char c :: int) \<and> (of_char c :: int) \<le> numeral n"
  by (simp add: in_range_def code_int)

lemma code_eq_int: "code c = numeral m \<longleftrightarrow> (of_char c :: int) = numeral m"
  by (simp add: code_int)

lemmas class_code [code] =
  c_lower_def [unfolded in_range_int] c_upper_def [unfolded in_range_int] c_digit_def [unfolded in_range_int]
  c_space_def [unfolded in_range_int code_eq_int] c_word_def [unfolded in_range_int code_eq_int]

lemma lower_char_int [code]: "lower_char c = (if c_upper c then char_of (of_char c + 32 :: int) else c)"
proof -
  have "char_of (int (code c) + 32) = char_of (code c + 32)"
    using char_of_nat [of "code c + 32", where ?'a = int] by simp
  then show ?thesis by (simp add: lower_char_def code_int)
qed

section \<open>Patterns and positions\<close>

datatype re =
    RCls "char \<Rightarrow> bool"
  | REps
  | RSeq re re
  | RAlt re re
  | RStar re
  | RUpto nat re
  | RBegin
  | RWordB

type_synonym pos = "char option \<times> string"

fun iterate :: "nat \<Rightarrow> (pos \<Rightarrow> pos list) \<Rightarrow> pos \<Rightarrow> pos list" where
  "iterate 0 f p = [p]"
| "iterate (Suc n) f p =
     p # concat (map (iterate n f) (filter (\<lambda>q. length (snd q) < length (snd p)) (f p)))"

fun is_word_opt :: "char option \<Rightarrow> bool" where
  "is_word_opt None = False"
| "is_word_opt (Some c) = c_word c"

primrec reach :: "re \<Rightarrow> pos \<Rightarrow> pos list" where
  "reach (RCls f) p = (case snd p of [] \<Rightarrow> [] | c # cs \<Rightarrow> if f c then [(Some c, cs)] else [])"
| "reach REps p = [p]"
| "reach (RSeq r s) p = concat (map (reach s) (reach r p))"
| "reach (RAlt r s) p = reach r p @ reach s p"
| "reach (RStar r) p = iterate (length (snd p)) (reach r) p"
| "reach (RUpto n r) p = iterate n (reach r) p"
| "reach RBegin p = (if fst p = None then [p] else [])"
| "reach RWordB p =
     (if is_word_opt (fst p) \<noteq> is_word_opt (case snd p of [] \<Rightarrow> None | c # _ \<Rightarrow> Some c)
      then [p] else [])"

definition fullmatch :: "re \<Rightarrow> string \<Rightarrow> bool" where
  "fullmatch r s = list_ex (\<lambda>q. snd q = []) (reach r (None, s))"

fun search_from :: "re \<Rightarrow> char option \<Rightarrow> string \<Rightarrow> bool" where
  "search_from r prev [] = (reach r (prev, []) \<noteq> [])"
| "search_from r prev (c # cs) = (reach r (prev, c # cs) \<noteq> [] \<or> search_from r (Some c) cs)"

definition re_search :: "re \<Rightarrow> string \<Rightarrow> bool" where
  "re_search r s = search_from r None s"

section \<open>Derived patterns\<close>

definition ropt :: "re \<Rightarrow> re" where "ropt r = RAlt r REps"
definition rplus :: "re \<Rightarrow> re" where "rplus r = RSeq r (RStar r)"

fun rlit :: "string \<Rightarrow> re" where
  \<comment> \<open>a literal under \<^verbatim>\<open>re.IGNORECASE\<close>, written in lower case\<close>
  "rlit [] = REps"
| "rlit (c # cs) = RSeq (RCls (\<lambda>d. lower_char d = c)) (rlit cs)"

fun ralts :: "re list \<Rightarrow> re" where
  "ralts [] = RCls (\<lambda>_. False)"
| "ralts [r] = r"
| "ralts (r # rs) = RAlt r (ralts rs)"

definition rwords :: "string list \<Rightarrow> re" where "rwords ws = ralts (map rlit ws)"

fun rtimes :: "nat \<Rightarrow> re \<Rightarrow> re" where
  "rtimes 0 r = REps"
| "rtimes (Suc n) r = RSeq r (rtimes n r)"

section \<open>What the matcher computes on the common shapes\<close>

lemma iterate_cls_end:
  "(\<exists>q \<in> set (iterate n (reach (RCls f)) (prev, s)). snd q = []) \<longleftrightarrow>
   length s \<le> n \<and> list_all f s"
proof (induction n arbitrary: prev s)
  case (Suc n)
  show ?case
  proof (cases s)
    case (Cons c cs)
    with Suc.IH [of "Some c" cs] show ?thesis by auto
  qed simp
qed auto

lemma fullmatch_head_star:
  "fullmatch (RSeq (RCls f) (RStar (RCls g))) s \<longleftrightarrow>
   (\<exists>c cs. s = c # cs \<and> f c \<and> list_all g cs)"
proof (cases s)
  case (Cons c cs)
  have "fullmatch (RSeq (RCls f) (RStar (RCls g))) s \<longleftrightarrow>
    f c \<and> (\<exists>q \<in> set (iterate (length cs) (reach (RCls g)) (Some c, cs)). snd q = [])"
    using Cons by (auto simp: fullmatch_def list_ex_iff)
  with Cons show ?thesis by (simp add: iterate_cls_end)
qed (simp add: fullmatch_def)

lemma fullmatch_head_upto:
  "fullmatch (RSeq (RCls f) (RUpto n (RCls g))) s \<longleftrightarrow>
   (\<exists>c cs. s = c # cs \<and> f c \<and> length cs \<le> n \<and> list_all g cs)"
proof (cases s)
  case (Cons c cs)
  have "fullmatch (RSeq (RCls f) (RUpto n (RCls g))) s \<longleftrightarrow>
    f c \<and> (\<exists>q \<in> set (iterate n (reach (RCls g)) (Some c, cs)). snd q = [])"
    using Cons by (auto simp: fullmatch_def list_ex_iff)
  with Cons show ?thesis by (simp add: iterate_cls_end)
qed (simp add: fullmatch_def)

lemma re_search_class: "re_search (RCls f) s \<longleftrightarrow> list_ex f s"
proof -
  have "search_from (RCls f) prev s \<longleftrightarrow> list_ex f s" for prev
    by (induction s arbitrary: prev) auto
  then show ?thesis by (simp add: re_search_def)
qed

lemma search_from_alt: "search_from (RAlt r t) prev s \<longleftrightarrow> search_from r prev s \<or> search_from t prev s"
  by (induction s arbitrary: prev) auto

lemma re_search_alt: "re_search (RAlt r t) s \<longleftrightarrow> re_search r s \<or> re_search t s"
  by (simp add: re_search_def search_from_alt)

lemma re_search_ralts: "re_search (ralts rs) s \<longleftrightarrow> (\<exists>r \<in> set rs. re_search r s)"
  by (induction rs rule: ralts.induct) (auto simp: re_search_class re_search_alt list_ex_iff)

end
