(* ===== verification/Contracts.thy ===== *)
theory Contracts
  imports Coordinator_Limits Patterns Json
begin

text \<open>
  The coordinator's durable contracts (\<^verbatim>\<open>coordinator/contracts.py\<close>): the job and publication
  state vocabularies, the transition table, request normalisation, and the projection of status
  and error documents onto their public fields.
\<close>

section \<open>States and transitions\<close>

datatype JobState =
    Queued | Claimed | Starting | Running | CancelRequested | Cancelling
  | Succeeded | Failed | Cancelled | Superseded | Quarantined | ReconciliationRequired

datatype PublicationState =
    NotApplicable | NotStarted | Prepared | TransactionStarted | Committed | RolledBack
  | CommitUnknown

fun state_name :: "JobState \<Rightarrow> string" where
  "state_name Queued = ''queued''"
| "state_name Claimed = ''claimed''"
| "state_name Starting = ''starting''"
| "state_name Running = ''running''"
| "state_name CancelRequested = ''cancel_requested''"
| "state_name Cancelling = ''cancelling''"
| "state_name Succeeded = ''succeeded''"
| "state_name Failed = ''failed''"
| "state_name Cancelled = ''cancelled''"
| "state_name Superseded = ''superseded''"
| "state_name Quarantined = ''quarantined''"
| "state_name ReconciliationRequired = ''reconciliation_required''"

definition all_job_states :: "JobState list" where
  "all_job_states = [Queued, Claimed, Starting, Running, CancelRequested, Cancelling,
     Succeeded, Failed, Cancelled, Superseded, Quarantined, ReconciliationRequired]"

definition job_state_of :: "string \<Rightarrow> JobState option" where
  \<comment> \<open>\<^verbatim>\<open>JobState(value)\<close>, \<open>None\<close> where the constructor raises\<close>
  "job_state_of s = find (\<lambda>st. state_name st = s) all_job_states"

fun publication_name :: "PublicationState \<Rightarrow> string" where
  "publication_name NotApplicable = ''not_applicable''"
| "publication_name NotStarted = ''not_started''"
| "publication_name Prepared = ''prepared''"
| "publication_name TransactionStarted = ''transaction_started''"
| "publication_name Committed = ''committed''"
| "publication_name RolledBack = ''rolled_back''"
| "publication_name CommitUnknown = ''commit_unknown''"

definition TERMINAL_JOB_STATES :: "JobState list" where
  "TERMINAL_JOB_STATES = [Succeeded, Failed, Cancelled, Superseded, Quarantined]"

definition terminal :: "JobState \<Rightarrow> bool" where
  "terminal s = List.member TERMINAL_JOB_STATES s"

fun LEGAL_TRANSITIONS :: "JobState \<Rightarrow> JobState list" where
  "LEGAL_TRANSITIONS Queued = [Claimed, Cancelled, Superseded, Quarantined]"
| "LEGAL_TRANSITIONS Claimed = [Starting, CancelRequested, ReconciliationRequired]"
| "LEGAL_TRANSITIONS Starting =
     [Running, Failed, Queued, CancelRequested, ReconciliationRequired]"
| "LEGAL_TRANSITIONS Running =
     [Succeeded, Failed, Queued, CancelRequested, ReconciliationRequired]"
| "LEGAL_TRANSITIONS CancelRequested = [Cancelling, Cancelled, ReconciliationRequired]"
| "LEGAL_TRANSITIONS Cancelling = [Cancelled, Failed, ReconciliationRequired]"
| "LEGAL_TRANSITIONS ReconciliationRequired =
     [Succeeded, Failed, Cancelled, Queued, Quarantined]"
| "LEGAL_TRANSITIONS _ = []"

definition legal :: "JobState \<Rightarrow> JobState \<Rightarrow> bool" where
  "legal s t = List.member (LEGAL_TRANSITIONS s) t"

definition validate_transition :: "string \<Rightarrow> string \<Rightarrow> JobState result" where
  "validate_transition current target =
     (case (job_state_of current, job_state_of target) of
        (Some c, Some t) \<Rightarrow>
          if legal c t then Inr t else Inl (ValueError ''illegal job transition'')
      | _ \<Rightarrow> Inl (ValueError ''illegal job transition''))"

lemma state_name_inj [simp]: "state_name s = state_name t \<longleftrightarrow> s = t"
  by (cases s; cases t) simp_all

lemma in_all_job_states [simp]: "s \<in> set all_job_states"
  by (cases s) (simp_all add: all_job_states_def)

lemma job_state_of_name [simp]: "job_state_of (state_name s) = Some s"
  by (cases s) (simp_all add: job_state_of_def all_job_states_def)

lemma job_state_of_Some: "job_state_of n = Some s \<longleftrightarrow> n = state_name s"
proof
  assume "job_state_of n = Some s"
  then show "n = state_name s" by (auto simp: job_state_of_def find_Some_iff)
qed simp

lemma validate_transition_names [simp]:
  "validate_transition (state_name s) (state_name t) =
     (if legal s t then Inr t else Inl (ValueError ''illegal job transition''))"
  by (simp add: validate_transition_def)

lemma validate_transition_Inr:
  "validate_transition c t = Inr r \<longleftrightarrow>
   (\<exists>s. c = state_name s \<and> t = state_name r \<and> legal s r)"
  by (auto simp: validate_transition_def job_state_of_Some split: option.splits if_splits)

lemma terminal_simps [simp]:
  "terminal Succeeded" "terminal Failed" "terminal Cancelled" "terminal Superseded"
  "terminal Quarantined" "\<not> terminal Queued" "\<not> terminal Claimed" "\<not> terminal Starting"
  "\<not> terminal Running" "\<not> terminal CancelRequested" "\<not> terminal Cancelling"
  "\<not> terminal ReconciliationRequired"
  by (simp_all add: terminal_def TERMINAL_JOB_STATES_def)

lemma terminal_absorbing: "terminal s \<Longrightarrow> \<not> legal s t"
  by (cases s) (simp_all add: legal_def)

lemma nonterminal_has_successor: "\<not> terminal s \<Longrightarrow> \<exists>t. legal s t"
  by (cases s) (auto simp: legal_def)

section \<open>Text patterns\<close>

definition re_GRAPH_ID :: re where
  \<comment> \<open>\<^verbatim>\<open>synthetic-[a-z0-9](?:[a-z0-9-]*[a-z0-9])?\Z\<close>\<close>
  "re_GRAPH_ID =
     (let an = (\<lambda>c. c_lower c \<or> c_digit c)
      in RSeq (foldr (\<lambda>c r. RSeq (RCls (\<lambda>d. d = c)) r) ''synthetic-'' REps)
           (RSeq (RCls an)
             (ropt (RSeq (RStar (RCls (\<lambda>c. an c \<or> c = CHR ''-''))) (RCls an)))))"

definition re_CONFIGURED_GRAPH_ID :: re where
  \<comment> \<open>\<^verbatim>\<open>[a-z][a-z0-9._-]{0,127}\Z\<close>\<close>
  "re_CONFIGURED_GRAPH_ID =
     RSeq (RCls c_lower) (RUpto 127 (RCls (\<lambda>c. c_lower c \<or> c_digit c \<or> c_in ''._-'' c)))"

definition re_GENERATION_DIGEST :: re where
  \<comment> \<open>\<^verbatim>\<open>[A-Za-z0-9][A-Za-z0-9._-]*\Z\<close>\<close>
  "re_GENERATION_DIGEST =
     RSeq (RCls c_alnum) (RStar (RCls (\<lambda>c. c_alnum c \<or> c_in ''._-'' c)))"

definition re_PUBLIC_IDENTIFIER :: re where
  \<comment> \<open>\<^verbatim>\<open>[A-Za-z0-9][A-Za-z0-9._:-]*\Z\<close>\<close>
  "re_PUBLIC_IDENTIFIER =
     RSeq (RCls c_alnum) (RStar (RCls (\<lambda>c. c_alnum c \<or> c_in ''._:-'' c)))"

definition digits :: "nat \<Rightarrow> re" where
  "digits n = rtimes n (RCls c_digit)"

definition char_re :: "char \<Rightarrow> re" where
  "char_re c = RCls (\<lambda>d. d = c)"

fun rseqs :: "re list \<Rightarrow> re" where
  "rseqs [] = REps"
| "rseqs (r # rs) = RSeq r (rseqs rs)"

definition re_UTC_TIMESTAMP :: re where
  \<comment> \<open>\<^verbatim>\<open>\d{4}-\d{2}-\d{2}T\d{2}:\d{2}:\d{2}(?:\.\d{1,6})?Z\Z\<close>\<close>
  "re_UTC_TIMESTAMP = rseqs
     [digits 4, char_re (CHR ''-''), digits 2, char_re (CHR ''-''), digits 2,
      char_re (CHR ''T''), digits 2, char_re (CHR '':''), digits 2, char_re (CHR '':''), digits 2,
      ropt (rseqs [char_re (CHR ''.''), RCls c_digit, RUpto 5 (RCls c_digit)]),
      char_re (CHR ''Z'')]"

text \<open>
  \<^verbatim>\<open>_PROHIBITED_CONTENT\<close>, one list element per alternative of the source's pattern: path
  prefixes, backslashes, credential assignments, SQL statements, shell invocations, reserved
  words, command separators, substitutions, brackets, and raw payload names.
\<close>

definition quote_char :: char where "quote_char = CHR 0x22"
definition apostrophe_char :: char where "apostrophe_char = CHR 0x27"
definition backslash :: char where "backslash = CHR 0x5C"
definition backtick :: char where "backtick = CHR 0x60"

definition slashes :: re where
  "slashes = RCls (\<lambda>c. c = CHR ''/'' \<or> c = backslash)"

definition re_PROHIBITED_alternatives :: "re list" where
  "re_PROHIBITED_alternatives = [
     RSeq (RAlt RBegin (RCls (\<lambda>c. c_space c \<or> c = quote_char \<or> c = apostrophe_char
             \<or> c = CHR ''='')))
       (ralts [char_re (CHR ''/''),
               RSeq (char_re (CHR ''~'')) slashes,
               rseqs [char_re (CHR ''.''), ropt (char_re (CHR ''.'')), slashes],
               rseqs [RCls (\<lambda>c. c_lower c \<or> c_upper c), char_re (CHR '':''), slashes]]),
     char_re backslash,
     rseqs [RWordB,
       ralts [rlit ''password'', rlit ''passwd'', rlit ''secret'', rlit ''token'',
              rseqs [rlit ''api'', ropt (RCls (c_in ''_-'')), rlit ''key''],
              rlit ''credential'', rlit ''bearer''],
       RWordB, RStar (RCls c_space), RCls (c_in '':='')],
     rseqs [RWordB,
       rwords [''select'', ''insert'', ''update'', ''delete'', ''drop'', ''alter'', ''create'',
               ''truncate'', ''grant'', ''revoke''],
       RWordB, rplus (RCls c_space), rplus (RCls c_word)],
     rseqs [RWordB,
       rwords [''sh'', ''bash'', ''zsh'', ''pwsh'', ''powershell'', ''cmd''],
       rplus (RCls c_space), rwords [''-c'', ''/c''], RWordB],
     rseqs [RWordB, rwords [''database'', ''backup'', ''command'', ''connector''], RWordB],
     RCls (\<lambda>c. c = CHR '';'' \<or> c = CHR ''|'' \<or> c = backtick),
     RSeq (char_re (CHR ''$'')) (char_re (CHR ''('')),
     RCls (c_in ''{}[]<>''),
     rseqs [RWordB, rlit ''raw'', ropt (RCls (c_in ''_ -'')),
       rwords [''payload'', ''observation'', ''source''], RWordB]]"

definition prohibited_content :: "string \<Rightarrow> bool" where
  "prohibited_content s = re_search (ralts re_PROHIBITED_alternatives) s"

lemma prohibited_char:
  assumes "c \<in> set s" and "c = backslash \<or> c = CHR '';'' \<or> c = CHR ''|'' \<or> c = backtick
    \<or> c_in ''{}[]<>'' c"
  shows "prohibited_content s"
proof -
  have "list_ex (\<lambda>d. d = backslash) s \<or> list_ex (\<lambda>d. d = CHR '';'' \<or> d = CHR ''|'' \<or> d = backtick) s
      \<or> list_ex (c_in ''{}[]<>'') s"
    using assms by (auto simp: list_ex_iff)
  then have "\<exists>r \<in> set re_PROHIBITED_alternatives. re_search r s"
    unfolding re_search_class [symmetric] by (auto simp: re_PROHIBITED_alternatives_def char_re_def)
  then show ?thesis by (simp add: prohibited_content_def re_search_ralts)
qed

section \<open>Requests\<close>

type_synonym generations = "string \<times> string \<times> string \<times> string"

datatype priority = Automatic | Manual

fun priority_name :: "priority \<Rightarrow> string" where
  "priority_name Automatic = ''automatic''"
| "priority_name Manual = ''manual''"

fun priority_of :: "pyval \<Rightarrow> priority option" where
  \<comment> \<open>membership in \<^verbatim>\<open>_PRIORITIES\<close>\<close>
  "priority_of (VStr s) =
     (if s = ''automatic'' then Some Automatic else if s = ''manual'' then Some Manual else None)"
| "priority_of _ = None"

record JobRequest =
  schema_version :: int
  job_kind :: string
  graph_id :: string
  request_id :: string
  idempotency_key :: string
  request_priority :: priority
  operation_options :: "(string \<times> string) list"
  source_generation :: string
  config_generation :: string
  extractor_generation :: string
  canonicalizer_generation :: string

definition request_generations :: "JobRequest \<Rightarrow> generations" where
  "request_generations r = (source_generation r, config_generation r,
     extractor_generation r, canonicalizer_generation r)"

definition semantic_payload :: "JobRequest \<Rightarrow> json" where
  "semantic_payload r = JObj [
     (''config_generation'', JStr (config_generation r)),
     (''canonicalizer_generation'', JStr (canonicalizer_generation r)),
     (''extractor_generation'', JStr (extractor_generation r)),
     (''graph_id'', JStr (graph_id r)),
     (''job_kind'', JStr (job_kind r)),
     (''operation_options'', JObj (map (\<lambda>(k, v). (k, JStr v)) (operation_options r))),
     (''priority'', JStr (priority_name (request_priority r))),
     (''request_id'', JStr (request_id r)),
     (''schema_version'', JInt (schema_version r)),
     (''source_generation'', JStr (source_generation r))]"

definition invalid_generation :: py_error where
  "invalid_generation = ValueError ''invalid generation''"

definition validate_generation :: "CoordinatorLimits \<Rightarrow> pyval \<Rightarrow> string \<Rightarrow> string result" where
  "validate_generation limits token prefix =
     (case token of
        VStr s \<Rightarrow>
          if \<not> List.member [''sg1:'', ''cg1:'', ''eg1:'', ''kg1:''] prefix
             \<or> int (length s) > max_identifier_chars limits
             \<or> take (length prefix) s \<noteq> prefix
             \<or> \<not> fullmatch re_GENERATION_DIGEST (drop (length prefix) s)
          then Inl invalid_generation else Inr s
      | _ \<Rightarrow> Inl invalid_generation)"

definition bounded_string :: "pyval \<Rightarrow> string \<Rightarrow> CoordinatorLimits \<Rightarrow> string result" where
  "bounded_string v name limits =
     (case v of
        VStr s \<Rightarrow>
          if s = [] \<or> int (length s) > max_identifier_chars limits
             \<or> list_ex (\<lambda>c. code c < 32 \<or> code c = 127) s
          then Inl (ValueError (''invalid '' @ name)) else Inr s
      | _ \<Rightarrow> Inl (ValueError (''invalid '' @ name)))"

fun is_public_safe_text :: "pyval \<Rightarrow> int \<Rightarrow> bool" where
  \<comment> \<open>strict UTF-8 encoding succeeds on every character of the modelled range\<close>
  "is_public_safe_text (VStr s) maximum =
     (0 < length s \<and> int (length s) \<le> maximum \<and> \<not> prohibited_content s)"
| "is_public_safe_text _ maximum = False"

definition REQUEST_FIELDS :: "string list" where
  "REQUEST_FIELDS = [''schema_version'', ''job_kind'', ''graph_id'', ''request_id'',
     ''idempotency_key'', ''priority'', ''operation_options'']"

definition request_options :: "pyval \<Rightarrow> CoordinatorLimits \<Rightarrow> string result" where
  "request_options v limits =
     (case v of
        VDict d \<Rightarrow>
          if \<not> same_set (dict_keys d) [''reason'']
          then Inl (ValueError ''unsupported operation_options'')
          else bounded_string (dict_get d ''reason'') ''reason'' limits
      | _ \<Rightarrow> Inl (ValueError ''unsupported operation_options''))"

definition graph_pattern :: "bool \<Rightarrow> re" where
  "graph_pattern require_synthetic_graph =
     (if require_synthetic_graph then re_GRAPH_ID else re_CONFIGURED_GRAPH_ID)"

fun validate_generations :: "CoordinatorLimits \<Rightarrow> generations \<Rightarrow> generations result" where
  "validate_generations limits (sg, cg, eg, kg) =
     bindE (validate_generation limits (VStr sg) ''sg1:'') (\<lambda>sg'.
     bindE (validate_generation limits (VStr cg) ''cg1:'') (\<lambda>cg'.
     bindE (validate_generation limits (VStr eg) ''eg1:'') (\<lambda>eg'.
     bindE (validate_generation limits (VStr kg) ''kg1:'') (\<lambda>kg'. Inr (sg', cg', eg', kg')))))"

definition make_request ::
  "string \<Rightarrow> string \<Rightarrow> string \<Rightarrow> priority \<Rightarrow> string \<Rightarrow> generations \<Rightarrow> JobRequest" where
  \<comment> \<open>the \<^verbatim>\<open>JobRequest(...)\<close> the normaliser builds\<close>
  "make_request gid rid key pr reason gens =
     (case gens of (sg, cg, eg, kg) \<Rightarrow>
        \<lparr>schema_version = 1, job_kind = ''refresh_graph'', graph_id = gid,
         request_id = rid, idempotency_key = key, request_priority = pr,
         operation_options = [(''reason'', reason)],
         source_generation = sg, config_generation = cg,
         extractor_generation = eg, canonicalizer_generation = kg\<rparr>)"

definition normalize_fields ::
  "(string \<times> pyval) list \<Rightarrow> generations \<Rightarrow> bool \<Rightarrow> CoordinatorLimits \<Rightarrow> JobRequest result" where
  "normalize_fields d gens require_synthetic_graph limits =
     bindE (bounded_string (dict_get d ''graph_id'') ''graph_id'' limits) (\<lambda>gid.
     guardE (fullmatch (graph_pattern require_synthetic_graph) gid)
       (ValueError ''graph_id is invalid'') (
     bindE (bounded_string (dict_get d ''request_id'') ''request_id'' limits) (\<lambda>rid.
     bindE (bounded_string (dict_get d ''idempotency_key'') ''idempotency_key'' limits) (\<lambda>key.
     bindE (case priority_of (dict_get d ''priority'') of
              None \<Rightarrow> Inl (ValueError ''unsupported priority'') | Some pr \<Rightarrow> Inr pr) (\<lambda>pr.
     bindE (request_options (dict_get d ''operation_options'') limits) (\<lambda>reason.
     guardE (\<not> list_ex prohibited_content [rid, key, reason])
       (ValueError ''request value contains prohibited content'') (
     bindE (validate_generations limits gens) (\<lambda>gens'.
       Inr (make_request gid rid key pr reason gens')))))))))"

definition normalize_request ::
  "pyval \<Rightarrow> generations \<Rightarrow> bool \<Rightarrow> CoordinatorLimits \<Rightarrow> JobRequest result" where
  "normalize_request payload gens require_synthetic_graph limits =
     (case payload of VDict d \<Rightarrow>
        guardE (same_set (dict_keys d) REQUEST_FIELDS)
          (ValueError ''request fields do not match the version-1 schema'') (
        guardE (py_eq_int (dict_get d ''schema_version'') 1 \<and> \<not> is_bool (dict_get d ''schema_version''))
          (ValueError ''unsupported schema_version'') (
        guardE (dict_get d ''job_kind'' = VStr ''refresh_graph'')
          (ValueError ''unsupported job_kind'') (
        normalize_fields d gens require_synthetic_graph limits)))
      | _ \<Rightarrow> Inl (ValueError ''request fields do not match the version-1 schema''))"

section \<open>Public projections\<close>

definition PUBLIC_STATUS_FIELDS :: "string list" where
  "PUBLIC_STATUS_FIELDS = [''job_id'', ''request_id'', ''job_kind'', ''graph_id'', ''priority'',
     ''submitted_at'', ''started_at'', ''finished_at'', ''state'', ''attempt_count'', ''phase'',
     ''files'', ''observations'', ''canonical_nodes'', ''canonical_edges'',
     ''source_generation_match'', ''config_generation_match'', ''extractor_generation_match'',
     ''canonicalizer_generation_match'']"

definition PUBLIC_COUNTER_FIELDS :: "string list" where
  "PUBLIC_COUNTER_FIELDS =
     [''attempt_count'', ''files'', ''observations'', ''canonical_nodes'', ''canonical_edges'']"

definition PUBLIC_BOOLEAN_FIELDS :: "string list" where
  "PUBLIC_BOOLEAN_FIELDS = [''source_generation_match'', ''config_generation_match'',
     ''extractor_generation_match'', ''canonicalizer_generation_match'']"

definition PUBLIC_PHASES :: "string list" where
  "PUBLIC_PHASES = [''waiting'', ''starting'', ''preflight'', ''discovery'', ''extraction'',
     ''canonicalization'', ''storage_prepare'', ''storage_publish'', ''verification'',
     ''cleanup'', ''complete'']"

definition PUBLIC_ERROR_SUMMARIES :: "(string \<times> string) list" where
  "PUBLIC_ERROR_SUMMARIES = [
     (''cancelled'', ''operation cancelled''),
     (''authorization'', ''request is unauthorized''),
     (''cancel_failed'', ''worker cancellation failed''),
     (''configuration'', ''configuration is invalid''),
     (''generation_changed'', ''requested generation changed''),
     (''internal'', ''internal coordinator failure''),
     (''permanent'', ''permanent failure''),
     (''privacy'', ''privacy policy violation''),
     (''protocol'', ''worker protocol failure''),
     (''publication_unknown'', ''publication outcome is unknown''),
     (''source_unavailable'', ''source is unavailable''),
     (''source_capture'', ''source capture failed''),
     (''storage_unavailable'', ''storage is unavailable''),
     (''superseded'', ''job was superseded''),
     (''transient'', ''transient failure''),
     (''transient_database'', ''transient database failure''),
     (''worker_crash'', ''worker crashed''),
     (''worker_launch'', ''worker failed to launch''),
     (''worker_timeout'', ''worker timed out'')]"

fun nat_of_digits :: "string \<Rightarrow> nat" where
  "nat_of_digits s = foldl (\<lambda>n c. 10 * n + (code c - 48)) 0 s"

definition leap_year :: "nat \<Rightarrow> bool" where
  "leap_year y = (y mod 4 = 0 \<and> (y mod 100 \<noteq> 0 \<or> y mod 400 = 0))"

definition days_in_month :: "nat \<Rightarrow> nat \<Rightarrow> nat" where
  "days_in_month y m =
     (if m = 2 then (if leap_year y then 29 else 28)
      else if List.member [4, 6, 9, 11] m then 30 else 31)"

definition iso_datetime_ok :: "string \<Rightarrow> bool" where
  \<comment> \<open>\<^verbatim>\<open>datetime.fromisoformat\<close> on text of the timestamp pattern's shape\<close>
  "iso_datetime_ok s =
     (let y = nat_of_digits (take 4 s); mo = nat_of_digits (take 2 (drop 5 s));
          d = nat_of_digits (take 2 (drop 8 s)); h = nat_of_digits (take 2 (drop 11 s));
          mi = nat_of_digits (take 2 (drop 14 s)); sec = nat_of_digits (take 2 (drop 17 s))
      in 1 \<le> y \<and> 1 \<le> mo \<and> mo \<le> 12 \<and> 1 \<le> d \<and> d \<le> days_in_month y mo
         \<and> h < 24 \<and> mi < 60 \<and> sec < 60)"

definition valid_utc_timestamp :: "pyval \<Rightarrow> CoordinatorLimits \<Rightarrow> bool" where
  "valid_utc_timestamp v limits =
     (case v of
        VStr s \<Rightarrow> int (length s) \<le> max_identifier_chars limits
          \<and> fullmatch re_UTC_TIMESTAMP s \<and> iso_datetime_ok s
      | _ \<Rightarrow> False)"

fun str_and :: "pyval \<Rightarrow> (string \<Rightarrow> bool) \<Rightarrow> bool" where
  \<comment> \<open>\<^verbatim>\<open>isinstance(value, str) and p(value)\<close>\<close>
  "str_and (VStr s) p = p s"
| "str_and _ p = False"

definition valid_public_status_value :: "string \<Rightarrow> pyval \<Rightarrow> CoordinatorLimits \<Rightarrow> bool" where
  "valid_public_status_value key v limits =
     (if List.member PUBLIC_COUNTER_FIELDS key then valid_counter v limits
      else if List.member [''job_id'', ''request_id''] key then
        str_and v (\<lambda>s. int (length s) \<le> max_identifier_chars limits
          \<and> fullmatch re_PUBLIC_IDENTIFIER s \<and> \<not> prohibited_content s)
      else if key = ''job_kind'' then v = VStr ''refresh_graph''
      else if key = ''graph_id'' then
        str_and v (\<lambda>s. int (length s) \<le> max_identifier_chars limits \<and> fullmatch re_GRAPH_ID s)
      else if key = ''priority'' then priority_of v \<noteq> None
      else if List.member [''submitted_at'', ''started_at'', ''finished_at''] key
      then valid_utc_timestamp v limits
      else if key = ''state'' then str_and v (\<lambda>s. job_state_of s \<noteq> None)
      else if key = ''phase'' then str_and v (List.member PUBLIC_PHASES)
      else if List.member PUBLIC_BOOLEAN_FIELDS key then is_bool v
      else False)"

definition project_fields :: "string list \<Rightarrow> (string \<times> pyval) list \<Rightarrow> (string \<times> pyval) list" where
  \<comment> \<open>\<^verbatim>\<open>{key: d[key] for key in sorted(fields & d.keys())}\<close>\<close>
  "project_fields names d =
     map (\<lambda>k. (k, dict_get d k)) (sort (filter (\<lambda>k. map_of d k \<noteq> None) names))"

definition project_public_status ::
  "(string \<times> pyval) list \<Rightarrow> CoordinatorLimits \<Rightarrow> (string \<times> pyval) list result" where
  "project_public_status status limits =
     (let public = project_fields PUBLIC_STATUS_FIELDS status
      in case find (\<lambda>(k, v). \<not> valid_public_status_value k v limits) public of
           Some (k, _) \<Rightarrow> Inl (ValueError (''invalid public status field: '' @ k))
         | None \<Rightarrow> Inr public)"

definition error_category_ok :: "pyval \<Rightarrow> bool" where
  "error_category_ok v = (v = VNone \<or> str_and v (\<lambda>s. map_of PUBLIC_ERROR_SUMMARIES s \<noteq> None))"

definition project_public_error ::
  "(string \<times> pyval) list \<Rightarrow> (string \<times> pyval) list result" where
  "project_public_error err =
     (let public = project_fields [''error_category'', ''retryable'', ''summary''] err;
          category = dict_get public ''error_category''
      in if \<not> error_category_ok category
         then Inl (ValueError ''invalid public error category'')
         else if map_of public ''retryable'' \<noteq> None \<and> \<not> is_bool (dict_get public ''retryable'')
         then Inl (ValueError ''invalid retryable'')
         else if map_of public ''summary'' \<noteq> None
           \<and> \<not> str_and (dict_get public ''summary'') (\<lambda>_. True)
         then Inl (ValueError ''invalid summary'')
         else case category of
           VStr c \<Rightarrow> Inr (AList.update ''summary''
             (VStr (the (map_of PUBLIC_ERROR_SUMMARIES c))) public)
         | _ \<Rightarrow> if map_of public ''summary'' \<noteq> None
               then Inl (ValueError ''invalid public error category'')
               else Inr public)"

section \<open>Properties of normalisation and projection\<close>

lemma validate_generation_Inr:
  "validate_generation limits v p = Inr s \<longleftrightarrow>
   v = VStr s \<and> p \<in> {''sg1:'', ''cg1:'', ''eg1:'', ''kg1:''}
   \<and> int (length s) \<le> max_identifier_chars limits
   \<and> (\<exists>c cs. s = p @ c # cs \<and> c_alnum c \<and> list_all (\<lambda>d. c_alnum d \<or> c_in ''._-'' d) cs)"
proof -
  have split: "take (length p) s = p \<and> fullmatch re_GENERATION_DIGEST (drop (length p) s) \<longleftrightarrow>
      (\<exists>c cs. s = p @ c # cs \<and> c_alnum c \<and> list_all (\<lambda>d. c_alnum d \<or> c_in ''._-'' d) cs)"
    (is "?L \<longleftrightarrow> ?R")
  proof
    assume L: ?L
    then obtain c cs where "drop (length p) s = c # cs" "c_alnum c"
      "list_all (\<lambda>d. c_alnum d \<or> c_in ''._-'' d) cs"
      unfolding re_GENERATION_DIGEST_def fullmatch_head_star by blast
    moreover have "s = p @ drop (length p) s"
      using L append_take_drop_id [of "length p" s] by simp
    ultimately show ?R by auto
  next
    assume ?R
    then show ?L unfolding re_GENERATION_DIGEST_def fullmatch_head_star by auto
  qed
  show ?thesis
    unfolding split [symmetric]
    by (cases v) (auto simp: validate_generation_def)
qed

lemma bounded_string_Inr:
  "bounded_string v name limits = Inr s \<longleftrightarrow>
   v = VStr s \<and> s \<noteq> [] \<and> int (length s) \<le> max_identifier_chars limits
   \<and> (\<forall>c \<in> set s. 32 \<le> code c \<and> code c \<noteq> 127)"
  by (auto simp: bounded_string_def list_ex_iff split: pyval.splits if_splits) force+

lemma request_options_Inr:
  "request_options v limits = Inr s \<longleftrightarrow>
   (\<exists>d. v = VDict d \<and> set (dict_keys d) = {''reason''}
     \<and> bounded_string (dict_get d ''reason'') ''reason'' limits = Inr s)"
  by (auto simp: request_options_def same_set_iff split: pyval.splits if_splits)

definition request_payload :: "JobRequest \<Rightarrow> pyval" where
  \<comment> \<open>the payload that describes an already normalised request\<close>
  "request_payload r = VDict [
     (''schema_version'', VInt (schema_version r)),
     (''job_kind'', VStr (job_kind r)),
     (''graph_id'', VStr (graph_id r)),
     (''request_id'', VStr (request_id r)),
     (''idempotency_key'', VStr (idempotency_key r)),
     (''priority'', VStr (priority_name (request_priority r))),
     (''operation_options'', VDict (map (\<lambda>(k, v). (k, VStr v)) (operation_options r)))]"

definition well_formed_request :: "CoordinatorLimits \<Rightarrow> bool \<Rightarrow> JobRequest \<Rightarrow> bool" where
  \<comment> \<open>the constraints every normalised request satisfies\<close>
  "well_formed_request limits synthetic r =
     (\<exists>gid rid key pr reason gens.
        r = make_request gid rid key pr reason gens
        \<and> bounded_string (VStr gid) ''graph_id'' limits = Inr gid
        \<and> fullmatch (graph_pattern synthetic) gid
        \<and> bounded_string (VStr rid) ''request_id'' limits = Inr rid
        \<and> bounded_string (VStr key) ''idempotency_key'' limits = Inr key
        \<and> bounded_string (VStr reason) ''reason'' limits = Inr reason
        \<and> \<not> list_ex prohibited_content [rid, key, reason]
        \<and> validate_generations limits gens = Inr gens)"

lemma bounded_string_again:
  "bounded_string v name limits = Inr s \<Longrightarrow> bounded_string (VStr s) name limits = Inr s"
  by (simp add: bounded_string_Inr)

lemma request_options_again:
  "request_options v limits = Inr s \<Longrightarrow> bounded_string (VStr s) ''reason'' limits = Inr s"
  by (auto simp: request_options_Inr intro: bounded_string_again)

lemma validate_generations_same: "validate_generations limits g = Inr g' \<Longrightarrow> g' = g"
  by (cases g) (auto simp: result_simps validate_generation_Inr)

lemma request_generations_make [simp]:
  "request_generations (make_request gid rid key pr reason gens) = gens"
  by (cases gens) (simp add: request_generations_def make_request_def)

lemma normalize_fields_well_formed:
  assumes "normalize_fields d gens synthetic limits = Inr r"
  shows "well_formed_request limits synthetic r \<and> request_generations r = gens"
proof -
  from assms obtain gid rid key pr reason gens' where
    texts: "bounded_string (dict_get d ''graph_id'') ''graph_id'' limits = Inr gid"
      "bounded_string (dict_get d ''request_id'') ''request_id'' limits = Inr rid"
      "bounded_string (dict_get d ''idempotency_key'') ''idempotency_key'' limits = Inr key"
      "request_options (dict_get d ''operation_options'') limits = Inr reason"
    and rest: "fullmatch (graph_pattern synthetic) gid"
      "\<not> list_ex prohibited_content [rid, key, reason]"
      "validate_generations limits gens = Inr gens'"
      "r = make_request gid rid key pr reason gens'"
    unfolding normalize_fields_def result_simps by blast
  have "gens' = gens" by (rule validate_generations_same [OF rest(3)])
  moreover have "well_formed_request limits synthetic r"
    unfolding well_formed_request_def
    by (rule exI [of _ gid], rule exI [of _ rid], rule exI [of _ key], rule exI [of _ pr],
        rule exI [of _ reason], rule exI [of _ gens'],
        use rest calculation texts(1-3) [THEN bounded_string_again]
          request_options_again [OF texts(4)] in simp)
  ultimately show ?thesis using rest(4) by simp
qed

lemma normalize_request_well_formed:
  assumes "normalize_request payload gens synthetic limits = Inr r"
  shows "well_formed_request limits synthetic r" and "request_generations r = gens"
  using assms
  by (auto simp: normalize_request_def result_simps split: pyval.splits
      dest: normalize_fields_well_formed)

lemma priority_of_name [simp]: "priority_of (VStr (priority_name p)) = Some p"
  by (cases p) simp_all

lemma request_payload_get:
  assumes "r = make_request gid rid key pr reason gens"
  shows "\<exists>d. request_payload r = VDict d \<and> same_set (dict_keys d) REQUEST_FIELDS
    \<and> dict_get d ''schema_version'' = VInt 1 \<and> dict_get d ''job_kind'' = VStr ''refresh_graph''
    \<and> dict_get d ''graph_id'' = VStr gid \<and> dict_get d ''request_id'' = VStr rid
    \<and> dict_get d ''idempotency_key'' = VStr key
    \<and> dict_get d ''priority'' = VStr (priority_name pr)
    \<and> dict_get d ''operation_options'' = VDict [(''reason'', VStr reason)]"
  unfolding assms request_payload_def make_request_def
  by (cases gens) (simp add: dict_get_def dict_keys_def REQUEST_FIELDS_def same_set_def)

lemma normalize_request_payload:
  assumes "well_formed_request limits synthetic r"
  shows "normalize_request (request_payload r) (request_generations r) synthetic limits = Inr r"
proof -
  from assms obtain gid rid key pr reason gens where
      r: "r = make_request gid rid key pr reason gens"
    and ok: "bounded_string (VStr gid) ''graph_id'' limits = Inr gid"
      "fullmatch (graph_pattern synthetic) gid"
      "bounded_string (VStr rid) ''request_id'' limits = Inr rid"
      "bounded_string (VStr key) ''idempotency_key'' limits = Inr key"
      "bounded_string (VStr reason) ''reason'' limits = Inr reason"
      "\<not> list_ex prohibited_content [rid, key, reason]"
      "validate_generations limits gens = Inr gens"
    unfolding well_formed_request_def by blast
  have "request_options (VDict [(''reason'', VStr reason)]) limits = Inr reason"
    using ok(5) by (simp add: request_options_def dict_keys_def dict_get_def same_set_def)
  with request_payload_get [OF r] ok r show ?thesis
    by (auto simp: normalize_request_def normalize_fields_def simp del: priority_of.simps)
qed

lemma set_project_fields:
  "set (project_fields names d) = {(k, v). k \<in> set names \<and> map_of d k = Some v}"
  by (auto simp: project_fields_def dict_get_def image_iff split: option.splits)

lemma project_public_status_Inr:
  assumes "project_public_status status limits = Inr public"
  shows "set public = {(k, v). k \<in> set PUBLIC_STATUS_FIELDS \<and> map_of status k = Some v}"
    and "\<forall>(k, v) \<in> set public. valid_public_status_value k v limits"
    and "sorted (map fst public)"
proof -
  have p: "public = project_fields PUBLIC_STATUS_FIELDS status"
    and n: "find (\<lambda>(k, v). \<not> valid_public_status_value k v limits) public = None"
    using assms by (auto simp: project_public_status_def Let_def split: option.splits prod.splits)
  show "set public = {(k, v). k \<in> set PUBLIC_STATUS_FIELDS \<and> map_of status k = Some v}"
    by (simp add: p set_project_fields)
  show "\<forall>(k, v) \<in> set public. valid_public_status_value k v limits"
    using n by (auto simp: find_None_iff)
  show "sorted (map fst public)"
    by (simp add: p project_fields_def comp_def)
qed

end
