(* ===== verification/Semantics.thy ===== *)
theory Semantics
  imports Contracts
begin

text \<open>
  The pure coordinator rules (\<^verbatim>\<open>coordinator/semantics.py\<close>): collapsing automatic hints into one
  desired intent, deciding what publication evidence means, retry policy, and progress throttling.
  Delays are rationals; the random jitter of a delay is its fraction of the cap.
\<close>

section \<open>Coalescing\<close>

record AutomaticIntent =
  intent_graph :: string
  intent_generations :: generations
  queued_job :: "string option"
  running_job :: "string option"
  dirty :: bool
  follow_up_pending :: bool

datatype coalescing_action = Unchanged | ReplaceQueued | FollowUp | Enqueue

record CoalescingDecision =
  action :: coalescing_action
  intent :: AutomaticIntent
  replaced_job :: "string option"
  manual_jobs_affected :: int

definition decision :: "coalescing_action \<Rightarrow> AutomaticIntent \<Rightarrow> string option \<Rightarrow> CoalescingDecision" where
  "decision a i r = \<lparr>action = a, intent = i, replaced_job = r, manual_jobs_affected = 0\<rparr>"

definition coalesce_automatic_hint ::
  "AutomaticIntent option \<Rightarrow> generations \<Rightarrow> string option \<Rightarrow> CoalescingDecision result" where
  "coalesce_automatic_hint current gens gid =
     (case current of
        None \<Rightarrow>
          (case gid of
             None \<Rightarrow> Inl (ValueError ''graph id is required for new automatic intent'')
           | Some g \<Rightarrow> Inr (decision Enqueue
               \<lparr>intent_graph = g, intent_generations = gens, queued_job = None,
                running_job = None, dirty = True, follow_up_pending = False\<rparr> None))
      | Some cur \<Rightarrow>
          if intent_generations cur = gens then Inr (decision Unchanged cur None)
          else
            let updated = cur\<lparr>intent_generations := gens, dirty := True\<rparr>
            in if running_job cur \<noteq> None then
                 (if follow_up_pending cur then Inr (decision Unchanged updated None)
                  else Inr (decision FollowUp (updated\<lparr>follow_up_pending := True\<rparr>) None))
               else if queued_job cur \<noteq> None then
                 Inr (decision ReplaceQueued (updated\<lparr>queued_job := None\<rparr>) (queued_job cur))
               else Inr (decision Enqueue updated None))"

definition publication_is_current :: "generations \<Rightarrow> generations \<Rightarrow> bool" where
  "publication_is_current expected actual = (expected = actual)"

section \<open>Publication evidence\<close>

datatype marker_class = MatchingCommitted | Absent | Conflicting | Unknown
datatype absence_proof = Unproved | FencedAbsence

definition decide_publication ::
  "PublicationState \<Rightarrow> marker_class \<Rightarrow> bool \<Rightarrow> absence_proof \<Rightarrow> JobState" where
  \<comment> \<open>\<^verbatim>\<open>semantics.reconcile_publication\<close>\<close>
  "decide_publication ps marker cancel_requested proof =
     (if marker = MatchingCommitted then Succeeded
      else if marker = Conflicting then Quarantined
      else if proof = FencedAbsence \<and> ps \<noteq> NotStarted then ReconciliationRequired
      else if marker = Unknown \<or> ps = TransactionStarted \<or> ps = CommitUnknown
      then ReconciliationRequired
      else if marker = Absent \<and> List.member [NotStarted, Prepared, RolledBack] ps then
        (if \<not> cancel_requested then Queued
         else if ps = RolledBack \<or> (ps = NotStarted \<and> proof = FencedAbsence) then Cancelled
         else ReconciliationRequired)
      else ReconciliationRequired)"

section \<open>Retry policy\<close>

definition RETRYABLE :: "string list" where
  "RETRYABLE = [''transient'', ''transient_database'', ''source_unavailable'',
     ''storage_unavailable'', ''worker_launch'', ''worker_crash'', ''worker_timeout'']"

definition SAFE_UNPUBLISHED :: "PublicationState list" where
  "SAFE_UNPUBLISHED = [NotStarted, Prepared, RolledBack]"

definition safe_unpublished :: "PublicationState \<Rightarrow> bool" where
  "safe_unpublished ps = List.member SAFE_UNPUBLISHED ps"

record RetryPolicy =
  max_attempts :: int
  base_seconds :: rat
  maximum_seconds :: rat

definition make_retry_policy :: "int \<Rightarrow> rat \<Rightarrow> rat \<Rightarrow> RetryPolicy result" where
  "make_retry_policy n base cap =
     (if n \<le> 0 \<or> base \<le> 0 \<or> cap \<le> 0 \<or> base > cap
      then Inl (ValueError ''retry policy is invalid'')
      else Inr \<lparr>max_attempts = n, base_seconds = base, maximum_seconds = cap\<rparr>)"

definition may_retry :: "RetryPolicy \<Rightarrow> int \<Rightarrow> string \<Rightarrow> PublicationState \<Rightarrow> bool" where
  "may_retry p attempt category ps =
     (0 < attempt \<and> attempt < max_attempts p \<and> List.member RETRYABLE category \<and> safe_unpublished ps)"

definition delay_seconds :: "RetryPolicy \<Rightarrow> int \<Rightarrow> string \<Rightarrow> rat \<Rightarrow> rat result" where
  \<comment> \<open>\<open>jitter\<close> in \<open>[0, 1]\<close> is the random fraction of \<^verbatim>\<open>rng.uniform(0, cap)\<close>\<close>
  "delay_seconds p attempt category jitter =
     (if \<not> may_retry p attempt category RolledBack
      then Inl (ValueError ''retry is not permitted'')
      else Inr (jitter * min (maximum_seconds p) (base_seconds p * 2 ^ nat (attempt - 1))))"

section \<open>Progress\<close>

record ProgressSnapshot =
  progress_phase :: string
  completed :: int
  total :: "int option"
  recorded_at :: int

definition make_progress :: "string \<Rightarrow> pyval \<Rightarrow> pyval \<Rightarrow> int \<Rightarrow> ProgressSnapshot result" where
  "make_progress phase c t stamp =
     (case (c, t) of
        (VInt i, VNone) \<Rightarrow>
          if i < 0 \<or> i > max_counter DEFAULT_LIMITS then Inl (ValueError ''progress is invalid'')
          else Inr \<lparr>progress_phase = phase, completed = i, total = None, recorded_at = stamp\<rparr>
      | (VInt i, VInt n) \<Rightarrow>
          if i < 0 \<or> i > max_counter DEFAULT_LIMITS \<or> n < i \<or> n > max_counter DEFAULT_LIMITS
          then Inl (ValueError ''progress is invalid'')
          else Inr \<lparr>progress_phase = phase, completed = i, total = Some n, recorded_at = stamp\<rparr>
      | _ \<Rightarrow> Inl (ValueError ''progress is invalid''))"

definition should_persist_progress ::
  "ProgressSnapshot \<Rightarrow> ProgressSnapshot \<Rightarrow> int \<Rightarrow> int \<Rightarrow> bool result" where
  "should_persist_progress previous current minimum_interval minimum_counter_delta =
     (if minimum_interval < 0 \<or> minimum_counter_delta < 0
      then Inl (ValueError ''progress policy is invalid'')
      else if progress_phase current \<noteq> progress_phase previous \<or> total current \<noteq> total previous
      then Inr True
      else if completed current - completed previous \<ge> minimum_counter_delta then Inr True
      else Inr (recorded_at current - recorded_at previous \<ge> minimum_interval))"

section \<open>Properties\<close>

lemma safe_unpublished_simps [simp]:
  "safe_unpublished NotStarted" "safe_unpublished Prepared" "safe_unpublished RolledBack"
  "\<not> safe_unpublished Committed" "\<not> safe_unpublished CommitUnknown"
  "\<not> safe_unpublished TransactionStarted" "\<not> safe_unpublished NotApplicable"
  by (simp_all add: safe_unpublished_def SAFE_UNPUBLISHED_def)

lemma decide_publication_legal: "legal ReconciliationRequired (decide_publication ps m c p)
    \<or> decide_publication ps m c p = ReconciliationRequired"
  by (auto simp: decide_publication_def legal_def)

lemma decide_publication_safe:
  assumes "decide_publication ps m c p \<in> {Queued, Cancelled}"
  shows "safe_unpublished ps" and "m = Absent"
  using assms by (auto simp: decide_publication_def safe_unpublished_def SAFE_UNPUBLISHED_def
      split: if_splits; cases m; auto)+

lemma coalesce_hint_desired:
  assumes "coalesce_automatic_hint current gens gid = Inr d"
  shows "intent_generations (intent d) = gens"
  using assms by (auto simp: coalesce_automatic_hint_def decision_def Let_def
      split: option.splits if_splits)

lemma coalesce_hint_manual:
  "coalesce_automatic_hint current gens gid = Inr d \<Longrightarrow> manual_jobs_affected d = 0"
  by (auto simp: coalesce_automatic_hint_def decision_def Let_def split: option.splits if_splits)

lemma coalesce_hint_idempotent:
  assumes "coalesce_automatic_hint current gens gid = Inr d"
  shows "coalesce_automatic_hint (Some (intent d)) gens gid' = Inr (decision Unchanged (intent d) None)"
  using coalesce_hint_desired [OF assms] by (simp add: coalesce_automatic_hint_def)

lemma delay_bounds:
  assumes "delay_seconds p attempt category jitter = Inr d" and "0 \<le> jitter" and "jitter \<le> 1"
    and "0 < base_seconds p" and "0 < maximum_seconds p"
  shows "0 \<le> d" and "d \<le> maximum_seconds p" and "d \<le> base_seconds p * 2 ^ nat (attempt - 1)"
proof -
  let ?cap = "min (maximum_seconds p) (base_seconds p * 2 ^ nat (attempt - 1))"
  have d: "d = jitter * ?cap"
    using assms(1) by (auto simp: delay_seconds_def split: if_splits)
  have cap: "0 \<le> ?cap" using assms(4,5) by (simp add: min_def)
  with d assms(2) show "0 \<le> d" by simp
  have "d \<le> ?cap" using mult_right_mono [OF assms(3) cap] d by simp
  then show "d \<le> maximum_seconds p" and "d \<le> base_seconds p * 2 ^ nat (attempt - 1)" by simp_all
qed

end
