(* ===== verification/Control_Db.thy ===== *)
theory Control_Db
  imports Semantics
begin

text \<open>
  The control database: one record per row type of \<^verbatim>\<open>coordinator-rdbms\<close>'s schema, the tables, the
  constraints PostgreSQL enforces on them, and the statement shapes the store uses.

  Every store operation is one transaction. It maps a database to an exception (\<open>Inl\<close>), in which
  case the transaction rolls back and the database is the one before, or to a result and the
  committed database. Transactions are atomic: the row locks and table locks the statements take
  serialise them. Timestamps and durations are integers in microseconds.
\<close>

section \<open>Rows\<close>

datatype instance_status = ActiveInstance | StoppedInstance

record instance_row =
  ci_instance_id :: string
  ci_fencing_epoch :: int
  ci_started_at :: int
  ci_heartbeat_at :: int
  ci_expires_at :: int
  ci_stopped_at :: "int option"
  ci_status :: instance_status

record job_row =
  j_job_id :: string
  j_schema_version :: int
  j_job_kind :: string
  j_graph_id :: string
  j_request_id :: string
  j_requester :: string
  j_idempotency_digest :: string
  j_request_fingerprint :: string
  j_priority_class :: priority
  j_priority_value :: int
  j_generations :: generations
  j_operation_options :: "(string \<times> string) list"
  j_state :: JobState
  j_publication_state :: PublicationState
  j_current_attempt :: int
  j_next_eligible_at :: int
  j_phase :: string
  j_progress_completed :: int
  j_progress_total :: "int option"
  j_error_category :: "string option"
  j_cancel_requested_at :: "int option"
  j_submitted_at :: int
  j_updated_at :: int
  j_finished_at :: "int option"
  j_replacement_job_id :: "string option"
  j_parent_job_id :: "string option"

record attempt_row =
  a_job_id :: string
  a_attempt :: int
  a_instance_id :: string
  a_fencing_epoch :: int
  a_is_current :: bool
  a_started_at :: int
  a_heartbeat_at :: int
  a_finished_at :: "int option"
  a_generations :: generations
  a_result_category :: "string option"
  a_publication_state :: PublicationState
  a_diagnostic_summary :: "string option"
  a_graph_lease_epoch :: int
  a_registration_digest :: "string option"
  a_registration_consumed :: bool

record lease_row =
  gl_graph_id :: string
  gl_job_id :: string
  gl_attempt :: int
  gl_instance_id :: string
  gl_fencing_epoch :: int
  gl_acquired_at :: int
  gl_heartbeat_at :: int
  gl_expires_at :: int
  gl_graph_lease_epoch :: int

record intent_row =
  cs_graph_id :: string
  cs_generations :: generations
  cs_dirty :: bool
  cs_paused :: bool
  cs_reason_categories :: "string list"
  cs_queued_job_id :: "string option"
  cs_running_job_id :: "string option"
  cs_next_reconcile_at :: "int option"
  cs_last_hint_at :: int

record marker_row =
  m_job_id :: string
  m_attempt :: int
  m_graph_id :: string
  m_run_identity :: string
  m_generations :: generations
  m_outcome :: string
  m_published_at :: int

record control_db =
  jobs :: "(string, job_row) table"
  attempts :: "(string \<times> int, attempt_row) table"
  leases :: "(string, lease_row) table"
  intents :: "(string, intent_row) table"
  markers :: "(string \<times> int, marker_row) table"
  singleton :: "instance_row option"

definition empty_db :: control_db where
  "empty_db = \<lparr>jobs = [], attempts = [], leases = [], intents = [], markers = [],
     singleton = None\<rparr>"

text \<open>
  What PostgreSQL tells a transaction: \<open>tx_now\<close> is \<^verbatim>\<open>now()\<close>, the transaction's start, \<open>tx_clock\<close> is
  \<^verbatim>\<open>clock_timestamp()\<close>, \<open>tx_xid\<close> is the transaction id, and \<open>tx_admitted\<close> says whether the shared
  maintenance lock was granted.
\<close>

record tx_env =
  tx_now :: int
  tx_clock :: int
  tx_xid :: int
  tx_admitted :: bool

definition usec :: "int \<Rightarrow> int" where
  "usec seconds = seconds * 1000000"

section \<open>Results and claims\<close>

record SubmissionResult =
  sr_job_id :: string
  sr_state :: JobState
  sr_replayed :: bool

record JobClaim =
  c_job_id :: string
  c_graph_id :: string
  c_attempt :: int
  c_instance_id :: string
  c_fencing_epoch :: int
  c_priority_class :: priority
  c_generations :: generations
  c_graph_lease_epoch :: int

record JobStatus =
  s_job_id :: string
  s_graph_id :: string
  s_state :: JobState
  s_attempt :: int
  s_publication_state :: PublicationState
  s_phase :: string
  s_completed :: int
  s_total :: "int option"
  s_error_category :: "string option"
  s_diagnostic_summary :: "string option"

section \<open>Constraints\<close>

definition job_checks :: "job_row \<Rightarrow> bool" where
  "job_checks j =
     (j_schema_version j = 1 \<and> j_job_kind j = ''refresh_graph''
      \<and> length (j_idempotency_digest j) = 64 \<and> length (j_request_fingerprint j) = 64
      \<and> 0 \<le> j_priority_value j \<and> j_priority_value j \<le> 100
      \<and> (j_state j = Succeeded \<longrightarrow> j_publication_state j = Committed)
      \<and> (List.member [Failed, Cancelled, Superseded] (j_state j)
           \<longrightarrow> safe_unpublished (j_publication_state j))
      \<and> (j_state j = Queued \<longrightarrow> j_publication_state j \<noteq> CommitUnknown)
      \<and> 0 \<le> j_current_attempt j
      \<and> List.member PUBLIC_PHASES (j_phase j)
      \<and> 0 \<le> j_progress_completed j
      \<and> (case j_progress_total j of None \<Rightarrow> True | Some t \<Rightarrow> j_progress_completed j \<le> t))"

definition hex64 :: "string \<Rightarrow> bool" where
  "hex64 s = (length s = 64 \<and> list_all (\<lambda>c. c_digit c \<or> in_range 97 102 c) s)"

definition attempt_checks :: "attempt_row \<Rightarrow> bool" where
  "attempt_checks a =
     (0 < a_attempt a \<and> 0 < a_fencing_epoch a \<and> 0 \<le> a_graph_lease_epoch a
      \<and> (case a_registration_digest a of None \<Rightarrow> True | Some d \<Rightarrow> hex64 d))"

definition lease_checks :: "lease_row \<Rightarrow> bool" where
  "lease_checks l = (0 < gl_fencing_epoch l \<and> 0 \<le> gl_graph_lease_epoch l)"

section \<open>Statements\<close>

definition write_job :: "job_row \<Rightarrow> control_db \<Rightarrow> control_db result" where
  "write_job j db = guardE (job_checks j) (CheckViolation ''jobs'')
     (Inr (db\<lparr>jobs := AList.update (j_job_id j) j (jobs db)\<rparr>))"

text \<open>\<^verbatim>\<open>UPDATE jobs SET .. WHERE job_id = %s AND ..\<close>; the boolean is \<^verbatim>\<open>rowcount == 1\<close>.\<close>

definition update_job ::
  "string \<Rightarrow> (job_row \<Rightarrow> bool) \<Rightarrow> (job_row \<Rightarrow> job_row) \<Rightarrow> control_db \<Rightarrow> (bool \<times> control_db) result" where
  "update_job jid p f db =
     (case map_of (jobs db) jid of
        Some j \<Rightarrow> if p j then bindE (write_job (f j) db) (\<lambda>db'. Inr (True, db')) else Inr (False, db)
      | None \<Rightarrow> Inr (False, db))"

definition update_attempt ::
  "string \<times> int \<Rightarrow> (attempt_row \<Rightarrow> bool) \<Rightarrow> (attempt_row \<Rightarrow> attempt_row) \<Rightarrow> control_db
   \<Rightarrow> (bool \<times> control_db) result" where
  "update_attempt key p f db =
     (case map_of (attempts db) key of
        Some a \<Rightarrow>
          if p a then guardE (attempt_checks (f a)) (CheckViolation ''job_attempts'')
            (Inr (True, db\<lparr>attempts := AList.update key (f a) (attempts db)\<rparr>))
          else Inr (False, db)
      | None \<Rightarrow> Inr (False, db))"

definition update_intent ::
  "string \<Rightarrow> (intent_row \<Rightarrow> bool) \<Rightarrow> (intent_row \<Rightarrow> intent_row) \<Rightarrow> control_db \<Rightarrow> bool \<times> control_db" where
  "update_intent gid p f db =
     (case map_of (intents db) gid of
        Some i \<Rightarrow> if p i then (True, db\<lparr>intents := AList.update gid (f i) (intents db)\<rparr>) else (False, db)
      | None \<Rightarrow> (False, db))"

definition delete_lease ::
  "string \<Rightarrow> (lease_row \<Rightarrow> bool) \<Rightarrow> control_db \<Rightarrow> bool \<times> control_db" where
  "delete_lease gid p db =
     (case map_of (leases db) gid of
        Some l \<Rightarrow> if p l then (True, db\<lparr>leases := AList.delete gid (leases db)\<rparr>) else (False, db)
      | None \<Rightarrow> (False, db))"

definition job_key_clash :: "job_row \<Rightarrow> control_db \<Rightarrow> bool" where
  \<comment> \<open>\<^verbatim>\<open>UNIQUE (requester, job_kind, graph_id, idempotency_digest)\<close>\<close>
  "job_key_clash j db = list_ex (\<lambda>(k, r). j_requester r = j_requester j
     \<and> j_job_kind r = j_job_kind j \<and> j_graph_id r = j_graph_id j
     \<and> j_idempotency_digest r = j_idempotency_digest j) (jobs db)"

definition insert_job :: "job_row \<Rightarrow> control_db \<Rightarrow> control_db result" where
  "insert_job j db =
     (if map_of (jobs db) (j_job_id j) \<noteq> None then Inl (UniqueViolation ''jobs_pkey'')
      else if job_key_clash j db
      then Inl (UniqueViolation ''jobs_requester_job_kind_graph_id_idempotency_digest_key'')
      else write_job j db)"

definition insert_attempt :: "attempt_row \<Rightarrow> control_db \<Rightarrow> control_db result" where
  "insert_attempt a db =
     (let key = (a_job_id a, a_attempt a)
      in if \<not> attempt_checks a then Inl (CheckViolation ''job_attempts'')
         else if map_of (attempts db) key \<noteq> None then Inl (UniqueViolation ''job_attempts_pkey'')
         else if a_is_current a
           \<and> list_ex (\<lambda>(k, r). a_job_id r = a_job_id a \<and> a_is_current r) (attempts db)
         then Inl (UniqueViolation ''uq_job_attempts_current'')
         else if map_of (jobs db) (a_job_id a) = None
         then Inl (ForeignKeyViolation ''job_attempts_job_id_fkey'')
         else Inr (db\<lparr>attempts := AList.update key a (attempts db)\<rparr>))"

definition insert_lease :: "lease_row \<Rightarrow> control_db \<Rightarrow> control_db result" where
  "insert_lease l db =
     (if \<not> lease_checks l then Inl (CheckViolation ''graph_leases'')
      else if map_of (leases db) (gl_graph_id l) \<noteq> None
      then Inl (UniqueViolation ''graph_leases_pkey'')
      else if list_ex (\<lambda>(k, r). gl_job_id r = gl_job_id l \<and> gl_attempt r = gl_attempt l) (leases db)
      then Inl (UniqueViolation ''graph_leases_job_id_attempt_key'')
      else if map_of (attempts db) (gl_job_id l, gl_attempt l) = None
      then Inl (ForeignKeyViolation ''graph_leases_job_id_attempt_fkey'')
      else Inr (db\<lparr>leases := AList.update (gl_graph_id l) l (leases db)\<rparr>))"

text \<open>\<^verbatim>\<open>COALESCE(%s, column)\<close>.\<close>

definition coalesce :: "'a option \<Rightarrow> 'a option \<Rightarrow> 'a option" where
  "coalesce new old = (case new of None \<Rightarrow> old | Some x \<Rightarrow> Some x)"

definition owned_by :: "JobClaim \<Rightarrow> attempt_row \<Rightarrow> bool" where
  \<comment> \<open>\<^verbatim>\<open>is_current AND coordinator_instance_id = %s AND fencing_epoch = %s\<close>\<close>
  "owned_by c a = (a_is_current a \<and> a_instance_id a = c_instance_id c
     \<and> a_fencing_epoch a = c_fencing_epoch c)"

definition claim_key :: "JobClaim \<Rightarrow> string \<times> int" where
  "claim_key c = (c_job_id c, c_attempt c)"

definition lease_of_claim :: "JobClaim \<Rightarrow> lease_row \<Rightarrow> bool" where
  "lease_of_claim c l = (gl_job_id l = c_job_id c \<and> gl_attempt l = c_attempt c
     \<and> gl_instance_id l = c_instance_id c \<and> gl_fencing_epoch l = c_fencing_epoch c)"

definition live_owner :: "int \<Rightarrow> string \<Rightarrow> int \<Rightarrow> control_db \<Rightarrow> bool" where
  \<comment> \<open>the singleton row is this instance's, active and unexpired at the given time\<close>
  "live_owner t iid epoch db =
     (case singleton db of
        Some c \<Rightarrow> ci_instance_id c = iid \<and> ci_fencing_epoch c = epoch
          \<and> ci_status c = ActiveInstance \<and> ci_expires_at c > t
      | None \<Rightarrow> False)"

section \<open>What the statements do\<close>

lemma update_job_cases:
  assumes "update_job jid p f db = Inr (b, db')"
  obtains (updated) j where "b" "map_of (jobs db) jid = Some j" "p j" "job_checks (f j)"
      "db' = db\<lparr>jobs := AList.update (j_job_id (f j)) (f j) (jobs db)\<rparr>"
    | (same) "\<not> b" "db' = db" "\<forall>j. map_of (jobs db) jid = Some j \<longrightarrow> \<not> p j"
  using assms by (auto simp: update_job_def write_job_def result_simps split: option.splits if_splits)

lemma update_attempt_cases:
  assumes "update_attempt key p f db = Inr (b, db')"
  obtains (updated) a where "b" "map_of (attempts db) key = Some a" "p a" "attempt_checks (f a)"
      "db' = db\<lparr>attempts := AList.update key (f a) (attempts db)\<rparr>"
    | (same) "\<not> b" "db' = db" "\<forall>a. map_of (attempts db) key = Some a \<longrightarrow> \<not> p a"
  using assms by (auto simp: update_attempt_def result_simps split: option.splits if_splits)

lemma update_intent_cases:
  assumes "update_intent gid p f db = (b, db')"
  obtains (updated) i where "b" "map_of (intents db) gid = Some i" "p i"
      "db' = db\<lparr>intents := AList.update gid (f i) (intents db)\<rparr>"
    | (same) "\<not> b" "db' = db"
  using assms by (auto simp: update_intent_def split: option.splits if_splits)

lemma delete_lease_cases:
  assumes "delete_lease gid p db = (b, db')"
  obtains (deleted) l where "b" "map_of (leases db) gid = Some l" "p l"
      "db' = db\<lparr>leases := AList.delete gid (leases db)\<rparr>"
    | (same) "\<not> b" "db' = db" "\<forall>l. map_of (leases db) gid = Some l \<longrightarrow> \<not> p l"
  using assms by (auto simp: delete_lease_def split: option.splits if_splits)

lemma insert_job_Inr:
  assumes "insert_job j db = Inr db'"
  shows "map_of (jobs db) (j_job_id j) = None" and "\<not> job_key_clash j db" and "job_checks j"
    and "db' = db\<lparr>jobs := AList.update (j_job_id j) j (jobs db)\<rparr>"
  using assms by (auto simp: insert_job_def write_job_def result_simps split: if_splits)

lemma insert_attempt_Inr:
  assumes "insert_attempt a db = Inr db'"
  shows "map_of (attempts db) (a_job_id a, a_attempt a) = None" and "attempt_checks a"
    and "map_of (jobs db) (a_job_id a) \<noteq> None"
    and "db' = db\<lparr>attempts := AList.update (a_job_id a, a_attempt a) a (attempts db)\<rparr>"
  using assms by (auto simp: insert_attempt_def Let_def split: if_splits)

lemma insert_lease_Inr:
  assumes "insert_lease l db = Inr db'"
  shows "map_of (leases db) (gl_graph_id l) = None" and "lease_checks l"
    and "db' = db\<lparr>leases := AList.update (gl_graph_id l) l (leases db)\<rparr>"
  using assms by (auto simp: insert_lease_def split: if_splits)

end
