(* ===== verification/Control_Ownership.thy ===== *)
theory Control_Ownership
  imports Control_Db
begin

text \<open>
  Ownership transactions of the control store (\<^verbatim>\<open>coordinator/_control_ownership.py\<close> and
  \<^verbatim>\<open>ControlStore.claim_next\<close>): the fenced singleton lease, claiming the next eligible job, and
  releasing the graph lease of a finished job.
\<close>

section \<open>The singleton\<close>

definition positive_seconds :: "int \<Rightarrow> int result" where
  "positive_seconds d = (if d \<le> 0 then Inl (ValueError ''duration must be positive'') else Inr d)"

definition acquire_singleton ::
  "tx_env \<Rightarrow> string \<Rightarrow> int \<Rightarrow> control_db \<Rightarrow> (int \<times> control_db) result" where
  "acquire_singleton env iid ttl db =
     bindE (positive_seconds ttl) (\<lambda>seconds.
     case singleton db of
       None \<Rightarrow>
         Inr (1, db\<lparr>singleton := Some
           \<lparr>ci_instance_id = iid, ci_fencing_epoch = 1, ci_started_at = tx_now env,
            ci_heartbeat_at = tx_now env, ci_expires_at = tx_now env + seconds,
            ci_stopped_at = None, ci_status = ActiveInstance\<rparr>\<rparr>)
     | Some owner \<Rightarrow>
         if ci_status owner = ActiveInstance \<and> ci_expires_at owner > tx_now env
         then Inl (SingletonActiveError ''coordinator singleton is active'')
         else Inr (ci_fencing_epoch owner + 1, db\<lparr>singleton := Some
           \<lparr>ci_instance_id = iid, ci_fencing_epoch = ci_fencing_epoch owner + 1,
            ci_started_at = tx_now env, ci_heartbeat_at = tx_now env,
            ci_expires_at = tx_now env + seconds, ci_stopped_at = None,
            ci_status = ActiveInstance\<rparr>\<rparr>))"

definition heartbeat_singleton ::
  "tx_env \<Rightarrow> string \<Rightarrow> int \<Rightarrow> int \<Rightarrow> control_db \<Rightarrow> (bool \<times> control_db) result" where
  "heartbeat_singleton env iid epoch ttl db =
     bindE (positive_seconds ttl) (\<lambda>seconds.
     case singleton db of
       Some c \<Rightarrow>
         if live_owner (tx_now env) iid epoch db
         then Inr (True, db\<lparr>singleton := Some (c\<lparr>ci_heartbeat_at := tx_now env,
           ci_expires_at := tx_now env + seconds\<rparr>)\<rparr>)
         else Inr (False, db)
     | None \<Rightarrow> Inr (False, db))"

definition stop_singleton ::
  "tx_env \<Rightarrow> string \<Rightarrow> int \<Rightarrow> control_db \<Rightarrow> (bool \<times> control_db) result" where
  "stop_singleton env iid epoch db =
     (case singleton db of
        Some c \<Rightarrow>
          if ci_instance_id c = iid \<and> ci_fencing_epoch c = epoch \<and> ci_status c = ActiveInstance
          then Inr (True, db\<lparr>singleton := Some (c\<lparr>ci_status := StoppedInstance,
            ci_stopped_at := Some (tx_now env), ci_expires_at := tx_now env\<rparr>)\<rparr>)
          else Inr (False, db)
      | None \<Rightarrow> Inr (False, db))"

definition require_live_owner :: "tx_env \<Rightarrow> string \<Rightarrow> int \<Rightarrow> control_db \<Rightarrow> unit result" where
  "require_live_owner env iid epoch db =
     guardE (live_owner (tx_now env) iid epoch db)
       (SingletonActiveError ''coordinator singleton is not owned'') (Inr ())"

definition require_transaction_admission :: "tx_env \<Rightarrow> unit result" where
  "require_transaction_admission env =
     guardE (tx_admitted env) (MaintenanceUnavailableError ''schema maintenance is active'') (Inr ())"

section \<open>Claiming\<close>

definition intent_paused :: "control_db \<Rightarrow> string \<Rightarrow> bool" where
  "intent_paused db gid =
     (case map_of (intents db) gid of Some i \<Rightarrow> cs_paused i | None \<Rightarrow> False)"

definition claimable :: "tx_env \<Rightarrow> int \<Rightarrow> bool \<Rightarrow> control_db \<Rightarrow> job_row \<Rightarrow> bool" where
  "claimable env max_tries automatic_only db j =
     (j_state j = Queued \<and> j_next_eligible_at j \<le> tx_now env
      \<and> j_current_attempt j < max_tries
      \<and> (\<not> automatic_only \<or> j_priority_class j = Automatic)
      \<and> (j_priority_class j = Manual \<or> \<not> intent_paused db (j_graph_id j))
      \<and> map_of (leases db) (j_graph_id j) = None)"

definition claim_order :: "job_row \<Rightarrow> int \<times> int \<times> int \<times> string" where
  \<comment> \<open>\<^verbatim>\<open>ORDER BY priority_value DESC, next_eligible_at, submitted_at, job_id\<close>\<close>
  "claim_order j = (- j_priority_value j, j_next_eligible_at j, j_submitted_at j, j_job_id j)"

definition next_claimable ::
  "tx_env \<Rightarrow> int \<Rightarrow> bool \<Rightarrow> control_db \<Rightarrow> job_row option" where
  "next_claimable env max_tries automatic_only db =
     (case select_by claim_order (claimable env max_tries automatic_only db) (jobs db) of
        [] \<Rightarrow> None | j # _ \<Rightarrow> Some j)"

definition new_attempt :: "tx_env \<Rightarrow> string \<Rightarrow> int \<Rightarrow> job_row \<Rightarrow> attempt_row" where
  "new_attempt env iid epoch j =
     \<lparr>a_job_id = j_job_id j, a_attempt = j_current_attempt j + 1, a_instance_id = iid,
      a_fencing_epoch = epoch, a_is_current = True, a_started_at = tx_now env,
      a_heartbeat_at = tx_now env, a_finished_at = None, a_generations = j_generations j,
      a_result_category = None, a_publication_state = NotStarted, a_diagnostic_summary = None,
      a_graph_lease_epoch = tx_xid env, a_registration_digest = None,
      a_registration_consumed = False\<rparr>"

definition new_lease :: "tx_env \<Rightarrow> string \<Rightarrow> int \<Rightarrow> int \<Rightarrow> job_row \<Rightarrow> lease_row" where
  "new_lease env iid epoch lease_seconds j =
     \<lparr>gl_graph_id = j_graph_id j, gl_job_id = j_job_id j, gl_attempt = j_current_attempt j + 1,
      gl_instance_id = iid, gl_fencing_epoch = epoch, gl_acquired_at = tx_now env,
      gl_heartbeat_at = tx_now env, gl_expires_at = tx_now env + lease_seconds,
      gl_graph_lease_epoch = tx_xid env\<rparr>"

definition claim_of :: "tx_env \<Rightarrow> string \<Rightarrow> int \<Rightarrow> job_row \<Rightarrow> JobClaim" where
  "claim_of env iid epoch j =
     \<lparr>c_job_id = j_job_id j, c_graph_id = j_graph_id j, c_attempt = j_current_attempt j + 1,
      c_instance_id = iid, c_fencing_epoch = epoch, c_priority_class = j_priority_class j,
      c_generations = j_generations j, c_graph_lease_epoch = tx_xid env\<rparr>"

definition claim_once ::
  "tx_env \<Rightarrow> string \<Rightarrow> int \<Rightarrow> int \<Rightarrow> int \<Rightarrow> bool \<Rightarrow> control_db
   \<Rightarrow> (JobClaim option \<times> control_db) result" where
  "claim_once env iid epoch lease_seconds max_tries automatic_only db =
     bindE (require_transaction_admission env) (\<lambda>_.
     bindE (require_live_owner env iid epoch db) (\<lambda>_.
     case next_claimable env max_tries automatic_only db of
       None \<Rightarrow> Inr (None, db)
     | Some j \<Rightarrow>
         bindE (insert_attempt (new_attempt env iid epoch j) db) (\<lambda>db1.
         bindE (insert_lease (new_lease env iid epoch lease_seconds j) db1) (\<lambda>db2.
         bindE (update_job (j_job_id j) (\<lambda>r. j_state r = Queued)
                  (\<lambda>r. r\<lparr>j_state := Claimed, j_current_attempt := j_current_attempt j + 1,
                        j_updated_at := tx_now env\<rparr>) db2) (\<lambda>(_, db3).
         let db4 = (if j_priority_class j = Automatic
                    then snd (update_intent (j_graph_id j)
                           (\<lambda>i. cs_queued_job_id i = Some (j_job_id j))
                           (\<lambda>i. i\<lparr>cs_queued_job_id := None,
                                 cs_running_job_id := Some (j_job_id j), cs_dirty := False\<rparr>) db3)
                    else db3)
         in Inr (Some (claim_of env iid epoch j), db4))))))"

definition is_expected_graph_lease_race :: "py_error \<Rightarrow> bool" where
  "is_expected_graph_lease_race e = (e = UniqueViolation ''graph_leases_pkey'')"

fun is_UniqueViolation :: "py_error \<Rightarrow> bool" where
  "is_UniqueViolation (UniqueViolation _) = True"
| "is_UniqueViolation _ = False"

text \<open>
  \<^verbatim>\<open>ControlStore.claim_next\<close> tries a claim at most three times. A transaction that commits between
  the selection and the insertion of a lease shows as a unique violation. \<open>meets i\<close> is what the
  \<open>i\<close>-th try meets: the database it runs on, which differs from the previous one by what other
  transactions committed meanwhile, and the violation such a race raises, if any.
\<close>

fun claim_tries ::
  "(control_db \<Rightarrow> (JobClaim option \<times> control_db) result) \<Rightarrow> (nat \<Rightarrow> control_db \<times> py_error option)
   \<Rightarrow> nat \<Rightarrow> nat \<Rightarrow> control_db \<Rightarrow> (JobClaim option \<times> control_db) result" where
  "claim_tries claim meets i 0 db = Inr (None, db)"
| "claim_tries claim meets i (Suc n) db =
     (let (view, race) = meets i
      in case (case race of Some e \<Rightarrow> Inl e | None \<Rightarrow> claim view) of
           Inr r \<Rightarrow> Inr r
         | Inl e \<Rightarrow>
             if is_UniqueViolation e then
               (if is_expected_graph_lease_race e then claim_tries claim meets (Suc i) n view
                else Inl (ControlStoreError ''unexpected control-store uniqueness violation''))
             else Inl e)"

definition claim_next ::
  "tx_env \<Rightarrow> CoordinatorLimits \<Rightarrow> string \<Rightarrow> int \<Rightarrow> int \<Rightarrow> bool
   \<Rightarrow> (nat \<Rightarrow> control_db \<times> py_error option) \<Rightarrow> control_db \<Rightarrow> (JobClaim option \<times> control_db) result" where
  "claim_next env limits iid epoch lease_ttl automatic_only meets db =
     bindE (positive_seconds lease_ttl) (\<lambda>seconds.
       claim_tries (claim_once env iid epoch seconds (max_retry_attempts limits) automatic_only)
         meets 0 3 db)"

section \<open>Releasing\<close>

definition releasable :: "job_row \<Rightarrow> bool" where
  "releasable j =
     (j_state j = Succeeded \<and> j_publication_state j = Committed
      \<or> List.member [Failed, Cancelled, Superseded, Quarantined] (j_state j)
        \<and> List.member [NotStarted, Prepared, RolledBack] (j_publication_state j))"

definition clear_running :: "string \<Rightarrow> string \<Rightarrow> control_db \<Rightarrow> control_db" where
  "clear_running gid jid db = snd (update_intent gid (\<lambda>i. cs_running_job_id i = Some jid)
     (\<lambda>i. i\<lparr>cs_running_job_id := None\<rparr>) db)"

definition release_graph_lease ::
  "tx_env \<Rightarrow> string \<Rightarrow> string \<Rightarrow> int \<Rightarrow> string \<Rightarrow> int \<Rightarrow> string \<Rightarrow> int \<Rightarrow> control_db
   \<Rightarrow> (bool \<times> control_db) result" where
  "release_graph_lease env gid jid attempt owner_iid owner_epoch rec_iid rec_epoch db =
     (let (released, db1) = delete_lease gid
            (\<lambda>l. gl_job_id l = jid \<and> gl_attempt l = attempt \<and> gl_instance_id l = owner_iid
               \<and> gl_fencing_epoch l = owner_epoch
               \<and> live_owner (tx_now env) rec_iid rec_epoch db
               \<and> (case map_of (jobs db) (gl_job_id l) of Some j \<Rightarrow> releasable j | None \<Rightarrow> False)) db
      in if released then Inr (True, clear_running gid jid db1) else Inr (False, db1))"

section \<open>What a claim does\<close>

lemma live_owner_singleton:
  "live_owner t iid epoch db \<Longrightarrow> \<exists>c. singleton db = Some c \<and> ci_instance_id c = iid
     \<and> ci_fencing_epoch c = epoch \<and> ci_status c = ActiveInstance \<and> t < ci_expires_at c"
  by (auto simp: live_owner_def split: option.splits)

lemma live_owner_unique:
  "live_owner t iid epoch db \<Longrightarrow> live_owner t' iid' epoch' db \<Longrightarrow> iid = iid' \<and> epoch = epoch'"
  by (auto simp: live_owner_def split: option.splits)

lemma next_claimable_Some:
  assumes "next_claimable env m auto db = Some j" and "table_ok (jobs db)"
  shows "\<exists>k. map_of (jobs db) k = Some j" and "claimable env m auto db j"
    and "\<And>k r. map_of (jobs db) k = Some r \<Longrightarrow> claimable env m auto db r \<Longrightarrow>
      claim_order j \<le> claim_order r"
proof -
  obtain rs where s: "select_by claim_order (claimable env m auto db) (jobs db) = j # rs"
    using assms(1) by (auto simp: next_claimable_def split: list.splits)
  then have "j \<in> {r \<in> snd ` set (jobs db). claimable env m auto db r}"
    by (metis list.set_intros(1) set_select_by)
  then show "claimable env m auto db j" and "\<exists>k. map_of (jobs db) k = Some j"
    using table_row_iff [OF assms(2)] by fastforce+
  show "claim_order j \<le> claim_order r"
    if "map_of (jobs db) k = Some r" "claimable env m auto db r" for k r
    using select_by_hd_least [OF s] that by (metis map_of_SomeD image_eqI snd_conv)
qed

lemma next_claimable_None:
  "next_claimable env m auto db = None \<longleftrightarrow>
   (\<forall>r \<in> snd ` set (jobs db). \<not> claimable env m auto db r)"
  unfolding next_claimable_def
  using select_by_Nil_iff [where key = claim_order and p = "claimable env m auto db" and t = "jobs db"]
  by (cases "select_by claim_order (claimable env m auto db) (jobs db)") auto

lemma claim_once_Some:
  assumes "claim_once env iid epoch secs m auto db = Inr (Some c, db')"
  obtains j db2 where "tx_admitted env" and "live_owner (tx_now env) iid epoch db"
    and "next_claimable env m auto db = Some j" and "c = claim_of env iid epoch j"
    and "map_of (attempts db) (j_job_id j, j_current_attempt j + 1) = None"
    and "attempt_checks (new_attempt env iid epoch j)"
    and "lease_checks (new_lease env iid epoch secs j)"
    and "update_job (j_job_id j) (\<lambda>r. j_state r = Queued)
           (\<lambda>r. r\<lparr>j_state := Claimed, j_current_attempt := j_current_attempt j + 1,
                 j_updated_at := tx_now env\<rparr>)
           (db\<lparr>attempts := AList.update (j_job_id j, j_current_attempt j + 1)
                 (new_attempt env iid epoch j) (attempts db),
               leases := AList.update (j_graph_id j) (new_lease env iid epoch secs j) (leases db)\<rparr>)
           = Inr db2"
    and "db' = (if j_priority_class j = Automatic
                then snd (update_intent (j_graph_id j)
                       (\<lambda>i. cs_queued_job_id i = Some (j_job_id j))
                       (\<lambda>i. i\<lparr>cs_queued_job_id := None,
                             cs_running_job_id := Some (j_job_id j), cs_dirty := False\<rparr>) (snd db2))
                else snd db2)"
proof -
  from assms obtain j where adm: "tx_admitted env" and live: "live_owner (tx_now env) iid epoch db"
    and nc: "next_claimable env m auto db = Some j"
    by (auto simp: claim_once_def require_transaction_admission_def require_live_owner_def
        result_simps split: option.splits)
  obtain db0 db1 p where ia: "insert_attempt (new_attempt env iid epoch j) db = Inr db0"
    and il: "insert_lease (new_lease env iid epoch secs j) db0 = Inr db1"
    and uj: "update_job (j_job_id j) (\<lambda>r. j_state r = Queued)
           (\<lambda>r. r\<lparr>j_state := Claimed, j_current_attempt := j_current_attempt j + 1,
                 j_updated_at := tx_now env\<rparr>) db1 = Inr p"
    and cl: "c = claim_of env iid epoch j"
    and out: "db' = (if j_priority_class j = Automatic
                then snd (update_intent (j_graph_id j)
                       (\<lambda>i. cs_queued_job_id i = Some (j_job_id j))
                       (\<lambda>i. i\<lparr>cs_queued_job_id := None,
                             cs_running_job_id := Some (j_job_id j), cs_dirty := False\<rparr>) (snd p))
                else snd p)"
    using assms nc adm live
    by (auto simp: claim_once_def require_transaction_admission_def require_live_owner_def
        result_simps Let_def)
  note A = insert_attempt_Inr [OF ia] and L = insert_lease_Inr [OF il]
  have "db1 = db\<lparr>attempts := AList.update (j_job_id j, j_current_attempt j + 1)
                 (new_attempt env iid epoch j) (attempts db),
               leases := AList.update (j_graph_id j) (new_lease env iid epoch secs j) (leases db)\<rparr>"
    using A(4) L(3) by (simp add: new_attempt_def new_lease_def)
  with uj that [OF adm live nc cl _ A(2) L(2) _ out] A(1) show ?thesis
    by (simp add: new_attempt_def)
qed

end
