(* ===== verification/Control_Submission.thy ===== *)
theory Control_Submission
  imports Control_Ownership
begin

text \<open>
  Admission of new work: idempotent submission (\<^verbatim>\<open>coordinator/_control_submission.py\<close>) and
  transactional coalescing of automatic intent (\<^verbatim>\<open>coordinator/_control_coalescing.py\<close>).

  \<open>sha256\<close> is \<^verbatim>\<open>hashlib.sha256(..).hexdigest()\<close>, and \<open>new_id\<close> the value \<^verbatim>\<open>uuid.uuid4()\<close> returns; both
  are parameters.
\<close>

section \<open>Request validation\<close>

definition re_SAFE_CATEGORY :: re where
  \<comment> \<open>\<^verbatim>\<open>[a-z][a-z0-9_-]{0,63}\Z\<close>\<close>
  "re_SAFE_CATEGORY =
     RSeq (RCls c_lower) (RUpto 63 (RCls (\<lambda>c. c_lower c \<or> c_digit c \<or> c_in ''_-'' c)))"

definition safe_category :: "string \<Rightarrow> string \<Rightarrow> string result" where
  "safe_category v field =
     guardE (fullmatch re_SAFE_CATEGORY v)
       (ValueError (field @ '' must be a public-safe category'')) (Inr v)"

definition validate_request :: "JobRequest \<Rightarrow> JobRequest result" where
  "validate_request r =
     bindE (normalize_request (request_payload r) (request_generations r) False DEFAULT_LIMITS)
       (\<lambda>normalized.
          guardE (normalized = r) (ValueError ''request is not canonically normalized'') (
          case map_of (operation_options r) ''reason'' of
            None \<Rightarrow> Inl (KeyError ''reason'')
          | Some reason \<Rightarrow>
              bindE (safe_category reason ''operation_options reason'') (\<lambda>_. Inr r)))"

section \<open>Admission\<close>

definition nonterminal_count :: "control_db \<Rightarrow> int" where
  "nonterminal_count db = int (length (filter (\<lambda>(k, j). \<not> terminal (j_state j)) (jobs db)))"

definition queued_manual_count :: "string \<Rightarrow> control_db \<Rightarrow> int" where
  "queued_manual_count gid db = int (length (filter (\<lambda>(k, j). j_graph_id j = gid
     \<and> j_priority_class j = Manual \<and> j_state j = Queued) (jobs db)))"

definition enforce_admission :: "JobRequest \<Rightarrow> CoordinatorLimits \<Rightarrow> control_db \<Rightarrow> unit result" where
  "enforce_admission request limits db =
     guardE (nonterminal_count db < max_nonterminal_jobs limits)
       (ValueError ''nonterminal job limit reached'') (
     guardE (request_priority request = Manual \<longrightarrow>
               queued_manual_count (graph_id request) db < max_queued_manual_jobs_per_graph limits)
       (ValueError ''manual queue limit reached'') (Inr ()))"

definition find_existing :: "string \<Rightarrow> JobRequest \<Rightarrow> string \<Rightarrow> control_db \<Rightarrow> job_row option" where
  "find_existing requester request digest db =
     find (\<lambda>j. j_requester j = requester \<and> j_job_kind j = job_kind request
             \<and> j_graph_id j = graph_id request \<and> j_idempotency_digest j = digest)
       (map snd (jobs db))"

definition new_job ::
  "tx_env \<Rightarrow> string \<Rightarrow> JobRequest \<Rightarrow> string \<Rightarrow> string \<Rightarrow> string \<Rightarrow> int \<Rightarrow> job_row" where
  "new_job env jid request requester digest fingerprint priority_value =
     \<lparr>j_job_id = jid, j_schema_version = schema_version request, j_job_kind = job_kind request,
      j_graph_id = graph_id request, j_request_id = request_id request, j_requester = requester,
      j_idempotency_digest = digest, j_request_fingerprint = fingerprint,
      j_priority_class = request_priority request, j_priority_value = priority_value,
      j_generations = request_generations request,
      j_operation_options = operation_options request,
      j_state = Queued, j_publication_state = NotStarted, j_current_attempt = 0,
      j_next_eligible_at = tx_now env, j_phase = ''waiting'', j_progress_completed = 0,
      j_progress_total = None, j_error_category = None, j_cancel_requested_at = None,
      j_submitted_at = tx_now env, j_updated_at = tx_now env, j_finished_at = None,
      j_replacement_job_id = None, j_parent_job_id = None\<rparr>"

definition request_fingerprint :: "(string \<Rightarrow> string) \<Rightarrow> JobRequest \<Rightarrow> string" where
  "request_fingerprint sha256 request = sha256 (json_dumps (semantic_payload request))"

definition priority_value :: "priority \<Rightarrow> int" where
  "priority_value p = (if p = Manual then 100 else 50)"

definition submit_transaction ::
  "tx_env \<Rightarrow> (string \<Rightarrow> string) \<Rightarrow> string \<Rightarrow> JobRequest \<Rightarrow> string \<Rightarrow> CoordinatorLimits \<Rightarrow> control_db
   \<Rightarrow> (SubmissionResult \<times> control_db) result" where
  "submit_transaction env sha256 new_id request requester limits db =
     (let digest = sha256 (idempotency_key request);
          fingerprint = request_fingerprint sha256 request
      in case find_existing requester request digest db of
           Some existing \<Rightarrow>
             guardE (j_request_fingerprint existing = fingerprint) (ValueError ''idempotency conflict'')
               (Inr (\<lparr>sr_job_id = j_job_id existing, sr_state = j_state existing,
                      sr_replayed = True\<rparr>, db))
         | None \<Rightarrow>
             bindE (enforce_admission request limits db) (\<lambda>_.
             bindE (insert_job (new_job env new_id request requester digest fingerprint
                      (priority_value (request_priority request))) db) (\<lambda>db'.
             Inr (\<lparr>sr_job_id = new_id, sr_state = Queued, sr_replayed = False\<rparr>, db'))))"

subsection \<open>Deadlines\<close>

text \<open>
  A bounded admission checks its deadline four times; \<open>dl_clock i\<close> is the wall and the monotonic
  clock at the \<open>i\<close>-th check.
\<close>

record bounded_admission =
  dl_deadline :: AdmissionDeadline
  dl_clock :: "nat \<Rightarrow> rat \<times> rat"

definition check_deadline :: "bounded_admission option \<Rightarrow> nat \<Rightarrow> unit result" where
  "check_deadline bound i =
     (case bound of
        None \<Rightarrow> Inr ()
      | Some b \<Rightarrow> bindE (remaining (fst (dl_clock b i)) (snd (dl_clock b i)) (dl_deadline b))
          (\<lambda>_. Inr ()))"

definition deadline_milliseconds :: "bounded_admission option \<Rightarrow> nat \<Rightarrow> unit result" where
  \<comment> \<open>\<^verbatim>\<open>int(deadline.remaining() * 1000)\<close> must be at least one\<close>
  "deadline_milliseconds bound i =
     (case bound of
        None \<Rightarrow> Inr ()
      | Some b \<Rightarrow> bindE (remaining (fst (dl_clock b i)) (snd (dl_clock b i)) (dl_deadline b))
          (\<lambda>left. guardE (\<not> \<lfloor>left * 1000\<rfloor> < 1) (AdmissionTimeout ''admission_timeout'') (Inr ())))"

definition translate_lock_timeout :: "bounded_admission option \<Rightarrow> 'a result \<Rightarrow> 'a result" where
  "translate_lock_timeout bound r =
     (case r of
        Inl e \<Rightarrow> if is_lock_timeout e \<and> bound \<noteq> None
          then Inl (AdmissionTimeout ''admission_timeout'') else Inl e
      | Inr x \<Rightarrow> Inr x)"

definition submit ::
  "tx_env \<Rightarrow> (string \<Rightarrow> string) \<Rightarrow> string \<Rightarrow> JobRequest \<Rightarrow> string \<Rightarrow> CoordinatorLimits
   \<Rightarrow> bounded_admission option \<Rightarrow> unit result \<Rightarrow> control_db \<Rightarrow> (SubmissionResult \<times> control_db) result" where
  \<comment> \<open>\<open>table_lock\<close> is the outcome of \<^verbatim>\<open>LOCK TABLE jobs\<close>\<close>
  "submit env sha256 new_id request requester limits bound table_lock db =
     bindE (validate_request request) (\<lambda>request.
     bindE (safe_category requester ''requester'') (\<lambda>requester.
     translate_lock_timeout bound (
       bindE (check_deadline bound 0) (\<lambda>_.
       bindE (deadline_milliseconds bound 1) (\<lambda>_.
       bindE (require_transaction_admission env) (\<lambda>_.
       bindE table_lock (\<lambda>_.
       bindE (check_deadline bound 2) (\<lambda>_.
       bindE (submit_transaction env sha256 new_id request requester limits db) (\<lambda>out.
       bindE (check_deadline bound 3) (\<lambda>_. Inr out))))))))))"

section \<open>Automatic coalescing\<close>

definition upsert_intent ::
  "tx_env \<Rightarrow> JobRequest \<Rightarrow> string \<Rightarrow> generations \<Rightarrow> control_db \<Rightarrow> control_db" where
  "upsert_intent env request jid gens db =
     (let reasons = (case map_of (operation_options request) ''reason'' of
                       Some r \<Rightarrow> [r] | None \<Rightarrow> []);
          row = (case map_of (intents db) (graph_id request) of
                   None \<Rightarrow> \<lparr>cs_graph_id = graph_id request, cs_generations = gens, cs_dirty = True,
                     cs_paused = False, cs_reason_categories = reasons,
                     cs_queued_job_id = Some jid, cs_running_job_id = None,
                     cs_next_reconcile_at = None, cs_last_hint_at = tx_now env\<rparr>
                 | Some i \<Rightarrow> i\<lparr>cs_generations := gens, cs_dirty := True,
                     cs_reason_categories := reasons, cs_queued_job_id := Some jid,
                     cs_last_hint_at := tx_now env\<rparr>)
      in db\<lparr>intents := AList.update (graph_id request) row (intents db)\<rparr>)"

definition coalesced_job :: "generations \<Rightarrow> intent_row option \<Rightarrow> control_db \<Rightarrow> job_row option" where
  \<comment> \<open>the live job that already stands for the desired generations, if there is one\<close>
  "coalesced_job gens current db =
     (case current of
        None \<Rightarrow> None
      | Some i \<Rightarrow>
          if cs_generations i \<noteq> gens then None
          else case (case cs_queued_job_id i of Some q \<Rightarrow> Some q | None \<Rightarrow> cs_running_job_id i) of
                 None \<Rightarrow> None
               | Some jid \<Rightarrow>
                   (case map_of (jobs db) jid of
                      None \<Rightarrow> None
                    | Some j \<Rightarrow> if terminal (j_state j) then None else Some j))"

definition supersede :: "tx_env \<Rightarrow> string option \<Rightarrow> control_db \<Rightarrow> control_db result" where
  "supersede env replaced db =
     (case replaced of
        None \<Rightarrow> Inr db
      | Some jid \<Rightarrow>
          bindE (update_job jid (\<lambda>j. j_state j = Queued \<and> j_priority_class j = Automatic)
            (\<lambda>j. j\<lparr>j_state := Superseded, j_finished_at := Some (tx_now env),
                  j_updated_at := tx_now env\<rparr>) db) (\<lambda>(_, db'). Inr db'))"

definition link_replacement :: "string option \<Rightarrow> string \<Rightarrow> control_db \<Rightarrow> control_db result" where
  "link_replacement replaced jid db =
     (case replaced of
        None \<Rightarrow> Inr db
      | Some old \<Rightarrow>
          bindE (update_job old (\<lambda>_. True) (\<lambda>j. j\<lparr>j_replacement_job_id := Some jid\<rparr>) db)
            (\<lambda>(_, db'). Inr db'))"

definition coalesce_transaction ::
  "tx_env \<Rightarrow> (string \<Rightarrow> string) \<Rightarrow> string \<Rightarrow> JobRequest \<Rightarrow> string \<Rightarrow> CoordinatorLimits \<Rightarrow> control_db
   \<Rightarrow> (SubmissionResult \<times> control_db) result" where
  "coalesce_transaction env sha256 new_id request requester limits db =
     (let current = map_of (intents db) (graph_id request);
          gens = request_generations request;
          replaced = (case current of Some i \<Rightarrow> cs_queued_job_id i | None \<Rightarrow> None)
      in if (case current of Some i \<Rightarrow> cs_paused i | None \<Rightarrow> False)
         then Inl (ValueError ''graph intent is paused'')
         else case coalesced_job gens current db of
           Some j \<Rightarrow> Inr (\<lparr>sr_job_id = j_job_id j, sr_state = j_state j, sr_replayed = True\<rparr>, db)
         | None \<Rightarrow>
             bindE (supersede env replaced db) (\<lambda>db1.
             bindE (enforce_admission request limits db1) (\<lambda>_.
             bindE (insert_job (new_job env new_id request requester
                      (sha256 (idempotency_key request)) (request_fingerprint sha256 request) 50) db1)
               (\<lambda>db2.
             bindE (link_replacement replaced new_id db2) (\<lambda>db3.
             Inr (\<lparr>sr_job_id = new_id, sr_state = Queued, sr_replayed = False\<rparr>,
                  upsert_intent env request new_id gens db3))))))"

definition coalesce_automatic ::
  "tx_env \<Rightarrow> (string \<Rightarrow> string) \<Rightarrow> string \<Rightarrow> JobRequest \<Rightarrow> string \<Rightarrow> CoordinatorLimits \<Rightarrow> control_db
   \<Rightarrow> (SubmissionResult \<times> control_db) result" where
  "coalesce_automatic env sha256 new_id request requester limits db =
     bindE (validate_request request) (\<lambda>request.
     guardE (request_priority request = Automatic)
       (ValueError ''coalescing requires automatic priority'') (
     bindE (safe_category requester ''requester'') (\<lambda>requester.
     bindE (require_transaction_admission env) (\<lambda>_.
       coalesce_transaction env sha256 new_id request requester limits db))))"

section \<open>Properties\<close>

lemma validate_request_Inr:
  assumes "validate_request r = Inr r'"
  shows "r' = r" and "well_formed_request DEFAULT_LIMITS False r"
  using assms
  by (auto simp: validate_request_def result_simps split: option.splits
      dest: normalize_request_well_formed)

lemma well_formed_request_fields:
  assumes "well_formed_request limits b r"
  shows "schema_version r = 1" and "job_kind r = ''refresh_graph''"
  using assms by (auto simp: well_formed_request_def make_request_def split: prod.splits)

lemma find_existing_Some:
  assumes "find_existing requester request digest db = Some j"
  shows "j \<in> snd ` set (jobs db)" and "j_requester j = requester"
    and "j_graph_id j = graph_id request" and "j_idempotency_digest j = digest"
proof -
  from assms have m: "j \<in> set (map snd (jobs db))"
    and p: "j_requester j = requester \<and> j_graph_id j = graph_id request \<and> j_idempotency_digest j = digest"
    unfolding find_existing_def find_Some_iff by (auto intro: nth_mem)
  then show "j \<in> snd ` set (jobs db)" and "j_requester j = requester"
    and "j_graph_id j = graph_id request" and "j_idempotency_digest j = digest" by simp_all
qed

lemma find_existing_None:
  "find_existing requester request digest db = None \<longleftrightarrow>
   (\<forall>j \<in> snd ` set (jobs db). \<not> (j_requester j = requester \<and> j_job_kind j = job_kind request
     \<and> j_graph_id j = graph_id request \<and> j_idempotency_digest j = digest))"
  by (auto simp: find_existing_def find_None_iff)

lemma translate_lock_timeout_Inr [result_simps]:
  "translate_lock_timeout bound r = Inr x \<longleftrightarrow> r = Inr x"
  by (cases r) (auto simp: translate_lock_timeout_def)

lemma submit_Inr:
  assumes "submit env sha256 new_id request requester limits bound lck db = Inr (res, db')"
  shows "submit_transaction env sha256 new_id request requester limits db = Inr (res, db')"
    and "well_formed_request DEFAULT_LIMITS False request"
  using assms
  by (auto simp: submit_def result_simps safe_category_def dest: validate_request_Inr)

lemma coalesce_automatic_Inr:
  assumes "coalesce_automatic env sha256 new_id request requester limits db = Inr (res, db')"
  shows "coalesce_transaction env sha256 new_id request requester limits db = Inr (res, db')"
    and "well_formed_request DEFAULT_LIMITS False request" and "request_priority request = Automatic"
  using assms
  by (auto simp: coalesce_automatic_def result_simps safe_category_def dest: validate_request_Inr)

lemma coalesced_job_Some:
  assumes "coalesced_job gens current db = Some j"
  shows "\<exists>i jid. current = Some i \<and> cs_generations i = gens \<and> map_of (jobs db) jid = Some j
    \<and> (cs_queued_job_id i = Some jid \<or> cs_running_job_id i = Some jid)"
    and "\<not> terminal (j_state j)"
  using assms by (auto simp: coalesced_job_def split: option.splits if_splits)

end
