(* ===== verification/Control_State.thy ===== *)
theory Control_State
  imports Control_Submission
begin

text \<open>
  Fenced state transitions of the control store (\<^verbatim>\<open>coordinator/_control_state.py\<close>, with the
  \<^verbatim>\<open>ControlStore\<close> wrappers of \<^verbatim>\<open>coordinator/storage.py\<close>): the compare-and-set transition, attempt
  heartbeats with progress, cancellation, termination evidence, retries and status reads.

  State names are values of \<^typ>\<open>JobState\<close> here, the strings being \<^const>\<open>state_name\<close> of them;
  \<^const>\<open>validate_transition\<close> refuses every other string before a statement runs.
\<close>

section \<open>Compare and set\<close>

definition validate_state_publication :: "JobState \<Rightarrow> PublicationState option \<Rightarrow> unit result" where
  "validate_state_publication new_state publication =
     guardE (\<not> (new_state = Succeeded \<and> publication \<noteq> Some Committed))
       (ValueError ''succeeded mutating job requires committed publication'') (
     guardE (\<not> (List.member [Failed, Cancelled, Superseded] new_state
               \<and> (case publication of None \<Rightarrow> True | Some p \<Rightarrow> \<not> safe_unpublished p)))
       (ValueError (state_name new_state @ '' requires safely unpublished state'')) (
     guardE (\<not> (new_state = Queued \<and> publication = Some CommitUnknown))
       (ValueError ''commit_unknown publication cannot be retried'') (Inr ())))"

definition matching_marker :: "control_db \<Rightarrow> job_row \<Rightarrow> attempt_row \<Rightarrow> bool" where
  \<comment> \<open>the \<^verbatim>\<open>EXISTS\<close> over \<^verbatim>\<open>synthetic_publication_markers\<close>\<close>
  "matching_marker db j a =
     (case map_of (markers db) (a_job_id a, a_attempt a) of
        None \<Rightarrow> False
      | Some m \<Rightarrow> m_graph_id m = j_graph_id j \<and> m_generations m = a_generations a
          \<and> a_generations a = j_generations j \<and> m_outcome m = ''committed'')"

definition cas_allowed ::
  "tx_env \<Rightarrow> JobState \<Rightarrow> JobState \<Rightarrow> int \<Rightarrow> string \<Rightarrow> int \<Rightarrow> control_db \<Rightarrow> job_row \<Rightarrow> bool" where
  \<comment> \<open>the \<^verbatim>\<open>WHERE\<close> clause of the job update\<close>
  "cas_allowed env expected new_state attempt iid epoch db j =
     (j_state j = expected \<and> j_current_attempt j = attempt
      \<and> (case map_of (attempts db) (j_job_id j, attempt) of
           None \<Rightarrow> False
         | Some a \<Rightarrow> a_is_current a \<and> a_instance_id a = iid \<and> a_fencing_epoch a = epoch
             \<and> (new_state \<noteq> Succeeded \<or> matching_marker db j a))
      \<and> live_owner (tx_now env) iid epoch db)"

definition cas_job ::
  "tx_env \<Rightarrow> JobState \<Rightarrow> PublicationState option \<Rightarrow> string option \<Rightarrow> job_row \<Rightarrow> job_row" where
  "cas_job env new_state publication error j =
     j\<lparr>j_state := new_state,
       j_publication_state := (case publication of None \<Rightarrow> j_publication_state j | Some p \<Rightarrow> p),
       j_error_category := error, j_updated_at := tx_now env,
       j_finished_at := (if terminal new_state then Some (tx_now env) else j_finished_at j)\<rparr>"

definition cas_attempt ::
  "tx_env \<Rightarrow> JobState \<Rightarrow> PublicationState option \<Rightarrow> string option \<Rightarrow> string option
   \<Rightarrow> attempt_row \<Rightarrow> attempt_row" where
  "cas_attempt env new_state publication error diagnostic a =
     (let p = (case publication of None \<Rightarrow> a_publication_state a | Some p \<Rightarrow> p);
          d = coalesce diagnostic (a_diagnostic_summary a)
      in if terminal new_state
         then a\<lparr>a_is_current := False, a_finished_at := Some (tx_now env),
                a_result_category := error, a_publication_state := p, a_diagnostic_summary := d\<rparr>
         else a\<lparr>a_publication_state := p, a_result_category := coalesce error (a_result_category a),
                a_diagnostic_summary := d\<rparr>)"

definition compare_and_set_state ::
  "tx_env \<Rightarrow> string \<Rightarrow> JobState \<Rightarrow> JobState \<Rightarrow> int \<Rightarrow> string \<Rightarrow> int \<Rightarrow> PublicationState option
   \<Rightarrow> string option \<Rightarrow> string option \<Rightarrow> control_db \<Rightarrow> (bool \<times> control_db) result" where
  "compare_and_set_state env jid expected new_state attempt iid epoch publication error diagnostic db =
     bindE (validate_transition (state_name expected) (state_name new_state)) (\<lambda>_.
     bindE (validate_state_publication new_state publication) (\<lambda>_.
     bindE (update_job jid (cas_allowed env expected new_state attempt iid epoch db)
              (cas_job env new_state publication error) db) (\<lambda>(updated, db1).
     if \<not> updated then Inr (False, db1)
     else if terminal new_state
     then bindE (update_attempt (jid, attempt)
                   (\<lambda>a. a_is_current a \<and> a_instance_id a = iid \<and> a_fencing_epoch a = epoch)
                   (cas_attempt env new_state publication error diagnostic) db1) (\<lambda>(closed, db2).
            guardE closed (RuntimeError ''current attempt closure failed'') (Inr (True, db2)))
     else if publication \<noteq> None \<or> error \<noteq> None \<or> diagnostic \<noteq> None
     then bindE (update_attempt (jid, attempt)
                   (\<lambda>a. a_is_current a \<and> a_instance_id a = iid \<and> a_fencing_epoch a = epoch)
                   (cas_attempt env new_state publication error diagnostic) db1) (\<lambda>(changed, db2).
            guardE changed (RuntimeError ''current attempt publication update failed'')
              (Inr (True, db2)))
     else Inr (True, db1))))"

definition mark_reconciliation_required ::
  "tx_env \<Rightarrow> JobClaim \<Rightarrow> JobState \<Rightarrow> string \<Rightarrow> string option \<Rightarrow> PublicationState \<Rightarrow> control_db
   \<Rightarrow> (bool \<times> control_db) result" where
  "mark_reconciliation_required env c expected category diagnostic publication db =
     guardE (List.member [NotStarted, CommitUnknown] publication)
       (ValueError ''invalid reconciliation publication state'') (
       compare_and_set_state env (c_job_id c) expected ReconciliationRequired (c_attempt c)
         (c_instance_id c) (c_fencing_epoch c) (Some publication) (Some category) diagnostic db)"

definition mark_quarantined ::
  "tx_env \<Rightarrow> JobClaim \<Rightarrow> JobState \<Rightarrow> string \<Rightarrow> control_db \<Rightarrow> (bool \<times> control_db) result" where
  "mark_quarantined env c expected category db =
     compare_and_set_state env (c_job_id c) expected Quarantined (c_attempt c)
       (c_instance_id c) (c_fencing_epoch c) None (Some category) None db"

section \<open>Heartbeats and progress\<close>

definition validate_progress :: "pyval \<Rightarrow> pyval \<Rightarrow> int \<Rightarrow> (int \<times> int option) result" where
  "validate_progress cnt tot max_count =
     (case cnt of
        VInt c \<Rightarrow>
          guardE (0 \<le> c \<and> c \<le> max_count) (ValueError ''completed progress is invalid'') (
          case tot of
            VNone \<Rightarrow> Inr (c, None)
          | VInt t \<Rightarrow> guardE (c \<le> t \<and> t \<le> max_count) (ValueError ''total progress is invalid'')
              (Inr (c, Some t))
          | _ \<Rightarrow> Inl (ValueError ''total progress is invalid''))
      | _ \<Rightarrow> Inl (ValueError ''completed progress is invalid''))"

definition progress_due ::
  "tx_env \<Rightarrow> CoordinatorLimits \<Rightarrow> int \<Rightarrow> string \<Rightarrow> int \<Rightarrow> int option \<Rightarrow> job_row \<Rightarrow> bool" where
  "progress_due env limits attempt phase cnt tot j =
     (j_current_attempt j = attempt
      \<and> (j_phase j \<noteq> phase \<or> j_progress_total j \<noteq> tot
         \<or> cnt - j_progress_completed j \<ge> progress_counter_delta limits
         \<or> j_updated_at j \<le> tx_now env - usec (progress_min_interval_seconds limits)))"

definition renew_lease :: "tx_env \<Rightarrow> JobClaim \<Rightarrow> int \<Rightarrow> control_db \<Rightarrow> bool \<times> control_db" where
  "renew_lease env c seconds db =
     (case map_of (leases db) (c_graph_id c) of
        Some l \<Rightarrow>
          if lease_of_claim c l
          then (True, db\<lparr>leases := AList.update (c_graph_id c)
                 (l\<lparr>gl_heartbeat_at := tx_now env, gl_expires_at := tx_now env + seconds\<rparr>)
                 (leases db)\<rparr>)
          else (False, db)
      | None \<Rightarrow> (False, db))"

definition heartbeat_attempt ::
  "tx_env \<Rightarrow> CoordinatorLimits \<Rightarrow> JobClaim \<Rightarrow> int \<Rightarrow> string option \<Rightarrow> pyval \<Rightarrow> pyval \<Rightarrow> control_db
   \<Rightarrow> (bool \<times> control_db) result" where
  "heartbeat_attempt env limits c lease_ttl phase cnt tot db =
     bindE (positive_seconds lease_ttl) (\<lambda>seconds.
     bindE (require_live_owner env (c_instance_id c) (c_fencing_epoch c) db) (\<lambda>_.
     let (renewed, db1) = renew_lease env c seconds db
     in if \<not> renewed then Inr (False, db1)
        else bindE (update_attempt (claim_key c) (owned_by c) (\<lambda>a. a\<lparr>a_heartbeat_at := tx_now env\<rparr>) db1)
          (\<lambda>(_, db2).
          case phase of
            None \<Rightarrow> Inr (True, db2)
          | Some ph \<Rightarrow>
              bindE (validate_progress cnt tot (max_counter limits)) (\<lambda>(done_count, all_count).
              bindE (update_job (c_job_id c)
                       (progress_due env limits (c_attempt c) ph done_count all_count)
                       (\<lambda>j. j\<lparr>j_phase := ph, j_progress_completed := done_count,
                             j_progress_total := all_count, j_updated_at := tx_now env\<rparr>) db2)
                (\<lambda>(_, db3). Inr (True, db3))))))"

section \<open>Cancellation\<close>

definition cancelled_row :: "tx_env \<Rightarrow> job_row \<Rightarrow> job_row" where
  "cancelled_row env j =
     j\<lparr>j_state := (if j_state j = Queued then Cancelled else CancelRequested),
       j_cancel_requested_at := Some (tx_now env), j_updated_at := tx_now env,
       j_finished_at := (if j_state j = Queued then Some (tx_now env) else j_finished_at j)\<rparr>"

definition request_cancellation ::
  "tx_env \<Rightarrow> string \<Rightarrow> control_db \<Rightarrow> (JobState \<times> control_db) result" where
  "request_cancellation env jid db =
     bindE (update_job jid (\<lambda>j. List.member [Queued, Claimed, Starting, Running] (j_state j))
              (cancelled_row env) db) (\<lambda>(updated, db').
     guardE updated (ValueError ''job cannot be cancelled'')
       (Inr (case map_of (jobs db') jid of Some j \<Rightarrow> j_state j | None \<Rightarrow> Cancelled, db')))"

definition mark_attempt_terminated ::
  "tx_env \<Rightarrow> JobClaim \<Rightarrow> bool \<Rightarrow> string \<Rightarrow> int \<Rightarrow> string option \<Rightarrow> control_db
   \<Rightarrow> (bool \<times> control_db) result" where
  "mark_attempt_terminated env c process_cleanup_proved rec_iid rec_epoch diagnostic db =
     guardE process_cleanup_proved (ValueError ''process cleanup proof is required'') (
     bindE (require_live_owner env rec_iid rec_epoch db) (\<lambda>_.
       update_attempt (claim_key c)
         (\<lambda>a. owned_by c a
            \<and> (case map_of (jobs db) (a_job_id a) of
                 Some j \<Rightarrow> j_state j = ReconciliationRequired \<and> j_current_attempt j = a_attempt a
               | None \<Rightarrow> False))
         (\<lambda>a. a\<lparr>a_finished_at := Some (tx_now env),
               a_diagnostic_summary := coalesce diagnostic (a_diagnostic_summary a)\<rparr>) db))"

section \<open>Retries\<close>

definition retry_candidate :: "JobClaim \<Rightarrow> JobState \<Rightarrow> control_db \<Rightarrow> job_row option" where
  "retry_candidate c expected db =
     (case map_of (jobs db) (c_job_id c) of
        None \<Rightarrow> None
      | Some j \<Rightarrow>
          (case map_of (attempts db) (j_job_id j, j_current_attempt j) of
             None \<Rightarrow> None
           | Some a \<Rightarrow>
               if j_state j = expected \<and> j_current_attempt j = c_attempt c \<and> owned_by c a
               then Some j else None))"

definition schedule_retry ::
  "tx_env \<Rightarrow> JobClaim \<Rightarrow> JobState \<Rightarrow> int \<Rightarrow> string \<Rightarrow> int \<Rightarrow> string option \<Rightarrow> control_db
   \<Rightarrow> (bool \<times> control_db) result" where
  "schedule_retry env c expected delay category max_tries diagnostic db =
     bindE (validate_transition (state_name expected) (state_name Queued)) (\<lambda>_.
     guardE (\<not> delay < 0) (ValueError ''retry delay is invalid'') (
     bindE (require_live_owner env (c_instance_id c) (c_fencing_epoch c) db) (\<lambda>_.
     case retry_candidate c expected db of
       None \<Rightarrow> Inr (False, db)
     | Some row \<Rightarrow>
         bindE (make_retry_policy max_tries 1
                  (max 1 (if delay = 0 then 1 else of_int delay / 1000000))) (\<lambda>policy.
         guardE (safe_unpublished (j_publication_state row))
           (ValueError (publication_name (j_publication_state row) @ '' publication cannot be retried'')) (
         guardE (may_retry policy (j_current_attempt row) category (j_publication_state row))
           (ValueError ''retry is not permitted'') (
         bindE (update_job (c_job_id c)
                  (\<lambda>j. j_state j = expected \<and> j_current_attempt j = c_attempt c)
                  (\<lambda>j. j\<lparr>j_state := Queued, j_publication_state := NotStarted,
                        j_error_category := Some category,
                        j_next_eligible_at := tx_now env + delay, j_updated_at := tx_now env\<rparr>) db)
           (\<lambda>(_, db1).
         bindE (update_attempt (claim_key c) (owned_by c)
                  (\<lambda>a. a\<lparr>a_is_current := False, a_finished_at := Some (tx_now env),
                        a_result_category := Some category,
                        a_diagnostic_summary := coalesce diagnostic (a_diagnostic_summary a)\<rparr>) db1)
           (\<lambda>(_, db2).
         Inr (True, snd (delete_lease (c_graph_id c) (lease_of_claim c) db2))))))))))"

section \<open>Status\<close>

definition status :: "string \<Rightarrow> control_db \<Rightarrow> JobStatus result" where
  "status jid db =
     (case map_of (jobs db) jid of
        None \<Rightarrow> Inl (KeyError ''unknown job'')
      | Some j \<Rightarrow> Inr
          \<lparr>s_job_id = j_job_id j, s_graph_id = j_graph_id j, s_state = j_state j,
           s_attempt = j_current_attempt j, s_publication_state = j_publication_state j,
           s_phase = j_phase j, s_completed = j_progress_completed j, s_total = j_progress_total j,
           s_error_category = j_error_category j,
           s_diagnostic_summary = (case map_of (attempts db) (j_job_id j, j_current_attempt j) of
              None \<Rightarrow> None | Some a \<Rightarrow> a_diagnostic_summary a)\<rparr>)"

section \<open>Inversion\<close>

text \<open>What a committed call did, as an explicit update of the tables.\<close>

lemma validate_state_publication_Inr [result_simps]:
  "validate_state_publication s p = Inr u \<longleftrightarrow>
     (s = Succeeded \<longrightarrow> p = Some Committed)
     \<and> (s \<in> {Failed, Cancelled, Superseded} \<longrightarrow> (\<exists>q. p = Some q \<and> safe_unpublished q))
     \<and> \<not> (s = Queued \<and> p = Some CommitUnknown)"
  by (auto simp: validate_state_publication_def result_simps split: option.splits)

lemma compare_and_set_state_cases:
  assumes "compare_and_set_state env jid s t n iid ep p e d db = Inr (b, db')"
  obtains (set) j a where "b" and "legal s t" and "validate_state_publication t p = Inr ()"
      and "map_of (jobs db) jid = Some j" and "cas_allowed env s t n iid ep db j"
      and "job_checks (cas_job env t p e j)"
      and "map_of (attempts db) (jid, n) = Some a" and "j_job_id j = jid \<Longrightarrow> a_is_current a"
      and "a_instance_id a = iid" and "a_fencing_epoch a = ep"
      and "db' = db\<lparr>jobs := AList.update (j_job_id j) (cas_job env t p e j) (jobs db),
        attempts := AList.update (jid, n) (cas_attempt env t p e d a) (attempts db)\<rparr>"
    | (set_job) j where "b" and "legal s t" and "\<not> terminal t"
      and "map_of (jobs db) jid = Some j" and "cas_allowed env s t n iid ep db j"
      and "job_checks (cas_job env t p e j)" and "p = None"
      and "db' = db\<lparr>jobs := AList.update (j_job_id j) (cas_job env t p e j) (jobs db)\<rparr>"
    | (refused) "\<not> b" and "db' = db"
  using assms
  apply (clarsimp simp: compare_and_set_state_def result_simps)
  apply (erule update_job_cases)
   apply (clarsimp simp: result_simps split: if_splits)
     apply (erule update_attempt_cases; force simp: cas_job_def)
    apply (erule update_attempt_cases; force simp: cas_job_def)
   apply (force simp: cas_job_def)
  apply simp
  done

end
