(* ===== verification/Control_Reconciliation.thy ===== *)
theory Control_Reconciliation
  imports Control_State
begin

text \<open>
  Authoritative publication reconciliation (\<^verbatim>\<open>coordinator/_control_reconciliation.py\<close>): one
  transaction that reads the locked job, attempt and publication marker of a claim and closes,
  requeues or keeps the job waiting according to that evidence.
\<close>

datatype reconcile_outcome = OwnershipLost | Outcome JobState

section \<open>Evidence\<close>

definition lock_evidence ::
  "JobClaim \<Rightarrow> control_db \<Rightarrow> (job_row \<times> attempt_row \<times> marker_row option) option" where
  "lock_evidence c db =
     (case map_of (jobs db) (c_job_id c) of
        None \<Rightarrow> None
      | Some j \<Rightarrow>
          (case map_of (attempts db) (j_job_id j, j_current_attempt j) of
             None \<Rightarrow> None
           | Some a \<Rightarrow>
               if j_state j = ReconciliationRequired \<and> j_current_attempt j = c_attempt c
                  \<and> owned_by c a
               then Some (j, a, map_of (markers db) (a_job_id a, a_attempt a)) else None))"

definition marker_classification :: "job_row \<Rightarrow> attempt_row \<Rightarrow> marker_row option \<Rightarrow> marker_class" where
  "marker_classification j a marker =
     (case marker of
        None \<Rightarrow> Absent
      | Some m \<Rightarrow>
          if m_outcome m = ''committed'' \<and> m_graph_id m = j_graph_id j
             \<and> m_generations m = j_generations j \<and> m_generations m = a_generations a
          then MatchingCommitted else Conflicting)"

section \<open>Closing\<close>

definition closed_attempt ::
  "tx_env \<Rightarrow> PublicationState \<Rightarrow> string option \<Rightarrow> string option \<Rightarrow> attempt_row \<Rightarrow> attempt_row" where
  "closed_attempt env publication category diagnostic a =
     a\<lparr>a_is_current := False,
       a_finished_at := coalesce (a_finished_at a) (Some (tx_now env)),
       a_publication_state := publication, a_result_category := category,
       a_diagnostic_summary := coalesce diagnostic (a_diagnostic_summary a),
       a_registration_digest := None\<rparr>"

definition close_attempt ::
  "tx_env \<Rightarrow> JobClaim \<Rightarrow> PublicationState \<Rightarrow> string option \<Rightarrow> string option \<Rightarrow> control_db
   \<Rightarrow> control_db result" where
  "close_attempt env c publication category diagnostic db =
     bindE (update_attempt (claim_key c) (owned_by c)
              (closed_attempt env publication category diagnostic) db) (\<lambda>(closed, db').
     guardE closed (RuntimeError ''reconciliation attempt closure failed'') (Inr db'))"

definition drop_lease :: "JobClaim \<Rightarrow> control_db \<Rightarrow> control_db result" where
  \<comment> \<open>\<^verbatim>\<open>_delete_lease\<close>\<close>
  "drop_lease c db =
     (let (released, db') = delete_lease (c_graph_id c) (lease_of_claim c) db
      in guardE released (RuntimeError ''reconciliation lease release failed'')
           (Inr (clear_running (c_graph_id c) (c_job_id c) db')))"

definition close_terminal ::
  "tx_env \<Rightarrow> JobClaim \<Rightarrow> JobState \<Rightarrow> PublicationState \<Rightarrow> string option \<Rightarrow> string option
   \<Rightarrow> control_db \<Rightarrow> control_db result" where
  "close_terminal env c target publication category diagnostic db =
     bindE (update_job (c_job_id c)
              (\<lambda>j. j_state j = ReconciliationRequired \<and> j_current_attempt j = c_attempt c)
              (\<lambda>j. j\<lparr>j_state := target, j_publication_state := publication,
                    j_error_category := category, j_finished_at := Some (tx_now env),
                    j_updated_at := tx_now env\<rparr>) db) (\<lambda>(_, db1).
     bindE (close_attempt env c publication category diagnostic db1) (drop_lease c))"

definition pause_graph_intent :: "tx_env \<Rightarrow> JobClaim \<Rightarrow> control_db \<Rightarrow> control_db" where
  "pause_graph_intent env c db =
     (case map_of (jobs db) (c_job_id c) of
        None \<Rightarrow> db
      | Some j \<Rightarrow>
          let row = (case map_of (intents db) (j_graph_id j) of
                None \<Rightarrow> \<lparr>cs_graph_id = j_graph_id j, cs_generations = j_generations j,
                  cs_dirty = True, cs_paused = True,
                  cs_reason_categories = [''publication_unknown''], cs_queued_job_id = None,
                  cs_running_job_id = None, cs_next_reconcile_at = None,
                  cs_last_hint_at = tx_now env\<rparr>
              | Some i \<Rightarrow> i\<lparr>cs_paused := True, cs_dirty := True, cs_queued_job_id := None,
                  cs_reason_categories := [''publication_unknown'']\<rparr>)
          in db\<lparr>intents := AList.update (j_graph_id j) row (intents db)\<rparr>)"

definition queue_retry :: "tx_env \<Rightarrow> JobClaim \<Rightarrow> PublicationState \<Rightarrow> control_db \<Rightarrow> control_db result" where
  "queue_retry env c publication db =
     bindE (update_job (c_job_id c)
              (\<lambda>j. j_state j = ReconciliationRequired \<and> j_current_attempt j = c_attempt c)
              (\<lambda>j. j\<lparr>j_state := Queued, j_publication_state := NotStarted,
                    j_error_category := Some ''transient'',
                    j_next_eligible_at := tx_now env + usec 1, j_updated_at := tx_now env\<rparr>) db)
       (\<lambda>(_, db1).
     bindE (close_attempt env c publication (Some ''transient'') None db1) (drop_lease c))"

section \<open>The decision\<close>

definition proved_absence :: "bool \<Rightarrow> job_row \<Rightarrow> attempt_row \<Rightarrow> bool" where
  "proved_absence unpublished j a =
     (unpublished \<and> j_publication_state j = NotStarted \<and> a_publication_state a = NotStarted)"

definition proved_rollback :: "job_row \<Rightarrow> attempt_row \<Rightarrow> bool" where
  "proved_rollback j a =
     (List.member [NotStarted, RolledBack] (j_publication_state j)
      \<and> List.member [NotStarted, RolledBack] (a_publication_state a)
      \<and> (j_publication_state j = RolledBack \<or> a_publication_state a = RolledBack))"

definition reconcile_absent ::
  "tx_env \<Rightarrow> JobClaim \<Rightarrow> int \<Rightarrow> bool \<Rightarrow> job_row \<Rightarrow> attempt_row \<Rightarrow> control_db
   \<Rightarrow> (reconcile_outcome \<times> control_db) result" where
  \<comment> \<open>the branch with no publication marker\<close>
  "reconcile_absent env c max_tries unpublished j a db =
     (if j_error_category j = Some ''protocol''
      then bindE (close_terminal env c Quarantined (j_publication_state j) (Some ''protocol'') None
                    (pause_graph_intent env c db)) (\<lambda>db'. Inr (Outcome Quarantined, db'))
      else if a_graph_lease_epoch a \<le> 0 then Inr (Outcome ReconciliationRequired, db)
      else if unpublished \<and> (j_publication_state j \<noteq> NotStarted \<or> a_publication_state a \<noteq> NotStarted)
      then Inr (Outcome ReconciliationRequired, db)
      else if j_publication_state j = CommitUnknown \<or> a_publication_state a = CommitUnknown
      then Inr (Outcome ReconciliationRequired, db)
      else if j_cancel_requested_at j \<noteq> None
      then (if proved_absence unpublished j a \<or> proved_rollback j a
            then bindE (close_terminal env c Cancelled RolledBack (Some ''cancelled'') None db)
                   (\<lambda>db'. Inr (Outcome Cancelled, db'))
            else Inr (Outcome ReconciliationRequired, db))
      else if j_current_attempt j \<ge> max_tries
      then bindE (close_terminal env c Failed RolledBack (Some ''permanent'') None db)
             (\<lambda>db'. Inr (Outcome Failed, db'))
      else bindE (queue_retry env c
                    (if j_publication_state j = NotStarted then NotStarted else RolledBack) db)
             (\<lambda>db'. Inr (Outcome Queued, db')))"

definition reconcile_evidence ::
  "tx_env \<Rightarrow> JobClaim \<Rightarrow> int \<Rightarrow> bool \<Rightarrow> job_row \<Rightarrow> attempt_row \<Rightarrow> marker_row option \<Rightarrow> control_db
   \<Rightarrow> (reconcile_outcome \<times> control_db) result" where
  "reconcile_evidence env c max_tries unpublished j a marker db =
     (if a_finished_at a = None then Inr (Outcome ReconciliationRequired, db)
      else case marker_classification j a marker of
        MatchingCommitted \<Rightarrow>
          bindE (close_terminal env c Succeeded Committed None
                   (if j_cancel_requested_at j \<noteq> None then Some ''cancellation_not_applied'' else None) db)
            (\<lambda>db'. Inr (Outcome Succeeded, db'))
      | Conflicting \<Rightarrow>
          bindE (close_terminal env c Quarantined (j_publication_state j)
                   (Some ''publication_unknown'') None (pause_graph_intent env c db))
            (\<lambda>db'. Inr (Outcome Quarantined, db'))
      | _ \<Rightarrow> reconcile_absent env c max_tries unpublished j a db)"

definition reconcile_publication ::
  "tx_env \<Rightarrow> JobClaim \<Rightarrow> int \<Rightarrow> string \<Rightarrow> int \<Rightarrow> bool \<Rightarrow> control_db
   \<Rightarrow> (reconcile_outcome \<times> control_db) result" where
  "reconcile_publication env c max_tries rec_iid rec_epoch unpublished db =
     bindE (require_live_owner env rec_iid rec_epoch db) (\<lambda>_.
     case lock_evidence c db of
       None \<Rightarrow> Inr (OwnershipLost, db)
     | Some (j, a, m) \<Rightarrow> reconcile_evidence env c max_tries unpublished j a m db)"

section \<open>Inversion\<close>

lemma lock_evidence_Some:
  assumes "lock_evidence c db = Some (j, a, m)" and "map_of (jobs db) (c_job_id c) = Some j \<Longrightarrow>
    j_job_id j = c_job_id c"
  shows "map_of (jobs db) (c_job_id c) = Some j" and "j_state j = ReconciliationRequired"
    and "j_current_attempt j = c_attempt c" and "owned_by c a"
    and "map_of (attempts db) (c_job_id c, c_attempt c) = Some a"
    and "m = map_of (markers db) (a_job_id a, a_attempt a)"
  using assms by (auto simp: lock_evidence_def split: option.splits if_splits)

text \<open>Both ways of ending a reconciled attempt release its lease and end its currency.\<close>

lemma close_attempt_Inr:
  assumes "close_attempt env c p e d db = Inr db'"
  obtains a where "map_of (attempts db) (claim_key c) = Some a" and "owned_by c a"
    and "attempt_checks (closed_attempt env p e d a)"
    and "db' = db\<lparr>attempts := AList.update (claim_key c) (closed_attempt env p e d a) (attempts db)\<rparr>"
proof -
  from assms have "update_attempt (claim_key c) (owned_by c) (closed_attempt env p e d) db = Inr (True, db')"
    by (auto simp: close_attempt_def result_simps)
  then show thesis using that by (rule update_attempt_cases) auto
qed

lemma drop_lease_Inr:
  assumes "drop_lease c db = Inr db'"
  obtains l where "map_of (leases db) (c_graph_id c) = Some l" and "lease_of_claim c l"
    and "db' = clear_running (c_graph_id c) (c_job_id c)
           (db\<lparr>leases := AList.delete (c_graph_id c) (leases db)\<rparr>)"
  using assms
  by (auto simp: drop_lease_def delete_lease_def result_simps split: option.splits if_splits)

lemma close_terminal_Inr:
  assumes "close_terminal env c t p e d db = Inr db'"
    and "map_of (jobs db) (c_job_id c) = Some j" and "j_state j = ReconciliationRequired"
    and "j_current_attempt j = c_attempt c" and "j_job_id j = c_job_id c"
  obtains a l where "map_of (attempts db) (claim_key c) = Some a" and "owned_by c a"
    and "map_of (leases db) (c_graph_id c) = Some l" and "lease_of_claim c l"
    and "job_checks (j\<lparr>j_state := t, j_publication_state := p, j_error_category := e,
           j_finished_at := Some (tx_now env), j_updated_at := tx_now env\<rparr>)"
    and "attempt_checks (closed_attempt env p e d a)"
    and "db' = clear_running (c_graph_id c) (c_job_id c)
           (db\<lparr>jobs := AList.update (c_job_id c) (j\<lparr>j_state := t, j_publication_state := p,
                 j_error_category := e, j_finished_at := Some (tx_now env),
                 j_updated_at := tx_now env\<rparr>) (jobs db),
               attempts := AList.update (claim_key c) (closed_attempt env p e d a) (attempts db),
               leases := AList.delete (c_graph_id c) (leases db)\<rparr>)"
  using assms
  by (auto simp: close_terminal_def result_simps update_job_def write_job_def
      elim!: close_attempt_Inr drop_lease_Inr)

lemma queue_retry_Inr:
  assumes "queue_retry env c p db = Inr db'"
    and "map_of (jobs db) (c_job_id c) = Some j" and "j_state j = ReconciliationRequired"
    and "j_current_attempt j = c_attempt c" and "j_job_id j = c_job_id c"
  obtains a l where "map_of (attempts db) (claim_key c) = Some a" and "owned_by c a"
    and "map_of (leases db) (c_graph_id c) = Some l" and "lease_of_claim c l"
    and "job_checks (j\<lparr>j_state := Queued, j_publication_state := NotStarted,
           j_error_category := Some ''transient'', j_next_eligible_at := tx_now env + usec 1,
           j_updated_at := tx_now env\<rparr>)"
    and "attempt_checks (closed_attempt env p (Some ''transient'') None a)"
    and "db' = clear_running (c_graph_id c) (c_job_id c)
           (db\<lparr>jobs := AList.update (c_job_id c) (j\<lparr>j_state := Queued,
                 j_publication_state := NotStarted, j_error_category := Some ''transient'',
                 j_next_eligible_at := tx_now env + usec 1, j_updated_at := tx_now env\<rparr>) (jobs db),
               attempts := AList.update (claim_key c)
                 (closed_attempt env p (Some ''transient'') None a) (attempts db),
               leases := AList.delete (c_graph_id c) (leases db)\<rparr>)"
  using assms
  by (auto simp: queue_retry_def result_simps update_job_def write_job_def
      elim!: close_attempt_Inr drop_lease_Inr)

text \<open>The outcomes of a reconciliation, each with the evidence that led to it.\<close>

lemma reconcile_evidence_cases:
  assumes "reconcile_evidence env c mx u j a mk db = Inr (r, db')"
  obtains (kept) "r = Outcome ReconciliationRequired" and "db' = db"
    | (succeeded) d where "r = Outcome Succeeded" and "a_finished_at a \<noteq> None"
      and "marker_classification j a mk = MatchingCommitted"
      and "close_terminal env c Succeeded Committed None d db = Inr db'"
    | (quarantined) e where "r = Outcome Quarantined" and "a_finished_at a \<noteq> None"
      and "marker_classification j a mk \<noteq> MatchingCommitted"
      and "close_terminal env c Quarantined (j_publication_state j) (Some e) None
             (pause_graph_intent env c db) = Inr db'"
    | (cancelled) "r = Outcome Cancelled" and "a_finished_at a \<noteq> None"
      and "marker_classification j a mk \<notin> {MatchingCommitted, Conflicting}"
      and "0 < a_graph_lease_epoch a" and "j_cancel_requested_at j \<noteq> None"
      and "proved_absence u j a \<or> proved_rollback j a"
      and "close_terminal env c Cancelled RolledBack (Some ''cancelled'') None db = Inr db'"
    | (failed) "r = Outcome Failed" and "a_finished_at a \<noteq> None"
      and "marker_classification j a mk \<notin> {MatchingCommitted, Conflicting}"
      and "0 < a_graph_lease_epoch a" and "j_publication_state j \<noteq> CommitUnknown"
      and "a_publication_state a \<noteq> CommitUnknown" and "mx \<le> j_current_attempt j"
      and "close_terminal env c Failed RolledBack (Some ''permanent'') None db = Inr db'"
    | (queued) p where "r = Outcome Queued" and "a_finished_at a \<noteq> None"
      and "marker_classification j a mk \<notin> {MatchingCommitted, Conflicting}"
      and "0 < a_graph_lease_epoch a" and "j_publication_state j \<noteq> CommitUnknown"
      and "a_publication_state a \<noteq> CommitUnknown" and "j_cancel_requested_at j = None"
      and "j_current_attempt j < mx" and "queue_retry env c p db = Inr db'"
proof -
  have absent: thesis if f: "a_finished_at a \<noteq> None"
    and m: "marker_classification j a mk \<notin> {MatchingCommitted, Conflicting}"
    and r: "reconcile_absent env c mx u j a db = Inr (r, db')"
  proof (cases "j_error_category j = Some ''protocol''")
    case True
    with r m show thesis
      by (intro quarantined [of "''protocol''"]) (use f in \<open>auto simp: reconcile_absent_def result_simps\<close>)
  next
    case False
    note d = r [unfolded reconcile_absent_def if_not_P [OF False]]
    show thesis
    proof (cases "j_cancel_requested_at j")
      case None
      with d show thesis
        using kept failed [OF _ f m] queued [OF _ f m]
        by (auto simp: result_simps split: if_splits)
    next
      case (Some t)
      with d show thesis
        using kept cancelled [OF _ f m] by (auto simp: result_simps split: if_splits)
    qed
  qed
  show thesis
  proof (cases "a_finished_at a = None")
    case True
    with assms kept show thesis by (simp add: reconcile_evidence_def)
  next
    case fin: False
    note d = assms [unfolded reconcile_evidence_def if_not_P [OF fin]]
    show thesis
    proof (cases "marker_classification j a mk")
      case MatchingCommitted
      with d succeeded [OF _ fin MatchingCommitted] show thesis by (auto simp: result_simps)
    next
      case Conflicting
      with d quarantined [OF _ fin] show thesis by (auto simp: result_simps)
    qed (use d absent [OF fin] in auto)
  qed
qed

end
