(* ===== verification/Control_Startup.thy ===== *)
theory Control_Startup
  imports Control_Reconciliation
begin

text \<open>
  Restart of a coordinator on a database another instance left behind: classification of abandoned
  attempts and the reconciliation queue (\<^verbatim>\<open>coordinator/_control_startup.py\<close>), the locked check of
  current durable authority and the one-use launch registration
  (\<^verbatim>\<open>coordinator/_supervisor_registration.py\<close>), and the closures that need graph storage to be fenced
  first (\<^verbatim>\<open>coordinator/_restart_fencing.py\<close>).
\<close>

section \<open>Abandoned attempts\<close>

definition ABANDONED_STATES :: "JobState list" where
  "ABANDONED_STATES = [Claimed, Starting, Running, CancelRequested, Cancelling]"

definition submission_order :: "job_row \<Rightarrow> int \<times> string" where
  "submission_order j = (j_submitted_at j, j_job_id j)"

definition abandoned :: "string \<Rightarrow> int \<Rightarrow> control_db \<Rightarrow> job_row \<Rightarrow> bool" where
  "abandoned iid epoch db j =
     (List.member ABANDONED_STATES (j_state j)
      \<and> (case map_of (attempts db) (j_job_id j, j_current_attempt j) of
           None \<Rightarrow> False
         | Some a \<Rightarrow> a_is_current a \<and> (a_instance_id a, a_fencing_epoch a) \<noteq> (iid, epoch)))"

definition recover_row :: "tx_env \<Rightarrow> job_row \<Rightarrow> control_db \<Rightarrow> control_db result" where
  "recover_row env row db =
     bindE (update_job (j_job_id row) (\<lambda>j. j_current_attempt j = j_current_attempt row)
              (\<lambda>j. j\<lparr>j_state := ReconciliationRequired, j_publication_state := CommitUnknown,
                    j_error_category := Some ''publication_unknown'', j_updated_at := tx_now env\<rparr>) db)
       (\<lambda>(fenced, db1). guardE fenced (RuntimeError ''abandoned job fencing failed'') (
     bindE (update_attempt (j_job_id row, j_current_attempt row) a_is_current
              (\<lambda>a. a\<lparr>a_finished_at := coalesce (a_finished_at a) (Some (tx_now env)),
                    a_registration_digest := None, a_registration_consumed := True,
                    a_publication_state := CommitUnknown,
                    a_result_category := Some ''publication_unknown''\<rparr>) db1) (\<lambda>(closed, db2).
       guardE closed (RuntimeError ''abandoned attempt closure failed'') (Inr db2))))"

definition recover_abandoned_attempts ::
  "tx_env \<Rightarrow> string \<Rightarrow> int \<Rightarrow> int \<Rightarrow> control_db \<Rightarrow> (nat \<times> control_db) result" where
  "recover_abandoned_attempts env iid epoch limit db =
     guardE (0 < limit) (ValueError ''abandoned-attempt limit must be positive'') (
     guardE (live_owner (tx_now env) iid epoch db)
       (RuntimeError ''replacement coordinator is not the live owner'') (
     let rows = take (nat limit) (select_by submission_order (abandoned iid epoch db) (jobs db))
     in bindE (foldE (recover_row env) rows db) (\<lambda>db'. Inr (length rows, db'))))"

definition reconciliation_ready :: "control_db \<Rightarrow> job_row \<Rightarrow> bool" where
  "reconciliation_ready db j =
     (j_state j = ReconciliationRequired
      \<and> (case map_of (attempts db) (j_job_id j, j_current_attempt j) of
           None \<Rightarrow> False | Some a \<Rightarrow> a_is_current a))"

definition claim_of_attempt :: "job_row \<Rightarrow> attempt_row \<Rightarrow> JobClaim" where
  "claim_of_attempt j a =
     \<lparr>c_job_id = j_job_id j, c_graph_id = j_graph_id j, c_attempt = j_current_attempt j,
      c_instance_id = a_instance_id a, c_fencing_epoch = a_fencing_epoch a,
      c_priority_class = j_priority_class j, c_generations = j_generations j,
      c_graph_lease_epoch = a_graph_lease_epoch a\<rparr>"

definition reconciliation_claims :: "int \<Rightarrow> control_db \<Rightarrow> JobClaim list result" where
  "reconciliation_claims limit db =
     guardE (0 < limit) (ValueError ''reconciliation limit must be positive'') (
       Inr (concat (map
         (\<lambda>j. case map_of (attempts db) (j_job_id j, j_current_attempt j) of
                None \<Rightarrow> [] | Some a \<Rightarrow> [claim_of_attempt j a])
         (take (nat limit) (select_by submission_order (reconciliation_ready db) (jobs db))))))"

section \<open>Current durable authority\<close>

definition durable_attempt ::
  "JobClaim \<Rightarrow> int \<Rightarrow> bool \<Rightarrow> string option \<Rightarrow> job_row \<Rightarrow> attempt_row \<Rightarrow> bool" where
  \<comment> \<open>the checks on the locked attempt row before the lease is read, the restart ones apart\<close>
  "durable_attempt c rec_epoch legacy digest j a =
     (j_graph_id j = c_graph_id c \<and> a_instance_id a = c_instance_id c
      \<and> a_fencing_epoch a = c_fencing_epoch c \<and> a_generations a = c_generations c
      \<and> (case digest of
           None \<Rightarrow> True
         | Some d \<Rightarrow> a_registration_digest a = Some d \<and> d \<noteq> [] \<and> \<not> a_registration_consumed a)
      \<and> (if \<not> legacy
         then 0 < a_graph_lease_epoch a \<and> a_graph_lease_epoch a = c_graph_lease_epoch c
         else a_graph_lease_epoch a = 0 \<and> c_graph_lease_epoch c = 0
              \<and> c_fencing_epoch c < rec_epoch))"

definition durable_phase :: "JobClaim \<Rightarrow> string \<Rightarrow> int \<Rightarrow> bool \<Rightarrow> job_row \<Rightarrow> bool" where
  "durable_phase c rec_iid rec_epoch restart j =
     (if restart then j_state j = ReconciliationRequired \<and> c_fencing_epoch c < rec_epoch
      else rec_iid = c_instance_id c \<and> rec_epoch = c_fencing_epoch c
           \<and> List.member [Starting, Running, CancelRequested, Cancelling] (j_state j))"

definition durable_lease :: "tx_env \<Rightarrow> JobClaim \<Rightarrow> bool \<Rightarrow> bool \<Rightarrow> control_db \<Rightarrow> bool" where
  "durable_lease env c restart legacy db =
     (case map_of (leases db) (c_graph_id c) of
        None \<Rightarrow> False
      | Some l \<Rightarrow> lease_of_claim c l
          \<and> gl_graph_lease_epoch l = (if legacy then 0 else c_graph_lease_epoch c)
          \<and> (gl_expires_at l > tx_clock env) \<noteq> restart)"

definition lock_and_validate_current_durable ::
  "tx_env \<Rightarrow> JobClaim \<Rightarrow> string \<Rightarrow> int \<Rightarrow> bool \<Rightarrow> bool \<Rightarrow> string option \<Rightarrow> control_db
   \<Rightarrow> (job_row \<times> attempt_row) option" where
  "lock_and_validate_current_durable env c rec_iid rec_epoch restart legacy digest db =
     (if \<not> live_owner (tx_clock env) rec_iid rec_epoch db then None
      else case map_of (attempts db) (claim_key c) of
        None \<Rightarrow> None
      | Some a \<Rightarrow>
          (case map_of (jobs db) (a_job_id a) of
             None \<Rightarrow> None
           | Some j \<Rightarrow>
               if a_is_current a \<and> j_current_attempt j = a_attempt a
                  \<and> durable_attempt c rec_epoch legacy digest j a
                  \<and> durable_phase c rec_iid rec_epoch restart j
                  \<and> durable_lease env c restart legacy db
               then Some (j, a) else None))"

definition stale :: py_error where
  "stale = StaleDurableAuthorityError ''current durable attempt or lease authority has turned over''"

definition require_currency ::
  "tx_env \<Rightarrow> JobClaim \<Rightarrow> string \<Rightarrow> int \<Rightarrow> bool \<Rightarrow> bool \<Rightarrow> string option \<Rightarrow> control_db \<Rightarrow> unit result" where
  "require_currency env c rec_iid rec_epoch restart legacy digest db =
     guardE (lock_and_validate_current_durable env c rec_iid rec_epoch restart legacy digest db \<noteq> None)
       stale (Inr ())"

definition translate_contention :: "'a result \<Rightarrow> 'a result" where
  "translate_contention r =
     (case r of
        Inl e \<Rightarrow> if is_lock_timeout e then Inl (FencingContentionError ''durable lock contention'') else Inl e
      | Inr x \<Rightarrow> Inr x)"

section \<open>One-use launch registration\<close>

text \<open>\<open>locks\<close> is the outcome of taking the row locks under the fencing lock timeout.\<close>

definition validate_supervisor_registration ::
  "tx_env \<Rightarrow> unit result \<Rightarrow> JobClaim \<Rightarrow> string \<Rightarrow> control_db \<Rightarrow> unit result" where
  "validate_supervisor_registration env locks c digest db =
     translate_contention (bindE locks (\<lambda>_.
       require_currency env c (c_instance_id c) (c_fencing_epoch c) False False (Some digest) db))"

definition persist_supervisor_registration ::
  "tx_env \<Rightarrow> unit result \<Rightarrow> JobClaim \<Rightarrow> string \<Rightarrow> control_db \<Rightarrow> control_db result" where
  "persist_supervisor_registration env locks c digest db =
     guardE (hex64 digest) (PermissionError ''invalid supervisor registration digest'') (
     translate_contention (bindE locks (\<lambda>_.
     case lock_and_validate_current_durable env c (c_instance_id c) (c_fencing_epoch c) False False
            None db of
       None \<Rightarrow> Inl stale
     | Some (j, a) \<Rightarrow>
         guardE (a_registration_digest a = None \<and> \<not> a_registration_consumed a)
           (PermissionError ''supervisor registration already exists or was consumed for this attempt'') (
         bindE (update_attempt (claim_key c) (owned_by c)
                  (\<lambda>a. a\<lparr>a_registration_digest := Some digest\<rparr>) db) (\<lambda>(recorded, db').
         guardE recorded
           (StaleDurableAuthorityError ''failed to record supervisor registration digest'')
           (Inr db'))))))"

text \<open>
  The context manager of the worker's publication: the registration is consumed, the exclusive
  decision \<open>decide\<close> runs while the locks are held, and the consumption commits whether or not the
  decision raised. The outer error is a rolled back transaction.
\<close>

definition in_process_currency_context ::
  "tx_env \<Rightarrow> unit result \<Rightarrow> JobClaim \<Rightarrow> string option \<Rightarrow> 'a result \<Rightarrow> control_db
   \<Rightarrow> ('a result \<times> control_db) result" where
  "in_process_currency_context env locks c digest decide db =
     (case digest of
        None \<Rightarrow> Inl (StaleDurableAuthorityError ''durable launch registration is required'')
      | Some d \<Rightarrow>
          guardE (hex64 d) (StaleDurableAuthorityError ''durable launch registration is required'') (
          translate_contention (bindE locks (\<lambda>_.
          bindE (require_currency env c (c_instance_id c) (c_fencing_epoch c) False False (Some d) db) (\<lambda>_.
          bindE (update_attempt (claim_key c) (owned_by c)
                   (\<lambda>a. a\<lparr>a_registration_consumed := True\<rparr>) db) (\<lambda>(consumed, db').
          guardE consumed
            (StaleDurableAuthorityError ''failed to consume supervisor registration digest'')
            (Inr (translate_contention decide, db'))))))))"

section \<open>Closing behind a storage fence\<close>

text \<open>
  The fence callback installs the replacement fence in graph storage; it gets the claim, the
  reconciler, the prior lease epoch and the replacement one. It and the file closer run inside the
  transaction, so time passes between the checks: \<open>clk i\<close> is the clock at the \<open>i\<close>-th. The file
  closer may open its closure context, which repeats the check; it is given the outcome.
\<close>

type_synonym fence_callback = "JobClaim \<Rightarrow> string \<Rightarrow> int \<Rightarrow> int \<Rightarrow> int option \<Rightarrow> bool result"
type_synonym file_closer = "JobClaim \<Rightarrow> unit result \<Rightarrow> bool result"

definition closure_context ::
  "tx_env \<Rightarrow> (nat \<Rightarrow> int) \<Rightarrow> unit result \<Rightarrow> JobClaim \<Rightarrow> string \<Rightarrow> int \<Rightarrow> fence_callback option
   \<Rightarrow> control_db \<Rightarrow> unit result" where
  \<comment> \<open>up to the \<^verbatim>\<open>yield\<close>\<close>
  "closure_context env clk locks c rec_iid rec_epoch fence db =
     (case fence of
        None \<Rightarrow> Inl (StaleDurableAuthorityError ''durable graph fencing is unavailable'')
      | Some install \<Rightarrow>
          translate_contention (bindE locks (\<lambda>_.
          bindE (require_currency (env\<lparr>tx_clock := clk 0\<rparr>) c rec_iid rec_epoch True False None db) (\<lambda>_.
          bindE (install c rec_iid rec_epoch (c_graph_lease_epoch c) None) (\<lambda>fenced.
          guardE fenced
            (StaleDurableAuthorityError ''durable graph fence installation was not verified'') (
          require_currency (env\<lparr>tx_clock := clk 1\<rparr>) c rec_iid rec_epoch True False None db))))))"

definition persist_not_started :: "tx_env \<Rightarrow> JobClaim \<Rightarrow> control_db \<Rightarrow> control_db result" where
  "persist_not_started env c db =
     bindE (update_job (c_job_id c)
              (\<lambda>j. j_current_attempt j = c_attempt c \<and> j_state j = ReconciliationRequired)
              (\<lambda>j. j\<lparr>j_publication_state := NotStarted, j_updated_at := tx_now env\<rparr>) db) (\<lambda>(ok, db1).
     guardE ok (StaleDurableAuthorityError ''current job closure failed'') (
     bindE (update_attempt (claim_key c) a_is_current
              (\<lambda>a. a\<lparr>a_publication_state := NotStarted, a_registration_digest := None\<rparr>) db1)
       (\<lambda>(ok, db2).
     guardE ok (StaleDurableAuthorityError ''current attempt closure failed'') (Inr db2))))"

definition execute_durable_closure ::
  "tx_env \<Rightarrow> (nat \<Rightarrow> int) \<Rightarrow> unit result \<Rightarrow> JobClaim \<Rightarrow> string \<Rightarrow> int \<Rightarrow> fence_callback option
   \<Rightarrow> file_closer option \<Rightarrow> control_db \<Rightarrow> (bool \<times> control_db) result" where
  "execute_durable_closure env clk locks c rec_iid rec_epoch fence closer db =
     (case (fence, closer) of
        (Some _, Some close) \<Rightarrow>
          (let body =
             bindE (closure_context env clk locks c rec_iid rec_epoch fence db) (\<lambda>_.
             translate_contention (
             bindE (close c (require_currency (env\<lparr>tx_clock := clk 2\<rparr>) c rec_iid rec_epoch
                               True False None db)) (\<lambda>closed.
             if \<not> closed then Inr (False, db)
             else bindE (persist_not_started env c db) (\<lambda>db'. Inr (True, db')))))
           in case body of
                Inr r \<Rightarrow> Inr r
              | Inl (StaleDurableAuthorityError m) \<Rightarrow> Inl (StaleDurableAuthorityError m)
              | Inl e \<Rightarrow> if is_lock_timeout e \<or> is_PermissionError e then Inr (False, db) else Inl e)
      | _ \<Rightarrow> Inr (False, db))"

definition quarantine_rows :: "tx_env \<Rightarrow> JobClaim \<Rightarrow> control_db \<Rightarrow> control_db result" where
  "quarantine_rows env c db =
     bindE (update_job (c_job_id c)
              (\<lambda>j. j_current_attempt j = c_attempt c \<and> j_state j = ReconciliationRequired)
              (\<lambda>j. j\<lparr>j_state := Quarantined, j_publication_state := CommitUnknown,
                    j_error_category := Some ''legacy_zero_epoch'',
                    j_finished_at := Some (tx_now env), j_updated_at := tx_now env\<rparr>) db) (\<lambda>(ok, db1).
     guardE ok (StaleDurableAuthorityError ''legacy attempt quarantine failed'') (
     bindE (update_attempt (claim_key c) (owned_by c)
              (closed_attempt env CommitUnknown (Some ''legacy_zero_epoch'') None) db1) (\<lambda>(ok, db2).
     guardE ok (StaleDurableAuthorityError ''legacy attempt closure failed'') (
     let (ok, db3) = delete_lease (c_graph_id c)
           (\<lambda>l. lease_of_claim c l \<and> gl_graph_lease_epoch l = 0) db2
     in guardE ok (StaleDurableAuthorityError ''legacy lease deletion failed'')
          (Inr (clear_running (c_graph_id c) (c_job_id c) db3))))))"

definition quarantine_legacy_attempt ::
  "tx_env \<Rightarrow> (nat \<Rightarrow> int) \<Rightarrow> unit result \<Rightarrow> JobClaim \<Rightarrow> string \<Rightarrow> int \<Rightarrow> fence_callback option
   \<Rightarrow> control_db \<Rightarrow> (bool \<times> control_db) result" where
  "quarantine_legacy_attempt env clk locks c rec_iid rec_epoch fence db =
     (case fence of
        None \<Rightarrow> Inr (False, db)
      | Some install \<Rightarrow>
          if c_graph_lease_epoch c \<noteq> 0 then Inr (False, db)
          else
            (let body = bindE locks (\<lambda>_.
               if lock_and_validate_current_durable (env\<lparr>tx_clock := clk 0\<rparr>) c rec_iid rec_epoch True
                    True None db = None then Inr (False, db)
               else
               guardE (0 < tx_xid env) (RuntimeError ''durable replacement epoch allocation failed'') (
               bindE (install c rec_iid rec_epoch 0 (Some (tx_xid env))) (\<lambda>fenced.
               guardE fenced
                 (StaleDurableAuthorityError ''durable graph fence installation was not verified'') (
               bindE (require_currency (env\<lparr>tx_clock := clk 1\<rparr>) c rec_iid rec_epoch True True None db)
                 (\<lambda>_.
               bindE (quarantine_rows env c db) (\<lambda>db'. Inr (True, db')))))))
             in case body of
                  Inr r \<Rightarrow> Inr r
                | Inl (StaleDurableAuthorityError m) \<Rightarrow> Inr (False, db)
                | Inl e \<Rightarrow> if is_lock_timeout e then Inr (False, db) else Inl e))"

section \<open>Inversion\<close>

lemma durable_Some:
  assumes "lock_and_validate_current_durable env c ri re r lg d db = Some (j, a)"
  shows "live_owner (tx_clock env) ri re db" and "map_of (attempts db) (claim_key c) = Some a"
    and "map_of (jobs db) (a_job_id a) = Some j" and "a_is_current a"
    and "j_current_attempt j = a_attempt a" and "durable_attempt c re lg d j a"
    and "durable_phase c ri re r j" and "durable_lease env c r lg db"
  using assms
  by (auto simp: lock_and_validate_current_durable_def split: option.splits if_splits)

lemma translate_contention_Inr [result_simps]: "translate_contention r = Inr x \<longleftrightarrow> r = Inr x"
  by (cases r) (auto simp: translate_contention_def)

lemma require_currency_Inr [result_simps]:
  "require_currency env c ri re r lg d db = Inr u \<longleftrightarrow>
   (\<exists>j a. lock_and_validate_current_durable env c ri re r lg d db = Some (j, a))"
  by (auto simp: require_currency_def result_simps)

lemma persist_supervisor_registration_Inr:
  assumes "persist_supervisor_registration env locks c digest db = Inr db'"
  obtains j a where "hex64 digest"
    and "lock_and_validate_current_durable env c (c_instance_id c) (c_fencing_epoch c) False False
           None db = Some (j, a)"
    and "a_registration_digest a = None" and "\<not> a_registration_consumed a" and "owned_by c a"
    and "db' = db\<lparr>attempts := AList.update (claim_key c) (a\<lparr>a_registration_digest := Some digest\<rparr>)
           (attempts db)\<rparr>"
proof -
  from assms obtain j a where d: "lock_and_validate_current_durable env c (c_instance_id c)
        (c_fencing_epoch c) False False None db = Some (j, a)"
    and n: "a_registration_digest a = None" "\<not> a_registration_consumed a"
    and u: "update_attempt (claim_key c) (owned_by c) (\<lambda>a. a\<lparr>a_registration_digest := Some digest\<rparr>) db
        = Inr (True, db')" and h: "hex64 digest"
    by (auto simp: persist_supervisor_registration_def result_simps split: option.splits)
  from u show thesis
    using that [OF h d n] durable_Some(2) [OF d] by (auto elim: update_attempt_cases)
qed

lemma in_process_currency_context_Inr:
  assumes "in_process_currency_context env locks c digest decide db = Inr (out, db')"
  obtains d j a where "digest = Some d" and "hex64 d"
    and "lock_and_validate_current_durable env c (c_instance_id c) (c_fencing_epoch c) False False
           (Some d) db = Some (j, a)"
    and "out = translate_contention decide"
    and "db' = db\<lparr>attempts := AList.update (claim_key c) (a\<lparr>a_registration_consumed := True\<rparr>)
           (attempts db)\<rparr>"
proof -
  from assms obtain d j a where h: "digest = Some d" "hex64 d"
    and c: "lock_and_validate_current_durable env c (c_instance_id c) (c_fencing_epoch c) False False
      (Some d) db = Some (j, a)" and o: "out = translate_contention decide"
    and u: "update_attempt (claim_key c) (owned_by c) (\<lambda>a. a\<lparr>a_registration_consumed := True\<rparr>) db
      = Inr (True, db')"
    by (auto simp: in_process_currency_context_def result_simps split: option.splits)
  from u show thesis
    using that [OF h c o] durable_Some(2) [OF c] by (auto elim: update_attempt_cases)
qed

end
