(* ===== verification/Control_Maintenance.thy ===== *)
theory Control_Maintenance
  imports Control_Startup
begin

text \<open>
  Publication markers and retention (\<^verbatim>\<open>coordinator/_control_maintenance.py\<close>), and the durable
  polling conditions (\<^verbatim>\<open>coordinator/_control_polling.py\<close>).
\<close>

section \<open>Publication markers\<close>

definition new_marker ::
  "tx_env \<Rightarrow> JobClaim \<Rightarrow> string \<Rightarrow> generations \<Rightarrow> string \<Rightarrow> marker_row" where
  "new_marker env c run_identity gens outcome =
     \<lparr>m_job_id = c_job_id c, m_attempt = c_attempt c, m_graph_id = c_graph_id c,
      m_run_identity = run_identity, m_generations = gens, m_outcome = outcome,
      m_published_at = tx_now env\<rparr>"

definition same_marker :: "marker_row \<Rightarrow> marker_row \<Rightarrow> bool" where
  \<comment> \<open>the compared columns, which leave out \<^verbatim>\<open>published_at\<close>\<close>
  "same_marker m m' =
     (m_job_id m = m_job_id m' \<and> m_attempt m = m_attempt m' \<and> m_graph_id m = m_graph_id m'
      \<and> m_run_identity m = m_run_identity m' \<and> m_generations m = m_generations m'
      \<and> m_outcome m = m_outcome m')"

definition record_publication_marker ::
  "tx_env \<Rightarrow> JobClaim \<Rightarrow> string \<Rightarrow> generations \<Rightarrow> string \<Rightarrow> control_db \<Rightarrow> (bool \<times> control_db) result" where
  "record_publication_marker env c run_identity gens outcome db =
     (let m = new_marker env c run_identity gens outcome
      in guardE (List.member [''committed'', ''conflicting''] outcome)
           (CheckViolation ''synthetic_publication_markers'') (
         case map_of (markers db) (claim_key c) of
           Some existing \<Rightarrow>
             guardE (same_marker existing m) (ValueError ''publication marker conflict'')
               (Inr (False, db))
         | None \<Rightarrow>
             guardE (\<not> list_ex (\<lambda>(k, r). m_graph_id r = m_graph_id m
                           \<and> m_run_identity r = m_run_identity m) (markers db))
               (UniqueViolation ''synthetic_publication_markers_graph_id_run_identity_key'') (
             guardE (map_of (attempts db) (claim_key c) \<noteq> None)
               (ForeignKeyViolation ''synthetic_publication_markers_job_id_attempt_fkey'')
               (Inr (True, db\<lparr>markers := AList.update (claim_key c) m (markers db)\<rparr>)))))"

section \<open>Retention\<close>

record CleanupReport =
  deleted_job_ids :: "string list"
  residuals :: "string list"

definition residual_count :: "CleanupReport \<Rightarrow> nat" where
  "residual_count r = length (residuals r)"

definition sanitize_error_category :: "py_error \<Rightarrow> string" where
  "sanitize_error_category e =
     (if is_PermissionError e then ''permission_denied''
      else if is_FileNotFoundError e then ''not_found''
      else if is_OSError e then ''os_error''
      else if is_ValueError e then ''validation_error''
      else ''unknown_error'')"

definition cleanup_candidate :: "tx_env \<Rightarrow> int \<Rightarrow> control_db \<Rightarrow> job_row \<Rightarrow> bool" where
  "cleanup_candidate env minimum_age db j =
     (terminal (j_state j)
      \<and> (case j_finished_at j of None \<Rightarrow> False | Some t \<Rightarrow> t \<le> tx_now env - minimum_age)
      \<and> j_publication_state j \<noteq> CommitUnknown
      \<and> \<not> list_ex (\<lambda>(k, l). gl_job_id l = j_job_id j) (leases db)
      \<and> \<not> list_ex (\<lambda>(k, r). j_replacement_job_id r = Some (j_job_id j)
                        \<or> j_parent_job_id r = Some (j_job_id j)) (jobs db))"

definition finished_order :: "job_row \<Rightarrow> int \<times> string" where
  "finished_order j = (case j_finished_at j of None \<Rightarrow> 0 | Some t \<Rightarrow> t, j_job_id j)"

definition cleanup_candidates :: "tx_env \<Rightarrow> int \<Rightarrow> int \<Rightarrow> control_db \<Rightarrow> string list" where
  "cleanup_candidates env minimum_age scan_limit db =
     map j_job_id (take (nat scan_limit)
       (select_by finished_order (cleanup_candidate env minimum_age db) (jobs db)))"

definition retirement_claim :: "job_row \<Rightarrow> attempt_row \<Rightarrow> JobClaim" where
  "retirement_claim j a =
     \<lparr>c_job_id = a_job_id a, c_graph_id = j_graph_id j, c_attempt = a_attempt a,
      c_instance_id = a_instance_id a, c_fencing_epoch = a_fencing_epoch a,
      c_priority_class = Automatic, c_generations = a_generations a, c_graph_lease_epoch = 0\<rparr>"

definition retirement_claims :: "control_db \<Rightarrow> string \<Rightarrow> JobClaim list" where
  "retirement_claims db jid =
     (case map_of (jobs db) jid of
        None \<Rightarrow> []
      | Some j \<Rightarrow> map (retirement_claim j)
          (select_by a_attempt (\<lambda>a. a_job_id a = jid) (attempts db)))"

text \<open>
  The retirer removes an attempt's publication evidence files; its \<open>OSError\<close>s and \<open>ValueError\<close>s keep
  the job and become residuals, anything else it raises rolls the cleanup back.
\<close>

fun retire_attempts :: "(JobClaim \<Rightarrow> unit result) \<Rightarrow> JobClaim list \<Rightarrow> string list result" where
  "retire_attempts retirer [] = Inr []"
| "retire_attempts retirer (c # cs) =
     (case retirer c of
        Inr _ \<Rightarrow> retire_attempts retirer cs
      | Inl e \<Rightarrow>
          if is_OSError e \<or> is_ValueError e
          then bindE (retire_attempts retirer cs) (\<lambda>rest.
            Inr ((c_job_id c @ '':'' @ int_text (c_attempt c) @ '':'' @ sanitize_error_category e) # rest))
          else Inl e)"

fun retire_jobs ::
  "(JobClaim \<Rightarrow> unit result) \<Rightarrow> control_db \<Rightarrow> nat \<Rightarrow> string list \<Rightarrow> string list \<Rightarrow> string list
   \<Rightarrow> (string list \<times> string list) result" where
  "retire_jobs retirer db limit [] deleted collected = Inr (deleted, collected)"
| "retire_jobs retirer db limit (jid # jids) deleted collected =
     bindE (retire_attempts retirer (retirement_claims db jid)) (\<lambda>failures.
       if failures \<noteq> [] then retire_jobs retirer db limit jids deleted (collected @ failures)
       else if length (deleted @ [jid]) = limit then Inr (deleted @ [jid], collected)
       else retire_jobs retirer db limit jids (deleted @ [jid]) collected)"

definition job_referenced :: "control_db \<Rightarrow> string list \<Rightarrow> bool" where
  \<comment> \<open>the foreign keys of \<^verbatim>\<open>coalescing_state\<close> and of the remaining jobs on the deleted jobs\<close>
  "job_referenced db ids =
     (list_ex (\<lambda>(k, i). (case cs_queued_job_id i of None \<Rightarrow> False | Some q \<Rightarrow> List.member ids q)
                      \<or> (case cs_running_job_id i of None \<Rightarrow> False | Some q \<Rightarrow> List.member ids q)) (intents db)
      \<or> list_ex (\<lambda>(k, j). \<not> List.member ids (j_job_id j)
          \<and> ((case j_replacement_job_id j of None \<Rightarrow> False | Some q \<Rightarrow> List.member ids q)
             \<or> (case j_parent_job_id j of None \<Rightarrow> False | Some q \<Rightarrow> List.member ids q))) (jobs db))"

definition attempt_leased :: "control_db \<Rightarrow> string list \<Rightarrow> bool" where
  "attempt_leased db ids = list_ex (\<lambda>(k, l). List.member ids (gl_job_id l)) (leases db)"

definition delete_jobs :: "string list \<Rightarrow> control_db \<Rightarrow> control_db result" where
  "delete_jobs ids db =
     (if ids = [] then Inr db
      else
        guardE (\<not> attempt_leased db ids) (ForeignKeyViolation ''graph_leases_job_id_attempt_fkey'') (
        guardE (\<not> job_referenced db ids) (ForeignKeyViolation ''coalescing_state_job_id_fkey'')
          (Inr (db\<lparr>markers := delete_where (\<lambda>k. List.member ids (fst k)) (markers db),
                   attempts := delete_where (\<lambda>k. List.member ids (fst k)) (attempts db),
                   jobs := delete_where (List.member ids) (jobs db)\<rparr>))))"

definition scan_limit :: "int \<Rightarrow> bool \<Rightarrow> int" where
  "scan_limit limit retiring = (if retiring then max (limit * 4) (limit + 64) else limit)"

definition cleanup_terminal ::
  "tx_env \<Rightarrow> int \<Rightarrow> int \<Rightarrow> bool \<Rightarrow> (JobClaim \<Rightarrow> unit result) option \<Rightarrow> control_db
   \<Rightarrow> (CleanupReport \<times> control_db) result" where
  "cleanup_terminal env minimum_age limit dry_run retirer db =
     guardE (0 \<le> minimum_age \<and> 0 < limit) (ValueError ''cleanup bounds are invalid'') (
     let candidates = cleanup_candidates env minimum_age (scan_limit limit (retirer \<noteq> None)) db
     in if candidates = [] then Inr (\<lparr>deleted_job_ids = [], residuals = []\<rparr>, db)
        else if dry_run
        then Inr (\<lparr>deleted_job_ids = take (nat limit) candidates, residuals = []\<rparr>, db)
        else
          bindE (case retirer of
                   None \<Rightarrow> Inr (take (nat limit) candidates, [])
                 | Some retire \<Rightarrow> retire_jobs retire db (nat limit) candidates [] [])
            (\<lambda>(ids, kept).
          bindE (delete_jobs ids db) (\<lambda>db'.
          Inr (\<lparr>deleted_job_ids = ids, residuals = kept\<rparr>, db'))))"

section \<open>Polling conditions\<close>

definition safe_graph_id :: "string \<Rightarrow> string result" where
  "safe_graph_id g = guardE (fullmatch re_CONFIGURED_GRAPH_ID g) (ValueError ''graph_id is invalid'') (Inr g)"

definition record_current ::
  "tx_env \<Rightarrow> string \<Rightarrow> generations \<Rightarrow> int \<Rightarrow> control_db \<Rightarrow> (bool \<times> control_db) result" where
  "record_current env gid gens delay db =
     bindE (safe_graph_id gid) (\<lambda>g.
     guardE (0 < delay) (ValueError ''reconciliation delay is invalid'') (
       Inr (update_intent g (\<lambda>_. True)
         (\<lambda>i. i\<lparr>cs_generations := gens, cs_dirty := False, cs_reason_categories := [''current''],
               cs_next_reconcile_at := Some (tx_now env + delay), cs_last_hint_at := tx_now env\<rparr>) db)))"

definition record_condition ::
  "tx_env \<Rightarrow> string \<Rightarrow> string \<Rightarrow> int \<Rightarrow> control_db \<Rightarrow> (bool \<times> control_db) result" where
  "record_condition env gid category delay db =
     bindE (safe_graph_id gid) (\<lambda>g.
     bindE (safe_category category ''condition'') (\<lambda>cat.
     guardE (0 < delay) (ValueError ''reconciliation delay is invalid'') (
       Inr (update_intent g (\<lambda>_. True)
         (\<lambda>i. i\<lparr>cs_reason_categories := [cat],
               cs_next_reconcile_at := Some (tx_now env + delay), cs_last_hint_at := tx_now env\<rparr>) db))))"

section \<open>Inversion\<close>

lemma record_publication_marker_cases:
  assumes "record_publication_marker env c run gens outcome db = Inr (b, db')"
  obtains (recorded) a where "b" and "map_of (markers db) (claim_key c) = None"
      and "map_of (attempts db) (claim_key c) = Some a"
      and "db' = db\<lparr>markers := AList.update (claim_key c) (new_marker env c run gens outcome)
            (markers db)\<rparr>"
    | (known) m where "\<not> b" and "map_of (markers db) (claim_key c) = Some m"
      and "same_marker m (new_marker env c run gens outcome)" and "db' = db"
  using assms
  by (auto simp: record_publication_marker_def Let_def result_simps split: option.splits)

lemma delete_jobs_Inr:
  assumes "delete_jobs ids db = Inr db'"
  obtains (none) "ids = []" and "db' = db"
    | (deleted) "\<not> attempt_leased db ids" and "\<not> job_referenced db ids"
      and "db' = db\<lparr>markers := delete_where (\<lambda>k. List.member ids (fst k)) (markers db),
                   attempts := delete_where (\<lambda>k. List.member ids (fst k)) (attempts db),
                   jobs := delete_where (List.member ids) (jobs db)\<rparr>"
proof (cases "ids = []")
  case True
  with assms show thesis by (intro none) (simp_all add: delete_jobs_def)
next
  case False
  with assms show thesis by (intro deleted) (simp_all only: delete_jobs_def if_False guardE_Inr_iff sum.inject not_False_eq_True)
qed

lemma retire_jobs_subset:
  assumes "retire_jobs retirer db limit jids deleted collected = Inr (ids, kept)"
  shows "set ids \<subseteq> set deleted \<union> set jids"
  using assms
proof (induction jids arbitrary: deleted collected)
  case (Cons jid jids)
  from Cons.prems obtain failures where
    "(if failures \<noteq> [] then retire_jobs retirer db limit jids deleted (collected @ failures)
      else if length (deleted @ [jid]) = limit then Inr (deleted @ [jid], collected)
      else retire_jobs retirer db limit jids (deleted @ [jid]) collected) = Inr (ids, kept)"
    unfolding retire_jobs.simps bindE_Inr_iff by blast
  then show ?case
    using Cons.IH [of deleted] Cons.IH [of "deleted @ [jid]"] by (fastforce split: if_splits)
qed simp

lemma cleanup_terminal_Inr:
  assumes "cleanup_terminal env age limit dry retirer db = Inr (report, db')"
  shows "set (deleted_job_ids report) \<subseteq>
      set (cleanup_candidates env age (scan_limit limit (retirer \<noteq> None)) db)"
    and "dry \<Longrightarrow> db' = db" and "\<not> dry \<Longrightarrow> delete_jobs (deleted_job_ids report) db = Inr db'"
proof -
  show "set (deleted_job_ids report) \<subseteq>
      set (cleanup_candidates env age (scan_limit limit (retirer \<noteq> None)) db)"
    using assms
    by (auto simp: cleanup_terminal_def Let_def result_simps
        split: if_splits option.splits dest: in_set_takeD dest!: retire_jobs_subset)
  show "dry \<Longrightarrow> db' = db" and "\<not> dry \<Longrightarrow> delete_jobs (deleted_job_ids report) db = Inr db'"
    using assms
    by (auto simp: cleanup_terminal_def Let_def result_simps delete_jobs_def [of "[]"]
        split: if_splits)
qed

lemma cleanup_candidates_iff:
  assumes "jid \<in> set (cleanup_candidates env age scan db)"
  shows "\<exists>j \<in> snd ` set (jobs db). j_job_id j = jid \<and> cleanup_candidate env age db j"
  using assms by (force simp: cleanup_candidates_def dest: in_set_takeD)

end
