(* ===== verification/Control_Invariant.thy ===== *)
theory Control_Invariant
  imports Control_Maintenance
begin

text \<open>
  The invariant of the control database. It is stated over the lookup functions of the tables, so
  that each kind of change the transactions make is one preservation lemma, whatever statement
  sequence makes it.
\<close>

section \<open>The invariant\<close>

definition active :: "JobState \<Rightarrow> bool" where
  \<comment> \<open>the job has a running or undecided attempt\<close>
  "active s = (s \<noteq> Queued \<and> \<not> terminal s)"

type_synonym job_map = "string \<rightharpoonup> job_row"
type_synonym attempt_map = "string \<times> int \<rightharpoonup> attempt_row"
type_synonym lease_map = "string \<rightharpoonup> lease_row"
type_synonym marker_map = "string \<times> int \<rightharpoonup> marker_row"
type_synonym intent_map = "string \<rightharpoonup> intent_row"

definition keys_ok :: "job_map \<Rightarrow> attempt_map \<Rightarrow> lease_map \<Rightarrow> bool" where
  "keys_ok J A L =
     ((\<forall>k j. J k = Some j \<longrightarrow> j_job_id j = k)
      \<and> (\<forall>k a. A k = Some a \<longrightarrow> (a_job_id a, a_attempt a) = k)
      \<and> (\<forall>g l. L g = Some l \<longrightarrow> gl_graph_id l = g))"

definition jobs_ok :: "int \<Rightarrow> job_map \<Rightarrow> bool" where
  "jobs_ok m J = (\<forall>k j. J k = Some j \<longrightarrow> job_checks j \<and> j_current_attempt j \<le> m
     \<and> (j_state j = Queued \<longrightarrow> j_publication_state j = NotStarted))"

definition job_key :: "job_row \<Rightarrow> string \<times> string \<times> string \<times> string" where
  "job_key j = (j_requester j, j_job_kind j, j_graph_id j, j_idempotency_digest j)"

definition job_keys_unique :: "job_map \<Rightarrow> bool" where
  "job_keys_unique J = (\<forall>k j k' j'. J k = Some j \<longrightarrow> J k' = Some j' \<longrightarrow> job_key j = job_key j' \<longrightarrow> k = k')"

definition attempt_ok :: "job_row \<Rightarrow> int \<Rightarrow> attempt_row \<Rightarrow> bool" where
  \<comment> \<open>an attempt is the current one exactly while its job is active on it\<close>
  "attempt_ok j n a = (attempt_checks a \<and> n \<le> j_current_attempt j \<and> a_generations a = j_generations j
     \<and> (a_is_current a \<longleftrightarrow> active (j_state j) \<and> n = j_current_attempt j))"

definition attempts_ok :: "job_map \<Rightarrow> attempt_map \<Rightarrow> bool" where
  "attempts_ok J A = (\<forall>k n a. A (k, n) = Some a \<longrightarrow> (\<exists>j. J k = Some j \<and> attempt_ok j n a))"

definition same_owner :: "attempt_row \<Rightarrow> lease_row \<Rightarrow> bool" where
  "same_owner a l = (a_instance_id a = gl_instance_id l \<and> a_fencing_epoch a = gl_fencing_epoch l
     \<and> a_graph_lease_epoch a = gl_graph_lease_epoch l)"

definition lease_ok :: "string \<Rightarrow> lease_row \<Rightarrow> job_row \<Rightarrow> attempt_row \<Rightarrow> bool" where
  "lease_ok g l j a = (j_graph_id j = g \<and> j_current_attempt j = gl_attempt l
     \<and> j_state j \<noteq> Queued \<and> same_owner a l)"

definition leases_ok :: "job_map \<Rightarrow> attempt_map \<Rightarrow> lease_map \<Rightarrow> bool" where
  "leases_ok J A L = (\<forall>g l. L g = Some l \<longrightarrow>
     (\<exists>j a. J (gl_job_id l) = Some j \<and> A (gl_job_id l, gl_attempt l) = Some a \<and> lease_ok g l j a))"

definition active_leased :: "job_map \<Rightarrow> lease_map \<Rightarrow> bool" where
  \<comment> \<open>an active job holds the lease of its graph\<close>
  "active_leased J L = (\<forall>k j. J k = Some j \<longrightarrow> active (j_state j) \<longrightarrow>
     (\<exists>l. L (j_graph_id j) = Some l \<and> gl_job_id l = k \<and> gl_attempt l = j_current_attempt j))"

definition epochs_ok :: "instance_row option \<Rightarrow> attempt_map \<Rightarrow> bool" where
  \<comment> \<open>no attempt is ahead of the singleton's epoch, and an epoch has one owner\<close>
  "epochs_ok S A = ((\<forall>c. S = Some c \<longrightarrow> 0 < ci_fencing_epoch c) \<and>
     (\<forall>k a. A k = Some a \<longrightarrow> (\<exists>c. S = Some c \<and> a_fencing_epoch a \<le> ci_fencing_epoch c
       \<and> (a_fencing_epoch a = ci_fencing_epoch c \<longrightarrow> a_instance_id a = ci_instance_id c))))"

definition committed_marker :: "marker_map \<Rightarrow> string \<Rightarrow> job_row \<Rightarrow> bool" where
  "committed_marker M k j = (\<exists>mk. M (k, j_current_attempt j) = Some mk \<and> m_outcome mk = ''committed''
     \<and> m_graph_id mk = j_graph_id j \<and> m_generations mk = j_generations j)"

definition success_ok :: "job_map \<Rightarrow> marker_map \<Rightarrow> bool" where
  "success_ok J M = (\<forall>k j. J k = Some j \<longrightarrow> j_state j = Succeeded \<longrightarrow> committed_marker M k j)"

definition intents_ok :: "job_map \<Rightarrow> intent_map \<Rightarrow> bool" where
  "intents_ok J I = (\<forall>g i q. I g = Some i \<longrightarrow>
     cs_queued_job_id i = Some q \<or> cs_running_job_id i = Some q \<longrightarrow> J q \<noteq> None)"

definition inv_maps ::
  "int \<Rightarrow> job_map \<Rightarrow> attempt_map \<Rightarrow> lease_map \<Rightarrow> marker_map \<Rightarrow> intent_map \<Rightarrow> instance_row option \<Rightarrow> bool" where
  "inv_maps m J A L M I S =
     (keys_ok J A L \<and> jobs_ok m J \<and> job_keys_unique J \<and> attempts_ok J A \<and> leases_ok J A L
      \<and> active_leased J L \<and> epochs_ok S A \<and> success_ok J M \<and> intents_ok J I)"

definition tables_ok :: "control_db \<Rightarrow> bool" where
  "tables_ok db = (table_ok (jobs db) \<and> table_ok (attempts db) \<and> table_ok (leases db)
     \<and> table_ok (intents db) \<and> table_ok (markers db))"

definition store_inv :: "int \<Rightarrow> control_db \<Rightarrow> bool" where
  "store_inv m db = (tables_ok db \<and> inv_maps m (map_of (jobs db)) (map_of (attempts db))
     (map_of (leases db)) (map_of (markers db)) (map_of (intents db)) (singleton db))"

lemmas inv_defs = keys_ok_def jobs_ok_def job_keys_unique_def attempts_ok_def leases_ok_def
  active_leased_def epochs_ok_def success_ok_def intents_ok_def

lemma active_simps [simp]:
  "active Claimed" "active Starting" "active Running" "active CancelRequested" "active Cancelling"
  "active ReconciliationRequired" "\<not> active Queued"
  by (simp_all add: active_def)

lemma active_not_terminal: "active s \<Longrightarrow> \<not> terminal s" "terminal s \<Longrightarrow> \<not> active s"
  by (simp_all add: active_def)

lemma store_inv_empty: "0 \<le> m \<Longrightarrow> store_inv m empty_db"
  by (simp add: store_inv_def empty_db_def tables_ok_def inv_maps_def inv_defs)

section \<open>Changes that keep the invariant\<close>

definition same_job :: "job_row \<Rightarrow> job_row \<Rightarrow> bool" where
  \<comment> \<open>the columns no transition touches\<close>
  "same_job j j' = (j_job_id j' = j_job_id j \<and> job_key j' = job_key j
     \<and> j_graph_id j' = j_graph_id j \<and> j_generations j' = j_generations j)"

definition same_attempt :: "attempt_row \<Rightarrow> attempt_row \<Rightarrow> bool" where
  "same_attempt a a' = (a_job_id a' = a_job_id a \<and> a_attempt a' = a_attempt a
     \<and> a_instance_id a' = a_instance_id a \<and> a_fencing_epoch a' = a_fencing_epoch a
     \<and> a_generations a' = a_generations a \<and> a_graph_lease_epoch a' = a_graph_lease_epoch a)"

lemma keys_ok_updates:
  "keys_ok J A L \<Longrightarrow> j_job_id j = k \<Longrightarrow> keys_ok (J(k \<mapsto> j)) A L"
  "keys_ok J A L \<Longrightarrow> (a_job_id a, a_attempt a) = ka \<Longrightarrow> keys_ok J (A(ka \<mapsto> a)) L"
  "keys_ok J A L \<Longrightarrow> gl_graph_id l = g \<Longrightarrow> keys_ok J A (L(g \<mapsto> l))"
  "keys_ok J A L \<Longrightarrow> keys_ok J A (L(g := None))"
  by (auto simp: keys_ok_def)

lemma jobs_ok_update:
  "jobs_ok m J \<Longrightarrow> job_checks j \<Longrightarrow> j_current_attempt j \<le> m
   \<Longrightarrow> (j_state j = Queued \<Longrightarrow> j_publication_state j = NotStarted) \<Longrightarrow> jobs_ok m (J(k \<mapsto> j))"
  by (simp add: jobs_ok_def)

lemma jobs_okD:
  assumes "jobs_ok m J" and "J k = Some j"
  shows "job_checks j" and "j_current_attempt j \<le> m"
    and "j_state j = Queued \<Longrightarrow> j_publication_state j = NotStarted"
  using assms by (auto simp: jobs_ok_def)

lemma unique_update:
  assumes "job_keys_unique J" and "J k = Some j" and "job_key j' = job_key j"
  shows "job_keys_unique (J(k \<mapsto> j'))"
  unfolding job_keys_unique_def
proof (intro allI impI)
  fix a x b y
  assume "(J(k \<mapsto> j')) a = Some x" "(J(k \<mapsto> j')) b = Some y" "job_key x = job_key y"
  then obtain x0 y0 where "J a = Some x0" "J b = Some y0" "job_key x0 = job_key y0"
    using assms(2,3) by (auto split: if_splits)
  with assms(1) show "a = b" unfolding job_keys_unique_def by blast
qed

lemma unique_insert:
  "job_keys_unique J \<Longrightarrow> (\<And>k' j'. J k' = Some j' \<Longrightarrow> job_key j' \<noteq> job_key j)
   \<Longrightarrow> job_keys_unique (J(k \<mapsto> j))"
  unfolding job_keys_unique_def by (auto split: if_splits) metis

lemma attempts_ok_update:
  assumes "attempts_ok J A" and "\<And>n a. A (k, n) = Some a \<Longrightarrow> attempt_ok j n a"
  shows "attempts_ok (J(k \<mapsto> j)) A"
  using assms by (auto simp: attempts_ok_def)

lemma attempts_ok_insert:
  assumes "attempts_ok J A" and "J k = Some j" and "attempt_ok j n a"
  shows "attempts_ok J (A((k, n) \<mapsto> a))"
  using assms by (auto simp: attempts_ok_def)

lemma attempts_okD:
  assumes "attempts_ok J A" and "A (k, n) = Some a" and "J k = Some j"
  shows "attempt_ok j n a"
  using assms unfolding attempts_ok_def by fastforce

lemma leases_ok_update:
  assumes "leases_ok J A L"
    and "\<And>g l a j0. L g = Some l \<Longrightarrow> gl_job_id l = k \<Longrightarrow> J k = Some j0 \<Longrightarrow> lease_ok g l j0 a \<Longrightarrow>
      A (k, gl_attempt l) = Some a \<Longrightarrow> lease_ok g l j a"
  shows "leases_ok (J(k \<mapsto> j)) A L"
  using assms unfolding leases_ok_def by (fastforce split: if_splits)

lemma leases_ok_attempt:
  assumes "leases_ok J A L" and "\<And>a. A ka = Some a \<Longrightarrow> same_attempt a a'"
  shows "leases_ok J (A(ka \<mapsto> a')) L"
  unfolding leases_ok_def
proof (intro allI impI)
  fix g l assume "L g = Some l"
  with assms(1) obtain j a where "J (gl_job_id l) = Some j" "A (gl_job_id l, gl_attempt l) = Some a"
    "lease_ok g l j a" unfolding leases_ok_def by blast
  with assms(2) show "\<exists>j a. J (gl_job_id l) = Some j \<and> (A(ka \<mapsto> a')) (gl_job_id l, gl_attempt l) = Some a
      \<and> lease_ok g l j a"
    by (cases "ka = (gl_job_id l, gl_attempt l)") (auto simp: lease_ok_def same_owner_def same_attempt_def)
qed

lemma leases_ok_leases:
  "leases_ok J A L \<Longrightarrow> leases_ok J A (L(g := None))"
  "leases_ok J A L \<Longrightarrow> J (gl_job_id l) = Some j \<Longrightarrow> A (gl_job_id l, gl_attempt l) = Some a
   \<Longrightarrow> lease_ok g l j a \<Longrightarrow> leases_ok J A (L(g \<mapsto> l))"
  by (auto simp: leases_ok_def)

lemma active_leased_update:
  assumes "active_leased J L"
    and "active (j_state j) \<Longrightarrow> \<exists>l. L (j_graph_id j) = Some l \<and> gl_job_id l = k
      \<and> gl_attempt l = j_current_attempt j"
  shows "active_leased (J(k \<mapsto> j)) L"
  using assms by (simp add: active_leased_def)

lemma epochs_ok_attempt:
  assumes "epochs_ok S A" and "A ka = Some a" and "same_attempt a a'"
  shows "epochs_ok S (A(ka \<mapsto> a'))"
  using assms by (auto simp: epochs_ok_def same_attempt_def)

lemma success_ok_update:
  "success_ok J M \<Longrightarrow> (j_state j = Succeeded \<Longrightarrow> committed_marker M k j) \<Longrightarrow> success_ok (J(k \<mapsto> j)) M"
  by (simp add: success_ok_def)

lemma intents_ok_update: "intents_ok J I \<Longrightarrow> intents_ok (J(k \<mapsto> j)) I"
  by (simp add: intents_ok_def)

text \<open>A job row changes within its phase: the same state, or from one active state to another.\<close>

lemma inv_maps_job:
  assumes inv: "inv_maps m J A L M I S" and j: "J k = Some j" and same: "same_job j j'"
    and checks: "job_checks j'" and att: "j_current_attempt j' = j_current_attempt j"
    and st: "(j_state j' = j_state j \<and> j_publication_state j' = j_publication_state j)
      \<or> (active (j_state j) \<and> active (j_state j'))"
  shows "inv_maps m (J(k \<mapsto> j')) A L M I S"
proof -
  have act: "active (j_state j') = active (j_state j)" and
    q: "j_state j' = Queued \<longleftrightarrow> j_state j = Queued" and
    s: "j_state j' = Succeeded \<Longrightarrow> j_state j = Succeeded"
    using st by (auto simp: active_def)
  from inv have I: "keys_ok J A L" "jobs_ok m J" "job_keys_unique J" "attempts_ok J A"
    "leases_ok J A L" "active_leased J L" "epochs_ok S A" "success_ok J M" "intents_ok J I"
    by (simp_all add: inv_maps_def)
  show ?thesis
    unfolding inv_maps_def
  proof (intro conjI)
    show "keys_ok (J(k \<mapsto> j')) A L"
      using I(1) same j by (intro keys_ok_updates(1)) (auto simp: same_job_def keys_ok_def)
    show "jobs_ok m (J(k \<mapsto> j'))"
      using jobs_okD [OF I(2) j] att checks q st by (intro jobs_ok_update I(2)) auto
    show "job_keys_unique (J(k \<mapsto> j'))"
      using same by (intro unique_update [OF I(3) j]) (simp add: same_job_def)
    show "attempts_ok (J(k \<mapsto> j')) A"
      using attempts_okD [OF I(4) _ j] att act same
      by (intro attempts_ok_update I(4)) (simp add: attempt_ok_def same_job_def)
    show "leases_ok (J(k \<mapsto> j')) A L"
      using j att q same
      by (intro leases_ok_update I(5)) (auto simp: lease_ok_def same_job_def)
    show "active_leased (J(k \<mapsto> j')) L"
      using I(6) j att act same
      by (intro active_leased_update I(6)) (auto simp: active_leased_def same_job_def)
    show "success_ok (J(k \<mapsto> j')) M"
      using I(8) j s att same
      by (intro success_ok_update I(8)) (auto simp: success_ok_def committed_marker_def same_job_def)
  qed (use I in \<open>simp_all add: intents_ok_update\<close>)
qed

lemma inv_maps_parts:
  assumes "inv_maps m J A L M I S"
  shows "keys_ok J A L" "jobs_ok m J" "job_keys_unique J" "attempts_ok J A"
    "leases_ok J A L" "active_leased J L" "epochs_ok S A" "success_ok J M" "intents_ok J I"
  using assms by (simp_all add: inv_maps_def)

lemma inv_maps_attempt:
  assumes "inv_maps m J A L M I S" and a: "A (k, n) = Some a" and same: "same_attempt a a'"
    and "a_is_current a' = a_is_current a" and "attempt_checks a'"
  shows "inv_maps m J (A((k, n) \<mapsto> a')) L M I S"
proof -
  note I = inv_maps_parts [OF assms(1)]
  obtain j where j: "J k = Some j" "attempt_ok j n a" using I(4) a unfolding attempts_ok_def by blast
  have key: "(a_job_id a', a_attempt a') = (k, n)"
    using I(1) a same by (auto simp: keys_ok_def same_attempt_def)
  have "attempts_ok J (A((k, n) \<mapsto> a'))"
    using j same assms(4,5)
    by (intro attempts_ok_insert [OF I(4) j(1)]) (simp add: attempt_ok_def same_attempt_def)
  moreover have "leases_ok J (A((k, n) \<mapsto> a')) L"
    using a same by (intro leases_ok_attempt I(5)) simp
  ultimately show ?thesis
    using I keys_ok_updates(2) [OF I(1) key] epochs_ok_attempt [OF I(7) a same]
    by (simp add: inv_maps_def)
qed

text \<open>An active job ends: it becomes terminal and its attempt stops being current.\<close>

lemma inv_maps_close:
  assumes "inv_maps m J A L M I S" and j: "J k = Some j" and same: "same_job j j'"
    and checks: "job_checks j'" and att: "j_current_attempt j' = j_current_attempt j"
    and act: "active (j_state j)" and trm: "terminal (j_state j')"
    and succ: "j_state j' = Succeeded \<Longrightarrow> committed_marker M k j'"
    and a: "A (k, j_current_attempt j) = Some a" and sa: "same_attempt a a'"
    and "\<not> a_is_current a'" and "attempt_checks a'"
  shows "inv_maps m (J(k \<mapsto> j')) (A((k, j_current_attempt j) \<mapsto> a')) L M I S"
proof -
  note I = inv_maps_parts [OF assms(1)]
  have key: "(a_job_id a', a_attempt a') = (k, j_current_attempt j)" and jk: "j_job_id j' = k"
    using I(1) a j sa same by (auto simp: keys_ok_def same_attempt_def same_job_def)
  have nq: "j_state j' \<noteq> Queued" and na: "\<not> active (j_state j')" using trm by (auto simp: active_def)
  have old: "attempt_ok j n b" if "A (k, n) = Some b" for n b using attempts_okD [OF I(4) that j] .
  show ?thesis
    unfolding inv_maps_def
  proof (intro conjI)
    show "keys_ok (J(k \<mapsto> j')) (A((k, j_current_attempt j) \<mapsto> a')) L"
      by (intro keys_ok_updates(1,2) I(1) jk key)
    show "jobs_ok m (J(k \<mapsto> j'))"
      using jobs_okD [OF I(2) j] att checks nq by (intro jobs_ok_update I(2)) auto
    show "job_keys_unique (J(k \<mapsto> j'))"
      using same by (intro unique_update [OF I(3) j]) (simp add: same_job_def)
    show "attempts_ok (J(k \<mapsto> j')) (A((k, j_current_attempt j) \<mapsto> a'))"
      using I(4) old att na same sa a assms(11,12) act
      by (fastforce simp: attempts_ok_def attempt_ok_def same_job_def same_attempt_def)
    have "leases_ok (J(k \<mapsto> j')) A L"
      using j att nq same by (intro leases_ok_update I(5)) (auto simp: lease_ok_def same_job_def)
    then show "leases_ok (J(k \<mapsto> j')) (A((k, j_current_attempt j) \<mapsto> a')) L"
      using a sa by (intro leases_ok_attempt) auto
    show "active_leased (J(k \<mapsto> j')) L"
      using na by (intro active_leased_update I(6)) simp
    show "epochs_ok S (A((k, j_current_attempt j) \<mapsto> a'))" by (rule epochs_ok_attempt [OF I(7) a sa])
    show "success_ok (J(k \<mapsto> j')) M" using succ by (intro success_ok_update I(8))
    show "intents_ok (J(k \<mapsto> j')) I" by (intro intents_ok_update I(9))
  qed
qed

lemma inv_maps_lease_delete:
  assumes "inv_maps m J A L M I S"
    and "\<And>l j. L g = Some l \<Longrightarrow> J (gl_job_id l) = Some j \<Longrightarrow> \<not> active (j_state j)"
  shows "inv_maps m J A (L(g := None)) M I S"
proof -
  note I = inv_maps_parts [OF assms(1)]
  have "active_leased J (L(g := None))"
    unfolding active_leased_def
  proof (intro allI impI)
    fix k j assume *: "J k = Some j" "active (j_state j)"
    with I(6) obtain l where "L (j_graph_id j) = Some l" "gl_job_id l = k"
      "gl_attempt l = j_current_attempt j" by (auto simp: active_leased_def)
    with assms(2) [of l j] * show "\<exists>l. (L(g := None)) (j_graph_id j) = Some l \<and> gl_job_id l = k
        \<and> gl_attempt l = j_current_attempt j" by auto
  qed
  with I show ?thesis by (simp add: inv_maps_def keys_ok_updates(4) leases_ok_leases(1))
qed

text \<open>An active job goes back to the queue: attempt closed, lease dropped.\<close>

lemma inv_maps_requeue:
  assumes "inv_maps m J A L M I S" and j: "J k = Some j" and same: "same_job j j'"
    and checks: "job_checks j'" and att: "j_current_attempt j' = j_current_attempt j"
    and act: "active (j_state j)" and qd: "j_state j' = Queued" and "j_publication_state j' = NotStarted"
    and a: "A (k, j_current_attempt j) = Some a" and sa: "same_attempt a a'"
    and "\<not> a_is_current a'" and "attempt_checks a'"
  shows "inv_maps m (J(k \<mapsto> j')) (A((k, j_current_attempt j) \<mapsto> a')) (L(j_graph_id j := None)) M I S"
proof -
  note I = inv_maps_parts [OF assms(1)]
  have key: "(a_job_id a', a_attempt a') = (k, j_current_attempt j)" and jk: "j_job_id j' = k"
    using I(1) a j sa same by (auto simp: keys_ok_def same_attempt_def same_job_def)
  obtain l0 where l0: "L (j_graph_id j) = Some l0" "gl_job_id l0 = k"
    using I(6) j act by (auto simp: active_leased_def)
  have others: "gl_job_id l \<noteq> k" if "L g = Some l" "g \<noteq> j_graph_id j" for g l
    using I(5) that j unfolding leases_ok_def lease_ok_def by force
  have old: "attempt_ok j n b" if "A (k, n) = Some b" for n b using attempts_okD [OF I(4) that j] .
  show ?thesis
    unfolding inv_maps_def
  proof (intro conjI)
    show "keys_ok (J(k \<mapsto> j')) (A((k, j_current_attempt j) \<mapsto> a')) (L(j_graph_id j := None))"
      by (intro keys_ok_updates I(1) jk key)
    show "jobs_ok m (J(k \<mapsto> j'))"
      using jobs_okD [OF I(2) j] att checks assms(8) by (intro jobs_ok_update I(2)) auto
    show "job_keys_unique (J(k \<mapsto> j'))"
      using same by (intro unique_update [OF I(3) j]) (simp add: same_job_def)
    show "attempts_ok (J(k \<mapsto> j')) (A((k, j_current_attempt j) \<mapsto> a'))"
      using I(4) old att qd same sa a assms(11,12) act
      by (fastforce simp: attempts_ok_def attempt_ok_def same_job_def same_attempt_def)
    have "leases_ok J (A((k, j_current_attempt j) \<mapsto> a')) (L(j_graph_id j := None))"
      using a sa by (intro leases_ok_attempt leases_ok_leases I(5)) auto
    then show "leases_ok (J(k \<mapsto> j')) (A((k, j_current_attempt j) \<mapsto> a')) (L(j_graph_id j := None))"
      using others by (intro leases_ok_update) (auto split: if_splits)
    show "active_leased (J(k \<mapsto> j')) (L(j_graph_id j := None))"
      unfolding active_leased_def
    proof (intro allI impI)
      fix k' r assume "(J(k \<mapsto> j')) k' = Some r" "active (j_state r)"
      then have r: "J k' = Some r" "k' \<noteq> k" using qd by (auto split: if_splits)
      with I(6) \<open>active (j_state r)\<close> obtain l where "L (j_graph_id r) = Some l" "gl_job_id l = k'"
        "gl_attempt l = j_current_attempt r" by (auto simp: active_leased_def)
      with l0 r show "\<exists>l. (L(j_graph_id j := None)) (j_graph_id r) = Some l \<and> gl_job_id l = k'
          \<and> gl_attempt l = j_current_attempt r" by auto
    qed
    show "epochs_ok S (A((k, j_current_attempt j) \<mapsto> a'))" by (rule epochs_ok_attempt [OF I(7) a sa])
    show "success_ok (J(k \<mapsto> j')) M" using qd by (intro success_ok_update I(8)) simp
    show "intents_ok (J(k \<mapsto> j')) I" by (intro intents_ok_update I(9))
  qed
qed

text \<open>A queued job ends without ever being published.\<close>

lemma inv_maps_end_queued:
  assumes "inv_maps m J A L M I S" and j: "J k = Some j" and same: "same_job j j'"
    and checks: "job_checks j'" and att: "j_current_attempt j' = j_current_attempt j"
    and qd: "j_state j = Queued" and trm: "terminal (j_state j')" "j_state j' \<noteq> Succeeded"
  shows "inv_maps m (J(k \<mapsto> j')) A L M I S"
proof -
  note I = inv_maps_parts [OF assms(1)]
  have nq: "j_state j' \<noteq> Queued" "\<not> active (j_state j')" using trm by (auto simp: active_def)
  show ?thesis
    unfolding inv_maps_def
  proof (intro conjI)
    show "keys_ok (J(k \<mapsto> j')) A L"
      using I(1) same j by (intro keys_ok_updates(1)) (auto simp: same_job_def keys_ok_def)
    show "jobs_ok m (J(k \<mapsto> j'))"
      using jobs_okD [OF I(2) j] att checks nq by (intro jobs_ok_update I(2)) auto
    show "job_keys_unique (J(k \<mapsto> j'))"
      using same by (intro unique_update [OF I(3) j]) (simp add: same_job_def)
    show "attempts_ok (J(k \<mapsto> j')) A"
      using attempts_okD [OF I(4) _ j] att nq qd same
      by (intro attempts_ok_update I(4)) (simp add: attempt_ok_def same_job_def)
    show "leases_ok (J(k \<mapsto> j')) A L"
      using j qd by (intro leases_ok_update I(5)) (auto simp: lease_ok_def)
    show "active_leased (J(k \<mapsto> j')) L" using nq by (intro active_leased_update I(6)) simp
    show "success_ok (J(k \<mapsto> j')) M" using trm by (intro success_ok_update I(8)) simp
  qed (use I in \<open>simp_all add: intents_ok_update\<close>)
qed

lemma inv_maps_insert:
  assumes "inv_maps m J A L M I S" and new: "J k = None" "j_job_id j = k" "job_checks j"
    and "j_state j = Queued" "j_publication_state j = NotStarted" "j_current_attempt j \<le> m"
    and fresh: "\<And>k' j'. J k' = Some j' \<Longrightarrow> job_key j' \<noteq> job_key j"
  shows "inv_maps m (J(k \<mapsto> j)) A L M I S"
proof -
  note I = inv_maps_parts [OF assms(1)]
  have na: "A (k, n) = None" for n
  proof (rule ccontr)
    assume "A (k, n) \<noteq> None"
    with I(4) new(1) show False unfolding attempts_ok_def by (metis option.distinct(1) option.exhaust)
  qed
  show ?thesis
    unfolding inv_maps_def
  proof (intro conjI)
    show "jobs_ok m (J(k \<mapsto> j))" using assms by (intro jobs_ok_update I(2)) auto
    show "job_keys_unique (J(k \<mapsto> j))" by (rule unique_insert [OF I(3) fresh])
    show "attempts_ok (J(k \<mapsto> j)) A" using na by (intro attempts_ok_update I(4)) simp
    show "leases_ok (J(k \<mapsto> j)) A L" using new(1) by (intro leases_ok_update I(5)) simp
    show "active_leased (J(k \<mapsto> j)) L" using assms(5) by (intro active_leased_update I(6)) simp
    show "success_ok (J(k \<mapsto> j)) M" using assms(5) by (intro success_ok_update I(8)) simp
  qed (use I new in \<open>simp_all add: intents_ok_update keys_ok_updates\<close>)
qed

text \<open>A queued job is claimed: a new current attempt and the lease of its graph.\<close>

lemma inv_maps_claim:
  assumes "inv_maps m J A L M I S" and j: "J k = Some j" and same: "same_job j j'"
    and checks: "job_checks j'" and att: "j_current_attempt j' = j_current_attempt j + 1"
    and le: "j_current_attempt j + 1 \<le> m" and qd: "j_state j = Queued" and act: "active (j_state j')"
    and free: "L (j_graph_id j) = None" "A (k, j_current_attempt j + 1) = None"
    and a: "a_job_id a = k" "a_attempt a = j_current_attempt j + 1" "attempt_checks a" "a_is_current a"
      "a_generations a = j_generations j"
    and l: "gl_graph_id l = j_graph_id j" "gl_job_id l = k" "gl_attempt l = j_current_attempt j + 1"
      "same_owner a l"
    and own: "S = Some c" "a_fencing_epoch a = ci_fencing_epoch c" "a_instance_id a = ci_instance_id c"
  shows "inv_maps m (J(k \<mapsto> j')) (A((k, j_current_attempt j + 1) \<mapsto> a)) (L(j_graph_id j \<mapsto> l)) M I S"
proof -
  note I = inv_maps_parts [OF assms(1)]
  have jk: "j_job_id j' = k" using I(1) j same by (auto simp: keys_ok_def same_job_def)
  have nq: "j_state j' \<noteq> Queued" "j_state j' \<noteq> Succeeded" using act by (auto simp: active_def)
  have old: "attempt_ok j n b" if "A (k, n) = Some b" for n b using attempts_okD [OF I(4) that j] .
  have others: "gl_job_id l' \<noteq> k" if "L g = Some l'" for g l'
    using I(5) that j qd unfolding leases_ok_def lease_ok_def by fastforce
  have aok: "attempts_ok (J(k \<mapsto> j')) (A((k, j_current_attempt j + 1) \<mapsto> a))"
    using I(4) old att act qd same a
    by (fastforce simp: attempts_ok_def attempt_ok_def same_job_def)
  have "leases_ok (J(k \<mapsto> j')) A L" using others by (intro leases_ok_update I(5)) auto
  then have "leases_ok (J(k \<mapsto> j')) (A((k, j_current_attempt j + 1) \<mapsto> a)) L"
    using free(2) by (intro leases_ok_attempt) auto
  then have lok: "leases_ok (J(k \<mapsto> j')) (A((k, j_current_attempt j + 1) \<mapsto> a)) (L(j_graph_id j \<mapsto> l))"
    using l att nq same by (intro leases_ok_leases(2)) (auto simp: lease_ok_def same_job_def)
  show ?thesis
    unfolding inv_maps_def
  proof (intro conjI)
    show "keys_ok (J(k \<mapsto> j')) (A((k, j_current_attempt j + 1) \<mapsto> a)) (L(j_graph_id j \<mapsto> l))"
      using a l by (intro keys_ok_updates I(1) jk) auto
    show "jobs_ok m (J(k \<mapsto> j'))" using att le checks nq by (intro jobs_ok_update I(2)) auto
    show "job_keys_unique (J(k \<mapsto> j'))"
      using same by (intro unique_update [OF I(3) j]) (simp add: same_job_def)
    show "active_leased (J(k \<mapsto> j')) (L(j_graph_id j \<mapsto> l))"
      using I(6) same l att free(1) by (fastforce simp: active_leased_def same_job_def)
    show "epochs_ok S (A((k, j_current_attempt j + 1) \<mapsto> a))"
      using I(7) own by (auto simp: epochs_ok_def)
    show "success_ok (J(k \<mapsto> j')) M" using nq by (intro success_ok_update I(8)) simp
    show "intents_ok (J(k \<mapsto> j')) I" by (intro intents_ok_update I(9))
  qed (use aok lok in auto)
qed

lemma inv_maps_lease:
  assumes "inv_maps m J A L M I S" and "L g = Some l" and "gl_graph_id l' = gl_graph_id l"
    and "gl_job_id l' = gl_job_id l" and "gl_attempt l' = gl_attempt l"
    and "gl_instance_id l' = gl_instance_id l" and "gl_fencing_epoch l' = gl_fencing_epoch l"
    and "gl_graph_lease_epoch l' = gl_graph_lease_epoch l"
  shows "inv_maps m J A (L(g \<mapsto> l')) M I S"
proof -
  note I = inv_maps_parts [OF assms(1)]
  obtain j a where "J (gl_job_id l) = Some j" "A (gl_job_id l, gl_attempt l) = Some a" "lease_ok g l j a"
    using I(5) assms(2) unfolding leases_ok_def by blast
  then have "leases_ok J A (L(g \<mapsto> l'))"
    using assms by (intro leases_ok_leases(2) I(5)) (auto simp: lease_ok_def same_owner_def)
  moreover have "keys_ok J A (L(g \<mapsto> l'))"
    using I(1) assms(2,3) by (intro keys_ok_updates I(1)) (auto simp: keys_ok_def)
  moreover have "active_leased J (L(g \<mapsto> l'))"
    using I(6) assms(2,4,5) unfolding active_leased_def by (metis fun_upd_apply option.inject)
  ultimately show ?thesis using I by (simp add: inv_maps_def)
qed

lemma inv_maps_singleton:
  assumes "inv_maps m J A L M I S" and "0 < ci_fencing_epoch c'"
    and "\<And>c. S = Some c \<Longrightarrow> ci_fencing_epoch c < ci_fencing_epoch c'
      \<or> (ci_fencing_epoch c' = ci_fencing_epoch c \<and> ci_instance_id c' = ci_instance_id c)"
  shows "inv_maps m J A L M I (Some c')"
  using assms unfolding inv_maps_def epochs_ok_def by (auto; fastforce)

lemma inv_maps_marker:
  assumes "inv_maps m J A L M I S" and "M k = None"
  shows "inv_maps m J A L (M(k \<mapsto> r)) I S"
  using assms unfolding inv_maps_def success_ok_def committed_marker_def by fastforce

lemma inv_maps_intents:
  "inv_maps m J A L M I S \<Longrightarrow> intents_ok J I' \<Longrightarrow> inv_maps m J A L M I' S"
  by (simp add: inv_maps_def)

lemma inv_maps_delete:
  assumes "inv_maps m J A L M I S" and "\<And>g l. L g = Some l \<Longrightarrow> gl_job_id l \<notin> D"
    and "\<And>g i q. I g = Some i \<Longrightarrow> cs_queued_job_id i = Some q \<or> cs_running_job_id i = Some q \<Longrightarrow> q \<notin> D"
  shows "inv_maps m (\<lambda>k. if k \<in> D then None else J k) (\<lambda>k. if fst k \<in> D then None else A k) L
    (\<lambda>k. if fst k \<in> D then None else M k) I S"
proof -
  note I = inv_maps_parts [OF assms(1)]
  show ?thesis
    unfolding inv_maps_def
  proof (intro conjI)
    show "leases_ok (\<lambda>k. if k \<in> D then None else J k) (\<lambda>k. if fst k \<in> D then None else A k) L"
      using I(5) assms(2) unfolding leases_ok_def by force
    show "job_keys_unique (\<lambda>k. if k \<in> D then None else J k)"
      using I(3) unfolding job_keys_unique_def by (metis option.distinct(1))
  qed (use I assms(3) in \<open>auto simp: keys_ok_def jobs_ok_def attempts_ok_def active_leased_def
        epochs_ok_def success_ok_def committed_marker_def intents_ok_def split: if_splits\<close>)
qed

end
