(* ===== verification/Control_Steps.thy ===== *)
theory Control_Steps
  imports Control_Invariant
begin

text \<open>
  Every transaction of the control store keeps the invariant, and the transition system they form.
\<close>

section \<open>Preservation by each transaction\<close>

definition claim_ok :: "control_db \<Rightarrow> JobClaim \<Rightarrow> bool" where
  \<comment> \<open>what the store knows of a claim it handed out, as long as the job exists\<close>
  "claim_ok db c =
     ((\<forall>j. map_of (jobs db) (c_job_id c) = Some j \<longrightarrow>
         j_graph_id j = c_graph_id c \<and> c_attempt c \<le> j_current_attempt j)
      \<and> (\<forall>a. map_of (attempts db) (claim_key c) = Some a \<longrightarrow> owned_by c (a\<lparr>a_is_current := True\<rparr>)))"

lemma store_inv_tables: "store_inv m db \<Longrightarrow> tables_ok db"
  and store_inv_maps: "store_inv m db \<Longrightarrow> inv_maps m (map_of (jobs db)) (map_of (attempts db))
     (map_of (leases db)) (map_of (markers db)) (map_of (intents db)) (singleton db)"
  by (simp_all add: store_inv_def)

lemma store_inv_job_id: "store_inv m db \<Longrightarrow> map_of (jobs db) k = Some j \<Longrightarrow> j_job_id j = k"
  using inv_maps_parts(1) [OF store_inv_maps] by (auto simp: keys_ok_def)

lemma store_inv_attempt:
  assumes "store_inv m db" and "map_of (attempts db) (k, n) = Some a"
  shows "a_job_id a = k" and "a_attempt a = n"
  using inv_maps_parts(1) [OF store_inv_maps [OF assms(1)]] assms(2) by (auto simp: keys_ok_def)

lemma store_inv_attempt_job:
  assumes "store_inv m db" and "map_of (attempts db) (k, n) = Some a"
  obtains j where "map_of (jobs db) k = Some j" and "attempt_ok j n a"
  using inv_maps_parts(4) [OF store_inv_maps [OF assms(1)]] assms(2) unfolding attempts_ok_def by blast

lemma singleton_inv:
  assumes "store_inv m db" and "0 < ci_fencing_epoch c'"
    and "\<And>c. singleton db = Some c \<Longrightarrow> ci_fencing_epoch c < ci_fencing_epoch c'
      \<or> (ci_fencing_epoch c' = ci_fencing_epoch c \<and> ci_instance_id c' = ci_instance_id c)"
  shows "store_inv m (db\<lparr>singleton := Some c'\<rparr>)"
  using assms inv_maps_singleton [OF store_inv_maps [OF assms(1)], of c']
  by (simp add: store_inv_def tables_ok_def)

lemma store_inv_epoch: "store_inv m db \<Longrightarrow> singleton db = Some c \<Longrightarrow> 0 < ci_fencing_epoch c"
  using inv_maps_parts(7) [OF store_inv_maps] by (auto simp: epochs_ok_def)

lemma acquire_singleton_inv:
  assumes "store_inv m db" and "acquire_singleton env iid ttl db = Inr (e, db')"
  shows "store_inv m db'"
proof (cases "singleton db")
  case None
  with assms(2) show ?thesis
    by (auto simp: acquire_singleton_def result_simps intro!: singleton_inv [OF assms(1)])
next
  case (Some c)
  with assms(2) store_inv_epoch [OF assms(1) Some] show ?thesis
    by (auto simp: acquire_singleton_def result_simps split: if_splits
        intro!: singleton_inv [OF assms(1)])
qed

lemma heartbeat_singleton_inv:
  assumes "store_inv m db" and "heartbeat_singleton env iid ep ttl db = Inr (b, db')"
  shows "store_inv m db'"
proof (cases "singleton db")
  case (Some c)
  with assms store_inv_epoch [OF assms(1) Some] show ?thesis
    by (auto simp: heartbeat_singleton_def result_simps split: if_splits
        intro!: singleton_inv [OF assms(1)])
qed (use assms in \<open>auto simp: heartbeat_singleton_def result_simps\<close>)

lemma stop_singleton_inv:
  assumes "store_inv m db" and "stop_singleton env iid ep db = Inr (b, db')"
  shows "store_inv m db'"
proof (cases "singleton db")
  case (Some c)
  with assms store_inv_epoch [OF assms(1) Some] show ?thesis
    by (auto simp: stop_singleton_def result_simps split: if_splits
        intro!: singleton_inv [OF assms(1)])
qed (use assms in \<open>auto simp: stop_singleton_def result_simps\<close>)

lemma update_intent_inv:
  assumes "store_inv m db"
    and "\<And>i q. p i \<Longrightarrow> cs_queued_job_id (f i) = Some q \<or> cs_running_job_id (f i) = Some q \<Longrightarrow>
      cs_queued_job_id i = Some q \<or> cs_running_job_id i = Some q \<or> map_of (jobs db) q \<noteq> None"
  shows "store_inv m (snd (update_intent g p f db))"
proof (cases "update_intent g p f db")
  case (Pair b db')
  then show ?thesis
  proof (cases rule: update_intent_cases)
    case (updated i)
    have "intents_ok (map_of (jobs db)) (map_of (intents db))"
      using inv_maps_parts(9) [OF store_inv_maps [OF assms(1)]] .
    then have "intents_ok (map_of (jobs db)) ((map_of (intents db))(g \<mapsto> f i))"
      using updated(2,3) assms(2) unfolding intents_ok_def by (metis fun_upd_apply option.inject)
    with Pair updated assms(1) show ?thesis
      by (auto simp: store_inv_def tables_ok_def intro: inv_maps_intents)
  qed (use Pair assms in simp)
qed

lemma clear_running_inv: "store_inv m db \<Longrightarrow> store_inv m (clear_running g k db)"
  unfolding clear_running_def by (rule update_intent_inv) auto

lemma release_graph_lease_inv:
  assumes "store_inv m db"
    and "release_graph_lease env g k n oi oe ri re db = Inr (b, db')"
  shows "store_inv m db'"
proof -
  define p :: "lease_row \<Rightarrow> bool" where "p = (\<lambda>l. gl_job_id l = k \<and> gl_attempt l = n \<and> gl_instance_id l = oi
    \<and> gl_fencing_epoch l = oe \<and> live_owner (tx_now env) ri re db
    \<and> (case map_of (jobs db) (gl_job_id l) of Some j \<Rightarrow> releasable j | None \<Rightarrow> False))"
  obtain b1 db1 where d: "delete_lease g p db = (b1, db1)" by fastforce
  have "store_inv m db1"
    using d
  proof (cases rule: delete_lease_cases)
    case (deleted l)
    have "\<not> active (j_state j)" if "map_of (jobs db) (gl_job_id l) = Some j" for j
      using deleted(3) that by (auto simp: p_def releasable_def active_def)
    with deleted assms(1) show ?thesis
      by (auto simp: store_inv_def tables_ok_def intro!: inv_maps_lease_delete)
  qed (use assms(1) in simp)
  moreover have "db' = db1 \<or> db' = clear_running g k db1"
    using assms(2) d by (auto simp: release_graph_lease_def p_def [symmetric] split: if_splits)
  ultimately show ?thesis using clear_running_inv by blast
qed

lemma claim_once_inv:
  assumes "store_inv m db" and "claim_once env iid ep secs m auto db = Inr (r, db')"
  shows "store_inv m db'"
proof (cases r)
  case None
  with assms show ?thesis
    by (auto simp: claim_once_def result_simps Let_def split: option.splits)
next
  case (Some c)
  obtain j db2 where live: "live_owner (tx_now env) iid ep db"
    and nc: "next_claimable env m auto db = Some j"
    and free: "map_of (attempts db) (j_job_id j, j_current_attempt j + 1) = None"
    and ac: "attempt_checks (new_attempt env iid ep j)"
    and uj: "update_job (j_job_id j) (\<lambda>r. j_state r = Queued)
           (\<lambda>r. r\<lparr>j_state := Claimed, j_current_attempt := j_current_attempt j + 1,
                 j_updated_at := tx_now env\<rparr>)
           (db\<lparr>attempts := AList.update (j_job_id j, j_current_attempt j + 1)
                 (new_attempt env iid ep j) (attempts db),
               leases := AList.update (j_graph_id j) (new_lease env iid ep secs j) (leases db)\<rparr>)
           = Inr db2"
    and out: "db' = (if j_priority_class j = Automatic
                then snd (update_intent (j_graph_id j)
                       (\<lambda>i. cs_queued_job_id i = Some (j_job_id j))
                       (\<lambda>i. i\<lparr>cs_queued_job_id := None,
                             cs_running_job_id := Some (j_job_id j), cs_dirty := False\<rparr>) (snd db2))
                else snd db2)"
    by (rule claim_once_Some [OF assms(2) [unfolded Some]]) blast
  have tab: "table_ok (jobs db)" using assms(1) by (simp add: store_inv_def tables_ok_def)
  obtain k where k: "map_of (jobs db) k = Some j" using next_claimable_Some(1) [OF nc tab] by blast
  then have [simp]: "j_job_id j = k" using store_inv_job_id assms(1) by blast
  have cl: "claimable env m auto db j" using next_claimable_Some(2) [OF nc tab] .
  then have q: "j_state j = Queued" "j_current_attempt j + 1 \<le> m"
    "map_of (leases db) (j_graph_id j) = None" by (auto simp: claimable_def)
  obtain s where s: "singleton db = Some s" "ci_fencing_epoch s = ep" "ci_instance_id s = iid"
    using live_owner_singleton [OF live] by auto
  let ?j = "j\<lparr>j_state := Claimed, j_current_attempt := j_current_attempt j + 1,
                 j_updated_at := tx_now env\<rparr>"
  have jc: "job_checks ?j" and db2: "snd db2 = db\<lparr>attempts := AList.update (k, j_current_attempt j + 1)
                 (new_attempt env iid ep j) (attempts db),
               leases := AList.update (j_graph_id j) (new_lease env iid ep secs j) (leases db),
               jobs := AList.update k ?j (jobs db)\<rparr>"
    using uj k q by (auto simp: update_job_def write_job_def result_simps)
  have "inv_maps m ((map_of (jobs db))(k \<mapsto> ?j))
      ((map_of (attempts db))((k, j_current_attempt j + 1) \<mapsto> new_attempt env iid ep j))
      ((map_of (leases db))(j_graph_id j \<mapsto> new_lease env iid ep secs j))
      (map_of (markers db)) (map_of (intents db)) (singleton db)"
    using ac jc q free s
    by (intro inv_maps_claim [OF store_inv_maps [OF assms(1)] k, where c = s])
       (simp_all add: same_job_def job_key_def new_attempt_def new_lease_def same_owner_def)
  then have "store_inv m (snd db2)"
    using assms(1) unfolding db2 by (simp add: store_inv_def tables_ok_def)
  then show ?thesis
    unfolding out using k db2 by (auto intro!: update_intent_inv)
qed

lemma insert_job_inv:
  assumes "store_inv m db" and "insert_job j db = Inr db'" and "j_state j = Queued"
    and "j_publication_state j = NotStarted" and "j_current_attempt j \<le> m"
  shows "store_inv m db'"
proof -
  note i = insert_job_Inr [OF assms(2)]
  have "job_key j' \<noteq> job_key j" if "map_of (jobs db) k' = Some j'" for k' j'
    using i(2) map_of_SomeD [OF that] by (auto simp: job_key_clash_def list_ex_iff job_key_def)
  then have "inv_maps m ((map_of (jobs db))(j_job_id j \<mapsto> j)) (map_of (attempts db))
     (map_of (leases db)) (map_of (markers db)) (map_of (intents db)) (singleton db)"
    using i assms by (intro inv_maps_insert [OF store_inv_maps [OF assms(1)]]) auto
  with i(4) assms(1) show ?thesis by (simp add: store_inv_def tables_ok_def)
qed

lemma update_job_inv:
  assumes "store_inv m db" and "update_job k p f db = Inr (b, db')"
    and "\<And>j. p j \<Longrightarrow> job_checks (f j) \<Longrightarrow> map_of (jobs db) k = Some j \<Longrightarrow>
      same_job j (f j) \<and> j_current_attempt (f j) = j_current_attempt j \<and>
      ((j_state (f j) = j_state j \<and> j_publication_state (f j) = j_publication_state j)
       \<or> (active (j_state j) \<and> active (j_state (f j)))
       \<or> (j_state j = Queued \<and> terminal (j_state (f j)) \<and> j_state (f j) \<noteq> Succeeded))"
  shows "store_inv m db'"
  using assms(2)
proof (cases rule: update_job_cases)
  case (updated j)
  have key: "j_job_id (f j) = k"
    using assms(3) [OF updated(3,4,2)] store_inv_job_id [OF assms(1) updated(2)] by (simp add: same_job_def)
  have "inv_maps m ((map_of (jobs db))(k \<mapsto> f j)) (map_of (attempts db))
     (map_of (leases db)) (map_of (markers db)) (map_of (intents db)) (singleton db)"
    using assms(3) [OF updated(3,4,2)] updated(4)
      inv_maps_job [OF store_inv_maps [OF assms(1)] updated(2), of "f j"]
      inv_maps_end_queued [OF store_inv_maps [OF assms(1)] updated(2), of "f j"] by blast
  with updated(5) assms(1) key show ?thesis by (simp add: store_inv_def tables_ok_def)
qed (use assms in simp)

lemma update_attempt_inv:
  assumes "store_inv m db" and "update_attempt k p f db = Inr (b, db')"
    and "\<And>a. p a \<Longrightarrow> same_attempt a (f a) \<and> a_is_current (f a) = a_is_current a"
  shows "store_inv m db'"
  using assms(2)
proof (cases rule: update_attempt_cases)
  case (updated a)
  obtain k1 k2 where k: "k = (k1, k2)" by (cases k)
  have "inv_maps m (map_of (jobs db)) ((map_of (attempts db))(k \<mapsto> f a))
     (map_of (leases db)) (map_of (markers db)) (map_of (intents db)) (singleton db)"
    using assms(3) [OF updated(3)] updated(2,4) unfolding k
    by (intro inv_maps_attempt [OF store_inv_maps [OF assms(1)]]) auto
  with updated(5) assms(1) show ?thesis by (simp add: store_inv_def tables_ok_def)
qed (use assms in simp)

lemma submit_transaction_inv:
  assumes "store_inv m db" and "0 \<le> m"
    and "submit_transaction env sha256 new_id request requester limits db = Inr (r, db')"
  shows "store_inv m db'"
  using assms
  by (auto simp: submit_transaction_def Let_def result_simps new_job_def split: option.splits
      elim!: insert_job_inv)

lemma supersede_inv:
  "store_inv m db \<Longrightarrow> supersede env replaced db = Inr db' \<Longrightarrow> store_inv m db'"
  by (auto simp: supersede_def result_simps same_job_def job_key_def split: option.splits
      elim!: update_job_inv)

lemma link_replacement_inv:
  "store_inv m db \<Longrightarrow> link_replacement replaced k db = Inr db' \<Longrightarrow> store_inv m db'"
  by (auto simp: link_replacement_def result_simps same_job_def job_key_def split: option.splits
      elim!: update_job_inv)

lemma link_replacement_job:
  assumes "link_replacement replaced k db = Inr db'" and "map_of (jobs db) q \<noteq> None"
  shows "map_of (jobs db') q \<noteq> None"
  using assms
  by (auto simp: link_replacement_def result_simps split: option.splits elim!: update_job_cases)

lemma upsert_intent_inv:
  assumes "store_inv m db" and "map_of (jobs db) k \<noteq> None"
  shows "store_inv m (upsert_intent env request k gens db)"
proof -
  have "intents_ok (map_of (jobs db)) (map_of (intents db))"
    using inv_maps_parts(9) [OF store_inv_maps [OF assms(1)]] .
  then have "intents_ok (map_of (jobs db)) (map_of (intents (upsert_intent env request k gens db)))"
    using assms(2) by (auto simp: upsert_intent_def Let_def intents_ok_def split: option.splits)
  with assms(1) show ?thesis
    by (auto simp: store_inv_def tables_ok_def upsert_intent_def Let_def intro: inv_maps_intents)
qed

lemma coalesce_transaction_inv:
  assumes "store_inv m db" and "0 \<le> m"
    and "coalesce_transaction env sha256 new_id request requester limits db = Inr (r, db')"
  shows "store_inv m db'"
proof (cases "coalesced_job (request_generations request) (map_of (intents db) (graph_id request)) db")
  case None
  with assms(3) obtain db1 db2 db3 replaced fp dg where
    1: "supersede env replaced db = Inr db1" and
    2: "insert_job (new_job env new_id request requester dg fp 50) db1 = Inr db2" and
    3: "link_replacement replaced new_id db2 = Inr db3" and
    4: "db' = upsert_intent env request new_id (request_generations request) db3"
    by (auto simp: coalesce_transaction_def Let_def result_simps split: if_splits)
  have "store_inv m db2"
    using supersede_inv [OF assms(1) 1] 2 assms(2) by (elim insert_job_inv) (auto simp: new_job_def)
  moreover have "map_of (jobs db2) new_id \<noteq> None"
    using insert_job_Inr(4) [OF 2] by (simp add: new_job_def)
  ultimately show ?thesis
    unfolding 4 using 3 by (intro upsert_intent_inv) (auto dest: link_replacement_inv link_replacement_job)
qed (use assms in \<open>auto simp: coalesce_transaction_def Let_def split: if_splits\<close>)

lemma cas_job_same [simp]: "same_job j (cas_job env t p e j)"
  "j_current_attempt (cas_job env t p e j) = j_current_attempt j" "j_state (cas_job env t p e j) = t"
  by (simp_all add: cas_job_def same_job_def job_key_def)

lemma cas_attempt_same [simp]: "same_attempt a (cas_attempt env t p e d a)"
  "a_is_current (cas_attempt env t p e d a) = (a_is_current a \<and> \<not> terminal t)"
  "attempt_checks (cas_attempt env t p e d a) = attempt_checks a"
  by (simp_all add: cas_attempt_def same_attempt_def Let_def attempt_checks_def)

lemma legal_active: "legal s t \<Longrightarrow> s \<noteq> Queued \<Longrightarrow> active s"
  using terminal_absorbing [of s t] by (auto simp: active_def)

text \<open>
  The transition no caller makes is the one to the queue: \<^const>\<open>compare_and_set_state\<close> would leave
  the attempt current and the lease held, which is what the retry transactions are there to undo.
\<close>

lemma compare_and_set_state_inv:
  assumes inv: "store_inv m db" and "t \<noteq> Queued"
    and "compare_and_set_state env k s t n iid ep p e d db = Inr (b, db')"
  shows "store_inv m db'"
  using assms(3)
proof (cases rule: compare_and_set_state_cases)
  case (set j a)
  have [simp]: "j_job_id j = k" using store_inv_job_id inv set(4) by blast
  have st: "j_state j = s" "j_current_attempt j = n" using set(5) by (auto simp: cas_allowed_def)
  obtain j0 where "map_of (jobs db) k = Some j0" "attempt_ok j0 n a"
    using store_inv_attempt_job [OF inv set(7)] by blast
  then have aok: "attempt_ok j n a" using set(4) by simp
  then have act: "active s" using set(8) st by (simp add: attempt_ok_def)
  let ?J = "(map_of (jobs db))(k \<mapsto> cas_job env t p e j)"
  let ?A = "(map_of (attempts db))((k, n) \<mapsto> cas_attempt env t p e d a)"
  have ac: "attempt_checks a" using aok by (simp add: attempt_ok_def)
  have "inv_maps m ?J ?A (map_of (leases db)) (map_of (markers db)) (map_of (intents db)) (singleton db)"
  proof (cases "terminal t")
    case True
    have "committed_marker (map_of (markers db)) k (cas_job env t p e j)" if "t = Succeeded"
      using set(5,7) that st store_inv_attempt [OF inv set(7)]
      by (auto simp: cas_allowed_def matching_marker_def committed_marker_def cas_job_def
          split: option.splits)
    then show ?thesis
      using True set act st ac
      by (intro inv_maps_close [OF store_inv_maps [OF inv] set(4), of "cas_job env t p e j", unfolded st])
         auto
  next
    case False
    then have "active t" using \<open>t \<noteq> Queued\<close> by (simp add: active_def)
    with set act st have "inv_maps m ?J (map_of (attempts db)) (map_of (leases db))
        (map_of (markers db)) (map_of (intents db)) (singleton db)"
      by (intro inv_maps_job [OF store_inv_maps [OF inv] set(4)]) auto
    then show ?thesis using set(7) False ac by (intro inv_maps_attempt) auto
  qed
  with set(11) inv show ?thesis by (simp add: store_inv_def tables_ok_def)
next
  case (set_job j)
  have [simp]: "j_job_id j = k" using store_inv_job_id inv set_job(4) by blast
  obtain a where a: "map_of (attempts db) (k, n) = Some a" "a_is_current a" "j_state j = s"
    "j_current_attempt j = n"
    using set_job(5) by (auto simp: cas_allowed_def split: option.splits)
  obtain j0 where "map_of (jobs db) k = Some j0" "attempt_ok j0 n a"
    using store_inv_attempt_job [OF inv a(1)] by blast
  then have "active (j_state j)" using a(2) set_job(4) by (simp add: attempt_ok_def)
  moreover have "active t" using set_job(3) \<open>t \<noteq> Queued\<close> by (simp add: active_def)
  ultimately have "inv_maps m ((map_of (jobs db))(k \<mapsto> cas_job env t p e j)) (map_of (attempts db))
      (map_of (leases db)) (map_of (markers db)) (map_of (intents db)) (singleton db)"
    using set_job(6) by (intro inv_maps_job [OF store_inv_maps [OF inv] set_job(4)]) auto
  with set_job(8) inv show ?thesis by (simp add: store_inv_def tables_ok_def)
qed (use inv in simp)

lemma renew_lease_inv: "store_inv m db \<Longrightarrow> store_inv m (snd (renew_lease env c secs db))"
  by (auto simp: renew_lease_def store_inv_def tables_ok_def intro!: inv_maps_lease split: option.splits)

lemma heartbeat_attempt_inv:
  assumes "store_inv m db" and "heartbeat_attempt env limits c ttl ph cnt tot db = Inr (b, db')"
  shows "store_inv m db'"
proof -
  obtain secs where s: "positive_seconds ttl = Inr secs"
    using assms(2) by (auto simp: heartbeat_attempt_def result_simps)
  obtain b1 db1 where r: "renew_lease env c secs db = (b1, db1)" by fastforce
  have i1: "store_inv m db1" using renew_lease_inv [OF assms(1), of env c secs] r by simp
  show ?thesis
  proof (cases b1)
    case True
    with assms(2) s r obtain b2 db2 where u: "update_attempt (claim_key c) (owned_by c)
        (\<lambda>a. a\<lparr>a_heartbeat_at := tx_now env\<rparr>) db1 = Inr (b2, db2)"
      by (auto simp: heartbeat_attempt_def result_simps)
    have i2: "store_inv m db2" using i1 u by (rule update_attempt_inv) (simp add: same_attempt_def)
    show ?thesis
    proof (cases ph)
      case None
      with assms(2) s r u True i2 show ?thesis by (simp add: heartbeat_attempt_def result_simps)
    next
      case (Some x)
      with assms(2) s r u True obtain v q b3 where "update_job (c_job_id c)
          (progress_due env limits (c_attempt c) x v q) (\<lambda>j. j\<lparr>j_phase := x, j_progress_completed := v,
             j_progress_total := q, j_updated_at := tx_now env\<rparr>) db2 = Inr (b3, db')"
        by (auto simp: heartbeat_attempt_def result_simps)
      with i2 show ?thesis by (rule update_job_inv) (simp add: same_job_def job_key_def)
    qed
  qed (use assms(2) s r i1 in \<open>auto simp: heartbeat_attempt_def result_simps\<close>)
qed

lemma request_cancellation_inv:
  assumes "store_inv m db" and "request_cancellation env k db = Inr (r, db')"
  shows "store_inv m db'"
  using assms
  by (auto simp: request_cancellation_def result_simps cancelled_row_def same_job_def job_key_def
      elim!: update_job_inv)

lemma mark_attempt_terminated_inv:
  assumes "store_inv m db" and "mark_attempt_terminated env c pr ri re d db = Inr (b, db')"
  shows "store_inv m db'"
  using assms by (auto simp: mark_attempt_terminated_def result_simps same_attempt_def elim!: update_attempt_inv)

text \<open>A claim's graph is its job's graph, so a closed attempt's lease is the one that is dropped.\<close>

lemma owned_by_current: "owned_by c a \<Longrightarrow> a_is_current a"
  by (simp add: owned_by_def)

lemma owned_job_active:
  assumes inv: "store_inv m db" and "map_of (attempts db) (claim_key c) = Some a" and "owned_by c a"
    and "map_of (jobs db) (c_job_id c) = Some j"
  shows "active (j_state j)" and "j_current_attempt j = c_attempt c" and "attempt_checks a"
  using attempts_okD [OF inv_maps_parts(4) [OF store_inv_maps [OF inv]] _ assms(4)] assms(2,3)
  by (auto simp: claim_key_def attempt_ok_def owned_by_def)

lemma store_inv_leased:
  assumes inv: "store_inv m db" and j: "map_of (jobs db) k = Some j" and act: "active (j_state j)"
  obtains l a where "map_of (leases db) (j_graph_id j) = Some l" and "gl_job_id l = k"
    and "gl_attempt l = j_current_attempt j"
    and "map_of (attempts db) (k, j_current_attempt j) = Some a" and "same_owner a l"
proof -
  note im = store_inv_maps [OF inv]
  obtain l where l: "map_of (leases db) (j_graph_id j) = Some l" "gl_job_id l = k"
    "gl_attempt l = j_current_attempt j"
    using inv_maps_parts(6) [OF im] j act unfolding active_leased_def by metis
  moreover obtain a where "map_of (attempts db) (k, j_current_attempt j) = Some a" "same_owner a l"
    using inv_maps_parts(5) [OF im] l unfolding leases_ok_def lease_ok_def by metis
  ultimately show thesis using that by blast
qed

lemma owned_lease:
  assumes inv: "store_inv m db" and a: "map_of (attempts db) (claim_key c) = Some a" "owned_by c a"
    and j: "map_of (jobs db) (c_job_id c) = Some j"
  shows "\<exists>l. map_of (leases db) (j_graph_id j) = Some l \<and> lease_of_claim c l
    \<and> gl_graph_lease_epoch l = a_graph_lease_epoch a"
proof -
  note o = owned_job_active [OF inv a j]
  obtain l b where "map_of (leases db) (j_graph_id j) = Some l" "gl_job_id l = c_job_id c"
    "gl_attempt l = j_current_attempt j" "map_of (attempts db) (c_job_id c, j_current_attempt j) = Some b"
    "same_owner b l"
    by (rule store_inv_leased [OF inv j o(1)])
  with a o(2) show ?thesis
    by (auto simp: claim_key_def lease_of_claim_def same_owner_def owned_by_def)
qed

lemma close_and_drop_inv:
  assumes inv: "store_inv m db" and c: "claim_ok db c"
    and j: "map_of (jobs db) (c_job_id c) = Some j" "j_current_attempt j = c_attempt c"
    and a: "map_of (attempts db) (claim_key c) = Some a" "owned_by c a"
    and j': "same_job j j'" "j_current_attempt j' = j_current_attempt j" "job_checks j'"
    and a': "same_attempt a a'" "\<not> a_is_current a'" "attempt_checks a'"
    and st: "terminal (j_state j') \<or> (j_state j' = Queued \<and> j_publication_state j' = NotStarted)"
    and succ: "j_state j' = Succeeded \<Longrightarrow> committed_marker (map_of (markers db)) (c_job_id c) j'"
  shows "store_inv m (db\<lparr>jobs := AList.update (c_job_id c) j' (jobs db),
     attempts := AList.update (claim_key c) a' (attempts db),
     leases := AList.delete (c_graph_id c) (leases db)\<rparr>)"
proof -
  have act: "active (j_state j)" using owned_job_active(1) [OF inv a j(1)] .
  have g: "c_graph_id c = j_graph_id j" using c j by (auto simp: claim_ok_def)
  note im = store_inv_maps [OF inv]
  let ?k = "c_job_id c" and ?n = "j_current_attempt j"
  let ?J = "(map_of (jobs db))(?k \<mapsto> j')" and ?A = "(map_of (attempts db))((?k, ?n) \<mapsto> a')"
  have key: "claim_key c = (?k, ?n)" using j by (simp add: claim_key_def)
  have "inv_maps m ?J ?A ((map_of (leases db))(j_graph_id j := None)) (map_of (markers db))
      (map_of (intents db)) (singleton db)"
  proof (cases "terminal (j_state j')")
    case True
    have "inv_maps m ?J ?A (map_of (leases db)) (map_of (markers db)) (map_of (intents db)) (singleton db)"
      using a' a j' succ True act
      by (intro inv_maps_close [OF im j(1)]) (simp_all add: key)
    moreover have "\<not> active (j_state r)"
      if l: "map_of (leases db) (j_graph_id j) = Some l" and r: "?J (gl_job_id l) = Some r" for l r
    proof -
      have "gl_job_id l = ?k"
        using owned_lease [OF inv a j(1)] l by (auto simp: lease_of_claim_def)
      with r True show ?thesis by (simp add: active_not_terminal)
    qed
    ultimately show ?thesis by (rule inv_maps_lease_delete)
  next
    case False
    with st a' a j' act show ?thesis
      by (intro inv_maps_requeue [OF im j(1)]) (simp_all add: key)
  qed
  with inv show ?thesis by (simp add: store_inv_def tables_ok_def key g)
qed

lemma schedule_retry_inv:
  assumes inv: "store_inv m db" and c: "claim_ok db c"
    and run: "schedule_retry env c s delay cat mx d db = Inr (b, db')"
  shows "store_inv m db'"
proof (cases "retry_candidate c s db")
  case None
  with run inv show ?thesis by (auto simp: schedule_retry_def result_simps)
next
  case (Some j)
  have j: "map_of (jobs db) (c_job_id c) = Some j" and s: "j_state j = s" "j_current_attempt j = c_attempt c"
    using Some by (auto simp: retry_candidate_def split: option.splits if_splits)
  have jid: "j_job_id j = c_job_id c" using store_inv_job_id [OF inv j] .
  obtain a where a: "map_of (attempts db) (claim_key c) = Some a" "owned_by c a"
    using Some j s jid by (auto simp: retry_candidate_def claim_key_def split: option.splits if_splits)
  let ?j = "j\<lparr>j_state := Queued, j_publication_state := NotStarted, j_error_category := Some cat,
              j_next_eligible_at := tx_now env + delay, j_updated_at := tx_now env\<rparr>"
  let ?a = "a\<lparr>a_is_current := False, a_finished_at := Some (tx_now env), a_result_category := Some cat,
              a_diagnostic_summary := coalesce d (a_diagnostic_summary a)\<rparr>"
  let ?db = "db\<lparr>jobs := AList.update (c_job_id c) ?j (jobs db),
                attempts := AList.update (claim_key c) ?a (attempts db)\<rparr>"
  have ch: "job_checks ?j" "attempt_checks ?a"
    and out: "db' = snd (delete_lease (c_graph_id c) (lease_of_claim c) ?db)"
    using run Some j s a jid
    by (auto simp: schedule_retry_def result_simps update_job_def write_job_def update_attempt_def)
  obtain l where l: "map_of (leases db) (c_graph_id c) = Some l" "lease_of_claim c l"
    using owned_lease [OF inv a j] c j by (auto simp: claim_ok_def)
  have "db' = ?db\<lparr>leases := AList.delete (c_graph_id c) (leases db)\<rparr>"
    unfolding out using l by (simp add: delete_lease_def)
  then show ?thesis
    using close_and_drop_inv [OF inv c j s(2) a, of ?j ?a] ch
    by (simp add: same_job_def job_key_def same_attempt_def)
qed

lemma closed_attempt_same [simp]: "same_attempt a (closed_attempt env p e d a)"
  "\<not> a_is_current (closed_attempt env p e d a)"
  by (simp_all add: closed_attempt_def same_attempt_def)

lemma close_terminal_inv:
  assumes inv: "store_inv m db" and c: "claim_ok db c"
    and j: "map_of (jobs db) (c_job_id c) = Some j" "j_state j = ReconciliationRequired"
      "j_current_attempt j = c_attempt c"
    and t: "terminal t" and succ: "t = Succeeded \<Longrightarrow> committed_marker (map_of (markers db)) (c_job_id c) j"
    and run: "close_terminal env c t p e d db = Inr db'"
  shows "store_inv m db'"
proof (rule close_terminal_Inr [OF run j])
  show "j_job_id j = c_job_id c" using store_inv_job_id [OF inv j(1)] .
  fix a l
  let ?j = "j\<lparr>j_state := t, j_publication_state := p, j_error_category := e,
           j_finished_at := Some (tx_now env), j_updated_at := tx_now env\<rparr>"
  assume a: "map_of (attempts db) (claim_key c) = Some a" "owned_by c a"
    and ch: "job_checks ?j" "attempt_checks (closed_attempt env p e d a)"
    and out: "db' = clear_running (c_graph_id c) (c_job_id c)
           (db\<lparr>jobs := AList.update (c_job_id c) ?j (jobs db),
               attempts := AList.update (claim_key c) (closed_attempt env p e d a) (attempts db),
               leases := AList.delete (c_graph_id c) (leases db)\<rparr>)"
  show ?thesis
    unfolding out using ch t succ
    by (intro clear_running_inv close_and_drop_inv [OF inv c j(1,3) a])
       (simp_all add: same_job_def job_key_def committed_marker_def)
qed

lemma queue_retry_inv:
  assumes inv: "store_inv m db" and c: "claim_ok db c"
    and j: "map_of (jobs db) (c_job_id c) = Some j" "j_state j = ReconciliationRequired"
      "j_current_attempt j = c_attempt c"
    and run: "queue_retry env c p db = Inr db'"
  shows "store_inv m db'"
proof (rule queue_retry_Inr [OF run j])
  show "j_job_id j = c_job_id c" using store_inv_job_id [OF inv j(1)] .
  fix a l
  let ?j = "j\<lparr>j_state := Queued, j_publication_state := NotStarted,
           j_error_category := Some ''transient'', j_next_eligible_at := tx_now env + usec 1,
           j_updated_at := tx_now env\<rparr>"
  assume a: "map_of (attempts db) (claim_key c) = Some a" "owned_by c a"
    and ch: "job_checks ?j" "attempt_checks (closed_attempt env p (Some ''transient'') None a)"
    and out: "db' = clear_running (c_graph_id c) (c_job_id c)
           (db\<lparr>jobs := AList.update (c_job_id c) ?j (jobs db),
               attempts := AList.update (claim_key c) (closed_attempt env p (Some ''transient'') None a)
                 (attempts db),
               leases := AList.delete (c_graph_id c) (leases db)\<rparr>)"
  show ?thesis
    unfolding out using ch
    by (intro clear_running_inv close_and_drop_inv [OF inv c j(1,3) a])
       (simp_all add: same_job_def job_key_def)
qed

lemma pause_graph_intent_frame [simp]:
  "jobs (pause_graph_intent env c db) = jobs db" "attempts (pause_graph_intent env c db) = attempts db"
  "leases (pause_graph_intent env c db) = leases db" "markers (pause_graph_intent env c db) = markers db"
  "singleton (pause_graph_intent env c db) = singleton db"
  by (simp_all add: pause_graph_intent_def Let_def split: option.splits)

lemma pause_graph_intent_inv: "store_inv m db \<Longrightarrow> store_inv m (pause_graph_intent env c db)"
proof -
  assume inv: "store_inv m db"
  have "intents_ok (map_of (jobs db)) (map_of (intents db))"
    using inv_maps_parts(9) [OF store_inv_maps [OF inv]] .
  then have "intents_ok (map_of (jobs db)) (map_of (intents (pause_graph_intent env c db)))"
    by (auto simp: pause_graph_intent_def Let_def intents_ok_def split: option.splits)
  moreover have "table_ok (intents (pause_graph_intent env c db))"
    using inv by (simp add: pause_graph_intent_def Let_def store_inv_def tables_ok_def split: option.splits)
  ultimately show ?thesis
    using inv by (auto simp: store_inv_def tables_ok_def intro: inv_maps_intents)
qed

lemma reconcile_publication_inv:
  assumes inv: "store_inv m db" and c: "claim_ok db c"
    and run: "reconcile_publication env c mx ri re u db = Inr (r, db')"
  shows "store_inv m db'"
proof (cases "lock_evidence c db")
  case None
  with run inv show ?thesis by (auto simp: reconcile_publication_def result_simps)
next
  case (Some e)
  obtain j a mk where e: "e = (j, a, mk)" by (cases e)
  note ev = lock_evidence_Some [OF Some [unfolded e] store_inv_job_id [OF inv]]
  have succ: "committed_marker (map_of (markers db)) (c_job_id c) j"
    if "marker_classification j a mk = MatchingCommitted"
    using that ev(6) ev(3) store_inv_attempt [OF inv ev(5)]
    by (auto simp: marker_classification_def committed_marker_def split: option.splits if_splits)
  have pc: "claim_ok (pause_graph_intent env c db) c" using c by (simp add: claim_ok_def)
  note T = close_terminal_inv [OF inv c ev(1-3)]
  note P = close_terminal_inv [OF pause_graph_intent_inv [OF inv] pc, of j, simplified, OF ev(1-3)]
  note Q = queue_retry_inv [OF inv c ev(1-3)]
  from run Some e have "reconcile_evidence env c mx u j a mk db = Inr (r, db')"
    by (simp add: reconcile_publication_def result_simps)
  then show ?thesis
  proof (cases rule: reconcile_evidence_cases)
    case kept
    then show ?thesis using inv by simp
  next
    case (succeeded d)
    then show ?thesis using T [of Succeeded] succ by auto
  next
    case (quarantined e)
    then show ?thesis using P [of Quarantined] by auto
  next
    case cancelled
    then show ?thesis using T [of Cancelled] by auto
  next
    case failed
    then show ?thesis using T [of Failed] by auto
  next
    case (queued p)
    then show ?thesis using Q by auto
  qed
qed

lemma update_attempt_job [simp]:
  "update_attempt k p f db = Inr (b, db') \<Longrightarrow> jobs db' = jobs db"
  by (erule update_attempt_cases) simp_all

lemma recover_row_inv:
  assumes inv: "store_inv m db" and row: "map_of (jobs db) (j_job_id row) = Some j" "active (j_state j)"
    and run: "recover_row env row db = Inr db'"
  shows "store_inv m db'"
proof -
  from run obtain db1 where u: "update_job (j_job_id row) (\<lambda>j. j_current_attempt j = j_current_attempt row)
       (\<lambda>j. j\<lparr>j_state := ReconciliationRequired, j_publication_state := CommitUnknown,
             j_error_category := Some ''publication_unknown'', j_updated_at := tx_now env\<rparr>) db = Inr (True, db1)"
    and v: "update_attempt (j_job_id row, j_current_attempt row) a_is_current
       (\<lambda>a. a\<lparr>a_finished_at := coalesce (a_finished_at a) (Some (tx_now env)),
             a_registration_digest := None, a_registration_consumed := True,
             a_publication_state := CommitUnknown,
             a_result_category := Some ''publication_unknown''\<rparr>) db1 = Inr (True, db')"
    by (auto simp: recover_row_def result_simps)
  have "store_inv m db1"
    using inv u by (rule update_job_inv) (use row in \<open>auto simp: same_job_def job_key_def\<close>)
  then show ?thesis using v by (rule update_attempt_inv) (simp add: same_attempt_def)
qed

text \<open>
  Recovery updates its rows one after the other; every row it still has to update stays active,
  since an update leaves the other rows alone and leaves its own row active.
\<close>

definition recovering :: "job_row list \<Rightarrow> control_db \<Rightarrow> bool" where
  "recovering rows db = (\<forall>r \<in> set rows. \<exists>j. map_of (jobs db) (j_job_id r) = Some j \<and> active (j_state j))"

lemma recover_row_recovering:
  assumes inv: "store_inv m db" and "recovering rows db" and run: "recover_row env row db = Inr db'"
  shows "recovering rows db'"
proof -
  from run obtain db1 where u: "update_job (j_job_id row) (\<lambda>j. j_current_attempt j = j_current_attempt row)
       (\<lambda>j. j\<lparr>j_state := ReconciliationRequired, j_publication_state := CommitUnknown,
             j_error_category := Some ''publication_unknown'', j_updated_at := tx_now env\<rparr>) db = Inr (True, db1)"
    and "jobs db' = jobs db1"
    by (auto simp: recover_row_def result_simps)
  from u show ?thesis
    by (rule update_job_cases)
       (use assms(2) store_inv_job_id [OF inv] \<open>jobs db' = jobs db1\<close> in \<open>auto simp: recovering_def\<close>)
qed

lemma ABANDONED_active: "s \<in> set ABANDONED_STATES \<Longrightarrow> active s"
  by (auto simp: ABANDONED_STATES_def)

lemma abandoned_recovering:
  assumes inv: "store_inv m db"
  shows "recovering (take n (select_by submission_order (abandoned iid ep db) (jobs db))) db"
    (is "recovering ?rows db")
proof -
  have tab: "table_ok (jobs db)" using inv by (simp add: store_inv_def tables_ok_def)
  show ?thesis
    unfolding recovering_def
  proof
    fix r assume "r \<in> set ?rows"
    then have "r \<in> set (select_by submission_order (abandoned iid ep db) (jobs db))"
      by (rule in_set_takeD)
    then obtain k where "(k, r) \<in> set (jobs db)" "abandoned iid ep db r" by auto
    moreover from this have "map_of (jobs db) k = Some r" using table_row_iff [OF tab] by blast
    ultimately show "\<exists>j. map_of (jobs db) (j_job_id r) = Some j \<and> active (j_state j)"
      using store_inv_job_id [OF inv] ABANDONED_active by (auto simp: abandoned_def)
  qed
qed

lemma recover_abandoned_attempts_inv:
  assumes inv: "store_inv m db" and run: "recover_abandoned_attempts env iid ep limit db = Inr (n, db')"
  shows "store_inv m db'"
proof -
  define rows where "rows = take (nat limit) (select_by submission_order (abandoned iid ep db) (jobs db))"
  have f: "foldE (recover_row env) rows db = Inr db'"
    using run by (auto simp: recover_abandoned_attempts_def rows_def Let_def result_simps)
  have "store_inv m db \<and> recovering rows db"
    using inv abandoned_recovering [OF inv] by (simp add: rows_def)
  with f have "store_inv m db' \<and> recovering rows db'"
  proof (rule foldE_invariant [where I = "\<lambda>db. store_inv m db \<and> recovering rows db"])
    fix r s s' assume r: "r \<in> set rows" "store_inv m s \<and> recovering rows s"
      and run: "recover_row env r s = Inr s'"
    then obtain j where "map_of (jobs s) (j_job_id r) = Some j" "active (j_state j)"
      by (auto simp: recovering_def)
    with r run show "store_inv m s' \<and> recovering rows s'"
      using recover_row_inv recover_row_recovering by blast
  qed
  then show ?thesis by simp
qed

lemma persist_supervisor_registration_inv:
  assumes inv: "store_inv m db" and run: "persist_supervisor_registration env locks c dg db = Inr db'"
  shows "store_inv m db'"
proof -
  from run obtain b where "update_attempt (claim_key c) (owned_by c)
      (\<lambda>a. a\<lparr>a_registration_digest := Some dg\<rparr>) db = Inr (b, db')"
    by (auto simp: persist_supervisor_registration_def result_simps split: option.splits)
  with inv show ?thesis by (rule update_attempt_inv) (simp add: same_attempt_def)
qed

lemma in_process_currency_context_inv:
  assumes inv: "store_inv m db" and run: "in_process_currency_context env locks c dg decide db = Inr (out, db')"
  shows "store_inv m db'"
proof -
  from run obtain b where "update_attempt (claim_key c) (owned_by c)
      (\<lambda>a. a\<lparr>a_registration_consumed := True\<rparr>) db = Inr (b, db')"
    by (auto simp: in_process_currency_context_def result_simps split: option.splits)
  with inv show ?thesis by (rule update_attempt_inv) (simp add: same_attempt_def)
qed

lemma persist_not_started_inv:
  assumes inv: "store_inv m db" and run: "persist_not_started env c db = Inr db'"
  shows "store_inv m db'"
proof -
  from run obtain db1 where u: "update_job (c_job_id c)
       (\<lambda>j. j_current_attempt j = c_attempt c \<and> j_state j = ReconciliationRequired)
       (\<lambda>j. j\<lparr>j_publication_state := NotStarted, j_updated_at := tx_now env\<rparr>) db = Inr (True, db1)"
    and v: "update_attempt (claim_key c) a_is_current
       (\<lambda>a. a\<lparr>a_publication_state := NotStarted, a_registration_digest := None\<rparr>) db1 = Inr (True, db')"
    by (auto simp: persist_not_started_def result_simps)
  have "store_inv m db1"
    using inv u by (rule update_job_inv) (auto simp: same_job_def job_key_def)
  then show ?thesis using v by (rule update_attempt_inv) (simp add: same_attempt_def)
qed

lemma execute_durable_closure_cases:
  assumes "execute_durable_closure env clk locks c ri re fence closer db = Inr (b, db')"
  obtains (refused) "\<not> b" and "db' = db"
    | (closed) install close where "b" and "fence = Some install" and "closer = Some close"
      and "closure_context env clk locks c ri re fence db = Inr ()"
      and "close c (require_currency (env\<lparr>tx_clock := clk 2\<rparr>) c ri re True False None db) = Inr True"
      and "persist_not_started env c db = Inr db'"
proof (cases fence)
  case None
  with assms refused show thesis by (auto simp: execute_durable_closure_def)
next
  case (Some install)
  show thesis
  proof (cases closer)
    case None
    with assms refused Some show thesis by (auto simp: execute_durable_closure_def)
  next
    case (Some close)
    let ?body = "bindE (closure_context env clk locks c ri re fence db) (\<lambda>_.
             translate_contention (
             bindE (close c (require_currency (env\<lparr>tx_clock := clk 2\<rparr>) c ri re True False None db)) (\<lambda>closed.
             if \<not> closed then Inr (False, db)
             else bindE (persist_not_started env c db) (\<lambda>db'. Inr (True, db')))))"
    have "?body = Inr (b, db') \<or> (\<not> b \<and> db' = db)"
      using assms \<open>fence = Some install\<close> Some
      by (auto simp: execute_durable_closure_def Let_def split: sum.splits py_error.splits if_splits)
    then show thesis
    proof
      assume "?body = Inr (b, db')"
      with refused closed [OF _ \<open>fence = Some install\<close> Some] show thesis
        by (auto simp: result_simps split: if_splits)
    qed (use refused in blast)
  qed
qed

lemma execute_durable_closure_inv:
  assumes "store_inv m db" and "execute_durable_closure env clk locks c ri re fence closer db = Inr (b, db')"
  shows "store_inv m db'"
  using assms(2) by (rule execute_durable_closure_cases) (use assms(1) persist_not_started_inv in auto)

lemma quarantine_rows_inv:
  assumes inv: "store_inv m db" and c: "claim_ok db c" and run: "quarantine_rows env c db = Inr db'"
  shows "store_inv m db'"
proof -
  let ?f = "\<lambda>j. j\<lparr>j_state := Quarantined, j_publication_state := CommitUnknown,
             j_error_category := Some ''legacy_zero_epoch'',
             j_finished_at := Some (tx_now env), j_updated_at := tx_now env\<rparr>"
  let ?g = "closed_attempt env CommitUnknown (Some ''legacy_zero_epoch'') None"
  from run obtain ok1 ok2 db1 db2 where u: "update_job (c_job_id c)
       (\<lambda>j. j_current_attempt j = c_attempt c \<and> j_state j = ReconciliationRequired)
       ?f db = Inr (ok1, db1)" and "ok1"
    and v: "update_attempt (claim_key c) (owned_by c)
              ?g db1 = Inr (ok2, db2)" and "ok2"
    and rest: "(let (ok, db3) = delete_lease (c_graph_id c)
           (\<lambda>l. lease_of_claim c l \<and> gl_graph_lease_epoch l = 0) db2
       in guardE ok (StaleDurableAuthorityError ''legacy lease deletion failed'')
          (Inr (clear_running (c_graph_id c) (c_job_id c) db3))) = Inr db'"
    unfolding quarantine_rows_def bindE_Inr_iff guardE_Inr_iff split_paired_Ex prod.case by blast
  obtain b3 db3 where w: "delete_lease (c_graph_id c)
      (\<lambda>l. lease_of_claim c l \<and> gl_graph_lease_epoch l = 0) db2 = (b3, db3)" by fastforce
  with rest have b3: "b3" and out: "db' = clear_running (c_graph_id c) (c_job_id c) db3"
    by (simp_all add: result_simps)
  from u obtain j where j: "map_of (jobs db) (c_job_id c) = Some j" "j_current_attempt j = c_attempt c"
    and jc: "job_checks (?f j)" and db1: "db1 = db\<lparr>jobs := AList.update (j_job_id j) (?f j) (jobs db)\<rparr>"
    by (rule update_job_cases) (use \<open>ok1\<close> in auto)
  have jid: "j_job_id j = c_job_id c" using store_inv_job_id [OF inv j(1)] .
  from v obtain a where a: "map_of (attempts db) (claim_key c) = Some a" "owned_by c a"
    and ac: "attempt_checks (?g a)"
    and db2: "db2 = db1\<lparr>attempts := AList.update (claim_key c) (?g a) (attempts db1)\<rparr>"
    by (rule update_attempt_cases) (use \<open>ok2\<close> in \<open>auto simp: db1\<close>)
  have db3: "db3 = db2\<lparr>leases := AList.delete (c_graph_id c) (leases db2)\<rparr>"
    using w by (rule delete_lease_cases) (use b3 in auto)
  have "store_inv m (db\<lparr>jobs := AList.update (c_job_id c) (?f j) (jobs db),
     attempts := AList.update (claim_key c) (?g a) (attempts db),
     leases := AList.delete (c_graph_id c) (leases db)\<rparr>)"
    using jc ac by (intro close_and_drop_inv [OF inv c j a]) (simp_all add: same_job_def job_key_def)
  then have "store_inv m db3" unfolding db3 db2 db1 jid by simp
  then show ?thesis unfolding out by (rule clear_running_inv)
qed

lemma quarantine_legacy_attempt_cases:
  assumes "quarantine_legacy_attempt env clk locks c ri re fence db = Inr (b, db')"
  obtains (refused) "\<not> b" and "db' = db"
    | (quarantined) install where "b" and "fence = Some install" and "c_graph_lease_epoch c = 0"
      and "install c ri re 0 (Some (tx_xid env)) = Inr True" and "0 < tx_xid env"
      and "require_currency (env\<lparr>tx_clock := clk 1\<rparr>) c ri re True True None db = Inr ()"
      and "quarantine_rows env c db = Inr db'"
proof (cases fence)
  case None
  with assms refused show thesis by (auto simp: quarantine_legacy_attempt_def)
next
  case (Some install)
  show thesis
  proof (cases "c_graph_lease_epoch c = 0")
    case True
    with assms Some refused quarantined [OF _ Some True] show thesis
      by (auto simp: quarantine_legacy_attempt_def Let_def result_simps
          split: sum.splits py_error.splits if_splits)
  qed (use assms Some refused in \<open>auto simp: quarantine_legacy_attempt_def\<close>)
qed

lemma quarantine_legacy_attempt_inv:
  assumes "store_inv m db" and "claim_ok db c"
    and "quarantine_legacy_attempt env clk locks c ri re fence db = Inr (b, db')"
  shows "store_inv m db'"
  using assms(3) by (rule quarantine_legacy_attempt_cases) (use assms(1,2) quarantine_rows_inv in auto)

lemma record_publication_marker_inv:
  assumes "store_inv m db" and "record_publication_marker env c run gens out db = Inr (b, db')"
  shows "store_inv m db'"
  using assms(2)
  by (rule record_publication_marker_cases)
     (use assms(1) in \<open>auto simp: store_inv_def tables_ok_def intro!: inv_maps_marker\<close>)

lemma lookup_delete_members:
  "map_of (delete_where (\<lambda>k. f k \<in> set ids) t) = (\<lambda>k. if f k \<in> set ids then None else map_of t k)"
  by (rule ext) (simp add: lookup_delete_where)

lemma delete_jobs_inv:
  assumes inv: "store_inv m db" and run: "delete_jobs ids db = Inr db'"
  shows "store_inv m db'"
  using run
proof (rule delete_jobs_Inr)
  assume nl: "\<not> attempt_leased db ids" and nr: "\<not> job_referenced db ids"
    and out: "db' = db\<lparr>markers := delete_where (\<lambda>k. List.member ids (fst k)) (markers db),
                   attempts := delete_where (\<lambda>k. List.member ids (fst k)) (attempts db),
                   jobs := delete_where (List.member ids) (jobs db)\<rparr>"
  have "gl_job_id l \<notin> set ids" if "map_of (leases db) g = Some l" for g l
    using nl map_of_SomeD [OF that] by (auto simp: attempt_leased_def list_ex_iff)
  moreover have "q \<notin> set ids" if "map_of (intents db) g = Some i"
    "cs_queued_job_id i = Some q \<or> cs_running_job_id i = Some q" for g i q
    using nr map_of_SomeD [OF that(1)] that(2) by (fastforce simp: job_referenced_def list_ex_iff)
  moreover have jd: "map_of (delete_where (List.member ids) (jobs db)) =
      (\<lambda>k. if k \<in> set ids then None else map_of (jobs db) k)"
    by (rule ext) (simp add: lookup_delete_where)
  ultimately have "inv_maps m (map_of (jobs db')) (map_of (attempts db')) (map_of (leases db'))
      (map_of (markers db')) (map_of (intents db')) (singleton db')"
    using jd by (simp add: out lookup_delete_members inv_maps_delete [OF store_inv_maps [OF inv]])
  then show ?thesis
    using inv by (simp add: store_inv_def tables_ok_def out)
qed (use inv in simp)

lemma cleanup_terminal_inv:
  assumes "store_inv m db" and "cleanup_terminal env age limit dry retirer db = Inr (rep, db')"
  shows "store_inv m db'"
  using cleanup_terminal_Inr(2,3) [OF assms(2)] delete_jobs_inv [OF assms(1)] assms(1)
  by (cases dry) auto

lemma record_current_inv:
  assumes "store_inv m db" and "record_current env g gens delay db = Inr (b, db')"
  shows "store_inv m db'"
proof -
  have "db' = snd (update_intent g (\<lambda>_. True)
         (\<lambda>i. i\<lparr>cs_generations := gens, cs_dirty := False, cs_reason_categories := [''current''],
               cs_next_reconcile_at := Some (tx_now env + delay), cs_last_hint_at := tx_now env\<rparr>) db)"
    using assms(2) by (auto simp: record_current_def safe_graph_id_def result_simps)
  then show ?thesis using assms(1) by (auto intro!: update_intent_inv)
qed

lemma record_condition_inv:
  assumes "store_inv m db" and "record_condition env g cat delay db = Inr (b, db')"
  shows "store_inv m db'"
proof -
  have "db' = snd (update_intent g (\<lambda>_. True)
         (\<lambda>i. i\<lparr>cs_reason_categories := [cat],
               cs_next_reconcile_at := Some (tx_now env + delay), cs_last_hint_at := tx_now env\<rparr>) db)"
    using assms(2) by (auto simp: record_condition_def safe_graph_id_def safe_category_def result_simps)
  then show ?thesis using assms(1) by (auto intro!: update_intent_inv)
qed

end
