(* ===== verification/Control_Evolution.thy ===== *)
theory Control_Evolution
  imports Control_Steps
begin

text \<open>
  How the rows change over time. A transaction that deletes nothing moves every job along legal
  transitions, never gives an attempt its currency or its launch registration back, keeps publication markers as they are, and
  only moves the singleton's epoch forward; a deletion removes whole finished jobs.
\<close>

definition job_evolves :: "job_row \<Rightarrow> job_row \<Rightarrow> bool" where
  "job_evolves j j' = (same_job j j' \<and> j_current_attempt j \<le> j_current_attempt j'
     \<and> legal\<^sup>*\<^sup>* (j_state j) (j_state j'))"

definition attempt_evolves :: "attempt_row \<Rightarrow> attempt_row \<Rightarrow> bool" where
  "attempt_evolves a a' = (same_attempt a a' \<and> (a_is_current a' \<longrightarrow> a_is_current a)
     \<and> (a_registration_consumed a \<longrightarrow> a_registration_consumed a'))"

definition singleton_evolves :: "instance_row option \<Rightarrow> instance_row option \<Rightarrow> bool" where
  "singleton_evolves s s' = (\<forall>c. s = Some c \<longrightarrow> (\<exists>c'. s' = Some c' \<and>
     (ci_fencing_epoch c < ci_fencing_epoch c'
      \<or> (ci_fencing_epoch c' = ci_fencing_epoch c \<and> ci_instance_id c' = ci_instance_id c))))"

definition evolves :: "string set \<Rightarrow> control_db \<Rightarrow> control_db \<Rightarrow> bool" where
  \<comment> \<open>\<open>N\<close> bounds the identifiers of the jobs that may appear\<close>
  "evolves N db db' =
     ((\<forall>k. map_of (jobs db') k \<noteq> None \<longrightarrow> map_of (jobs db) k \<noteq> None \<or> k \<in> N) \<and>
      (\<forall>k j. map_of (jobs db) k = Some j \<longrightarrow> (\<exists>j'. map_of (jobs db') k = Some j' \<and> job_evolves j j'))
      \<and> (\<forall>k a. map_of (attempts db) k = Some a \<longrightarrow>
            (\<exists>a'. map_of (attempts db') k = Some a' \<and> attempt_evolves a a'))
      \<and> (\<forall>k n a' j. map_of (attempts db) (k, n) = None \<longrightarrow> map_of (attempts db') (k, n) = Some a' \<longrightarrow>
            map_of (jobs db) k = Some j \<longrightarrow> j_current_attempt j < n)
      \<and> (\<forall>k mk. map_of (markers db) k = Some mk \<longrightarrow> map_of (markers db') k = Some mk)
      \<and> singleton_evolves (singleton db) (singleton db'))"

lemma same_refl [simp]: "same_job j j" "same_attempt a a"
  by (simp_all add: same_job_def same_attempt_def)

lemma job_evolves_refl [simp]: "job_evolves j j"
  and attempt_evolves_refl [simp]: "attempt_evolves a a"
  and singleton_evolves_refl [simp]: "singleton_evolves s s"
  by (simp_all add: job_evolves_def attempt_evolves_def singleton_evolves_def)

lemma job_evolves_trans: "job_evolves a b \<Longrightarrow> job_evolves b c \<Longrightarrow> job_evolves a c"
  by (auto simp: job_evolves_def same_job_def)

lemma attempt_evolves_trans: "attempt_evolves a b \<Longrightarrow> attempt_evolves b c \<Longrightarrow> attempt_evolves a c"
  by (simp add: attempt_evolves_def same_attempt_def)

lemma singleton_evolves_trans:
  "singleton_evolves a b \<Longrightarrow> singleton_evolves b c \<Longrightarrow> singleton_evolves a c"
  by (fastforce simp: singleton_evolves_def)

lemma evolves_refl [simp]: "evolves N db db"
  by (auto simp: evolves_def)

lemma evolvesD:
  assumes "evolves N a b"
  shows "map_of (jobs a) k = Some j \<Longrightarrow> \<exists>j'. map_of (jobs b) k = Some j' \<and> job_evolves j j'"
    and "map_of (attempts a) ka = Some r \<Longrightarrow> \<exists>r'. map_of (attempts b) ka = Some r' \<and> attempt_evolves r r'"
    and "map_of (attempts a) (k, n) = None \<Longrightarrow> map_of (attempts b) (k, n) = Some r' \<Longrightarrow>
      map_of (jobs a) k = Some j \<Longrightarrow> j_current_attempt j < n"
    and "map_of (markers a) ka = Some mk \<Longrightarrow> map_of (markers b) ka = Some mk"
    and "singleton_evolves (singleton a) (singleton b)"
    and "map_of (jobs b) k \<noteq> None \<Longrightarrow> map_of (jobs a) k \<noteq> None \<or> k \<in> N"
  using assms unfolding evolves_def by blast+

lemma evolves_trans [trans]:
  assumes "evolves N a b" and "evolves N b c"
  shows "evolves N a c"
proof -
  have "\<exists>j'. map_of (jobs c) k = Some j' \<and> job_evolves j j'" if "map_of (jobs a) k = Some j" for k j
    using evolvesD(1) [OF assms(1) that] evolvesD(1) [OF assms(2)] job_evolves_trans by blast
  moreover have "\<exists>r'. map_of (attempts c) k = Some r' \<and> attempt_evolves r r'"
    if "map_of (attempts a) k = Some r" for k r
    using evolvesD(2) [OF assms(1) that] evolvesD(2) [OF assms(2)] attempt_evolves_trans by blast
  moreover have "j_current_attempt j < n"
    if 1: "map_of (attempts a) (k, n) = None" and 2: "map_of (attempts c) (k, n) = Some r"
      and 3: "map_of (jobs a) k = Some j" for k n r j
  proof (cases "map_of (attempts b) (k, n)")
    case None
    obtain j' where j': "map_of (jobs b) k = Some j'" "job_evolves j j'"
      using evolvesD(1) [OF assms(1) 3] by blast
    then have "j_current_attempt j' < n" using evolvesD(3) [OF assms(2) None 2] by blast
    with j' show ?thesis by (simp add: job_evolves_def)
  next
    case (Some r')
    then show ?thesis using evolvesD(3) [OF assms(1) 1 _ 3] by blast
  qed
  moreover have "map_of (markers c) k = Some mk" if "map_of (markers a) k = Some mk" for k mk
    using evolvesD(4) [OF assms(2) evolvesD(4) [OF assms(1) that]] .
  moreover have "singleton_evolves (singleton a) (singleton c)"
    using singleton_evolves_trans [OF evolvesD(5) [OF assms(1)] evolvesD(5) [OF assms(2)]] .
  moreover have "map_of (jobs a) k \<noteq> None \<or> k \<in> N" if "map_of (jobs c) k \<noteq> None" for k
    using evolvesD(6) [OF assms(2) that] evolvesD(6) [OF assms(1)] by blast
  ultimately show ?thesis by (simp add: evolves_def)
qed

section \<open>Statements\<close>

lemma update_job_evolves:
  assumes "store_inv m db" and "update_job k p f db = Inr (b, db')"
    and "\<And>j. p j \<Longrightarrow> map_of (jobs db) k = Some j \<Longrightarrow> job_evolves j (f j)"
  shows "evolves N db db'"
  using assms(2)
  by (rule update_job_cases)
     (use assms(3) store_inv_job_id [OF assms(1)] in
       \<open>auto simp: evolves_def job_evolves_def same_job_def\<close>)

lemma update_attempt_evolves:
  assumes "update_attempt k p f db = Inr (b, db')" and "\<And>a. p a \<Longrightarrow> attempt_evolves a (f a)"
  shows "evolves N db db'"
  using assms(1) by (rule update_attempt_cases) (use assms(2) in \<open>auto simp: evolves_def split: if_splits\<close>)

lemma evolves_frame:
  "jobs db' = jobs db \<Longrightarrow> attempts db' = attempts db \<Longrightarrow> markers db' = markers db
   \<Longrightarrow> singleton db' = singleton db \<Longrightarrow> evolves N db db'"
  by (simp add: evolves_def)

lemma update_intent_frame [simp]:
  "jobs (snd (update_intent g p f db)) = jobs db" "attempts (snd (update_intent g p f db)) = attempts db"
  "leases (snd (update_intent g p f db)) = leases db" "markers (snd (update_intent g p f db)) = markers db"
  "singleton (snd (update_intent g p f db)) = singleton db"
  by (simp_all add: update_intent_def split: option.splits)

lemma clear_running_frame [simp]:
  "jobs (clear_running g k db) = jobs db" "attempts (clear_running g k db) = attempts db"
  "leases (clear_running g k db) = leases db" "markers (clear_running g k db) = markers db"
  "singleton (clear_running g k db) = singleton db"
  by (simp_all add: clear_running_def)

lemma delete_lease_frame [simp]:
  "jobs (snd (delete_lease g p db)) = jobs db" "attempts (snd (delete_lease g p db)) = attempts db"
  "markers (snd (delete_lease g p db)) = markers db" "singleton (snd (delete_lease g p db)) = singleton db"
  by (simp_all add: delete_lease_def split: option.splits)

lemma insert_job_evolves:
  assumes "insert_job j db = Inr db'" and "j_job_id j \<in> N"
  shows "evolves N db db'"
  using insert_job_Inr [OF assms(1)] assms(2) by (auto simp: evolves_def)

lemma singleton_update_evolves:
  "singleton_evolves (singleton db) s \<Longrightarrow> evolves N db (db\<lparr>singleton := s\<rparr>)"
  by (simp add: evolves_def)

section \<open>Transactions\<close>

lemma acquire_singleton_evolves:
  "acquire_singleton env iid ttl db = Inr (e, db') \<Longrightarrow> evolves N db db'"
  by (cases "singleton db")
     (auto simp: acquire_singleton_def result_simps singleton_evolves_def split: if_splits
       intro!: singleton_update_evolves)

lemma heartbeat_singleton_evolves:
  "heartbeat_singleton env iid ep ttl db = Inr (b, db') \<Longrightarrow> evolves N db db'"
  by (cases "singleton db")
     (auto simp: heartbeat_singleton_def result_simps singleton_evolves_def split: if_splits
       intro!: singleton_update_evolves)

lemma stop_singleton_evolves:
  "stop_singleton env iid ep db = Inr (b, db') \<Longrightarrow> evolves N db db'"
  by (cases "singleton db")
     (auto simp: stop_singleton_def result_simps singleton_evolves_def split: if_splits
       intro!: singleton_update_evolves)

lemma release_graph_lease_evolves:
  "release_graph_lease env g k n oi oe ri re db = Inr (b, db') \<Longrightarrow> evolves N db db'"
  by (rule evolves_frame)
     (auto simp: release_graph_lease_def delete_lease_def split: if_splits option.splits)

lemma legal_steps [simp]:
  "legal\<^sup>*\<^sup>* Queued Claimed" "legal\<^sup>*\<^sup>* Queued Superseded" "legal\<^sup>*\<^sup>* Queued Cancelled"
  "legal\<^sup>*\<^sup>* ReconciliationRequired Quarantined" "legal\<^sup>*\<^sup>* ReconciliationRequired Queued"
  by (auto intro!: r_into_rtranclp simp: legal_def)

lemma claim_once_evolves:
  assumes inv: "store_inv m db" and "claim_once env iid ep secs mx auto db = Inr (r, db')"
  shows "evolves N db db'"
proof (cases r)
  case None
  with assms(2) show ?thesis by (auto simp: claim_once_def result_simps Let_def split: option.splits)
next
  case (Some c)
  obtain j db2 where nc: "next_claimable env mx auto db = Some j"
    and free: "map_of (attempts db) (j_job_id j, j_current_attempt j + 1) = None"
    and uj: "update_job (j_job_id j) (\<lambda>r. j_state r = Queued)
           (\<lambda>r. r\<lparr>j_state := Claimed, j_current_attempt := j_current_attempt j + 1,
                 j_updated_at := tx_now env\<rparr>)
           (db\<lparr>attempts := AList.update (j_job_id j, j_current_attempt j + 1)
                 (new_attempt env iid ep j) (attempts db),
               leases := AList.update (j_graph_id j) (new_lease env iid ep secs j) (leases db)\<rparr>)
           = Inr db2"
    and out: "db' = (if j_priority_class j = Automatic
                then snd (update_intent (j_graph_id j)
                       (\<lambda>i. cs_queued_job_id i = Some (j_job_id j))
                       (\<lambda>i. i\<lparr>cs_queued_job_id := None,
                             cs_running_job_id := Some (j_job_id j), cs_dirty := False\<rparr>) (snd db2))
                else snd db2)"
    by (rule claim_once_Some [OF assms(2) [unfolded Some]]) blast
  have tab: "table_ok (jobs db)" using inv by (simp add: store_inv_def tables_ok_def)
  obtain k where k: "map_of (jobs db) k = Some j" using next_claimable_Some(1) [OF nc tab] by blast
  then have jk: "j_job_id j = k" using store_inv_job_id inv by blast
  have q: "j_state j = Queued" using next_claimable_Some(2) [OF nc tab] by (simp add: claimable_def)
  have "evolves N db (snd db2)"
    using uj k q free jk
    by (auto simp: update_job_def write_job_def result_simps evolves_def job_evolves_def same_job_def
        job_key_def split: if_splits)
  also have "evolves N (snd db2) db'" unfolding out by (auto intro: evolves_frame)
  finally show ?thesis .
qed

lemma submit_transaction_evolves:
  "submit_transaction env sha256 new_id request requester limits db = Inr (r, db') \<Longrightarrow> new_id \<in> N
   \<Longrightarrow> evolves N db db'"
  by (auto simp: submit_transaction_def Let_def result_simps new_job_def split: option.splits
      intro: insert_job_evolves)

lemma coalesce_transaction_evolves:
  assumes inv: "store_inv m db" and "0 \<le> m" and "new_id \<in> N"
    and run: "coalesce_transaction env sha256 new_id request requester limits db = Inr (r, db')"
  shows "evolves N db db'"
proof (cases "coalesced_job (request_generations request) (map_of (intents db) (graph_id request)) db")
  case None
  with run obtain db1 db2 db3 replaced fp dg where
    1: "supersede env replaced db = Inr db1" and
    2: "insert_job (new_job env new_id request requester dg fp 50) db1 = Inr db2" and
    3: "link_replacement replaced new_id db2 = Inr db3" and
    4: "db' = upsert_intent env request new_id (request_generations request) db3"
    by (auto simp: coalesce_transaction_def Let_def result_simps split: if_splits)
  have i2: "store_inv m db2"
    using supersede_inv [OF inv 1] 2 assms(2) by (elim insert_job_inv) (auto simp: new_job_def)
  have "evolves N db db1"
    using 1 by (auto simp: supersede_def result_simps job_evolves_def same_job_def job_key_def
        split: option.splits elim!: update_job_evolves [OF inv])
  also have "evolves N db1 db2" using 2 by (rule insert_job_evolves) (simp add: new_job_def assms(3))
  also have "evolves N db2 db3"
    using 3 by (auto simp: link_replacement_def result_simps job_evolves_def same_job_def job_key_def
        split: option.splits elim!: update_job_evolves [OF i2])
  also have "evolves N db3 db'" unfolding 4 by (rule evolves_frame) (simp_all add: upsert_intent_def Let_def)
  finally show ?thesis .
qed (use run in \<open>auto simp: coalesce_transaction_def Let_def split: if_splits\<close>)

lemma registration_frame [simp]:
  "a_registration_consumed (cas_attempt env t p e d a) = a_registration_consumed a"
  "a_registration_consumed (closed_attempt env q e d a) = a_registration_consumed a"
  by (simp_all add: cas_attempt_def closed_attempt_def Let_def)

lemma compare_and_set_state_evolves:
  assumes inv: "store_inv m db"
    and run: "compare_and_set_state env k s t n iid ep p e d db = Inr (b, db')"
  shows "evolves N db db'"
proof -
  have cas: "evolves N db db1" if "legal s t"
    "update_job k (cas_allowed env s t n iid ep db) (cas_job env t p e) db = Inr (u, db1)" for u db1
    using inv that(2)
    by (rule update_job_evolves)
       (use that(1) in \<open>auto simp: job_evolves_def cas_allowed_def intro: r_into_rtranclp\<close>)
  have att: "evolves N db1 db2" if "update_attempt (k, n)
      (\<lambda>a. a_is_current a \<and> a_instance_id a = iid \<and> a_fencing_epoch a = ep)
      (cas_attempt env t p e d) db1 = Inr (u, db2)" for u db1 db2
    using that by (rule update_attempt_evolves) (simp add: attempt_evolves_def)
  from run obtain u db1 where "legal s t"
    "update_job k (cas_allowed env s t n iid ep db) (cas_job env t p e) db = Inr (u, db1)"
    "db' = db1 \<or> (\<exists>v. update_attempt (k, n)
      (\<lambda>a. a_is_current a \<and> a_instance_id a = iid \<and> a_fencing_epoch a = ep)
      (cas_attempt env t p e d) db1 = Inr (v, db'))"
    by (auto simp: compare_and_set_state_def result_simps split: if_splits)
  then show ?thesis using cas att evolves_trans by blast
qed

lemma renew_lease_frame [simp]:
  "jobs (snd (renew_lease env c secs db)) = jobs db" "attempts (snd (renew_lease env c secs db)) = attempts db"
  "markers (snd (renew_lease env c secs db)) = markers db"
  "singleton (snd (renew_lease env c secs db)) = singleton db"
  by (simp_all add: renew_lease_def split: option.splits)

lemma heartbeat_attempt_evolves:
  assumes inv: "store_inv m db" and run: "heartbeat_attempt env limits c ttl ph cnt tot db = Inr (b, db')"
  shows "evolves N db db'"
proof -
  obtain secs where s: "positive_seconds ttl = Inr secs"
    using run by (auto simp: heartbeat_attempt_def result_simps)
  obtain b1 db1 where r: "renew_lease env c secs db = (b1, db1)" by fastforce
  have e1: "evolves N db db1" using renew_lease_frame [of env c secs db] r by (intro evolves_frame) simp_all
  have i1: "store_inv m db1" using renew_lease_inv [OF inv, of env c secs] r by simp
  show ?thesis
  proof (cases b1)
    case True
    with run s r obtain b2 db2 where u: "update_attempt (claim_key c) (owned_by c)
        (\<lambda>a. a\<lparr>a_heartbeat_at := tx_now env\<rparr>) db1 = Inr (b2, db2)"
      by (auto simp: heartbeat_attempt_def result_simps)
    have i2: "store_inv m db2" using i1 u by (rule update_attempt_inv) (simp add: same_attempt_def)
    have e2: "evolves N db1 db2"
      using u by (rule update_attempt_evolves) (simp add: attempt_evolves_def same_attempt_def)
    have "evolves N db2 db'"
    proof (cases ph)
      case None
      with run s r u True show ?thesis by (simp add: heartbeat_attempt_def result_simps)
    next
      case (Some x)
      with run s r u True obtain v q b3 where "update_job (c_job_id c)
          (progress_due env limits (c_attempt c) x v q) (\<lambda>j. j\<lparr>j_phase := x, j_progress_completed := v,
             j_progress_total := q, j_updated_at := tx_now env\<rparr>) db2 = Inr (b3, db')"
        by (auto simp: heartbeat_attempt_def result_simps)
      with i2 show ?thesis
        by (rule update_job_evolves) (simp add: job_evolves_def same_job_def job_key_def)
    qed
    with e1 e2 show ?thesis using evolves_trans by blast
  qed (use run s r e1 in \<open>auto simp: heartbeat_attempt_def result_simps\<close>)
qed

lemma request_cancellation_evolves:
  assumes inv: "store_inv m db" and run: "request_cancellation env k db = Inr (r, db')"
  shows "evolves N db db'"
proof -
  from run obtain u where "update_job k (\<lambda>j. List.member [Queued, Claimed, Starting, Running] (j_state j))
      (cancelled_row env) db = Inr (u, db')"
    by (auto simp: request_cancellation_def result_simps)
  with inv show ?thesis
    by (rule update_job_evolves)
       (auto simp: job_evolves_def same_job_def job_key_def cancelled_row_def legal_def
         intro!: r_into_rtranclp)
qed

lemma mark_attempt_terminated_evolves:
  "mark_attempt_terminated env c pr ri re d db = Inr (b, db') \<Longrightarrow> evolves N db db'"
  by (auto simp: mark_attempt_terminated_def result_simps attempt_evolves_def same_attempt_def
      elim!: update_attempt_evolves)

lemma schedule_retry_evolves:
  assumes inv: "store_inv m db" and run: "schedule_retry env c s delay cat mx d db = Inr (b, db')"
  shows "evolves N db db'"
proof (cases "retry_candidate c s db")
  case None
  with run show ?thesis by (auto simp: schedule_retry_def result_simps)
next
  case (Some j)
  have l: "legal s Queued"
    using run by (auto simp: schedule_retry_def result_simps simp del: state_name.simps split: if_splits)
  from Some run obtain u v db1 db2 where
    1: "update_job (c_job_id c) (\<lambda>j. j_state j = s \<and> j_current_attempt j = c_attempt c)
          (\<lambda>j. j\<lparr>j_state := Queued, j_publication_state := NotStarted, j_error_category := Some cat,
              j_next_eligible_at := tx_now env + delay, j_updated_at := tx_now env\<rparr>) db = Inr (u, db1)" and
    2: "update_attempt (claim_key c) (owned_by c)
          (\<lambda>a. a\<lparr>a_is_current := False, a_finished_at := Some (tx_now env), a_result_category := Some cat,
              a_diagnostic_summary := coalesce d (a_diagnostic_summary a)\<rparr>) db1 = Inr (v, db2)" and
    3: "db' = snd (delete_lease (c_graph_id c) (lease_of_claim c) db2)"
    by (auto simp: schedule_retry_def result_simps)
  have "evolves N db db1"
    using inv 1
    by (rule update_job_evolves)
       (use l in \<open>auto simp: job_evolves_def same_job_def job_key_def intro: r_into_rtranclp\<close>)
  also have "evolves N db1 db2"
    using 2 by (rule update_attempt_evolves) (simp add: attempt_evolves_def same_attempt_def)
  also have "evolves N db2 db'" unfolding 3 by (rule evolves_frame) simp_all
  finally show ?thesis .
qed

lemma close_attempt_evolves: "close_attempt env c p e d db = Inr db' \<Longrightarrow> evolves N db db'"
  by (auto simp: close_attempt_def result_simps attempt_evolves_def elim!: update_attempt_evolves)

lemma drop_lease_evolves: "drop_lease c db = Inr db' \<Longrightarrow> evolves N db db'"
  by (auto elim!: drop_lease_Inr intro: evolves_frame)

lemma close_terminal_evolves:
  assumes inv: "store_inv m db" and l: "legal ReconciliationRequired t"
    and run: "close_terminal env c t p e d db = Inr db'"
  shows "evolves N db db'"
proof -
  from run obtain u db1 db2 where
    1: "update_job (c_job_id c)
          (\<lambda>j. j_state j = ReconciliationRequired \<and> j_current_attempt j = c_attempt c)
          (\<lambda>j. j\<lparr>j_state := t, j_publication_state := p, j_error_category := e,
                j_finished_at := Some (tx_now env), j_updated_at := tx_now env\<rparr>) db = Inr (u, db1)" and
    2: "close_attempt env c p e d db1 = Inr db2" and 3: "drop_lease c db2 = Inr db'"
    by (auto simp: close_terminal_def result_simps)
  have "evolves N db db1"
    using inv 1
    by (rule update_job_evolves)
       (use l in \<open>auto simp: job_evolves_def same_job_def job_key_def intro: r_into_rtranclp\<close>)
  also have "evolves N db1 db2" using 2 by (rule close_attempt_evolves)
  also have "evolves N db2 db'" using 3 by (rule drop_lease_evolves)
  finally show ?thesis .
qed

lemma queue_retry_evolves:
  assumes inv: "store_inv m db" and run: "queue_retry env c p db = Inr db'"
  shows "evolves N db db'"
proof -
  from run obtain u db1 db2 where
    1: "update_job (c_job_id c)
          (\<lambda>j. j_state j = ReconciliationRequired \<and> j_current_attempt j = c_attempt c)
          (\<lambda>j. j\<lparr>j_state := Queued, j_publication_state := NotStarted,
                j_error_category := Some ''transient'', j_next_eligible_at := tx_now env + usec 1,
                j_updated_at := tx_now env\<rparr>) db = Inr (u, db1)" and
    2: "close_attempt env c p (Some ''transient'') None db1 = Inr db2" and 3: "drop_lease c db2 = Inr db'"
    by (auto simp: queue_retry_def result_simps)
  have "evolves N db db1"
    using inv 1 by (rule update_job_evolves) (auto simp: job_evolves_def same_job_def job_key_def)
  also have "evolves N db1 db2" using 2 by (rule close_attempt_evolves)
  also have "evolves N db2 db'" using 3 by (rule drop_lease_evolves)
  finally show ?thesis .
qed

lemma pause_graph_intent_evolves: "evolves N db (pause_graph_intent env c db)"
  by (rule evolves_frame) simp_all

lemma legal_from_reconciliation [simp]:
  "legal ReconciliationRequired Succeeded" "legal ReconciliationRequired Failed"
  "legal ReconciliationRequired Cancelled" "legal ReconciliationRequired Quarantined"
  by (simp_all add: legal_def)

lemma reconcile_publication_evolves:
  assumes inv: "store_inv m db" and run: "reconcile_publication env c mx ri re u db = Inr (r, db')"
  shows "evolves N db db'"
proof (cases "lock_evidence c db")
  case None
  with run show ?thesis by (auto simp: reconcile_publication_def result_simps)
next
  case (Some ev)
  obtain j a mk where "ev = (j, a, mk)" by (cases ev)
  with run Some have "reconcile_evidence env c mx u j a mk db = Inr (r, db')"
    by (simp add: reconcile_publication_def result_simps)
  then show ?thesis
  proof (cases rule: reconcile_evidence_cases)
    case (quarantined e)
    then have "evolves N (pause_graph_intent env c db) db'"
      using close_terminal_evolves [OF pause_graph_intent_inv [OF inv] legal_from_reconciliation(4)] by blast
    with pause_graph_intent_evolves show ?thesis using evolves_trans by blast
  qed (use legal_from_reconciliation [THEN close_terminal_evolves [OF inv]] queue_retry_evolves [OF inv]
      in auto)
qed

lemma recover_row_evolves:
  assumes inv: "store_inv m db" and row: "map_of (jobs db) (j_job_id row) = Some j"
    "j_state j \<in> set (ReconciliationRequired # ABANDONED_STATES)"
    and run: "recover_row env row db = Inr db'"
  shows "evolves N db db'"
proof -
  from run obtain u v db1 where
    1: "update_job (j_job_id row) (\<lambda>j. j_current_attempt j = j_current_attempt row)
       (\<lambda>j. j\<lparr>j_state := ReconciliationRequired, j_publication_state := CommitUnknown,
             j_error_category := Some ''publication_unknown'', j_updated_at := tx_now env\<rparr>) db = Inr (u, db1)"
    and 2: "update_attempt (j_job_id row, j_current_attempt row) a_is_current
       (\<lambda>a. a\<lparr>a_finished_at := coalesce (a_finished_at a) (Some (tx_now env)),
             a_registration_digest := None, a_registration_consumed := True,
             a_publication_state := CommitUnknown,
             a_result_category := Some ''publication_unknown''\<rparr>) db1 = Inr (v, db')"
    by (auto simp: recover_row_def result_simps)
  have "evolves N db db1"
    using inv 1
    by (rule update_job_evolves)
       (use row in \<open>auto simp: job_evolves_def same_job_def job_key_def ABANDONED_STATES_def legal_def
          intro: r_into_rtranclp\<close>)
  also have "evolves N db1 db'"
    using 2 by (rule update_attempt_evolves) (simp add: attempt_evolves_def same_attempt_def)
  finally show ?thesis .
qed

text \<open>An active job's current attempt is the only thing recovery touches.\<close>

lemma active_recoverable: "active s \<Longrightarrow> s \<in> set (ReconciliationRequired # ABANDONED_STATES)"
  by (cases s) (simp_all add: ABANDONED_STATES_def active_def)

lemma persist_supervisor_registration_evolves:
  "persist_supervisor_registration env locks c dg db = Inr db' \<Longrightarrow> evolves N db db'"
  by (auto simp: persist_supervisor_registration_def result_simps attempt_evolves_def same_attempt_def
      split: option.splits elim!: update_attempt_evolves)

lemma in_process_currency_context_evolves:
  "in_process_currency_context env locks c dg decide db = Inr (out, db') \<Longrightarrow> evolves N db db'"
  by (auto simp: in_process_currency_context_def result_simps attempt_evolves_def same_attempt_def
      split: option.splits elim!: update_attempt_evolves)

lemma execute_durable_closure_evolves:
  assumes inv: "store_inv m db" and "execute_durable_closure env clk locks c ri re fence closer db = Inr (b, db')"
  shows "evolves N db db'"
  using assms(2)
proof (cases rule: execute_durable_closure_cases)
  case closed
  then obtain u v db1 where
    1: "update_job (c_job_id c)
       (\<lambda>j. j_current_attempt j = c_attempt c \<and> j_state j = ReconciliationRequired)
       (\<lambda>j. j\<lparr>j_publication_state := NotStarted, j_updated_at := tx_now env\<rparr>) db = Inr (u, db1)"
    and 2: "update_attempt (claim_key c) a_is_current
       (\<lambda>a. a\<lparr>a_publication_state := NotStarted, a_registration_digest := None\<rparr>) db1 = Inr (v, db')"
    by (auto simp: persist_not_started_def result_simps)
  have "evolves N db db1"
    using inv 1 by (rule update_job_evolves) (simp add: job_evolves_def same_job_def job_key_def)
  also have "evolves N db1 db'"
    using 2 by (rule update_attempt_evolves) (simp add: attempt_evolves_def same_attempt_def)
  finally show ?thesis .
qed simp

lemma quarantine_legacy_attempt_evolves:
  assumes inv: "store_inv m db" and "quarantine_legacy_attempt env clk locks c ri re fence db = Inr (b, db')"
  shows "evolves N db db'"
  using assms(2)
proof (cases rule: quarantine_legacy_attempt_cases)
  case quarantined
  then obtain u v db1 db2 where
    1: "update_job (c_job_id c)
       (\<lambda>j. j_current_attempt j = c_attempt c \<and> j_state j = ReconciliationRequired)
       (\<lambda>j. j\<lparr>j_state := Quarantined, j_publication_state := CommitUnknown,
             j_error_category := Some ''legacy_zero_epoch'',
             j_finished_at := Some (tx_now env), j_updated_at := tx_now env\<rparr>) db = Inr (u, db1)"
    and 2: "update_attempt (claim_key c) (owned_by c)
       (closed_attempt env CommitUnknown (Some ''legacy_zero_epoch'') None) db1 = Inr (v, db2)"
    and 3: "(let (ok, db3) = delete_lease (c_graph_id c)
           (\<lambda>l. lease_of_claim c l \<and> gl_graph_lease_epoch l = 0) db2
       in guardE ok (StaleDurableAuthorityError ''legacy lease deletion failed'')
          (Inr (clear_running (c_graph_id c) (c_job_id c) db3))) = Inr db'"
    unfolding quarantine_rows_def bindE_Inr_iff guardE_Inr_iff split_paired_Ex prod.case by blast
  have "evolves N db db1"
    using inv 1 by (rule update_job_evolves) (auto simp: job_evolves_def same_job_def job_key_def)
  also have "evolves N db1 db2"
    using 2 by (rule update_attempt_evolves) (simp add: attempt_evolves_def)
  also have "evolves N db2 db'"
    using 3 by (intro evolves_frame) (auto simp: result_simps delete_lease_def split: option.splits if_splits)
  finally show ?thesis .
qed simp

lemma record_publication_marker_evolves:
  "record_publication_marker env c run gens out db = Inr (b, db') \<Longrightarrow> evolves N db db'"
  by (erule record_publication_marker_cases) (auto simp: evolves_def)

lemma record_current_evolves: "record_current env g gens delay db = Inr (b, db') \<Longrightarrow> evolves N db db'"
  by (rule evolves_frame)
     (auto simp: record_current_def result_simps update_intent_def split: option.splits)

lemma record_condition_evolves: "record_condition env g cat delay db = Inr (b, db') \<Longrightarrow> evolves N db db'"
  by (rule evolves_frame)
     (auto simp: record_condition_def result_simps update_intent_def split: option.splits)

lemma foldE_recover_evolves:
  assumes "foldE (recover_row env) rows db = Inr db'" and "store_inv m db" and "recovering rows0 db"
    and "set rows \<subseteq> set rows0"
  shows "evolves N db db'"
  using assms
proof (induction rows arbitrary: db)
  case (Cons r rows)
  then obtain db1 where 1: "recover_row env r db = Inr db1" "foldE (recover_row env) rows db1 = Inr db'"
    by (auto simp: result_simps)
  obtain j where j: "map_of (jobs db) (j_job_id r) = Some j" "active (j_state j)"
    using Cons.prems by (auto simp: recovering_def)
  have "evolves N db db1"
    using recover_row_evolves [OF Cons.prems(2) j(1) active_recoverable [OF j(2)] 1(1)] .
  also have "evolves N db1 db'"
    using Cons.IH [OF 1(2) recover_row_inv [OF Cons.prems(2) j 1(1)]
        recover_row_recovering [OF Cons.prems(2,3) 1(1)]] Cons.prems(4) by auto
  finally show ?case .
qed simp

lemma recover_abandoned_attempts_evolves:
  assumes inv: "store_inv m db" and run: "recover_abandoned_attempts env iid ep limit db = Inr (n, db')"
  shows "evolves N db db'"
proof -
  have "foldE (recover_row env)
      (take (nat limit) (select_by submission_order (abandoned iid ep db) (jobs db))) db = Inr db'"
    using run by (auto simp: recover_abandoned_attempts_def Let_def result_simps)
  then show ?thesis using inv abandoned_recovering [OF inv] subset_refl by (rule foldE_recover_evolves)
qed

end
