(* ===== verification/Control_System.thy ===== *)
theory Control_System
  imports Control_Evolution
begin

text \<open>
  The control store as a transition system. A state is the database and the set of claims the store
  has handed out; every step is one committed transaction called with arguments its callers use:
  claims come from \<^const>\<open>claim_once\<close> or \<^const>\<open>reconciliation_claims\<close>, and the identifiers
  \<^verbatim>\<open>uuid.uuid4()\<close> returns are new. Any number of coordinators, of any age, may take these steps in any
  order. A transaction that raises changes nothing and is not a step. \<^const>\<open>compare_and_set_state\<close> would
  also let a caller put a job back into the queue by itself; no caller asks for that, retries being the
  business of \<^const>\<open>schedule_retry\<close>, and it is not a step.
\<close>

type_synonym system = "control_db \<times> JobClaim set"

inductive store_step :: "CoordinatorLimits \<Rightarrow> (string \<Rightarrow> string) \<Rightarrow> system \<Rightarrow> system \<Rightarrow> bool"
  for limits :: CoordinatorLimits and sha256 :: "string \<Rightarrow> string" where
  acquire: "acquire_singleton env iid ttl db = Inr (e, db')
    \<Longrightarrow> store_step limits sha256 (db, C) (db', C)"
| renew: "heartbeat_singleton env iid ep ttl db = Inr (b, db')
    \<Longrightarrow> store_step limits sha256 (db, C) (db', C)"
| stop: "stop_singleton env iid ep db = Inr (b, db')
    \<Longrightarrow> store_step limits sha256 (db, C) (db', C)"
| submit: "submit env sha256 new_id request requester limits bound lck db = Inr (r, db')
    \<Longrightarrow> new_id \<notin> c_job_id ` C \<Longrightarrow> store_step limits sha256 (db, C) (db', C)"
| coalesce: "coalesce_automatic env sha256 new_id request requester limits db = Inr (r, db')
    \<Longrightarrow> new_id \<notin> c_job_id ` C \<Longrightarrow> store_step limits sha256 (db, C) (db', C)"
| claim: "claim_once env iid ep secs (max_retry_attempts limits) automatic db = Inr (Some c, db')
    \<Longrightarrow> store_step limits sha256 (db, C) (db', insert c C)"
| release: "release_graph_lease env g k n oi oe ri re db = Inr (b, db')
    \<Longrightarrow> store_step limits sha256 (db, C) (db', C)"
| compare_and_set: "compare_and_set_state env k s t n iid ep p e d db = Inr (b, db') \<Longrightarrow> t \<noteq> Queued
    \<Longrightarrow> store_step limits sha256 (db, C) (db', C)"
| heartbeat: "heartbeat_attempt env limits c ttl ph cnt tot db = Inr (b, db') \<Longrightarrow> c \<in> C
    \<Longrightarrow> store_step limits sha256 (db, C) (db', C)"
| cancel: "request_cancellation env k db = Inr (t, db')
    \<Longrightarrow> store_step limits sha256 (db, C) (db', C)"
| terminated: "mark_attempt_terminated env c pr ri re d db = Inr (b, db') \<Longrightarrow> c \<in> C
    \<Longrightarrow> store_step limits sha256 (db, C) (db', C)"
| retry: "schedule_retry env c s delay cat (max_retry_attempts limits) d db = Inr (b, db') \<Longrightarrow> c \<in> C
    \<Longrightarrow> store_step limits sha256 (db, C) (db', C)"
| reconcile: "reconcile_publication env c (max_retry_attempts limits) ri re u db = Inr (o1, db') \<Longrightarrow> c \<in> C
    \<Longrightarrow> store_step limits sha256 (db, C) (db', C)"
| recover: "recover_abandoned_attempts env iid ep limit db = Inr (cnt2, db')
    \<Longrightarrow> store_step limits sha256 (db, C) (db', C)"
| list_claims: "reconciliation_claims limit db = Inr cs
    \<Longrightarrow> store_step limits sha256 (db, C) (db, C \<union> set cs)"
| register: "persist_supervisor_registration env locks c dg db = Inr db' \<Longrightarrow> c \<in> C
    \<Longrightarrow> store_step limits sha256 (db, C) (db', C)"
| consume: "in_process_currency_context env locks c odg (decide :: unit result) db = Inr (out, db') \<Longrightarrow> c \<in> C
    \<Longrightarrow> store_step limits sha256 (db, C) (db', C)"
| close_unpublished: "execute_durable_closure env clk locks c ri re fence closer db = Inr (b, db') \<Longrightarrow> c \<in> C
    \<Longrightarrow> store_step limits sha256 (db, C) (db', C)"
| quarantine_legacy: "quarantine_legacy_attempt env clk locks c ri re fence db = Inr (b, db') \<Longrightarrow> c \<in> C
    \<Longrightarrow> store_step limits sha256 (db, C) (db', C)"
| marker: "record_publication_marker env c run gens outcome db = Inr (b, db') \<Longrightarrow> c \<in> C
    \<Longrightarrow> store_step limits sha256 (db, C) (db', C)"
| cleanup: "cleanup_terminal env age limit dry retirer db = Inr (rep, db')
    \<Longrightarrow> store_step limits sha256 (db, C) (db', C)"
| poll_current: "record_current env g gens delay db = Inr (b, db')
    \<Longrightarrow> store_step limits sha256 (db, C) (db', C)"
| poll_condition: "record_condition env g cat delay db = Inr (b, db')
    \<Longrightarrow> store_step limits sha256 (db, C) (db', C)"

inductive_cases store_stepE: "store_step limits sha256 (db, C) (db', C')"

lemmas store_step_cases = store_stepE [consumes 1, case_names acquire renew stop submit coalesce claim
  release compare_and_set heartbeat cancel terminated retry reconcile recover list_claims register
  consume close_unpublished quarantine_legacy marker cleanup poll_current poll_condition]

definition system_inv :: "CoordinatorLimits \<Rightarrow> system \<Rightarrow> bool" where
  "system_inv limits s = (store_inv (max_retry_attempts limits) (fst s)
     \<and> (\<forall>c \<in> snd s. claim_ok (fst s) c))"

definition initial :: system where "initial = (empty_db, {})"

definition reachable :: "CoordinatorLimits \<Rightarrow> (string \<Rightarrow> string) \<Rightarrow> system \<Rightarrow> bool" where
  "reachable limits sha256 = (store_step limits sha256)\<^sup>*\<^sup>* initial"

section \<open>Claims stay good\<close>

lemma claim_ok_evolves:
  assumes ok: "claim_ok db c" and ev: "evolves N db db'" and new: "c_job_id c \<notin> N"
    and att: "map_of (attempts db) (claim_key c) = None \<Longrightarrow> map_of (jobs db) (c_job_id c) = None
      \<Longrightarrow> map_of (attempts db') (claim_key c) = None"
  shows "claim_ok db' c"
  unfolding claim_ok_def
proof (intro conjI allI impI)
  fix j' assume j': "map_of (jobs db') (c_job_id c) = Some j'"
  then obtain j where j: "map_of (jobs db) (c_job_id c) = Some j"
    using evolvesD(6) [OF ev, of "c_job_id c"] new by auto
  then have "job_evolves j j'" using evolvesD(1) [OF ev j] j' by auto
  with ok j show "j_graph_id j' = c_graph_id c" and "c_attempt c \<le> j_current_attempt j'"
    by (auto simp: claim_ok_def job_evolves_def same_job_def)
next
  fix a' assume a': "map_of (attempts db') (claim_key c) = Some a'"
  show "owned_by c (a'\<lparr>a_is_current := True\<rparr>)"
  proof (cases "map_of (attempts db) (claim_key c)")
    case (Some a)
    then have "attempt_evolves a a'" using evolvesD(2) [OF ev Some] a' by auto
    with ok Some show ?thesis
      by (auto simp: claim_ok_def owned_by_def attempt_evolves_def same_attempt_def)
  next
    case None
    with att a' obtain j where j: "map_of (jobs db) (c_job_id c) = Some j" by fastforce
    then have "j_current_attempt j < c_attempt c"
      using evolvesD(3) [OF ev, of "c_job_id c" "c_attempt c"] None a' by (auto simp: claim_key_def)
    with ok j show ?thesis by (auto simp: claim_ok_def)
  qed
qed

lemma attempt_has_job:
  assumes "store_inv m db" and "map_of (jobs db) k = None"
  shows "map_of (attempts db) (k, n) = None"
  using store_inv_attempt_job [OF assms(1), of k n] assms(2) by fastforce

lemma claims_ok_step:
  assumes "\<forall>c \<in> C. claim_ok db c" and ev: "evolves N db db'" and "N \<inter> c_job_id ` C = {}"
    and inv': "store_inv m db'"
  shows "\<forall>c \<in> C. claim_ok db' c"
proof
  fix c assume c: "c \<in> C"
  have new: "c_job_id c \<notin> N" using assms(3) c by blast
  show "claim_ok db' c"
  proof (rule claim_ok_evolves [OF _ ev new])
    show "claim_ok db c" using assms(1) c by blast
    assume "map_of (jobs db) (c_job_id c) = None"
    then have "map_of (jobs db') (c_job_id c) = None" using evolvesD(6) [OF ev] new by blast
    then show "map_of (attempts db') (claim_key c) = None"
      unfolding claim_key_def by (rule attempt_has_job [OF inv'])
  qed
qed

lemma claimed_ok:
  assumes inv: "store_inv m db" and run: "claim_once env iid ep secs mx auto db = Inr (Some c, db')"
  shows "claim_ok db' c"
proof -
  obtain j db2 where nc: "next_claimable env mx auto db = Some j" and c: "c = claim_of env iid ep j"
    and uj: "update_job (j_job_id j) (\<lambda>r. j_state r = Queued)
           (\<lambda>r. r\<lparr>j_state := Claimed, j_current_attempt := j_current_attempt j + 1,
                 j_updated_at := tx_now env\<rparr>)
           (db\<lparr>attempts := AList.update (j_job_id j, j_current_attempt j + 1)
                 (new_attempt env iid ep j) (attempts db),
               leases := AList.update (j_graph_id j) (new_lease env iid ep secs j) (leases db)\<rparr>)
           = Inr db2"
    and out: "db' = (if j_priority_class j = Automatic
                then snd (update_intent (j_graph_id j)
                       (\<lambda>i. cs_queued_job_id i = Some (j_job_id j))
                       (\<lambda>i. i\<lparr>cs_queued_job_id := None,
                             cs_running_job_id := Some (j_job_id j), cs_dirty := False\<rparr>) (snd db2))
                else snd db2)"
    by (rule claim_once_Some [OF run]) blast
  have tab: "table_ok (jobs db)" using inv by (simp add: store_inv_def tables_ok_def)
  obtain k where k: "map_of (jobs db) k = Some j" using next_claimable_Some(1) [OF nc tab] by blast
  then have jk: "j_job_id j = k" using store_inv_job_id inv by blast
  have q: "j_state j = Queued" using next_claimable_Some(2) [OF nc tab] by (simp add: claimable_def)
  have "jobs db' = jobs (snd db2)" "attempts db' = attempts (snd db2)" unfolding out by simp_all
  then show ?thesis
    using uj k q jk unfolding c
    by (auto simp: claim_ok_def claim_of_def claim_key_def update_job_def write_job_def result_simps
        owned_by_def new_attempt_def)
qed

lemma listed_ok:
  assumes inv: "store_inv m db" and run: "reconciliation_claims limit db = Inr cs" and "c \<in> set cs"
  shows "claim_ok db c"
proof -
  have tab: "table_ok (jobs db)" using inv by (simp add: store_inv_def tables_ok_def)
  let ?rows = "take (nat limit) (select_by submission_order (reconciliation_ready db) (jobs db))"
  have cs: "cs = concat (map (\<lambda>j. case map_of (attempts db) (j_job_id j, j_current_attempt j) of
      None \<Rightarrow> [] | Some a \<Rightarrow> [claim_of_attempt j a]) ?rows)"
    using run by (auto simp: reconciliation_claims_def result_simps)
  obtain j where jr: "j \<in> set ?rows" and jc: "c \<in> set (case map_of (attempts db)
      (j_job_id j, j_current_attempt j) of None \<Rightarrow> [] | Some a \<Rightarrow> [claim_of_attempt j a])"
    using assms(3) unfolding cs by auto
  from jr have "j \<in> set (select_by submission_order (reconciliation_ready db) (jobs db))"
    by (rule in_set_takeD)
  then have j: "j \<in> snd ` set (jobs db)" by auto
  obtain a where a: "map_of (attempts db) (j_job_id j, j_current_attempt j) = Some a"
    and c: "c = claim_of_attempt j a"
    using jc by (cases "map_of (attempts db) (j_job_id j, j_current_attempt j)") auto
  obtain k where k: "map_of (jobs db) k = Some j" using j table_row_iff [OF tab] by fastforce
  then have "j_job_id j = k" using store_inv_job_id inv by blast
  with k a show ?thesis
    unfolding c by (simp add: claim_ok_def claim_of_attempt_def claim_key_def owned_by_def)
qed

section \<open>Steps\<close>

text \<open>Retention is the only step that removes rows, and it removes whole jobs.\<close>

definition forgets :: "string list \<Rightarrow> control_db \<Rightarrow> control_db \<Rightarrow> bool" where
  "forgets ids db db' =
     ((\<forall>k. map_of (jobs db') k = (if k \<in> set ids then None else map_of (jobs db) k))
      \<and> (\<forall>k. map_of (attempts db') k = (if fst k \<in> set ids then None else map_of (attempts db) k))
      \<and> (\<forall>k. map_of (markers db') k = (if fst k \<in> set ids then None else map_of (markers db) k))
      \<and> singleton db' = singleton db)"

lemma delete_jobs_forgets: "delete_jobs ids db = Inr db' \<Longrightarrow> forgets ids db db'"
  by (erule delete_jobs_Inr) (simp_all add: forgets_def lookup_delete_where)

lemma forgets_Nil: "forgets [] db db"
  by (simp add: forgets_def)

lemma cleanup_forgets:
  assumes "cleanup_terminal env age limit dry retirer db = Inr (rep, db')"
  shows "\<exists>ids. forgets ids db db' \<and> set ids \<subseteq>
    set (cleanup_candidates env age (scan_limit limit (retirer \<noteq> None)) db)"
proof (cases dry)
  case True
  then show ?thesis
    using cleanup_terminal_Inr(2) [OF assms] forgets_Nil by (intro exI [of _ "[]"]) simp
next
  case False
  then show ?thesis
    using cleanup_terminal_Inr(1) [OF assms] delete_jobs_forgets [OF cleanup_terminal_Inr(3) [OF assms]]
    by blast
qed

lemma forgotten_terminal:
  assumes inv: "store_inv m db" and "k \<in> set (cleanup_candidates env age scan db)"
    and j: "map_of (jobs db) k = Some j"
  shows "terminal (j_state j)"
proof -
  have tab: "table_ok (jobs db)" using inv by (simp add: store_inv_def tables_ok_def)
  obtain j' where j': "j' \<in> snd ` set (jobs db)" "j_job_id j' = k" "cleanup_candidate env age db j'"
    using cleanup_candidates_iff [OF assms(2)] by blast
  then obtain k' where "map_of (jobs db) k' = Some j'" using table_row_iff [OF tab] by fastforce
  moreover from this have "k' = k" using store_inv_job_id [OF inv] j'(2) by blast
  ultimately show ?thesis using j'(3) j by (simp add: cleanup_candidate_def)
qed

definition advances :: "JobClaim set \<Rightarrow> control_db \<Rightarrow> control_db \<Rightarrow> bool" where
  "advances C db db' = ((\<exists>N. evolves N db db' \<and> N \<inter> c_job_id ` C = {})
     \<or> (\<exists>ids. forgets ids db db' \<and>
          (\<forall>k \<in> set ids. \<forall>j. map_of (jobs db) k = Some j \<longrightarrow> terminal (j_state j))))"

text \<open>Besides retention, the steps that admit a job are the only ones at which jobs appear.\<close>

definition admission :: "CoordinatorLimits \<Rightarrow> (string \<Rightarrow> string) \<Rightarrow> JobClaim set \<Rightarrow> control_db \<Rightarrow> control_db \<Rightarrow> bool" where
  "admission limits sha256 C db db' = (\<exists>env new_id request requester r. new_id \<notin> c_job_id ` C \<and>
     (submit_transaction env sha256 new_id request requester limits db = Inr (r, db')
      \<or> coalesce_transaction env sha256 new_id request requester limits db = Inr (r, db')))"

definition retention :: "control_db \<Rightarrow> control_db \<Rightarrow> bool" where
  "retention db db' = (\<exists>ids. forgets ids db db' \<and>
     (\<forall>k \<in> set ids. \<forall>j. map_of (jobs db) k = Some j \<longrightarrow> terminal (j_state j)))"

lemma step_kinds:
  assumes "store_step limits sha256 (db, C) (db', C')" and inv: "store_inv (max_retry_attempts limits) db"
  shows "evolves {} db db' \<or> admission limits sha256 C db db' \<or> retention db db'"
proof -
  have old: "evolves {} db db' \<Longrightarrow> ?thesis" by blast
  from assms(1) show ?thesis
  proof (cases rule: store_step_cases)
    case acquire then show ?thesis by (intro old acquire_singleton_evolves)
  next
    case renew then show ?thesis by (intro old heartbeat_singleton_evolves)
  next
    case stop then show ?thesis by (intro old stop_singleton_evolves)
  next
    case submit then show ?thesis using submit_Inr(1) unfolding admission_def by blast
  next
    case coalesce then show ?thesis using coalesce_automatic_Inr(1) unfolding admission_def by blast
  next
    case claim then show ?thesis by (intro old claim_once_evolves [OF inv])
  next
    case release then show ?thesis by (intro old release_graph_lease_evolves)
  next
    case compare_and_set then show ?thesis by (intro old compare_and_set_state_evolves [OF inv])
  next
    case heartbeat then show ?thesis by (intro old heartbeat_attempt_evolves [OF inv])
  next
    case cancel then show ?thesis by (intro old request_cancellation_evolves [OF inv])
  next
    case terminated then show ?thesis by (intro old mark_attempt_terminated_evolves)
  next
    case retry then show ?thesis by (intro old schedule_retry_evolves [OF inv])
  next
    case reconcile then show ?thesis by (intro old reconcile_publication_evolves [OF inv])
  next
    case recover then show ?thesis by (intro old recover_abandoned_attempts_evolves [OF inv])
  next
    case list_claims then show ?thesis by (auto intro: old)
  next
    case register then show ?thesis by (intro old persist_supervisor_registration_evolves)
  next
    case consume then show ?thesis by (intro old in_process_currency_context_evolves)
  next
    case close_unpublished
    then show ?thesis by (intro old execute_durable_closure_evolves [OF inv])
  next
    case quarantine_legacy
    then show ?thesis by (intro old quarantine_legacy_attempt_evolves [OF inv])
  next
    case marker then show ?thesis by (intro old record_publication_marker_evolves)
  next
    case (cleanup env age limit dry retirer rep)
    obtain ids where "forgets ids db db'" and
      "set ids \<subseteq> set (cleanup_candidates env age (scan_limit limit (retirer \<noteq> None)) db)"
      using cleanup_forgets [OF cleanup(2)] by blast
    then show ?thesis using forgotten_terminal [OF inv] unfolding retention_def by (meson subsetD)
  next
    case poll_current then show ?thesis by (intro old record_current_evolves)
  next
    case poll_condition then show ?thesis by (intro old record_condition_evolves)
  qed
qed

lemma step_advances:
  assumes "store_step limits sha256 (db, C) (db', C')" and "system_inv limits (db, C)"
    and m: "0 \<le> max_retry_attempts limits"
  shows "advances C db db'"
proof -
  have inv: "store_inv (max_retry_attempts limits) db" using assms(2) by (simp add: system_inv_def)
  from step_kinds [OF assms(1) inv] show ?thesis
  proof (elim disjE)
    assume "admission limits sha256 C db db'"
    then obtain new_id where "new_id \<notin> c_job_id ` C" "evolves {new_id} db db'"
      unfolding admission_def
      using submit_transaction_evolves coalesce_transaction_evolves [OF inv m] by (metis singletonI)
    then show ?thesis unfolding advances_def by blast
  qed (auto simp: advances_def retention_def)
qed

lemma step_store_inv:
  assumes "store_step limits sha256 (db, C) (db', C')" and "system_inv limits (db, C)"
    and m: "0 \<le> max_retry_attempts limits"
  shows "store_inv (max_retry_attempts limits) db'"
proof -
  have inv: "store_inv (max_retry_attempts limits) db" and ok: "c \<in> C \<Longrightarrow> claim_ok db c" for c
    using assms(2) by (simp_all add: system_inv_def)
  from assms(1) show ?thesis
  proof (cases rule: store_step_cases)
    case submit then show ?thesis using submit_transaction_inv [OF inv m submit_Inr(1)] by blast
  next
    case coalesce then show ?thesis using coalesce_transaction_inv [OF inv m coalesce_automatic_Inr(1)] by blast
  next
    case retry then show ?thesis using schedule_retry_inv [OF inv ok] by blast
  next
    case reconcile then show ?thesis using reconcile_publication_inv [OF inv ok] by blast
  next
    case quarantine_legacy then show ?thesis using quarantine_legacy_attempt_inv [OF inv ok] by blast
  next
    case claim then show ?thesis using claim_once_inv [OF inv] by blast
  qed (use inv in \<open>blast intro: acquire_singleton_inv heartbeat_singleton_inv stop_singleton_inv
      release_graph_lease_inv compare_and_set_state_inv heartbeat_attempt_inv request_cancellation_inv
      mark_attempt_terminated_inv recover_abandoned_attempts_inv persist_supervisor_registration_inv
      in_process_currency_context_inv execute_durable_closure_inv record_publication_marker_inv
      cleanup_terminal_inv record_current_inv record_condition_inv\<close>)+
qed

lemma claims_ok_forgets:
  "\<forall>c \<in> C. claim_ok db c \<Longrightarrow> forgets ids db db' \<Longrightarrow> \<forall>c \<in> C. claim_ok db' c"
  unfolding claim_ok_def forgets_def claim_key_def by (metis fst_conv option.distinct(1))

lemma step_claims:
  assumes "store_step limits sha256 (db, C) (db', C')" and "store_inv m db"
  shows "C \<subseteq> C'" and "c \<in> C' - C \<Longrightarrow> claim_ok db' c"
  using assms by (auto elim!: store_stepE dest: claimed_ok listed_ok)

lemma step_system_inv:
  assumes step: "store_step limits sha256 (db, C) (db', C')" and inv: "system_inv limits (db, C)"
    and m: "0 \<le> max_retry_attempts limits"
  shows "system_inv limits (db', C')"
proof -
  have si: "store_inv (max_retry_attempts limits) db" and ok: "\<forall>c \<in> C. claim_ok db c"
    using inv by (simp_all add: system_inv_def)
  have si': "store_inv (max_retry_attempts limits) db'" using step_store_inv [OF step inv m] .
  have "\<forall>c \<in> C. claim_ok db' c"
    using step_advances [OF step inv m] claims_ok_step [OF ok _ _ si'] claims_ok_forgets [OF ok]
    unfolding advances_def by blast
  with si' step_claims [OF step si] show ?thesis by (auto simp: system_inv_def)
qed

lemma run_system_inv:
  assumes "(store_step limits sha256)\<^sup>*\<^sup>* s t" and "system_inv limits s"
    and "0 \<le> max_retry_attempts limits"
  shows "system_inv limits t"
  using assms
proof (induction rule: rtranclp_induct)
  case (step t u)
  then show ?case using step_system_inv by (metis surj_pair)
qed simp

lemma reachable_system_inv:
  assumes "reachable limits sha256 s" and m: "0 \<le> max_retry_attempts limits"
  shows "system_inv limits s"
proof -
  have "system_inv limits initial" using store_inv_empty [OF m] by (simp add: system_inv_def initial_def)
  with assms show ?thesis using run_system_inv unfolding reachable_def by blast
qed

lemmas reachable_store_inv = reachable_system_inv [unfolded system_inv_def, THEN conjunct1]

end
