(* ===== verification/Control_Example.thy ===== *)
theory Control_Example
  imports Control_System
begin

text \<open>
  A concrete run of the control store, from the empty database: a coordinator acquires the singleton,
  a client submits a job, the coordinator claims it and the worker starts and runs. The witnesses of
  the properties evaluate the model on the states of this run.
\<close>

definition demo_sha256 :: "string \<Rightarrow> string" where
  \<comment> \<open>a stand-in digest, 64 hexadecimal digits long\<close>
  "demo_sha256 s = replicate 64 (if length s = 1 then CHR ''a'' else if length s = 2 then CHR ''b'' else CHR ''f'')"

definition demo_env :: "int \<Rightarrow> tx_env" where
  "demo_env t = \<lparr>tx_now = t, tx_clock = t, tx_xid = 700, tx_admitted = True\<rparr>"

fun yields :: "'a \<Rightarrow> ('a \<times> 's) result \<Rightarrow> bool" where
  "yields v (Inr (x, s)) = (x = v)"
| "yields v (Inl e) = False"

lemma yieldsD: "yields v r \<Longrightarrow> \<exists>s. r = Inr (v, s)"
  by (cases "(v, r)" rule: yields.cases) auto

definition demo_generations :: generations where
  "demo_generations = (''sg1:a'', ''cg1:b'', ''eg1:c'', ''kg1:d'')"

definition demo_request :: "string \<Rightarrow> priority \<Rightarrow> JobRequest" where
  "demo_request key pr = make_request ''g'' ''r'' key pr ''m'' demo_generations"

definition demo_instance :: instance_row where
  "demo_instance = \<lparr>ci_instance_id = ''one'', ci_fencing_epoch = 1, ci_started_at = 10,
     ci_heartbeat_at = 10, ci_expires_at = 110, ci_stopped_at = None, ci_status = ActiveInstance\<rparr>"

definition demo_job :: "JobState \<Rightarrow> int \<Rightarrow> int \<Rightarrow> job_row" where
  "demo_job s n updated =
     (new_job (demo_env 20) ''j1'' (demo_request ''k'' Manual) ''c'' (replicate 64 (CHR ''a''))
        (replicate 64 (CHR ''f'')) 100)\<lparr>j_state := s, j_current_attempt := n, j_updated_at := updated\<rparr>"

definition demo_attempt :: attempt_row where
  "demo_attempt = new_attempt (demo_env 30) ''one'' 1 (demo_job Queued 0 20)"

definition demo_lease :: lease_row where
  "demo_lease = new_lease (demo_env 30) ''one'' 1 100 (demo_job Queued 0 20)"

definition demo_claim :: JobClaim where
  "demo_claim = claim_of (demo_env 30) ''one'' 1 (demo_job Queued 0 20)"

definition demo_db :: "job_row option \<Rightarrow> bool \<Rightarrow> control_db" where
  \<comment> \<open>the job, if it is there, and whether it is claimed\<close>
  "demo_db job claimed = empty_db\<lparr>singleton := Some demo_instance,
     jobs := (case job of None \<Rightarrow> [] | Some j \<Rightarrow> [(''j1'', j)]),
     attempts := (if claimed then [((''j1'', 1), demo_attempt)] else []),
     leases := (if claimed then [(''g'', demo_lease)] else [])\<rparr>"

definition demo_owned :: control_db where "demo_owned = demo_db None False"
definition demo_queued :: control_db where "demo_queued = demo_db (Some (demo_job Queued 0 20)) False"
definition demo_claimed :: control_db where "demo_claimed = demo_db (Some (demo_job Claimed 1 30)) True"
definition demo_starting :: control_db where "demo_starting = demo_db (Some (demo_job Starting 1 40)) True"
definition demo_running :: control_db where "demo_running = demo_db (Some (demo_job Running 1 45)) True"

definition demo_taken :: control_db where
  \<comment> \<open>a second instance took over after the first one's lease expired\<close>
  "demo_taken = demo_running\<lparr>singleton := Some (demo_instance\<lparr>ci_instance_id := ''two'',
     ci_fencing_epoch := 2, ci_started_at := 500, ci_heartbeat_at := 500, ci_expires_at := 600\<rparr>)\<rparr>"

definition demo_marker :: marker_row where
  "demo_marker = new_marker (demo_env 50) demo_claim ''run'' demo_generations ''committed''"

definition demo_published :: control_db where
  "demo_published = demo_running\<lparr>markers := [((''j1'', 1), demo_marker)]\<rparr>"

definition demo_succeeded :: control_db where
  "demo_succeeded = demo_published\<lparr>
     jobs := [(''j1'', cas_job (demo_env 55) Succeeded (Some Committed) None (demo_job Running 1 45))],
     attempts := [((''j1'', 1), cas_attempt (demo_env 55) Succeeded (Some Committed) None None demo_attempt)]\<rparr>"

definition demo_waiting_job :: job_row where
  "demo_waiting_job = cas_job (demo_env 50) ReconciliationRequired (Some NotStarted) (Some ''transient'')
     (demo_job Running 1 45)"

definition demo_waiting_attempt :: attempt_row where
  "demo_waiting_attempt = cas_attempt (demo_env 50) ReconciliationRequired (Some NotStarted)
     (Some ''transient'') None demo_attempt"

definition demo_unreconciled :: control_db where
  "demo_unreconciled = demo_running\<lparr>jobs := [(''j1'', demo_waiting_job)],
     attempts := [((''j1'', 1), demo_waiting_attempt)]\<rparr>"

definition demo_waiting :: control_db where
  \<comment> \<open>the worker stopped without publishing and its termination is recorded\<close>
  "demo_waiting = demo_unreconciled\<lparr>
     attempts := [((''j1'', 1), demo_waiting_attempt\<lparr>a_finished_at := Some 52\<rparr>)]\<rparr>"

lemma demo_request_valid: "validate_request (demo_request ''k'' Manual) = Inr (demo_request ''k'' Manual)"
  by code_simp

lemma demo_requester_valid: "safe_category ''c'' ''requester'' = Inr ''c''"
  by code_simp

lemma demo_acquire: "acquire_singleton (demo_env 10) ''one'' 100 empty_db = Inr (1, demo_owned)"
  by code_simp

lemma demo_submit_transaction:
  "submit_transaction (demo_env 20) demo_sha256 ''j1'' (demo_request ''k'' Manual) ''c'' DEFAULT_LIMITS
     demo_owned = Inr (\<lparr>sr_job_id = ''j1'', sr_state = Queued, sr_replayed = False\<rparr>, demo_queued)"
  by code_simp

lemma demo_submit:
  "submit (demo_env 20) demo_sha256 ''j1'' (demo_request ''k'' Manual) ''c'' DEFAULT_LIMITS None (Inr ())
     demo_owned = Inr (\<lparr>sr_job_id = ''j1'', sr_state = Queued, sr_replayed = False\<rparr>, demo_queued)"
  by (simp add: submit_def demo_request_valid demo_requester_valid demo_submit_transaction
      check_deadline_def deadline_milliseconds_def require_transaction_admission_def demo_env_def
      translate_lock_timeout_def demo_submit_transaction [unfolded demo_env_def])

lemma demo_claim_step:
  "claim_once (demo_env 30) ''one'' 1 100 (max_retry_attempts DEFAULT_LIMITS) False demo_queued
     = Inr (Some demo_claim, demo_claimed)"
  by code_simp

lemma demo_start:
  "compare_and_set_state (demo_env 40) ''j1'' Claimed Starting 1 ''one'' 1 None None None demo_claimed
     = Inr (True, demo_starting)"
  by code_simp

lemma demo_run:
  "compare_and_set_state (demo_env 45) ''j1'' Starting Running 1 ''one'' 1 None None None demo_starting
     = Inr (True, demo_running)"
  by code_simp

lemma demo_queued_reachable: "reachable DEFAULT_LIMITS demo_sha256 (demo_queued, {})"
proof -
  have "store_step DEFAULT_LIMITS demo_sha256 initial (demo_owned, {})"
    unfolding initial_def by (rule store_step.acquire [OF demo_acquire])
  moreover have "store_step DEFAULT_LIMITS demo_sha256 (demo_owned, {}) (demo_queued, {})"
    by (rule store_step.submit [OF demo_submit]) simp
  ultimately show ?thesis
    unfolding reachable_def by (meson rtranclp.rtrancl_into_rtrancl rtranclp.rtrancl_refl)
qed

lemma demo_reachable: "reachable DEFAULT_LIMITS demo_sha256 (demo_running, {demo_claim})"
proof -
  let ?step = "store_step DEFAULT_LIMITS demo_sha256"
  have "?step (demo_queued, {}) (demo_claimed, {demo_claim})"
    by (rule store_step.claim [OF demo_claim_step])
  moreover have "?step (demo_claimed, {demo_claim}) (demo_starting, {demo_claim})"
    by (rule store_step.compare_and_set [OF demo_start]) simp
  moreover have "?step (demo_starting, {demo_claim}) (demo_running, {demo_claim})"
    by (rule store_step.compare_and_set [OF demo_run]) simp
  ultimately show ?thesis
    using demo_queued_reachable unfolding reachable_def by (meson rtranclp.rtrancl_into_rtrancl)
qed

lemma demo_takeover: "acquire_singleton (demo_env 500) ''two'' 100 demo_running = Inr (2, demo_taken)"
  by code_simp

lemma demo_publish:
  "record_publication_marker (demo_env 50) demo_claim ''run'' demo_generations ''committed'' demo_running
     = Inr (True, demo_published)"
  by code_simp

lemma demo_succeed:
  "compare_and_set_state (demo_env 55) ''j1'' Running Succeeded 1 ''one'' 1 (Some Committed) None None
     demo_published = Inr (True, demo_succeeded)"
  by code_simp

lemma demo_succeeded_reachable: "reachable DEFAULT_LIMITS demo_sha256 (demo_succeeded, {demo_claim})"
proof -
  have "store_step DEFAULT_LIMITS demo_sha256 (demo_running, {demo_claim}) (demo_published, {demo_claim})"
    by (rule store_step.marker [OF demo_publish]) simp
  moreover have "store_step DEFAULT_LIMITS demo_sha256 (demo_published, {demo_claim}) (demo_succeeded, {demo_claim})"
    by (rule store_step.compare_and_set [OF demo_succeed]) simp
  ultimately show ?thesis
    using demo_reachable unfolding reachable_def by (meson rtranclp.rtrancl_into_rtrancl)
qed

lemma demo_wait:
  "mark_reconciliation_required (demo_env 50) demo_claim Running ''transient'' None NotStarted demo_running
     = Inr (True, demo_unreconciled)"
  by code_simp

lemma demo_terminate:
  "mark_attempt_terminated (demo_env 52) demo_claim True ''one'' 1 None demo_unreconciled
     = Inr (True, demo_waiting)"
  by code_simp

lemma demo_waiting_reachable: "reachable DEFAULT_LIMITS demo_sha256 (demo_waiting, {demo_claim})"
proof -
  have "compare_and_set_state (demo_env 50) (c_job_id demo_claim) Running ReconciliationRequired
      (c_attempt demo_claim) (c_instance_id demo_claim) (c_fencing_epoch demo_claim) (Some NotStarted)
      (Some ''transient'') None demo_running = Inr (True, demo_unreconciled)"
    using demo_wait by (simp add: mark_reconciliation_required_def)
  then have "store_step DEFAULT_LIMITS demo_sha256 (demo_running, {demo_claim}) (demo_unreconciled, {demo_claim})"
    by (rule store_step.compare_and_set) simp
  moreover have "store_step DEFAULT_LIMITS demo_sha256 (demo_unreconciled, {demo_claim}) (demo_waiting, {demo_claim})"
    by (rule store_step.terminated [OF demo_terminate]) simp
  ultimately show ?thesis
    using demo_reachable unfolding reachable_def by (meson rtranclp.rtrancl_into_rtrancl)
qed

lemma demo_limits: "0 \<le> max_retry_attempts DEFAULT_LIMITS"
  by (simp add: DEFAULT_LIMITS_def)

end
