(* ===== verification/Control_Safety.thy ===== *)
theory Control_Safety
  imports Control_Example
begin

text \<open>
  What the control store guarantees in every reachable state, whatever coordinators run against it.
\<close>

section \<open>The fencing contract\<close>

text \<open>
  An operation a coordinator calls with its instance and fencing epoch is bound to its epoch when it
  leaves the database alone unless the singleton row is that instance's with that epoch and active; it
  is fenced when the row must also be unexpired at the time of the transaction. The operations that
  read the clock themselves, after waiting for locks, and the stop of the singleton have the first
  contract, the others the second.
\<close>

locale epoch_bound =
  fixes call :: "tx_env \<Rightarrow> string \<Rightarrow> int \<Rightarrow> control_db \<Rightarrow> ('r \<times> control_db) result"
  assumes holder_only: "call env iid ep db = Inr (r, db') \<Longrightarrow> (\<And>t. \<not> live_owner t iid ep db) \<Longrightarrow> db' = db"
begin

lemma stale_epoch:
  assumes "call env iid ep db = Inr (r, db')" and "singleton db = Some c" and "ci_fencing_epoch c \<noteq> ep"
  shows "db' = db"
  using assms holder_only by (auto simp: live_owner_def)

end

locale fenced =
  fixes call :: "tx_env \<Rightarrow> string \<Rightarrow> int \<Rightarrow> control_db \<Rightarrow> ('r \<times> control_db) result"
  assumes owner_only: "call env iid ep db = Inr (r, db') \<Longrightarrow> \<not> live_owner (tx_now env) iid ep db \<Longrightarrow> db' = db"
begin

lemma expired:
  assumes "call env iid ep db = Inr (r, db')" and "singleton db = Some c" and "ci_expires_at c \<le> tx_now env"
  shows "db' = db"
  using assms owner_only by (auto simp: live_owner_def)

end

sublocale fenced \<subseteq> epoch_bound call
  by unfold_locales (rule owner_only)

lemma require_live_owner_Inr [result_simps]:
  "require_live_owner env iid ep db = Inr u \<longleftrightarrow> live_owner (tx_now env) iid ep db"
  by (simp add: require_live_owner_def result_simps)

interpretation claim_call: fenced "\<lambda>env iid ep. claim_once env iid ep secs mx automatic"
  for secs mx automatic
  by unfold_locales (auto simp: claim_once_def result_simps)

interpretation cas_call: fenced "\<lambda>env iid ep. compare_and_set_state env k s t n iid ep p e d"
  for k s t n p e d
  by unfold_locales (auto simp: cas_allowed_def elim!: compare_and_set_state_cases)

interpretation heartbeat_call:
  fenced "\<lambda>env iid ep. heartbeat_attempt env limits (c\<lparr>c_instance_id := iid, c_fencing_epoch := ep\<rparr>) ttl ph cnt tot"
  for limits c ttl ph cnt tot
  by unfold_locales (auto simp: heartbeat_attempt_def result_simps)

interpretation retry_call:
  fenced "\<lambda>env iid ep. schedule_retry env (c\<lparr>c_instance_id := iid, c_fencing_epoch := ep\<rparr>) s delay cat mx d"
  for c s delay cat mx d
  by unfold_locales (auto simp: schedule_retry_def result_simps)

interpretation terminated_call: fenced "\<lambda>env ri re. mark_attempt_terminated env c pr ri re d" for c pr d
  by unfold_locales (auto simp: mark_attempt_terminated_def result_simps)

interpretation reconcile_call: fenced "\<lambda>env ri re. reconcile_publication env c mx ri re u" for c mx u
  by unfold_locales (auto simp: reconcile_publication_def result_simps)

interpretation recover_call: fenced "\<lambda>env iid ep. recover_abandoned_attempts env iid ep limit" for limit
  by unfold_locales (auto simp: recover_abandoned_attempts_def result_simps)

interpretation release_call: fenced "\<lambda>env ri re. release_graph_lease env g k n oi oe ri re" for g k n oi oe
  by unfold_locales
     (auto simp: release_graph_lease_def delete_lease_def split: option.splits if_splits)

interpretation singleton_call: fenced "\<lambda>env iid ep. heartbeat_singleton env iid ep ttl" for ttl
  by unfold_locales (auto simp: heartbeat_singleton_def result_simps split: option.splits if_splits)

lemma live_before_expiry:
  "singleton db = Some c \<Longrightarrow> ci_instance_id c = iid \<Longrightarrow> ci_fencing_epoch c = ep
   \<Longrightarrow> ci_status c = ActiveInstance \<Longrightarrow> live_owner (ci_expires_at c - 1) iid ep db"
  by (simp add: live_owner_def)

interpretation stop_call: epoch_bound "\<lambda>env iid ep. stop_singleton env iid ep"
  by unfold_locales
     (auto simp: stop_singleton_def split: option.splits if_splits dest: live_before_expiry)

lemma no_holder_no_authority:
  "(\<And>t. \<not> live_owner t ri re db) \<Longrightarrow> lock_and_validate_current_durable env c ri re r lg d db = None"
  by (simp add: lock_and_validate_current_durable_def)

interpretation consume_call: epoch_bound "\<lambda>env iid ep.
    in_process_currency_context env locks (c\<lparr>c_instance_id := iid, c_fencing_epoch := ep\<rparr>) odg decide"
  for locks c odg decide
  by unfold_locales (auto simp: no_holder_no_authority elim!: in_process_currency_context_Inr)

interpretation close_call: epoch_bound "\<lambda>env ri re. execute_durable_closure env clk locks c ri re fence closer"
  for clk locks c fence closer
  by unfold_locales
     (auto simp: closure_context_def result_simps no_holder_no_authority elim!: execute_durable_closure_cases)

interpretation quarantine_call: epoch_bound "\<lambda>env ri re. quarantine_legacy_attempt env clk locks c ri re fence"
  for clk locks c fence
  by unfold_locales (auto simp: result_simps no_holder_no_authority elim!: quarantine_legacy_attempt_cases)

section \<open>Epochs\<close>

lemma singleton_epoch_step:
  assumes "store_step limits sha256 (db, C) (db', C')" and "system_inv limits (db, C)"
    and "0 \<le> max_retry_attempts limits" and "singleton db = Some c"
  shows "\<exists>c'. singleton db' = Some c' \<and> ci_fencing_epoch c \<le> ci_fencing_epoch c'"
  using step_advances [OF assms(1-3)] assms(4)
  unfolding advances_def forgets_def by (fastforce dest: evolvesD(5) simp: singleton_evolves_def)

lemma singleton_epoch_run:
  assumes "(store_step limits sha256)\<^sup>*\<^sup>* s t" and "system_inv limits s"
    and "0 \<le> max_retry_attempts limits" and "singleton (fst s) = Some c"
  shows "\<exists>c'. singleton (fst t) = Some c' \<and> ci_fencing_epoch c \<le> ci_fencing_epoch c'"
  using assms
proof (induction rule: rtranclp_induct)
  case (step t u)
  have inv: "system_inv limits t" using run_system_inv [OF step.hyps(1) step.prems(1,2)] .
  obtain db C where t: "t = (db, C)" by (cases t)
  obtain db' C' where u: "u = (db', C')" by (cases u)
  from step obtain c' where c': "singleton db = Some c'" "ci_fencing_epoch c \<le> ci_fencing_epoch c'"
    unfolding t by auto
  from singleton_epoch_step [OF step.hyps(2) [unfolded t u] inv [unfolded t] step.prems(2) c'(1)] c'(2)
  show ?case unfolding u by auto
qed simp

section \<open>Mutual exclusion\<close>

text \<open>
  Claim C1 (graph mutual exclusion): in every reachable state at most one attempt per graph is
  current. Two attempts that are both current and belong to jobs of the same graph are the same
  attempt, and the lease of the graph names it with its owner's instance and fencing epoch.
\<close>

theorem one_current_attempt_per_graph:
  assumes "reachable limits sha256 (db, C)" and "0 \<le> max_retry_attempts limits"
    and "map_of (attempts db) (k, n) = Some a" and "a_is_current a" and "map_of (jobs db) k = Some j"
    and "map_of (attempts db) (k', n') = Some a'" and "a_is_current a'" and "map_of (jobs db) k' = Some j'"
    and "j_graph_id j = j_graph_id j'"
  shows "(k, n) = (k', n') \<and> (\<exists>l. map_of (leases db) (j_graph_id j) = Some l \<and> gl_job_id l = k
    \<and> gl_attempt l = n \<and> gl_instance_id l = a_instance_id a \<and> gl_fencing_epoch l = a_fencing_epoch a)"
proof -
  have inv: "store_inv (max_retry_attempts limits) db" using reachable_store_inv [OF assms(1,2)] by simp
  have cur: "active (j_state j) \<and> n = j_current_attempt j" "active (j_state j') \<and> n' = j_current_attempt j'"
    using attempts_okD [OF inv_maps_parts(4) [OF store_inv_maps [OF inv]]] assms
    by (auto simp: attempt_ok_def)
  obtain l b where l: "map_of (leases db) (j_graph_id j) = Some l" "gl_job_id l = k"
    "gl_attempt l = j_current_attempt j" "map_of (attempts db) (k, j_current_attempt j) = Some b" "same_owner b l"
    using store_inv_leased [OF inv assms(5)] cur(1) by blast
  obtain l' where "map_of (leases db) (j_graph_id j') = Some l'" "gl_job_id l' = k'"
    "gl_attempt l' = j_current_attempt j'"
    using store_inv_leased [OF inv assms(8)] cur(2) by blast
  with l cur assms(3,9) show ?thesis by (auto simp: same_owner_def)
qed

theorem one_current_attempt_per_graph_witness:
  "(''j1'', 1 :: int) = (''j1'', 1) \<and> (\<exists>l. map_of (leases demo_running) (j_graph_id (demo_job Running 1 45)) = Some l
    \<and> gl_job_id l = ''j1'' \<and> gl_attempt l = 1 \<and> gl_instance_id l = a_instance_id demo_attempt
    \<and> gl_fencing_epoch l = a_fencing_epoch demo_attempt)"
  by (rule one_current_attempt_per_graph [OF demo_reachable demo_limits, where a = demo_attempt
        and a' = demo_attempt and j = "demo_job Running 1 45" and j' = "demo_job Running 1 45"])
     (simp_all add: demo_running_def demo_db_def demo_attempt_def new_attempt_def)

section \<open>Fencing\<close>

lemma acquire_epoch:
  assumes "store_inv m db" and "acquire_singleton env iid ttl db = Inr (e, db')"
  shows "singleton db' = Some c \<Longrightarrow> ci_fencing_epoch c = e \<and> ci_instance_id c = iid"
    and "\<exists>c. singleton db' = Some c" and "0 < e"
    and "singleton db = Some c \<Longrightarrow> ci_fencing_epoch c < e"
  using assms(2) store_inv_epoch [OF assms(1)]
  by (cases "singleton db"; force simp: acquire_singleton_def result_simps split: if_splits)+

text \<open>
  Claim C6 (epochs grow): taking over the singleton gives an epoch above that of every attempt in
  the table and of every lease, and the new owner is live with it.
\<close>

theorem takeover_epoch_is_new:
  assumes "reachable limits sha256 (db, C)" and "0 \<le> max_retry_attempts limits"
    and "acquire_singleton env iid ttl db = Inr (e, db')"
  shows "(\<forall>k a. map_of (attempts db) k = Some a \<longrightarrow> a_fencing_epoch a < e)
    \<and> (\<forall>g l. map_of (leases db) g = Some l \<longrightarrow> gl_fencing_epoch l < e)
    \<and> live_owner (tx_now env) iid e db'"
proof -
  have inv: "store_inv (max_retry_attempts limits) db" using reachable_store_inv [OF assms(1,2)] by simp
  have att: "a_fencing_epoch a < e" if h: "map_of (attempts db) k = Some a" for k a
  proof -
    obtain c where "singleton db = Some c" "a_fencing_epoch a \<le> ci_fencing_epoch c"
      using inv_maps_parts(7) [OF store_inv_maps [OF inv]] h unfolding epochs_ok_def by blast
    with acquire_epoch(4) [OF inv assms(3)] show ?thesis by fastforce
  qed
  moreover have "gl_fencing_epoch l < e" if h: "map_of (leases db) g = Some l" for g l
  proof -
    obtain a where "map_of (attempts db) (gl_job_id l, gl_attempt l) = Some a" "same_owner a l"
      using inv_maps_parts(5) [OF store_inv_maps [OF inv]] h unfolding leases_ok_def lease_ok_def by blast
    with att show ?thesis unfolding same_owner_def by metis
  qed
  moreover have "live_owner (tx_now env) iid e db'"
    using assms(3)
    by (cases "singleton db") (auto simp: acquire_singleton_def positive_seconds_def live_owner_def
        result_simps split: if_splits)
  ultimately show ?thesis by blast
qed

theorem takeover_epoch_is_new_witness:
  "a_fencing_epoch demo_attempt < 2 \<and> gl_fencing_epoch demo_lease < 2 \<and> live_owner 500 ''two'' 2 demo_taken"
proof -
  have "map_of (attempts demo_running) (''j1'', 1) = Some demo_attempt"
    "map_of (leases demo_running) ''g'' = Some demo_lease" "tx_now (demo_env 500) = 500"
    by (simp_all add: demo_running_def demo_db_def demo_env_def)
  then show ?thesis using takeover_epoch_is_new [OF demo_reachable demo_limits demo_takeover] by metis
qed

text \<open>
  Claim C2 (stale coordinators are fenced): once an instance has taken over the singleton with epoch
  \<open>e\<close>, then, whatever transactions follow, none of the operations that carry the caller's instance and
  fencing epoch changes the database when that epoch is older: not a claim, a state transition, an
  attempt heartbeat, a retry, the evidence that a process ended, a reconciliation, a recovery, a lease
  release, the registration of a launch, the use of a registration, a durable closure, a quarantine of
  a legacy attempt, a heartbeat of the singleton lease or a stop of it. The one operation that acts for
  a claim without checking the epoch is the recording of a publication marker: it leaves every marker
  there is as it is and every other table alone, and at most adds the marker of its own attempt.
\<close>

theorem stale_coordinator_fenced:
  assumes "reachable limits sha256 (db0, C0)" and "0 \<le> max_retry_attempts limits"
    and "acquire_singleton env0 iid0 ttl0 db0 = Inr (e, db1)"
    and "(store_step limits sha256)\<^sup>*\<^sup>* (db1, C0) (db, C)" and "ep < e"
    and "c0 = c\<lparr>c_instance_id := iid, c_fencing_epoch := ep\<rparr>"
  shows "(claim_once env iid ep secs mx auto db = Inr (r1, db') \<longrightarrow> db' = db)
    \<and> (compare_and_set_state env k s t n iid ep p err d db = Inr (r2, db') \<longrightarrow> db' = db)
    \<and> (heartbeat_attempt env limits c0 ttl ph cnt tot db = Inr (r3, db') \<longrightarrow> db' = db)
    \<and> (schedule_retry env c0 s delay cat mx d db = Inr (r4, db') \<longrightarrow> db' = db)
    \<and> (reconcile_publication env c mx iid ep u db = Inr (r5, db') \<longrightarrow> db' = db)
    \<and> (recover_abandoned_attempts env iid ep limit db = Inr (r6, db') \<longrightarrow> db' = db)
    \<and> (release_graph_lease env g k n oi oe iid ep db = Inr (r7, db') \<longrightarrow> db' = db)
    \<and> (heartbeat_singleton env iid ep ttl db = Inr (r8, db') \<longrightarrow> db' = db)
    \<and> (stop_singleton env iid ep db = Inr (r9, db') \<longrightarrow> db' = db)
    \<and> (mark_attempt_terminated env c pr iid ep d db = Inr (r10, db') \<longrightarrow> db' = db)
    \<and> (persist_supervisor_registration env locks c0 dg db = Inr db' \<longrightarrow> db' = db)
    \<and> (in_process_currency_context env locks c0 odg decide db = Inr (r11, db') \<longrightarrow> db' = db)
    \<and> (execute_durable_closure env clk locks c iid ep fence closer db = Inr (r12, db') \<longrightarrow> db' = db)
    \<and> (quarantine_legacy_attempt env clk locks c iid ep fence db = Inr (r13, db') \<longrightarrow> db' = db)
    \<and> (record_publication_marker env c0 run gens outcome db = Inr (r14, db') \<longrightarrow>
         db'\<lparr>markers := markers db\<rparr> = db
         \<and> (\<forall>key mk. map_of (markers db) key = Some mk \<longrightarrow> map_of (markers db') key = Some mk)
         \<and> (\<forall>key. key \<noteq> claim_key c \<longrightarrow> map_of (markers db') key = map_of (markers db) key))"
proof -
  have inv0: "system_inv limits (db0, C0)" using reachable_system_inv [OF assms(1,2)] .
  then have si0: "store_inv (max_retry_attempts limits) db0" by (simp add: system_inv_def)
  have inv1: "system_inv limits (db1, C0)"
    using step_system_inv [OF store_step.acquire [OF assms(3)] inv0 assms(2)] .
  obtain c1 where c1: "singleton db1 = Some c1" "ci_fencing_epoch c1 = e"
    using acquire_epoch(1,2) [OF si0 assms(3)] by blast
  obtain c2 where c2: "singleton db = Some c2" "e \<le> ci_fencing_epoch c2"
    using singleton_epoch_run [OF assms(4) inv1 assms(2), of c1] c1 by auto
  with assms(5) have ne: "ci_fencing_epoch c2 \<noteq> ep" by simp
  note stale = claim_call.stale_epoch cas_call.stale_epoch heartbeat_call.stale_epoch
    retry_call.stale_epoch reconcile_call.stale_epoch recover_call.stale_epoch release_call.stale_epoch
    singleton_call.stale_epoch stop_call.stale_epoch terminated_call.stale_epoch consume_call.stale_epoch
    close_call.stale_epoch quarantine_call.stale_epoch
  have register: "db' = db" if "persist_supervisor_registration env locks c0 dg db = Inr db'"
    using that
    by (rule persist_supervisor_registration_Inr)
       (use c2(1) ne in \<open>auto simp: assms(6) live_owner_def dest!: durable_Some(1)\<close>)
  have marker: "db'\<lparr>markers := markers db\<rparr> = db
      \<and> (\<forall>key mk. map_of (markers db) key = Some mk \<longrightarrow> map_of (markers db') key = Some mk)
      \<and> (\<forall>key. key \<noteq> claim_key c \<longrightarrow> map_of (markers db') key = map_of (markers db) key)"
    if "record_publication_marker env c0 run gens outcome db = Inr (r14, db')"
    using that by (rule record_publication_marker_cases) (auto simp: assms(6) claim_key_def)
  show ?thesis
    unfolding assms(6)
    by (intro conjI; rule impI; (erule stale [OF _ c2(1) ne] register [unfolded assms(6)] marker [unfolded assms(6)]))
qed

theorem stale_coordinator_fenced_witness:
  "compare_and_set_state (demo_env 510) ''j1'' Running Failed 1 ''one'' 1 (Some NotStarted) None None
     demo_taken = Inr (False, demo_taken)"
proof -
  have "\<exists>db'. compare_and_set_state (demo_env 510) ''j1'' Running Failed 1 ''one'' 1 (Some NotStarted) None
      None demo_taken = Inr (False, db')"
    by (rule exI [of _ demo_taken]) code_simp
  moreover have "(1 :: int) < 2" by simp
  note stale_coordinator_fenced [OF demo_reachable demo_limits demo_takeover rtranclp.rtrancl_refl this refl,
      THEN conjunct2, THEN conjunct1]
  ultimately show ?thesis by metis
qed

section \<open>Outcomes\<close>

text \<open>
  Claim C3 (no success without publication): in every reachable state a succeeded job has a
  publication marker of its last attempt that says committed, for its own graph and generations, and
  its publication state is committed.
\<close>

theorem success_is_published:
  assumes "reachable limits sha256 (db, C)" and "0 \<le> max_retry_attempts limits"
    and "map_of (jobs db) k = Some j" and "j_state j = Succeeded"
  shows "committed_marker (map_of (markers db)) k j \<and> j_publication_state j = Committed"
proof -
  have inv: "store_inv (max_retry_attempts limits) db" using reachable_store_inv [OF assms(1,2)] by simp
  show ?thesis
    using inv_maps_parts(2,8) [OF store_inv_maps [OF inv]] assms(3,4)
    by (auto simp: success_ok_def jobs_ok_def job_checks_def)
qed

theorem success_is_published_witness:
  "\<exists>j. committed_marker (map_of (markers demo_succeeded)) ''j1'' j \<and> j_publication_state j = Committed"
proof -
  have "\<exists>j. map_of (jobs demo_succeeded) ''j1'' = Some j \<and> j_state j = Succeeded"
    by (simp add: demo_succeeded_def)
  then show ?thesis using success_is_published [OF demo_succeeded_reachable demo_limits] by blast
qed

text \<open>
  Claim C11 (attempts are bounded): in every reachable state a job has used at most the configured
  number of attempts, every attempt of it is numbered between 1 and its counter, and the counter only
  reaches the limit through claims of queued jobs below it.
\<close>

theorem attempts_are_bounded:
  assumes "reachable limits sha256 (db, C)" and "0 \<le> max_retry_attempts limits"
    and "map_of (attempts db) (k, n) = Some a"
  shows "\<exists>j. map_of (jobs db) k = Some j \<and> 1 \<le> n \<and> n \<le> j_current_attempt j
    \<and> j_current_attempt j \<le> max_retry_attempts limits"
proof -
  have inv: "store_inv (max_retry_attempts limits) db" using reachable_store_inv [OF assms(1,2)] by simp
  obtain j where j: "map_of (jobs db) k = Some j" "attempt_ok j n a"
    using store_inv_attempt_job [OF inv assms(3)] by blast
  with jobs_okD(2) [OF inv_maps_parts(2) [OF store_inv_maps [OF inv]] j(1)] store_inv_attempt [OF inv assms(3)]
  show ?thesis by (auto simp: attempt_ok_def attempt_checks_def)
qed

theorem attempts_are_bounded_witness:
  "\<exists>j. map_of (jobs demo_running) ''j1'' = Some j \<and> 1 \<le> (1 :: int) \<and> 1 \<le> j_current_attempt j
    \<and> j_current_attempt j \<le> max_retry_attempts DEFAULT_LIMITS"
  by (rule attempts_are_bounded [OF demo_reachable demo_limits, where a = demo_attempt])
     (simp add: demo_running_def demo_db_def)

end
