(* ===== verification/Control_Properties.thy ===== *)
theory Control_Properties
  imports Control_Safety
begin

text \<open>
  What the single transactions of the control store guarantee: that they decide rather than fail on
  reachable databases, the evidence behind every reconciliation, idempotent and bounded admission,
  one-use launch registration, and what retention may remove.
\<close>

section \<open>Reconciliation decides\<close>

lemma reachable_claim:
  assumes "reachable limits sha256 (db, C)" and "0 \<le> max_retry_attempts limits" and "c \<in> C"
  shows "store_inv (max_retry_attempts limits) db" and "claim_ok db c"
  using reachable_system_inv [OF assms(1,2)] assms(3) by (simp_all add: system_inv_def)

lemma job_checks_move:
  assumes "job_checks j" and "j_schema_version j' = j_schema_version j" and "j_job_kind j' = j_job_kind j"
    and "j_idempotency_digest j' = j_idempotency_digest j"
    and "j_request_fingerprint j' = j_request_fingerprint j" and "j_priority_value j' = j_priority_value j"
    and "j_phase j' = j_phase j" and "j_progress_completed j' = j_progress_completed j"
    and "j_progress_total j' = j_progress_total j" and "0 \<le> j_current_attempt j'"
    and "j_state j' = Succeeded \<Longrightarrow> j_publication_state j' = Committed"
    and "j_state j' \<in> {Failed, Cancelled, Superseded} \<Longrightarrow> safe_unpublished (j_publication_state j')"
    and "j_state j' = Queued \<Longrightarrow> j_publication_state j' \<noteq> CommitUnknown"
  shows "job_checks j'"
  using assms by (cases "j_progress_total j") (simp_all add: job_checks_def)

lemma store_inv_checks:
  assumes "store_inv m db" and "map_of (jobs db) k = Some j"
  shows "job_checks j" and "0 \<le> j_current_attempt j"
  using jobs_okD(1) [OF inv_maps_parts(2) [OF store_inv_maps [OF assms(1)]] assms(2)]
  by (simp_all add: job_checks_def)

lemma close_attempt_ok:
  assumes "map_of (attempts db) (claim_key c) = Some a" and "owned_by c a" and "attempt_checks a"
  shows "close_attempt env c p e d db = Inr (db\<lparr>attempts :=
    AList.update (claim_key c) (closed_attempt env p e d a) (attempts db)\<rparr>)"
  using assms by (simp add: close_attempt_def update_attempt_def closed_attempt_def attempt_checks_def)

lemma drop_lease_ok:
  assumes "map_of (leases db) (c_graph_id c) = Some l" and "lease_of_claim c l"
  shows "drop_lease c db = Inr (clear_running (c_graph_id c) (c_job_id c)
    (db\<lparr>leases := AList.delete (c_graph_id c) (leases db)\<rparr>))"
  using assms by (simp add: drop_lease_def delete_lease_def)

lemma close_terminal_ok:
  assumes inv: "store_inv m db" and c: "claim_ok db c"
    and j: "map_of (jobs db) (c_job_id c) = Some j"
    and a: "map_of (attempts db) (claim_key c) = Some a" "owned_by c a"
    and t: "t = Succeeded \<Longrightarrow> p = Committed" "t \<in> {Failed, Cancelled, Superseded} \<Longrightarrow> safe_unpublished p"
      "t \<noteq> Queued"
  shows "\<exists>db'. close_terminal env c t p e d db = Inr db'"
proof -
  note o = owned_job_active [OF inv a j]
  obtain l where "map_of (leases db) (c_graph_id c) = Some l" "lease_of_claim c l"
    using owned_lease [OF inv a j] c j by (auto simp: claim_ok_def)
  moreover have "job_checks (j\<lparr>j_state := t, j_publication_state := p, j_error_category := e,
      j_finished_at := Some (tx_now env), j_updated_at := tx_now env\<rparr>)"
    using store_inv_checks [OF inv j] t by (elim job_checks_move) auto
  ultimately show ?thesis
    using j o(3) a
    by (cases "j_state j = ReconciliationRequired \<and> j_current_attempt j = c_attempt c")
       (auto simp: close_terminal_def update_job_def write_job_def close_attempt_ok drop_lease_ok)
qed

lemma queue_retry_ok:
  assumes inv: "store_inv m db" and c: "claim_ok db c"
    and j: "map_of (jobs db) (c_job_id c) = Some j"
    and a: "map_of (attempts db) (claim_key c) = Some a" "owned_by c a"
  shows "\<exists>db'. queue_retry env c p db = Inr db'"
proof -
  note o = owned_job_active [OF inv a j]
  obtain l where "map_of (leases db) (c_graph_id c) = Some l" "lease_of_claim c l"
    using owned_lease [OF inv a j] c j by (auto simp: claim_ok_def)
  moreover have "job_checks (j\<lparr>j_state := Queued, j_publication_state := NotStarted,
      j_error_category := Some ''transient'', j_next_eligible_at := tx_now env + usec 1,
      j_updated_at := tx_now env\<rparr>)"
    using store_inv_checks [OF inv j] by (elim job_checks_move) auto
  ultimately show ?thesis
    using j o(3) a
    by (cases "j_state j = ReconciliationRequired \<and> j_current_attempt j = c_attempt c")
       (auto simp: queue_retry_def update_job_def write_job_def close_attempt_ok drop_lease_ok)
qed

lemma reconcile_evidence_ok:
  assumes inv: "store_inv m db" and c: "claim_ok db c"
    and j: "map_of (jobs db) (c_job_id c) = Some j"
    and a: "map_of (attempts db) (claim_key c) = Some a" "owned_by c a"
  shows "\<exists>r. reconcile_evidence env c mx u j a mk db = Inr r"
proof -
  have pc: "claim_ok (pause_graph_intent env c db) c" using c by (simp add: claim_ok_def)
  note T = close_terminal_ok [OF inv c j a, where env = env]
  note P = close_terminal_ok [OF pause_graph_intent_inv [OF inv] pc, simplified, OF j a, where env = env]
  have 1: "\<exists>db'. close_terminal env c Succeeded Committed e d db = Inr db'" for e d by (rule T) auto
  have 2: "\<exists>db'. close_terminal env c Cancelled RolledBack e d db = Inr db'" for e d by (rule T) auto
  have 3: "\<exists>db'. close_terminal env c Failed RolledBack e d db = Inr db'" for e d by (rule T) auto
  have 4: "\<exists>db'. close_terminal env c Quarantined p e d (pause_graph_intent env c db) = Inr db'" for p e d
    by (rule P) auto
  note Q = queue_retry_ok [OF inv c j a, where env = env]
  have ab: "\<exists>r. reconcile_absent env c mx u j a db = Inr r"
    unfolding reconcile_absent_def
    by (simp add: result_simps) (use 2 3 4 Q in blast)
  show ?thesis
    unfolding reconcile_evidence_def
    by (cases "marker_classification j a mk") (use ab 1 4 in \<open>auto simp: result_simps\<close>)
qed

text \<open>
  Claim C8 (reconciliation always decides): on every reachable database, a live coordinator that
  reconciles a claim the store handed out gets an outcome. No statement of the transaction fails: the
  closing update meets no constraint violation, the current attempt is closed and its lease found.
\<close>

theorem reconciliation_decides:
  assumes "reachable limits sha256 (db, C)" and "0 \<le> max_retry_attempts limits" and "c \<in> C"
    and "live_owner (tx_now env) ri re db"
  shows "\<exists>r db'. reconcile_publication env c mx ri re u db = Inr (r, db')"
proof -
  note rc = reachable_claim [OF assms(1-3)]
  show ?thesis
  proof (cases "lock_evidence c db")
    case None
    then show ?thesis using assms(4) by (simp add: reconcile_publication_def result_simps)
  next
    case (Some e)
    obtain j a mk where e: "e = (j, a, mk)" by (cases e)
    note ev = lock_evidence_Some [OF Some [unfolded e] store_inv_job_id [OF rc(1)]]
    from ev(4) have cl: "reconcile_publication env c mx ri re u db = reconcile_evidence env c mx u j a mk db"
      using assms(4) Some e by (simp add: reconcile_publication_def require_live_owner_def)
    from reconcile_evidence_ok [OF rc ev(1) _ ev(4), of env mx u mk] ev(5)
    show ?thesis unfolding cl by (simp add: claim_key_def)
  qed
qed

theorem reconciliation_decides_witness:
  "\<exists>r db'. reconcile_publication (demo_env 60) demo_claim 3 ''one'' 1 False demo_waiting = Inr (r, db')"
  by (rule reconciliation_decides [OF demo_waiting_reachable demo_limits]) code_simp+

lemma close_terminal_state:
  assumes "close_terminal env c t p e d db = Inr db'" and "store_inv m db"
    and "map_of (jobs db) (c_job_id c) = Some j" and "j_state j = ReconciliationRequired"
    and "j_current_attempt j = c_attempt c"
  shows "\<exists>j'. map_of (jobs db') (c_job_id c) = Some j' \<and> j_state j' = t \<and> j_publication_state j' = p"
    and "map_of (leases db') (c_graph_id c) = None"
  by (rule close_terminal_Inr [OF assms(1,3-5) store_inv_job_id [OF assms(2,3)]]; simp)+

lemma queue_retry_state:
  assumes "queue_retry env c p db = Inr db'" and "store_inv m db"
    and "map_of (jobs db) (c_job_id c) = Some j" and "j_state j = ReconciliationRequired"
    and "j_current_attempt j = c_attempt c"
  shows "\<exists>j'. map_of (jobs db') (c_job_id c) = Some j' \<and> j_state j' = Queued \<and> j_publication_state j' = NotStarted"
    and "map_of (leases db') (c_graph_id c) = None"
  by (rule queue_retry_Inr [OF assms(1,3-5) store_inv_job_id [OF assms(2,3)]]; simp)+

text \<open>
  Claim C4 (reconciliation follows the evidence): when a reconciliation ends an attempt with state
  \<open>t\<close>, the attempt's termination was recorded and the job is left in state \<open>t\<close> without the graph
  lease. It is a success exactly when there is a matching committed marker; and when the job is
  requeued, cancelled or failed there is no publication marker at all, neither row says
  \<^verbatim>\<open>commit_unknown\<close> and the attempt carries a storage fencing epoch.
\<close>

theorem reconciliation_follows_evidence:
  assumes "reachable limits sha256 (db, C)" and "0 \<le> max_retry_attempts limits" and "c \<in> C"
    and "reconcile_publication env c mx ri re u db = Inr (Outcome t, db')" and "t \<noteq> ReconciliationRequired"
  shows "\<exists>j a. map_of (jobs db) (c_job_id c) = Some j \<and> map_of (attempts db) (claim_key c) = Some a
    \<and> j_state j = ReconciliationRequired \<and> a_finished_at a \<noteq> None
    \<and> (t = Succeeded \<longleftrightarrow> matching_marker db j a)
    \<and> (t \<in> {Queued, Cancelled, Failed} \<longrightarrow> map_of (markers db) (claim_key c) = None
         \<and> j_publication_state j \<noteq> CommitUnknown \<and> a_publication_state a \<noteq> CommitUnknown
         \<and> 0 < a_graph_lease_epoch a)
    \<and> (\<exists>j'. map_of (jobs db') (c_job_id c) = Some j' \<and> j_state j' = t)
    \<and> map_of (leases db') (c_graph_id c) = None"
proof -
  note rc = reachable_claim [OF assms(1-3)]
  obtain j a mk where e: "lock_evidence c db = Some (j, a, mk)"
    and run: "reconcile_evidence env c mx u j a mk db = Inr (Outcome t, db')"
    using assms(4) by (auto simp: reconcile_publication_def result_simps split: option.splits)
  note ev = lock_evidence_Some [OF e store_inv_job_id [OF rc(1)]]
  have key: "(a_job_id a, a_attempt a) = claim_key c"
    using store_inv_attempt [OF rc(1) ev(5)] by (simp add: claim_key_def)
  have at: "map_of (attempts db) (claim_key c) = Some a" using ev(5) by (simp add: claim_key_def)
  have mm: "matching_marker db j a \<longleftrightarrow> marker_classification j a mk = MatchingCommitted"
    using ev(6) key
    by (auto simp: matching_marker_def marker_classification_def split: option.splits)
  have none: "marker_classification j a mk \<notin> {MatchingCommitted, Conflicting} \<Longrightarrow>
      map_of (markers db) (claim_key c) = None"
    using ev(6) key by (auto simp: marker_classification_def split: option.splits if_splits)
  note T = close_terminal_state [OF _ rc(1) ev(1-3)]
  note P = close_terminal_state [OF _ pause_graph_intent_inv [OF rc(1)], simplified, OF _ ev(1-3)]
  note Q = queue_retry_state [OF _ rc(1) ev(1-3)]
  from run show ?thesis
  proof (cases rule: reconcile_evidence_cases)
    case kept
    then show ?thesis using assms(5) by simp
  next
    case (succeeded d)
    then show ?thesis using ev(1,2) at mm T [OF succeeded(4)] by auto
  next
    case (quarantined q)
    then show ?thesis using ev(1,2) at mm P [OF quarantined(4)] by auto
  next
    case cancelled
    then show ?thesis using ev(1,2) at mm none T [OF cancelled(7)]
      by (auto simp: proved_absence_def proved_rollback_def)
  next
    case failed
    then show ?thesis using ev(1,2) at mm none T [OF failed(8)] by auto
  next
    case (queued p)
    then show ?thesis using ev(1,2) at mm none Q [OF queued(9)] by auto
  qed
qed

theorem reconciliation_follows_evidence_witness:
  "\<exists>db'. reconcile_publication (demo_env 60) demo_claim 3 ''one'' 1 False demo_waiting = Inr (Outcome Queued, db')
     \<and> map_of (markers demo_waiting) (claim_key demo_claim) = None
     \<and> map_of (leases db') (c_graph_id demo_claim) = None"
proof -
  have "yields (Outcome Queued) (reconcile_publication (demo_env 60) demo_claim 3 ''one'' 1 False demo_waiting)"
    by code_simp
  from yieldsD [OF this] obtain db' where run: "reconcile_publication (demo_env 60) demo_claim 3 ''one'' 1 False
      demo_waiting = Inr (Outcome Queued, db')" ..
  have "demo_claim \<in> {demo_claim}" by simp
  from reconciliation_follows_evidence [OF demo_waiting_reachable demo_limits this run] run
  show ?thesis by (metis JobState.distinct insertI1)
qed

section \<open>Claiming\<close>

lemma insert_attempt_ok:
  assumes "attempt_checks a" and "map_of (attempts db) (a_job_id a, a_attempt a) = None"
    and "\<And>k r. (k, r) \<in> set (attempts db) \<Longrightarrow> a_job_id r = a_job_id a \<Longrightarrow> \<not> a_is_current r"
    and "map_of (jobs db) (a_job_id a) \<noteq> None"
  shows "insert_attempt a db = Inr (db\<lparr>attempts := AList.update (a_job_id a, a_attempt a) a (attempts db)\<rparr>)"
  using assms by (auto simp: insert_attempt_def Let_def list_ex_iff)

lemma insert_lease_ok:
  assumes "lease_checks l" and "map_of (leases db) (gl_graph_id l) = None"
    and "\<And>k r. (k, r) \<in> set (leases db) \<Longrightarrow> gl_job_id r \<noteq> gl_job_id l"
    and "map_of (attempts db) (gl_job_id l, gl_attempt l) \<noteq> None"
  shows "insert_lease l db = Inr (db\<lparr>leases := AList.update (gl_graph_id l) l (leases db)\<rparr>)"
  using assms by (auto simp: insert_lease_def list_ex_iff)

lemma claim_once_ok:
  assumes inv: "store_inv m db" and live: "live_owner (tx_now env) iid ep db" and adm: "tx_admitted env"
    and xid: "0 \<le> tx_xid env" and nc: "next_claimable env mx auto db = Some j"
    and k: "map_of (jobs db) k = Some j"
  shows "\<exists>db'. claim_once env iid ep secs mx auto db = Inr (Some (claim_of env iid ep j), db')
    \<and> map_of (jobs db') k = Some (j\<lparr>j_state := Claimed, j_current_attempt := j_current_attempt j + 1,
        j_updated_at := tx_now env\<rparr>)
    \<and> map_of (leases db') (j_graph_id j) = Some (new_lease env iid ep secs j)"
proof -
  have tab: "tables_ok db" and tj: "table_ok (jobs db)" using inv by (simp_all add: store_inv_def tables_ok_def)
  note im = store_inv_maps [OF inv] and jk = store_inv_job_id [OF inv k]
  have q: "j_state j = Queued" "map_of (leases db) (j_graph_id j) = None"
    using next_claimable_Some(2) [OF nc tj] by (auto simp: claimable_def)
  have ep: "0 < ep" using live_owner_singleton [OF live] store_inv_epoch [OF inv] by auto
  have att: "n \<le> j_current_attempt j \<and> \<not> a_is_current a" if "map_of (attempts db) (k, n) = Some a" for n a
    using attempts_okD [OF inv_maps_parts(4) [OF im] that k] q(1) by (simp add: attempt_ok_def)
  have free: "map_of (attempts db) (k, j_current_attempt j + 1) = None"
    using att by (cases "map_of (attempts db) (k, j_current_attempt j + 1)") fastforce+
  let ?db1 = "db\<lparr>attempts := AList.update (k, j_current_attempt j + 1) (new_attempt env iid ep j) (attempts db)\<rparr>"
  have ia: "insert_attempt (new_attempt env iid ep j) db = Inr ?db1"
  proof (subst insert_attempt_ok)
    fix key r assume r: "(key, r) \<in> set (attempts db)" "a_job_id r = a_job_id (new_attempt env iid ep j)"
    then have m: "map_of (attempts db) key = Some r" using tab by (simp add: tables_ok_def table_row_iff)
    then have "key = (k, a_attempt r)"
      using r(2) jk inv_maps_parts(1) [OF im] unfolding keys_ok_def by (metis new_attempt_def attempt_row.select_convs(1))
    with m att show "\<not> a_is_current r" by blast
  qed (use free ep xid k jk store_inv_checks(2) [OF inv k] in
      \<open>auto simp: new_attempt_def attempt_checks_def\<close>)
  let ?db2 = "?db1\<lparr>leases := AList.update (j_graph_id j) (new_lease env iid ep secs j) (leases db)\<rparr>"
  have il: "insert_lease (new_lease env iid ep secs j) ?db1 = Inr ?db2"
  proof (subst insert_lease_ok)
    fix key r assume "(key, r) \<in> set (leases ?db1)"
    then have r: "map_of (leases db) key = Some r" using tab by (simp add: tables_ok_def table_row_iff)
    then obtain j' where "map_of (jobs db) (gl_job_id r) = Some j'" "j_state j' \<noteq> Queued"
      using inv_maps_parts(5) [OF im] unfolding leases_ok_def lease_ok_def by blast
    then show "gl_job_id r \<noteq> gl_job_id (new_lease env iid ep secs j)"
      using k q(1) jk by (auto simp: new_lease_def)
  qed (use q(2) ep xid jk in \<open>auto simp: new_lease_def lease_checks_def\<close>)
  have "job_checks (j\<lparr>j_state := Claimed, j_current_attempt := j_current_attempt j + 1,
      j_updated_at := tx_now env\<rparr>)"
    using store_inv_checks [OF inv k] by (elim job_checks_move) auto
  then show ?thesis
    using k q(1) jk live adm
    by (auto simp: claim_once_def require_transaction_admission_def require_live_owner_def nc ia il
        update_job_def write_job_def Let_def)
qed



end
