(* ===== verification/Control_Admission.thy ===== *)
theory Control_Admission
  imports Control_Properties
begin

text \<open>
  Admission and retention: submission is idempotent and detects conflicting reuse of a key, the
  number of live jobs stays within the configured limit over every run, and what cleanup and
  automatic coalescing do with jobs the coalescing table still names.
\<close>

section \<open>Idempotent submission\<close>

lemma find_existing_unique:
  assumes inv: "store_inv m db" and j: "map_of (jobs db) k = Some j"
    and key: "job_key j = (requester, job_kind request, graph_id request, digest)"
  shows "find_existing requester request digest db = Some j"
proof (cases "find_existing requester request digest db")
  case None
  with j key show ?thesis
    unfolding find_existing_None by (force simp: job_key_def dest: map_of_SomeD)
next
  case (Some x)
  have tab: "table_ok (jobs db)" using inv by (simp add: store_inv_def tables_ok_def)
  from Some have m: "x \<in> set (map snd (jobs db))" and xk: "job_key x = job_key j"
    unfolding find_existing_def find_Some_iff key by (auto simp: job_key_def intro: nth_mem)
  then obtain k' where "map_of (jobs db) k' = Some x" using table_row_iff [OF tab] by fastforce
  with xk j have "k' = k"
    using inv_maps_parts(3) [OF store_inv_maps [OF inv]] unfolding job_keys_unique_def by blast
  with \<open>map_of (jobs db) k' = Some x\<close> j Some show ?thesis by simp
qed

lemma submit_transaction_row:
  assumes inv: "store_inv m db" and m: "0 \<le> m"
    and run: "submit_transaction env sha256 new_id request requester limits db = Inr (r, db')"
  shows "\<exists>j. find_existing requester request (sha256 (idempotency_key request)) db' = Some j
    \<and> j_job_id j = sr_job_id r \<and> j_state j = sr_state r
    \<and> j_request_fingerprint j = request_fingerprint sha256 request"
proof (cases "find_existing requester request (sha256 (idempotency_key request)) db")
  case (Some j)
  with run show ?thesis by (auto simp: submit_transaction_def Let_def result_simps)
next
  case None
  let ?j = "new_job env new_id request requester (sha256 (idempotency_key request))
    (request_fingerprint sha256 request) (priority_value (request_priority request))"
  from None run have ins: "insert_job ?j db = Inr db'"
    and r: "r = \<lparr>sr_job_id = new_id, sr_state = Queued, sr_replayed = False\<rparr>"
    by (auto simp: submit_transaction_def Let_def result_simps)
  have inv': "store_inv m db'" using submit_transaction_inv [OF inv m run] .
  have "map_of (jobs db') new_id = Some ?j" using insert_job_Inr(4) [OF ins] by (simp add: new_job_def)
  then have "find_existing requester request (sha256 (idempotency_key request)) db' = Some ?j"
    by (rule find_existing_unique [OF inv']) (simp add: new_job_def job_key_def)
  then show ?thesis by (simp add: r new_job_def)
qed

text \<open>
  Claim C10 (submission is idempotent): repeating a submission that committed, at any later time of the
  transaction clock, returns the same job in its state, marked as a replay, and changes nothing; and
  reusing its idempotency key for a request with another fingerprint is refused as a conflict.
\<close>

theorem submission_idempotent:
  assumes "reachable limits sha256 (db, C)" and "0 \<le> max_retry_attempts limits"
    and "submit env sha256 new_id request requester limits bound lck db = Inr (r, db')"
    and "tx_admitted env2"
  shows "submit env2 sha256 id2 request requester limits None (Inr ()) db' = Inr (r\<lparr>sr_replayed := True\<rparr>, db')
    \<and> (idempotency_key request2 = idempotency_key request \<and> graph_id request2 = graph_id request
         \<and> job_kind request2 = job_kind request
         \<and> request_fingerprint sha256 request2 \<noteq> request_fingerprint sha256 request \<longrightarrow>
       submit_transaction env2 sha256 id2 request2 requester limits db' = Inl (ValueError ''idempotency conflict''))"
proof -
  have inv: "store_inv (max_retry_attempts limits) db" using reachable_store_inv [OF assms(1,2)] by simp
  note tx = submit_Inr(1) [OF assms(3)]
  have v: "validate_request request = Inr request" "safe_category requester ''requester'' = Inr requester"
    using assms(3) validate_request_Inr(1)
    by (auto simp: submit_def result_simps safe_category_def)
  obtain j where j: "find_existing requester request (sha256 (idempotency_key request)) db' = Some j"
    "j_job_id j = sr_job_id r" "j_state j = sr_state r"
    "j_request_fingerprint j = request_fingerprint sha256 request"
    using submit_transaction_row [OF inv assms(2) tx] by blast
  have "submit_transaction env2 sha256 id2 request requester limits db' = Inr (r\<lparr>sr_replayed := True\<rparr>, db')"
    using j by (cases r) (simp add: submit_transaction_def Let_def)
  moreover have "find_existing requester request2 (sha256 (idempotency_key request2)) db'
      = find_existing requester request (sha256 (idempotency_key request)) db'"
    if "idempotency_key request2 = idempotency_key request" "graph_id request2 = graph_id request"
      "job_kind request2 = job_kind request"
    using that by (simp add: find_existing_def)
  ultimately show ?thesis
    using v assms(4) j
    by (auto simp: submit_def check_deadline_def deadline_milliseconds_def require_transaction_admission_def
        translate_lock_timeout_def submit_transaction_def Let_def guardE_def)
qed

theorem submission_idempotent_witness:
  "submit (demo_env 25) demo_sha256 ''j2'' (demo_request ''k'' Manual) ''c'' DEFAULT_LIMITS None (Inr ())
     demo_queued = Inr (\<lparr>sr_job_id = ''j1'', sr_state = Queued, sr_replayed = True\<rparr>, demo_queued)"
proof -
  have r: "reachable DEFAULT_LIMITS demo_sha256 (demo_owned, {})"
    unfolding reachable_def initial_def by (blast intro: store_step.acquire [OF demo_acquire])
  have "tx_admitted (demo_env 25)" by (simp add: demo_env_def)
  from submission_idempotent [OF r demo_limits demo_submit this] show ?thesis by simp
qed

section \<open>Bounded admission\<close>

definition live_jobs :: "control_db \<Rightarrow> string set" where
  "live_jobs db = {k. \<exists>j. map_of (jobs db) k = Some j \<and> \<not> terminal (j_state j)}"

lemma nonterminal_count_card:
  assumes "table_ok (jobs db)"
  shows "nonterminal_count db = int (card (live_jobs db))"
proof -
  let ?rows = "filter (\<lambda>(k, j). \<not> terminal (j_state j)) (jobs db)"
  have d: "distinct (map fst ?rows)" using assms unfolding table_ok_def by (rule distinct_map_filter)
  have "live_jobs db = fst ` set ?rows"
    unfolding live_jobs_def using table_row_iff [OF assms] by force
  then have "card (live_jobs db) = length (map fst ?rows)"
    using distinct_card [OF d] by (metis list.set_map)
  then show ?thesis by (simp add: nonterminal_count_def)
qed

lemma live_jobs_finite [simp]: "finite (live_jobs db)"
  unfolding live_jobs_def using finite_dom_map_of [of "jobs db"] by (rule rev_finite_subset) (auto simp: dom_def)

lemma terminal_stays: "terminal s \<Longrightarrow> legal\<^sup>*\<^sup>* s s' \<Longrightarrow> terminal s'"
  by (metis converse_rtranclpE terminal_absorbing)

lemma live_jobs_evolves:
  assumes "evolves N db db'"
  shows "live_jobs db' \<subseteq> live_jobs db \<union> N"
proof
  fix k assume "k \<in> live_jobs db'"
  then obtain j' where j': "map_of (jobs db') k = Some j'" "\<not> terminal (j_state j')"
    by (auto simp: live_jobs_def)
  show "k \<in> live_jobs db \<union> N"
  proof (cases "map_of (jobs db) k")
    case None
    then show ?thesis using evolvesD(6) [OF assms, of k] j' by auto
  next
    case (Some j)
    then have "job_evolves j j'" using evolvesD(1) [OF assms Some] j' by auto
    with j'(2) Some show ?thesis using terminal_stays by (auto simp: live_jobs_def job_evolves_def)
  qed
qed

lemma live_jobs_forgets: "forgets ids db db' \<Longrightarrow> live_jobs db' \<subseteq> live_jobs db"
  by (auto simp: forgets_def live_jobs_def split: if_splits)

lemma admitted_count:
  assumes "enforce_admission request limits db1 = Inr u" and "table_ok (jobs db1)"
    and "evolves {k} db1 db'" and "table_ok (jobs db')"
  shows "nonterminal_count db' \<le> max_nonterminal_jobs limits"
proof -
  have "card (live_jobs db') \<le> card (insert k (live_jobs db1))"
    using live_jobs_evolves [OF assms(3)] by (intro card_mono) auto
  also have "\<dots> \<le> Suc (card (live_jobs db1))" by (rule card_insert_le_m1) simp_all
  finally have "nonterminal_count db' \<le> nonterminal_count db1 + 1"
    using assms(2,4) by (simp add: nonterminal_count_card)
  with assms(1) show ?thesis by (simp add: enforce_admission_def result_simps)
qed

lemma store_inv_table: "store_inv m db \<Longrightarrow> table_ok (jobs db)"
  by (simp add: store_inv_def tables_ok_def)

lemma submit_transaction_count:
  assumes inv: "store_inv m db" and m: "0 \<le> m"
    and run: "submit_transaction env sha256 new_id request requester limits db = Inr (r, db')"
  shows "db' = db \<or> nonterminal_count db' \<le> max_nonterminal_jobs limits"
proof (cases "find_existing requester request (sha256 (idempotency_key request)) db")
  case None
  then obtain u where "enforce_admission request limits db = Inr u"
    using run by (auto simp: submit_transaction_def Let_def result_simps)
  then have "nonterminal_count db' \<le> max_nonterminal_jobs limits"
    using store_inv_table [OF inv] submit_transaction_evolves [OF run]
      store_inv_table [OF submit_transaction_inv [OF inv m run]] by (intro admitted_count) auto
  then show ?thesis ..
qed (use run in \<open>auto simp: submit_transaction_def Let_def result_simps\<close>)

lemma coalesce_transaction_count:
  assumes inv: "store_inv m db" and m: "0 \<le> m"
    and run: "coalesce_transaction env sha256 new_id request requester limits db = Inr (r, db')"
  shows "db' = db \<or> nonterminal_count db' \<le> max_nonterminal_jobs limits"
proof (cases "coalesced_job (request_generations request) (map_of (intents db) (graph_id request)) db")
  case None
  with run obtain db1 db2 db3 replaced fp dg u where
    1: "supersede env replaced db = Inr db1" and adm: "enforce_admission request limits db1 = Inr u" and
    2: "insert_job (new_job env new_id request requester dg fp 50) db1 = Inr db2" and
    3: "link_replacement replaced new_id db2 = Inr db3" and
    4: "db' = upsert_intent env request new_id (request_generations request) db3"
    by (auto simp: coalesce_transaction_def Let_def result_simps split: if_splits)
  have i1: "store_inv m db1" using supersede_inv [OF inv 1] .
  have i2: "store_inv m db2" using i1 2 m by (elim insert_job_inv) (auto simp: new_job_def)
  have "evolves {new_id} db1 db2" using 2 by (rule insert_job_evolves) (simp add: new_job_def)
  also have "evolves {new_id} db2 db3"
    using 3 by (auto simp: link_replacement_def result_simps job_evolves_def same_job_def job_key_def
        split: option.splits elim!: update_job_evolves [OF i2])
  also have "evolves {new_id} db3 db'"
    unfolding 4 by (rule evolves_frame) (simp_all add: upsert_intent_def Let_def)
  finally show ?thesis
    using admitted_count [OF adm store_inv_table [OF i1]]
      store_inv_table [OF coalesce_transaction_inv [OF inv m run]] by blast
qed (use run in \<open>auto simp: coalesce_transaction_def Let_def split: if_splits\<close>)

lemma step_count:
  assumes step: "store_step limits sha256 (db, C) (db', C')" and inv: "system_inv limits (db, C)"
    and m: "0 \<le> max_retry_attempts limits" and "nonterminal_count db \<le> max_nonterminal_jobs limits"
  shows "nonterminal_count db' \<le> max_nonterminal_jobs limits"
proof -
  have si: "store_inv (max_retry_attempts limits) db" using inv by (simp add: system_inv_def)
  have tabs: "table_ok (jobs db)" "table_ok (jobs db')"
    using store_inv_table [OF si] store_inv_table [OF step_store_inv [OF step inv m]] by simp_all
  have sub: ?thesis if "live_jobs db' \<subseteq> live_jobs db"
  proof -
    have "card (live_jobs db') \<le> card (live_jobs db)" using that by (intro card_mono) simp_all
    with assms(4) show ?thesis by (simp add: nonterminal_count_card tabs)
  qed
  from step_kinds [OF step si] show ?thesis
  proof (elim disjE)
    assume "admission limits sha256 C db db'"
    then show ?thesis
      using submit_transaction_count [OF si m] coalesce_transaction_count [OF si m] assms(4)
      unfolding admission_def by metis
  qed (use sub live_jobs_evolves live_jobs_forgets in \<open>auto simp: retention_def\<close>)
qed

lemma reachable_count:
  assumes "reachable limits sha256 (db, C)" and "0 \<le> max_retry_attempts limits"
    and "0 \<le> max_nonterminal_jobs limits"
  shows "nonterminal_count db \<le> max_nonterminal_jobs limits"
proof -
  have "(store_step limits sha256)\<^sup>*\<^sup>* initial (db, C)" using assms(1) by (simp add: reachable_def)
  then have "nonterminal_count (fst (db, C)) \<le> max_nonterminal_jobs limits"
  proof (induction rule: rtranclp_induct)
    case base
    then show ?case using assms(3) by (simp add: initial_def empty_db_def nonterminal_count_def)
  next
    case (step s t)
    then have "system_inv limits s" using reachable_system_inv assms(2) unfolding reachable_def by blast
    with step assms(2) show ?case using step_count by (metis prod.collapse)
  qed
  then show ?thesis by simp
qed

text \<open>
  Claim C9 (admission is bounded): however submissions, coalescing, retries, recoveries and cleanups
  interleave, the number of jobs that are not terminal never exceeds the configured maximum.
\<close>

theorem live_jobs_bounded:
  assumes "reachable limits sha256 (db, C)" and "0 \<le> max_retry_attempts limits"
    and "0 \<le> max_nonterminal_jobs limits"
  shows "nonterminal_count db \<le> max_nonterminal_jobs limits"
  by (rule reachable_count [OF assms])

theorem live_jobs_bounded_witness: "nonterminal_count demo_running \<le> max_nonterminal_jobs DEFAULT_LIMITS"
  by (rule live_jobs_bounded [OF demo_reachable demo_limits]) (simp add: DEFAULT_LIMITS_def)

section \<open>Coalescing and retention meet the coalescing table\<close>

lemma update_job_keeps_key:
  assumes "update_job k0 p f db = Inr (b, db')" and "map_of (jobs db) k = Some j" and "store_inv m db"
    and "\<And>j. job_key (f j) = job_key j \<and> j_job_id (f j) = j_job_id j"
  shows "\<exists>j'. map_of (jobs db') k = Some j' \<and> job_key j' = job_key j"
  using assms(1)
  by (rule update_job_cases) (use assms(2-4) store_inv_job_id [OF assms(3)] in auto)

text \<open>
  Automatic intent cannot reuse a finished job's key: while a job with the requester, kind,
  graph and idempotency digest of an automatic request exists, a coalescing call that does not find a
  live job for the desired generations in the coalescing table raises, whatever the state of the
  earlier job. Polling derives the key from the graph and the generations alone, so desired
  generations that once had a job are refused until retention has removed it.
\<close>

theorem coalescing_refuses_known_key:
  assumes "store_inv m db" and "map_of (jobs db) k = Some j"
    and "job_key j = (requester, job_kind request, graph_id request, sha256 (idempotency_key request))"
    and "coalesced_job (request_generations request) (map_of (intents db) (graph_id request)) db = None"
  shows "\<exists>e. coalesce_automatic env sha256 new_id request requester limits db = Inl e"
proof (rule ccontr)
  assume "\<not> ?thesis"
  then obtain r db' where "coalesce_automatic env sha256 new_id request requester limits db = Inr (r, db')"
    by (metis old.sum.exhaust surj_pair)
  then have "coalesce_transaction env sha256 new_id request requester limits db = Inr (r, db')"
    by (rule coalesce_automatic_Inr)
  with assms(4) obtain replaced db1 db2 fp where 1: "supersede env replaced db = Inr db1"
    and 2: "insert_job (new_job env new_id request requester (sha256 (idempotency_key request)) fp 50) db1 = Inr db2"
    by (auto simp: coalesce_transaction_def Let_def result_simps split: if_splits)
  obtain j1 where "map_of (jobs db1) k = Some j1" "job_key j1 = job_key j"
    using 1 assms(1,2)
    by (auto simp: supersede_def result_simps job_key_def split: option.splits dest: update_job_keeps_key)
  then show False
    using insert_job_Inr(2) [OF 2] assms(3) map_of_SomeD
    by (force simp: job_key_clash_def list_ex_iff job_key_def new_job_def)
qed

theorem coalescing_refuses_known_key_witness:
  "\<exists>e. coalesce_automatic (demo_env 90) demo_sha256 ''j2'' (demo_request ''k'' Automatic) ''c''
     DEFAULT_LIMITS demo_succeeded = Inl e"
proof -
  have "\<exists>j. map_of (jobs demo_succeeded) ''j1'' = Some j \<and> job_key j = (''c'', job_kind (demo_request ''k'' Automatic),
      graph_id (demo_request ''k'' Automatic), demo_sha256 (idempotency_key (demo_request ''k'' Automatic)))"
    by (simp add: demo_succeeded_def cas_job_def demo_job_def new_job_def job_key_def demo_request_def
        make_request_def demo_generations_def demo_sha256_def)
  moreover have "coalesced_job (request_generations (demo_request ''k'' Automatic))
      (map_of (intents demo_succeeded) (graph_id (demo_request ''k'' Automatic))) demo_succeeded = None"
    by code_simp
  ultimately show ?thesis
    using coalescing_refuses_known_key [OF reachable_claim(1) [OF demo_succeeded_reachable demo_limits, simplified]]
    by blast
qed

text \<open>
  Retention fails on a job the coalescing table names: a cleanup whose batch contains a
  terminal job that \<^verbatim>\<open>coalescing_state\<close> still names as queued or running raises a foreign key
  violation and removes nothing. Cancelling a queued automatic job leaves such a row behind.
\<close>

theorem cleanup_blocked_by_intent:
  assumes "map_of (intents db) g = Some i" and "cs_queued_job_id i = Some k \<or> cs_running_job_id i = Some k"
    and "k \<in> set (take (nat limit) (cleanup_candidates env age limit db))" and "0 \<le> age" and "0 < limit"
  shows "\<exists>cst. cleanup_terminal env age limit False None db = Inl (ForeignKeyViolation cst)"
proof -
  let ?ids = "take (nat limit) (cleanup_candidates env age limit db)"
  have "job_referenced db ?ids"
    using map_of_SomeD [OF assms(1)] assms(2,3) by (fastforce simp: job_referenced_def list_ex_iff)
  moreover have "?ids \<noteq> []" and "cleanup_candidates env age limit db \<noteq> []" using assms(3) by auto
  ultimately show ?thesis
    using assms(4,5)
    by (cases "attempt_leased db ?ids") (simp_all add: cleanup_terminal_def scan_limit_def delete_jobs_def)
qed

definition after :: "control_db \<Rightarrow> ('a \<times> control_db) result \<Rightarrow> control_db" where
  "after db r = (case r of Inr (x, db') \<Rightarrow> db' | Inl e \<Rightarrow> db)"

definition demo_cancelled :: control_db where
  \<comment> \<open>an automatic job is queued by coalescing and then cancelled\<close>
  "demo_cancelled =
     (let polled = after demo_owned (coalesce_transaction (demo_env 20) demo_sha256 ''j9''
            (demo_request ''kk'' Automatic) ''polling'' DEFAULT_LIMITS demo_owned)
      in after polled (request_cancellation (demo_env 30) ''j9'' polled))"

theorem cleanup_blocked_by_intent_witness:
  "\<exists>cst. cleanup_terminal (demo_env 100) 10 5 False None demo_cancelled = Inl (ForeignKeyViolation cst)"
proof -
  have "\<exists>i. map_of (intents demo_cancelled) ''g'' = Some i \<and> (cs_queued_job_id i = Some ''j9'' \<or> cs_running_job_id i = Some ''j9'')"
    by (rule exI [of _ "the (map_of (intents demo_cancelled) ''g'')"]) code_simp
  moreover have "''j9'' \<in> set (take (nat 5) (cleanup_candidates (demo_env 100) 10 5 demo_cancelled))"
    by code_simp
  ultimately show ?thesis using cleanup_blocked_by_intent by (metis order_refl zero_less_numeral zero_le_numeral)
qed

end
