(* ===== verification/Control_Restart.thy ===== *)
theory Control_Restart
  imports Control_Admission
begin

text \<open>
  Restart and launch: recovery leaves no abandoned attempt behind, a launch registration is used at
  most once, and an attempt is declared unpublished only behind an installed storage fence.
\<close>

section \<open>Recovery\<close>

lemma recover_row_effect:
  assumes inv: "store_inv m db" and run: "recover_row env row db = Inr db'"
  shows "\<exists>j. map_of (jobs db') (j_job_id row) = Some j \<and> j_state j = ReconciliationRequired
      \<and> j_publication_state j = CommitUnknown"
    and "k \<noteq> j_job_id row \<Longrightarrow> map_of (jobs db') k = map_of (jobs db) k"
    and "k \<noteq> j_job_id row \<Longrightarrow> map_of (attempts db') (k, n) = map_of (attempts db) (k, n)"
proof -
  from run obtain db1 where
    1: "update_job (j_job_id row) (\<lambda>j. j_current_attempt j = j_current_attempt row)
       (\<lambda>j. j\<lparr>j_state := ReconciliationRequired, j_publication_state := CommitUnknown,
             j_error_category := Some ''publication_unknown'', j_updated_at := tx_now env\<rparr>) db = Inr (True, db1)"
    and 2: "update_attempt (j_job_id row, j_current_attempt row) a_is_current
       (\<lambda>a. a\<lparr>a_finished_at := coalesce (a_finished_at a) (Some (tx_now env)),
             a_registration_digest := None, a_registration_consumed := True,
             a_publication_state := CommitUnknown,
             a_result_category := Some ''publication_unknown''\<rparr>) db1 = Inr (True, db')"
    by (auto simp: recover_row_def result_simps)
  from 1 obtain j where j: "map_of (jobs db) (j_job_id row) = Some j"
    and db1: "jobs db1 = AList.update (j_job_id j) (j\<lparr>j_state := ReconciliationRequired,
       j_publication_state := CommitUnknown, j_error_category := Some ''publication_unknown'',
       j_updated_at := tx_now env\<rparr>) (jobs db)" "attempts db1 = attempts db"
    by (rule update_job_cases) auto
  have jid: "j_job_id j = j_job_id row" using store_inv_job_id [OF inv j] .
  from 2 have at: "\<exists>a. attempts db' = AList.update (j_job_id row, j_current_attempt row) a (attempts db)"
    by (rule update_attempt_cases) (auto simp: db1)
  have "jobs db' = jobs db1" using 2 by simp
  with db1(1) jid show "\<exists>j. map_of (jobs db') (j_job_id row) = Some j \<and> j_state j = ReconciliationRequired
      \<and> j_publication_state j = CommitUnknown"
    and "k \<noteq> j_job_id row \<Longrightarrow> map_of (jobs db') k = map_of (jobs db) k" by simp_all
  show "k \<noteq> j_job_id row \<Longrightarrow> map_of (attempts db') (k, n) = map_of (attempts db) (k, n)" using at by auto
qed

lemma recover_rows_effect:
  assumes "foldE (recover_row env) rows db = Inr db'" and "store_inv m db" and "recovering rows0 db"
    and "set rows \<subseteq> set rows0"
  shows "k \<in> j_job_id ` set rows \<Longrightarrow> \<exists>j. map_of (jobs db') k = Some j \<and> j_state j = ReconciliationRequired
      \<and> j_publication_state j = CommitUnknown"
    and "k \<notin> j_job_id ` set rows \<Longrightarrow> map_of (jobs db') k = map_of (jobs db) k
      \<and> map_of (attempts db') (k, n) = map_of (attempts db) (k, n)"
  using assms
proof (induction rows arbitrary: db)
  case (Cons r rows)
  {
    case 1
    then obtain db1 where s: "recover_row env r db = Inr db1" "foldE (recover_row env) rows db1 = Inr db'"
      by (auto simp: result_simps)
    obtain j where j: "map_of (jobs db) (j_job_id r) = Some j" "active (j_state j)"
      using 1 by (auto simp: recovering_def)
    note i1 = recover_row_inv [OF 1(3) j s(1)] and r1 = recover_row_recovering [OF 1(3,4) s(1)]
    have sub: "set rows \<subseteq> set rows0" using 1(5) by auto
    show ?case
    proof (cases "k \<in> j_job_id ` set rows")
      case True
      then show ?thesis using Cons.IH(1) [OF _ s(2) i1 r1 sub] by blast
    next
      case False
      with 1(1) have "k = j_job_id r" by auto
      with recover_row_effect(1) [OF 1(3) s(1)] Cons.IH(2) [OF False s(2) i1 r1 sub] show ?thesis by simp
    qed
  next
    case 2
    then obtain db1 where s: "recover_row env r db = Inr db1" "foldE (recover_row env) rows db1 = Inr db'"
      by (auto simp: result_simps)
    obtain j where j: "map_of (jobs db) (j_job_id r) = Some j" "active (j_state j)"
      using 2 by (auto simp: recovering_def)
    note i1 = recover_row_inv [OF 2(3) j s(1)] and r1 = recover_row_recovering [OF 2(3,4) s(1)]
    have sub: "set rows \<subseteq> set rows0" using 2(5) by auto
    have "k \<notin> j_job_id ` set rows" "k \<noteq> j_job_id r" using 2(1) by auto
    with Cons.IH(2) [OF _ s(2) i1 r1 sub] recover_row_effect(2,3) [OF 2(3) s(1)] show ?case by simp
  }
qed simp_all

lemma abandoned_ids:
  assumes inv: "store_inv m db" and k: "map_of (jobs db) k = Some j"
  shows "k \<in> j_job_id ` set (select_by submission_order (abandoned iid ep db) (jobs db)) \<longleftrightarrow> abandoned iid ep db j"
    (is "k \<in> j_job_id ` set ?all \<longleftrightarrow> _")
proof
  assume "k \<in> j_job_id ` set ?all"
  then obtain r k' where r: "(k', r) \<in> set (jobs db)" "abandoned iid ep db r" "j_job_id r = k" by auto
  then have "map_of (jobs db) k' = Some r" using table_row_iff [OF store_inv_table [OF inv]] by blast
  then have "k' = k" using store_inv_job_id [OF inv] r(3) by blast
  with \<open>map_of (jobs db) k' = Some r\<close> k r(2) show "abandoned iid ep db j" by simp
next
  assume "abandoned iid ep db j"
  then show "k \<in> j_job_id ` set ?all"
    using store_inv_job_id [OF inv k] map_of_SomeD [OF k] by (force simp: image_iff)
qed

text \<open>
  Claim C12 (recovery is complete and conservative): when a new owner's recovery handles fewer rows
  than its limit, no attempt of another owner is left in a claimed, starting, running or cancelling
  job; every job it touched waits for reconciliation with its publication state unknown, never
  assumed rolled back; and every other job is as it was.
\<close>

theorem recovery_complete:
  assumes "reachable limits sha256 (db, C)" and "0 \<le> max_retry_attempts limits"
    and "recover_abandoned_attempts env iid ep limit db = Inr (n, db')" and "int n < limit"
  shows "(\<forall>k j. map_of (jobs db') k = Some j \<longrightarrow> \<not> abandoned iid ep db' j)
    \<and> (\<forall>k j. map_of (jobs db) k = Some j \<longrightarrow>
         (if abandoned iid ep db j
          then \<exists>j'. map_of (jobs db') k = Some j' \<and> j_state j' = ReconciliationRequired
                 \<and> j_publication_state j' = CommitUnknown
          else map_of (jobs db') k = Some j))"
proof -
  have inv: "store_inv (max_retry_attempts limits) db" using reachable_store_inv [OF assms(1,2)] by simp
  let ?all = "select_by submission_order (abandoned iid ep db) (jobs db)"
  have run: "foldE (recover_row env) (take (nat limit) ?all) db = Inr db'" and n: "n = length (take (nat limit) ?all)"
    using assms(3) by (auto simp: recover_abandoned_attempts_def Let_def result_simps)
  have all: "take (nat limit) ?all = ?all" using n assms(4) by simp
  note ids = abandoned_ids [OF inv, where iid = iid and ep = ep]
  have rec: "recovering ?all db" using abandoned_recovering [OF inv, of "nat limit" iid ep] all by simp
  note fx = recover_rows_effect [OF run [unfolded all] inv rec subset_refl]
  have left: "\<not> abandoned iid ep db' j'" if j': "map_of (jobs db') k = Some j'" for k j'
  proof (cases "k \<in> j_job_id ` set ?all")
    case True
    with fx(1) [of k] j' show ?thesis by (auto simp: abandoned_def ABANDONED_STATES_def)
  next
    case False
    with fx(2) [OF False] j' have j: "map_of (jobs db) k = Some j'" by auto
    with ids [OF j] False fx(2) [OF False] store_inv_job_id [OF inv j] show ?thesis by (auto simp: abandoned_def)
  qed
  have "if abandoned iid ep db j then \<exists>j'. map_of (jobs db') k = Some j' \<and> j_state j' = ReconciliationRequired
      \<and> j_publication_state j' = CommitUnknown else map_of (jobs db') k = Some j"
    if "map_of (jobs db) k = Some j" for k j
    using ids [OF that] fx(1,2) [of k] that by auto
  with left show ?thesis by blast
qed

lemma demo_taken_reachable: "reachable DEFAULT_LIMITS demo_sha256 (demo_taken, {demo_claim})"
  using demo_reachable store_step.acquire [OF demo_takeover]
  unfolding reachable_def by (meson rtranclp.rtrancl_into_rtrancl)

theorem recovery_complete_witness:
  "\<exists>db' j'. recover_abandoned_attempts (demo_env 510) ''two'' 2 8 demo_taken = Inr (1, db')
     \<and> map_of (jobs db') ''j1'' = Some j' \<and> j_state j' = ReconciliationRequired
     \<and> j_publication_state j' = CommitUnknown"
proof -
  have "yields 1 (recover_abandoned_attempts (demo_env 510) ''two'' 2 8 demo_taken)" by code_simp
  from yieldsD [OF this] obtain db' where
    run: "recover_abandoned_attempts (demo_env 510) ''two'' 2 8 demo_taken = Inr (1, db')" ..
  have "int 1 < 8" by simp
  note touched = recovery_complete [OF demo_taken_reachable demo_limits run this, THEN conjunct2]
  have "map_of (jobs demo_taken) ''j1'' = Some (demo_job Running 1 45)"
    by (simp add: demo_taken_def demo_running_def demo_db_def)
  moreover have "abandoned ''two'' 2 demo_taken (demo_job Running 1 45)" by code_simp
  ultimately show ?thesis using touched run by auto
qed

section \<open>Launch registration\<close>

text \<open>
  A registration is spent when the attempt of the claim, if its row is still there, is marked as having
  used it. No transaction of the store makes a spent registration usable again.
\<close>

definition registration_spent :: "JobClaim \<Rightarrow> control_db \<Rightarrow> bool" where
  "registration_spent c db = (\<forall>a. map_of (attempts db) (claim_key c) = Some a \<longrightarrow> a_registration_consumed a)"

lemma spent_evolves:
  assumes sp: "registration_spent c db" and ok: "claim_ok db c" and ev: "evolves N db db'"
    and new: "c_job_id c \<notin> N" and inv': "store_inv m db'"
  shows "registration_spent c db'"
  unfolding registration_spent_def
proof (intro allI impI)
  fix a' assume a': "map_of (attempts db') (claim_key c) = Some a'"
  then have "map_of (jobs db') (c_job_id c) \<noteq> None"
    using attempt_has_job [OF inv'] unfolding claim_key_def by fastforce
  then obtain j where j: "map_of (jobs db) (c_job_id c) = Some j"
    using evolvesD(6) [OF ev] new by blast
  show "a_registration_consumed a'"
  proof (cases "map_of (attempts db) (claim_key c)")
    case None
    then have "j_current_attempt j < c_attempt c"
      using evolvesD(3) [OF ev _ _ j] a' unfolding claim_key_def by blast
    with ok j show ?thesis by (auto simp: claim_ok_def)
  next
    case (Some a)
    with evolvesD(2) [OF ev Some] a' sp show ?thesis by (auto simp: registration_spent_def attempt_evolves_def)
  qed
qed

lemma spent_step:
  assumes "store_step limits sha256 (db, C) (db', C')" and "system_inv limits (db, C)"
    and "0 \<le> max_retry_attempts limits" and "c \<in> C" and "registration_spent c db"
  shows "registration_spent c db'"
proof -
  have ok: "claim_ok db c" using assms(2,4) by (simp add: system_inv_def)
  note inv' = step_store_inv [OF assms(1-3)]
  from step_advances [OF assms(1-3)] show ?thesis
    unfolding advances_def
  proof (elim disjE exE conjE)
    fix N assume "evolves N db db'" "N \<inter> c_job_id ` C = {}"
    with spent_evolves [OF assms(5) ok _ _ inv'] assms(4) show ?thesis by blast
  next
    fix ids assume "forgets ids db db'"
    with assms(5) show ?thesis 
      by (auto simp: forgets_def registration_spent_def claim_key_def)
  qed
qed

lemma spent_run:
  assumes "(store_step limits sha256)\<^sup>*\<^sup>* s t" and "system_inv limits s"
    and "0 \<le> max_retry_attempts limits" and "c \<in> snd s" and "registration_spent c (fst s)"
  shows "c \<in> snd t \<and> registration_spent c (fst t)"
  using assms
proof (induction rule: rtranclp_induct)
  case (step t u)
  have inv: "system_inv limits t" using run_system_inv [OF step.hyps(1) step.prems(1,2)] .
  obtain db C db' C' where t: "t = (db, C)" and u: "u = (db', C')" by (metis surj_pair)
  have "c \<in> C" "registration_spent c db" using step t by simp_all
  moreover have "store_inv (max_retry_attempts limits) db" using inv by (simp add: t system_inv_def)
  ultimately show ?case
    using spent_step [OF step.hyps(2) [unfolded t u] inv [unfolded t] step.prems(2)]
      step_claims(1) [OF step.hyps(2) [unfolded t u]] by (auto simp: u)
qed simp

lemma spent_refused:
  assumes "registration_spent c db"
  shows "\<exists>e. in_process_currency_context env locks c digest decide db = Inl e"
    and "\<exists>e. persist_supervisor_registration env locks c digest2 db = Inl e"
proof -
  have no: False if "lock_and_validate_current_durable env c (c_instance_id c) (c_fencing_epoch c) False False
      d db = Some (j, a)" "d \<noteq> None \<or> \<not> a_registration_consumed a" for d j a
    using durable_Some [OF that(1)] that(2) assms
    by (auto simp: registration_spent_def durable_attempt_def)
  show "\<exists>e. in_process_currency_context env locks c digest decide db = Inl e"
    by (cases "in_process_currency_context env locks c digest decide db")
       (auto elim!: in_process_currency_context_Inr dest: no)
  show "\<exists>e. persist_supervisor_registration env locks c digest2 db = Inl e"
    by (cases "persist_supervisor_registration env locks c digest2 db")
       (auto elim!: persist_supervisor_registration_Inr dest: no)
qed

text \<open>
  Claim C13 (a launch registration is used once): a publication decision runs only under a registration
  that was recorded for this very attempt, while its coordinator is live, the lease of its graph is the
  claim's with the claim's lease epoch and unexpired, and the job is starting, running or being
  cancelled. From then on, even if the decision raised and whatever transactions follow, a decision
  under that claim is refused and no registration can be recorded for it.
\<close>

theorem registration_used_once:
  assumes "reachable limits sha256 (db, C)" and "0 \<le> max_retry_attempts limits" and "c \<in> C"
    and "in_process_currency_context env locks c digest decide db = Inr (out, db')"
    and "(store_step limits sha256)\<^sup>*\<^sup>* (db', C) (db'', C'')"
  shows "(\<exists>d j a l. digest = Some d \<and> map_of (attempts db) (claim_key c) = Some a
            \<and> map_of (jobs db) (a_job_id a) = Some j
            \<and> a_registration_digest a = Some d \<and> \<not> a_registration_consumed a \<and> a_is_current a
            \<and> j_state j \<in> {Starting, Running, CancelRequested, Cancelling}
            \<and> live_owner (tx_clock env) (c_instance_id c) (c_fencing_epoch c) db
            \<and> map_of (leases db) (c_graph_id c) = Some l \<and> lease_of_claim c l
            \<and> gl_graph_lease_epoch l = c_graph_lease_epoch c \<and> tx_clock env < gl_expires_at l)
    \<and> (\<exists>e. in_process_currency_context env2 locks2 c digest2 decide2 db'' = Inl e)
    \<and> (\<exists>e. persist_supervisor_registration env2 locks2 c digest3 db'' = Inl e)"
proof -
  obtain d j a where d: "digest = Some d"
    and dur: "lock_and_validate_current_durable env c (c_instance_id c) (c_fencing_epoch c) False False
      (Some d) db = Some (j, a)"
    and db': "db' = db\<lparr>attempts := AList.update (claim_key c) (a\<lparr>a_registration_consumed := True\<rparr>) (attempts db)\<rparr>"
    by (rule in_process_currency_context_Inr [OF assms(4)])
  have sinv: "system_inv limits (db, C)" using reachable_system_inv [OF assms(1,2)] .
  then have inv: "store_inv (max_retry_attempts limits) db" and ok: "\<forall>c \<in> C. claim_ok db c"
    by (simp_all add: system_inv_def)
  have inv': "store_inv (max_retry_attempts limits) db'" by (rule in_process_currency_context_inv [OF inv assms(4)])
  have "\<forall>c \<in> C. claim_ok db' c"
    by (rule claims_ok_step [OF ok in_process_currency_context_evolves [OF assms(4), of "{}"] _ inv']) simp
  with inv' have "system_inv limits (db', C)" by (simp add: system_inv_def)
  moreover have "registration_spent c db'" by (simp add: registration_spent_def db')
  ultimately have "registration_spent c db''"
    using spent_run [OF assms(5) _ assms(2), of c] assms(3) by simp
  note spent_refused [OF this]
  moreover obtain l where "map_of (leases db) (c_graph_id c) = Some l" "lease_of_claim c l"
      "gl_graph_lease_epoch l = c_graph_lease_epoch c" "tx_clock env < gl_expires_at l"
    using durable_Some(8) [OF dur] by (auto simp: durable_lease_def split: option.splits)
  moreover have "a_registration_digest a = Some d" "\<not> a_registration_consumed a"
    "j_state j \<in> {Starting, Running, CancelRequested, Cancelling}"
    using durable_Some(6,7) [OF dur] by (auto simp: durable_attempt_def durable_phase_def)
  ultimately show ?thesis using d durable_Some(1-4) [OF dur] by (intro conjI exI [of _ d] exI [of _ j] exI [of _ a] exI [of _ l])
qed

definition demo_registration :: string where "demo_registration = replicate 64 (CHR ''b'')"

definition demo_registered :: control_db where
  "demo_registered = demo_running\<lparr>attempts := [((''j1'', 1), demo_attempt\<lparr>a_registration_digest := Some demo_registration\<rparr>)]\<rparr>"

definition demo_spent :: control_db where
  "demo_spent = demo_running\<lparr>attempts := [((''j1'', 1),
     demo_attempt\<lparr>a_registration_digest := Some demo_registration, a_registration_consumed := True\<rparr>)]\<rparr>"

lemma demo_register: "persist_supervisor_registration (demo_env 48) (Inr ()) demo_claim demo_registration demo_running
    = Inr demo_registered"
  by code_simp

lemma demo_consume: "in_process_currency_context (demo_env 50) (Inr ()) demo_claim (Some demo_registration) (Inr ())
    demo_registered = Inr (Inr (), demo_spent)"
  by code_simp

lemma demo_registered_reachable: "reachable DEFAULT_LIMITS demo_sha256 (demo_registered, {demo_claim})"
  using demo_reachable store_step.register [OF demo_register] unfolding reachable_def
  by (meson insertI1 rtranclp.rtrancl_into_rtrancl)

theorem registration_used_once_witness:
  "\<exists>db e. (store_step DEFAULT_LIMITS demo_sha256)\<^sup>*\<^sup>* (demo_spent, {demo_claim}) (db, {demo_claim}) \<and> db \<noteq> demo_spent
     \<and> in_process_currency_context (demo_env 53) (Inr ()) demo_claim (Some demo_registration) (Inr ()) db = Inl e"
proof -
  have "yields True (heartbeat_attempt (demo_env 52) DEFAULT_LIMITS demo_claim 100 None VNone VNone demo_spent)"
    by code_simp
  from yieldsD [OF this] obtain db where
    run: "heartbeat_attempt (demo_env 52) DEFAULT_LIMITS demo_claim 100 None VNone VNone demo_spent = Inr (True, db)" ..
  have "leases (after demo_spent (heartbeat_attempt (demo_env 52) DEFAULT_LIMITS demo_claim 100 None VNone VNone
      demo_spent)) \<noteq> leases demo_spent" by code_simp
  then have "db \<noteq> demo_spent" unfolding run by (auto simp: after_def)
  moreover have steps: "(store_step DEFAULT_LIMITS demo_sha256)\<^sup>*\<^sup>* (demo_spent, {demo_claim}) (db, {demo_claim})"
    by (rule r_into_rtranclp, rule store_step.heartbeat [OF run]) simp
  moreover have "\<exists>e. in_process_currency_context (demo_env 53) (Inr ()) demo_claim (Some demo_registration) (Inr ()) db = Inl e"
    using registration_used_once [OF demo_registered_reachable demo_limits _ demo_consume steps] by blast
  ultimately show ?thesis by blast
qed

section \<open>Closing behind the fence\<close>

text \<open>
  Claim C14 (unpublished only behind the fence): a durable closure that reports success had a
  reconciler of a newer epoch than the attempt's that was live before and after the storage fence was
  installed, the attempt's graph lease expired at both checks, the fence callback confirming the
  installation and the file gate closed; it then leaves the waiting job and its current attempt
  with publication not started. A closure that reports failure changes nothing.
\<close>

theorem closure_needs_fence:
  assumes "execute_durable_closure env clk locks c ri re fence closer db = Inr (b, db')"
  shows "if b then c_fencing_epoch c < re \<and> live_owner (clk 0) ri re db \<and> live_owner (clk 1) ri re db
      \<and> (\<exists>l. map_of (leases db) (c_graph_id c) = Some l \<and> lease_of_claim c l \<and> gl_expires_at l \<le> clk 0
            \<and> gl_expires_at l \<le> clk 1)
      \<and> (\<exists>install close. fence = Some install \<and> closer = Some close
            \<and> install c ri re (c_graph_lease_epoch c) None = Inr True
            \<and> close c (require_currency (env\<lparr>tx_clock := clk 2\<rparr>) c ri re True False None db) = Inr True)
      \<and> (\<exists>j. map_of (jobs db) (c_job_id c) = Some j \<and> j_state j = ReconciliationRequired
            \<and> map_of (jobs db') (j_job_id j) = Some (j\<lparr>j_publication_state := NotStarted, j_updated_at := tx_now env\<rparr>))
      \<and> (\<exists>a. map_of (attempts db') (claim_key c) = Some a \<and> a_is_current a \<and> a_publication_state a = NotStarted)
    else db' = db"
  using assms
proof (cases rule: execute_durable_closure_cases)
  case (closed install close)
  obtain j0 a0 j1 a1 where
    v0: "lock_and_validate_current_durable (env\<lparr>tx_clock := clk 0\<rparr>) c ri re True False None db = Some (j0, a0)" and
    v1: "lock_and_validate_current_durable (env\<lparr>tx_clock := clk 1\<rparr>) c ri re True False None db = Some (j1, a1)"
    and inst: "install c ri re (c_graph_lease_epoch c) None = Inr True"
    using closed(2,4) by (auto simp: closure_context_def result_simps)
  note D0 = durable_Some [OF v0] and D1 = durable_Some [OF v1]
  obtain db1 where
    1: "update_job (c_job_id c) (\<lambda>j. j_current_attempt j = c_attempt c \<and> j_state j = ReconciliationRequired)
       (\<lambda>j. j\<lparr>j_publication_state := NotStarted, j_updated_at := tx_now env\<rparr>) db = Inr (True, db1)"
    and 2: "update_attempt (claim_key c) a_is_current
       (\<lambda>a. a\<lparr>a_publication_state := NotStarted, a_registration_digest := None\<rparr>) db1 = Inr (True, db')"
    using closed(6) by (auto simp: persist_not_started_def result_simps)
  have "\<exists>a. map_of (attempts db') (claim_key c) = Some a \<and> a_is_current a \<and> a_publication_state a = NotStarted"
    using 2 by (rule update_attempt_cases) auto
  moreover have "\<exists>j. map_of (jobs db) (c_job_id c) = Some j \<and> j_state j = ReconciliationRequired
      \<and> map_of (jobs db') (j_job_id j) = Some (j\<lparr>j_publication_state := NotStarted, j_updated_at := tx_now env\<rparr>)"
    using 1 by (rule update_job_cases) (use update_attempt_job [OF 2] in auto)
  ultimately show ?thesis
    using closed D0 D1 inst
    by (auto simp: durable_lease_def durable_phase_def split: option.splits)
qed simp

definition demo_recovered :: control_db where
  "demo_recovered = after demo_taken (recover_abandoned_attempts (demo_env 510) ''two'' 2 8 demo_taken)"

theorem closure_needs_fence_witness:
  "\<exists>db'. execute_durable_closure (demo_env 520) (\<lambda>i. 520 + int i) (Inr ()) demo_claim ''two'' 2
       (Some (\<lambda>c ri re e0 e1. Inr True)) (Some (\<lambda>c cur. Inr True)) demo_recovered = Inr (True, db')
     \<and> (\<exists>a. map_of (attempts db') (claim_key demo_claim) = Some a \<and> a_is_current a \<and> a_publication_state a = NotStarted)"
proof -
  have "yields True (execute_durable_closure (demo_env 520) (\<lambda>i. 520 + int i) (Inr ()) demo_claim ''two'' 2
       (Some (\<lambda>c ri re e0 e1. Inr True)) (Some (\<lambda>c cur. Inr True)) demo_recovered)" by code_simp
  from yieldsD [OF this] obtain db' where run: "execute_durable_closure (demo_env 520) (\<lambda>i. 520 + int i) (Inr ())
       demo_claim ''two'' 2 (Some (\<lambda>c ri re e0 e1. Inr True)) (Some (\<lambda>c cur. Inr True)) demo_recovered
       = Inr (True, db')" ..
  from closure_needs_fence [OF run] run show ?thesis by auto
qed

end
