(* ===== verification/Control_Life_Cycle.thy ===== *)
theory Control_Life_Cycle
  imports Control_Restart
begin

text \<open>
  The life cycle of a job, transaction by transaction: a committed transaction moves the job along one
  transition of \<^const>\<open>LEGAL_TRANSITIONS\<close> or leaves its state alone, and the attempt counter goes up by
  one exactly when the job is claimed. Transactions that write several jobs, or one job twice, are
  composed of statements that change the state of each job at most once.
\<close>

definition job_moves :: "job_row \<Rightarrow> job_row \<Rightarrow> bool" where
  "job_moves j j' =
     (if j_state j' = j_state j then j_current_attempt j' = j_current_attempt j
      else legal (j_state j) (j_state j')
        \<and> j_current_attempt j' = j_current_attempt j + (if j_state j' = Claimed then 1 else 0))"

definition job_still :: "job_row \<Rightarrow> job_row \<Rightarrow> bool" where
  "job_still j j' = (j_state j' = j_state j \<and> j_current_attempt j' = j_current_attempt j)"

definition moves :: "string set \<Rightarrow> control_db \<Rightarrow> control_db \<Rightarrow> bool" where
  \<comment> \<open>\<open>K\<close> bounds the identifiers of the jobs whose state may change\<close>
  "moves K db db' = (\<forall>k j. map_of (jobs db) k = Some j \<longrightarrow> (\<exists>j'. map_of (jobs db') k = Some j'
     \<and> job_moves j j' \<and> (k \<notin> K \<longrightarrow> job_still j j')))"

lemma job_moves_refl [simp]: "job_moves j j" "job_still j j"
  by (simp_all add: job_moves_def job_still_def)

lemma job_still_moves: "job_still j j' \<Longrightarrow> job_moves j j'"
  by (simp add: job_moves_def job_still_def)

lemma job_moves_trans:
  "job_moves a b \<Longrightarrow> job_still b c \<Longrightarrow> job_moves a c" "job_still a b \<Longrightarrow> job_moves b c \<Longrightarrow> job_moves a c"
  "job_still a b \<Longrightarrow> job_still b c \<Longrightarrow> job_still a c"
  by (auto simp: job_moves_def job_still_def)

lemma moves_frame: "jobs db' = jobs db \<Longrightarrow> moves K db db'"
  by (simp add: moves_def)

lemma moves_refl [simp]: "moves K db db"
  by (rule moves_frame) simp

lemma moves_all: "moves K db db' \<Longrightarrow> moves UNIV db db'"
  unfolding moves_def by blast

lemma moves_trans:
  assumes "moves K a b" and "moves L b c" and "K \<inter> L = {}"
  shows "moves (K \<union> L) a c"
  unfolding moves_def
proof (intro allI impI)
  fix k j assume "map_of (jobs a) k = Some j"
  then obtain j1 where j1: "map_of (jobs b) k = Some j1" "job_moves j j1" "k \<notin> K \<longrightarrow> job_still j j1"
    using assms(1) unfolding moves_def by blast
  obtain j2 where j2: "map_of (jobs c) k = Some j2" "job_moves j1 j2" "k \<notin> L \<longrightarrow> job_still j1 j2"
    using assms(2) j1(1) unfolding moves_def by blast
  have "k \<notin> K \<or> k \<notin> L" using assms(3) by blast
  with j1 j2 job_moves_trans
  show "\<exists>j'. map_of (jobs c) k = Some j' \<and> job_moves j j' \<and> (k \<notin> K \<union> L \<longrightarrow> job_still j j')" by blast
qed

lemma still_moves: "moves {} a b \<Longrightarrow> moves L b c \<Longrightarrow> moves L a c"
  using moves_trans [of "{}" a b L c] by simp

lemma moves_still: "moves K a b \<Longrightarrow> moves {} b c \<Longrightarrow> moves K a c"
  using moves_trans [of K a b "{}" c] by simp

section \<open>Statements\<close>

lemma update_job_moves:
  assumes "store_inv m db" and "update_job k p f db = Inr (b, db')" and "\<And>j. j_job_id (f j) = j_job_id j"
    and "\<And>j. p j \<Longrightarrow> map_of (jobs db) k = Some j \<Longrightarrow> job_moves j (f j)"
  shows "moves {k} db db'"
  using assms(2)
  by (rule update_job_cases)
     (use assms(3,4) store_inv_job_id [OF assms(1)] in \<open>auto simp: moves_def\<close>)

lemma update_job_still:
  assumes "store_inv m db" and "update_job k p f db = Inr (b, db')" and "\<And>j. j_job_id (f j) = j_job_id j"
    and "\<And>j. job_still j (f j)"
  shows "moves {} db db'"
  using assms(2)
  by (rule update_job_cases)
     (use assms(3,4) store_inv_job_id [OF assms(1)] in \<open>auto simp: moves_def intro: job_still_moves\<close>)

lemma update_attempt_still: "update_attempt k p f db = Inr (b, db') \<Longrightarrow> moves {} db db'"
  by (rule moves_frame) simp

lemma insert_job_still: "insert_job j db = Inr db' \<Longrightarrow> moves {} db db'"
  using insert_job_Inr [of j db db'] by (auto simp: moves_def)

section \<open>Transactions\<close>

lemma claim_once_moves:
  assumes inv: "store_inv m db" and run: "claim_once env iid ep secs mx auto db = Inr (Some c, db')"
  shows "moves UNIV db db'"
proof -
  obtain j db2 where nc: "next_claimable env mx auto db = Some j"
    and uj: "update_job (j_job_id j) (\<lambda>r. j_state r = Queued)
           (\<lambda>r. r\<lparr>j_state := Claimed, j_current_attempt := j_current_attempt j + 1,
                 j_updated_at := tx_now env\<rparr>)
           (db\<lparr>attempts := AList.update (j_job_id j, j_current_attempt j + 1)
                 (new_attempt env iid ep j) (attempts db),
               leases := AList.update (j_graph_id j) (new_lease env iid ep secs j) (leases db)\<rparr>)
           = Inr db2"
    and out: "jobs db' = jobs (snd db2)"
    by (rule claim_once_Some [OF run]) (auto split: if_splits)
  have tab: "table_ok (jobs db)" using inv by (simp add: store_inv_def tables_ok_def)
  obtain k where k: "map_of (jobs db) k = Some j" using next_claimable_Some(1) [OF nc tab] by blast
  then have jk: "j_job_id j = k" using store_inv_job_id inv by blast
  have q: "j_state j = Queued" using next_claimable_Some(2) [OF nc tab] by (simp add: claimable_def)
  have "job_moves j (j\<lparr>j_state := Claimed, j_current_attempt := j_current_attempt j + 1, j_updated_at := t\<rparr>)" for t
    using q by (simp add: job_moves_def legal_def)
  then show ?thesis
    using uj k q jk by (auto simp: update_job_def write_job_def result_simps moves_def out split: if_splits)
qed

lemma coalesce_transaction_moves:
  assumes inv: "store_inv m db" and m: "0 \<le> m"
    and run: "coalesce_transaction env sha256 new_id request requester limits db = Inr (r, db')"
  shows "moves UNIV db db'"
proof (cases "coalesced_job (request_generations request) (map_of (intents db) (graph_id request)) db")
  case None
  with run obtain db1 db2 db3 replaced fp dg where
    1: "supersede env replaced db = Inr db1" and
    2: "insert_job (new_job env new_id request requester dg fp 50) db1 = Inr db2" and
    3: "link_replacement replaced new_id db2 = Inr db3" and
    4: "db' = upsert_intent env request new_id (request_generations request) db3"
    by (auto simp: coalesce_transaction_def Let_def result_simps split: if_splits)
  have i2: "store_inv m db2"
    using supersede_inv [OF inv 1] 2 m by (elim insert_job_inv) (auto simp: new_job_def)
  have s1: "moves UNIV db db1"
    using 1 by (auto simp: supersede_def result_simps job_moves_def legal_def split: option.splits
        elim!: update_job_moves [OF inv, THEN moves_all])
  have s3: "moves {} db2 db3"
    using 3 by (auto simp: link_replacement_def result_simps job_still_def split: option.splits
        elim!: update_job_still [OF i2])
  have "moves {} db3 db'" unfolding 4 by (rule moves_frame) (simp add: upsert_intent_def Let_def)
  with s1 insert_job_still [OF 2] s3 show ?thesis using moves_still by blast
qed (use run in \<open>auto simp: coalesce_transaction_def Let_def split: if_splits\<close>)

lemma submit_transaction_moves:
  "submit_transaction env sha256 new_id request requester limits db = Inr (r, db') \<Longrightarrow> moves UNIV db db'"
  by (auto simp: submit_transaction_def Let_def result_simps split: option.splits
      dest!: insert_job_still intro: moves_all)

text \<open>A queued job has no current attempt, so only a claim takes it out of the queue.\<close>

lemma cas_not_queued:
  assumes inv: "store_inv m db" and k: "map_of (jobs db) k = Some j" and "cas_allowed env s t n iid ep db j"
  shows "j_state j \<noteq> Queued"
proof -
  obtain a where "map_of (attempts db) (k, n) = Some a" "a_is_current a"
    using assms(3) store_inv_job_id [OF inv k] by (auto simp: cas_allowed_def split: option.splits)
  then have "active (j_state j)"
    using attempts_okD [OF inv_maps_parts(4) [OF store_inv_maps [OF inv]]] k by (auto simp: attempt_ok_def)
  then show ?thesis by (auto simp: active_def)
qed

lemma claimed_from_queue: "legal s Claimed \<Longrightarrow> s = Queued"
  by (cases s) (simp_all add: legal_def)

lemma compare_and_set_state_moves:
  assumes inv: "store_inv m db"
    and run: "compare_and_set_state env k s t n iid ep p e d db = Inr (b, db')"
  shows "moves UNIV db db'"
proof -
  have "job_moves j (cas_job env t p e j)"
    if "legal s t" "cas_allowed env s t n iid ep db j" "map_of (jobs db) k = Some j" for j
    using that cas_not_queued [OF inv that(3,2)] claimed_from_queue
    by (auto simp: job_moves_def cas_job_def cas_allowed_def)
  then have *: "moves {k} db db1" if "legal s t"
    "update_job k (cas_allowed env s t n iid ep db) (cas_job env t p e) db = Inr (u, db1)" for u db1
    using update_job_moves [OF inv that(2)] that(1) by (simp add: cas_job_def)
  from run obtain u db1 where "legal s t"
    "update_job k (cas_allowed env s t n iid ep db) (cas_job env t p e) db = Inr (u, db1)"
    "db' = db1 \<or> (\<exists>v. update_attempt (k, n)
      (\<lambda>a. a_is_current a \<and> a_instance_id a = iid \<and> a_fencing_epoch a = ep)
      (cas_attempt env t p e d) db1 = Inr (v, db'))"
    by (auto simp: compare_and_set_state_def result_simps split: if_splits)
  then show ?thesis using * update_attempt_still moves_still moves_all by blast
qed

lemma heartbeat_attempt_moves:
  assumes inv: "store_inv m db" and run: "heartbeat_attempt env limits c ttl ph cnt tot db = Inr (b, db')"
  shows "moves UNIV db db'"
proof -
  obtain secs where s: "positive_seconds ttl = Inr secs"
    using run by (auto simp: heartbeat_attempt_def result_simps)
  obtain b1 db1 where r: "renew_lease env c secs db = (b1, db1)" by fastforce
  have e1: "moves {} db db1" using renew_lease_frame [of env c secs db] r by (intro moves_frame) simp
  have i1: "store_inv m db1" using renew_lease_inv [OF inv, of env c secs] r by simp
  show ?thesis
  proof (cases b1)
    case True
    with run s r obtain b2 db2 where u: "update_attempt (claim_key c) (owned_by c)
        (\<lambda>a. a\<lparr>a_heartbeat_at := tx_now env\<rparr>) db1 = Inr (b2, db2)"
      by (auto simp: heartbeat_attempt_def result_simps)
    have i2: "store_inv m db2" using i1 u by (rule update_attempt_inv) (simp add: same_attempt_def)
    have "moves {} db2 db'"
      using run s r u True
      by (cases ph) (auto simp: heartbeat_attempt_def result_simps job_still_def elim!: update_job_still [OF i2])
    with e1 update_attempt_still [OF u] show ?thesis using moves_still moves_all by blast
  qed (use run s r moves_all [OF e1] in \<open>auto simp: heartbeat_attempt_def result_simps\<close>)
qed

lemma request_cancellation_moves:
  assumes inv: "store_inv m db" and run: "request_cancellation env k db = Inr (r, db')"
  shows "moves UNIV db db'"
proof -
  from run obtain u where "update_job k (\<lambda>j. List.member [Queued, Claimed, Starting, Running] (j_state j))
      (cancelled_row env) db = Inr (u, db')"
    by (auto simp: request_cancellation_def result_simps)
  with inv show ?thesis
    by (rule update_job_moves [THEN moves_all]) (auto simp: job_moves_def cancelled_row_def legal_def)
qed

lemma schedule_retry_moves:
  assumes inv: "store_inv m db" and run: "schedule_retry env c s delay cat mx d db = Inr (b, db')"
  shows "moves UNIV db db'"
proof (cases "retry_candidate c s db")
  case None
  with run show ?thesis by (auto simp: schedule_retry_def result_simps)
next
  case (Some j)
  have l: "legal s Queued"
    using run by (auto simp: schedule_retry_def result_simps simp del: state_name.simps split: if_splits)
  from Some run obtain u v db1 db2 where
    1: "update_job (c_job_id c) (\<lambda>j. j_state j = s \<and> j_current_attempt j = c_attempt c)
          (\<lambda>j. j\<lparr>j_state := Queued, j_publication_state := NotStarted, j_error_category := Some cat,
              j_next_eligible_at := tx_now env + delay, j_updated_at := tx_now env\<rparr>) db = Inr (u, db1)" and
    2: "update_attempt (claim_key c) (owned_by c)
          (\<lambda>a. a\<lparr>a_is_current := False, a_finished_at := Some (tx_now env), a_result_category := Some cat,
              a_diagnostic_summary := coalesce d (a_diagnostic_summary a)\<rparr>) db1 = Inr (v, db2)" and
    3: "db' = snd (delete_lease (c_graph_id c) (lease_of_claim c) db2)"
    by (auto simp: schedule_retry_def result_simps)
  have "moves UNIV db db1"
    using inv 1 by (rule update_job_moves [THEN moves_all]) (use l in \<open>auto simp: job_moves_def\<close>)
  moreover have "moves {} db2 db'" unfolding 3 by (rule moves_frame) simp
  ultimately show ?thesis using update_attempt_still [OF 2] moves_still by blast
qed

lemma close_attempt_still: "close_attempt env c p e d db = Inr db' \<Longrightarrow> moves {} db db'"
  by (auto simp: close_attempt_def result_simps elim!: update_attempt_still)

lemma drop_lease_still: "drop_lease c db = Inr db' \<Longrightarrow> moves {} db db'"
  by (auto elim!: drop_lease_Inr intro: moves_frame)

lemma close_terminal_moves:
  assumes inv: "store_inv m db" and l: "legal ReconciliationRequired t" and t: "t \<noteq> Claimed"
    and run: "close_terminal env c t p e d db = Inr db'"
  shows "moves UNIV db db'"
proof -
  from run obtain u db1 db2 where
    1: "update_job (c_job_id c)
          (\<lambda>j. j_state j = ReconciliationRequired \<and> j_current_attempt j = c_attempt c)
          (\<lambda>j. j\<lparr>j_state := t, j_publication_state := p, j_error_category := e,
                j_finished_at := Some (tx_now env), j_updated_at := tx_now env\<rparr>) db = Inr (u, db1)" and
    2: "close_attempt env c p e d db1 = Inr db2" and 3: "drop_lease c db2 = Inr db'"
    by (auto simp: close_terminal_def result_simps)
  have "moves UNIV db db1"
    using inv 1 by (rule update_job_moves [THEN moves_all]) (use l t in \<open>auto simp: job_moves_def\<close>)
  then show ?thesis using close_attempt_still [OF 2] drop_lease_still [OF 3] moves_still by blast
qed

lemma queue_retry_moves:
  assumes inv: "store_inv m db" and run: "queue_retry env c p db = Inr db'"
  shows "moves UNIV db db'"
proof -
  from run obtain u db1 db2 where
    1: "update_job (c_job_id c)
          (\<lambda>j. j_state j = ReconciliationRequired \<and> j_current_attempt j = c_attempt c)
          (\<lambda>j. j\<lparr>j_state := Queued, j_publication_state := NotStarted,
                j_error_category := Some ''transient'', j_next_eligible_at := tx_now env + usec 1,
                j_updated_at := tx_now env\<rparr>) db = Inr (u, db1)" and
    2: "close_attempt env c p (Some ''transient'') None db1 = Inr db2" and 3: "drop_lease c db2 = Inr db'"
    by (auto simp: queue_retry_def result_simps)
  have "moves UNIV db db1"
    using inv 1 by (rule update_job_moves [THEN moves_all]) (auto simp: job_moves_def legal_def)
  then show ?thesis using close_attempt_still [OF 2] drop_lease_still [OF 3] moves_still by blast
qed

lemma reconcile_publication_moves:
  assumes inv: "store_inv m db" and run: "reconcile_publication env c mx ri re u db = Inr (r, db')"
  shows "moves UNIV db db'"
proof (cases "lock_evidence c db")
  case None
  with run show ?thesis by (auto simp: reconcile_publication_def result_simps)
next
  case (Some ev)
  obtain j a mk where "ev = (j, a, mk)" by (cases ev)
  with run Some have "reconcile_evidence env c mx u j a mk db = Inr (r, db')"
    by (simp add: reconcile_publication_def result_simps)
  then show ?thesis
  proof (cases rule: reconcile_evidence_cases)
    case (quarantined e)
    then have "moves UNIV (pause_graph_intent env c db) db'"
      using close_terminal_moves [OF pause_graph_intent_inv [OF inv] legal_from_reconciliation(4)] by blast
    moreover have "moves {} db (pause_graph_intent env c db)" by (rule moves_frame) simp
    ultimately show ?thesis using still_moves by blast
  qed (use legal_from_reconciliation [THEN close_terminal_moves [OF inv]] queue_retry_moves [OF inv] in auto)
qed

lemma recovered_legal: "active s \<Longrightarrow> s \<noteq> ReconciliationRequired \<Longrightarrow> legal s ReconciliationRequired"
  by (cases s) (simp_all add: legal_def active_def)

lemma recover_rows_counters:
  "foldE (recover_row env) rows db = Inr db' \<Longrightarrow> store_inv m db \<Longrightarrow> recovering rows0 db \<Longrightarrow> set rows \<subseteq> set rows0
   \<Longrightarrow> map_of (jobs db) k = Some j \<Longrightarrow> \<exists>j'. map_of (jobs db') k = Some j' \<and> j_current_attempt j' = j_current_attempt j"
proof (induction rows arbitrary: db j)
  case (Cons r rows)
  then obtain db1 where s: "recover_row env r db = Inr db1" "foldE (recover_row env) rows db1 = Inr db'"
    by (auto simp: result_simps)
  obtain i where i: "map_of (jobs db) (j_job_id r) = Some i" "active (j_state i)"
    using Cons.prems by (auto simp: recovering_def)
  from s(1) obtain u v db0 where
    1: "update_job (j_job_id r) (\<lambda>j. j_current_attempt j = j_current_attempt r)
       (\<lambda>j. j\<lparr>j_state := ReconciliationRequired, j_publication_state := CommitUnknown,
             j_error_category := Some ''publication_unknown'', j_updated_at := tx_now env\<rparr>) db = Inr (u, db0)"
    and 2: "jobs db1 = jobs db0"
    by (auto simp: recover_row_def result_simps)
  from 1 have "\<exists>j'. map_of (jobs db1) k = Some j' \<and> j_current_attempt j' = j_current_attempt j"
    by (rule update_job_cases) (use 2 Cons.prems(5) store_inv_job_id [OF Cons.prems(2)] in auto)
  moreover have "set rows \<subseteq> set rows0" using Cons.prems(4) by auto
  ultimately show ?case
    using Cons.IH [OF s(2) recover_row_inv [OF Cons.prems(2) i s(1)]
        recover_row_recovering [OF Cons.prems(2,3) s(1)]] by fastforce
qed simp

lemma recover_abandoned_attempts_moves:
  assumes inv: "store_inv m db" and run: "recover_abandoned_attempts env iid ep limit db = Inr (n, db')"
  shows "moves UNIV db db'"
proof -
  let ?rows = "take (nat limit) (select_by submission_order (abandoned iid ep db) (jobs db))"
  have fold: "foldE (recover_row env) ?rows db = Inr db'"
    using run by (auto simp: recover_abandoned_attempts_def Let_def result_simps)
  note rec = abandoned_recovering [OF inv, of "nat limit" iid ep]
  note fx = recover_rows_effect [OF fold inv rec subset_refl] recover_rows_counters [OF fold inv rec subset_refl]
  have "\<exists>j'. map_of (jobs db') k = Some j' \<and> job_moves j j'" if k: "map_of (jobs db) k = Some j" for k j
  proof (cases "k \<in> j_job_id ` set ?rows")
    case True
    then have "active (j_state j)" using rec k by (auto simp: recovering_def)
    with fx(1) [OF True] fx(3) [OF k] recovered_legal show ?thesis by (fastforce simp: job_moves_def)
  next
    case False
    then show ?thesis using fx(2) [of k] k by auto
  qed
  then show ?thesis by (simp add: moves_def)
qed

lemma execute_durable_closure_moves:
  assumes inv: "store_inv m db" and "execute_durable_closure env clk locks c ri re fence closer db = Inr (b, db')"
  shows "moves UNIV db db'"
  using assms(2)
proof (cases rule: execute_durable_closure_cases)
  case closed
  then obtain u v db1 where
    1: "update_job (c_job_id c)
       (\<lambda>j. j_current_attempt j = c_attempt c \<and> j_state j = ReconciliationRequired)
       (\<lambda>j. j\<lparr>j_publication_state := NotStarted, j_updated_at := tx_now env\<rparr>) db = Inr (u, db1)"
    and 2: "update_attempt (claim_key c) a_is_current
       (\<lambda>a. a\<lparr>a_publication_state := NotStarted, a_registration_digest := None\<rparr>) db1 = Inr (v, db')"
    by (auto simp: persist_not_started_def result_simps)
  have "moves {} db db1" using inv 1 by (rule update_job_still) (simp_all add: job_still_def)
  then show ?thesis using update_attempt_still [OF 2] moves_still moves_all by blast
qed simp

lemma quarantine_legacy_attempt_moves:
  assumes inv: "store_inv m db" and "quarantine_legacy_attempt env clk locks c ri re fence db = Inr (b, db')"
  shows "moves UNIV db db'"
  using assms(2)
proof (cases rule: quarantine_legacy_attempt_cases)
  case quarantined
  then obtain u v db1 db2 where
    1: "update_job (c_job_id c)
       (\<lambda>j. j_current_attempt j = c_attempt c \<and> j_state j = ReconciliationRequired)
       (\<lambda>j. j\<lparr>j_state := Quarantined, j_publication_state := CommitUnknown,
             j_error_category := Some ''legacy_zero_epoch'',
             j_finished_at := Some (tx_now env), j_updated_at := tx_now env\<rparr>) db = Inr (u, db1)"
    and 2: "update_attempt (claim_key c) (owned_by c)
       (closed_attempt env CommitUnknown (Some ''legacy_zero_epoch'') None) db1 = Inr (v, db2)"
    and 3: "(let (ok, db3) = delete_lease (c_graph_id c)
           (\<lambda>l. lease_of_claim c l \<and> gl_graph_lease_epoch l = 0) db2
       in guardE ok (StaleDurableAuthorityError ''legacy lease deletion failed'')
          (Inr (clear_running (c_graph_id c) (c_job_id c) db3))) = Inr db'"
    unfolding quarantine_rows_def bindE_Inr_iff guardE_Inr_iff split_paired_Ex prod.case by blast
  have "moves UNIV db db1"
    using inv 1 by (rule update_job_moves [THEN moves_all]) (auto simp: job_moves_def)
  moreover have "moves {} db2 db'"
    using 3 by (intro moves_frame) (auto simp: result_simps delete_lease_def split: option.splits if_splits)
  ultimately show ?thesis using update_attempt_still [OF 2] moves_still by blast
qed simp

lemma jobs_frame:
  "acquire_singleton env iid ttl db = Inr (e, db') \<Longrightarrow> jobs db' = jobs db"
  "heartbeat_singleton env iid ep ttl db = Inr (b, db') \<Longrightarrow> jobs db' = jobs db"
  "stop_singleton env iid ep db = Inr (b, db') \<Longrightarrow> jobs db' = jobs db"
  "release_graph_lease env g k n oi oe iid ep db = Inr (b, db') \<Longrightarrow> jobs db' = jobs db"
  "mark_attempt_terminated env c pr iid ep d db = Inr (b, db') \<Longrightarrow> jobs db' = jobs db"
  "persist_supervisor_registration env locks c dg db = Inr db' \<Longrightarrow> jobs db' = jobs db"
  "in_process_currency_context env locks c odg decide db = Inr (out, db') \<Longrightarrow> jobs db' = jobs db"
  "record_publication_marker env c run gens outcome db = Inr (b, db') \<Longrightarrow> jobs db' = jobs db"
  "record_current env g gens delay db = Inr (b, db') \<Longrightarrow> jobs db' = jobs db"
  "record_condition env g cat delay db = Inr (b, db') \<Longrightarrow> jobs db' = jobs db"
           apply (auto simp: acquire_singleton_def result_simps split: option.splits if_splits)[1]
          apply (auto simp: heartbeat_singleton_def result_simps split: option.splits if_splits)[1]
         apply (auto simp: stop_singleton_def result_simps split: option.splits if_splits)[1]
        apply (auto simp: release_graph_lease_def delete_lease_def split: option.splits if_splits)[1]
       apply (auto simp: mark_attempt_terminated_def result_simps)[1]
      apply (auto elim!: persist_supervisor_registration_Inr)[1]
     apply (auto elim!: in_process_currency_context_Inr)[1]
    apply (auto elim!: record_publication_marker_cases)[1]
   apply (auto simp: record_current_def result_simps update_intent_def split: option.splits)[1]
  apply (auto simp: record_condition_def result_simps update_intent_def split: option.splits)[1]
  done

section \<open>Steps\<close>

lemma step_moves:
  assumes "store_step limits sha256 (db, C) (db', C')" and inv: "store_inv (max_retry_attempts limits) db"
    and m: "0 \<le> max_retry_attempts limits"
  shows "moves UNIV db db' \<or> retention db db'"
proof -
  have new: "moves UNIV db db' \<Longrightarrow> ?thesis" and same: "jobs db' = jobs db \<Longrightarrow> ?thesis"
    using moves_frame by blast+
  from assms(1) show ?thesis
  proof (cases rule: store_step_cases)
    case submit then show ?thesis by (intro new submit_transaction_moves submit_Inr(1))
  next
    case coalesce
    then show ?thesis by (intro new coalesce_transaction_moves [OF inv m] coalesce_automatic_Inr(1))
  next
    case claim then show ?thesis by (intro new claim_once_moves [OF inv])
  next
    case compare_and_set then show ?thesis by (intro new compare_and_set_state_moves [OF inv])
  next
    case heartbeat then show ?thesis by (intro new heartbeat_attempt_moves [OF inv])
  next
    case cancel then show ?thesis by (intro new request_cancellation_moves [OF inv])
  next
    case retry then show ?thesis by (intro new schedule_retry_moves [OF inv])
  next
    case reconcile then show ?thesis by (intro new reconcile_publication_moves [OF inv])
  next
    case recover then show ?thesis by (intro new recover_abandoned_attempts_moves [OF inv])
  next
    case close_unpublished then show ?thesis by (intro new execute_durable_closure_moves [OF inv])
  next
    case quarantine_legacy then show ?thesis by (intro new quarantine_legacy_attempt_moves [OF inv])
  next
    case (cleanup env age limit dry retirer rep)
    obtain ids where "forgets ids db db'" and
      "set ids \<subseteq> set (cleanup_candidates env age (scan_limit limit (retirer \<noteq> None)) db)"
      using cleanup_forgets [OF cleanup(2)] by blast
    then show ?thesis using forgotten_terminal [OF inv] unfolding retention_def by (meson subsetD)
  qed (auto intro!: same dest: jobs_frame)
qed

text \<open>A job that appears starts its life in the queue.\<close>

lemma submitted_queued:
  assumes "submit_transaction env sha256 new_id request requester limits db = Inr (r, db')"
    and "map_of (jobs db) k = None" and "map_of (jobs db') k = Some j"
  shows "j_state j = Queued \<and> j_current_attempt j = 0"
  using assms
  by (auto simp: submit_transaction_def Let_def result_simps new_job_def split: option.splits if_splits
      dest!: insert_job_Inr)

lemma coalesced_queued:
  assumes inv: "store_inv m db" and m: "0 \<le> m"
    and run: "coalesce_transaction env sha256 new_id request requester limits db = Inr (r, db')"
    and k: "map_of (jobs db) k = None" "map_of (jobs db') k = Some j"
  shows "j_state j = Queued \<and> j_current_attempt j = 0"
proof (cases "coalesced_job (request_generations request) (map_of (intents db) (graph_id request)) db")
  case None
  with run obtain db1 db2 db3 replaced fp dg where
    1: "supersede env replaced db = Inr db1" and
    2: "insert_job (new_job env new_id request requester dg fp 50) db1 = Inr db2" and
    3: "link_replacement replaced new_id db2 = Inr db3" and
    4: "db' = upsert_intent env request new_id (request_generations request) db3"
    by (auto simp: coalesce_transaction_def Let_def result_simps split: if_splits)
  have i2: "store_inv m db2"
    using supersede_inv [OF inv 1] 2 m by (elim insert_job_inv) (auto simp: new_job_def)
  have k1: "map_of (jobs db1) k = None"
    using 1 k(1) store_inv_job_id [OF inv]
    by (auto simp: supersede_def result_simps split: option.splits elim!: update_job_cases)
  have s3: "moves {} db2 db3"
    using 3 by (auto simp: link_replacement_def result_simps job_still_def split: option.splits
        elim!: update_job_still [OF i2])
  have k3: "map_of (jobs db3) k = Some j" using k(2) unfolding 4 by (simp add: upsert_intent_def Let_def)
  have "map_of (jobs db2) k \<noteq> None"
    using 3 k3 store_inv_job_id [OF i2]
    by (auto simp: link_replacement_def result_simps split: option.splits if_splits
        elim!: update_job_cases)
  then obtain j2 where j2: "map_of (jobs db2) k = Some j2" by blast
  then have "job_still j2 j" using s3 k3 by (fastforce simp: moves_def)
  moreover have "j_state j2 = Queued \<and> j_current_attempt j2 = 0"
    using j2 k1 2 by (auto simp: new_job_def dest!: insert_job_Inr split: if_splits)
  ultimately show ?thesis by (simp add: job_still_def)
qed (use run k in \<open>auto simp: coalesce_transaction_def Let_def split: if_splits\<close>)

lemma step_appears:
  assumes "store_step limits sha256 (db, C) (db', C')" and inv: "store_inv (max_retry_attempts limits) db"
    and m: "0 \<le> max_retry_attempts limits"
    and "map_of (jobs db) k = None" and "map_of (jobs db') k = Some j"
  shows "j_state j = Queued \<and> j_current_attempt j = 0"
  using step_kinds [OF assms(1) inv]
proof (elim disjE)
  assume "evolves {} db db'"
  from evolvesD(6) [OF this, of k] assms(4,5) show ?thesis by simp
next
  assume "admission limits sha256 C db db'"
  then show ?thesis
    unfolding admission_def using submitted_queued coalesced_queued [OF inv m] assms(4,5) by metis
next
  assume "retention db db'"
  then obtain ids where "forgets ids db db'" unfolding retention_def by blast
  then have "map_of (jobs db') k = (if k \<in> set ids then None else map_of (jobs db) k)"
    unfolding forgets_def by blast
  with assms(4,5) show ?thesis by (simp split: if_splits)
qed

text \<open>
  Claim C5 (job life cycle): one transaction leaves the state and the attempt counter of a job as they
  are, or moves the job along one legal transition, raising the counter by one if it becomes claimed
  and not otherwise. It never changes the job's graph, generations or idempotency key and never touches
  the state of a terminal job; a job that disappears was terminal, and a job that appears is queued
  with no attempt used.
\<close>

theorem job_life_cycle:
  assumes "reachable limits sha256 (db, C)" and "0 \<le> max_retry_attempts limits"
    and "store_step limits sha256 (db, C) (db', C')"
  shows "(\<forall>k j. map_of (jobs db) k = Some j \<longrightarrow>
            (case map_of (jobs db') k of
               None \<Rightarrow> terminal (j_state j)
             | Some j' \<Rightarrow> same_job j j' \<and> (terminal (j_state j) \<longrightarrow> j_state j' = j_state j)
                 \<and> (if j_state j' = j_state j then j_current_attempt j' = j_current_attempt j
                    else legal (j_state j) (j_state j')
                      \<and> j_current_attempt j' = j_current_attempt j + (if j_state j' = Claimed then 1 else 0))))
    \<and> (\<forall>k j'. map_of (jobs db) k = None \<longrightarrow> map_of (jobs db') k = Some j' \<longrightarrow>
            j_state j' = Queued \<and> j_current_attempt j' = 0)"
proof -
  have sinv: "system_inv limits (db, C)" using reachable_system_inv [OF assms(1,2)] .
  then have inv: "store_inv (max_retry_attempts limits) db" by (simp add: system_inv_def)
  have known: "case map_of (jobs db') k of None \<Rightarrow> terminal (j_state j)
      | Some j' \<Rightarrow> same_job j j' \<and> job_moves j j'" if k: "map_of (jobs db) k = Some j" for k j
  proof (cases "retention db db'")
    case True
    with k show ?thesis by (auto simp: retention_def forgets_def)
  next
    case False
    with step_moves [OF assms(3) inv assms(2)] k obtain j' where j': "map_of (jobs db') k = Some j'" "job_moves j j'"
      unfolding moves_def by blast
    from step_advances [OF assms(3) sinv assms(2)] False obtain N where "evolves N db db'"
      unfolding advances_def retention_def by blast
    from evolvesD(1) [OF this k] j' show ?thesis by (auto simp: job_evolves_def)
  qed
  show ?thesis
  proof (intro conjI allI impI)
    fix k j assume "map_of (jobs db) k = Some j"
    from known [OF this] show "case map_of (jobs db') k of None \<Rightarrow> terminal (j_state j)
      | Some j' \<Rightarrow> same_job j j' \<and> (terminal (j_state j) \<longrightarrow> j_state j' = j_state j)
          \<and> (if j_state j' = j_state j then j_current_attempt j' = j_current_attempt j
             else legal (j_state j) (j_state j')
               \<and> j_current_attempt j' = j_current_attempt j + (if j_state j' = Claimed then 1 else 0))"
      using terminal_absorbing by (auto simp: job_moves_def split: option.splits if_splits)
  qed (use step_appears [OF assms(3) inv assms(2)] in auto)
qed

theorem job_life_cycle_witness:
  "\<exists>j j'. map_of (jobs demo_queued) ''j1'' = Some j \<and> map_of (jobs demo_claimed) ''j1'' = Some j'
     \<and> j_state j = Queued \<and> j_state j' = Claimed \<and> same_job j j' \<and> legal (j_state j) (j_state j')
     \<and> j_current_attempt j' = j_current_attempt j + 1"
proof -
  have rows: "map_of (jobs demo_queued) ''j1'' = Some (demo_job Queued 0 20)"
    "map_of (jobs demo_claimed) ''j1'' = Some (demo_job Claimed 1 30)"
    by (simp_all add: demo_queued_def demo_claimed_def demo_db_def)
  moreover have st: "j_state (demo_job Queued 0 20) = Queued" "j_state (demo_job Claimed 1 30) = Claimed"
    by code_simp+
  ultimately show ?thesis
    using job_life_cycle [OF demo_queued_reachable demo_limits store_step.claim [OF demo_claim_step],
        THEN conjunct1, rule_format, OF rows(1)] by simp
qed

end
