(* ===== verification/Coordinator_Calls.thy ===== *)
theory Coordinator_Calls
  imports Control_Admission Control_Restart
begin

text \<open>
  How a coordinator process drives the control store. A coordinator method is a program over the
  coordinator's own fields and the database that may raise; what it changed before an exception stays
  changed. Every store call is one transaction that runs on what other coordinators, clients and
  supervisors have committed in between (\<open>w_others\<close>), and that may fail on its connection before or
  after it committed (\<open>w_fail\<close>).
\<close>

section \<open>The coordinator and its surroundings\<close>

type_synonym dict = "(string \<times> pyval) list"

record RecoveryDiagnostic =
  d_sequence :: int
  d_error_type :: string
  d_category :: string
  d_summary :: string

record StartupRecoveryReport =
  r_scanned :: int
  r_resolved :: int
  r_pending :: int
  r_route_changed :: int
  r_unavailable :: int
  r_residuals :: int
  r_refused :: int
  r_unexpected :: "string list"

record coordinator =
  co_instance_id :: string
  co_epoch :: "int option"
  co_max_workers :: int
  co_singleton_ttl :: int
  co_lease_ttl :: int
  co_active_workers :: int
  co_manual_claims :: int
  co_active_cancellations :: "(string \<times> bool) list"
  co_residual_evidence :: "string list"
  co_recovery_report :: "StartupRecoveryReport option"
  co_recovery_diagnostics :: "RecoveryDiagnostic list"
  co_diagnostic_sequence :: int

record core_state =
  k_db :: control_db
  k_calls :: nat
  k_coord :: coordinator

text \<open>
  \<open>w_env\<close>, \<open>w_others\<close> and \<open>w_fail\<close> describe the \<open>i\<close>-th store call; \<open>w_meets\<close> the races the tries of a
  claim meet; \<open>w_activity\<close> whether the shared maintenance lock is granted. The worker runner, the
  publication reader, retirer and closer are the callbacks the coordinator is built with, the fence
  callback the one its store is given; \<open>w_clocks\<close> and \<open>w_locks\<close> are what the \<open>i\<close>-th store call sees when it
  closes behind a fence. \<open>w_worker\<close> is told
  whether the cancellation event was set at launch, and \<open>w_cancelled\<close> says whether a client's
  cancellation set it while the worker ran. \<open>w_str\<close> is \<^verbatim>\<open>str(value)\<close> of a value that is not a string,
  \<open>w_adapt\<close> the text PostgreSQL stores for such a parameter, \<open>w_diagnostic\<close> the redacted text the
  coordinator keeps of an exception.
\<close>

record core_world =
  w_env :: "nat \<Rightarrow> tx_env"
  w_others :: "nat \<Rightarrow> control_db \<Rightarrow> control_db"
  w_fail :: "nat \<Rightarrow> (bool \<times> py_error) option"
  w_meets :: "nat \<Rightarrow> control_db \<Rightarrow> nat \<Rightarrow> control_db \<times> py_error option"
  w_activity :: bool
  w_worker :: "JobClaim \<Rightarrow> bool \<Rightarrow> dict result"
  w_cancelled :: bool
  w_reader :: "(JobClaim \<Rightarrow> dict option result) option"
  w_retirer :: "(JobClaim \<Rightarrow> unit result) option"
  w_closer :: "file_closer option"
  w_fence :: "fence_callback option"
  w_clocks :: "nat \<Rightarrow> nat \<Rightarrow> int"
  w_locks :: "nat \<Rightarrow> unit result"
  w_jitter :: rat
  w_str :: "pyval \<Rightarrow> string"
  w_adapt :: "pyval \<Rightarrow> string"
  w_diagnostic :: "py_error \<Rightarrow> string"

section \<open>Programs\<close>

type_synonym 'a core = "core_state \<Rightarrow> 'a result \<times> core_state"

definition returnC :: "'a \<Rightarrow> 'a core" where "returnC x s = (Inr x, s)"

definition raiseC :: "py_error \<Rightarrow> 'a core" where "raiseC e s = (Inl e, s)"

definition liftC :: "'a result \<Rightarrow> 'a core" where "liftC r s = (r, s)"

definition bindC :: "'a core \<Rightarrow> ('a \<Rightarrow> 'b core) \<Rightarrow> 'b core" where
  "bindC m f s = (case m s of (Inl e, s') \<Rightarrow> (Inl e, s') | (Inr x, s') \<Rightarrow> f x s')"

definition seqC :: "'a core \<Rightarrow> 'b core \<Rightarrow> 'b core" where
  "seqC m k = bindC m (\<lambda>_. k)"

definition catchC :: "'a core \<Rightarrow> (py_error \<Rightarrow> 'a core) \<Rightarrow> 'a core" where
  \<comment> \<open>\<^verbatim>\<open>try: m except: handler\<close>; a handler that re-raises is \<^const>\<open>raiseC\<close>\<close>
  "catchC m handler s = (case m s of (Inl e, s') \<Rightarrow> handler e s' | (Inr x, s') \<Rightarrow> (Inr x, s'))"

definition finallyC :: "'a core \<Rightarrow> (coordinator \<Rightarrow> coordinator) \<Rightarrow> 'a core" where
  "finallyC m f s = (case m s of (r, s') \<Rightarrow> (r, s'\<lparr>k_coord := f (k_coord s')\<rparr>))"

definition readC :: "(coordinator \<Rightarrow> 'a) \<Rightarrow> 'a core" where
  "readC f s = (Inr (f (k_coord s)), s)"

definition modifyC :: "(coordinator \<Rightarrow> coordinator) \<Rightarrow> unit core" where
  "modifyC f s = (Inr (), s\<lparr>k_coord := f (k_coord s)\<rparr>)"

definition callC :: "core_world \<Rightarrow> (tx_env \<Rightarrow> control_db \<Rightarrow> ('a \<times> control_db) result) \<Rightarrow> 'a core" where
  \<comment> \<open>one store call\<close>
  "callC w f s =
     (let i = k_calls s;
          db = w_others w i (k_db s);
          s1 = s\<lparr>k_db := db, k_calls := Suc i\<rparr>
      in case f (w_env w i) db of
           Inl e \<Rightarrow> (Inl e, s1)
         | Inr (x, db') \<Rightarrow>
             (case w_fail w i of
                None \<Rightarrow> (Inr x, s1\<lparr>k_db := db'\<rparr>)
              | Some (applied, e) \<Rightarrow> (Inl e, s1\<lparr>k_db := (if applied then db' else db)\<rparr>)))"

lemmas core_prim_defs = returnC_def raiseC_def liftC_def readC_def modifyC_def finallyC_def

section \<open>Values a worker reports\<close>

definition py_str :: "core_world \<Rightarrow> pyval \<Rightarrow> string" where
  "py_str w v = (case v of VStr s \<Rightarrow> s | _ \<Rightarrow> w_str w v)"

definition sql_text :: "core_world \<Rightarrow> pyval \<Rightarrow> string" where
  "sql_text w v = (case v of VStr s \<Rightarrow> s | _ \<Rightarrow> w_adapt w v)"

fun py_truthy :: "pyval \<Rightarrow> bool" where
  "py_truthy VNone = False"
| "py_truthy (VBool b) = b"
| "py_truthy (VInt i) = (i \<noteq> 0)"
| "py_truthy (VFloat r) = (r \<noteq> 0)"
| "py_truthy (VStr s) = (s \<noteq> [])"
| "py_truthy (VList xs) = (xs \<noteq> [])"
| "py_truthy (VDict d) = (d \<noteq> [])"

fun py_in :: "pyval \<Rightarrow> string list \<Rightarrow> bool result" where
  \<comment> \<open>\<^verbatim>\<open>value in {...}\<close> for a set of strings: a list or a dict is not hashable\<close>
  "py_in (VList _) names = Inl (TypeError ''unhashable type'')"
| "py_in (VDict _) names = Inl (TypeError ''unhashable type'')"
| "py_in (VStr s) names = Inr (List.member names s)"
| "py_in _ names = Inr False"

definition timedelta_seconds :: "rat \<Rightarrow> int" where
  \<comment> \<open>\<^verbatim>\<open>timedelta(seconds=r)\<close> in microseconds: rounded, ties to even\<close>
  "timedelta_seconds r =
     (let x = r * 1000000; f = \<lfloor>x\<rfloor>; d = x - of_int f
      in if d < 1 / 2 then f else if d > 1 / 2 then f + 1 else if even f then f else f + 1)"

lemma timedelta_seconds_nonneg: "0 \<le> r \<Longrightarrow> 0 \<le> timedelta_seconds r"
  by (simp add: timedelta_seconds_def Let_def)

section \<open>Reasoning about programs\<close>

lemma core_simps [simp]:
  "seqC (modifyC f) m s = m (s\<lparr>k_coord := f (k_coord s)\<rparr>)"
  "bindC (readC g) h s = h (g (k_coord s)) s"
  "bindC (returnC x) h = h x"
  "seqC (returnC x) m = m"
  "bindC (raiseC e) h s = (Inl e, s)"
  "raiseC e s = (Inl e, s)" "returnC x s = (Inr x, s)"
  by (simp_all add: fun_eq_iff seqC_def bindC_def modifyC_def readC_def returnC_def raiseC_def)

lemma bindC_cases:
  assumes "bindC m f s = (r, s')"
  obtains (raised) e where "m s = (Inl e, s')" and "r = Inl e"
    | (ok) x s1 where "m s = (Inr x, s1)" and "f x s1 = (r, s')"
  using assms by (auto simp: bindC_def split: prod.splits sum.splits)

lemma catchC_cases:
  assumes "catchC m h s = (r, s')"
  obtains (raised) e s1 where "m s = (Inl e, s1)" and "h e s1 = (r, s')"
    | (ok) x where "m s = (Inr x, s')" and "r = Inr x"
  using assms by (auto simp: catchC_def split: prod.splits sum.splits)

lemma finallyC_cases:
  assumes "finallyC m f s = (r, s')"
  obtains s1 where "m s = (r, s1)" and "s' = s1\<lparr>k_coord := f (k_coord s1)\<rparr>"
  using assms by (auto simp: finallyC_def split: prod.splits)

lemma callC_cases:
  assumes "callC w f s = (r, s')"
  obtains (refused) e where "f (w_env w (k_calls s)) (w_others w (k_calls s) (k_db s)) = Inl e"
      and "r = Inl e" and "k_db s' = w_others w (k_calls s) (k_db s)"
      and "k_calls s' = Suc (k_calls s)" and "k_coord s' = k_coord s"
    | (committed) x db' where "f (w_env w (k_calls s)) (w_others w (k_calls s) (k_db s)) = Inr (x, db')"
      and "r = Inr x \<or> (\<exists>e. r = Inl e)" and "k_db s' = db'"
      and "k_calls s' = Suc (k_calls s)" and "k_coord s' = k_coord s"
    | (lost) x db' e where "f (w_env w (k_calls s)) (w_others w (k_calls s) (k_db s)) = Inr (x, db')"
      and "r = Inl e" and "k_db s' = w_others w (k_calls s) (k_db s)"
      and "k_calls s' = Suc (k_calls s)" and "k_coord s' = k_coord s"
  using assms
  by (auto simp: callC_def Let_def split: sum.splits prod.splits option.splits if_splits)

lemma callC_Inr:
  assumes "callC w f s = (Inr x, s')"
  shows "f (w_env w (k_calls s)) (w_others w (k_calls s) (k_db s)) = Inr (x, k_db s')"
    and "k_coord s' = k_coord s" and "k_calls s' = Suc (k_calls s)"
  using assms by (auto simp: callC_def Let_def split: sum.splits prod.splits option.splits if_splits)

text \<open>
  A program relates the states before and after it, also when it raises; the relations used below are
  reflexive and transitive, so they compose along the program.
\<close>

definition relates :: "(core_state \<Rightarrow> core_state \<Rightarrow> bool) \<Rightarrow> 'a core \<Rightarrow> bool" where
  "relates R m = (\<forall>s r s'. m s = (r, s') \<longrightarrow> R s s')"

lemma relatesI: "(\<And>s r s'. m s = (r, s') \<Longrightarrow> R s s') \<Longrightarrow> relates R m"
  by (simp add: relates_def)

lemma relatesD: "relates R m \<Longrightarrow> m s = (r, s') \<Longrightarrow> R s s'"
  by (simp add: relates_def)

lemma relates_prim:
  assumes "reflp R"
  shows "relates R (returnC x)" "relates R (raiseC e)" "relates R (liftC r)" "relates R (readC f)"
  using assms by (auto simp: relates_def liftC_def readC_def dest: reflpD)

lemma relates_modify: "(\<And>s. R s (s\<lparr>k_coord := f (k_coord s)\<rparr>)) \<Longrightarrow> relates R (modifyC f)"
  by (auto simp: relates_def modifyC_def)

lemma relates_bind:
  assumes "transp R" and "relates R m" and "\<And>x. relates R (f x)"
  shows "relates R (bindC m f)"
  by (rule relatesI, erule bindC_cases) (use assms in \<open>auto dest!: relatesD intro: transpE\<close>)

lemma relates_seq: "transp R \<Longrightarrow> relates R m \<Longrightarrow> relates R m' \<Longrightarrow> relates R (seqC m m')"
  unfolding seqC_def by (rule relates_bind)

lemma relates_catch:
  assumes "transp R" and "relates R m" and "\<And>e. relates R (h e)"
  shows "relates R (catchC m h)"
  by (rule relatesI, erule catchC_cases) (use assms in \<open>auto dest!: relatesD intro: transpE\<close>)

lemma relates_if:
  "(b \<Longrightarrow> relates R m) \<Longrightarrow> (\<not> b \<Longrightarrow> relates R m') \<Longrightarrow> relates R (if b then m else m')"
  by simp

lemma relates_option:
  "relates R m \<Longrightarrow> (\<And>x. relates R (f x)) \<Longrightarrow> relates R (case v of None \<Rightarrow> m | Some x \<Rightarrow> f x)"
  by (simp split: option.split)

lemma relates_call:
  assumes "transp R" and "\<And>s i. R s (s\<lparr>k_db := w_others w i (k_db s), k_calls := Suc i\<rparr>)"
    and "\<And>s env x db'. f env (k_db s) = Inr (x, db') \<Longrightarrow> R s (s\<lparr>k_db := db'\<rparr>)"
  shows "relates R (callC w f)"
proof (rule relatesI)
  fix s r s'
  assume c: "callC w f s = (r, s')"
  define s1 where "s1 = s\<lparr>k_db := w_others w (k_calls s) (k_db s), k_calls := Suc (k_calls s)\<rparr>"
  have "R s s1" using assms(2) by (simp add: s1_def)
  moreover have "s' = s1 \<or> R s1 s'"
    using c assms(3) [of "w_env w (k_calls s)" s1]
    by (auto simp: callC_def Let_def s1_def split: sum.splits prod.splits option.splits)
  ultimately show "R s s'" using assms(1) by (auto intro: transpE)
qed

lemmas relates_intros = relates_prim relates_bind relates_seq relates_catch relates_if relates_option

end
