(* ===== verification/Coordinator_Core.thy ===== *)
theory Coordinator_Core
  imports Coordinator_Calls
begin

text \<open>
  The coordinator's work loop (\<^verbatim>\<open>core.py\<close>, \<^verbatim>\<open>_core_disposition.py\<close>): claiming with a bounded burst of manual
  jobs, the two transitions before the launch, the disposition of what the worker reported, the
  reconciliation that may follow, cancellation, heartbeats, cleanup and shutdown.
\<close>

section \<open>Shared steps\<close>

definition not_started :: py_error where
  "not_started = RuntimeError ''coordinator is not started''"

definition require_started :: "int core" where
  "require_started s = (case co_epoch (k_coord s) of None \<Rightarrow> (Inl not_started, s) | Some e \<Rightarrow> (Inr e, s))"

definition transition ::
  "core_world \<Rightarrow> JobClaim \<Rightarrow> JobState \<Rightarrow> JobState \<Rightarrow> PublicationState option \<Rightarrow> string option
   \<Rightarrow> string option \<Rightarrow> bool core" where
  "transition w c expected new_state publication error diagnostic =
     callC w (\<lambda>env. compare_and_set_state env (c_job_id c) expected new_state (c_attempt c)
       (c_instance_id c) (c_fencing_epoch c) publication error diagnostic)"

definition mark_reconciliation ::
  "core_world \<Rightarrow> JobClaim \<Rightarrow> JobState \<Rightarrow> string \<Rightarrow> string option \<Rightarrow> PublicationState \<Rightarrow> bool core" where
  "mark_reconciliation w c expected category diagnostic publication =
     callC w (\<lambda>env. mark_reconciliation_required env c expected category diagnostic publication)"

definition read_state :: "core_world \<Rightarrow> JobClaim \<Rightarrow> JobState core" where
  \<comment> \<open>\<^verbatim>\<open>self._store.status(claim.job_id).state\<close>\<close>
  "read_state w c = callC w (\<lambda>env db. bindE (status (c_job_id c) db) (\<lambda>r. Inr (s_state r, db)))"

definition worker_finished :: "coordinator \<Rightarrow> coordinator" where
  "worker_finished k = k\<lparr>co_active_workers := co_active_workers k - 1\<rparr>"

definition residual_token :: "JobClaim \<Rightarrow> py_error \<Rightarrow> string" where
  "residual_token c e =
     c_job_id c @ '':'' @ int_text (c_attempt c) @ '':'' @ sanitize_error_category e"

definition add_residual :: "string \<Rightarrow> coordinator \<Rightarrow> coordinator" where
  "add_residual token k =
     (if int (length (co_residual_evidence k)) < max_array_items DEFAULT_LIMITS
      then k\<lparr>co_residual_evidence := co_residual_evidence k @ [token]\<rparr> else k)"

section \<open>Disposition\<close>

definition retire_evidence :: "core_world \<Rightarrow> JobClaim \<Rightarrow> unit core" where
  "retire_evidence w c =
     (case w_retirer w of
        None \<Rightarrow> returnC ()
      | Some retire \<Rightarrow>
          (case retire c of
             Inr _ \<Rightarrow> returnC ()
           | Inl e \<Rightarrow>
               if is_OSError e \<or> is_ValueError e then modifyC (add_residual (residual_token c e))
               else raiseC e))"

definition release_terminal_lease :: "core_world \<Rightarrow> JobClaim \<Rightarrow> unit core" where
  "release_terminal_lease w c =
     bindC require_started (\<lambda>epoch.
     bindC (readC co_instance_id) (\<lambda>iid.
     bindC (callC w (\<lambda>env. release_graph_lease env (c_graph_id c) (c_job_id c) (c_attempt c)
              (c_instance_id c) (c_fencing_epoch c) iid epoch)) (\<lambda>released.
     if released then returnC ()
     else raiseC (RuntimeError ''terminal graph lease release failed''))))"

definition active_expected_state :: "core_world \<Rightarrow> JobClaim \<Rightarrow> bool \<Rightarrow> JobState core" where
  "active_expected_state w c event =
     bindC (read_state w c) (\<lambda>st.
     returnC (if st = CancelRequested \<or> event then CancelRequested else Running))"

definition finish_prestart_cancel :: "core_world \<Rightarrow> JobClaim \<Rightarrow> string core" where
  "finish_prestart_cancel w c =
     bindC (read_state w c) (\<lambda>st.
     if st \<noteq> CancelRequested then returnC ''ownership_lost''
     else bindC (transition w c CancelRequested Cancelling None None None) (\<lambda>ok.
     if \<not> ok then returnC ''ownership_lost''
     else bindC (transition w c Cancelling Cancelled (Some NotStarted) (Some ''cancelled'') None) (\<lambda>ok.
     if \<not> ok then returnC ''ownership_lost''
     else seqC (release_terminal_lease w c)
         (seqC (retire_evidence w c) (returnC ''cancelled'')))))"

definition MARKER_FIELDS :: "string list" where
  "MARKER_FIELDS = [''latest_run_identity'', ''source_generation'', ''config_generation'',
     ''extractor_generation'', ''canonicalizer_generation'']"

definition record_marker_if_available :: "core_world \<Rightarrow> JobClaim \<Rightarrow> dict \<Rightarrow> bool core" where
  "record_marker_if_available w c report =
     (if list_ex (\<lambda>field. dict_get report field = VNone) MARKER_FIELDS then returnC False
      else let text = (\<lambda>field. sql_text w (dict_get report field))
           in seqC (callC w (\<lambda>env. record_publication_marker env c (text ''latest_run_identity'')
                       (text ''source_generation'', text ''config_generation'',
                        text ''extractor_generation'', text ''canonicalizer_generation'') ''committed''))
                (returnC True))"

definition outcome_name :: "reconcile_outcome \<Rightarrow> string" where
  "outcome_name out = (case out of OwnershipLost \<Rightarrow> ''ownership_lost'' | Outcome t \<Rightarrow> state_name t)"

definition read_publication :: "core_world \<Rightarrow> JobClaim \<Rightarrow> dict option result" where
  "read_publication w c =
     (case w_reader w of
        None \<Rightarrow> Inr None
      | Some reader \<Rightarrow>
          (case reader c of
             Inr m \<Rightarrow> Inr m
           | Inl e \<Rightarrow> if is_OSError e \<or> is_RuntimeError e \<or> is_ValueError e then Inr None else Inl e))"

definition reconcile_current :: "core_world \<Rightarrow> JobClaim \<Rightarrow> string core" where
  "reconcile_current w c =
     bindC (liftC (read_publication w c)) (\<lambda>marker.
     bindC (case marker of
              None \<Rightarrow> returnC False
            | Some m \<Rightarrow>
                seqC (catchC (record_marker_if_available w c m)
                        (\<lambda>e. if is_ValueError e then returnC False else raiseC e))
                  (returnC (dict_get m ''publication_state'' = VStr ''not_started''))) (\<lambda>unpublished.
     bindC require_started (\<lambda>epoch.
     bindC (readC co_instance_id) (\<lambda>iid.
     bindC (callC w (\<lambda>env. reconcile_publication env c (max_retry_attempts DEFAULT_LIMITS)
              iid epoch unpublished)) (\<lambda>out.
     returnC (outcome_name out))))))"

definition reconcile_and_retire :: "core_world \<Rightarrow> JobClaim \<Rightarrow> string core" where
  "reconcile_and_retire w c =
     bindC (reconcile_current w c) (\<lambda>out.
     if List.member [''succeeded'', ''failed'', ''cancelled'', ''queued''] out
     then seqC (retire_evidence w c) (returnC out) else returnC out)"

definition attempt_terminated :: "core_world \<Rightarrow> JobClaim \<Rightarrow> string \<Rightarrow> int \<Rightarrow> string option \<Rightarrow> bool core" where
  "attempt_terminated w c iid epoch diagnostic =
     callC w (\<lambda>env. mark_attempt_terminated env c True iid epoch diagnostic)"

definition unpublished_of :: "pyval \<Rightarrow> PublicationState" where
  \<comment> \<open>the publication state a report names, where it is one of the unpublished ones\<close>
  "unpublished_of v = (if v = VStr ''rolled_back'' then RolledBack
     else if v = VStr ''prepared'' then Prepared else NotStarted)"

definition close_and_release ::
  "core_world \<Rightarrow> JobClaim \<Rightarrow> JobState \<Rightarrow> JobState \<Rightarrow> PublicationState \<Rightarrow> string \<Rightarrow> string option
   \<Rightarrow> string core" where
  \<comment> \<open>the terminal transition, the lease release and the retirement three branches share\<close>
  "close_and_release w c expected new_state publication category diagnostic =
     bindC (transition w c expected new_state (Some publication) (Some category) diagnostic) (\<lambda>ok.
     if ok then seqC (release_terminal_lease w c)
                  (seqC (retire_evidence w c) (returnC (state_name new_state)))
     else returnC ''ownership_lost'')"

definition retry_policy :: RetryPolicy where
  "retry_policy = \<lparr>max_attempts = max_retry_attempts DEFAULT_LIMITS, base_seconds = 1,
     maximum_seconds = of_int (max_retry_backoff_seconds DEFAULT_LIMITS)\<rparr>"

definition dispose_committed ::
  "core_world \<Rightarrow> JobClaim \<Rightarrow> JobState \<Rightarrow> dict \<Rightarrow> bool \<Rightarrow> string option \<Rightarrow> string core" where
  \<comment> \<open>the worker reports success and a committed publication\<close>
  "dispose_committed w c expected report proved diagnostic =
     bindC (catchC (record_marker_if_available w c report)
              (\<lambda>e. if is_ValueError e then returnC True else raiseC e)) (\<lambda>recorded.
     bindC (mark_reconciliation w c expected
              (if recorded then ''publication_unknown'' else ''protocol'') diagnostic CommitUnknown) (\<lambda>ok.
     if \<not> ok then returnC ''ownership_lost''
     else if \<not> recorded \<and> \<not> proved then returnC ''reconciliation_required''
     else bindC (if proved then attempt_terminated w c (c_instance_id c) (c_fencing_epoch c) None
                 else returnC True) (\<lambda>ok.
     if \<not> ok then returnC ''ownership_lost'' else reconcile_and_retire w c)))"

definition dispose_uncertain ::
  "core_world \<Rightarrow> JobClaim \<Rightarrow> JobState \<Rightarrow> string \<Rightarrow> string option \<Rightarrow> string core" where
  \<comment> \<open>the publication transaction had started; termination is proved\<close>
  "dispose_uncertain w c expected category diagnostic =
     bindC (mark_reconciliation w c expected category diagnostic CommitUnknown) (\<lambda>ok.
     if \<not> ok then returnC ''ownership_lost''
     else bindC (attempt_terminated w c (c_instance_id c) (c_fencing_epoch c) None) (\<lambda>ok.
     if \<not> ok then returnC ''ownership_lost''
     else if w_reader w \<noteq> None then reconcile_and_retire w c
     else returnC ''reconciliation_required''))"

definition dispose_failed ::
  "core_world \<Rightarrow> JobClaim \<Rightarrow> JobState \<Rightarrow> dict \<Rightarrow> PublicationState \<Rightarrow> string option \<Rightarrow> string core" where
  \<comment> \<open>the worker failed before publishing\<close>
  "dispose_failed w c expected report publication diagnostic =
     (let reported = dict_get report ''error_category'';
          category = (if py_truthy reported then py_str w reported else ''permanent'');
          fail = close_and_release w c Running Failed publication category diagnostic
      in if expected = CancelRequested
         then bindC (transition w c CancelRequested Cancelling None None None) (\<lambda>ok.
              if \<not> ok then returnC ''ownership_lost''
              else close_and_release w c Cancelling Failed publication ''cancel_failed'' diagnostic)
         else if may_retry retry_policy (c_attempt c) category publication
         then bindC (liftC (delay_seconds retry_policy (c_attempt c) category (w_jitter w))) (\<lambda>delay.
              bindC (callC w (\<lambda>env. schedule_retry env c Running (timedelta_seconds delay) category
                       (max_retry_attempts DEFAULT_LIMITS) diagnostic)) (\<lambda>scheduled.
              if scheduled then seqC (retire_evidence w c) (returnC ''queued'') else fail))
         else fail)"

definition dispose_cancelled ::
  "core_world \<Rightarrow> JobClaim \<Rightarrow> PublicationState \<Rightarrow> string core" where
  "dispose_cancelled w c publication =
     bindC (transition w c CancelRequested Cancelling None None None) (\<lambda>ok.
     if \<not> ok then returnC ''ownership_lost''
     else close_and_release w c Cancelling Cancelled publication ''cancelled'' None)"

definition dispose_other ::
  "core_world \<Rightarrow> JobClaim \<Rightarrow> JobState \<Rightarrow> pyval \<Rightarrow> pyval \<Rightarrow> string option \<Rightarrow> string core" where
  \<comment> \<open>anything else is left to reconciliation; termination is proved\<close>
  "dispose_other w c expected publication supervised diagnostic =
     (let effective = (if supervised = VStr ''worker_crash'' \<and> diagnostic = None
                       then Some ''worker_crash:unproved_termination'' else diagnostic)
      in bindC (mark_reconciliation w c expected (py_str w supervised) effective
                  (if publication = VStr ''not_started'' then NotStarted else CommitUnknown)) (\<lambda>ok.
         if \<not> ok then returnC ''ownership_lost''
         else bindC require_started (\<lambda>epoch.
              bindC (readC co_instance_id) (\<lambda>iid.
              bindC (attempt_terminated w c iid epoch effective) (\<lambda>ok.
              if \<not> ok then returnC ''ownership_lost'' else reconcile_and_retire w c)))))"

definition diagnostic_of :: "dict \<Rightarrow> string option" where
  "diagnostic_of report =
     (case dict_get report ''_diagnostic_summary'' of VStr s \<Rightarrow> Some s | _ \<Rightarrow> None)"

definition dispose_terminal :: "core_world \<Rightarrow> JobClaim \<Rightarrow> JobState \<Rightarrow> dict \<Rightarrow> string core" where
  "dispose_terminal w c expected report =
     (let proved = (dict_get report ''_termination_proved'' = VBool True);
          supervised = (case map_of report ''_error_category'' of
                          None \<Rightarrow> VStr ''publication_unknown'' | Some v \<Rightarrow> v);
          diagnostic = diagnostic_of report;
          publication = dict_get report ''publication_state'';
          state = dict_get report ''status''
      in if state = VStr ''succeeded'' \<and> publication = VStr ''committed''
         then dispose_committed w c expected report proved diagnostic
         else if \<not> proved
         then bindC (mark_reconciliation w c expected ''worker_crash'' diagnostic CommitUnknown) (\<lambda>ok.
              returnC (if ok then ''reconciliation_required'' else ''ownership_lost''))
         else bindC (liftC (py_in publication [''transaction_started'', ''commit_unknown''])) (\<lambda>uncertain.
              if uncertain then dispose_uncertain w c expected (py_str w supervised) diagnostic
              else if state = VStr ''failed''
                  \<and> List.member [VStr ''not_started'', VStr ''rolled_back''] publication
              then dispose_failed w c expected report (unpublished_of publication) diagnostic
              else if state = VStr ''cancelled'' \<and> expected = CancelRequested
                  \<and> List.member [VStr ''not_started'', VStr ''prepared'', VStr ''rolled_back''] publication
              then dispose_cancelled w c (unpublished_of publication)
              else dispose_other w c expected publication supervised diagnostic))"

section \<open>The work loop\<close>

definition expected_refusal :: "py_error \<Rightarrow> bool" where
  "expected_refusal e = (case e of StaleDurableAuthorityError _ \<Rightarrow> True
     | FencingContentionError _ \<Rightarrow> True | LockNotAvailable \<Rightarrow> True | QueryCanceled \<Rightarrow> True | _ \<Rightarrow> False)"

definition claim_call :: "core_world \<Rightarrow> int \<Rightarrow> bool \<Rightarrow> JobClaim option core" where
  "claim_call w epoch automatic_only s =
     callC w (\<lambda>env db. claim_next env DEFAULT_LIMITS (co_instance_id (k_coord s)) epoch
       (co_lease_ttl (k_coord s)) automatic_only (w_meets w (k_calls s) db) db) s"

definition claim_work :: "core_world \<Rightarrow> int \<Rightarrow> bool \<Rightarrow> JobClaim option core" where
  "claim_work w epoch automatic_only =
     catchC (bindC (claim_call w epoch automatic_only) (\<lambda>claim.
               if claim = None \<and> automatic_only
               then seqC (modifyC (\<lambda>k. k\<lparr>co_manual_claims := 0\<rparr>)) (claim_call w epoch False)
               else returnC claim))
       (\<lambda>e. seqC (modifyC worker_finished) (raiseC e))"

definition count_claim :: "JobClaim \<Rightarrow> coordinator \<Rightarrow> coordinator" where
  "count_claim c k = k\<lparr>co_manual_claims :=
     (if c_priority_class c = Manual then co_manual_claims k + 1 else 0)\<rparr>"

definition launch_failure :: dict where
  "launch_failure = [(''status'', VStr ''failed''), (''publication_state'', VStr ''not_started''),
     (''error_category'', VStr ''worker_launch''), (''_termination_proved'', VBool True)]"

definition after_worker :: "core_world \<Rightarrow> JobClaim \<Rightarrow> bool \<Rightarrow> string core" where
  "after_worker w c event =
     (let event' = (event \<or> w_cancelled w);
          dispose = (\<lambda>report. bindC (active_expected_state w c event') (\<lambda>expected.
             dispose_terminal w c expected report))
      in case w_worker w c event of
           Inr report \<Rightarrow> dispose report
         | Inl (WorkerLaunchError _) \<Rightarrow> dispose launch_failure
         | Inl e \<Rightarrow>
             bindC (active_expected_state w c event') (\<lambda>expected.
             bindC (mark_reconciliation w c expected
                      (if expected_refusal e then ''publication_unknown'' else ''worker_crash'')
                      (Some (w_diagnostic w e)) CommitUnknown) (\<lambda>ok.
             returnC (if ok then ''reconciliation_required'' else ''ownership_lost''))))"

definition run_worker :: "core_world \<Rightarrow> JobClaim \<Rightarrow> string core" where
  "run_worker w c =
     seqC (modifyC (\<lambda>k. k\<lparr>co_active_cancellations :=
             AList.update (c_job_id c) False (co_active_cancellations k)\<rparr>))
       (bindC (read_state w c) (\<lambda>st.
        finallyC (after_worker w c (st = CancelRequested))
          (\<lambda>k. worker_finished (k\<lparr>co_active_cancellations :=
             AList.delete (c_job_id c) (co_active_cancellations k)\<rparr>))))"

definition abandon_start :: "core_world \<Rightarrow> JobClaim \<Rightarrow> string core" where
  "abandon_start w c =
     bindC (finish_prestart_cancel w c) (\<lambda>cancelled.
     if cancelled \<noteq> ''ownership_lost'' then returnC cancelled
     else seqC (mark_reconciliation w c Starting ''publication_unknown'' None CommitUnknown)
            (returnC ''reconciliation_required''))"

definition start_worker :: "core_world \<Rightarrow> JobClaim \<Rightarrow> string core" where
  "start_worker w c =
     bindC (transition w c Starting Running None None None) (\<lambda>ok.
     if \<not> ok then seqC (modifyC worker_finished) (abandon_start w c) else run_worker w c)"

definition launch :: "core_world \<Rightarrow> JobClaim \<Rightarrow> string core" where
  "launch w c =
     bindC (transition w c Claimed Starting None None None) (\<lambda>ok.
     if \<not> ok then seqC (modifyC worker_finished) (finish_prestart_cancel w c) else start_worker w c)"

definition run_once_admitted :: "core_world \<Rightarrow> int \<Rightarrow> string core" where
  "run_once_admitted w epoch =
     bindC (readC (\<lambda>k. co_active_workers k \<ge> co_max_workers k)) (\<lambda>saturated.
     if saturated then returnC ''saturated''
     else bindC (readC (\<lambda>k. co_manual_claims k \<ge> manual_claim_burst DEFAULT_LIMITS)) (\<lambda>automatic_only.
     seqC (modifyC (\<lambda>k. k\<lparr>co_active_workers := co_active_workers k + 1\<rparr>))
       (bindC (claim_work w epoch automatic_only) (\<lambda>claim.
        case claim of
          None \<Rightarrow> seqC (modifyC worker_finished) (returnC ''idle'')
        | Some c \<Rightarrow> seqC (modifyC (count_claim c)) (launch w c)))))"

definition run_once :: "core_world \<Rightarrow> string core" where
  "run_once w =
     bindC require_started (\<lambda>epoch.
     if w_activity w then run_once_admitted w epoch
     else raiseC (MaintenanceUnavailableError ''schema maintenance is active''))"

section \<open>Other coordinator operations\<close>

definition reconcile_claim :: "core_world \<Rightarrow> JobClaim \<Rightarrow> string core" where
  "reconcile_claim w c = seqC require_started (reconcile_current w c)"

definition request_cancel :: "core_world \<Rightarrow> string \<Rightarrow> JobState core" where
  "request_cancel w jid =
     seqC require_started
       (bindC (callC w (\<lambda>env. request_cancellation env jid)) (\<lambda>st.
        seqC (modifyC (\<lambda>k. if st = CancelRequested \<and> map_of (co_active_cancellations k) jid \<noteq> None
                 then k\<lparr>co_active_cancellations := AList.update jid True (co_active_cancellations k)\<rparr>
                 else k))
          (returnC st)))"

definition shutdown :: "core_world \<Rightarrow> unit core" where
  "shutdown w =
     bindC (readC co_active_workers) (\<lambda>active.
     if active \<noteq> 0 then raiseC (RuntimeError ''workers are still active'')
     else bindC require_started (\<lambda>epoch.
          bindC (readC co_instance_id) (\<lambda>iid.
          bindC (callC w (\<lambda>env. stop_singleton env iid epoch)) (\<lambda>stopped.
          if \<not> stopped then raiseC (RuntimeError ''coordinator singleton ownership was lost'')
          else modifyC (\<lambda>k. k\<lparr>co_epoch := None\<rparr>)))))"

definition core_cleanup_terminal ::
  "core_world \<Rightarrow> int option \<Rightarrow> int option \<Rightarrow> bool \<Rightarrow> CleanupReport core" where
  \<comment> \<open>\<open>age\<close> in microseconds\<close>
  "core_cleanup_terminal w age limit dry_run =
     seqC require_started
       (bindC (callC w (\<lambda>env. cleanup_terminal env
                 (case age of Some a \<Rightarrow> a | None \<Rightarrow> usec (terminal_retention_seconds DEFAULT_LIMITS))
                 (case limit of Some l \<Rightarrow> l | None \<Rightarrow> cleanup_batch_size DEFAULT_LIMITS)
                 dry_run (w_retirer w))) (\<lambda>report.
        seqC (modifyC (\<lambda>k. fold add_residual (residuals report) k)) (returnC report)))"

end
