(* ===== verification/Coordinator_Refinement.thy ===== *)
theory Coordinator_Refinement
  imports Coordinator_Core
begin

text \<open>
  The coordinator refines the control store: whatever its work loop does, on whatever exceptional
  path, is a sequence of the store's transactions, so every invariant of the store holds around it.
  The proof is done once against the contract of the \<^verbatim>\<open>CoordinatorStore\<close> protocol and then instantiated
  with the transitions of the store.
\<close>

section \<open>The store's contract with its coordinator\<close>

definition calm :: "(JobClaim set \<Rightarrow> control_db \<Rightarrow> JobClaim set \<Rightarrow> control_db \<Rightarrow> bool) \<Rightarrow> core_world \<Rightarrow> bool" where
  \<comment> \<open>what others do between two calls is progress too\<close>
  "calm prog w = (\<forall>K i db. prog K db K (w_others w i db) \<and> (\<forall>n. prog K db K (fst (w_meets w i db n))))"

abbreviation steps ::
  "(JobClaim set \<Rightarrow> control_db \<Rightarrow> JobClaim set \<Rightarrow> control_db \<Rightarrow> bool) \<Rightarrow> JobClaim set \<Rightarrow> 'a core \<Rightarrow> bool" where
  "steps prog K \<equiv> relates (\<lambda>s s'. prog K (k_db s) K (k_db s'))"

locale coordinator_store =
  fixes prog :: "JobClaim set \<Rightarrow> control_db \<Rightarrow> JobClaim set \<Rightarrow> control_db \<Rightarrow> bool"
  assumes refl: "prog K db K db"
    and trans: "prog K db K' db' \<Longrightarrow> prog K' db' K'' db'' \<Longrightarrow> prog K db K'' db''"
    and claims: "claim_once env iid ep secs (max_retry_attempts DEFAULT_LIMITS) automatic db = Inr (Some c, db')
      \<Longrightarrow> prog K db (insert c K) db'"
    and transitions: "compare_and_set_state env k s t n iid ep p e d db = Inr (b, db') \<Longrightarrow> t \<noteq> Queued
      \<Longrightarrow> prog K db K db'"
    and releases: "release_graph_lease env g k n oi oe ri re db = Inr (b, db') \<Longrightarrow> prog K db K db'"
    and terminations: "mark_attempt_terminated env c pr ri re d db = Inr (b, db') \<Longrightarrow> c \<in> K \<Longrightarrow> prog K db K db'"
    and retries: "schedule_retry env c s delay cat (max_retry_attempts DEFAULT_LIMITS) d db = Inr (b, db')
      \<Longrightarrow> c \<in> K \<Longrightarrow> prog K db K db'"
    and markings: "record_publication_marker env c run gens outcome db = Inr (b, db') \<Longrightarrow> c \<in> K
      \<Longrightarrow> prog K db K db'"
    and reconciliations: "reconcile_publication env c (max_retry_attempts DEFAULT_LIMITS) ri re u db = Inr (o1, db')
      \<Longrightarrow> c \<in> K \<Longrightarrow> prog K db K db'"
    and cancellations: "request_cancellation env k db = Inr (t, db') \<Longrightarrow> prog K db K db'"
    and stops: "stop_singleton env iid ep db = Inr (b, db') \<Longrightarrow> prog K db K db'"
    and cleanups: "cleanup_terminal env age limit dry retirer db = Inr (rep, db') \<Longrightarrow> prog K db K db'"
begin

lemma refl_trans:
  "reflp (\<lambda>s s'. prog K (k_db s) K (k_db s'))" "transp (\<lambda>s s'. prog K (k_db s) K (k_db s'))"
  by (auto intro: reflpI transpI refl trans)

lemma steps_coord: "steps prog K (modifyC g)" "steps prog K m \<Longrightarrow> steps prog K (finallyC m f)"
  "steps prog K require_started"
  by (auto simp: relates_def modifyC_def require_started_def refl split: option.splits elim!: finallyC_cases)

lemma steps_call:
  assumes "calm prog w" and "\<And>env db x db'. f env db = Inr (x, db') \<Longrightarrow> prog K db K db'"
  shows "steps prog K (callC w f)"
  by (rule relates_call) (use assms in \<open>auto simp: calm_def refl_trans\<close>)

lemmas steps_intros = relates_prim [OF refl_trans(1)] relates_bind [OF refl_trans(2)]
  relates_seq [OF refl_trans(2)] relates_catch [OF refl_trans(2)] relates_if relates_option steps_coord

lemma steps_transition: "calm prog w \<Longrightarrow> t \<noteq> Queued \<Longrightarrow> steps prog K (transition w c st t p e d)"
  unfolding transition_def by (rule steps_call) (auto dest: transitions)

lemma steps_mark: "calm prog w \<Longrightarrow> steps prog K (mark_reconciliation w c st cat d p)"
  unfolding mark_reconciliation_def mark_reconciliation_required_def
  by (rule steps_call) (auto simp: result_simps dest: transitions)

lemma steps_read_state: "calm prog w \<Longrightarrow> steps prog K (read_state w c)"
  unfolding read_state_def by (rule steps_call) (auto simp: result_simps refl)

lemma steps_retire: "steps prog K (retire_evidence w c)"
  unfolding retire_evidence_def
  by (auto split: option.split sum.split intro!: steps_intros)

lemma steps_release: "calm prog w \<Longrightarrow> steps prog K (release_terminal_lease w c)"
  unfolding release_terminal_lease_def
  by (intro steps_intros steps_call) (auto dest: releases)

lemma steps_expected: "calm prog w \<Longrightarrow> steps prog K (active_expected_state w c event)"
  unfolding active_expected_state_def by (intro steps_intros steps_read_state)

lemma steps_marker: "calm prog w \<Longrightarrow> c \<in> K \<Longrightarrow> steps prog K (record_marker_if_available w c report)"
  unfolding record_marker_if_available_def Let_def
  by (intro steps_intros steps_call) (auto dest: markings)

lemma steps_terminated: "calm prog w \<Longrightarrow> c \<in> K \<Longrightarrow> steps prog K (attempt_terminated w c iid ep d)"
  unfolding attempt_terminated_def by (rule steps_call) (auto dest: terminations)

lemma steps_reconcile: "calm prog w \<Longrightarrow> c \<in> K \<Longrightarrow> steps prog K (reconcile_current w c)"
  unfolding reconcile_current_def
  by (intro steps_intros steps_marker steps_call) (auto dest: reconciliations)

lemma steps_reconcile_retire: "calm prog w \<Longrightarrow> c \<in> K \<Longrightarrow> steps prog K (reconcile_and_retire w c)"
  unfolding reconcile_and_retire_def by (intro steps_intros steps_reconcile steps_retire)

lemma steps_close: "calm prog w \<Longrightarrow> t \<noteq> Queued \<Longrightarrow> steps prog K (close_and_release w c st t p cat d)"
  unfolding close_and_release_def by (intro steps_intros steps_transition steps_release steps_retire)

lemma steps_prestart: "calm prog w \<Longrightarrow> steps prog K (finish_prestart_cancel w c)"
  unfolding finish_prestart_cancel_def
  by (intro steps_intros steps_read_state steps_transition steps_release steps_retire; simp)

lemma steps_dispose:
  assumes "calm prog w" and "c \<in> K"
  shows "steps prog K (dispose_terminal w c expected report)"
proof -
  note cs = steps_marker [OF assms] steps_terminated [OF assms] steps_mark [OF assms(1)]
    steps_reconcile_retire [OF assms] steps_close [OF assms(1)] steps_transition [OF assms(1)]
    steps_retire
  have "steps prog K (dispose_committed w c expected report proved d)" for proved d
    unfolding dispose_committed_def by (intro steps_intros cs)
  moreover have "steps prog K (dispose_uncertain w c expected cat d)" for cat d
    unfolding dispose_uncertain_def by (intro steps_intros cs)
  moreover have "steps prog K (dispose_failed w c expected report p d)" for p d
    unfolding dispose_failed_def Let_def
    by (intro steps_intros cs steps_call [OF assms(1)]) (auto dest: retries [OF _ assms(2)])
  moreover have "steps prog K (dispose_cancelled w c p)" for p
    unfolding dispose_cancelled_def by (intro steps_intros cs; simp)
  moreover have "steps prog K (dispose_other w c expected p sup d)" for p sup d
    unfolding dispose_other_def Let_def by (intro steps_intros cs)
  ultimately show ?thesis
    unfolding dispose_terminal_def Let_def by (intro steps_intros cs)
qed

lemma steps_after_worker: "calm prog w \<Longrightarrow> c \<in> K \<Longrightarrow> steps prog K (after_worker w c event)"
  unfolding after_worker_def Let_def
  by (auto split: sum.split py_error.split intro!: steps_intros steps_expected steps_dispose steps_mark)

lemma steps_launch: "calm prog w \<Longrightarrow> c \<in> K \<Longrightarrow> steps prog K (launch w c)"
  unfolding launch_def start_worker_def abandon_start_def run_worker_def
  by (intro steps_intros steps_transition steps_prestart steps_mark steps_read_state steps_after_worker; simp)

lemma claim_tries_progress:
  assumes "claim_tries (claim_once env iid ep secs (max_retry_attempts DEFAULT_LIMITS) a) meets i n db = Inr (oc, db')"
    and "\<And>k. prog K db0 K (fst (meets k))" and "prog K db0 K db"
  shows "prog K db0 (case oc of None \<Rightarrow> K | Some c \<Rightarrow> insert c K) db'"
  using assms
proof (induction n arbitrary: i db)
  case (Suc n)
  obtain view race where m: "meets i = (view, race)" by (cases "meets i")
  have view: "prog K db0 K view" using Suc.prems(2) [of i] m by simp
  show ?case
  proof (cases "case race of Some e \<Rightarrow> Inl e | None \<Rightarrow> claim_once env iid ep secs (max_retry_attempts DEFAULT_LIMITS) a view")
    case (Inl e)
    with Suc.prems(1) m have "claim_tries (claim_once env iid ep secs (max_retry_attempts DEFAULT_LIMITS) a) meets (Suc i) n view = Inr (oc, db')"
      by (auto split: if_splits)
    then show ?thesis by (rule Suc.IH) (use Suc.prems(2) view in auto)
  next
    case (Inr r)
    with Suc.prems(1) m have r: "claim_once env iid ep secs (max_retry_attempts DEFAULT_LIMITS) a view = Inr (oc, db')"
      by (auto split: option.splits)
    show ?thesis
    proof (cases oc)
      case None
      with r have "db' = view" by (auto simp: claim_once_def result_simps Let_def split: option.splits)
      with None view show ?thesis by simp
    next
      case (Some c)
      with claims r view show ?thesis by (auto intro: trans)
    qed
  qed
qed (simp split: option.split)

lemma claim_call_progress:
  assumes "calm prog w" and "claim_call w ep a s = (r, s')"
  shows "\<exists>K'. K \<subseteq> K' \<and> prog K (k_db s) K' (k_db s') \<and> (\<forall>c. r = Inr (Some c) \<longrightarrow> c \<in> K')"
proof -
  let ?db = "w_others w (k_calls s) (k_db s)"
  have others: "prog K (k_db s) K ?db" and views: "prog K ?db K (fst (w_meets w (k_calls s) ?db n))" for n
    using assms(1) by (simp_all add: calm_def)
  have claimed: "prog K ?db (case oc of None \<Rightarrow> K | Some c \<Rightarrow> insert c K) db'"
    if "claim_next env DEFAULT_LIMITS iid ep ttl a (w_meets w (k_calls s) ?db) ?db = Inr (oc, db')"
    for env iid ttl oc db'
    using that unfolding claim_next_def
    by (auto simp: result_simps intro!: claim_tries_progress views refl)
  from assms(2) show ?thesis unfolding claim_call_def
  proof (cases rule: callC_cases)
    case (committed oc db')
    from trans [OF others claimed [OF committed(1)]] committed(2,3)
    show ?thesis by (intro exI [of _ "case oc of None \<Rightarrow> K | Some c \<Rightarrow> insert c K"])
        (auto split: option.split)
  qed (use others in auto)
qed

lemma claim_work_progress:
  assumes "calm prog w" and "claim_work w ep a s = (r, s')"
  shows "\<exists>K'. K \<subseteq> K' \<and> prog K (k_db s) K' (k_db s') \<and> (\<forall>c. r = Inr (Some c) \<longrightarrow> c \<in> K')"
proof -
  have inner: "\<exists>K'. K \<subseteq> K' \<and> prog K (k_db s) K' (k_db s1) \<and> (\<forall>c. r1 = Inr (Some c) \<longrightarrow> c \<in> K')"
    if "bindC (claim_call w ep a) (\<lambda>claim. if claim = None \<and> a
          then seqC (modifyC (\<lambda>k. k\<lparr>co_manual_claims := 0\<rparr>)) (claim_call w ep False)
          else returnC claim) s = (r1, s1)" for r1 s1
    using that
  proof (cases rule: bindC_cases)
    case (raised e)
    with claim_call_progress [OF assms(1) raised(1)] show ?thesis by auto
  next
    case (ok claim s2)
    obtain K1 where K1: "K \<subseteq> K1" "prog K (k_db s) K1 (k_db s2)" "\<And>c. claim = Some c \<Longrightarrow> c \<in> K1"
      using claim_call_progress [OF assms(1) ok(1), of K] by auto
    show ?thesis
    proof (cases "claim = None \<and> a")
      case True
      with ok(2) have "claim_call w ep False (s2\<lparr>k_coord := (k_coord s2)\<lparr>co_manual_claims := 0\<rparr>\<rparr>) = (r1, s1)"
        by simp
      from claim_call_progress [OF assms(1) this, of K1] K1 show ?thesis
        by (auto intro: trans)
    next
      case False
      with ok(2) K1 show ?thesis by auto
    qed
  qed
  from assms(2) show ?thesis unfolding claim_work_def
    by (cases rule: catchC_cases) (auto dest!: inner)
qed

theorem run_once_progress:
  assumes "calm prog w" and "run_once w s = (r, s')"
  shows "\<exists>K'. K \<subseteq> K' \<and> prog K (k_db s) K' (k_db s')"
proof (cases "k_db s' = k_db s")
  case True
  then show ?thesis using refl by auto
next
  case False
  have stay: "require_started s = (x, s1) \<Longrightarrow> s1 = s" for x s1
    by (auto simp: require_started_def split: option.splits)
  from assms(2) False obtain ep where "run_once_admitted w ep s = (r, s')"
    unfolding run_once_def
    by (auto elim!: bindC_cases dest!: stay split: if_splits simp: raiseC_def)
  with False obtain a where "bindC (claim_work w ep a) (\<lambda>claim.
        case claim of None \<Rightarrow> seqC (modifyC worker_finished) (returnC ''idle'')
        | Some c \<Rightarrow> seqC (modifyC (count_claim c)) (launch w c))
      (s\<lparr>k_coord := (k_coord s)\<lparr>co_active_workers := co_active_workers (k_coord s) + 1\<rparr>\<rparr>) = (r, s')"
    unfolding run_once_admitted_def by (auto split: if_splits)
  then show ?thesis
  proof (cases rule: bindC_cases)
    case (raised e)
    from claim_work_progress [OF assms(1) raised(1), of K] show ?thesis by auto
  next
    case (ok claim s1)
    obtain K1 where K1: "K \<subseteq> K1" "prog K (k_db s) K1 (k_db s1)" "\<And>c. claim = Some c \<Longrightarrow> c \<in> K1"
      using claim_work_progress [OF assms(1) ok(1), of K] by auto
    have "steps prog K1 (case claim of None \<Rightarrow> seqC (modifyC worker_finished) (returnC ''idle'')
        | Some c \<Rightarrow> seqC (modifyC (count_claim c)) (launch w c))"
      using K1(3) by (auto split: option.split intro!: steps_intros steps_launch [OF assms(1)])
    from relatesD [OF this ok(2)] K1 show ?thesis by (auto intro: trans)
  qed
qed

lemma steps_others:
  assumes "calm prog w"
  shows "c \<in> K \<Longrightarrow> steps prog K (reconcile_claim w c)" and "steps prog K (request_cancel w k)"
    and "steps prog K (shutdown w)" and "steps prog K (core_cleanup_terminal w age limit dry)"
  unfolding reconcile_claim_def request_cancel_def shutdown_def core_cleanup_terminal_def
  by (intro steps_intros steps_reconcile steps_call assms; auto dest: cancellations stops cleanups)+

end

end
