(* ===== verification/Coordinator_Example.thy ===== *)
theory Coordinator_Example
  imports Coordinator_Core
begin

text \<open>
  A concrete round of the work loop over the database of the example run: nobody interferes and no call
  fails unless said otherwise. The witnesses evaluate the coordinator on it.
\<close>

definition demo_report :: dict where
  "demo_report = [(''status'', VStr ''succeeded''), (''publication_state'', VStr ''committed''),
     (''latest_run_identity'', VStr ''run''), (''source_generation'', VStr ''sg1:a''),
     (''config_generation'', VStr ''cg1:b''), (''extractor_generation'', VStr ''eg1:c''),
     (''canonicalizer_generation'', VStr ''kg1:d''), (''_termination_proved'', VBool True)]"

definition demo_failure :: dict where
  "demo_failure = [(''status'', VStr ''failed''), (''publication_state'', VStr ''not_started''),
     (''error_category'', VStr ''permanent''), (''_termination_proved'', VBool True)]"

definition demo_world :: "dict \<Rightarrow> nat option \<Rightarrow> core_world" where
  \<comment> \<open>the worker's report, and the store call that loses its connection, if any\<close>
  "demo_world report failing = \<lparr>w_env = (\<lambda>i. demo_env (30 + 5 * int i)), w_others = (\<lambda>i db. db),
     w_fail = (\<lambda>i. if failing = Some i then Some (False, OperationalError ''connection lost'') else None),
     w_meets = (\<lambda>i db n. (db, None)), w_activity = True, w_worker = (\<lambda>c event. Inr report),
     w_cancelled = False, w_reader = None, w_retirer = None,
     w_closer = None, w_fence = None, w_clocks = (\<lambda>i n. 30 + 5 * int i), w_locks = (\<lambda>i. Inr ()), w_jitter = 0, w_str = (\<lambda>v. []),
     w_adapt = (\<lambda>v. []), w_diagnostic = (\<lambda>e. [])\<rparr>"

definition demo_coordinator :: coordinator where
  "demo_coordinator = \<lparr>co_instance_id = ''one'', co_epoch = Some 1, co_max_workers = 1,
     co_singleton_ttl = 100, co_lease_ttl = 100, co_active_workers = 0, co_manual_claims = 0,
     co_active_cancellations = [], co_residual_evidence = [], co_recovery_report = None,
     co_recovery_diagnostics = [], co_diagnostic_sequence = 0\<rparr>"

definition demo_core :: "control_db \<Rightarrow> core_state" where
  "demo_core db = \<lparr>k_db = db, k_calls = 0, k_coord = demo_coordinator\<rparr>"

lemma demo_succeeds: "fst (run_once (demo_world demo_report None) (demo_core demo_queued)) = Inr ''succeeded''"
  by code_simp

lemma demo_fails: "fst (run_once (demo_world demo_failure None) (demo_core demo_queued)) = Inr ''failed''"
  by code_simp

lemma demo_breaks:
  "fst (run_once (demo_world demo_report (Some 1)) (demo_core demo_queued)) = Inl (OperationalError ''connection lost'')"
  by code_simp

lemma run_of: "fst p = r \<Longrightarrow> \<exists>s. p = (r, s)"
  by (cases p) simp

end
