(* ===== verification/Coordinator_Properties.thy ===== *)
theory Coordinator_Properties
  imports Coordinator_Refinement Coordinator_Example
begin

text \<open>
  What the coordinator promises: its runs are runs of the store, it gives its worker slot back, manual
  jobs cannot starve automatic ones, and the outcome it reports is the state it left behind.
\<close>

section \<open>The store as the coordinator's environment\<close>

definition progress ::
  "(string \<Rightarrow> string) \<Rightarrow> JobClaim set \<Rightarrow> control_db \<Rightarrow> JobClaim set \<Rightarrow> control_db \<Rightarrow> bool" where
  \<comment> \<open>every reachable database that knows the claims \<open>K\<close> can get from \<open>db\<close> to \<open>db'\<close>\<close>
  "progress sha256 K db K' db' = (K \<subseteq> K' \<and>
     (\<forall>C. K \<subseteq> C \<longrightarrow> reachable DEFAULT_LIMITS sha256 (db, C) \<longrightarrow>
        (\<exists>C'. K' \<union> C \<subseteq> C' \<and> (store_step DEFAULT_LIMITS sha256)\<^sup>*\<^sup>* (db, C) (db', C'))))"

lemma progress_refl: "progress sha256 K db K db"
  unfolding progress_def by blast

lemma progress_trans:
  assumes "progress sha256 K db K' db'" and "progress sha256 K' db' K'' db''"
  shows "progress sha256 K db K'' db''"
  unfolding progress_def
proof (intro conjI allI impI)
  show "K \<subseteq> K''" using assms by (auto simp: progress_def)
  fix C assume C: "K \<subseteq> C" "reachable DEFAULT_LIMITS sha256 (db, C)"
  with assms(1) obtain C' where C': "K' \<union> C \<subseteq> C'" "(store_step DEFAULT_LIMITS sha256)\<^sup>*\<^sup>* (db, C) (db', C')"
    unfolding progress_def by blast
  with C have "reachable DEFAULT_LIMITS sha256 (db', C')"
    by (auto simp: reachable_def intro: rtranclp_trans)
  with C' assms(2) obtain C'' where "K'' \<union> C' \<subseteq> C''" "(store_step DEFAULT_LIMITS sha256)\<^sup>*\<^sup>* (db', C') (db'', C'')"
    unfolding progress_def by (metis le_sup_iff)
  with C' show "\<exists>C'. K'' \<union> C \<subseteq> C' \<and> (store_step DEFAULT_LIMITS sha256)\<^sup>*\<^sup>* (db, C) (db'', C')"
    by (blast intro: rtranclp_trans)
qed

lemma step_progress:
  assumes "\<And>C. K \<subseteq> C \<Longrightarrow> store_step DEFAULT_LIMITS sha256 (db, C) (db', C)"
  shows "progress sha256 K db K db'"
  unfolding progress_def using assms by (blast intro: r_into_rtranclp)

lemma claim_progress:
  assumes "\<And>C. store_step DEFAULT_LIMITS sha256 (db, C) (db', insert c C)"
  shows "progress sha256 K db (insert c K) db'"
  unfolding progress_def using assms by (blast intro: r_into_rtranclp)

interpretation store: coordinator_store "progress sha256" for sha256
proof
  show "progress sha256 K db K db" for K db by (rule progress_refl)
  show "progress sha256 K db K' db' \<Longrightarrow> progress sha256 K' db' K'' db'' \<Longrightarrow> progress sha256 K db K'' db''"
    for K db K' db' K'' db'' by (rule progress_trans)
qed (auto intro!: step_progress claim_progress intro: store_step.intros)

text \<open>
  Coordinators compose with the store: on every reachable database, whatever the worker, the
  callbacks and the surroundings do and wherever a store call fails, one round of the work loop takes
  the database along committed transactions of the control store. Everything proved of the store's runs
  therefore holds of systems of coordinators.
\<close>

theorem coordinator_refines_store:
  assumes "calm (progress sha256) w" and "run_once w s = (r, s')"
    and "reachable DEFAULT_LIMITS sha256 (k_db s, C)"
  shows "\<exists>C'. C \<subseteq> C' \<and> (store_step DEFAULT_LIMITS sha256)\<^sup>*\<^sup>* (k_db s, C) (k_db s', C')"
proof -
  obtain K' where "progress sha256 {} (k_db s) K' (k_db s')"
    using store.run_once_progress [OF assms(1,2), of "{}"] by blast
  with assms(3) have "\<exists>C'. K' \<union> C \<subseteq> C' \<and> (store_step DEFAULT_LIMITS sha256)\<^sup>*\<^sup>* (k_db s, C) (k_db s', C')"
    by (simp add: progress_def)
  then show ?thesis by (elim exE conjE) (intro exI conjI, auto)
qed

lemma demo_calm: "calm (progress sha256) (demo_world report failing)"
  by (simp add: calm_def demo_world_def progress_refl)

theorem coordinator_refines_store_witness:
  "\<exists>s' C'. run_once (demo_world demo_report None) (demo_core demo_queued) = (Inr ''succeeded'', s')
     \<and> (store_step DEFAULT_LIMITS demo_sha256)\<^sup>*\<^sup>* (demo_queued, {}) (k_db s', C')"
proof -
  from run_of [OF demo_succeeds] obtain s' where
    run: "run_once (demo_world demo_report None) (demo_core demo_queued) = (Inr ''succeeded'', s')" ..
  have "reachable DEFAULT_LIMITS demo_sha256 (k_db (demo_core demo_queued), {})"
    using demo_queued_reachable by (simp add: demo_core_def)
  from coordinator_refines_store [OF demo_calm run this] run show ?thesis by (auto simp: demo_core_def)
qed

section \<open>Worker slots\<close>

definition slots :: "coordinator \<Rightarrow> int \<times> int \<times> (string \<times> bool) list \<times> int \<times> int option \<times> string" where
  "slots k = (co_active_workers k, co_manual_claims k, co_active_cancellations k, co_max_workers k,
     co_epoch k, co_instance_id k)"

abbreviation keeps :: "'a core \<Rightarrow> bool" where
  "keeps \<equiv> relates (\<lambda>s s'. slots (k_coord s') = slots (k_coord s))"

lemma keeps_refl_trans:
  "reflp (\<lambda>s s'. slots (k_coord s') = slots (k_coord s))"
  "transp (\<lambda>s s'. slots (k_coord s') = slots (k_coord s))"
  by (auto intro: reflpI transpI)

lemma keeps_prims: "keeps (callC w f)" "keeps require_started"
  by (auto simp: relates_def require_started_def split: option.splits elim!: callC_cases)

lemma keeps_residual: "keeps (modifyC (add_residual t))"
  by (rule relates_modify) (simp add: slots_def add_residual_def)

lemmas keeps_intros = relates_prim [OF keeps_refl_trans(1)] relates_bind [OF keeps_refl_trans(2)]
  relates_seq [OF keeps_refl_trans(2)] relates_catch [OF keeps_refl_trans(2)] relates_if relates_option
  keeps_prims keeps_residual

lemma keeps_calls:
  "keeps (transition w c st t p e d)" "keeps (mark_reconciliation w c st cat d q)"
  "keeps (read_state w c)" "keeps (attempt_terminated w c iid ep d)"
  "keeps (active_expected_state w c event)"
  unfolding transition_def mark_reconciliation_def read_state_def attempt_terminated_def
    active_expected_state_def by (intro keeps_intros)+

lemma keeps_retire: "keeps (retire_evidence w c)"
  unfolding retire_evidence_def by (auto split: option.split sum.split intro!: keeps_intros)

lemma keeps_release: "keeps (release_terminal_lease w c)"
  unfolding release_terminal_lease_def by (intro keeps_intros)

lemma keeps_marker: "keeps (record_marker_if_available w c report)"
  unfolding record_marker_if_available_def Let_def by (intro keeps_intros)

lemma keeps_reconcile: "keeps (reconcile_and_retire w c)"
  unfolding reconcile_and_retire_def reconcile_current_def
  by (intro keeps_intros keeps_marker keeps_retire)

lemma keeps_close: "keeps (close_and_release w c st t p cat d)"
  unfolding close_and_release_def by (intro keeps_intros keeps_calls keeps_release keeps_retire)

lemma keeps_prestart: "keeps (finish_prestart_cancel w c)"
  unfolding finish_prestart_cancel_def by (intro keeps_intros keeps_calls keeps_release keeps_retire)

lemma keeps_dispose: "keeps (dispose_terminal w c expected report)"
proof -
  note cs = keeps_calls keeps_marker keeps_reconcile keeps_close keeps_retire
  have "keeps (dispose_committed w c expected report proved d)" for proved d
    unfolding dispose_committed_def by (intro keeps_intros cs)
  moreover have "keeps (dispose_uncertain w c expected cat d)" for cat d
    unfolding dispose_uncertain_def by (intro keeps_intros cs)
  moreover have "keeps (dispose_failed w c expected report p d)" for p d
    unfolding dispose_failed_def Let_def by (intro keeps_intros cs)
  moreover have "keeps (dispose_cancelled w c p)" for p
    unfolding dispose_cancelled_def by (intro keeps_intros cs)
  moreover have "keeps (dispose_other w c expected p sup d)" for p sup d
    unfolding dispose_other_def Let_def by (intro keeps_intros cs)
  ultimately show ?thesis
    unfolding dispose_terminal_def Let_def by (intro keeps_intros cs)
qed

lemma keeps_after_worker: "keeps (after_worker w c event)"
  unfolding after_worker_def Let_def
  by (auto split: sum.split py_error.split intro!: keeps_intros keeps_calls keeps_dispose)

lemma keeps_claim_call: "keeps (claim_call w ep a)"
  unfolding claim_call_def by (auto simp: relates_def elim!: callC_cases)


lemma finally_slots:
  assumes "finallyC (after_worker w c event) f s = (r, s')" and "\<And>k k'. slots k = slots k' \<Longrightarrow> slots (f k) = slots (f k')"
  shows "slots (k_coord s') = slots (f (k_coord s))"
  using assms(1)
proof (cases rule: finallyC_cases)
  case (1 s1)
  from assms(2) [OF relatesD [OF keeps_after_worker 1(1)]] show ?thesis unfolding 1(2) by simp
qed

text \<open>What a program that owns the slot does to it: it gives the slot back unless it raises.\<close>

definition frees :: "'a core \<Rightarrow> bool" where
  "frees m = (\<forall>s r s'. m s = (r, s') \<longrightarrow>
     (co_active_workers (k_coord s') = co_active_workers (k_coord s) - 1
        \<or> (\<exists>e. r = Inl e) \<and> co_active_workers (k_coord s') = co_active_workers (k_coord s))
     \<and> co_manual_claims (k_coord s') = co_manual_claims (k_coord s)
     \<and> co_max_workers (k_coord s') = co_max_workers (k_coord s))"

lemma frees_after:
  assumes "keeps m" and "\<And>x. frees (f x)"
  shows "frees (bindC m f)"
  unfolding frees_def
proof (intro allI impI, elim bindC_cases)
  fix s r s' e assume "m s = (Inl e, s')" and "r = Inl e"
  with relatesD [OF assms(1)] have "slots (k_coord s') = slots (k_coord s)" by blast
  with \<open>r = Inl e\<close> show "(co_active_workers (k_coord s') = co_active_workers (k_coord s) - 1
      \<or> (\<exists>e. r = Inl e) \<and> co_active_workers (k_coord s') = co_active_workers (k_coord s))
    \<and> co_manual_claims (k_coord s') = co_manual_claims (k_coord s)
    \<and> co_max_workers (k_coord s') = co_max_workers (k_coord s)" by (simp add: slots_def)
next
  fix s r s' x s1 assume m: "m s = (Inr x, s1)" and f: "f x s1 = (r, s')"
  from relatesD [OF assms(1) m] have "slots (k_coord s1) = slots (k_coord s)" .
  with assms(2) [unfolded frees_def, rule_format, OF f]
  show "(co_active_workers (k_coord s') = co_active_workers (k_coord s) - 1
      \<or> (\<exists>e. r = Inl e) \<and> co_active_workers (k_coord s') = co_active_workers (k_coord s))
    \<and> co_manual_claims (k_coord s') = co_manual_claims (k_coord s)
    \<and> co_max_workers (k_coord s') = co_max_workers (k_coord s)" by (simp add: slots_def)
qed

lemma frees_finished: "keeps m \<Longrightarrow> frees (seqC (modifyC worker_finished) m)"
  unfolding frees_def by (auto dest!: relatesD simp: slots_def worker_finished_def)

lemma frees_modify:
  assumes "frees m" and "\<And>k. (co_active_workers (f k), co_manual_claims (f k), co_max_workers (f k))
      = (co_active_workers k, co_manual_claims k, co_max_workers k)"
  shows "frees (seqC (modifyC f) m)"
  unfolding frees_def
proof (intro allI impI)
  fix s r s' assume "seqC (modifyC f) m s = (r, s')"
  then have "m (s\<lparr>k_coord := f (k_coord s)\<rparr>) = (r, s')" by simp
  from assms(1) [unfolded frees_def, rule_format, OF this] assms(2)
  show "(co_active_workers (k_coord s') = co_active_workers (k_coord s) - 1
      \<or> (\<exists>e. r = Inl e) \<and> co_active_workers (k_coord s') = co_active_workers (k_coord s))
    \<and> co_manual_claims (k_coord s') = co_manual_claims (k_coord s)
    \<and> co_max_workers (k_coord s') = co_max_workers (k_coord s)" by simp
qed

lemma frees_if: "(b \<Longrightarrow> frees m) \<Longrightarrow> (\<not> b \<Longrightarrow> frees m') \<Longrightarrow> frees (if b then m else m')"
  by simp

lemma frees_run_worker: "frees (run_worker w c)"
proof -
  let ?f = "\<lambda>k. worker_finished (k\<lparr>co_active_cancellations := AList.delete (c_job_id c) (co_active_cancellations k)\<rparr>)"
  have f: "slots k = slots k' \<Longrightarrow> slots (?f k) = slots (?f k')" for k k'
    by (simp add: slots_def worker_finished_def)
  have "slots (k_coord s') = slots (?f (k_coord s))"
    if "finallyC (after_worker w c event) ?f s = (r, s')" for event s r s'
    using that f by (rule finally_slots)
  then have "frees (finallyC (after_worker w c event) ?f)" for event
    unfolding frees_def by (simp add: slots_def worker_finished_def)
  from frees_after [OF keeps_calls(3) this, of w c]
  have "frees (bindC (read_state w c) (\<lambda>st. finallyC (after_worker w c (st = CancelRequested)) ?f))" .
  then show ?thesis unfolding run_worker_def by (rule frees_modify) simp
qed

lemma frees_launch: "frees (launch w c)"
  unfolding launch_def start_worker_def abandon_start_def
  by (intro frees_after frees_if frees_finished frees_run_worker keeps_intros keeps_calls keeps_prestart)


lemma claim_work_cases:
  assumes "claim_work w ep a s = (r, s')"
  obtains (first) x where "claim_call w ep a s = (Inr x, s')" and "r = Inr x" and "x = None \<longrightarrow> \<not> a"
    | (second) s1 x where "a" and "claim_call w ep a s = (Inr None, s1)"
      and "claim_call w ep False (s1\<lparr>k_coord := (k_coord s1)\<lparr>co_manual_claims := 0\<rparr>\<rparr>) = (Inr x, s')"
      and "r = Inr x"
    | (raised) e s1 where "r = Inl e" and "s' = s1\<lparr>k_coord := worker_finished (k_coord s1)\<rparr>"
      and "slots (k_coord s1) = slots (k_coord s)
        \<or> a \<and> slots (k_coord s1) = slots ((k_coord s)\<lparr>co_manual_claims := 0\<rparr>)"
proof -
  let ?rest = "\<lambda>claim. if claim = None \<and> a
      then seqC (modifyC (\<lambda>k. k\<lparr>co_manual_claims := 0\<rparr>)) (claim_call w ep False) else returnC claim"
  let ?again = "\<lambda>s. s\<lparr>k_coord := (k_coord s)\<lparr>co_manual_claims := 0\<rparr>\<rparr>"
  have inner: "(\<exists>x. claim_call w ep a s = (Inr x, s1) \<and> r1 = Inr x \<and> (x = None \<longrightarrow> \<not> a))
      \<or> (\<exists>s2 x. a \<and> claim_call w ep a s = (Inr None, s2)
          \<and> claim_call w ep False (?again s2) = (Inr x, s1) \<and> r1 = Inr x)
      \<or> (\<exists>e. r1 = Inl e \<and> (slots (k_coord s1) = slots (k_coord s)
          \<or> a \<and> slots (k_coord s1) = slots ((k_coord s)\<lparr>co_manual_claims := 0\<rparr>)))"
    if "bindC (claim_call w ep a) ?rest s = (r1, s1)" for r1 s1
    using that
  proof (cases rule: bindC_cases)
    case (raised e)
    with relatesD [OF keeps_claim_call raised(1)] show ?thesis by simp
  next
    case (ok x s2)
    note s2 = relatesD [OF keeps_claim_call ok(1)]
    show ?thesis
    proof (cases "x = None \<and> a")
      case True
      with ok(2) have "claim_call w ep False (?again s2) = (r1, s1)" by simp
      with relatesD [OF keeps_claim_call this] s2 ok(1) True show ?thesis
        by (cases r1) (auto simp: slots_def)
    qed (use ok in auto)
  qed
  from assms show thesis unfolding claim_work_def
  proof (cases rule: catchC_cases)
    case (raised e s1)
    from raised(2) have "r = Inl e" "s' = s1\<lparr>k_coord := worker_finished (k_coord s1)\<rparr>" by auto
    with inner [OF raised(1)] that(3) show thesis by auto
  next
    case (ok x)
    with inner [OF ok(1)] that(1,2) show thesis by auto
  qed
qed

lemma claim_work_slots:
  assumes "claim_work w ep a s = (r, s')"
  shows "co_active_workers (k_coord s') = co_active_workers (k_coord s) - (if \<exists>e. r = Inl e then 1 else 0)"
    and "co_manual_claims (k_coord s') = co_manual_claims (k_coord s)
      \<or> a \<and> co_manual_claims (k_coord s') = 0"
    and "co_max_workers (k_coord s') = co_max_workers (k_coord s)"
    and "a \<Longrightarrow> r = Inr (Some c) \<Longrightarrow> c_priority_class c = Manual \<Longrightarrow> co_manual_claims (k_coord s') = 0
      \<or> claim_call w ep a s = (r, s')"
  using assms
  by (cases rule: claim_work_cases;
      auto simp: slots_def worker_finished_def dest!: relatesD [OF keeps_claim_call])+


lemma automatic_claim:
  assumes "claim_tries (claim_once env iid ep secs mx True) meets i n db = Inr (Some c, db')"
  shows "c_priority_class c = Automatic"
  using assms
proof (induction n arbitrary: i db)
  case (Suc n)
  obtain view race where m: "meets i = (view, race)" by (cases "meets i")
  show ?case
  proof (cases "case race of Some e \<Rightarrow> Inl e | None \<Rightarrow> claim_once env iid ep secs mx True view")
    case (Inl e)
    with Suc m show ?thesis by (auto split: if_splits)
  next
    case (Inr r)
    with Suc.prems m have "claim_once env iid ep secs mx True view = Inr (Some c, db')"
      by (auto split: option.splits)
    then obtain j where nc: "next_claimable env mx True view = Some j" and c: "c = claim_of env iid ep j"
      by (auto simp: claim_once_def result_simps Let_def split: option.splits)
    from nc have "j \<in> set (select_by claim_order (claimable env mx True view) (jobs view))"
      by (auto simp: next_claimable_def simp del: set_select_by split: list.splits)
    with c show ?thesis by (simp add: claimable_def claim_of_def)
  qed
qed simp

lemma claim_call_automatic:
  assumes "claim_call w ep True s = (Inr (Some c), s')"
  shows "c_priority_class c = Automatic"
  using callC_Inr(1) [OF assms [unfolded claim_call_def]]
  by (auto simp: claim_next_def result_simps dest: automatic_claim)

text \<open>One round of the loop: it is refused, saturated or idle, or it claims and launches.\<close>

lemma run_once_cases:
  assumes "run_once w s = (r, s')"
  obtains (unstarted) e where "r = Inl e" and "s' = s"
    | (saturated) "r = Inr ''saturated''" and "s' = s" and "co_max_workers (k_coord s) \<le> co_active_workers (k_coord s)"
    | (claim_failed) ep e s0 where "co_active_workers (k_coord s) < co_max_workers (k_coord s)"
      and "s0 = s\<lparr>k_coord := (k_coord s)\<lparr>co_active_workers := co_active_workers (k_coord s) + 1\<rparr>\<rparr>"
      and "claim_work w ep (manual_claim_burst DEFAULT_LIMITS \<le> co_manual_claims (k_coord s)) s0 = (Inl e, s')"
      and "r = Inl e"
    | (idle) ep s0 s1 where "co_active_workers (k_coord s) < co_max_workers (k_coord s)"
      and "s0 = s\<lparr>k_coord := (k_coord s)\<lparr>co_active_workers := co_active_workers (k_coord s) + 1\<rparr>\<rparr>"
      and "claim_work w ep (manual_claim_burst DEFAULT_LIMITS \<le> co_manual_claims (k_coord s)) s0 = (Inr None, s1)"
      and "r = Inr ''idle''" and "s' = s1\<lparr>k_coord := worker_finished (k_coord s1)\<rparr>"
    | (launched) ep s0 c s1 where "co_active_workers (k_coord s) < co_max_workers (k_coord s)"
      and "s0 = s\<lparr>k_coord := (k_coord s)\<lparr>co_active_workers := co_active_workers (k_coord s) + 1\<rparr>\<rparr>"
      and "claim_work w ep (manual_claim_burst DEFAULT_LIMITS \<le> co_manual_claims (k_coord s)) s0 = (Inr (Some c), s1)"
      and "launch w c (s1\<lparr>k_coord := count_claim c (k_coord s1)\<rparr>) = (r, s')"
proof -
  have stay: "require_started s = (x, s1) \<Longrightarrow> s1 = s" for x s1
    by (auto simp: require_started_def split: option.splits)
  show thesis
  proof (cases "\<exists>ep. run_once_admitted w ep s = (r, s')")
    case False
    with assms have "(\<exists>e. r = Inl e) \<and> s' = s"
      unfolding run_once_def by (auto elim!: bindC_cases dest!: stay split: if_splits)
    with unstarted show thesis by blast
  next
    case True
    then obtain ep where adm: "run_once_admitted w ep s = (r, s')" ..
    show thesis
    proof (cases "co_max_workers (k_coord s) \<le> co_active_workers (k_coord s)")
      case True
      with adm saturated show thesis by (simp add: run_once_admitted_def)
    next
      case False
      define s0 where "s0 = s\<lparr>k_coord := (k_coord s)\<lparr>co_active_workers := co_active_workers (k_coord s) + 1\<rparr>\<rparr>"
      from adm False have "bindC (claim_work w ep (manual_claim_burst DEFAULT_LIMITS \<le> co_manual_claims (k_coord s)))
          (\<lambda>claim. case claim of None \<Rightarrow> seqC (modifyC worker_finished) (returnC ''idle'')
            | Some c \<Rightarrow> seqC (modifyC (count_claim c)) (launch w c)) s0 = (r, s')"
        by (simp add: run_once_admitted_def s0_def)
      then show thesis
      proof (cases rule: bindC_cases)
        case (raised e)
        with claim_failed [OF _ s0_def] False show thesis by simp
      next
        case (ok claim s1)
        with idle [OF _ s0_def] launched [OF _ s0_def] False show thesis
          by (cases claim) (simp_all add: not_le)
      qed
    qed
  qed
qed


text \<open>
  Claim C20 (worker slots): a round that returns gives its worker slot back; no round, however it ends,
  brings the number of active workers above the configured maximum; and the count of consecutive manual
  claims stays within the configured burst.
\<close>

theorem worker_slots:
  assumes "run_once w s = (r, s')"
  shows "(\<forall>out. r = Inr out \<longrightarrow> co_active_workers (k_coord s') = co_active_workers (k_coord s))
    \<and> (co_active_workers (k_coord s) \<le> co_max_workers (k_coord s)
         \<longrightarrow> co_active_workers (k_coord s') \<le> co_max_workers (k_coord s'))
    \<and> (0 \<le> co_manual_claims (k_coord s) \<and> co_manual_claims (k_coord s) \<le> manual_claim_burst DEFAULT_LIMITS
         \<longrightarrow> 0 \<le> co_manual_claims (k_coord s') \<and> co_manual_claims (k_coord s') \<le> manual_claim_burst DEFAULT_LIMITS)"
  using assms
proof (cases rule: run_once_cases)
  case (claim_failed ep e s0)
  note cw = claim_work_slots(1-3) [OF claim_failed(3)]
  with claim_failed show ?thesis by (auto simp: DEFAULT_LIMITS_def)
next
  case (idle ep s0 s1)
  note cw = claim_work_slots(1-3) [OF idle(3)]
  with idle show ?thesis by (auto simp: worker_finished_def DEFAULT_LIMITS_def)
next
  case (launched ep s0 c s1)
  note cw = claim_work_slots(1-3) [OF launched(3)]
  note fr = frees_launch [unfolded frees_def, rule_format, OF launched(4)]
  have burst: "c_priority_class c = Manual \<Longrightarrow> manual_claim_burst DEFAULT_LIMITS \<le> co_manual_claims (k_coord s)
      \<Longrightarrow> co_manual_claims (k_coord s1) = 0"
    using claim_work_slots(4) [OF launched(3), of c] claim_call_automatic [of w ep s0 c s1]
      priority.distinct by auto
  have manual: "co_manual_claims (k_coord s') = (if c_priority_class c = Manual
      then co_manual_claims (k_coord s1) + 1 else 0)"
    using fr by (simp add: count_claim_def)
  have kept: "manual_claim_burst DEFAULT_LIMITS \<le> co_manual_claims (k_coord s)
      \<or> co_manual_claims (k_coord s1) = co_manual_claims (k_coord s)"
    using cw(2) launched(2) by auto
  have "co_active_workers (k_coord s') \<le> co_active_workers (k_coord s) + 1"
    "\<forall>out. r = Inr out \<longrightarrow> co_active_workers (k_coord s') = co_active_workers (k_coord s)"
    "co_max_workers (k_coord s') = co_max_workers (k_coord s)"
    using fr cw launched(2) by (auto simp: count_claim_def)
  with launched(1) manual kept burst show ?thesis
    by (cases "co_manual_claims (k_coord s) < manual_claim_burst DEFAULT_LIMITS")
      (auto simp: DEFAULT_LIMITS_def)
qed auto

theorem worker_slots_witness:
  "\<exists>s'. run_once (demo_world demo_report None) (demo_core demo_queued) = (Inr ''succeeded'', s')
     \<and> co_active_workers (k_coord s') = 0 \<and> co_manual_claims (k_coord s') \<le> 3"
proof -
  from run_of [OF demo_succeeds] obtain s' where
    run: "run_once (demo_world demo_report None) (demo_core demo_queued) = (Inr ''succeeded'', s')" ..
  from worker_slots [OF run] run show ?thesis by (auto simp: demo_core_def demo_coordinator_def DEFAULT_LIMITS_def)
qed


text \<open>
  A failed start keeps the slot: when the store fails on the transition of a claimed job to
  starting, the round raises with its worker slot still taken. A coordinator in that state cannot shut
  down: it reports active workers although none runs, and its singleton lease is left to expire.
\<close>

theorem failed_start_keeps_slot:
  assumes "co_epoch (k_coord s) = Some ep" and "w_activity w"
    and "0 \<le> co_active_workers (k_coord s)" and "co_active_workers (k_coord s) < co_max_workers (k_coord s)"
    and "claim_work w ep (manual_claim_burst DEFAULT_LIMITS \<le> co_manual_claims (k_coord s))
      (s\<lparr>k_coord := (k_coord s)\<lparr>co_active_workers := co_active_workers (k_coord s) + 1\<rparr>\<rparr>) = (Inr (Some c), s1)"
    and "transition w c Claimed Starting None None None (s1\<lparr>k_coord := count_claim c (k_coord s1)\<rparr>) = (Inl e, s2)"
  shows "run_once w s = (Inl e, s2)
    \<and> co_active_workers (k_coord s2) = co_active_workers (k_coord s) + 1
    \<and> shutdown w' s2 = (Inl (RuntimeError ''workers are still active''), s2)"
proof (intro conjI)
  show "run_once w s = (Inl e, s2)"
    using assms by (simp add: run_once_def run_once_admitted_def require_started_def launch_def bindC_def readC_def)
  show slot: "co_active_workers (k_coord s2) = co_active_workers (k_coord s) + 1"
    using relatesD [OF keeps_calls(1) assms(6)] claim_work_slots(1) [OF assms(5)]
    by (simp add: slots_def count_claim_def)
  with assms(3) show "shutdown w' s2 = (Inl (RuntimeError ''workers are still active''), s2)"
    by (simp add: shutdown_def)
qed

theorem failed_start_keeps_slot_witness:
  "\<exists>s'. run_once (demo_world demo_report (Some 1)) (demo_core demo_queued)
       = (Inl (OperationalError ''connection lost''), s') \<and> co_active_workers (k_coord s') = 1"
proof -
  let ?w = "demo_world demo_report (Some 1)" and ?s = "demo_core demo_queued"
  let ?t = "?s\<lparr>k_coord := (k_coord ?s)\<lparr>co_active_workers := co_active_workers (k_coord ?s) + 1\<rparr>\<rparr>"
  let ?b = "manual_claim_burst DEFAULT_LIMITS \<le> co_manual_claims (k_coord ?s)"
  have "fst (claim_work ?w 1 ?b ?t) = Inr (Some demo_claim)" by code_simp
  from run_of [OF this] obtain s1 where c: "claim_work ?w 1 ?b ?t = (Inr (Some demo_claim), s1)" ..
  have "fst (transition ?w demo_claim Claimed Starting None None None
      ((snd (claim_work ?w 1 ?b ?t))\<lparr>k_coord := count_claim demo_claim (k_coord (snd (claim_work ?w 1 ?b ?t)))\<rparr>))
      = Inl (OperationalError ''connection lost'')"
    by code_simp
  from run_of [OF this [unfolded c snd_conv]] obtain s2 where t: "transition ?w demo_claim Claimed Starting None None None
      (s1\<lparr>k_coord := count_claim demo_claim (k_coord s1)\<rparr>) = (Inl (OperationalError ''connection lost''), s2)" ..
  have pre: "co_epoch (k_coord ?s) = Some 1" "w_activity ?w" "0 \<le> co_active_workers (k_coord ?s)"
    "co_active_workers (k_coord ?s) < co_max_workers (k_coord ?s)"
    by (simp_all add: demo_core_def demo_coordinator_def demo_world_def)
  from failed_start_keeps_slot [OF pre c t] show ?thesis by (auto simp: demo_core_def demo_coordinator_def)
qed

section \<open>Manual bursts\<close>

lemma eligible_claimed:
  assumes inv: "store_inv m db" and db: "db = w_others w (k_calls s) (k_db s)" and env: "env = w_env w (k_calls s)"
    and live: "live_owner (tx_now env) (co_instance_id (k_coord s)) ep db" "tx_admitted env" "0 \<le> tx_xid env"
    and quiet: "w_meets w (k_calls s) db 0 = (db, None)" "w_fail w (k_calls s) = None" "0 < co_lease_ttl (k_coord s)"
    and j: "map_of (jobs db) k = Some j" "claimable env (max_retry_attempts DEFAULT_LIMITS) a db j"
  shows "\<exists>c s'. claim_call w ep a s = (Inr (Some c), s')"
proof -
  let ?mx = "max_retry_attempts DEFAULT_LIMITS"
  have "next_claimable env ?mx a db \<noteq> None"
    using j map_of_SomeD [OF j(1)] unfolding next_claimable_None by force
  then obtain j' where nc: "next_claimable env ?mx a db = Some j'" by blast
  have "table_ok (jobs db)" using inv by (simp add: store_inv_def tables_ok_def)
  from next_claimable_Some(1) [OF nc this] obtain k' where "map_of (jobs db) k' = Some j'" ..
  from claim_once_ok [OF inv live nc this] obtain c db' where
    "claim_once env (co_instance_id (k_coord s)) ep (co_lease_ttl (k_coord s)) ?mx a db = Inr (Some c, db')" by blast
  then have "claim_next env DEFAULT_LIMITS (co_instance_id (k_coord s)) ep (co_lease_ttl (k_coord s)) a
      (w_meets w (k_calls s) db) db = Inr (Some c, db')"
    using quiet(1,3) by (simp add: claim_next_def positive_seconds_def numeral_3_eq_3)
  then show ?thesis
    using quiet(2) unfolding claim_call_def callC_def db env Let_def by simp
qed

text \<open>
  Claim C21 (manual jobs cannot starve automatic ones): once the coordinator has claimed as many manual
  jobs in a row as the configured burst, its next round claims an automatic job whenever one is
  eligible, however many manual jobs wait, and the count starts again from zero.
\<close>

theorem manual_burst_yields:
  assumes reach: "reachable DEFAULT_LIMITS sha256 (w_others w (k_calls s) (k_db s), C)"
    and live: "live_owner (tx_now (w_env w (k_calls s))) (co_instance_id (k_coord s)) ep (w_others w (k_calls s) (k_db s))"
      "tx_admitted (w_env w (k_calls s))" "0 \<le> tx_xid (w_env w (k_calls s))"
    and quiet: "w_meets w (k_calls s) (w_others w (k_calls s) (k_db s)) 0 = (w_others w (k_calls s) (k_db s), None)"
      "w_fail w (k_calls s) = None" "0 < co_lease_ttl (k_coord s)"
    and j: "map_of (jobs (w_others w (k_calls s) (k_db s))) k = Some j"
      "claimable (w_env w (k_calls s)) (max_retry_attempts DEFAULT_LIMITS) True (w_others w (k_calls s) (k_db s)) j"
    and k: "co_epoch (k_coord s) = Some ep" "w_activity w" "co_active_workers (k_coord s) < co_max_workers (k_coord s)"
      "manual_claim_burst DEFAULT_LIMITS \<le> co_manual_claims (k_coord s)"
    and run: "run_once w s = (r, s')"
  shows "\<exists>c s1. claim_work w ep True
        (s\<lparr>k_coord := (k_coord s)\<lparr>co_active_workers := co_active_workers (k_coord s) + 1\<rparr>\<rparr>) = (Inr (Some c), s1)
      \<and> c_priority_class c = Automatic \<and> co_manual_claims (k_coord s') = 0"
proof -
  let ?s0 = "s\<lparr>k_coord := (k_coord s)\<lparr>co_active_workers := co_active_workers (k_coord s) + 1\<rparr>\<rparr>"
  have inv: "store_inv (max_retry_attempts DEFAULT_LIMITS) (w_others w (k_calls s) (k_db s))"
    using reachable_store_inv [OF reach demo_limits] by simp
  obtain c s1 where c: "claim_call w ep True ?s0 = (Inr (Some c), s1)"
    using eligible_claimed [OF inv, where s = ?s0 and env = "w_env w (k_calls s)" and ep = ep and a = True
        and w = w and k = k and j = j] live quiet j by auto
  then have cw: "claim_work w ep True ?s0 = (Inr (Some c), s1)"
    by (simp add: claim_work_def catchC_def bindC_def)
  have auto: "c_priority_class c = Automatic" using claim_call_automatic [OF c] .
  have "launch w c (s1\<lparr>k_coord := count_claim c (k_coord s1)\<rparr>) = (r, s')"
    using run k cw
    by (simp add: run_once_def run_once_admitted_def require_started_def bindC_def readC_def)
  from frees_launch [unfolded frees_def, rule_format, OF this] auto
  have "co_manual_claims (k_coord s') = 0" by (simp add: count_claim_def)
  with cw auto show ?thesis by blast
qed

definition demo_both :: control_db where
  \<comment> \<open>the example's queued job and an automatic one\<close>
  "demo_both = demo_queued\<lparr>jobs := [(''j1'', demo_job Queued 0 20), (''j2'',
     new_job (demo_env 20) ''j2'' (demo_request ''ke'' Automatic) ''c'' (replicate 64 (CHR ''b''))
       (replicate 64 (CHR ''f'')) 50)]\<rparr>"

lemma demo_both_reachable: "reachable DEFAULT_LIMITS demo_sha256 (demo_both, {})"
proof -
  have "validate_request (demo_request ''ke'' Automatic) = Inr (demo_request ''ke'' Automatic)" by code_simp
  moreover have "submit_transaction (demo_env 20) demo_sha256 ''j2'' (demo_request ''ke'' Automatic) ''c''
      DEFAULT_LIMITS demo_queued = Inr (\<lparr>sr_job_id = ''j2'', sr_state = Queued, sr_replayed = False\<rparr>, demo_both)"
    by code_simp
  ultimately have "submit (demo_env 20) demo_sha256 ''j2'' (demo_request ''ke'' Automatic) ''c'' DEFAULT_LIMITS None
      (Inr ()) demo_queued = Inr (\<lparr>sr_job_id = ''j2'', sr_state = Queued, sr_replayed = False\<rparr>, demo_both)"
    by (simp add: submit_def demo_requester_valid check_deadline_def deadline_milliseconds_def
        require_transaction_admission_def translate_lock_timeout_def demo_env_def)
  from store_step.submit [OF this, of "{}"] demo_queued_reachable show ?thesis
    unfolding reachable_def by (simp add: rtranclp.rtrancl_into_rtrancl)
qed

theorem manual_burst_yields_witness:
  "\<exists>c s1. claim_work (demo_world demo_report None) 1 True
       \<lparr>k_db = demo_both, k_calls = 0, k_coord = demo_coordinator\<lparr>co_manual_claims := 3, co_active_workers := 1\<rparr>\<rparr>
     = (Inr (Some c), s1) \<and> c_priority_class c = Automatic"
proof -
  let ?w = "demo_world demo_report None"
  let ?s = "\<lparr>k_db = demo_both, k_calls = 0, k_coord = demo_coordinator\<lparr>co_manual_claims := 3\<rparr>\<rparr>"
  have w: "w_others ?w i db = db" "w_env ?w 0 = demo_env 30" "w_meets ?w i db n = (db, None)"
    "w_fail ?w i = None" "w_activity ?w" for i n db by (simp_all add: demo_world_def)
  have reach: "reachable DEFAULT_LIMITS demo_sha256 (w_others ?w (k_calls ?s) (k_db ?s), {})"
    using demo_both_reachable by (simp add: w)
  have facts: "live_owner 30 ''one'' 1 demo_both"
    "claimable \<lparr>tx_now = 30, tx_clock = 30, tx_xid = 700, tx_admitted = True\<rparr> 3 True
      demo_both (snd (jobs demo_both ! 1))" "map_of (jobs demo_both) ''j2'' = Some (snd (jobs demo_both ! 1))"
    by code_simp+
  obtain r s' where run: "run_once ?w ?s = (r, s')" by (cases "run_once ?w ?s")
  have "\<exists>c s1. claim_work ?w 1 True (?s\<lparr>k_coord := (k_coord ?s)\<lparr>co_active_workers := co_active_workers (k_coord ?s) + 1\<rparr>\<rparr>)
      = (Inr (Some c), s1) \<and> c_priority_class c = Automatic \<and> co_manual_claims (k_coord s') = 0"
    by (rule manual_burst_yields [OF reach _ _ _ _ _ _ _ _ _ _ _ _ run, of 1 "''j2''" "snd (jobs demo_both ! 1)"])
      (use facts in \<open>simp_all add: w demo_coordinator_def demo_env_def DEFAULT_LIMITS_def\<close>)
  then show ?thesis by (auto simp: demo_coordinator_def)
qed

end
