(* ===== verification/Coordinator_Truth.thy ===== *)
theory Coordinator_Truth
  imports Coordinator_Properties
begin

text \<open>
  The outcome a disposition returns is the state it left the job in. The proof follows the code with
  triples over its store calls: before each call the database is reachable and knows the claim, and
  every call that answers yes has established what the answer says.
\<close>

definition triple :: "(core_state \<Rightarrow> bool) \<Rightarrow> 'a core \<Rightarrow> ('a \<Rightarrow> core_state \<Rightarrow> bool) \<Rightarrow> bool" where
  "triple P m Q = (\<forall>s x s'. P s \<longrightarrow> m s = (Inr x, s') \<longrightarrow> Q x s')"

lemma tripleI: "(\<And>s x s'. P s \<Longrightarrow> m s = (Inr x, s') \<Longrightarrow> Q x s') \<Longrightarrow> triple P m Q"
  by (simp add: triple_def)

lemma tripleD: "triple P m Q \<Longrightarrow> P s \<Longrightarrow> m s = (Inr x, s') \<Longrightarrow> Q x s'"
  by (simp add: triple_def)

lemma triple_bind: "triple P m Q \<Longrightarrow> (\<And>x. triple (Q x) (f x) R) \<Longrightarrow> triple P (bindC m f) R"
  by (rule tripleI, erule bindC_cases) (auto dest: tripleD)

lemma triple_seq: "triple P m (\<lambda>_. Q) \<Longrightarrow> triple Q m' R \<Longrightarrow> triple P (seqC m m') R"
  unfolding seqC_def by (rule triple_bind)

lemma triple_return: "(\<And>s. P s \<Longrightarrow> Q x s) \<Longrightarrow> triple P (returnC x) Q"
  by (simp add: triple_def)

lemma triple_raise: "triple P (raiseC e) Q"
  by (simp add: triple_def)

lemma triple_if: "(b \<Longrightarrow> triple P m Q) \<Longrightarrow> (\<not> b \<Longrightarrow> triple P m' Q) \<Longrightarrow> triple P (if b then m else m') Q"
  by simp

lemma triple_weaken: "triple P m Q \<Longrightarrow> (\<And>s. P' s \<Longrightarrow> P s) \<Longrightarrow> triple P' m Q"
  unfolding triple_def by blast

section \<open>What a call leaves behind\<close>

definition knows :: "(string \<Rightarrow> string) \<Rightarrow> JobClaim \<Rightarrow> control_db \<Rightarrow> bool" where
  "knows sha256 c db = (\<exists>C. c \<in> C \<and> reachable DEFAULT_LIMITS sha256 (db, C))"

definition job_in :: "JobClaim \<Rightarrow> JobState \<Rightarrow> control_db \<Rightarrow> bool" where
  "job_in c t db = (\<exists>j. map_of (jobs db) (c_job_id c) = Some j \<and> j_state j = t)"

definition unleased :: "JobClaim \<Rightarrow> control_db \<Rightarrow> bool" where
  "unleased c db = (\<forall>l. map_of (leases db) (c_graph_id c) = Some l \<longrightarrow> \<not> lease_of_claim c l)"

definition truthful :: "JobClaim \<Rightarrow> string \<Rightarrow> control_db \<Rightarrow> bool" where
  "truthful c out db = (out = ''ownership_lost'' \<or> (\<exists>t. job_state_of out = Some t \<and> job_in c t db
     \<and> (t \<noteq> ReconciliationRequired \<longrightarrow> unleased c db)))"

lemma outcome_states [simp]:
  "job_state_of ''reconciliation_required'' = Some ReconciliationRequired"
  "job_state_of ''queued'' = Some Queued" "job_state_of ''failed'' = Some Failed"
  "job_state_of ''cancelled'' = Some Cancelled"
  by code_simp+

lemma knows_inv:
  assumes "knows sha256 c db"
  shows "store_inv (max_retry_attempts DEFAULT_LIMITS) db" and "claim_ok db c"
  using assms reachable_claim [OF _ demo_limits] unfolding knows_def by blast+

lemma knows_progress: "progress sha256 {c} db {c} db' \<Longrightarrow> knows sha256 c db \<Longrightarrow> knows sha256 c db'"
  unfolding knows_def progress_def reachable_def
  by (metis empty_subsetI insert_subset rtranclp_trans sup.boundedE)

lemma knows_steps:
  assumes "steps (progress sha256) {c} m"
  shows "triple (\<lambda>s. knows sha256 c (k_db s)) m (\<lambda>_ s. knows sha256 c (k_db s))"
  by (rule tripleI) (use knows_progress relatesD [OF assms] in blast)

text \<open>A call that answers yes establishes \<open>Q\<close> on what it commits.\<close>

lemma triple_call:
  assumes "calm (progress sha256) w" and "steps (progress sha256) {c} (callC w f)"
    and "\<And>env db x db'. knows sha256 c db \<Longrightarrow> f env db = Inr (x, db') \<Longrightarrow> Q x db'"
  shows "triple (\<lambda>s. knows sha256 c (k_db s)) (callC w f) (\<lambda>x s. knows sha256 c (k_db s) \<and> Q x (k_db s))"
proof (rule tripleI, rule conjI)
  fix s x s' assume k: "knows sha256 c (k_db s)" and m: "callC w f s = (Inr x, s')"
  show "knows sha256 c (k_db s')" using tripleD [OF knows_steps [OF assms(2)] k m] .
  have "knows sha256 c (w_others w (k_calls s) (k_db s))"
    using k assms(1) by (auto simp: calm_def intro: knows_progress)
  from assms(3) [OF this callC_Inr(1) [OF m]] show "Q x (k_db s')" .
qed

lemma cas_state:
  assumes "knows sha256 c db"
    and "compare_and_set_state env (c_job_id c) s t n iid ep p e d db = Inr (True, db')"
  shows "job_in c t db'"
proof -
  note jid = store_inv_job_id [OF knows_inv(1) [OF assms(1)]]
  from assms(2) show ?thesis
  proof (cases rule: compare_and_set_state_cases)
    case (set j a)
    with jid [OF set(4)] show ?thesis by (simp add: job_in_def cas_job_def)
  next
    case (set_job j)
    with jid [OF set_job(4)] show ?thesis by (simp add: job_in_def cas_job_def)
  qed simp
qed

lemma terminated_state:
  assumes "mark_attempt_terminated env c pr ri re d db = Inr (True, db')" and "knows sha256 c db"
  shows "job_in c ReconciliationRequired db'"
proof -
  have key: "map_of (attempts db) (claim_key c) = Some a \<Longrightarrow> a_job_id a = c_job_id c" for a
    using store_inv_attempt [OF knows_inv(1) [OF assms(2)]] by (fastforce simp: claim_key_def)
  from assms(1) have "update_attempt (claim_key c)
         (\<lambda>a. owned_by c a
            \<and> (case map_of (jobs db) (a_job_id a) of
                 Some j \<Rightarrow> j_state j = ReconciliationRequired \<and> j_current_attempt j = a_attempt a
               | None \<Rightarrow> False))
         (\<lambda>a. a\<lparr>a_finished_at := Some (tx_now env),
               a_diagnostic_summary := coalesce d (a_diagnostic_summary a)\<rparr>) db = Inr (True, db')"
    by (simp add: mark_attempt_terminated_def result_simps)
  then show ?thesis
    by (cases rule: update_attempt_cases) (auto simp: job_in_def dest!: key split: option.splits)
qed

lemma retry_state:
  assumes "schedule_retry env c s delay cat mx d db = Inr (True, db')" and "knows sha256 c db"
  shows "job_in c Queued db'" and "unleased c db'"
proof -
  note jid = store_inv_job_id [OF knows_inv(1) [OF assms(2)]]
  from assms(1) obtain j where rc: "retry_candidate c s db = Some j"
    by (auto simp: schedule_retry_def result_simps split: option.splits)
  then have j: "map_of (jobs db) (c_job_id c) = Some j" "j_state j = s" "j_current_attempt j = c_attempt c"
    by (auto simp: retry_candidate_def split: option.splits if_splits)
  from assms(1) rc obtain b1 db1 b2 db2 where
    u: "update_job (c_job_id c) (\<lambda>j. j_state j = s \<and> j_current_attempt j = c_attempt c)
      (\<lambda>j. j\<lparr>j_state := Queued, j_publication_state := NotStarted, j_error_category := Some cat,
         j_next_eligible_at := tx_now env + delay, j_updated_at := tx_now env\<rparr>) db = Inr (b1, db1)"
    and a: "update_attempt (claim_key c) (owned_by c)
      (\<lambda>a. a\<lparr>a_is_current := False, a_finished_at := Some (tx_now env), a_result_category := Some cat,
         a_diagnostic_summary := coalesce d (a_diagnostic_summary a)\<rparr>) db1 = Inr (b2, db2)"
    and l: "db' = snd (delete_lease (c_graph_id c) (lease_of_claim c) db2)"
    by (auto simp: schedule_retry_def result_simps)
  have "job_in c Queued db1"
    using u by (cases rule: update_job_cases) (use j jid [OF j(1)] in \<open>auto simp: job_in_def\<close>)
  moreover have "jobs db2 = jobs db1" using a by (cases rule: update_attempt_cases) auto
  moreover have "jobs db' = jobs db2" unfolding l by (simp add: delete_lease_def split: option.split)
  ultimately show "job_in c Queued db'" by (simp add: job_in_def)
  show "unleased c db'" unfolding l unleased_def
    by (auto simp: delete_lease_def split: option.splits)
qed

lemma reconciled_state:
  assumes "reconcile_publication env c mx ri re u db = Inr (out, db')" and "knows sha256 c db"
  shows "truthful c (outcome_name out) db'"
proof (cases "lock_evidence c db")
  case None
  with assms(1) show ?thesis
    by (auto simp: reconcile_publication_def result_simps truthful_def outcome_name_def)
next
  case (Some e)
  note inv = knows_inv(1) [OF assms(2)]
  obtain j a mk where e: "e = (j, a, mk)" by (cases e)
  note ev = lock_evidence_Some [OF Some [unfolded e] store_inv_job_id [OF inv]]
  have run: "reconcile_evidence env c mx u j a mk db = Inr (out, db')"
    using assms(1) Some e by (auto simp: reconcile_publication_def result_simps)
  note T = close_terminal_state [OF _ inv ev(1-3)]
  note P = close_terminal_state [OF _ pause_graph_intent_inv [OF inv], simplified, OF _ ev(1-3)]
  note Q = queue_retry_state [OF _ inv ev(1-3)]
  have finished: "truthful c (outcome_name out) db'"
    if "out = Outcome t" "job_in c t db'" "map_of (leases db') (c_graph_id c) = None" for t
    using that by (auto simp: truthful_def outcome_name_def unleased_def)
  from run show ?thesis
  proof (cases rule: reconcile_evidence_cases)
    case kept
    with ev(1,2) show ?thesis by (auto simp: truthful_def outcome_name_def job_in_def)
  next
    case (succeeded d) then show ?thesis using T [OF succeeded(4)]
      by (intro finished [OF succeeded(1)]) (auto simp: job_in_def)
  next
    case (quarantined q) then show ?thesis using P [OF quarantined(4)]
      by (intro finished [OF quarantined(1)]) (auto simp: job_in_def)
  next
    case cancelled then show ?thesis using T [OF cancelled(7)]
      by (intro finished [OF cancelled(1)]) (auto simp: job_in_def)
  next
    case failed then show ?thesis using T [OF failed(8)]
      by (intro finished [OF failed(1)]) (auto simp: job_in_def)
  next
    case (queued p) then show ?thesis using Q [OF queued(9)]
      by (intro finished [OF queued(1)]) (auto simp: job_in_def)
  qed
qed


section \<open>Terminal jobs stay\<close>

lemma terminal_stays_step:
  assumes "store_step limits sha256 (db, C) (db', C')" and "system_inv limits (db, C)"
    and "0 \<le> max_retry_attempts limits" and "c \<in> C" and "terminal t"
    and "\<forall>j. map_of (jobs db) (c_job_id c) = Some j \<longrightarrow> j_state j = t"
  shows "\<forall>j. map_of (jobs db') (c_job_id c) = Some j \<longrightarrow> j_state j = t"
proof -
  have fixed: "s' = s" if "terminal s" "legal\<^sup>*\<^sup>* s s'" for s s'
    using that(2,1) by (cases rule: converse_rtranclpE) (use terminal_absorbing in auto)
  from step_advances [OF assms(1-3)] show ?thesis unfolding advances_def
  proof (elim disjE exE conjE)
    fix N assume ev: "evolves N db db'" and "N \<inter> c_job_id ` C = {}"
    with assms(4) have "map_of (jobs db') (c_job_id c) \<noteq> None \<Longrightarrow> map_of (jobs db) (c_job_id c) \<noteq> None"
      using evolvesD(6) [OF ev, of "c_job_id c"] by auto
    with evolvesD(1) [OF ev, of "c_job_id c"] fixed assms(5,6) show ?thesis
      by (fastforce simp: job_evolves_def)
  next
    fix ids assume "forgets ids db db'"
    with assms(6) show ?thesis by (auto simp: forgets_def)
  qed
qed

lemma terminal_stays_run:
  assumes "(store_step limits sha256)\<^sup>*\<^sup>* s u" and "system_inv limits s"
    and "0 \<le> max_retry_attempts limits" and "c \<in> snd s" and "terminal t"
    and "\<forall>j. map_of (jobs (fst s)) (c_job_id c) = Some j \<longrightarrow> j_state j = t"
  shows "c \<in> snd u \<and> (\<forall>j. map_of (jobs (fst u)) (c_job_id c) = Some j \<longrightarrow> j_state j = t)"
  using assms
proof (induction rule: rtranclp_induct)
  case (step u v)
  have inv: "system_inv limits u" using run_system_inv [OF step.hyps(1) step.prems(1,2)] .
  obtain db C db' C' where u: "u = (db, C)" and v: "v = (db', C')" by (metis surj_pair)
  from step have c: "c \<in> C" "\<forall>j. map_of (jobs db) (c_job_id c) = Some j \<longrightarrow> j_state j = t"
    unfolding u by auto
  have "store_inv (max_retry_attempts limits) db" using inv u by (simp add: system_inv_def)
  from step_claims(1) [OF step.hyps(2) [unfolded u v] this]
    terminal_stays_step [OF step.hyps(2) [unfolded u v] inv [unfolded u] step.prems(2) c(1) step.prems(4) c(2)] c(1)
  show ?case unfolding v by auto
qed simp

lemma terminal_progress:
  assumes "progress sha256 {c} db {c} db'" and "knows sha256 c db" and "job_in c t db" and "terminal t"
    and "map_of (jobs db') (c_job_id c) = Some j"
  shows "j_state j = t"
proof -
  obtain C where C: "c \<in> C" "reachable DEFAULT_LIMITS sha256 (db, C)" using assms(2) by (auto simp: knows_def)
  with assms(1) obtain C' where run: "(store_step DEFAULT_LIMITS sha256)\<^sup>*\<^sup>* (db, C) (db', C')"
    unfolding progress_def by blast
  from terminal_stays_run [OF run reachable_system_inv [OF C(2) demo_limits] demo_limits, of c t] C(1) assms(3-5)
  show ?thesis by (auto simp: job_in_def)
qed

lemma released_state:
  assumes "release_graph_lease env g k n oi oe ri re db = Inr (True, db')"
  shows "\<exists>j. map_of (jobs db) k = Some j" and "jobs db' = jobs db" and "map_of (leases db') g = None"
  using assms
  by (auto simp: release_graph_lease_def Let_def split: if_splits prod.splits option.splits
      elim!: delete_lease_cases)


section \<open>Dispositions\<close>

text \<open>The triples of the calls, for a world that is calm and a claim the database knows.\<close>

lemma triple_transition:
  assumes "calm (progress sha256) w" and "t \<noteq> Queued"
  shows "triple (\<lambda>s. knows sha256 c (k_db s)) (transition w c st t p e d)
    (\<lambda>ok s. knows sha256 c (k_db s) \<and> (ok \<longrightarrow> job_in c t (k_db s)))"
  unfolding transition_def
  by (rule triple_call [OF assms(1) store.steps_transition [OF assms, unfolded transition_def]])
    (auto dest: cas_state)

lemma triple_mark:
  assumes "calm (progress sha256) w"
  shows "triple (\<lambda>s. knows sha256 c (k_db s)) (mark_reconciliation w c st cat d p)
    (\<lambda>ok s. knows sha256 c (k_db s) \<and> (ok \<longrightarrow> job_in c ReconciliationRequired (k_db s)))"
  unfolding mark_reconciliation_def
  by (rule triple_call [OF assms store.steps_mark [OF assms, unfolded mark_reconciliation_def]])
    (auto simp: mark_reconciliation_required_def result_simps dest: cas_state)

lemma triple_terminated:
  assumes "calm (progress sha256) w"
  shows "triple (\<lambda>s. knows sha256 c (k_db s)) (attempt_terminated w c iid ep d)
    (\<lambda>ok s. knows sha256 c (k_db s) \<and> (ok \<longrightarrow> job_in c ReconciliationRequired (k_db s)))"
  unfolding attempt_terminated_def
  by (rule triple_call [OF assms store.steps_terminated [OF assms, unfolded attempt_terminated_def]])
    (auto dest: terminated_state)

lemma triple_schedule:
  assumes "calm (progress sha256) w"
  shows "triple (\<lambda>s. knows sha256 c (k_db s))
    (callC w (\<lambda>env. schedule_retry env c Running delay cat (max_retry_attempts DEFAULT_LIMITS) d))
    (\<lambda>ok s. knows sha256 c (k_db s) \<and> (ok \<longrightarrow> job_in c Queued (k_db s) \<and> unleased c (k_db s)))"
  by (rule triple_call [OF assms store.steps_call [OF assms]])
    (auto dest: retry_state store.retries)

lemma triple_db:
  \<comment> \<open>a step that leaves the database alone keeps what is known of it\<close>
  assumes "\<And>s r s'. m s = (r, s') \<Longrightarrow> k_db s' = k_db s"
  shows "triple (\<lambda>s. P (k_db s)) m (\<lambda>_ s. P (k_db s))"
  using assms by (force simp: triple_def)

lemma retire_db: "retire_evidence w c s = (r, s') \<Longrightarrow> k_db s' = k_db s"
  by (auto simp: retire_evidence_def modifyC_def split: option.splits sum.splits if_splits)

lemma started_db: "require_started s = (r, s') \<Longrightarrow> s' = s"
  by (auto simp: require_started_def split: option.splits)

lemma lift_db: "liftC x s = (r, s') \<Longrightarrow> s' = s"
  by (simp add: liftC_def)

lemma triple_release:
  assumes "calm (progress sha256) w" and "terminal t"
  shows "triple (\<lambda>s. knows sha256 c (k_db s) \<and> job_in c t (k_db s)) (release_terminal_lease w c)
    (\<lambda>_ s. job_in c t (k_db s) \<and> unleased c (k_db s))"
proof (rule tripleI)
  fix s x s'
  assume pre: "knows sha256 c (k_db s) \<and> job_in c t (k_db s)" and "release_terminal_lease w c s = (Inr x, s')"
  then obtain iid ep where "callC w (\<lambda>env. release_graph_lease env (c_graph_id c) (c_job_id c) (c_attempt c)
      (c_instance_id c) (c_fencing_epoch c) iid ep) s = (Inr True, s')"
    unfolding release_terminal_lease_def
    by (auto elim!: bindC_cases dest!: started_db split: if_splits simp: readC_def)
  note r = released_state [OF callC_Inr(1) [OF this]]
  let ?db = "w_others w (k_calls s) (k_db s)"
  have go: "progress sha256 {c} (k_db s) {c} ?db" using assms(1) by (simp add: calm_def)
  obtain j where j: "map_of (jobs ?db) (c_job_id c) = Some j" using r(1) ..
  from pre have "j_state j = t" by (elim conjE) (rule terminal_progress [OF go _ _ assms(2) j])
  with j have "job_in c t ?db" by (simp add: job_in_def)
  with r(2,3) show "job_in c t (k_db s') \<and> unleased c (k_db s')" by (simp add: job_in_def unleased_def)
qed

lemma triple_close:
  assumes "calm (progress sha256) w" and "terminal t"
  shows "triple (\<lambda>s. knows sha256 c (k_db s)) (close_and_release w c st t p cat d)
    (\<lambda>out s. truthful c out (k_db s))"
  unfolding close_and_release_def
proof (intro triple_bind triple_if triple_seq)
  have "t \<noteq> Queued" using assms(2) by auto
  then show "triple (\<lambda>s. knows sha256 c (k_db s)) (transition w c st t (Some p) (Some cat) d)
      (\<lambda>ok s. knows sha256 c (k_db s) \<and> (ok \<longrightarrow> job_in c t (k_db s)))"
    by (rule triple_transition [OF assms(1)])
next
  fix ok assume "ok"
  then show "triple (\<lambda>s. knows sha256 c (k_db s) \<and> (ok \<longrightarrow> job_in c t (k_db s))) (release_terminal_lease w c)
      (\<lambda>_ s. job_in c t (k_db s) \<and> unleased c (k_db s))"
    using triple_release [OF assms] by simp
next
  show "triple (\<lambda>s. job_in c t (k_db s) \<and> unleased c (k_db s)) (retire_evidence w c)
      (\<lambda>_ s. job_in c t (k_db s) \<and> unleased c (k_db s))"
    by (rule triple_db [where P = "\<lambda>db. job_in c t db \<and> unleased c db"]) (rule retire_db)
qed (auto intro!: triple_return simp: truthful_def)


abbreviation knowing :: "(string \<Rightarrow> string) \<Rightarrow> JobClaim \<Rightarrow> core_state \<Rightarrow> bool" where
  "knowing sha256 c s \<equiv> knows sha256 c (k_db s)"

abbreviation telling :: "JobClaim \<Rightarrow> string \<Rightarrow> core_state \<Rightarrow> bool" where
  "telling c out s \<equiv> truthful c out (k_db s)"

lemma triple_lost: "triple P (returnC ''ownership_lost'') (telling c)"
  by (rule triple_return) (simp add: truthful_def)

lemma triple_waiting:
  "triple (\<lambda>s. knowing sha256 c s \<and> job_in c ReconciliationRequired (k_db s))
     (returnC ''reconciliation_required'') (telling c)"
  by (rule triple_return) (simp add: truthful_def)

lemma bind_knowing:
  assumes "steps (progress sha256) {c} m" and "\<And>x. triple (knowing sha256 c) (f x) R"
  shows "triple (knowing sha256 c) (bindC m f) R"
  by (rule triple_bind [OF knows_steps [OF assms(1)] assms(2)])

lemma bind_yes:
  assumes "triple (knowing sha256 c) m (\<lambda>ok s. knowing sha256 c s \<and> (ok \<longrightarrow> Q (k_db s)))"
    and "triple (\<lambda>s. knowing sha256 c s \<and> Q (k_db s)) (f True) R" and "triple (knowing sha256 c) (f False) R"
  shows "triple (knowing sha256 c) (bindC m f) R"
proof (rule triple_bind [OF assms(1)])
  show "triple (\<lambda>s. knowing sha256 c s \<and> (ok \<longrightarrow> Q (k_db s))) (f ok) R" for ok
    using assms(2,3) by (cases ok) simp_all
qed

lemma triple_forget:
  "triple (knowing sha256 c) m R \<Longrightarrow> triple (\<lambda>s. knowing sha256 c s \<and> Q s) m R"
  by (erule triple_weaken) simp

lemma triple_reconcile:
  assumes calm: "calm (progress sha256) w"
  shows "triple (knowing sha256 c) (reconcile_and_retire w c) (telling c)"
proof -
  have call: "triple (knowing sha256 c)
      (callC w (\<lambda>env. reconcile_publication env c (max_retry_attempts DEFAULT_LIMITS) iid ep u))
      (\<lambda>out s. knows sha256 c (k_db s) \<and> truthful c (outcome_name out) (k_db s))" for iid ep u
    by (rule triple_call [OF calm store.steps_call [OF calm]])
      (auto dest: reconciled_state store.reconciliations)
  have "triple (knowing sha256 c) (bindC (callC w (\<lambda>env. reconcile_publication env c
      (max_retry_attempts DEFAULT_LIMITS) iid ep u)) (\<lambda>out. returnC (outcome_name out))) (telling c)" for iid ep u
    by (rule triple_bind [OF call]) (rule triple_return, simp)
  note last = this
  have marker: "steps (progress sha256) {c} (case m of None \<Rightarrow> returnC False
      | Some m \<Rightarrow> seqC (catchC (record_marker_if_available w c m)
          (\<lambda>e. if is_ValueError e then returnC False else raiseC e))
          (returnC (dict_get m ''publication_state'' = VStr ''not_started'')))" for m
    by (intro store.steps_intros store.steps_marker [OF calm]) simp
  have "triple (knowing sha256 c) (reconcile_current w c) (telling c)"
    unfolding reconcile_current_def
    by (rule bind_knowing, rule store.steps_intros, rule bind_knowing, rule marker,
        rule bind_knowing, rule store.steps_intros, rule bind_knowing, rule store.steps_intros, rule last)
  then show ?thesis unfolding reconcile_and_retire_def
  proof (rule triple_bind, intro triple_if)
    fix out
    have "triple (\<lambda>s. truthful c out (k_db s)) (retire_evidence w c) (\<lambda>_ s. truthful c out (k_db s))"
      by (rule triple_db) (rule retire_db)
    then show "triple (telling c out) (seqC (retire_evidence w c) (returnC out)) (telling c)"
      by (rule triple_seq) (rule triple_return)
  qed (rule triple_return)
qed

lemma triple_retired:
  "triple (\<lambda>s. knowing sha256 c s \<and> job_in c Queued (k_db s) \<and> unleased c (k_db s))
     (seqC (retire_evidence w c) (returnC ''queued'')) (telling c)"
proof (rule triple_weaken [OF triple_seq])
  show "triple (\<lambda>s. job_in c Queued (k_db s) \<and> unleased c (k_db s)) (retire_evidence w c)
      (\<lambda>_ s. job_in c Queued (k_db s) \<and> unleased c (k_db s))"
    by (rule triple_db [where P = "\<lambda>db. job_in c Queued db \<and> unleased c db"]) (rule retire_db)
  show "triple (\<lambda>s. job_in c Queued (k_db s) \<and> unleased c (k_db s)) (returnC ''queued'') (telling c)"
    by (rule triple_return) (simp add: truthful_def)
qed simp

text \<open>The two guarded calls a disposition makes before it goes on.\<close>

lemma marked:
  assumes "calm (progress sha256) w"
    and "triple (\<lambda>s. knowing sha256 c s \<and> job_in c ReconciliationRequired (k_db s)) m (telling c)"
  shows "triple (knowing sha256 c) (bindC (mark_reconciliation w c st cat d p)
    (\<lambda>ok. if \<not> ok then returnC ''ownership_lost'' else m)) (telling c)"
  by (rule bind_yes [OF triple_mark [OF assms(1)]]) (simp_all add: assms(2) triple_lost)

lemma terminated:
  assumes "calm (progress sha256) w"
    and "triple (\<lambda>s. knowing sha256 c s \<and> job_in c ReconciliationRequired (k_db s)) m (telling c)"
  shows "triple (knowing sha256 c) (bindC (attempt_terminated w c iid ep d)
    (\<lambda>ok. if \<not> ok then returnC ''ownership_lost'' else m)) (telling c)"
  by (rule bind_yes [OF triple_terminated [OF assms(1)]]) (simp_all add: assms(2) triple_lost)

lemma cancelling:
  assumes "calm (progress sha256) w" and "triple (knowing sha256 c) m (telling c)"
  shows "triple (knowing sha256 c) (bindC (transition w c CancelRequested Cancelling None None None)
    (\<lambda>ok. if \<not> ok then returnC ''ownership_lost'' else m)) (telling c)"
  by (rule bind_yes [OF triple_transition [OF assms(1)]])
    (simp_all add: assms(2) triple_lost triple_forget)

lemma dispose_truthful:
  assumes calm: "calm (progress sha256) w"
  shows "triple (knowing sha256 c) (dispose_terminal w c expected report) (telling c)"
proof -
  note m = marked [OF calm] and t = terminated [OF calm] and close = triple_close [OF calm]
  note rec = triple_forget [OF triple_reconcile [OF calm]]
  have recording: "steps (progress sha256) {c} (catchC (record_marker_if_available w c report)
      (\<lambda>e. if is_ValueError e then returnC True else raiseC e))"
    by (intro store.steps_intros store.steps_marker [OF calm]) simp
  have 1: "triple (knowing sha256 c) (dispose_committed w c expected report proved d) (telling c)" for proved d
    unfolding dispose_committed_def
  proof (rule bind_knowing [OF recording], rule m, rule triple_if)
    fix recorded
    show "triple (\<lambda>s. knowing sha256 c s \<and> job_in c ReconciliationRequired (k_db s))
        (bindC (if proved then attempt_terminated w c (c_instance_id c) (c_fencing_epoch c) None else returnC True)
          (\<lambda>ok. if \<not> ok then returnC ''ownership_lost'' else reconcile_and_retire w c)) (telling c)"
      by (cases proved) (simp_all add: rec triple_forget [OF t [OF rec]])
  qed (rule triple_waiting)
  have 2: "triple (knowing sha256 c) (dispose_uncertain w c expected cat d) (telling c)" for cat d
    unfolding dispose_uncertain_def
    by (intro m triple_forget [OF t] triple_if rec triple_waiting)
  have 3: "triple (knowing sha256 c) (dispose_failed w c expected report p d) (telling c)" for p d
    unfolding dispose_failed_def Let_def
    by (intro triple_if cancelling [OF calm] bind_knowing bind_yes [OF triple_schedule [OF calm]]
        store.steps_intros)
      (simp_all add: close triple_retired)
  have 4: "triple (knowing sha256 c) (dispose_cancelled w c p) (telling c)" for p
    unfolding dispose_cancelled_def by (intro cancelling [OF calm] close) simp
  have 5: "triple (knowing sha256 c) (dispose_other w c expected p sup d) (telling c)" for p sup d
    unfolding dispose_other_def Let_def
    by (rule m, rule triple_forget, rule bind_knowing, rule store.steps_intros,
        rule bind_knowing, rule store.steps_intros, rule t, rule rec)
  have 6: "triple (knowing sha256 c) (bindC (mark_reconciliation w c expected ''worker_crash'' d CommitUnknown)
      (\<lambda>ok. returnC (if ok then ''reconciliation_required'' else ''ownership_lost''))) (telling c)" for d
    by (rule bind_yes [OF triple_mark [OF calm]]) (simp_all add: triple_waiting triple_lost)
  show ?thesis unfolding dispose_terminal_def Let_def
    by (intro triple_if 1 2 3 4 5 6 bind_knowing store.steps_intros)
qed

text \<open>
  Claim C15 (the reported outcome is true): when the disposition of a worker's report returns, on a
  reachable database and whatever happens around it, it has either lost ownership or the claimed job is
  in the state it returned; and unless that state waits for reconciliation the claim's graph lease is
  gone.
\<close>

theorem disposition_is_truthful:
  assumes "calm (progress sha256) w" and "reachable DEFAULT_LIMITS sha256 (k_db s, C)" and "c \<in> C"
    and "dispose_terminal w c expected report s = (Inr out, s')"
  shows "out = ''ownership_lost'' \<or> (\<exists>t j. job_state_of out = Some t
      \<and> map_of (jobs (k_db s')) (c_job_id c) = Some j \<and> j_state j = t
      \<and> (t \<noteq> ReconciliationRequired \<longrightarrow>
           (\<forall>l. map_of (leases (k_db s')) (c_graph_id c) = Some l \<longrightarrow> \<not> lease_of_claim c l)))"
proof -
  have "knows sha256 c (k_db s)" using assms(2,3) by (auto simp: knows_def)
  from tripleD [OF dispose_truthful [OF assms(1)] this assms(4)] show ?thesis
    unfolding truthful_def job_in_def unleased_def by blast
qed


theorem disposition_is_truthful_witness:
  "\<exists>s' j. dispose_terminal (demo_world demo_failure None) demo_claim Running demo_failure (demo_core demo_running)
       = (Inr ''failed'', s')
     \<and> map_of (jobs (k_db s')) ''j1'' = Some j \<and> j_state j = Failed"
proof -
  have "fst (dispose_terminal (demo_world demo_failure None) demo_claim Running demo_failure (demo_core demo_running))
      = Inr ''failed''" by code_simp
  from run_of [OF this] obtain s' where run: "dispose_terminal (demo_world demo_failure None) demo_claim Running
      demo_failure (demo_core demo_running) = (Inr ''failed'', s')" ..
  have reach: "reachable DEFAULT_LIMITS demo_sha256 (k_db (demo_core demo_running), {demo_claim})"
    using demo_reachable by (simp add: demo_core_def)
  have id: "c_job_id demo_claim = ''j1''" by code_simp
  from disposition_is_truthful [OF demo_calm reach _ run] run show ?thesis by (auto simp: id)
qed

end
