(* ===== verification/Startup_Recovery.thy ===== *)
theory Startup_Recovery
  imports Coordinator_Core
begin

text \<open>
  Startup and recovery of a coordinator (\<^verbatim>\<open>startup_recovery.py\<close>, and \<^verbatim>\<open>heartbeat\<close> of \<^verbatim>\<open>core.py\<close>): singleton
  acquisition, the classification of abandoned attempts, the bounded pass over the attempts whose
  publication is uncertain, and the ring of diagnostics it leaves. The store is the one of this
  development, which has every operation the code looks up with \<^verbatim>\<open>getattr\<close>.
\<close>

section \<open>Diagnostics\<close>

fun class_name :: "py_error \<Rightarrow> string" where
  "class_name (ValueError _) = ''ValueError''"
| "class_name (TypeError _) = ''TypeError''"
| "class_name (KeyError _) = ''KeyError''"
| "class_name (RuntimeError _) = ''RuntimeError''"
| "class_name (PermissionError _) = ''PermissionError''"
| "class_name (FileNotFoundError _) = ''FileNotFoundError''"
| "class_name (FileExistsError _) = ''FileExistsError''"
| "class_name (OSError _) = ''OSError''"
| "class_name (AdmissionTimeout _) = ''AdmissionTimeout''"
| "class_name (ProtocolError _) = ''ProtocolError''"
| "class_name (WorkerLaunchError _) = ''WorkerLaunchError''"
| "class_name (SingletonActiveError _) = ''SingletonActiveError''"
| "class_name (ControlStoreError _) = ''ControlStoreError''"
| "class_name (MaintenanceUnavailableError _) = ''MaintenanceUnavailableError''"
| "class_name (StaleDurableAuthorityError _) = ''StaleDurableAuthorityError''"
| "class_name (FencingContentionError _) = ''FencingContentionError''"
| "class_name (PublicationRouteChangedError _) = ''PublicationRouteChangedError''"
| "class_name (UniqueViolation _) = ''UniqueViolation''"
| "class_name (CheckViolation _) = ''CheckViolation''"
| "class_name (ForeignKeyViolation _) = ''ForeignKeyViolation''"
| "class_name LockNotAvailable = ''LockNotAvailable''"
| "class_name QueryCanceled = ''QueryCanceled''"
| "class_name (OperationalError _) = ''OperationalError''"

definition re_CLASS_NAME :: re where
  "re_CLASS_NAME = RSeq (RCls (\<lambda>c. c_lower c \<or> c_upper c \<or> code c = 95))
     (RUpto 63 (RCls (\<lambda>c. c_alnum c \<or> code c = 95)))"

definition safe_name :: "string \<Rightarrow> string" where
  "safe_name name = (if fullmatch re_CLASS_NAME name then name else ''Exception'')"

definition format_unexpected_diagnostic :: "py_error \<Rightarrow> string" where
  "format_unexpected_diagnostic e = safe_name (class_name e)"

definition new_diagnostic :: "int \<Rightarrow> string \<Rightarrow> RecoveryDiagnostic" where
  "new_diagnostic n error_type = \<lparr>d_sequence = n, d_error_type = error_type,
     d_category = ''unexpected_recovery_error'', d_summary = error_type\<rparr>"

definition trim_ring :: "'a list \<Rightarrow> 'a list" where
  \<comment> \<open>\<^verbatim>\<open>while len(ring) > 32: ring.popleft()\<close>\<close>
  "trim_ring ring = drop (length ring - 32) ring"

definition add_diagnostic :: "string \<Rightarrow> coordinator \<Rightarrow> coordinator" where
  "add_diagnostic name k =
     (let n = co_diagnostic_sequence k + 1
      in k\<lparr>co_diagnostic_sequence := n, co_recovery_diagnostics :=
             trim_ring (co_recovery_diagnostics k @ [new_diagnostic n (safe_name name)])\<rparr>)"

definition record_startup_recovery_report :: "StartupRecoveryReport \<Rightarrow> coordinator \<Rightarrow> coordinator" where
  "record_startup_recovery_report report k =
     fold add_diagnostic (r_unexpected report) (k\<lparr>co_recovery_report := Some report\<rparr>)"

definition acknowledge_recovery_diagnostics :: "pyval \<Rightarrow> unit core" where
  "acknowledge_recovery_diagnostics through =
     (case through of
        VInt n \<Rightarrow>
          if n < 0 then raiseC (ValueError ''diagnostic acknowledgement must be a nonnegative sequence'')
          else modifyC (\<lambda>k. k\<lparr>co_recovery_diagnostics :=
                 dropWhile (\<lambda>d. d_sequence d \<le> n) (co_recovery_diagnostics k)\<rparr>)
      | _ \<Rightarrow> raiseC (ValueError ''diagnostic acknowledgement must be a nonnegative sequence''))"

section \<open>One claim\<close>

definition is_route_changed :: "py_error \<Rightarrow> bool" where
  "is_route_changed e = (case e of PublicationRouteChangedError _ \<Rightarrow> True | _ \<Rightarrow> False)"

definition note_refusal :: "py_error \<Rightarrow> StartupRecoveryReport \<Rightarrow> StartupRecoveryReport" where
  "note_refusal e r =
     (if expected_refusal e then r\<lparr>r_refused := r_refused r + 1\<rparr>
      else r\<lparr>r_unexpected := r_unexpected r @ [format_unexpected_diagnostic e]\<rparr>)"

definition note_failure :: "py_error \<Rightarrow> StartupRecoveryReport \<Rightarrow> StartupRecoveryReport" where
  \<comment> \<open>\<^verbatim>\<open>except PublicationRouteChangedError\<close> and then \<^verbatim>\<open>except Exception\<close>\<close>
  "note_failure e r =
     (if is_route_changed e then r\<lparr>r_route_changed := r_route_changed r + 1\<rparr> else note_refusal e r)"

definition renew_singleton :: "core_world \<Rightarrow> bool core" where
  "renew_singleton w =
     bindC (readC co_epoch) (\<lambda>epoch.
     case epoch of
       None \<Rightarrow> returnC True
     | Some e \<Rightarrow>
         bindC (readC co_instance_id) (\<lambda>iid.
         bindC (readC co_singleton_ttl) (\<lambda>ttl.
         callC w (\<lambda>env. heartbeat_singleton env iid e ttl))))"

definition quarantine_call :: "core_world \<Rightarrow> JobClaim \<Rightarrow> string \<Rightarrow> int \<Rightarrow> bool core" where
  "quarantine_call w c iid epoch s =
     callC w (\<lambda>env. quarantine_legacy_attempt env (w_clocks w (k_calls s)) (w_locks w (k_calls s))
       c iid epoch (w_fence w)) s"

definition closure_call :: "core_world \<Rightarrow> file_closer \<Rightarrow> JobClaim \<Rightarrow> string \<Rightarrow> int \<Rightarrow> bool core" where
  "closure_call w closer c iid epoch s =
     callC w (\<lambda>env. execute_durable_closure env (w_clocks w (k_calls s)) (w_locks w (k_calls s))
       c iid epoch (w_fence w) (Some closer)) s"

definition quarantine_claim ::
  "core_world \<Rightarrow> JobClaim \<Rightarrow> string \<Rightarrow> int \<Rightarrow> StartupRecoveryReport \<Rightarrow> StartupRecoveryReport core" where
  "quarantine_claim w c iid epoch r =
     catchC (bindC (quarantine_call w c iid epoch) (\<lambda>done1.
               returnC (if done1 then r\<lparr>r_resolved := r_resolved r + 1\<rparr>
                 else r\<lparr>r_refused := r_refused r + 1, r_pending := r_pending r + 1\<rparr>)))
       (\<lambda>e. returnC ((note_failure e r)\<lparr>r_pending := r_pending r + 1\<rparr>))"

definition read_marker ::
  "core_world \<Rightarrow> JobClaim \<Rightarrow> StartupRecoveryReport \<Rightarrow> dict option \<times> StartupRecoveryReport" where
  "read_marker w c r =
     (case w_reader w of
        None \<Rightarrow> (None, r)
      | Some reader \<Rightarrow>
          (case reader c of
             Inr marker \<Rightarrow> (marker, r)
           | Inl e \<Rightarrow>
               (None,
                if is_route_changed e then r\<lparr>r_route_changed := r_route_changed r + 1\<rparr>
                else if is_OSError e then r\<lparr>r_unavailable := r_unavailable r + 1\<rparr>
                else note_refusal e (r\<lparr>r_unavailable := r_unavailable r + 1\<rparr>))))"

definition is_unresolved :: "dict option \<Rightarrow> bool" where
  "is_unresolved marker = (case marker of None \<Rightarrow> True
     | Some m \<Rightarrow> dict_get m ''publication_state'' = VStr ''commit_unknown'')"

definition close_claim ::
  "core_world \<Rightarrow> JobClaim \<Rightarrow> string \<Rightarrow> int \<Rightarrow> dict option \<Rightarrow> StartupRecoveryReport
   \<Rightarrow> (dict option \<times> StartupRecoveryReport) core" where
  "close_claim w c iid epoch marker r =
     (if is_unresolved marker
      then case w_closer w of
             None \<Rightarrow> returnC (marker, r)
           | Some closer \<Rightarrow>
               catchC (bindC (closure_call w closer c iid epoch) (\<lambda>closed.
                         returnC (if closed then (Some [(''publication_state'', VStr ''not_started'')], r)
                           else (marker, r\<lparr>r_refused := r_refused r + 1\<rparr>))))
                 (\<lambda>e. returnC (None, note_failure e r))
      else returnC (marker, r))"

definition record_found_marker ::
  "core_world \<Rightarrow> JobClaim \<Rightarrow> dict option \<Rightarrow> StartupRecoveryReport \<Rightarrow> StartupRecoveryReport core" where
  "record_found_marker w c marker r =
     (case marker of
        None \<Rightarrow> returnC r
      | Some m \<Rightarrow>
          catchC (seqC (record_marker_if_available w c m) (returnC r))
            (\<lambda>e. if is_ValueError e then returnC (r\<lparr>r_refused := r_refused r + 1\<rparr>) else raiseC e))"

definition retire_resolved ::
  "core_world \<Rightarrow> JobClaim \<Rightarrow> string \<Rightarrow> StartupRecoveryReport \<Rightarrow> StartupRecoveryReport core" where
  "retire_resolved w c outcome r =
     (case w_retirer w of
        None \<Rightarrow> returnC r
      | Some retire \<Rightarrow>
          if List.member [''succeeded'', ''queued'', ''failed'', ''cancelled''] outcome
          then case retire c of
                 Inr _ \<Rightarrow> returnC r
               | Inl e \<Rightarrow> if is_OSError e \<or> is_ValueError e
                          then returnC (r\<lparr>r_residuals := r_residuals r + 1\<rparr>) else raiseC e
          else returnC r)"

definition reconcile_call :: "core_world \<Rightarrow> JobClaim \<Rightarrow> string \<Rightarrow> int \<Rightarrow> bool \<Rightarrow> reconcile_outcome core" where
  "reconcile_call w c iid epoch unpublished =
     callC w (\<lambda>env. reconcile_publication env c (max_retry_attempts DEFAULT_LIMITS) iid epoch unpublished)"

definition unpublished_marker :: "dict option \<Rightarrow> bool" where
  "unpublished_marker marker = (case marker of None \<Rightarrow> False
     | Some m \<Rightarrow> dict_get m ''publication_state'' = VStr ''not_started'')"

definition settle_claim ::
  "core_world \<Rightarrow> JobClaim \<Rightarrow> string \<Rightarrow> int \<Rightarrow> dict option \<Rightarrow> StartupRecoveryReport
   \<Rightarrow> StartupRecoveryReport core" where
  "settle_claim w c iid epoch marker r =
     bindC (record_found_marker w c marker r) (\<lambda>r.
     bindC (reconcile_call w c iid epoch (unpublished_marker marker)) (\<lambda>out.
     if List.member [''succeeded'', ''queued'', ''failed'', ''cancelled'', ''quarantined''] (outcome_name out)
     then retire_resolved w c (outcome_name out) (r\<lparr>r_resolved := r_resolved r + 1\<rparr>)
     else returnC (r\<lparr>r_pending := r_pending r + 1\<rparr>)))"

definition recover_claim ::
  "core_world \<Rightarrow> string \<Rightarrow> int \<Rightarrow> JobClaim \<Rightarrow> StartupRecoveryReport \<Rightarrow> StartupRecoveryReport core" where
  "recover_claim w iid epoch c r =
     (if c_graph_lease_epoch c = 0 then quarantine_claim w c iid epoch r
      else case read_marker w c r of (marker, r) \<Rightarrow>
        bindC (close_claim w c iid epoch marker r) (\<lambda>(marker, r). settle_claim w c iid epoch marker r))"

section \<open>The recovery pass\<close>

definition lose_singleton :: "nat \<Rightarrow> StartupRecoveryReport \<Rightarrow> StartupRecoveryReport" where
  "lose_singleton left r = r\<lparr>r_pending := r_pending r + int left, r_refused := r_refused r + 1\<rparr>"

fun recover_claims ::
  "core_world \<Rightarrow> string \<Rightarrow> int \<Rightarrow> JobClaim list \<Rightarrow> StartupRecoveryReport \<Rightarrow> StartupRecoveryReport core" where
  "recover_claims w iid epoch [] r = returnC r"
| "recover_claims w iid epoch (c # cs) r =
     bindC (renew_singleton w) (\<lambda>held.
     if \<not> held then returnC (lose_singleton (Suc (length cs)) r)
     else bindC (recover_claim w iid epoch c r) (\<lambda>r.
          bindC (renew_singleton w) (\<lambda>held.
          if \<not> held then returnC (lose_singleton (length cs) r)
          else recover_claims w iid epoch cs r)))"

definition empty_report :: "int \<Rightarrow> StartupRecoveryReport" where
  "empty_report n = \<lparr>r_scanned = n, r_resolved = 0, r_pending = 0, r_route_changed = 0,
     r_unavailable = 0, r_residuals = 0, r_refused = 0, r_unexpected = []\<rparr>"

definition claims_call :: "core_world \<Rightarrow> int \<Rightarrow> JobClaim list core" where
  "claims_call w limit = callC w (\<lambda>env db. bindE (reconciliation_claims limit db) (\<lambda>cs. Inr (cs, db)))"

definition recovery_pass :: "core_world \<Rightarrow> string \<Rightarrow> int \<Rightarrow> int \<Rightarrow> StartupRecoveryReport core" where
  \<comment> \<open>the module's function \<^verbatim>\<open>recover_startup\<close>\<close>
  "recovery_pass w iid epoch limit =
     bindC (claims_call w limit) (\<lambda>claims.
     recover_claims w iid epoch claims (empty_report (int (length claims))))"

definition failed_report :: "py_error \<Rightarrow> StartupRecoveryReport" where
  "failed_report e = (empty_report 0)\<lparr>r_unexpected := [format_unexpected_diagnostic e]\<rparr>"

definition recover_startup :: "core_world \<Rightarrow> StartupRecoveryReport core" where
  "recover_startup w =
     catchC (bindC require_started (\<lambda>epoch.
             bindC (readC co_instance_id) (\<lambda>iid.
             recovery_pass w iid epoch (max_nonterminal_jobs DEFAULT_LIMITS))))
       (\<lambda>e. seqC (modifyC (record_startup_recovery_report (failed_report e))) (raiseC e))"

section \<open>Startup and heartbeat\<close>

definition acquire_call :: "core_world \<Rightarrow> int core" where
  "acquire_call w =
     bindC (readC co_instance_id) (\<lambda>iid.
     bindC (readC co_singleton_ttl) (\<lambda>ttl.
     callC w (\<lambda>env. acquire_singleton env iid ttl)))"

definition recover_call :: "core_world \<Rightarrow> int \<Rightarrow> nat core" where
  "recover_call w epoch =
     bindC (readC co_instance_id) (\<lambda>iid.
     callC w (\<lambda>env. recover_abandoned_attempts env iid epoch (max_nonterminal_jobs DEFAULT_LIMITS)))"

definition stop_call :: "core_world \<Rightarrow> int \<Rightarrow> bool core" where
  "stop_call w epoch =
     bindC (readC co_instance_id) (\<lambda>iid. callC w (\<lambda>env. stop_singleton env iid epoch))"

definition startup :: "core_world \<Rightarrow> StartupRecoveryReport core \<Rightarrow> int core" where
  "startup w reconcile_startup =
     bindC (acquire_call w) (\<lambda>epoch.
     seqC (modifyC (\<lambda>k. k\<lparr>co_epoch := Some epoch\<rparr>))
       (catchC (seqC (recover_call w epoch)
                  (bindC reconcile_startup (\<lambda>report.
                   seqC (modifyC (record_startup_recovery_report report)) (returnC epoch))))
          (\<lambda>e. seqC (stop_call w epoch)
                 (seqC (modifyC (\<lambda>k. k\<lparr>co_epoch := None\<rparr>)) (raiseC e)))))"

definition heartbeat :: "core_world \<Rightarrow> bool core" where
  "heartbeat w =
     bindC require_started (\<lambda>epoch.
     bindC (readC co_instance_id) (\<lambda>iid.
     bindC (readC co_singleton_ttl) (\<lambda>ttl.
     bindC (callC w (\<lambda>env. heartbeat_singleton env iid epoch ttl)) (\<lambda>renewed.
     bindC (readC co_recovery_report) (\<lambda>report.
     if renewed \<and> (case report of None \<Rightarrow> False | Some r \<Rightarrow> r_pending r \<noteq> 0)
     then bindC (recover_startup w) (\<lambda>r.
          seqC (modifyC (record_startup_recovery_report r)) (returnC renewed))
     else returnC renewed)))))"

end
