(* ===== verification/Recovery_Effect.thy ===== *)
theory Recovery_Effect
  imports Startup_Recovery Coordinator_Refinement
begin

text \<open>
  What a recovery pass does to the jobs that wait for reconciliation: it never adds one, on any path,
  and every claim it counts as resolved has left the set.
\<close>

section \<open>Waiting jobs\<close>

definition waiting :: "control_db \<Rightarrow> string set" where
  "waiting db = {k. \<exists>j. map_of (jobs db) k = Some j \<and> j_state j = ReconciliationRequired}"

definition keyed :: "control_db \<Rightarrow> bool" where
  "keyed db = (\<forall>k j. map_of (jobs db) k = Some j \<longrightarrow> j_job_id j = k)"

definition shrinks :: "control_db \<Rightarrow> control_db \<Rightarrow> bool" where
  "shrinks db db' = (keyed db \<longrightarrow> keyed db' \<and> waiting db' \<subseteq> waiting db)"

lemma shrinks_refl: "shrinks db db"
  by (simp add: shrinks_def)

lemma shrinks_trans: "shrinks db db' \<Longrightarrow> shrinks db' db'' \<Longrightarrow> shrinks db db''"
  by (auto simp: shrinks_def)

lemma shrinks_frame: "jobs db' = jobs db \<Longrightarrow> shrinks db db'"
  by (simp add: shrinks_def keyed_def waiting_def)

lemma update_job_shrinks:
  assumes "update_job k p f db = Inr (b, db')" and "\<And>j. j_job_id (f j) = j_job_id j"
    and "\<And>j. p j \<Longrightarrow> j_state (f j) = ReconciliationRequired \<Longrightarrow> j_state j = ReconciliationRequired"
  shows "shrinks db db'"
  using assms(1)
proof (cases rule: update_job_cases)
  case (updated j)
  with assms(2,3) show ?thesis by (auto simp: shrinks_def keyed_def waiting_def split: if_splits)
qed (simp add: shrinks_refl)

lemma update_attempt_jobs: "update_attempt k p f db = Inr (b, db') \<Longrightarrow> jobs db' = jobs db"
  by (erule update_attempt_cases) auto

lemma delete_lease_jobs: "jobs (snd (delete_lease g p db)) = jobs db"
  by (simp add: delete_lease_def split: option.split)

lemma clear_running_jobs: "jobs (clear_running g k db) = jobs db"
  using clear_running_frame by simp

section \<open>The store calls of a pass\<close>

lemma close_attempt_jobs: "close_attempt env c p e d db = Inr db' \<Longrightarrow> jobs db' = jobs db"
  by (erule close_attempt_Inr) simp

lemma drop_lease_jobs: "drop_lease c db = Inr db' \<Longrightarrow> jobs db' = jobs db"
  by (erule drop_lease_Inr) (simp add: clear_running_jobs)

lemma pause_graph_intent_jobs: "jobs (pause_graph_intent env c db) = jobs db"
  by (simp add: pause_graph_intent_def Let_def split: option.split)

lemma settled:
  assumes "update_job (c_job_id c) (\<lambda>j. j_state j = ReconciliationRequired \<and> j_current_attempt j = c_attempt c) f db
      = Inr (b, db1)" and "jobs db' = jobs db1"
    and "\<And>j. j_job_id (f j) = j_job_id j \<and> j_state (f j) \<noteq> ReconciliationRequired"
    and "map_of (jobs db) (c_job_id c) = Some j" and "j_current_attempt j = c_attempt c"
  shows "shrinks db db' \<and> (keyed db \<longrightarrow> c_job_id c \<notin> waiting db')"
  using assms(1)
  by (rule update_job_cases)
    (use assms(2-5) in \<open>auto simp: shrinks_def keyed_def waiting_def split: if_splits\<close>)

lemma close_terminal_settles:
  assumes "close_terminal env c t p e d db = Inr db'" and "t \<noteq> ReconciliationRequired"
    and "map_of (jobs db) (c_job_id c) = Some j" and "j_current_attempt j = c_attempt c"
  shows "shrinks db db' \<and> (keyed db \<longrightarrow> c_job_id c \<notin> waiting db')"
proof -
  from assms(1) obtain b db1 db2 where
    u: "update_job (c_job_id c) (\<lambda>j. j_state j = ReconciliationRequired \<and> j_current_attempt j = c_attempt c)
        (\<lambda>j. j\<lparr>j_state := t, j_publication_state := p, j_error_category := e,
              j_finished_at := Some (tx_now env), j_updated_at := tx_now env\<rparr>) db = Inr (b, db1)"
    and v: "close_attempt env c p e d db1 = Inr db2" "drop_lease c db2 = Inr db'"
    by (auto simp: close_terminal_def result_simps)
  show ?thesis
    by (rule settled [OF u _ _ assms(3,4)])
      (use v assms(2) in \<open>auto dest!: close_attempt_jobs drop_lease_jobs\<close>)
qed

lemma queue_retry_settles:
  assumes "queue_retry env c p db = Inr db'"
    and "map_of (jobs db) (c_job_id c) = Some j" and "j_current_attempt j = c_attempt c"
  shows "shrinks db db' \<and> (keyed db \<longrightarrow> c_job_id c \<notin> waiting db')"
proof -
  from assms(1) obtain b db1 db2 where
    u: "update_job (c_job_id c) (\<lambda>j. j_state j = ReconciliationRequired \<and> j_current_attempt j = c_attempt c)
        (\<lambda>j. j\<lparr>j_state := Queued, j_publication_state := NotStarted, j_error_category := Some ''transient'',
              j_next_eligible_at := tx_now env + usec 1, j_updated_at := tx_now env\<rparr>) db = Inr (b, db1)"
    and v: "close_attempt env c p (Some ''transient'') None db1 = Inr db2" "drop_lease c db2 = Inr db'"
    by (auto simp: queue_retry_def result_simps)
  show ?thesis
    by (rule settled [OF u _ _ assms(2,3)])
      (use v in \<open>auto dest!: close_attempt_jobs drop_lease_jobs\<close>)
qed

lemma reconcile_settles:
  assumes "reconcile_publication env c mx ri re u db = Inr (out, db')"
  shows "shrinks db db' \<and> (keyed db \<longrightarrow> out \<noteq> OwnershipLost \<longrightarrow> out \<noteq> Outcome ReconciliationRequired
    \<longrightarrow> c_job_id c \<notin> waiting db')"
proof (cases "lock_evidence c db")
  case None
  with assms show ?thesis by (auto simp: reconcile_publication_def result_simps shrinks_refl)
next
  case (Some e)
  obtain j a mk where e: "e = (j, a, mk)" by (cases e)
  have run: "reconcile_evidence env c mx u j a mk db = Inr (out, db')"
    using assms Some e by (auto simp: reconcile_publication_def result_simps)
  have j: "map_of (jobs db) (c_job_id c) = Some j" "j_current_attempt j = c_attempt c"
    using Some e by (auto simp: lock_evidence_def split: option.splits if_splits)
  have pj: "keyed (pause_graph_intent env c db) = keyed db" "waiting (pause_graph_intent env c db) = waiting db"
    "jobs (pause_graph_intent env c db) = jobs db"
    by (simp_all add: keyed_def waiting_def pause_graph_intent_jobs)
  let ?goal = "shrinks db db' \<and> (keyed db \<longrightarrow> c_job_id c \<notin> waiting db')"
  have paused: ?goal if "close_terminal env c Quarantined p e d (pause_graph_intent env c db) = Inr db'" for p e d
    using close_terminal_settles [OF that, of j] j unfolding pj shrinks_def by simp
  from run have "out = Outcome ReconciliationRequired \<and> db' = db \<or> ?goal"
  proof (cases rule: reconcile_evidence_cases)
    case kept then show ?thesis by simp
  next
    case succeeded show ?thesis using close_terminal_settles [OF succeeded(4) _ j] by simp
  next
    case quarantined show ?thesis using paused [OF quarantined(4)] by simp
  next
    case cancelled show ?thesis using close_terminal_settles [OF cancelled(7) _ j] by simp
  next
    case failed show ?thesis using close_terminal_settles [OF failed(8) _ j] by simp
  next
    case queued show ?thesis using queue_retry_settles [OF queued(9) j] by simp
  qed
  then show ?thesis using shrinks_refl by blast
qed

lemma quarantine_settles:
  assumes "quarantine_legacy_attempt env clk locks c ri re fence db = Inr (b, db')"
  shows "shrinks db db' \<and> (keyed db \<longrightarrow> b \<longrightarrow> c_job_id c \<notin> waiting db')"
  using assms
proof (cases rule: quarantine_legacy_attempt_cases)
  case (quarantined install)
  let ?f = "\<lambda>j. j\<lparr>j_state := Quarantined, j_publication_state := CommitUnknown,
     j_error_category := Some ''legacy_zero_epoch'', j_finished_at := Some (tx_now env), j_updated_at := tx_now env\<rparr>"
  from quarantined(7) obtain db1 where
    u: "update_job (c_job_id c) (\<lambda>j. j_current_attempt j = c_attempt c \<and> j_state j = ReconciliationRequired) ?f db
        = Inr (True, db1)" and d: "jobs db' = jobs db1"
    by (auto simp: quarantine_rows_def result_simps clear_running_jobs Let_def split_beta delete_lease_jobs
        dest!: update_attempt_jobs)
  from u show ?thesis
    by (rule update_job_cases)
      (use d in \<open>auto simp: shrinks_def keyed_def waiting_def split: if_splits\<close>)
qed (simp add: shrinks_refl)

lemma closure_shrinks:
  assumes "execute_durable_closure env clk locks c ri re fence closer db = Inr (b, db')"
  shows "shrinks db db'"
  using assms
proof (cases rule: execute_durable_closure_cases)
  case (closed install close)
  from closed(6) obtain b1 db1 where
    u: "update_job (c_job_id c) (\<lambda>j. j_current_attempt j = c_attempt c \<and> j_state j = ReconciliationRequired)
          (\<lambda>j. j\<lparr>j_publication_state := NotStarted, j_updated_at := tx_now env\<rparr>) db = Inr (b1, db1)"
    and v: "jobs db' = jobs db1"
    by (auto simp: persist_not_started_def result_simps dest!: update_attempt_jobs)
  have "shrinks db db1" using u by (rule update_job_shrinks) auto
  with v show ?thesis by (metis shrinks_frame shrinks_trans)
qed (simp add: shrinks_refl)

lemma marker_shrinks: "record_publication_marker env c run gens outcome db = Inr (b, db') \<Longrightarrow> shrinks db db'"
  by (erule record_publication_marker_cases) (auto intro: shrinks_frame)

lemma heartbeat_shrinks: "heartbeat_singleton env iid ep ttl db = Inr (b, db') \<Longrightarrow> shrinks db db'"
  by (cases "singleton db")
    (auto simp: heartbeat_singleton_def result_simps split: if_splits intro: shrinks_frame)

section \<open>The pass never adds a waiting job\<close>

definition undisturbed :: "core_world \<Rightarrow> bool" where
  \<comment> \<open>what others commit meanwhile adds no waiting job\<close>
  "undisturbed w = (\<forall>i db. shrinks db (w_others w i db))"

abbreviation shrinking :: "'a core \<Rightarrow> bool" where
  "shrinking \<equiv> relates (\<lambda>s s'. shrinks (k_db s) (k_db s'))"

lemma shrinking_refl_trans:
  "reflp (\<lambda>s s'. shrinks (k_db s) (k_db s'))" "transp (\<lambda>s s'. shrinks (k_db s) (k_db s'))"
  by (auto intro: reflpI transpI shrinks_refl shrinks_trans)

lemmas shrinking_intros = relates_prim [OF shrinking_refl_trans(1)] relates_bind [OF shrinking_refl_trans(2)]
  relates_seq [OF shrinking_refl_trans(2)] relates_catch [OF shrinking_refl_trans(2)] relates_if relates_option

lemma shrinking_call:
  assumes "undisturbed w" and "\<And>env db x db'. f env db = Inr (x, db') \<Longrightarrow> shrinks db db'"
  shows "shrinking (callC w f)"
  by (rule relates_call [OF shrinking_refl_trans(2)]) (use assms in \<open>auto simp: undisturbed_def\<close>)

lemma shrinking_calls:
  assumes "undisturbed w"
  shows "shrinking (renew_singleton w)" and "shrinking (reconcile_call w c iid ep u)"
    and "shrinking (quarantine_call w c iid ep)" and "shrinking (closure_call w closer c iid ep)"
    and "shrinking (record_marker_if_available w c m)"
proof -
  note call = shrinking_call [OF assms]
  show "shrinking (renew_singleton w)" unfolding renew_singleton_def
    by (intro shrinking_intros call heartbeat_shrinks)
  show "shrinking (reconcile_call w c iid ep u)" unfolding reconcile_call_def
    by (rule call) (drule reconcile_settles, simp)
  show "shrinking (record_marker_if_available w c m)" unfolding record_marker_if_available_def Let_def
    by (intro shrinking_intros call marker_shrinks)
  have "shrinks (k_db s) (k_db s')" if "quarantine_call w c iid ep s = (x, s')" for s x s'
    using relatesD [OF call that [unfolded quarantine_call_def]] quarantine_settles by blast
  then show "shrinking (quarantine_call w c iid ep)" by (rule relatesI)
  have "shrinks (k_db s) (k_db s')" if "closure_call w closer c iid ep s = (x, s')" for s x s'
    using relatesD [OF call that [unfolded closure_call_def]] closure_shrinks by blast
  then show "shrinking (closure_call w closer c iid ep)" by (rule relatesI)
qed

lemma retire_resolved_state: "retire_resolved w c out r s = (x, s') \<Longrightarrow> s' = s"
  by (auto simp: retire_resolved_def split: option.splits if_splits sum.splits)

lemma shrinking_retire: "shrinking (retire_resolved w c out r)"
  by (rule relatesI) (use retire_resolved_state shrinks_refl in metis)

lemma shrinking_claim:
  assumes "undisturbed w"
  shows "shrinking (recover_claim w iid ep c r)"
proof -
  note cs = shrinking_intros shrinking_calls [OF assms] shrinking_retire
  have "shrinking (close_claim w c iid ep m r')" for m r'
    unfolding close_claim_def by (intro cs)
  moreover have "shrinking (settle_claim w c iid ep m r')" for m r'
    unfolding settle_claim_def record_found_marker_def by (intro cs)
  ultimately show ?thesis
    unfolding recover_claim_def quarantine_claim_def
    by (auto split: prod.split intro!: cs)
qed

lemma shrinking_claims: "undisturbed w \<Longrightarrow> shrinking (recover_claims w iid ep cs r)"
  by (induction cs arbitrary: r)
    (auto intro!: shrinking_intros shrinking_calls(1) shrinking_claim)

section \<open>Accounting\<close>

definition tallies :: "int \<Rightarrow> StartupRecoveryReport \<Rightarrow> StartupRecoveryReport \<Rightarrow> bool" where
  \<comment> \<open>\<open>n\<close> more claims are accounted for\<close>
  "tallies n r r' =
     (r_scanned r' = r_scanned r \<and> r_resolved r' + r_pending r' = r_resolved r + r_pending r + n
      \<and> r_resolved r \<le> r_resolved r' \<and> r_pending r \<le> r_pending r' \<and> r_residuals r \<le> r_residuals r'
      \<and> r_residuals r' - r_residuals r \<le> r_resolved r' - r_resolved r
      \<and> r_unavailable r \<le> r_unavailable r' \<and> r_unavailable r' \<le> r_unavailable r + n
      \<and> r_refused r \<le> r_refused r' \<and> r_route_changed r \<le> r_route_changed r')"

lemma tallies_trans: "tallies n r r' \<Longrightarrow> tallies m r' r'' \<Longrightarrow> tallies (n + m) r r''"
  unfolding tallies_def by linarith

lemma note_refusal_fields [simp]:
  "r_scanned (note_refusal e r) = r_scanned r" "r_resolved (note_refusal e r) = r_resolved r"
  "r_pending (note_refusal e r) = r_pending r" "r_residuals (note_refusal e r) = r_residuals r"
  "r_unavailable (note_refusal e r) = r_unavailable r" "r_route_changed (note_refusal e r) = r_route_changed r"
  "r_refused r \<le> r_refused (note_refusal e r)"
  by (simp_all add: note_refusal_def)

definition unsettled :: "StartupRecoveryReport \<Rightarrow> StartupRecoveryReport \<Rightarrow> bool" where
  \<comment> \<open>between the start of a claim and its count as resolved or pending\<close>
  "unsettled r r' =
     (r_scanned r' = r_scanned r \<and> r_resolved r' = r_resolved r \<and> r_pending r' = r_pending r
      \<and> r_residuals r' = r_residuals r \<and> r_unavailable r \<le> r_unavailable r'
      \<and> r_unavailable r' \<le> r_unavailable r + 1
      \<and> r_refused r \<le> r_refused r' \<and> r_route_changed r \<le> r_route_changed r')"

lemma read_marker_unsettled: "read_marker w c r = (m, r') \<Longrightarrow> unsettled r r'"
  using note_refusal_fields(7) [of "r\<lparr>r_unavailable := r_unavailable r + 1\<rparr>"]
  by (auto simp: read_marker_def unsettled_def split: option.splits sum.splits if_splits)

lemma note_failure_unsettled: "unsettled r r' \<Longrightarrow> unsettled r (note_failure e r')"
  by (cases "is_route_changed e") (auto simp: note_failure_def unsettled_def intro: order_trans [OF _ note_refusal_fields(7)])

lemma close_claim_unsettled:
  assumes "close_claim w c iid ep m r' s = (Inr (m', r''), s')" and "unsettled r r'"
  shows "unsettled r r''"
proof -
  have "unsettled r (r'\<lparr>r_refused := r_refused r' + 1\<rparr>)" using assms(2) by (simp add: unsettled_def)
  with assms note_failure_unsettled [OF assms(2)] show ?thesis
    by (auto simp: close_claim_def split: if_splits option.splits elim!: catchC_cases bindC_cases)
qed

lemma record_found_unsettled:
  assumes "record_found_marker w c m r' s = (Inr r'', s')" and "unsettled r r'"
  shows "unsettled r r''"
  using assms
  by (auto simp: record_found_marker_def seqC_def unsettled_def split: option.splits if_splits
      elim!: catchC_cases bindC_cases)

lemma retire_tallies:
  assumes "retire_resolved w c out (r'\<lparr>r_resolved := r_resolved r' + 1\<rparr>) s = (Inr r'', s')"
    and "unsettled r r'"
  shows "tallies 1 r r'' \<and> r_pending r'' = r_pending r"
  using assms
  by (auto simp: retire_resolved_def unsettled_def tallies_def split: option.splits if_splits sum.splits)

lemma settle_cases:
  assumes "settle_claim w c iid ep m r0 s = (Inr r'', s')" and "unsettled r r0"
  obtains (resolved) out s1 s2 r1 where "reconcile_call w c iid ep (unpublished_marker m) s1 = (Inr out, s2)"
      and "record_found_marker w c m r0 s = (Inr r1, s1)" and "k_db s' = k_db s2"
      and "out \<noteq> OwnershipLost" and "out \<noteq> Outcome ReconciliationRequired"
      and "tallies 1 r r''" and "r_pending r'' = r_pending r"
    | (kept) "tallies 1 r r''" and "r_pending r'' = r_pending r + 1"
proof -
  from assms(1) obtain r1 s1 out s2 where
    f: "record_found_marker w c m r0 s = (Inr r1, s1)"
    and q: "reconcile_call w c iid ep (unpublished_marker m) s1 = (Inr out, s2)"
    and t: "(if List.member [''succeeded'', ''queued'', ''failed'', ''cancelled'', ''quarantined''] (outcome_name out)
       then retire_resolved w c (outcome_name out) (r1\<lparr>r_resolved := r_resolved r1 + 1\<rparr>)
       else returnC (r1\<lparr>r_pending := r_pending r1 + 1\<rparr>)) s2 = (Inr r'', s')"
    unfolding settle_claim_def by (auto elim!: bindC_cases)
  note u = record_found_unsettled [OF f assms(2)]
  show thesis
  proof (cases "List.member [''succeeded'', ''queued'', ''failed'', ''cancelled'', ''quarantined''] (outcome_name out)")
    case True
    then have "out \<noteq> OwnershipLost" "out \<noteq> Outcome ReconciliationRequired"
      by (auto simp: outcome_name_def)
    moreover from t True have "retire_resolved w c (outcome_name out) (r1\<lparr>r_resolved := r_resolved r1 + 1\<rparr>) s2 = (Inr r'', s')"
      by simp
    ultimately show thesis using resolved [OF q f] retire_resolved_state retire_tallies [OF _ u] by blast
  next
    case False
    with t u show thesis by (intro kept) (auto simp: tallies_def unsettled_def)
  qed
qed

section \<open>One claim, and all of them\<close>

lemma call_settles:
  assumes "callC w f s = (Inr x, s')" and "undisturbed w" and "keyed (k_db s)"
    and "\<And>env db db'. f env db = Inr (x, db') \<Longrightarrow> keyed db \<Longrightarrow> k \<notin> waiting db'"
  shows "k \<notin> waiting (k_db s')"
  using assms(4) [OF callC_Inr(1) [OF assms(1)]] assms(2,3) by (auto simp: undisturbed_def shrinks_def)

lemma quarantine_claim_effect:
  assumes run: "quarantine_claim w c iid ep r s = (Inr r', s')" and u: "undisturbed w" and k: "keyed (k_db s)"
  shows "tallies 1 r r' \<and> (r_pending r' = r_pending r \<longrightarrow> c_job_id c \<notin> waiting (k_db s'))"
  using run unfolding quarantine_claim_def
proof (cases rule: catchC_cases)
  case (raised e s1)
  have "unsettled r (note_failure e r)" by (rule note_failure_unsettled) (simp add: unsettled_def)
  with raised show ?thesis by (auto simp: tallies_def unsettled_def)
next
  case (ok x)
  then obtain b s1 where q: "quarantine_call w c iid ep s = (Inr b, s1)" and "s' = s1"
    and r': "r' = (if b then r\<lparr>r_resolved := r_resolved r + 1\<rparr>
       else r\<lparr>r_refused := r_refused r + 1, r_pending := r_pending r + 1\<rparr>)"
    by (auto elim!: bindC_cases)
  have "c_job_id c \<notin> waiting (k_db s1)" if b
    by (rule call_settles [OF q [unfolded quarantine_call_def] u k]) (use that quarantine_settles in blast)
  with r' \<open>s' = s1\<close> show ?thesis by (auto simp: tallies_def split: if_splits)
qed

lemma recover_claim_effect:
  assumes run: "recover_claim w iid ep c r s = (Inr r', s')" and u: "undisturbed w" and k: "keyed (k_db s)"
  shows "tallies 1 r r' \<and> (r_pending r' = r_pending r \<longrightarrow> c_job_id c \<notin> waiting (k_db s'))"
proof (cases "c_graph_lease_epoch c = 0")
  case True
  with run quarantine_claim_effect [OF _ u k] show ?thesis by (simp add: recover_claim_def)
next
  case False
  obtain m0 r0 where m0: "read_marker w c r = (m0, r0)" by fastforce
  from run False m0 obtain m1 r1 s1 where cl: "close_claim w c iid ep m0 r0 s = (Inr (m1, r1), s1)"
    and st: "settle_claim w c iid ep m1 r1 s1 = (Inr r', s')"
    by (auto simp: recover_claim_def elim!: bindC_cases)
  have un: "unsettled r r1" using close_claim_unsettled [OF cl read_marker_unsettled [OF m0]] .
  have "shrinking (close_claim w c iid ep m0 r0)"
    unfolding close_claim_def by (intro shrinking_intros shrinking_calls [OF u])
  with cl k have k1: "keyed (k_db s1)" using relatesD unfolding shrinks_def by blast
  from st un show ?thesis
  proof (cases rule: settle_cases)
    case (resolved out s2 s3 r2)
    have "shrinking (record_found_marker w c m1 r1)"
      unfolding record_found_marker_def by (intro shrinking_intros shrinking_calls [OF u])
    with resolved(2) k1 have "keyed (k_db s2)" using relatesD unfolding shrinks_def by blast
    then have "c_job_id c \<notin> waiting (k_db s3)"
      by (rule call_settles [OF resolved(1) [unfolded reconcile_call_def] u]) (use resolved(4,5) reconcile_settles in blast)
    with resolved show ?thesis by simp
  next
    case kept
    then show ?thesis by simp
  qed
qed

lemma lose_singleton_tallies: "0 < n \<Longrightarrow> tallies (int n) r (lose_singleton n r) \<and> r_pending (lose_singleton n r) \<noteq> r_pending r"
  "tallies (int n) r (lose_singleton n r)"
  by (auto simp: tallies_def lose_singleton_def)

lemma recover_claims_effect:
  assumes "recover_claims w iid ep cs r s = (Inr r', s')" and u: "undisturbed w" and "keyed (k_db s)"
  shows "tallies (int (length cs)) r r' \<and>
    (r_pending r' = r_pending r \<longrightarrow> (\<forall>c \<in> set cs. c_job_id c \<notin> waiting (k_db s')))"
  using assms(1,3)
proof (induction cs arbitrary: r s)
  case Nil
  then show ?case by (simp add: tallies_def)
next
  case (Cons c cs)
  from Cons.prems(1) obtain b s1 where ren: "renew_singleton w s = (Inr b, s1)"
    and rest: "(if \<not> b then returnC (lose_singleton (Suc (length cs)) r)
       else bindC (recover_claim w iid ep c r) (\<lambda>r. bindC (renew_singleton w) (\<lambda>held.
          if \<not> held then returnC (lose_singleton (length cs) r) else recover_claims w iid ep cs r))) s1 = (Inr r', s')"
    by (auto elim!: bindC_cases)
  have grow: "keyed (k_db t) \<Longrightarrow> renew_singleton w t = (x, t') \<Longrightarrow> keyed (k_db t') \<and> waiting (k_db t') \<subseteq> waiting (k_db t)"
    for t x t' using relatesD [OF shrinking_calls(1) [OF u]] unfolding shrinks_def by blast
  show ?case
  proof (cases b)
    case False
    with rest show ?thesis using lose_singleton_tallies(1) [of "Suc (length cs)" r] by auto
  next
    case True
    with rest obtain r1 s2 b2 s3 where cl: "recover_claim w iid ep c r s1 = (Inr r1, s2)"
      and ren2: "renew_singleton w s2 = (Inr b2, s3)"
      and tail: "(if \<not> b2 then returnC (lose_singleton (length cs) r1) else recover_claims w iid ep cs r1) s3 = (Inr r', s')"
      by (auto elim!: bindC_cases)
    have k1: "keyed (k_db s1)" using grow [OF Cons.prems(2) ren] by simp
    note one = recover_claim_effect [OF cl u k1]
    have k2: "keyed (k_db s2)" using relatesD [OF shrinking_claim [OF u] cl] k1 unfolding shrinks_def by blast
    note k3 = grow [OF k2 ren2]
    have many: "tallies (int (length cs)) r1 r' \<and> waiting (k_db s') \<subseteq> waiting (k_db s3) \<and>
      (r_pending r' = r_pending r1 \<longrightarrow> (\<forall>c \<in> set cs. c_job_id c \<notin> waiting (k_db s')))"
    proof (cases b2)
      case True
      with tail have t: "recover_claims w iid ep cs r1 s3 = (Inr r', s')" by simp
      from Cons.IH [OF t] k3 relatesD [OF shrinking_claims [OF u] t] show ?thesis unfolding shrinks_def by blast
    next
      case False
      with tail show ?thesis using lose_singleton_tallies [of "length cs" r1] by (cases cs) auto
    qed
    have "r_pending r \<le> r_pending r1" "r_pending r1 \<le> r_pending r'" using one many by (simp_all add: tallies_def)
    moreover have "tallies (int (length (c # cs))) r r'" using tallies_trans [of 1 r r1] one many by fastforce
    ultimately show ?thesis using one many k3 by auto
  qed
qed

end
