(* ===== verification/Recovery_Diagnostics.thy ===== *)
theory Recovery_Diagnostics
  imports Startup_Recovery Coordinator_Example
begin

text \<open>
  The ring of recovery diagnostics against its specification: an unbounded log of every diagnostic ever
  recorded and the highest sequence a client acknowledged. The ring shows the unacknowledged part of
  the last 32 entries of the log; recording and acknowledging commute with that view.
\<close>

record diagnostic_log =
  dl_entries :: "RecoveryDiagnostic list"
  dl_acknowledged :: int

definition log_add :: "string \<Rightarrow> diagnostic_log \<Rightarrow> diagnostic_log" where
  \<comment> \<open>diagnostics are numbered by their place in the log\<close>
  "log_add name l = l\<lparr>dl_entries := dl_entries l @
     [new_diagnostic (int (length (dl_entries l)) + 1) (safe_name name)]\<rparr>"

definition log_acknowledge :: "int \<Rightarrow> diagnostic_log \<Rightarrow> diagnostic_log" where
  \<comment> \<open>an acknowledgement does not reach diagnostics that are still to come\<close>
  "log_acknowledge n l = l\<lparr>dl_acknowledged := max (min n (int (length (dl_entries l)))) (dl_acknowledged l)\<rparr>"

definition visible :: "diagnostic_log \<Rightarrow> RecoveryDiagnostic list" where
  "visible l = filter (\<lambda>d. dl_acknowledged l < d_sequence d) (trim_ring (dl_entries l))"

definition numbered :: "RecoveryDiagnostic list \<Rightarrow> bool" where
  "numbered ds = (map d_sequence ds = map (\<lambda>i. int i + 1) [0..<length ds])"

definition ring_shows :: "diagnostic_log \<Rightarrow> coordinator \<Rightarrow> bool" where
  "ring_shows l k = (numbered (dl_entries l) \<and> 0 \<le> dl_acknowledged l \<and> dl_acknowledged l \<le> int (length (dl_entries l))
     \<and> co_diagnostic_sequence k = int (length (dl_entries l)) \<and> co_recovery_diagnostics k = visible l)"

section \<open>Suffixes\<close>

lemma trim_length: "length (trim_ring xs) = min 32 (length xs)"
  by (simp add: trim_ring_def)

lemma trim_snoc: "trim_ring (xs @ [x]) = (if length xs < 32 then xs @ [x] else tl (trim_ring xs) @ [x])"
proof (cases "length xs < 32")
  case False
  then have "length xs - 31 = Suc (length xs - 32)" by simp
  then have "drop (length xs - 31) xs = tl (drop (length xs - 32) xs)" by (simp add: drop_Suc tl_drop)
  with False show ?thesis by (simp add: trim_ring_def)
qed (simp add: trim_ring_def)

lemma numbered_snoc: "numbered (ds @ [d]) \<longleftrightarrow> numbered ds \<and> d_sequence d = int (length ds) + 1"
  by (simp add: numbered_def)

lemma numbered_nth: "numbered ds \<Longrightarrow> i < length ds \<Longrightarrow> d_sequence (ds ! i) = int i + 1"
  unfolding numbered_def by (drule arg_cong [where f = "\<lambda>xs. xs ! i"]) simp

lemma numbered_sorted:
  assumes "numbered ds"
  shows "sorted_wrt (\<lambda>d e. d_sequence d < d_sequence e) ds"
  using assms by (simp add: sorted_wrt_iff_nth_less numbered_nth)

lemma filter_suffix:
  assumes "sorted_wrt (\<lambda>d e. d_sequence d < d_sequence e) ds"
  shows "filter (\<lambda>d. n < d_sequence d) ds = dropWhile (\<lambda>d. d_sequence d \<le> n) ds"
  using assms
proof (induction ds)
  case (Cons d ds)
  show ?case
  proof (cases "d_sequence d \<le> n")
    case False
    with Cons.prems have "\<forall>e \<in> set ds. n < d_sequence e" by auto
    with False show ?thesis by simp
  qed (use Cons in simp)
qed simp

lemma trim_sorted: "numbered ds \<Longrightarrow> sorted_wrt (\<lambda>d e. d_sequence d < d_sequence e) (trim_ring ds)"
  unfolding trim_ring_def by (intro sorted_wrt_drop numbered_sorted)

section \<open>Recording one diagnostic\<close>

lemma visible_snoc:
  assumes num: "numbered (dl_entries l)" and new: "dl_acknowledged l < d_sequence d"
  shows "trim_ring (visible l @ [d]) = visible (l\<lparr>dl_entries := dl_entries l @ [d]\<rparr>)"
proof -
  let ?p = "\<lambda>d. dl_acknowledged l < d_sequence d" and ?xs = "trim_ring (dl_entries l)"
  have len: "length (filter ?p ?xs) \<le> length ?xs" by simp
  show ?thesis
  proof (cases "length (dl_entries l) < 32")
    case True
    then have "length (visible l) < 32" "?xs = dl_entries l"
      using le_less_trans [OF len] by (simp_all add: visible_def trim_ring_def)
    with True new show ?thesis by (simp add: visible_def trim_snoc [of "dl_entries l"]) (simp add: trim_ring_def)
  next
    case False
    then have full: "length ?xs = 32" by (simp add: trim_length)
    then obtain x xs where xs: "?xs = x # xs" and len31: "length xs = 31" by (cases ?xs) auto
    have "trim_ring (filter ?p (x # xs) @ [d]) = filter ?p xs @ [d]"
    proof (cases "?p x")
      case True
      have "sorted_wrt (\<lambda>d e. d_sequence d < d_sequence e) (x # xs)" using trim_sorted [OF num] xs by simp
      with True have "filter ?p xs = xs" by (auto simp: filter_id_conv)
      with True len31 show ?thesis by (simp add: trim_ring_def)
    next
      case False
      have "length (filter ?p xs) \<le> length xs" by simp
      with False len31 show ?thesis by (simp add: trim_ring_def)
    qed
    with False xs new show ?thesis by (simp add: visible_def trim_snoc)
  qed
qed

lemma ring_shows_add:
  assumes rs: "ring_shows l k"
  shows "ring_shows (log_add x l) (add_diagnostic x k)"
proof -
  let ?d = "new_diagnostic (int (length (dl_entries l)) + 1) (safe_name x)"
  have seq: "d_sequence ?d = int (length (dl_entries l)) + 1" by (simp add: new_diagnostic_def)
  then have "trim_ring (visible l @ [?d]) = visible (l\<lparr>dl_entries := dl_entries l @ [?d]\<rparr>)"
    by (intro visible_snoc) (use assms in \<open>auto simp: ring_shows_def\<close>)
  with rs seq show ?thesis
    by (simp add: ring_shows_def add_diagnostic_def log_add_def Let_def numbered_snoc)
qed

lemma ring_shows_record:
  "ring_shows l k \<Longrightarrow> ring_shows (fold log_add names l) (fold add_diagnostic names k)"
  by (induction names arbitrary: l k) (simp_all add: ring_shows_add)

lemma ring_shows_acknowledge:
  assumes "ring_shows l k"
  shows "ring_shows (log_acknowledge n l)
    (k\<lparr>co_recovery_diagnostics := dropWhile (\<lambda>d. d_sequence d \<le> n) (co_recovery_diagnostics k)\<rparr>)"
proof -
  have s: "sorted_wrt (\<lambda>d e. d_sequence d < d_sequence e) (visible l)"
    using assms unfolding visible_def ring_shows_def by (intro sorted_wrt_filter trim_sorted) simp
  have num: "numbered (dl_entries l)" using assms by (simp add: ring_shows_def)
  have "d_sequence d \<le> int (length (dl_entries l))" if "d \<in> set (trim_ring (dl_entries l))" for d
    using in_set_dropD [OF that [unfolded trim_ring_def]] numbered_nth [OF num] by (auto simp: in_set_conv_nth)
  then have "visible (log_acknowledge n l) = filter (\<lambda>d. n < d_sequence d) (visible l)"
    by (fastforce simp: visible_def log_acknowledge_def min_def intro!: filter_cong)
  with assms filter_suffix [OF s, of n] show ?thesis
    by (auto simp: ring_shows_def log_acknowledge_def)
qed

section \<open>The ring refines the log\<close>

definition empty_log :: diagnostic_log where
  "empty_log = \<lparr>dl_entries = [], dl_acknowledged = 0\<rparr>"



end
