(* ===== verification/Recovery_Properties.thy ===== *)
theory Recovery_Properties
  imports Recovery_Effect Recovery_Diagnostics Coordinator_Properties
begin

text \<open>
  What startup, recovery and the heartbeat promise: their runs are runs of the store, a report accounts
  for every claim it scanned and a clean one is true, and a failed startup gives the singleton back.
\<close>

section \<open>A concrete recovery\<close>

definition demo_recovery_world :: "int \<Rightarrow> unit result \<Rightarrow> core_world" where
  \<comment> \<open>graph storage has the publication; the outcome of retiring the evidence\<close>
  "demo_recovery_world t retired = (demo_world demo_report None)\<lparr>w_env := (\<lambda>i. demo_env (t + 5 * int i)),
     w_reader := Some (\<lambda>c. Inr (Some demo_report)), w_retirer := Some (\<lambda>c. retired)\<rparr>"

definition demo_restart :: core_state where
  \<comment> \<open>a second instance about to start while the first one's attempt is still running\<close>
  "demo_restart = \<lparr>k_db = demo_running, k_calls = 0,
     k_coord = demo_coordinator\<lparr>co_instance_id := ''two'', co_epoch := None\<rparr>\<rparr>"

definition demo_pending :: core_state where
  "demo_pending = (demo_core demo_waiting)\<lparr>k_coord := demo_coordinator\<lparr>co_recovery_report :=
     Some ((empty_report 1)\<lparr>r_pending := 1\<rparr>)\<rparr>\<rparr>"

definition demo_clean :: StartupRecoveryReport where
  "demo_clean = (empty_report 1)\<lparr>r_resolved := 1\<rparr>"

definition disk_error :: py_error where "disk_error = RuntimeError ''disk''"

lemma demo_startup: "fst (startup (demo_recovery_world 500 (Inr ())) (recover_startup (demo_recovery_world 500 (Inr ())))
    demo_restart) = Inr 2"
  by code_simp

lemma demo_recovers: "fst (recover_startup (demo_recovery_world 60 (Inr ())) demo_pending) = Inr demo_clean"
  by code_simp

section \<open>Recovery against the store's contract\<close>

definition leads ::
  "(JobClaim set \<Rightarrow> control_db \<Rightarrow> JobClaim set \<Rightarrow> control_db \<Rightarrow> bool) \<Rightarrow> 'a core \<Rightarrow> bool" where
  \<comment> \<open>the program is progress and may hand out further claims\<close>
  "leads prog m = (\<forall>K s r s'. m s = (r, s') \<longrightarrow> (\<exists>K'. K \<subseteq> K' \<and> prog K (k_db s) K' (k_db s')))"

locale recovering_store = coordinator_store +
  assumes acquires: "acquire_singleton env iid ttl db = Inr (e, db') \<Longrightarrow> prog K db K db'"
    and renewals: "heartbeat_singleton env iid ep ttl db = Inr (b, db') \<Longrightarrow> prog K db K db'"
    and recoveries: "recover_abandoned_attempts env iid ep limit db = Inr (n, db') \<Longrightarrow> prog K db K db'"
    and listings: "reconciliation_claims limit db = Inr cs \<Longrightarrow> prog K db (K \<union> set cs) db"
    and closures: "execute_durable_closure env clk locks c ri re fence closer db = Inr (b, db') \<Longrightarrow> c \<in> K
      \<Longrightarrow> prog K db K db'"
    and quarantines: "quarantine_legacy_attempt env clk locks c ri re fence db = Inr (b, db') \<Longrightarrow> c \<in> K
      \<Longrightarrow> prog K db K db'"
begin

lemma steps_leads: "(\<And>K. steps prog K m) \<Longrightarrow> leads prog m"
  unfolding leads_def relates_def by blast

lemma leads_bind: "leads prog m \<Longrightarrow> (\<And>x. leads prog (f x)) \<Longrightarrow> leads prog (bindC m f)"
  unfolding leads_def by (intro allI impI, erule bindC_cases) (blast, meson subset_trans trans)

lemma leads_seq: "leads prog m \<Longrightarrow> leads prog m' \<Longrightarrow> leads prog (seqC m m')"
  unfolding seqC_def by (rule leads_bind)

lemma leads_catch: "leads prog m \<Longrightarrow> (\<And>e. leads prog (h e)) \<Longrightarrow> leads prog (catchC m h)"
  unfolding leads_def by (intro allI impI, erule catchC_cases) (meson subset_trans trans, blast)

lemma leads_if: "leads prog m \<Longrightarrow> leads prog m' \<Longrightarrow> leads prog (if b then m else m')"
  by simp

lemma steps_renew: "calm prog w \<Longrightarrow> steps prog K (renew_singleton w)"
  unfolding renew_singleton_def by (intro steps_intros steps_call) (auto dest: renewals)

lemma steps_quarantine:
  assumes "calm prog w" and "c \<in> K"
  shows "steps prog K (quarantine_call w c iid ep)" and "steps prog K (closure_call w closer c iid ep)"
proof -
  have "prog K (k_db s) K (k_db s')" if "quarantine_call w c iid ep s = (r, s')" for s r s'
    using relatesD [OF steps_call that [unfolded quarantine_call_def]] quarantines assms by blast
  then show "steps prog K (quarantine_call w c iid ep)" by (rule relatesI)
  have "prog K (k_db s) K (k_db s')" if "closure_call w closer c iid ep s = (r, s')" for s r s'
    using relatesD [OF steps_call that [unfolded closure_call_def]] closures assms by blast
  then show "steps prog K (closure_call w closer c iid ep)" by (rule relatesI)
qed

lemma steps_retire_resolved: "steps prog K (retire_resolved w c out r)"
  by (rule relatesI) (use retire_resolved_state refl in metis)

lemma steps_recover_claim:
  assumes "calm prog w" and "c \<in> K"
  shows "steps prog K (recover_claim w iid ep c r)"
proof -
  have rec: "steps prog K (reconcile_call w c iid ep u)" for u
    unfolding reconcile_call_def by (rule steps_call) (use assms in \<open>auto dest: reconciliations\<close>)
  note cs = steps_intros steps_quarantine [OF assms] rec steps_retire_resolved steps_marker [OF assms]
  have "steps prog K (close_claim w c iid ep m r')" for m r' unfolding close_claim_def by (intro cs)
  moreover have "steps prog K (settle_claim w c iid ep m r')" for m r'
    unfolding settle_claim_def record_found_marker_def by (intro cs)
  ultimately show ?thesis
    unfolding recover_claim_def quarantine_claim_def by (auto split: prod.split intro!: cs)
qed

lemma steps_recover_claims:
  "calm prog w \<Longrightarrow> set cs \<subseteq> K \<Longrightarrow> steps prog K (recover_claims w iid ep cs r)"
  by (induction cs arbitrary: r) (auto intro!: steps_intros steps_renew steps_recover_claim)

lemma leads_pass: 
  assumes "calm prog w"
  shows "leads prog (recovery_pass w iid ep limit)"
  unfolding leads_def
proof (intro allI impI)
  fix K s r s'
  assume "recovery_pass w iid ep limit s = (r, s')"
  then show "\<exists>K'. K \<subseteq> K' \<and> prog K (k_db s) K' (k_db s')" unfolding recovery_pass_def
  proof (cases rule: bindC_cases)
    case (raised e)
    have "steps prog K (claims_call w limit)" unfolding claims_call_def
      by (rule steps_call [OF assms]) (auto simp: result_simps refl)
    with raised show ?thesis using relatesD by blast
  next
    case (ok cs s1)
    have l: "reconciliation_claims limit (k_db s1) = Inr cs"
      and d: "k_db s1 = w_others w (k_calls s) (k_db s)"
      using callC_Inr(1) [OF ok(1) [unfolded claims_call_def]] by (auto simp: result_simps)
    have "prog K (k_db s) K (k_db s1)" using assms unfolding calm_def d by blast
    from trans [OF trans [OF this listings [OF l]] relatesD [OF steps_recover_claims [OF assms] ok(2)]]
    show ?thesis by blast
  qed
qed

lemma leads_recover: "calm prog w \<Longrightarrow> leads prog (recover_startup w)"
  unfolding recover_startup_def
  by (intro leads_catch leads_bind leads_seq leads_pass steps_leads steps_intros)

lemma leads_startup:
  assumes "calm prog w" and "leads prog rec"
  shows "leads prog (startup w rec)"
  unfolding startup_def acquire_call_def recover_call_def stop_call_def
  by (intro leads_catch leads_bind leads_seq assms(2) steps_leads [OF steps_call [OF assms(1)]])
    (auto intro!: steps_leads steps_intros dest: acquires recoveries stops)

lemma leads_heartbeat: "calm prog w \<Longrightarrow> leads prog (heartbeat w)"
  unfolding heartbeat_def
  by (intro leads_bind leads_if leads_seq leads_recover steps_leads [OF steps_call])
    (auto intro!: steps_leads steps_intros dest: renewals)

end

lemma listing_progress:
  assumes "reconciliation_claims limit db = Inr cs"
  shows "progress sha256 K db (K \<union> set cs) db"
  unfolding progress_def
proof (intro conjI allI impI)
  fix C assume "K \<subseteq> C"
  then show "\<exists>C'. (K \<union> set cs) \<union> C \<subseteq> C' \<and> (store_step DEFAULT_LIMITS sha256)\<^sup>*\<^sup>* (db, C) (db, C')"
    by (intro exI [of _ "C \<union> set cs"] conjI r_into_rtranclp store_step.list_claims [OF assms]) blast
qed simp

interpretation recovery: recovering_store "progress sha256" for sha256
  by unfold_locales (auto intro!: step_progress listing_progress intro: store_step.intros)

text \<open>
  Recovery composes with the store: startup with its recovery pass, and every heartbeat, takes a
  reachable database along committed transactions of the control store, whichever of their calls fail.
\<close>

theorem recovery_refines_store:
  assumes "calm (progress sha256) w" and "reachable DEFAULT_LIMITS sha256 (k_db s, C)"
    and "startup w (recover_startup w) s = (r, s') \<or> heartbeat w s = (r', s')"
  shows "\<exists>C'. C \<subseteq> C' \<and> (store_step DEFAULT_LIMITS sha256)\<^sup>*\<^sup>* (k_db s, C) (k_db s', C')"
proof -
  have "leads (progress sha256) (startup w (recover_startup w))" "leads (progress sha256) (heartbeat w)"
    by (intro recovery.leads_startup recovery.leads_recover recovery.leads_heartbeat assms(1))+
  note lead = this [unfolded leads_def, rule_format, where K = "{}"]
  from assms(3) obtain K' where "progress sha256 {} (k_db s) K' (k_db s')"
    by (elim disjE) (use lead in meson)+
  then have "\<exists>C'. K' \<union> C \<subseteq> C' \<and> (store_step DEFAULT_LIMITS sha256)\<^sup>*\<^sup>* (k_db s, C) (k_db s', C')"
    using assms(2) by (simp add: progress_def)
  then show ?thesis by (elim exE conjE) (intro exI conjI, auto)
qed

lemma demo_recovery_calm: "calm (progress sha256) (demo_recovery_world t r)" "undisturbed (demo_recovery_world t r)"
  by (simp_all add: calm_def undisturbed_def shrinks_refl demo_recovery_world_def demo_world_def progress_refl)

theorem recovery_refines_store_witness:
  "\<exists>s' C'. startup (demo_recovery_world 500 (Inr ())) (recover_startup (demo_recovery_world 500 (Inr ())))
       demo_restart = (Inr 2, s') \<and> (store_step DEFAULT_LIMITS demo_sha256)\<^sup>*\<^sup>* (demo_running, {demo_claim}) (k_db s', C')"
proof -
  from run_of [OF demo_startup] obtain s' where run: "startup (demo_recovery_world 500 (Inr ()))
      (recover_startup (demo_recovery_world 500 (Inr ()))) demo_restart = (Inr 2, s')" ..
  have "reachable DEFAULT_LIMITS demo_sha256 (k_db demo_restart, {demo_claim})"
    using demo_reachable by (simp add: demo_restart_def)
  from recovery_refines_store [OF demo_recovery_calm(1) this disjI1 [OF run]] run
  show ?thesis by (auto simp: demo_restart_def)
qed

section \<open>Reports\<close>

lemma recovery_passed:
  assumes "recover_startup w s = (Inr rep, s')"
  obtains ep cs s1 where "co_epoch (k_coord s) = Some ep"
    and "reconciliation_claims (max_nonterminal_jobs DEFAULT_LIMITS) (k_db s1) = Inr cs"
    and "k_db s1 = w_others w (k_calls s) (k_db s)"
    and "recover_claims w (co_instance_id (k_coord s)) ep cs (empty_report (int (length cs))) s1 = (Inr rep, s')"
proof -
  obtain ep where e: "co_epoch (k_coord s) = Some ep"
    and pass: "recovery_pass w (co_instance_id (k_coord s)) ep (max_nonterminal_jobs DEFAULT_LIMITS) s = (Inr rep, s')"
    using assms unfolding recover_startup_def
    by (cases rule: catchC_cases)
      (auto simp: require_started_def bindC_def [of require_started] split: option.splits)
  from pass obtain cs s1 where l: "claims_call w (max_nonterminal_jobs DEFAULT_LIMITS) s = (Inr cs, s1)"
    and r: "recover_claims w (co_instance_id (k_coord s)) ep cs (empty_report (int (length cs))) s1 = (Inr rep, s')"
    unfolding recovery_pass_def by (auto elim!: bindC_cases)
  from callC_Inr(1) [OF l [unfolded claims_call_def]]
  have "reconciliation_claims (max_nonterminal_jobs DEFAULT_LIMITS) (k_db s1) = Inr cs"
    and "k_db s1 = w_others w (k_calls s) (k_db s)" by (auto simp: result_simps)
  then show thesis by (rule that [OF e _ _ r])
qed

lemma listed_length: "reconciliation_claims limit db = Inr cs \<Longrightarrow> int (length cs) \<le> limit"
proof -
  assume l: "reconciliation_claims limit db = Inr cs"
  let ?rows = "take (nat limit) (select_by submission_order (reconciliation_ready db) (jobs db))"
  let ?f = "\<lambda>j. case map_of (attempts db) (j_job_id j, j_current_attempt j) of
     None \<Rightarrow> [] | Some a \<Rightarrow> [claim_of_attempt j a]"
  have "length (concat (map ?f rows)) \<le> length rows" for rows by (induction rows) (auto split: option.split)
  from this [of ?rows] l show ?thesis by (auto simp: reconciliation_claims_def result_simps)
qed

text \<open>A waiting job is among the claims listed for reconciliation.\<close>

lemma waiting_listed:
  assumes "reachable DEFAULT_LIMITS sha256 (db, C)"
    and l: "reconciliation_claims (max_nonterminal_jobs DEFAULT_LIMITS) db = Inr cs" and k: "k \<in> waiting db"
  shows "k \<in> c_job_id ` set cs"
proof -
  note inv = reachable_store_inv [OF assms(1) demo_limits, unfolded fst_conv]
  let ?all = "select_by submission_order (reconciliation_ready db) (jobs db)"
  from k obtain j where j: "map_of (jobs db) k = Some j" "j_state j = ReconciliationRequired"
    by (auto simp: waiting_def)
  have jk: "j_job_id j = k" using store_inv_job_id [OF inv j(1)] .
  from store_inv_leased [OF inv j(1)] j(2) obtain a where a: "map_of (attempts db) (k, j_current_attempt j) = Some a"
    by auto
  have "a_is_current a" 
    using store_inv_attempt_job [OF inv a] j by (auto simp: attempt_ok_def)
  with a jk j have "j \<in> set ?all"
    using map_of_SomeD [OF j(1)] by (force simp: reconciliation_ready_def)
  moreover have "length ?all \<le> nat (max_nonterminal_jobs DEFAULT_LIMITS)"
  proof -
    have sub: "reconciliation_ready db j \<Longrightarrow> \<not> terminal (j_state j)" for j
      by (auto simp: reconciliation_ready_def)
    have "length (filter (\<lambda>e. reconciliation_ready db (snd e)) es)
        \<le> length (filter (\<lambda>(k, j). \<not> terminal (j_state j)) es)" for es
      by (induction es) (auto dest: sub)
    then have "length ?all \<le> length (filter (\<lambda>(k, j). \<not> terminal (j_state j)) (jobs db))"
      by (simp add: select_by_def filter_map o_def)
    moreover have "nonterminal_count db \<le> max_nonterminal_jobs DEFAULT_LIMITS"
      using reachable_count [OF assms(1) demo_limits] by (simp add: DEFAULT_LIMITS_def)
    ultimately show ?thesis by (simp add: nonterminal_count_def)
  qed
  ultimately show ?thesis
    using l a jk by (force simp: reconciliation_claims_def result_simps claim_of_attempt_def)
qed

text \<open>
  Claim C16 (a recovery report is true): a pass that returns accounts for every claim it scanned exactly
  once, as resolved or as pending, and for at most \<^verbatim>\<open>max_nonterminal_jobs\<close> of them; evidence it could not
  retire belongs to resolved claims. When the report has nothing pending and nobody else adds a waiting
  job meanwhile, no job of the store waits for reconciliation any more.
\<close>

theorem recovery_report_true:
  assumes "calm (progress sha256) w" and "reachable DEFAULT_LIMITS sha256 (k_db s, C)" and "undisturbed w"
    and "recover_startup w s = (Inr rep, s')"
  shows "r_resolved rep + r_pending rep = r_scanned rep \<and> 0 \<le> r_resolved rep \<and> 0 \<le> r_pending rep
    \<and> r_scanned rep \<le> max_nonterminal_jobs DEFAULT_LIMITS
    \<and> 0 \<le> r_residuals rep \<and> r_residuals rep \<le> r_resolved rep
    \<and> 0 \<le> r_unavailable rep \<and> r_unavailable rep \<le> r_scanned rep
    \<and> (r_pending rep = 0 \<longrightarrow> (\<forall>k j. map_of (jobs (k_db s')) k = Some j \<longrightarrow> j_state j \<noteq> ReconciliationRequired))"
proof -
  from recovery_passed [OF assms(4)] obtain ep cs s1 where
    l: "reconciliation_claims (max_nonterminal_jobs DEFAULT_LIMITS) (k_db s1) = Inr cs"
    and d: "k_db s1 = w_others w (k_calls s) (k_db s)"
    and r: "recover_claims w (co_instance_id (k_coord s)) ep cs (empty_report (int (length cs))) s1 = (Inr rep, s')"
    by blast
  have "progress sha256 {} (k_db s) {} (k_db s1)" using assms(1) unfolding calm_def d by blast
  with assms(2) obtain C1 where re: "reachable DEFAULT_LIMITS sha256 (k_db s1, C1)"
    unfolding progress_def reachable_def by (metis empty_subsetI rtranclp_trans)
  have keyed: "keyed (k_db s1)"
    using store_inv_job_id [OF reachable_store_inv [OF re demo_limits, unfolded fst_conv]] by (simp add: keyed_def)
  note fx = recover_claims_effect [OF r assms(3) keyed]
  have "waiting (k_db s') \<subseteq> waiting (k_db s1)"
    using relatesD [OF shrinking_claims [OF assms(3)] r] keyed by (simp add: shrinks_def)
  with fx waiting_listed [OF re l] have "r_pending rep = 0 \<longrightarrow> waiting (k_db s') = {}"
    by (fastforce simp: empty_report_def)
  then have "r_pending rep = 0 \<longrightarrow> (\<forall>k j. map_of (jobs (k_db s')) k = Some j \<longrightarrow> j_state j \<noteq> ReconciliationRequired)"
    by (auto simp: waiting_def)
  with fx listed_length [OF l] show ?thesis by (simp add: tallies_def empty_report_def)
qed

theorem recovery_report_true_witness:
  "\<exists>s'. recover_startup (demo_recovery_world 60 (Inr ())) demo_pending = (Inr demo_clean, s')
     \<and> (\<forall>k j. map_of (jobs (k_db s')) k = Some j \<longrightarrow> j_state j \<noteq> ReconciliationRequired)"
proof -
  from run_of [OF demo_recovers] obtain s' where
    run: "recover_startup (demo_recovery_world 60 (Inr ())) demo_pending = (Inr demo_clean, s')" ..
  have "reachable DEFAULT_LIMITS demo_sha256 (k_db demo_pending, {demo_claim})"
    using demo_waiting_reachable by (simp add: demo_pending_def demo_core_def)
  from recovery_report_true [OF demo_recovery_calm(1) this demo_recovery_calm(2) run] run
  show ?thesis by (simp add: demo_clean_def empty_report_def)
qed

section \<open>A startup that fails\<close>

lemma keeps_add_diagnostic: "slots (add_diagnostic name k) = slots k"
  by (simp add: add_diagnostic_def slots_def Let_def)

lemma keeps_report: "keeps (modifyC (record_startup_recovery_report rep))"
proof (rule relates_modify)
  have "slots (fold add_diagnostic names k) = slots k" for names k
    by (induction names arbitrary: k) (simp_all add: keeps_add_diagnostic)
  then show "slots (k_coord (s\<lparr>k_coord := record_startup_recovery_report rep (k_coord s)\<rparr>)) = slots (k_coord s)" for s
    by (simp add: record_startup_recovery_report_def slots_def)
qed

lemma keeps_recovery_calls:
  "keeps (quarantine_call w c iid ep)" "keeps (closure_call w closer c iid ep)"
  unfolding quarantine_call_def closure_call_def relates_def by (auto elim!: callC_cases)

lemma keeps_retire_resolved: "keeps (retire_resolved w c out r)"
  by (rule relatesI) (use retire_resolved_state in metis)

lemma keeps_recover_claims: "keeps (recover_claims w iid ep cs r)"
proof -
  note ks = keeps_intros keeps_recovery_calls keeps_retire_resolved keeps_marker
  have renew: "keeps (renew_singleton w)" unfolding renew_singleton_def by (intro ks)
  have "keeps (close_claim w c iid ep m r')" for c m r' unfolding close_claim_def by (intro ks)
  moreover have "keeps (settle_claim w c iid ep m r')" for c m r'
    unfolding settle_claim_def record_found_marker_def reconcile_call_def by (intro ks)
  ultimately have "keeps (recover_claim w iid ep c r')" for c r'
    unfolding recover_claim_def quarantine_claim_def by (auto split: prod.split intro!: ks)
  with renew show ?thesis by (induction cs arbitrary: r) (auto intro!: ks)
qed

lemma keeps_recover_startup: "keeps (recover_startup w)"
  unfolding recover_startup_def recovery_pass_def claims_call_def
  by (intro keeps_intros keeps_recover_claims keeps_report)

lemma stopped_not_live:
  "stop_singleton env iid ep db = Inr (b, db') \<Longrightarrow> \<not> live_owner t iid ep db'"
  by (cases "singleton db") (auto simp: stop_singleton_def live_owner_def split: if_splits)

lemma stop_call_outcome:
  assumes "stop_call w ep s = (r, s')"
  shows "k_calls s' = Suc (k_calls s)" and "k_coord s' = k_coord s"
    and "case w_fail w (k_calls s) of
        None \<Rightarrow> (\<exists>b. r = Inr b) \<and> (\<forall>t. \<not> live_owner t (co_instance_id (k_coord s)) ep (k_db s'))
      | Some (applied, e) \<Rightarrow> r = Inl e
          \<and> (applied \<longrightarrow> (\<forall>t. \<not> live_owner t (co_instance_id (k_coord s)) ep (k_db s')))"
proof -
  have "\<exists>b db'. stop_singleton env k x db = Inr (b, db')" for env k x db
    by (cases "singleton db") (auto simp: stop_singleton_def)
  then obtain b db3 where stop: "stop_singleton (w_env w (k_calls s)) (co_instance_id (k_coord s)) ep
      (w_others w (k_calls s) (k_db s)) = Inr (b, db3)" by blast
  note dead = stopped_not_live [OF stop]
  from assms stop show "k_calls s' = Suc (k_calls s)" "k_coord s' = k_coord s"
    by (auto simp: stop_call_def callC_def Let_def split: option.splits)
  from assms stop dead show "case w_fail w (k_calls s) of
        None \<Rightarrow> (\<exists>b. r = Inr b) \<and> (\<forall>t. \<not> live_owner t (co_instance_id (k_coord s)) ep (k_db s'))
      | Some (applied, e) \<Rightarrow> r = Inl e
          \<and> (applied \<longrightarrow> (\<forall>t. \<not> live_owner t (co_instance_id (k_coord s)) ep (k_db s')))"
    by (auto simp: stop_call_def callC_def Let_def split: option.splits)
qed

text \<open>
  Claim C17 (a failed startup owns nothing): when startup raises, whatever raised and whichever store
  calls failed on the way, then either the acquisition raised and the coordinator is as it was, or the
  last thing it did was the call that stops the singleton. If the store answered that call, the
  coordinator is not started and the epoch it acquired is not live at any time: another instance can
  take over at once. Only if the stop itself was lost does that error replace the first one and the
  coordinator keep the epoch, which is dead nevertheless when the stop was applied.
\<close>

theorem failed_startup_owns_nothing:
  assumes "startup w (recover_startup w) s = (Inl e, s')"
  shows "case acquire_call w s of
      (Inl e0, s0) \<Rightarrow> e = e0 \<and> s' = s0 \<and> k_coord s' = k_coord s
    | (Inr ep, s1) \<Rightarrow> 0 < k_calls s' \<and>
        (case w_fail w (k_calls s' - 1) of
           None \<Rightarrow> co_epoch (k_coord s') = None
             \<and> (\<forall>t. \<not> live_owner t (co_instance_id (k_coord s)) ep (k_db s'))
         | Some (applied, e1) \<Rightarrow> e = e1 \<and> co_epoch (k_coord s') = Some ep
             \<and> (applied \<longrightarrow> (\<forall>t. \<not> live_owner t (co_instance_id (k_coord s)) ep (k_db s'))))"
  using assms unfolding startup_def
proof (cases rule: bindC_cases)
  case (raised e')
  moreover from this have "k_coord s' = k_coord s" unfolding acquire_call_def by (auto elim: callC_cases)
  ultimately show ?thesis by simp
next
  case (ok ep s1)
  let ?t = "s1\<lparr>k_coord := (k_coord s1)\<lparr>co_epoch := Some ep\<rparr>\<rparr>"
  let ?body = "seqC (recover_call w ep) (bindC (recover_startup w) (\<lambda>rep.
     seqC (modifyC (record_startup_recovery_report rep)) (returnC ep)))"
  have iid: "co_instance_id (k_coord s1) = co_instance_id (k_coord s)"
    using ok(1) unfolding acquire_call_def by (auto elim: callC_cases)
  from ok(2) have "catchC ?body (\<lambda>e. seqC (stop_call w ep) (seqC (modifyC (\<lambda>k. k\<lparr>co_epoch := None\<rparr>)) (raiseC e))) ?t
      = (Inl e, s')" by simp
  then obtain e1 s2 where body: "?body ?t = (Inl e1, s2)"
    and stop: "seqC (stop_call w ep) (seqC (modifyC (\<lambda>k. k\<lparr>co_epoch := None\<rparr>)) (raiseC e1 :: int core)) s2 = (Inl e, s')"
    by (rule catchC_cases) auto
  have "keeps ?body" unfolding recover_call_def
    by (intro keeps_intros keeps_recover_startup keeps_report)
  from relatesD [OF this body] iid have kept: "co_instance_id (k_coord s2) = co_instance_id (k_coord s)"
    "co_epoch (k_coord s2) = Some ep" by (simp_all add: slots_def)
  obtain r s3 where st: "stop_call w ep s2 = (r, s3)" by fastforce
  note stopped = stop_call_outcome [OF st, unfolded kept(1)]
  show ?thesis
    using stop st stopped kept(2) ok(1)
    by (auto simp: seqC_def [of "stop_call w ep"] bindC_def [of "stop_call w ep"]
        split: option.splits prod.splits sum.splits)
qed

definition demo_outage :: core_world where
  \<comment> \<open>the connection is lost while the abandoned attempts are classified\<close>
  "demo_outage = (demo_recovery_world 500 (Inr ()))\<lparr>w_fail :=
     (\<lambda>i. if i = 1 then Some (True, OperationalError ''connection lost'') else None)\<rparr>"

lemma demo_outage_startup:
  "fst (startup demo_outage (recover_startup demo_outage) demo_restart) = Inl (OperationalError ''connection lost'')"
  "k_calls (snd (startup demo_outage (recover_startup demo_outage) demo_restart)) = 3"
  "fst (acquire_call demo_outage demo_restart) = Inr 2"
  by code_simp+

theorem failed_startup_owns_nothing_witness:
  "\<exists>s'. startup demo_outage (recover_startup demo_outage) demo_restart = (Inl (OperationalError ''connection lost''), s')
     \<and> co_epoch (k_coord s') = None \<and> \<not> live_owner 520 ''two'' 2 (k_db s')"
proof -
  from run_of [OF demo_outage_startup(1)] obtain s' where run: "startup demo_outage (recover_startup demo_outage)
      demo_restart = (Inl (OperationalError ''connection lost''), s')" ..
  from run_of [OF demo_outage_startup(3)] obtain s1 where "acquire_call demo_outage demo_restart = (Inr 2, s1)" ..
  moreover have "w_fail demo_outage (k_calls s' - 1) = None"
    using demo_outage_startup(2) unfolding run by (simp add: demo_outage_def)
  ultimately show ?thesis using failed_startup_owns_nothing [OF run] run by (simp add: demo_restart_def)
qed

section \<open>Recovery from the heartbeat\<close>

text \<open>
  A failed heartbeat recovery is not repeated: when the recovery pass of a heartbeat raises,
  for instance because its connection was lost, the report of the failure has no pending claims, so
  every later heartbeat only renews the singleton. Claims that were pending before stay unreconciled
  until the coordinator is restarted.
\<close>

theorem failed_recovery_not_repeated:
  assumes "co_epoch (k_coord s) \<noteq> None" and "renew_singleton w s = (Inr True, s1)"
    and "co_recovery_report (k_coord s) = Some rep" and "r_pending rep \<noteq> 0"
    and "recover_startup w s1 = (Inl e, s2)"
  shows "heartbeat w s = (Inl e, s2) \<and> heartbeat w' s2 = renew_singleton w' s2"
proof
  from assms(1) obtain ep where ep: "co_epoch (k_coord s) = Some ep" by blast
  have call: "callC w (\<lambda>env. heartbeat_singleton env (co_instance_id (k_coord s)) ep (co_singleton_ttl (k_coord s))) s
      = (Inr True, s1)" using assms(2) ep by (simp add: renew_singleton_def)
  then have c1: "k_coord s1 = k_coord s" by (rule callC_Inr(2))
  show "heartbeat w s = (Inl e, s2)"
    using ep call c1 assms(3-5)
    by (simp add: heartbeat_def require_started_def bindC_def [of require_started] bindC_def [of "callC w f" for f]
        bindC_def [of "recover_startup w"])
  have "co_epoch (k_coord s2) = Some ep"
    using relatesD [OF keeps_recover_startup assms(5)] c1 ep by (simp add: slots_def)
  moreover have "\<exists>rep. co_recovery_report (k_coord s2) = Some rep \<and> r_pending rep = 0"
  proof -
    have "co_recovery_report (fold add_diagnostic names k) = co_recovery_report k" for names k
      by (induction names arbitrary: k) (simp_all add: add_diagnostic_def Let_def)
    moreover obtain e1 s3 where "s2 = s3\<lparr>k_coord := record_startup_recovery_report (failed_report e1) (k_coord s3)\<rparr>"
      using assms(5) unfolding recover_startup_def by (auto elim!: catchC_cases)
    ultimately have "co_recovery_report (k_coord s2) = Some (failed_report e1)"
      by (simp add: record_startup_recovery_report_def del: fold_simps)
    then show ?thesis by (simp add: failed_report_def empty_report_def)
  qed
  ultimately show "heartbeat w' s2 = renew_singleton w' s2"
    by (auto simp: heartbeat_def renew_singleton_def require_started_def bindC_def [of require_started]
        bindC_def [of "callC w' f" for f] readC_def dest: callC_Inr(2) split: prod.split sum.split)
qed

theorem failed_recovery_not_repeated_witness:
  "\<exists>s'. heartbeat (demo_recovery_world 60 (Inl disk_error)) demo_pending = (Inl disk_error, s')
     \<and> heartbeat (demo_recovery_world 90 (Inr ())) s' = renew_singleton (demo_recovery_world 90 (Inr ())) s'"
proof -
  let ?w = "demo_recovery_world 60 (Inl disk_error)"
  have "fst (renew_singleton ?w demo_pending) = Inr True" by code_simp
  from run_of [OF this] obtain s1 where s1: "renew_singleton ?w demo_pending = (Inr True, s1)" ..
  have "fst (recover_startup ?w (snd (renew_singleton ?w demo_pending))) = Inl disk_error" by code_simp
  from run_of [OF this [unfolded s1 snd_conv]] obtain s2 where s2: "recover_startup ?w s1 = (Inl disk_error, s2)" ..
  have pre: "co_epoch (k_coord demo_pending) \<noteq> None"
    "co_recovery_report (k_coord demo_pending) = Some ((empty_report 1)\<lparr>r_pending := 1\<rparr>)"
    "r_pending ((empty_report 1)\<lparr>r_pending := 1\<rparr>) \<noteq> 0"
    by (simp_all add: demo_pending_def demo_coordinator_def)
  from failed_recovery_not_repeated [OF pre(1) s1 pre(2,3) s2] show ?thesis by blast
qed

end
