(* ===== verification/Artifact_References.thy ===== *)
theory Artifact_References
  imports Contracts
begin

text \<open>
  Content-addressed artifact references (\<^verbatim>\<open>artifacts/references.py\<close>): validation of references and
  store-relative locators, the private, public and semantic mappings, decoding, and the comparison
  that looks at content only.
\<close>

section \<open>Text\<close>

definition MAX_ARTIFACT_SIZE :: int where "MAX_ARTIFACT_SIZE = 2 ^ 63 - 1"
definition MAX_LOCATOR_LENGTH :: nat where "MAX_LOCATOR_LENGTH = 512"
definition MAX_STORE_VERSION_LENGTH :: nat where "MAX_STORE_VERSION_LENGTH = 128"
definition MAX_MEDIA_TYPE_LENGTH :: nat where "MAX_MEDIA_TYPE_LENGTH = 256"
definition MAX_RECORD_FORMAT_LENGTH :: nat where "MAX_RECORD_FORMAT_LENGTH = 128"

definition digest_ok :: "string \<Rightarrow> bool" where
  \<comment> \<open>\<^verbatim>\<open>_DIGEST_RE\<close>\<close>
  "digest_ok s = (take 7 s = ''sha256:'' \<and> length s = 71
     \<and> list_all (\<lambda>c. c_digit c \<or> in_range 97 102 c) (drop 7 s))"

definition re_TOKEN :: re where
  "re_TOKEN = RSeq (RCls c_alnum) (RStar (RCls (\<lambda>c. c_alnum c \<or> c_in ''._+/-'' c)))"

definition re_VERSION :: re where
  "re_VERSION = RSeq (RCls c_alnum) (RStar (RCls (\<lambda>c. c_alnum c \<or> c_in ''._-'' c)))"

definition invalid :: "string \<Rightarrow> py_error" where
  "invalid field = ValueError (''invalid '' @ field)"

definition require_text :: "pyval \<Rightarrow> string \<Rightarrow> nat \<Rightarrow> string result" where
  "require_text v field maximum =
     (case v of
        VStr s \<Rightarrow> guardE (s \<noteq> [] \<and> length s \<le> maximum \<and> \<not> list_ex (\<lambda>c. code c < 32 \<or> code c = 127) s)
                   (invalid field) (Inr s)
      | _ \<Rightarrow> Inl (invalid field))"

section \<open>Locators\<close>

record ArtifactLocator =
  al_kind :: string
  al_value :: string
  al_store_version :: "string option"

definition contains :: "string \<Rightarrow> string \<Rightarrow> bool" where
  "contains sub s = list_ex (\<lambda>i. take (length sub) (drop i s) = sub) [0..<Suc (length s)]"

definition locator_ok :: "string \<Rightarrow> string \<Rightarrow> bool" where
  "locator_ok kind s =
     (\<not> (list_ex (\<lambda>c. c = backslash) s
         \<or> (case s of c # _ \<Rightarrow> c = CHR ''/'' \<or> c = CHR ''~'' | [] \<Rightarrow> False)
         \<or> (case s of c # d # _ \<Rightarrow> (c_lower c \<or> c_upper c) \<and> d = CHR '':'' | _ \<Rightarrow> False)
         \<or> contains ''://'' s \<or> list_ex (c_in '':?#@%'') s)
      \<and> list_all (\<lambda>part. \<not> List.member ['''', ''.'', ''..''] part) (split_on (CHR ''/'') s)
      \<and> \<not> (kind = ''object'' \<and> map lower_char (hd (split_on (CHR ''/'') s)) = ''bucket'')
      \<and> \<not> list_ex c_space s)"

definition validate_locator_value :: "string \<Rightarrow> pyval \<Rightarrow> string result" where
  "validate_locator_value kind v =
     bindE (require_text v ''locator'' MAX_LOCATOR_LENGTH) (\<lambda>s.
     guardE (locator_ok kind s) (invalid ''locator'') (Inr s))"

definition validate_store_version :: "pyval \<Rightarrow> string option result" where
  "validate_store_version v =
     (if v = VNone then Inr None
      else bindE (require_text v ''store version'' MAX_STORE_VERSION_LENGTH) (\<lambda>s.
           guardE (fullmatch re_VERSION s) (invalid ''store version'') (Inr (Some s))))"

definition make_locator :: "pyval \<Rightarrow> pyval \<Rightarrow> pyval \<Rightarrow> ArtifactLocator result" where
  "make_locator kind v version =
     (case kind of
        VStr k \<Rightarrow>
          guardE (List.member [''filesystem'', ''object''] k) (invalid ''locator kind'') (
          bindE (validate_locator_value k v) (\<lambda>s.
          bindE (validate_store_version version) (\<lambda>sv.
          Inr \<lparr>al_kind = k, al_value = s, al_store_version = sv\<rparr>)))
      | _ \<Rightarrow> Inl (invalid ''locator kind''))"

definition opt_val :: "string option \<Rightarrow> pyval" where
  "opt_val x = (case x of None \<Rightarrow> VNone | Some s \<Rightarrow> VStr s)"

definition locator_to_mapping :: "ArtifactLocator \<Rightarrow> (string \<times> pyval) list" where
  "locator_to_mapping l =
     [(''kind'', VStr (al_kind l)), (''value'', VStr (al_value l))] @
     (case al_store_version l of None \<Rightarrow> [] | Some s \<Rightarrow> [(''store_version'', VStr s)])"

definition is_str :: "pyval \<Rightarrow> bool" where
  "is_str v = (case v of VStr _ \<Rightarrow> True | _ \<Rightarrow> False)"

definition locator_from_mapping :: "pyval \<Rightarrow> ArtifactLocator result" where
  "locator_from_mapping v =
     (case v of
        VDict d \<Rightarrow>
          guardE (list_all (List.member [''kind'', ''value'', ''store_version'']) (dict_keys d))
            (invalid ''locator'') (
          guardE (is_str (dict_get d ''kind'') \<and> is_str (dict_get d ''value'')) (invalid ''locator'') (
          guardE (dict_get d ''store_version'' = VNone \<or> is_str (dict_get d ''store_version''))
            (invalid ''locator'') (
          make_locator (dict_get d ''kind'') (dict_get d ''value'') (dict_get d ''store_version''))))
      | _ \<Rightarrow> Inl (invalid ''locator''))"

section \<open>References\<close>

datatype PrivacyClassification =
    PUBLIC | SOURCE_INDEX | LEGACY_GRAPH | RAW_SOURCE | CANONICAL_GRAPH | CANONICAL_PROVENANCE

fun privacy_value :: "PrivacyClassification \<Rightarrow> string" where
  "privacy_value PUBLIC = ''public''"
| "privacy_value SOURCE_INDEX = ''source_index''"
| "privacy_value LEGACY_GRAPH = ''legacy_graph''"
| "privacy_value RAW_SOURCE = ''raw_source''"
| "privacy_value CANONICAL_GRAPH = ''canonical_graph''"
| "privacy_value CANONICAL_PROVENANCE = ''canonical_provenance''"

definition privacy_of :: "pyval \<Rightarrow> PrivacyClassification result" where
  "privacy_of v =
     (case List.find (\<lambda>p. v = VStr (privacy_value p))
        [PUBLIC, SOURCE_INDEX, LEGACY_GRAPH, RAW_SOURCE, CANONICAL_GRAPH, CANONICAL_PROVENANCE] of
        Some p \<Rightarrow> Inr p | None \<Rightarrow> Inl (invalid ''privacy classification''))"

record ArtifactReference =
  ar_content_digest :: string
  ar_size_bytes :: int
  ar_media_type :: string
  ar_record_format :: string
  ar_privacy :: PrivacyClassification
  ar_locator :: ArtifactLocator

definition require_token :: "pyval \<Rightarrow> string \<Rightarrow> nat \<Rightarrow> string result" where
  "require_token v field maximum =
     bindE (require_text v field maximum) (\<lambda>s. guardE (fullmatch re_TOKEN s) (invalid field) (Inr s))"

definition require_digest :: "pyval \<Rightarrow> string result" where
  "require_digest v =
     (case v of VStr s \<Rightarrow> guardE (digest_ok s) (invalid ''content digest'') (Inr s)
      | _ \<Rightarrow> Inl (invalid ''content digest''))"

definition require_size :: "pyval \<Rightarrow> int result" where
  "require_size v =
     (case v of VInt n \<Rightarrow> guardE (0 \<le> n \<and> n \<le> MAX_ARTIFACT_SIZE) (invalid ''artifact size'') (Inr n)
      | _ \<Rightarrow> Inl (invalid ''artifact size''))"

definition make_reference ::
  "pyval \<Rightarrow> pyval \<Rightarrow> pyval \<Rightarrow> pyval \<Rightarrow> PrivacyClassification \<Rightarrow> ArtifactLocator \<Rightarrow> ArtifactReference result" where
  "make_reference digest bytes media format privacy locator =
     bindE (require_digest digest) (\<lambda>d.
     bindE (require_size bytes) (\<lambda>n.
     bindE (require_token media ''media type'' MAX_MEDIA_TYPE_LENGTH) (\<lambda>m.
     bindE (require_token format ''record format'' MAX_RECORD_FORMAT_LENGTH) (\<lambda>f.
     Inr \<lparr>ar_content_digest = d, ar_size_bytes = n, ar_media_type = m, ar_record_format = f,
          ar_privacy = privacy, ar_locator = locator\<rparr>))))"

definition semantic_mapping :: "ArtifactReference \<Rightarrow> (string \<times> pyval) list" where
  "semantic_mapping r =
     [(''content_digest'', VStr (ar_content_digest r)), (''size_bytes'', VInt (ar_size_bytes r)),
      (''media_type'', VStr (ar_media_type r)), (''record_format'', VStr (ar_record_format r)),
      (''privacy'', VStr (privacy_value (ar_privacy r)))]"

definition to_mapping :: "ArtifactReference \<Rightarrow> (string \<times> pyval) list" where
  "to_mapping r = semantic_mapping r @ [(''locator'', VDict (locator_to_mapping (ar_locator r)))]"

definition to_public_mapping :: "ArtifactReference \<Rightarrow> (string \<times> pyval) list" where
  "to_public_mapping r = semantic_mapping r"

definition SEMANTIC_FIELDS :: "string list" where
  "SEMANTIC_FIELDS = [''content_digest'', ''size_bytes'', ''media_type'', ''record_format'', ''privacy'']"

definition from_mapping :: "pyval \<Rightarrow> ArtifactReference result" where
  \<comment> \<open>the arguments are evaluated before the constructor checks them\<close>
  "from_mapping v =
     (case v of
        VDict d \<Rightarrow>
          guardE (list_all (List.member (''locator'' # SEMANTIC_FIELDS)) (dict_keys d)
                  \<and> List.member (dict_keys d) ''locator'') (invalid ''artifact reference'') (
          bindE (privacy_of (dict_get d ''privacy'')) (\<lambda>p.
          bindE (locator_from_mapping (dict_get d ''locator'')) (\<lambda>l.
          make_reference (dict_get d ''content_digest'') (dict_get d ''size_bytes'')
            (dict_get d ''media_type'') (dict_get d ''record_format'') p l)))
      | _ \<Rightarrow> Inl (invalid ''artifact reference''))"

definition from_semantic_mapping :: "pyval \<Rightarrow> ArtifactReference result" where
  "from_semantic_mapping v =
     (case v of
        VDict d \<Rightarrow>
          guardE (same_set (dict_keys d) SEMANTIC_FIELDS) (invalid ''semantic artifact reference'') (
          bindE (require_digest (dict_get d ''content_digest'')) (\<lambda>digest.
          bindE (privacy_of (dict_get d ''privacy'')) (\<lambda>p.
          bindE (make_locator (VStr ''object'') (VStr (''tenant-neutral/'' @ drop 7 digest)) VNone) (\<lambda>l.
          make_reference (VStr digest) (dict_get d ''size_bytes'') (dict_get d ''media_type'')
            (dict_get d ''record_format'') p l))))
      | _ \<Rightarrow> Inl (invalid ''artifact reference''))"

definition with_store_version :: "ArtifactReference \<Rightarrow> pyval \<Rightarrow> ArtifactReference result" where
  "with_store_version r version =
     bindE (make_locator (VStr (al_kind (ar_locator r))) (VStr (al_value (ar_locator r))) version) (\<lambda>l.
     make_reference (VStr (ar_content_digest r)) (VInt (ar_size_bytes r)) (VStr (ar_media_type r))
       (VStr (ar_record_format r)) (ar_privacy r) l)"

definition with_locator :: "ArtifactReference \<Rightarrow> ArtifactLocator \<Rightarrow> ArtifactReference result" where
  "with_locator r l =
     make_reference (VStr (ar_content_digest r)) (VInt (ar_size_bytes r)) (VStr (ar_media_type r))
       (VStr (ar_record_format r)) (ar_privacy r) l"

section \<open>Comparison\<close>

definition reference_eq :: "ArtifactReference \<Rightarrow> ArtifactReference \<Rightarrow> bool" where
  "reference_eq r r' = (semantic_mapping r = semantic_mapping r')"

definition reference_key :: "ArtifactReference \<Rightarrow> string \<times> int \<times> string \<times> string \<times> string" where
  "reference_key r = (ar_content_digest r, ar_size_bytes r, ar_media_type r, ar_record_format r,
     privacy_value (ar_privacy r))"

definition reference_lt :: "ArtifactReference \<Rightarrow> ArtifactReference \<Rightarrow> bool" where
  "reference_lt r r' = (reference_key r < reference_key r')"

section \<open>Decoding what was encoded\<close>

lemma require_text_Inr [result_simps]:
  "require_text v field n = Inr s \<longleftrightarrow> v = VStr s \<and> s \<noteq> [] \<and> length s \<le> n \<and> \<not> list_ex (\<lambda>c. code c < 32 \<or> code c = 127) s"
  by (auto simp: require_text_def result_simps split: pyval.splits)

lemma require_token_again: "require_token v field n = Inr s \<Longrightarrow> require_token (VStr s) field n = Inr s"
  by (auto simp: require_token_def result_simps)

lemma require_digest_Inr [result_simps]: "require_digest v = Inr s \<longleftrightarrow> v = VStr s \<and> digest_ok s"
  by (auto simp: require_digest_def result_simps split: pyval.splits)

lemma require_size_Inr [result_simps]:
  "require_size v = Inr n \<longleftrightarrow> v = VInt n \<and> 0 \<le> n \<and> n \<le> MAX_ARTIFACT_SIZE"
  by (auto simp: require_size_def result_simps split: pyval.splits)

lemma privacy_of_value: "privacy_of (VStr (privacy_value p)) = Inr p"
  by (cases p) (simp_all add: privacy_of_def)

lemma make_locator_again:
  assumes "make_locator k v sv = Inr l"
  shows "make_locator (VStr (al_kind l)) (VStr (al_value l)) (opt_val (al_store_version l)) = Inr l"
  using assms
  by (auto simp: make_locator_def validate_locator_value_def validate_store_version_def opt_val_def result_simps
      split: pyval.splits if_splits)

lemma locator_roundtrip:
  assumes "make_locator k v sv = Inr l"
  shows "locator_from_mapping (VDict (locator_to_mapping l)) = Inr l"
proof -
  have "dict_get (locator_to_mapping l) ''kind'' = VStr (al_kind l)"
    "dict_get (locator_to_mapping l) ''value'' = VStr (al_value l)"
    "dict_get (locator_to_mapping l) ''store_version'' = opt_val (al_store_version l)"
    "list_all (List.member [''kind'', ''value'', ''store_version'']) (dict_keys (locator_to_mapping l))"
    by (simp_all add: locator_to_mapping_def dict_get_def dict_keys_def opt_val_def split: option.split)
  then show ?thesis
    using make_locator_again [OF assms]
    by (simp add: locator_from_mapping_def is_str_def opt_val_def split: option.splits)
qed

lemma make_reference_again:
  assumes "make_reference d n m f p l = Inr r"
  shows "make_reference (VStr (ar_content_digest r)) (VInt (ar_size_bytes r)) (VStr (ar_media_type r))
      (VStr (ar_record_format r)) (ar_privacy r) l' = Inr (r\<lparr>ar_locator := l'\<rparr>)"
    and "digest_ok (ar_content_digest r)" and "ar_locator r = l"
proof -
  from assms obtain d' n' m' f' where r: "r = \<lparr>ar_content_digest = d', ar_size_bytes = n', ar_media_type = m',
      ar_record_format = f', ar_privacy = p, ar_locator = l\<rparr>"
    and dn: "digest_ok d'" "0 \<le> n'" "n' \<le> MAX_ARTIFACT_SIZE"
    and m: "require_token m ''media type'' MAX_MEDIA_TYPE_LENGTH = Inr m'"
    and f: "require_token f ''record format'' MAX_RECORD_FORMAT_LENGTH = Inr f'"
    by (auto simp: make_reference_def result_simps)
  note tokens = require_token_again [OF m] require_token_again [OF f]
  show "make_reference (VStr (ar_content_digest r)) (VInt (ar_size_bytes r)) (VStr (ar_media_type r))
      (VStr (ar_record_format r)) (ar_privacy r) l' = Inr (r\<lparr>ar_locator := l'\<rparr>)"
    using dn tokens by (simp add: r make_reference_def result_simps)
  show "digest_ok (ar_content_digest r)" and "ar_locator r = l" using dn by (simp_all add: r)
qed

lemma contains_head: "contains (c # sub) s \<Longrightarrow> c \<in> set s"
proof -
  assume "contains (c # sub) s"
  then obtain i where "take (Suc (length sub)) (drop i s) = c # sub" by (auto simp: contains_def list_ex_iff)
  then have "c \<in> set (drop i s)" by (metis in_set_takeD list.set_intros(1))
  then show "c \<in> set s" by (rule in_set_dropD)
qed

definition plain_char :: "char \<Rightarrow> bool" where
  "plain_char c = (c_lower c \<or> c_digit c \<or> c = CHR ''-'' \<or> c = CHR ''/'')"

lemma plain_char:
  assumes "plain_char c"
  shows "c \<noteq> backslash" and "\<not> c_in '':?#@%'' c" and "\<not> c_space c" and "\<not> (code c < 32 \<or> code c = 127)"
  using assms
  by (auto simp: plain_char_def c_lower_def c_digit_def in_range_def c_space_def c_in_def code_def backslash_def)

text \<open>The placeholder locator a portable manifest gets is always accepted.\<close>

lemma neutral_locator:
  assumes "digest_ok d"
  shows "\<exists>l. make_locator (VStr ''object'') (VStr (''tenant-neutral/'' @ drop 7 d)) VNone = Inr l"
proof -
  let ?h = "drop 7 d"
  define v where "v = ''tenant-neutral/'' @ ?h"
  have len: "length ?h = 64" and hex: "c \<in> set ?h \<Longrightarrow> c_digit c \<or> in_range 97 102 c" for c
    using assms by (auto simp: digest_ok_def list_all_iff)
  have "\<forall>c \<in> set ''tenant-neutral/''. plain_char c" by code_simp
  moreover have "plain_char c" if "c \<in> set ?h" for c
    using hex [OF that] by (auto simp: plain_char_def c_lower_def in_range_def)
  ultimately have plain: "c \<in> set v \<Longrightarrow> plain_char c" for c by (auto simp: v_def)
  have free: "\<not> list_ex (\<lambda>c. c = backslash) v" "\<not> list_ex (c_in '':?#@%'') v" "\<not> list_ex c_space v"
    "\<not> list_ex (\<lambda>c. code c < 32 \<or> code c = 127) v"
    using plain plain_char by (auto simp: list_ex_iff)
  have slash: "CHR ''/'' \<notin> set ?h"
  proof
    assume "CHR ''/'' \<in> set ?h"
    from hex [OF this] show False by (simp add: c_digit_def in_range_def code_def)
  qed
  have parts: "split_on (CHR ''/'') v = [''tenant-neutral'', ?h]"
    using split_on_append [of "CHR ''/''" "''tenant-neutral''" ?h] split_free [OF slash] by (simp add: v_def)
  have "\<not> plain_char (CHR '':'')" by code_simp
  then have "CHR '':'' \<notin> set v" using plain by blast
  then have "\<not> contains ''://'' v" using contains_head by blast
  have other: "?h \<noteq> x" if "length x \<noteq> 64" for x using len that by blast
  note \<open>\<not> contains ''://'' v\<close>
  moreover have "?h \<noteq> []" "?h \<noteq> ''.''" "?h \<noteq> ''..''" by (rule other; simp)+
  moreover have "v = CHR ''t'' # CHR ''e'' # drop 2 v" "v \<noteq> []" "length v \<le> 512"
    using len by (simp_all add: v_def)
  moreover have "map lower_char ''tenant-neutral'' \<noteq> ''bucket''" by code_simp
  ultimately have "locator_ok ''object'' v"
    unfolding locator_ok_def parts using free by (auto split: list.splits)
  with free \<open>v \<noteq> []\<close> \<open>length v \<le> 512\<close> have "validate_locator_value ''object'' (VStr v) = Inr v"
    by (simp add: validate_locator_value_def result_simps MAX_LOCATOR_LENGTH_def)
  then show ?thesis unfolding v_def [symmetric] by (simp add: make_locator_def validate_store_version_def)
qed

text \<open>
  Claim C29 (references survive their mappings): every reference the module constructs is decoded from its
  private mapping as it was, and decoding its public mapping gives a reference that is equal to it: the
  placeholder locator a portable manifest gets is always a valid one.
\<close>

theorem reference_roundtrip:
  assumes "make_locator k v sv = Inr l" and "make_reference d n m f p l = Inr r"
  shows "from_mapping (VDict (to_mapping r)) = Inr r
    \<and> (\<exists>r'. from_semantic_mapping (VDict (to_public_mapping r)) = Inr r' \<and> reference_eq r' r)"
proof
  note again = make_reference_again [OF assms(2)]
  have loc: "dict_get (to_mapping r) ''locator'' = VDict (locator_to_mapping l)"
    using again(3) by (simp add: to_mapping_def semantic_mapping_def dict_get_def)
  have get: "dict_get (to_mapping r) x = dict_get (semantic_mapping r) x" if "x \<noteq> ''locator''" for x
    using that by (simp add: to_mapping_def semantic_mapping_def dict_get_def split: option.split)
  have sem: "dict_get (semantic_mapping r) ''content_digest'' = VStr (ar_content_digest r)"
    "dict_get (semantic_mapping r) ''size_bytes'' = VInt (ar_size_bytes r)"
    "dict_get (semantic_mapping r) ''media_type'' = VStr (ar_media_type r)"
    "dict_get (semantic_mapping r) ''record_format'' = VStr (ar_record_format r)"
    "dict_get (semantic_mapping r) ''privacy'' = VStr (privacy_value (ar_privacy r))"
    by (simp_all add: semantic_mapping_def dict_get_def)
  have keys: "list_all (List.member (''locator'' # SEMANTIC_FIELDS)) (dict_keys (to_mapping r))"
    "List.member (dict_keys (to_mapping r)) ''locator''" "same_set (dict_keys (to_public_mapping r)) SEMANTIC_FIELDS"
    by (simp_all add: to_mapping_def to_public_mapping_def semantic_mapping_def dict_keys_def SEMANTIC_FIELDS_def same_set_def)
  show "from_mapping (VDict (to_mapping r)) = Inr r"
    using keys again(1) [of l] again(3)
    by (simp add: from_mapping_def loc get sem privacy_of_value locator_roundtrip [OF assms(1)])
  obtain l' where l': "make_locator (VStr ''object'') (VStr (''tenant-neutral/'' @ drop 7 (ar_content_digest r))) VNone = Inr l'"
    using neutral_locator [OF again(2)] ..
  have "from_semantic_mapping (VDict (to_public_mapping r)) = Inr (r\<lparr>ar_locator := l'\<rparr>)"
    using keys again(1,2) l'
    by (simp add: from_semantic_mapping_def to_public_mapping_def sem privacy_of_value require_digest_def)
  moreover have "reference_eq (r\<lparr>ar_locator := l'\<rparr>) r" by (simp add: reference_eq_def semantic_mapping_def)
  ultimately show "\<exists>r'. from_semantic_mapping (VDict (to_public_mapping r)) = Inr r' \<and> reference_eq r' r" by blast
qed

definition demo_digest :: string where
  "demo_digest = ''sha256:'' @ replicate 64 (CHR ''a'')"

definition demo_locator :: ArtifactLocator where
  "demo_locator = \<lparr>al_kind = ''filesystem'', al_value = ''a/b'', al_store_version = Some ''v1''\<rparr>"

definition demo_reference :: ArtifactReference where
  "demo_reference = \<lparr>ar_content_digest = demo_digest, ar_size_bytes = 10, ar_media_type = ''text/plain'',
     ar_record_format = ''raw'', ar_privacy = SOURCE_INDEX, ar_locator = demo_locator\<rparr>"

lemma demo_reference_made:
  "make_locator (VStr ''filesystem'') (VStr ''a/b'') (VStr ''v1'') = Inr demo_locator"
  "make_reference (VStr demo_digest) (VInt 10) (VStr ''text/plain'') (VStr ''raw'') SOURCE_INDEX demo_locator
     = Inr demo_reference"
  by code_simp+

theorem reference_roundtrip_witness: "from_mapping (VDict (to_mapping demo_reference)) = Inr demo_reference"
  using reference_roundtrip [OF demo_reference_made] by blast

section \<open>Identity\<close>

lemma privacy_value_inj: "privacy_value p = privacy_value q \<longleftrightarrow> p = q"
  by (cases p; cases q) simp_all

lemma reference_eq_key: "reference_eq r r' \<longleftrightarrow> reference_key r = reference_key r'"
  by (auto simp: reference_eq_def semantic_mapping_def reference_key_def)

text \<open>
  Claim C30 (identity is content): relocating a reference or giving it another store version changes
  neither its public mapping nor how it compares; the order on references is total on content: of two
  references exactly one of less, equal and greater holds, and equal ones compare alike with all others.
\<close>

theorem identity_is_content:
  "(with_locator r l = Inr r' \<or> with_store_version r sv = Inr r' \<longrightarrow>
      reference_eq r r' \<and> to_public_mapping r' = to_public_mapping r
      \<and> reference_lt r x = reference_lt r' x \<and> reference_lt x r = reference_lt x r')
   \<and> (reference_lt r x \<longrightarrow> reference_lt x y \<longrightarrow> reference_lt r y)
   \<and> (if reference_eq r x then \<not> reference_lt r x \<and> \<not> reference_lt x r
      else reference_lt r x \<noteq> reference_lt x r)"
proof (intro conjI impI)
  assume "with_locator r l = Inr r' \<or> with_store_version r sv = Inr r'"
  then obtain l' where "make_reference (VStr (ar_content_digest r)) (VInt (ar_size_bytes r)) (VStr (ar_media_type r))
      (VStr (ar_record_format r)) (ar_privacy r) l' = Inr r'"
    by (auto simp: with_locator_def with_store_version_def result_simps)
  then have eq: "r' = r\<lparr>ar_locator := l'\<rparr>"
    by (auto simp: make_reference_def require_token_def result_simps)
  have key: "reference_key r' = reference_key r" by (simp add: eq reference_key_def)
  then show "reference_eq r r'" and "reference_lt r x = reference_lt r' x" and "reference_lt x r = reference_lt x r'"
    by (simp_all add: reference_eq_key reference_lt_def)
  show "to_public_mapping r' = to_public_mapping r" by (simp add: eq to_public_mapping_def semantic_mapping_def)
next
  assume "reference_lt r x" and "reference_lt x y"
  then show "reference_lt r y" unfolding reference_lt_def by (rule less_trans)
next
  show "if reference_eq r x then \<not> reference_lt r x \<and> \<not> reference_lt x r else reference_lt r x \<noteq> reference_lt x r"
    using less_linear [of "reference_key r" "reference_key x"]
    by (auto simp: reference_eq_key reference_lt_def dest: less_asym)
qed

theorem identity_is_content_witness:
  "reference_eq demo_reference (demo_reference\<lparr>ar_locator := demo_locator\<lparr>al_store_version := None\<rparr>\<rparr>)"
proof -
  have "with_store_version demo_reference VNone
      = Inr (demo_reference\<lparr>ar_locator := demo_locator\<lparr>al_store_version := None\<rparr>\<rparr>)" by code_simp
  then show ?thesis using identity_is_content [of demo_reference demo_locator _ VNone demo_reference demo_reference] by blast
qed

end
