(* ===== verification/Protocol_Session.thy ===== *)
theory Protocol_Session
  imports Artifact_References
begin

text \<open>
  The session state machine of the worker protocol (\<^verbatim>\<open>_protocol_session.py\<close>, with the value checks of
  \<^verbatim>\<open>_protocol_validation.py\<close>): direction, negotiation, ordering, identity and the terminal message. A
  message is a decoded dictionary; a refused message raises and keeps the session as far as the code
  keeps it.
\<close>

section \<open>Vocabulary\<close>

definition IDENTITY :: "string list" where "IDENTITY = [''job_id'', ''attempt'']"

definition COMMON :: "string list" where "COMMON = [''schema_version'', ''message_type'']"

definition HELLO_FIELDS :: "string list" where
  "HELLO_FIELDS = COMMON @ [''protocol_versions'', ''worker_generation'', ''capabilities'', ''process_nonce'']"

definition JOB_START_FIELDS :: "string list" where
  "JOB_START_FIELDS = COMMON @ IDENTITY @ [''job_kind'', ''graph_id'', ''source_generation'', ''config_generation'']"

definition PROGRESS_FIELDS :: "string list" where
  "PROGRESS_FIELDS = COMMON @ IDENTITY @
     [''completed'', ''total'', ''phase'', ''unit'', ''message_category'', ''heartbeat_at'']"

definition HEARTBEAT_FIELDS :: "string list" where
  "HEARTBEAT_FIELDS = COMMON @ IDENTITY @ [''heartbeat_at'']"

definition CANCEL_FIELDS :: "string list" where "CANCEL_FIELDS = COMMON @ IDENTITY"

definition CANCEL_ACK_FIELDS :: "string list" where "CANCEL_ACK_FIELDS = COMMON @ IDENTITY @ [''status'']"

definition TERMINAL_FIELDS :: "string list" where
  "TERMINAL_FIELDS = COMMON @ IDENTITY @
     [''job_kind'', ''graph_id'', ''status'', ''started_at'', ''finished_at'', ''phase'',
      ''files'', ''observations'', ''canonical_nodes'', ''canonical_edges'', ''warnings'',
      ''diagnostics'', ''publication_state'', ''latest_run_identity'',
      ''source_generation'', ''config_generation'', ''extractor_generation'',
      ''canonicalizer_generation'', ''retryable'', ''error_category'']"

definition message_fields :: "(string \<times> string list) list" where
  \<comment> \<open>\<^verbatim>\<open>_FIELDS\<close>\<close>
  "message_fields = [(''worker_hello'', HELLO_FIELDS), (''job_start'', JOB_START_FIELDS),
     (''progress'', PROGRESS_FIELDS), (''heartbeat'', HEARTBEAT_FIELDS), (''cancel'', CANCEL_FIELDS),
     (''cancel_ack'', CANCEL_ACK_FIELDS), (''result'', TERMINAL_FIELDS), (''error'', TERMINAL_FIELDS)]"

datatype direction = Worker | Coordinator

definition message_direction :: "string \<Rightarrow> direction" where
  \<comment> \<open>\<^verbatim>\<open>_DIRECTIONS\<close>\<close>
  "message_direction t = (if List.member [''job_start'', ''cancel''] t then Coordinator else Worker)"

definition START_IDENTITY_FIELDS :: "string list" where
  "START_IDENTITY_FIELDS = IDENTITY @ [''job_kind'', ''graph_id'', ''source_generation'', ''config_generation'']"

definition PUBLICATION_STATES :: "string list" where
  "PUBLICATION_STATES = [''not_applicable'', ''not_started'', ''prepared'', ''transaction_started'',
     ''committed'', ''rolled_back'', ''commit_unknown'']"

definition PROGRESS_PHASES :: "string list" where
  "PROGRESS_PHASES = [''waiting'', ''starting'', ''preflight'', ''discovery'', ''extraction'',
     ''canonicalization'', ''storage_prepare'', ''storage_publish'', ''verification'', ''cleanup'', ''complete'']"

definition ERROR_CATEGORIES :: "string list" where
  "ERROR_CATEGORIES = [''transient'', ''permanent'', ''cancelled'', ''superseded'', ''configuration'',
     ''authorization'', ''privacy'', ''source_unavailable'', ''source_capture'', ''storage_unavailable'',
     ''transient_database'', ''worker_launch'', ''worker_crash'', ''worker_timeout'',
     ''protocol'', ''generation_changed'', ''publication_unknown'', ''cancel_failed'', ''internal'',
     ''source_changed'', ''source_invalid'', ''artifact_missing'', ''artifact_stale'',
     ''artifact_corrupt'', ''unsupported_contract'', ''unsupported_capability'',
     ''contract_validation'', ''artifact_bounds'', ''manifest_bounds'',
     ''malformed_protocol'', ''identity_mismatch'', ''semantic_workload'']"

definition KNOWN_ARRAY_CATEGORIES :: "string list" where
  "KNOWN_ARRAY_CATEGORIES = [''cancellation_not_applied'', ''multi-source-refresh-unsupported'',
     ''psql_authority_invalid'', ''refresh-failed'', ''source-binding-refresh-unsupported'',
     ''synthetic_warning'', ''synthetic_diagnostic'']"

definition RECEIPT_WRITE_DIAGNOSTICS :: "string list" where
  "RECEIPT_WRITE_DIAGNOSTICS = [''store_unavailable'', ''permission_denied'', ''receipt_bounds'', ''write_failed'']"

section \<open>Values\<close>

definition utf8_len :: "string \<Rightarrow> nat" where
  "utf8_len s = sum_list (map (\<lambda>c. if code c < 128 then 1 else 2) s)"

fun bounded_text :: "pyval \<Rightarrow> nat \<Rightarrow> bool" where
  "bounded_text (VStr s) maximum = (1 \<le> utf8_len s \<and> utf8_len s \<le> maximum)"
| "bounded_text _ maximum = False"

fun public_protocol_text :: "pyval \<Rightarrow> nat \<Rightarrow> bool" where
  "public_protocol_text (VStr s) maximum =
     (bounded_text (VStr s) maximum \<and> CHR ''/'' \<notin> set s \<and> backslash \<notin> set s \<and> \<not> prohibited_content s)"
| "public_protocol_text _ maximum = False"

fun in_vocabulary :: "pyval \<Rightarrow> string list \<Rightarrow> bool" where
  "in_vocabulary (VStr s) vocabulary = List.member vocabulary s"
| "in_vocabulary _ vocabulary = False"

definition re_PROTOCOL_GRAPH_ID :: re where
  "re_PROTOCOL_GRAPH_ID = RSeq (RCls c_lower) (RUpto 127 (RCls (\<lambda>c. c_lower c \<or> c_digit c \<or> c = CHR ''-'')))"

fun valid_graph_id :: "pyval \<Rightarrow> bool" where
  "valid_graph_id (VStr s) = (public_protocol_text (VStr s) 128 \<and> fullmatch re_PROTOCOL_GRAPH_ID s)"
| "valid_graph_id _ = False"

fun valid_generation :: "pyval \<Rightarrow> string \<Rightarrow> bool" where
  "valid_generation (VStr s) prefix =
     (public_protocol_text (VStr s) 128 \<and> take (length prefix) s = prefix
      \<and> fullmatch re_GENERATION_DIGEST (drop (length prefix) s))"
| "valid_generation _ prefix = False"

fun valid_protocol_timestamp :: "pyval \<Rightarrow> bool" where
  "valid_protocol_timestamp (VStr s) =
     (public_protocol_text (VStr s) 64 \<and> fullmatch re_UTC_TIMESTAMP s \<and> iso_datetime_ok s)"
| "valid_protocol_timestamp _ = False"

definition parse_utc :: "string \<Rightarrow> nat \<times> nat \<times> nat \<times> nat \<times> nat \<times> nat \<times> int" where
  \<comment> \<open>the fields of the datetime, in the order in which datetimes compare\<close>
  "parse_utc s =
     (let fraction = takeWhile c_digit (drop 20 s)
      in (nat_of_digits (take 4 s), nat_of_digits (take 2 (drop 5 s)), nat_of_digits (take 2 (drop 8 s)),
          nat_of_digits (take 2 (drop 11 s)), nat_of_digits (take 2 (drop 14 s)),
          nat_of_digits (take 2 (drop 17 s)), int (nat_of_digits fraction) * 10 ^ (6 - length fraction)))"

definition timestamp_after :: "pyval \<Rightarrow> pyval \<Rightarrow> bool" where
  "timestamp_after v w = (case (v, w) of (VStr s, VStr t) \<Rightarrow> parse_utc s > parse_utc t | _ \<Rightarrow> False)"

fun py_num :: "pyval \<Rightarrow> rat option" where
  "py_num (VInt i) = Some (of_int i)"
| "py_num (VBool b) = Some (if b then 1 else 0)"
| "py_num (VFloat r) = Some r"
| "py_num _ = None"

definition py_eq :: "pyval \<Rightarrow> pyval \<Rightarrow> bool" where
  \<comment> \<open>\<^verbatim>\<open>v == w\<close> where \<open>w\<close> is a number or a string: numbers and booleans compare by value\<close>
  "py_eq v w = (case (py_num v, py_num w) of (Some a, Some b) \<Rightarrow> a = b | (None, None) \<Rightarrow> v = w | _ \<Rightarrow> False)"

section \<open>The portable snapshot extension\<close>

definition SNAPSHOT :: string where "SNAPSHOT = ''portable_snapshot''"

definition perr :: "string \<Rightarrow> 'a result" where "perr c = Inl (ProtocolError c)"

definition requireP :: "bool \<Rightarrow> string \<Rightarrow> unit result" where
  \<comment> \<open>\<^verbatim>\<open>if not ok: raise ProtocolError(code)\<close>\<close>
  "requireP ok c = guardE ok (ProtocolError c) (Inr ())"

definition artifact_ok :: "pyval \<Rightarrow> (ArtifactReference \<Rightarrow> bool) \<Rightarrow> bool" where
  "artifact_ok v p = (case from_mapping v of Inr r \<Rightarrow> p r | Inl _ \<Rightarrow> False)"

definition validate_snapshot_request :: "pyval \<Rightarrow> unit result" where
  "validate_snapshot_request v =
     (case v of
        VDict d \<Rightarrow>
          bindE (requireP (same_set (dict_keys d) [''contract_version'', ''required'', ''snapshot_manifest''])
            ''invalid_extension'') (\<lambda>_.
          bindE (requireP (dict_get d ''contract_version'' = VStr ''1.0'') ''unsupported_extension'') (\<lambda>_.
          bindE (requireP (dict_get d ''required'' = VBool True) ''invalid_extension'') (\<lambda>_.
          requireP (artifact_ok (dict_get d ''snapshot_manifest'') (\<lambda>r. True)) ''invalid_extension'')))
      | _ \<Rightarrow> perr ''invalid_extension'')"

definition RESULT_FIELDS :: "string list" where
  "RESULT_FIELDS = [''contract_version'', ''outcome'', ''receipt'', ''bundle'']"

definition CURRENT_RESULT_FIELDS :: "string list" where
  "CURRENT_RESULT_FIELDS = RESULT_FIELDS @ [''receipt_status'', ''receipt_diagnostic'']"

fun is_mapping :: "pyval \<Rightarrow> bool" where
  "is_mapping (VDict _) = True"
| "is_mapping _ = False"

definition receipt_shape_ok :: "(string \<times> pyval) list \<Rightarrow> string \<Rightarrow> bool" where
  "receipt_shape_ok d outcome =
     (let receipt = dict_get d ''receipt'';
          status = dict_get d ''receipt_status'';
          diagnostic = dict_get d ''receipt_diagnostic''
      in if same_set (dict_keys d) CURRENT_RESULT_FIELDS
         then (if status = VStr ''stored'' then diagnostic = VNone \<and> is_mapping receipt
               else if status = VStr ''unavailable''
               then outcome \<noteq> ''completed'' \<and> receipt = VNone \<and> in_vocabulary diagnostic RECEIPT_WRITE_DIAGNOSTICS
               else False)
         else is_mapping receipt)"

definition snapshot_artifacts_ok :: "(string \<times> pyval) list \<Rightarrow> string \<Rightarrow> bool" where
  "snapshot_artifacts_ok d outcome =
     (let receipt = dict_get d ''receipt''; bundle = dict_get d ''bundle''
      in (receipt = VNone \<or> artifact_ok receipt
            (\<lambda>r. ar_media_type r = ''application/x-repomap-extraction-receipt-v1+json''))
         \<and> (if outcome = ''completed''
            then is_mapping bundle \<and> artifact_ok bundle
              (\<lambda>r. ar_media_type r = ''application/x-repomap-publication-bundle-v1+jsonl'')
            else bundle = VNone))"

definition validate_snapshot_result :: "pyval \<Rightarrow> (string \<times> pyval) list \<Rightarrow> unit result" where
  "validate_snapshot_result v payload =
     (case v of
        VDict d \<Rightarrow>
          bindE (requireP (same_set (dict_keys d) RESULT_FIELDS \<or> same_set (dict_keys d) CURRENT_RESULT_FIELDS)
            ''invalid_extension'') (\<lambda>_.
          bindE (requireP (dict_get d ''contract_version'' = VStr ''1.0'') ''unsupported_extension'') (\<lambda>_.
          case dict_get d ''outcome'' of
            VStr outcome \<Rightarrow>
              bindE (requireP
                (if outcome = ''completed'' then dict_get payload ''status'' = VStr ''succeeded''
                 else if outcome = ''cancelled'' then dict_get payload ''status'' = VStr ''cancelled''
                 else dict_get payload ''status'' = VStr ''failed''
                   \<and> dict_get payload ''error_category'' = VStr outcome) ''invalid_extension'') (\<lambda>_.
              requireP (receipt_shape_ok d outcome \<and> snapshot_artifacts_ok d outcome) ''invalid_extension'')
          | _ \<Rightarrow> perr ''invalid_extension''))
      | _ \<Rightarrow> perr ''invalid_extension'')"

section \<open>The session\<close>

datatype session_state =
    AwaitingHello | AwaitingStart | SessionRunning | SessionCancelRequested | SessionCancelling | SessionTerminal

record ProtocolSession =
  ps_identity :: "(string \<times> pyval) list"
  ps_state :: session_state
  ps_negotiated_version :: "int option"
  ps_snapshot_capability :: bool
  ps_snapshot_requested :: bool
  ps_terminal :: "(string \<times> pyval) list option"
  ps_accepted_job_start :: "(string \<times> pyval) list option"
  ps_completed :: int

fun positive_int :: "pyval \<Rightarrow> bool" where
  "positive_int (VInt n) = (0 < n)"
| "positive_int _ = False"

definition new_session :: "(string \<times> pyval) list \<Rightarrow> ProtocolSession result" where
  \<comment> \<open>\<^verbatim>\<open>__post_init__\<close>\<close>
  "new_session identity =
     bindE (requireP (same_set (dict_keys identity) IDENTITY) ''invalid_identity'') (\<lambda>_.
     bindE (requireP (bounded_text (dict_get identity ''job_id'') 128
         \<and> \<not> str_and (dict_get identity ''job_id'') prohibited_content) ''invalid_identity'') (\<lambda>_.
     bindE (requireP (positive_int (dict_get identity ''attempt'')) ''invalid_identity'') (\<lambda>_.
     Inr \<lparr>ps_identity = identity, ps_state = AwaitingHello, ps_negotiated_version = None,
          ps_snapshot_capability = False, ps_snapshot_requested = False, ps_terminal = None,
          ps_accepted_job_start = None, ps_completed = 0\<rparr>)))"

definition allowed_messages :: "session_state \<Rightarrow> string list" where
  "allowed_messages st =
     (case st of
        AwaitingHello \<Rightarrow> [''worker_hello'']
      | AwaitingStart \<Rightarrow> [''job_start'']
      | SessionRunning \<Rightarrow> [''progress'', ''heartbeat'', ''cancel'', ''result'', ''error'']
      | SessionCancelRequested \<Rightarrow> [''progress'', ''heartbeat'', ''cancel_ack'', ''result'', ''error'']
      | SessionCancelling \<Rightarrow> [''progress'', ''heartbeat'', ''result'', ''error'']
      | SessionTerminal \<Rightarrow> [])"

definition is_terminal_message :: "string \<Rightarrow> bool" where
  "is_terminal_message t = List.member [''result'', ''error''] t"

definition validate_order :: "session_state \<Rightarrow> string \<Rightarrow> unit result" where
  "validate_order st t =
     (if st = SessionTerminal
      then perr (if is_terminal_message t then ''duplicate_terminal'' else ''message_after_terminal'')
      else requireP (List.member (allowed_messages st) t) ''out_of_order'')"

definition expected_fields :: "ProtocolSession \<Rightarrow> string \<Rightarrow> (string \<times> pyval) list \<Rightarrow> string list result" where
  "expected_fields s t payload =
     (let names = the (map_of message_fields t);
          extended = List.member (dict_keys payload) SNAPSHOT
      in if t = ''job_start'' \<and> extended
         then bindE (requireP (ps_snapshot_capability s) ''negotiation_failed'') (\<lambda>_. Inr (SNAPSHOT # names))
         else if is_terminal_message t
         then (if extended
               then bindE (requireP (ps_snapshot_capability s \<and> ps_snapshot_requested s) ''negotiation_failed'')
                      (\<lambda>_. Inr (SNAPSHOT # names))
               else bindE (requireP (\<not> ps_snapshot_requested s) ''negotiation_failed'') (\<lambda>_. Inr names))
         else Inr names)"

definition same_fields :: "string list \<Rightarrow> (string \<times> pyval) list \<Rightarrow> (string \<times> pyval) list \<Rightarrow> bool" where
  "same_fields names d d' = list_all (\<lambda>f. py_eq (dict_get d f) (dict_get d' f)) names"

definition hello_capabilities :: "pyval list" where
  "hello_capabilities = [VList [VStr ''refresh_graph''], VList [VStr ''refresh_graph'', VStr ''portable_snapshot_v1'']]"

definition validate_hello :: "(string \<times> pyval) list \<Rightarrow> ProtocolSession \<Rightarrow> unit result \<times> ProtocolSession" where
  \<comment> \<open>the capability is stored before the last checks\<close>
  "validate_hello payload s =
     (let versions = dict_get payload ''protocol_versions'';
          capabilities = dict_get payload ''capabilities'';
          checks = bindE (requireP (case versions of VList xs \<Rightarrow> list_all is_plain_int xs | _ \<Rightarrow> False) ''invalid_value'') (\<lambda>_.
            bindE (requireP (versions = VList [VInt 1]) ''negotiation_failed'') (\<lambda>_.
            requireP (List.member hello_capabilities capabilities) ''negotiation_failed''))
      in case checks of
           Inl e \<Rightarrow> (Inl e, s)
         | Inr _ \<Rightarrow>
             (requireP (public_protocol_text (dict_get payload ''worker_generation'') 128
                \<and> public_protocol_text (dict_get payload ''process_nonce'') 128) ''invalid_value'',
              s\<lparr>ps_snapshot_capability := (capabilities = VList [VStr ''refresh_graph'', VStr ''portable_snapshot_v1''])\<rparr>))"

definition start_ok :: "(string \<times> pyval) list \<Rightarrow> bool" where
  "start_ok payload =
     (dict_get payload ''job_kind'' = VStr ''refresh_graph'' \<and> valid_graph_id (dict_get payload ''graph_id'')
      \<and> valid_generation (dict_get payload ''source_generation'') ''sg1:''
      \<and> valid_generation (dict_get payload ''config_generation'') ''cg1:'')"

definition progress_ok :: "int \<Rightarrow> (string \<times> pyval) list \<Rightarrow> bool" where
  "progress_ok before payload =
     ((case dict_get payload ''completed'' of
         VInt completed \<Rightarrow> before \<le> completed \<and> completed \<le> max_counter DEFAULT_LIMITS
           \<and> (case dict_get payload ''total'' of
                VNone \<Rightarrow> True
              | VInt bound \<Rightarrow> completed \<le> bound \<and> bound \<le> max_counter DEFAULT_LIMITS
              | _ \<Rightarrow> False)
       | _ \<Rightarrow> False)
      \<and> in_vocabulary (dict_get payload ''phase'') PROGRESS_PHASES
      \<and> in_vocabulary (dict_get payload ''unit'') [''files'']
      \<and> in_vocabulary (dict_get payload ''message_category'') [''files-discovered'']
      \<and> valid_protocol_timestamp (dict_get payload ''heartbeat_at''))"

definition terminal_values_ok :: "(string \<times> pyval) list \<Rightarrow> bool" where
  "terminal_values_ok payload =
     (start_ok payload \<and> in_vocabulary (dict_get payload ''phase'') PROGRESS_PHASES
      \<and> valid_protocol_timestamp (dict_get payload ''started_at'')
      \<and> valid_protocol_timestamp (dict_get payload ''finished_at'')
      \<and> \<not> timestamp_after (dict_get payload ''started_at'') (dict_get payload ''finished_at'')
      \<and> list_all (\<lambda>f. public_protocol_text (dict_get payload f) 128)
           [''extractor_generation'', ''canonicalizer_generation'']
      \<and> list_all (\<lambda>f. valid_counter (dict_get payload f) DEFAULT_LIMITS)
           [''files'', ''observations'', ''canonical_nodes'', ''canonical_edges'']
      \<and> list_all (\<lambda>f. case dict_get payload f of
            VList xs \<Rightarrow> length xs \<le> 32 \<and> list_all (\<lambda>x. in_vocabulary x KNOWN_ARRAY_CATEGORIES) xs
          | _ \<Rightarrow> False) [''warnings'', ''diagnostics'']
      \<and> in_vocabulary (dict_get payload ''publication_state'') PUBLICATION_STATES
      \<and> is_bool (dict_get payload ''retryable''))"

definition outcome_ok :: "string \<Rightarrow> string \<Rightarrow> (string \<times> pyval) list \<Rightarrow> bool" where
  \<comment> \<open>status, error category and publication state fit together; \<open>published\<close> is what success reports\<close>
  "outcome_ok t published payload =
     (let publication = dict_get payload ''publication_state''; status = dict_get payload ''status''
      in if t = ''result''
         then in_vocabulary status [''succeeded'', ''cancelled''] \<and> dict_get payload ''error_category'' = VNone
           \<and> (status = VStr ''succeeded'' \<longrightarrow> publication = VStr published)
           \<and> (status = VStr ''cancelled'' \<longrightarrow> in_vocabulary publication [''not_started'', ''rolled_back''])
         else status = VStr ''failed'' \<and> in_vocabulary (dict_get payload ''error_category'') ERROR_CATEGORIES
           \<and> (if published = ''not_started'' then publication = VStr ''not_started''
              else publication \<noteq> VStr ''committed''))"

definition validate_terminal :: "string \<Rightarrow> (string \<times> pyval) list \<Rightarrow> unit result" where
  "validate_terminal t payload =
     bindE (requireP (terminal_values_ok payload) ''invalid_value'') (\<lambda>_.
     bindE (if List.member (dict_keys payload) SNAPSHOT
            then bindE (validate_snapshot_result (dict_get payload SNAPSHOT) payload) (\<lambda>_.
                 requireP (outcome_ok t ''not_started'' payload) ''invalid_value'')
            else requireP (outcome_ok t ''committed'' payload) ''invalid_value'') (\<lambda>_.
     requireP (if dict_get payload ''publication_state'' = VStr ''committed''
               then public_protocol_text (dict_get payload ''latest_run_identity'') 128
               else dict_get payload ''latest_run_identity'' = VNone) ''invalid_value''))"

definition validate_values ::
  "string \<Rightarrow> (string \<times> pyval) list \<Rightarrow> ProtocolSession \<Rightarrow> unit result \<times> ProtocolSession" where
  "validate_values t payload s =
     (if t = ''worker_hello'' then validate_hello payload s
      else (if t = ''job_start''
            then bindE (requireP (start_ok payload) ''invalid_value'') (\<lambda>_.
                 if List.member (dict_keys payload) SNAPSHOT
                 then validate_snapshot_request (dict_get payload SNAPSHOT) else Inr ())
            else if t = ''progress'' then requireP (progress_ok (ps_completed s) payload) ''invalid_value''
            else if t = ''heartbeat''
            then requireP (valid_protocol_timestamp (dict_get payload ''heartbeat_at'')) ''invalid_value''
            else if t = ''cancel_ack''
            then requireP (in_vocabulary (dict_get payload ''status'') [''accepted'', ''deferred'', ''already-complete''])
                   ''invalid_value''
            else if is_terminal_message t then validate_terminal t payload
            else Inr (), s))"

definition advance :: "string \<Rightarrow> (string \<times> pyval) list \<Rightarrow> ProtocolSession \<Rightarrow> ProtocolSession" where
  "advance t payload s =
     (if t = ''worker_hello'' then s\<lparr>ps_negotiated_version := Some 1, ps_state := AwaitingStart\<rparr>
      else if t = ''job_start''
      then s\<lparr>ps_accepted_job_start := Some (map (\<lambda>f. (f, dict_get payload f)) START_IDENTITY_FIELDS),
             ps_snapshot_requested := List.member (dict_keys payload) SNAPSHOT, ps_state := SessionRunning\<rparr>
      else if t = ''progress''
      then s\<lparr>ps_completed := (case dict_get payload ''completed'' of VInt n \<Rightarrow> n | _ \<Rightarrow> ps_completed s)\<rparr>
      else if t = ''cancel'' then s\<lparr>ps_state := SessionCancelRequested\<rparr>
      else if t = ''cancel_ack'' then s\<lparr>ps_state := SessionCancelling\<rparr>
      else if is_terminal_message t then s\<lparr>ps_terminal := Some payload, ps_state := SessionTerminal\<rparr>
      else s)"

definition check_message ::
  "ProtocolSession \<Rightarrow> direction \<Rightarrow> (string \<times> pyval) list \<Rightarrow> string result" where
  \<comment> \<open>\<^verbatim>\<open>_accept\<close> up to the value checks; returns the message type\<close>
  "check_message s dir payload =
     bindE (requireP (py_eq_int (dict_get payload ''schema_version'') 1) ''unsupported_version'') (\<lambda>_.
     bindE (requireP (dict_get payload ''message_type'' \<noteq> VStr ''worker_exit'') ''internal_message'') (\<lambda>_.
     case dict_get payload ''message_type'' of
       VStr t \<Rightarrow>
         bindE (requireP (List.member (map fst message_fields) t) ''unknown_type'') (\<lambda>_.
         bindE (requireP (message_direction t = dir) ''wrong_direction'') (\<lambda>_.
         bindE (expected_fields s t payload) (\<lambda>names.
         bindE (requireP (same_set (dict_keys payload) names) ''invalid_fields'') (\<lambda>_.
         bindE (requireP (t = ''worker_hello'' \<or> same_fields IDENTITY payload (ps_identity s)) ''identity_mismatch'') (\<lambda>_.
         bindE (validate_order (ps_state s) t) (\<lambda>_.
         bindE (requireP (is_terminal_message t \<longrightarrow> (case ps_accepted_job_start s of
                    None \<Rightarrow> False | Some start \<Rightarrow> same_fields START_IDENTITY_FIELDS payload start))
                  ''identity_mismatch'') (\<lambda>_.
         Inr t)))))))
     | _ \<Rightarrow> perr ''unknown_type''))"

definition accept_message ::
  "ProtocolSession \<Rightarrow> direction \<Rightarrow> (string \<times> pyval) list \<Rightarrow> (string \<times> pyval) list result \<times> ProtocolSession" where
  "accept_message s dir payload =
     (case check_message s dir payload of
        Inl e \<Rightarrow> (Inl e, s)
      | Inr t \<Rightarrow>
          (case validate_values t payload s of
             (Inl e, s') \<Rightarrow> (Inl e, s')
           | (Inr _, s') \<Rightarrow> (Inr payload, advance t payload s')))"

end
