(* ===== verification/Json_Text.thy ===== *)
theory Json_Text
  imports Json
begin

text \<open>
  JSON text as \<^verbatim>\<open>json.dumps(.., ensure_ascii=True, separators=(",", ":"))\<close> writes it and \<^verbatim>\<open>json.loads\<close> reads
  it. Text is a list of code points, so that escapes and surrogate pairs are the real ones. The parser
  is a total function: each of its calls is on a shorter rest of the input, or on the same one at a
  lower level; the length guards in it always hold (\<open>parse_shorter\<close>).

  A float is kept as its literal. Numbers beyond \<^verbatim>\<open>int\<close>'s limit of 4300 digits and the constants \<^verbatim>\<open>NaN\<close>
  and \<^verbatim>\<open>Infinity\<close> are errors, as they are for the callers modelled here.
\<close>

type_synonym utext = "nat list"

datatype jval =
    NNull
  | NBool bool
  | NInt int
  | NFloat utext
  | NStr utext
  | NArr "jval list"
  | NObj "(utext \<times> jval) list"

definition asc :: "string \<Rightarrow> utext" where
  "asc s = map of_char s"

section \<open>Writing\<close>

definition hex_code :: "nat \<Rightarrow> nat" where
  "hex_code n = (if n < 10 then 48 + n else 87 + n)"

definition u_digits :: "nat \<Rightarrow> utext" where
  "u_digits n = [hex_code (n div 4096 mod 16), hex_code (n div 256 mod 16),
     hex_code (n div 16 mod 16), hex_code (n mod 16)]"

definition u_escape :: "nat \<Rightarrow> utext" where
  "u_escape n = 92 # 117 # u_digits n"

definition escape_code :: "nat \<Rightarrow> utext" where
  "escape_code n =
     (if n = 34 then [92, 34] else if n = 92 then [92, 92] else if n = 10 then [92, 110]
      else if n = 13 then [92, 114] else if n = 9 then [92, 116] else if n = 12 then [92, 102]
      else if n = 8 then [92, 98] else if 32 \<le> n \<and> n \<le> 126 then [n]
      else if n < 65536 then u_escape n
      else u_escape (55296 + (n - 65536) div 1024) @ u_escape (56320 + (n - 65536) mod 1024))"

definition quoted :: "utext \<Rightarrow> utext" where
  "quoted s = 34 # concat (map escape_code s) @ [34]"

fun dumps :: "jval \<Rightarrow> utext" and dumps_items :: "jval list \<Rightarrow> utext"
  and dumps_members :: "(utext \<times> jval) list \<Rightarrow> utext" where
  "dumps NNull = asc ''null''"
| "dumps (NBool b) = (if b then asc ''true'' else asc ''false'')"
| "dumps (NInt i) = asc (int_text i)"
| "dumps (NFloat t) = t"
| "dumps (NStr s) = quoted s"
| "dumps (NArr xs) = 91 # dumps_items xs @ [93]"
| "dumps (NObj kvs) = 123 # dumps_members kvs @ [125]"
| "dumps_items [] = []"
| "dumps_items (x # xs) = dumps x @ (if xs = [] then [] else 44 # dumps_items xs)"
| "dumps_members [] = []"
| "dumps_members ((k, x) # kvs) =
     quoted k @ 58 # dumps x @ (if kvs = [] then [] else 44 # dumps_members kvs)"

fun canonical :: "jval \<Rightarrow> jval" where
  \<comment> \<open>\<^verbatim>\<open>sort_keys=True\<close>\<close>
  "canonical (NArr xs) = NArr (map canonical xs)"
| "canonical (NObj kvs) = NObj (sort_key fst (map (\<lambda>(k, x). (k, canonical x)) kvs))"
| "canonical v = v"

section \<open>Reading\<close>

definition ws :: "nat \<Rightarrow> bool" where
  "ws c = (c = 32 \<or> c = 9 \<or> c = 10 \<or> c = 13)"

definition skip_ws :: "utext \<Rightarrow> utext" where
  "skip_ws = dropWhile ws"

definition hex_value :: "nat \<Rightarrow> nat option" where
  "hex_value c =
     (if 48 \<le> c \<and> c \<le> 57 then Some (c - 48) else if 97 \<le> c \<and> c \<le> 102 then Some (c - 87)
      else if 65 \<le> c \<and> c \<le> 70 then Some (c - 55) else None)"

fun hex4 :: "utext \<Rightarrow> (nat \<times> utext) option" where
  "hex4 (a # b # c # d # s) =
     (case (hex_value a, hex_value b, hex_value c, hex_value d) of
        (Some i, Some j, Some k, Some l) \<Rightarrow> Some (4096 * i + 256 * j + 16 * k + l, s)
      | _ \<Rightarrow> None)"
| "hex4 _ = None"

definition high_surrogate :: "nat \<Rightarrow> bool" where "high_surrogate n = (55296 \<le> n \<and> n \<le> 56319)"
definition low_surrogate :: "nat \<Rightarrow> bool" where "low_surrogate n = (56320 \<le> n \<and> n \<le> 57343)"

definition low_escape :: "utext \<Rightarrow> (nat \<times> utext) option option" where
  \<comment> \<open>what follows a high surrogate: \<open>None\<close> if it is not an escape, \<open>Some None\<close> if it is a malformed one\<close>
  "low_escape s = (case s of b # u # s' \<Rightarrow> if b = 92 \<and> u = 117 then Some (hex4 s') else None | _ \<Rightarrow> None)"

definition read_u :: "utext \<Rightarrow> (nat \<times> utext) option" where
  \<comment> \<open>after \<^verbatim>\<open>\u\<close>\<close>
  "read_u s =
     (case hex4 s of
        None \<Rightarrow> None
      | Some (n, s1) \<Rightarrow>
          if high_surrogate n
          then (case low_escape s1 of
                  None \<Rightarrow> Some (n, s1)
                | Some None \<Rightarrow> None
                | Some (Some (m, s2)) \<Rightarrow>
                    if low_surrogate m then Some (65536 + 1024 * (n - 55296) + (m - 56320), s2)
                    else Some (n, s1))
          else Some (n, s1))"

definition read_escape :: "utext \<Rightarrow> (nat \<times> utext) option" where
  \<comment> \<open>after the backslash\<close>
  "read_escape s =
     (case s of
        [] \<Rightarrow> None
      | c # s' \<Rightarrow>
          if c = 117 then read_u s'
          else if c = 34 \<or> c = 92 \<or> c = 47 then Some (c, s')
          else if c = 98 then Some (8, s') else if c = 102 then Some (12, s')
          else if c = 110 then Some (10, s') else if c = 114 then Some (13, s')
          else if c = 116 then Some (9, s') else None)"

function read_string :: "utext \<Rightarrow> (utext \<times> utext) option" where
  \<comment> \<open>after the opening quote\<close>
  "read_string s =
     (case s of
        [] \<Rightarrow> None
      | c # s' \<Rightarrow>
          if c = 34 then Some ([], s')
          else if c = 92
          then (case read_escape s' of
                  None \<Rightarrow> None
                | Some (n, s2) \<Rightarrow>
                    if length s2 < length s
                    then map_option (\<lambda>(t, r). (n # t, r)) (read_string s2) else None)
          else if c < 32 then None
          else map_option (\<lambda>(t, r). (c # t, r)) (read_string s'))"
  by pat_completeness auto
termination by (relation "measure length") auto

declare read_string.simps [simp del]

definition digit :: "nat \<Rightarrow> bool" where "digit c = (48 \<le> c \<and> c \<le> 57)"

definition digits_value :: "utext \<Rightarrow> int" where
  "digits_value ds = foldl (\<lambda>n d. 10 * n + (int d - 48)) 0 ds"

definition read_digits :: "utext \<Rightarrow> (utext \<times> utext) option" where
  \<comment> \<open>\<^verbatim>\<open>0|[1-9]\d*\<close>\<close>
  "read_digits s =
     (case s of
        [] \<Rightarrow> None
      | c # s' \<Rightarrow> if c = 48 then Some ([48], s')
                else if digit c then Some (takeWhile digit s, dropWhile digit s) else None)"

definition read_fraction :: "utext \<Rightarrow> utext \<times> utext" where
  \<comment> \<open>\<^verbatim>\<open>(\.\d+)?\<close>\<close>
  "read_fraction s =
     (case s of
        c # s' \<Rightarrow> if c = 46 \<and> takeWhile digit s' \<noteq> [] then (46 # takeWhile digit s', dropWhile digit s') else ([], s)
      | [] \<Rightarrow> ([], s))"

definition read_exponent :: "utext \<Rightarrow> utext \<times> utext" where
  \<comment> \<open>\<^verbatim>\<open>([eE][-+]?\d+)?\<close>\<close>
  "read_exponent s =
     (case s of
        c # s' \<Rightarrow>
          let sign = (case s' of d # _ \<Rightarrow> if d = 43 \<or> d = 45 then [d] else [] | [] \<Rightarrow> []);
              r = drop (length sign) s'
          in if (c = 101 \<or> c = 69) \<and> takeWhile digit r \<noteq> []
             then (c # sign @ takeWhile digit r, dropWhile digit r) else ([], s)
      | [] \<Rightarrow> ([], s))"

definition read_number :: "utext \<Rightarrow> (jval \<times> utext) option" where
  "read_number s =
     (let neg = (case s of c # _ \<Rightarrow> c = 45 | [] \<Rightarrow> False)
      in case read_digits (if neg then tl s else s) of
           None \<Rightarrow> None
         | Some (ds, s1) \<Rightarrow>
             (case read_fraction s1 of (fr, s2) \<Rightarrow>
             (case read_exponent s2 of (ex, s3) \<Rightarrow>
                if fr = [] \<and> ex = []
                then (if length ds \<le> 4300 then Some (NInt (if neg then - digits_value ds else digits_value ds), s1)
                      else None)
                else Some (NFloat ((if neg then [45] else []) @ ds @ fr @ ex), s3))))"

definition read_literal :: "utext \<Rightarrow> (jval \<times> utext) option" where
  "read_literal s =
     (if take 4 s = asc ''null'' then Some (NNull, drop 4 s)
      else if take 4 s = asc ''true'' then Some (NBool True, drop 4 s)
      else if take 5 s = asc ''false'' then Some (NBool False, drop 5 s)
      else read_number s)"

fun opens :: "nat \<Rightarrow> utext \<Rightarrow> bool" where
  "opens c [] = False"
| "opens c (d # _) = (d = c)"

function parse_value :: "utext \<Rightarrow> (jval \<times> utext) option"
  and parse_items :: "utext \<Rightarrow> (jval list \<times> utext) option"
  and parse_members :: "utext \<Rightarrow> ((utext \<times> jval) list \<times> utext) option" where
  "parse_value s =
     (case s of
        [] \<Rightarrow> None
      | c # s' \<Rightarrow>
          if c = 34 then map_option (\<lambda>(t, r). (NStr t, r)) (read_string s')
          else if c = 91
          then (let s1 = skip_ws s'
                in if opens 93 s1 then Some (NArr [], tl s1)
                   else if length s1 < length s
                   then map_option (\<lambda>(xs, r). (NArr xs, r)) (parse_items s1) else None)
          else if c = 123
          then (let s1 = skip_ws s'
                in if opens 125 s1 then Some (NObj [], tl s1)
                   else if length s1 < length s
                   then map_option (\<lambda>(kvs, r). (NObj kvs, r)) (parse_members s1) else None)
          else read_literal s)"
| "parse_items s =
     (case parse_value s of
        None \<Rightarrow> None
      | Some (x, r) \<Rightarrow>
          let r1 = skip_ws r
          in if opens 93 r1 then Some ([x], tl r1)
             else if opens 44 r1
             then (let r2 = skip_ws (tl r1)
                   in if length r2 < length s
                      then map_option (\<lambda>(xs, r3). (x # xs, r3)) (parse_items r2) else None)
             else None)"
| "parse_members s =
     (if \<not> opens 34 s then None
      else case read_string (tl s) of
        None \<Rightarrow> None
      | Some (k, r0) \<Rightarrow>
          let r1 = skip_ws r0
          in if \<not> opens 58 r1 then None
             else let r2 = skip_ws (tl r1)
             in if length r2 < length s
                then (case parse_value r2 of
                        None \<Rightarrow> None
                      | Some (x, r) \<Rightarrow>
                          let r3 = skip_ws r
                          in if opens 125 r3 then Some ([(k, x)], tl r3)
                             else if opens 44 r3
                             then (let r4 = skip_ws (tl r3)
                                   in if length r4 < length s
                                      then map_option (\<lambda>(kvs, r5). ((k, x) # kvs, r5)) (parse_members r4)
                                      else None)
                             else None)
                else None)"
  by pat_completeness auto
termination
  by (relation "measure (\<lambda>x. case x of Inl s \<Rightarrow> 2 * length s | Inr (Inl s) \<Rightarrow> Suc (2 * length s)
      | Inr (Inr s) \<Rightarrow> Suc (2 * length s))") auto

declare parse_value.simps [simp del] parse_items.simps [simp del] parse_members.simps [simp del]

definition loads :: "utext \<Rightarrow> jval option" where
  "loads s = (case parse_value (skip_ws s) of
     None \<Rightarrow> None | Some (v, r) \<Rightarrow> if skip_ws r = [] then Some v else None)"

end
