(* ===== verification/Json_Roundtrip.thy ===== *)
theory Json_Roundtrip
  imports Json_Text
begin

text \<open>
  Reading what was written: the parser inverts the printer on every value without floats whose strings
  are Unicode scalar values, and the printer writes printable ASCII only. The guards in the parser
  never fail.
\<close>

section \<open>Rests are shorter\<close>

lemma skip_ws_length: "length (skip_ws s) \<le> length s"
  by (simp add: skip_ws_def length_dropWhile_le)

lemma hex4_shorter: "hex4 s = Some (n, r) \<Longrightarrow> length r < length s"
  by (cases s rule: hex4.cases) (auto split: option.splits)

lemma read_escape_shorter: "read_escape s = Some (n, r) \<Longrightarrow> length r < length s"
  by (auto simp: read_escape_def read_u_def low_escape_def split: list.splits if_splits option.splits
      dest!: hex4_shorter)

lemma read_string_shorter: "read_string s = Some (t, r) \<Longrightarrow> length r < length s"
proof (induction "length s" arbitrary: s t r rule: less_induct)
  case less
  show ?case
  proof (cases s)
    case Nil
    with less.prems show ?thesis by (simp add: read_string.simps)
  next
    case (Cons c s')
    have "r = s' \<or> (\<exists>s2 t'. read_string s2 = Some (t', r) \<and> length s2 < length s)"
      using less.prems unfolding Cons
      by (subst (asm) read_string.simps) (fastforce split: option.splits if_splits)
    then show ?thesis using less.hyps Cons by fastforce
  qed
qed

lemma dropWhile_shorter: "takeWhile p s \<noteq> [] \<Longrightarrow> length (dropWhile p s) < length s"
  by (cases s) (auto simp: length_dropWhile_le le_imp_less_Suc split: if_splits)

lemma read_number_shorter: "read_number s = Some (v, r) \<Longrightarrow> length r < length s"
proof -
  have frac: "length (snd (read_fraction s)) \<le> length s" for s
    by (auto simp: read_fraction_def split: list.splits intro: le_SucI length_dropWhile_le)
  have expo: "length (snd (read_exponent s)) \<le> length s" for s
    by (auto simp: read_exponent_def Let_def split: list.splits
        intro!: le_SucI order_trans [OF length_dropWhile_le])
  have digs: "read_digits s = Some (ds, r) \<Longrightarrow> length r < length s" for s ds r
    by (auto simp: read_digits_def le_imp_less_Suc length_dropWhile_le split: list.splits if_splits)
  assume run: "read_number s = Some (v, r)"
  define neg where "neg = (case s of c # _ \<Rightarrow> c = 45 | [] \<Rightarrow> False)"
  obtain ds s1 where d: "read_digits (if neg then tl s else s) = Some (ds, s1)"
    and r: "r = s1 \<or> r = snd (read_exponent (snd (read_fraction s1)))"
    using run unfolding read_number_def Let_def neg_def [symmetric]
    by (cases "read_digits (if neg then tl s else s)") (auto split: prod.splits if_splits)
  have "length r \<le> length s1" using r order_trans [OF expo frac] by auto
  also have "length s1 < length (if neg then tl s else s)" using digs [OF d] .
  also have "length (if neg then tl s else s) \<le> length s" by simp
  finally show ?thesis .
qed

lemma read_literal_shorter: "read_literal s = Some (v, r) \<Longrightarrow> length r < length s"
  by (cases s) (auto simp: read_literal_def asc_def split: if_splits dest!: read_number_shorter)

lemma opens_tl: "opens c s \<Longrightarrow> length (tl s) < length s"
  by (cases s) auto

lemma parse_value_cases:
  assumes "parse_value s = Some (v, r)"
  obtains "length r < length s"
    | xs s1 where "parse_items s1 = Some (xs, r)" and "length s1 < length s"
    | kvs s1 where "parse_members s1 = Some (kvs, r)" and "length s1 < length s"
proof (cases s)
  case Nil
  with assms show thesis by (simp add: parse_value.simps)
next
  case (Cons c s')
  have tl: "opens c (skip_ws s') \<Longrightarrow> length (tl (skip_ws s')) < length s" for c
    using opens_tl skip_ws_length [of s'] Cons by fastforce
  show thesis
    using assms that tl unfolding Cons
    by (subst (asm) parse_value.simps) (auto simp: Let_def split: if_splits dest: read_string_shorter read_literal_shorter)
qed

lemma skip_tl_length: "opens c (skip_ws s) \<Longrightarrow> length (tl (skip_ws s)) < length s"
  using opens_tl [of c "skip_ws s"] skip_ws_length [of s] by simp

lemma parse_shorter:
  "(\<forall>v r. parse_value s = Some (v, r) \<longrightarrow> length r < length s)
   \<and> (\<forall>xs r. parse_items s = Some (xs, r) \<longrightarrow> length r < length s)
   \<and> (\<forall>kvs r. parse_members s = Some (kvs, r) \<longrightarrow> length r < length s)"
proof (induction "length s" arbitrary: s rule: less_induct)
  case less
  have val: "length r < length s" if p: "parse_value s = Some (v, r)" for v r
    using p by (rule parse_value_cases) (use less.hyps in fastforce)+
  have items: "length r < length s" if p: "parse_items s = Some (xs, r)" for xs r
  proof -
    from p obtain x r0 where x: "parse_value s = Some (x, r0)"
      and or: "opens 93 (skip_ws r0) \<and> r = tl (skip_ws r0) \<or>
        (\<exists>ys. length (skip_ws (tl (skip_ws r0))) < length s \<and> parse_items (skip_ws (tl (skip_ws r0))) = Some (ys, r))"
      by (subst (asm) parse_items.simps) (auto simp: Let_def split: option.splits if_splits)
    from or show ?thesis using less.hyps val [OF x] skip_tl_length [of 93 r0] by fastforce
  qed
  have "length r < length s" if p: "parse_members s = Some (kvs, r)" for kvs r
  proof -
    from p obtain x s1 r0 where l: "length s1 < length s" and x: "parse_value s1 = Some (x, r0)"
      and or: "opens 125 (skip_ws r0) \<and> r = tl (skip_ws r0) \<or>
        (\<exists>ys. length (skip_ws (tl (skip_ws r0))) < length s \<and> parse_members (skip_ws (tl (skip_ws r0))) = Some (ys, r))"
      by (subst (asm) parse_members.simps) (auto simp: Let_def split: option.splits if_splits)
    have "length r0 < length s1" using less.hyps [OF l] x by blast
    with or show ?thesis using less.hyps l skip_tl_length [of 125 r0] by fastforce
  qed
  with val items show ?case by blast
qed

section \<open>Strings\<close>

definition scalar :: "nat \<Rightarrow> bool" where
  \<comment> \<open>a code point UTF-8 can encode\<close>
  "scalar n = (n < 1114112 \<and> \<not> high_surrogate n \<and> \<not> low_surrogate n)"

lemma hex_value_code: "n < 16 \<Longrightarrow> hex_value (hex_code n) = Some n"
  by (simp add: hex_value_def hex_code_def)

lemma hex4_code:
  assumes "n < 65536"
  shows "hex4 (u_digits n @ s) = Some (n, s)"
proof -
  have split: "16 * (m div 16) + m mod 16 = m" for m :: nat by simp
  have d: "n div 256 = n div 16 div 16" "n div 4096 = n div 16 div 16 div 16"
    by (simp_all add: div_mult2_eq [symmetric])
  have top: "n div 4096 mod 16 = n div 4096" "n div 4096 < 16" using assms by simp_all
  have "4096 * (n div 4096) + 256 * (n div 256 mod 16) + 16 * (n div 16 mod 16) + n mod 16 = n"
    unfolding d using split [of n] split [of "n div 16"] split [of "n div 16 div 16"] by linarith
  then show ?thesis unfolding u_digits_def top(1) using top(2) by (simp add: hex_value_code)
qed

lemma read_u_code:
  assumes "n < 65536" and "\<not> high_surrogate n"
  shows "read_escape (117 # u_digits n @ s) = Some (n, s)"
  using assms by (simp add: read_escape_def read_u_def hex4_code)

lemma read_u_pair:
  assumes "65536 \<le> n" and "n < 1114112"
  shows "read_escape (117 # u_digits (55296 + (n - 65536) div 1024) @ u_escape (56320 + (n - 65536) mod 1024) @ s)
    = Some (n, s)"
proof -
  have hi: "55296 + (n - 65536) div 1024 < 65536" "high_surrogate (55296 + (n - 65536) div 1024)"
    using assms by (simp_all add: high_surrogate_def)
  have lo: "56320 + (n - 65536) mod 1024 < 65536" "low_surrogate (56320 + (n - 65536) mod 1024)"
    using mod_less_divisor [of 1024 "n - 65536"] by (simp_all add: low_surrogate_def del: mod_less_divisor)
  have "1024 * ((n - 65536) div 1024) + (n - 65536) mod 1024 = n - 65536" by simp
  then show ?thesis
    using hi lo assms
    by (simp add: u_escape_def read_escape_def read_u_def low_escape_def hex4_code)
qed

lemma read_string_step:
  assumes "read_escape s' = Some (n, s2)"
  shows "read_string (92 # s') = map_option (\<lambda>(t, r). (n # t, r)) (read_string s2)"
  using read_escape_shorter [OF assms] assms by (subst read_string.simps) simp

lemma read_string_escape:
  assumes "scalar n"
  shows "read_string (escape_code n @ s) = map_option (\<lambda>(t, r). (n # t, r)) (read_string s)"
proof -
  have plain: ?thesis if "32 \<le> n" "n \<le> 126" "n \<noteq> 34" "n \<noteq> 92"
    using that by (subst read_string.simps) (simp add: escape_code_def)
  have short: ?thesis if "escape_code n = [92, c]" "read_escape (c # s) = Some (n, s)" for c
    using read_string_step [OF that(2)] that(1) by simp
  have named: "read_escape (34 # s) = Some (34, s)" "read_escape (92 # s) = Some (92, s)"
    "read_escape (110 # s) = Some (10, s)" "read_escape (114 # s) = Some (13, s)"
    "read_escape (116 # s) = Some (9, s)" "read_escape (102 # s) = Some (12, s)" "read_escape (98 # s) = Some (8, s)"
    by (simp_all add: read_escape_def)
  show ?thesis
  proof (cases "n \<in> {34, 92, 10, 13, 9, 12, 8}")
    case True
    then show ?thesis using short named by (auto simp: escape_code_def)
  next
    case special: False
    show ?thesis
    proof (cases "32 \<le> n \<and> n \<le> 126")
      case True
      with special plain show ?thesis by simp
    next
      case False
      show ?thesis
      proof (cases "n < 65536")
        case True
        have "escape_code n = 92 # 117 # u_digits n" using special False True by (auto simp: escape_code_def u_escape_def)
        moreover have "read_escape (117 # u_digits n @ s) = Some (n, s)"
          using True assms by (intro read_u_code) (simp_all add: scalar_def)
        ultimately show ?thesis using read_string_step by simp
      next
        case big: False
        let ?h = "u_digits (55296 + (n - 65536) div 1024)" and ?l = "u_escape (56320 + (n - 65536) mod 1024)"
        have "escape_code n = 92 # 117 # ?h @ ?l" using big by (simp add: escape_code_def u_escape_def)
        moreover have "read_escape (117 # ?h @ ?l @ s) = Some (n, s)"
          using big assms by (intro read_u_pair) (simp_all add: scalar_def)
        ultimately show ?thesis using read_string_step by simp
      qed
    qed
  qed
qed

lemma read_quoted: "\<forall>n \<in> set t. scalar n \<Longrightarrow> read_string (concat (map escape_code t) @ 34 # s) = Some (t, s)"
proof (induction t)
  case Nil
  show ?case by (simp add: read_string.simps)
next
  case (Cons n t)
  then show ?case by (simp add: read_string_escape)
qed

section \<open>Numbers\<close>

lemma nat_digits: "asc (nat_text n) = (if n < 10 then [48 + n] else asc (nat_text (n div 10)) @ [48 + n mod 10])"
proof -
  have c: "of_char (char_of (48 + m) :: char) = 48 + m" if "m < 10" for m :: nat
    using that by (simp add: of_char_of)
  show ?thesis
    by (subst nat_text.simps) (simp add: asc_def c del: of_char_of)
qed

lemma nat_digits_facts:
  "list_all digit (asc (nat_text n)) \<and> digits_value (asc (nat_text n)) = int n \<and>
   (\<exists>c cs. asc (nat_text n) = c # cs \<and> (c = 48 \<longrightarrow> cs = []))"
proof (induction n rule: nat_text.induct)
  case (1 n)
  show ?case
  proof (cases "n < 10")
    case True
    then show ?thesis by (simp add: nat_digits [of n] digit_def digits_value_def)
  next
    case False
    note ih = 1 [OF False]
    have e: "asc (nat_text n) = asc (nat_text (n div 10)) @ [48 + n mod 10]" using False nat_digits [of n] by simp
    have "digits_value (asc (nat_text n)) = 10 * int (n div 10) + int (n mod 10)"
      unfolding e using ih by (simp add: digits_value_def)
    also have "\<dots> = int n" by (simp flip: of_nat_mult of_nat_add add: zmod_int zdiv_int)
    finally have v: "digits_value (asc (nat_text n)) = int n" .
    have "digit (48 + n mod 10)" using mod_less_divisor [of 10 n] by (simp add: digit_def del: mod_less_divisor)
    moreover have "\<exists>c cs. asc (nat_text n) = c # cs \<and> (c = 48 \<longrightarrow> cs = [])"
    proof -
      obtain c cs where c: "asc (nat_text (n div 10)) = c # cs" "c = 48 \<longrightarrow> cs = []" using ih by blast
      have "c \<noteq> 48"
      proof
        assume "c = 48"
        with c have "digits_value (asc (nat_text (n div 10))) = 0" by (simp add: digits_value_def)
        with ih have "n div 10 = 0" by simp
        with False show False by simp
      qed
      with c e show ?thesis by simp
    qed
    ultimately show ?thesis using v ih e by simp
  qed
qed

definition stops :: "utext \<Rightarrow> bool" where
  \<comment> \<open>nothing a number could continue with\<close>
  "stops s = (case s of [] \<Rightarrow> True | c # _ \<Rightarrow> \<not> digit c \<and> c \<notin> {46, 101, 69, 43, 45})"

lemma read_digits_nat:
  assumes "stops s"
  shows "read_digits (asc (nat_text n) @ s) = Some (asc (nat_text n), s)"
proof -
  obtain c cs where c: "asc (nat_text n) = c # cs" "c = 48 \<longrightarrow> cs = []" and d: "list_all digit (asc (nat_text n))"
    using nat_digits_facts [of n] by blast
  have s: "takeWhile digit s = []" "dropWhile digit s = s" using assms by (cases s; simp add: stops_def)+
  have "\<forall>x \<in> set (asc (nat_text n)). digit x" using d by (simp add: list_all_iff)
  then have "takeWhile digit (asc (nat_text n) @ s) = asc (nat_text n)" "dropWhile digit (asc (nat_text n) @ s) = s"
    using s by (simp_all add: takeWhile_append2 dropWhile_append2)
  then show ?thesis using c d by (auto simp: read_digits_def)
qed

lemma read_number_int:
  assumes "stops s" and "length (asc (nat_text (nat (abs i)))) \<le> 4300"
  shows "read_number (asc (int_text i) @ s) = Some (NInt i, s)"
proof -
  have f: "read_fraction s = ([], s)" "read_exponent s = ([], s)"
    using assms(1) by (cases s; simp add: stops_def read_fraction_def read_exponent_def Let_def)+
  obtain c cs where c: "asc (nat_text (nat (abs i))) = c # cs" "digit c" and
    v: "digits_value (asc (nat_text (nat (abs i)))) = int (nat (abs i))"
    using nat_digits_facts [of "nat (abs i)"] by auto
  show ?thesis
  proof (cases "i < 0")
    case True
    then have "asc (int_text i) = 45 # asc (nat_text (nat (abs i)))" by (simp add: int_text_def asc_def)
    with True v f assms(2) show ?thesis
      by (simp add: read_number_def read_digits_nat [OF assms(1)])
  next
    case False
    then have e: "asc (int_text i) = asc (nat_text (nat (abs i)))" by (simp add: int_text_def)
    have "c \<noteq> 45" using c(2) by (auto simp: digit_def)
    with c(1) have "(case asc (nat_text (nat (abs i))) @ s of [] \<Rightarrow> False | c # _ \<Rightarrow> c = 45) = False" by simp
    with False v f assms(2) show ?thesis
      by (simp add: e read_number_def read_digits_nat [OF assms(1)])
  qed
qed

lemma span_stops:
  assumes "stops s"
  shows "takeWhile digit (t @ s) = takeWhile digit t" "dropWhile digit (t @ s) = dropWhile digit t @ s"
  using assms by (induction t; cases s; simp add: stops_def)+

lemma read_digits_stops:
  "stops s \<Longrightarrow> read_digits (t @ s) = map_option (\<lambda>(ds, r). (ds, r @ s)) (read_digits t)"
  using span_stops [of s t] by (cases t; cases s) (auto simp: read_digits_def stops_def digit_def)

lemma read_fraction_stops: "stops s \<Longrightarrow> read_fraction (t @ s) = (case read_fraction t of (fr, r) \<Rightarrow> (fr, r @ s))"
  using span_stops [of s "tl t"] by (cases t; cases s) (auto simp: read_fraction_def stops_def)

lemma read_exponent_stops:
  assumes "stops s"
  shows "read_exponent (t @ s) = (case read_exponent t of (ex, r) \<Rightarrow> (ex, r @ s))"
proof (cases t)
  case Nil
  then show ?thesis using assms by (cases s) (simp_all add: read_exponent_def stops_def Let_def)
next
  case (Cons c u)
  define sign where "sign = (case u of d # _ \<Rightarrow> if d = 43 \<or> d = 45 then [d] else [] | [] \<Rightarrow> [])"
  have "(case u @ s of d # _ \<Rightarrow> if d = 43 \<or> d = 45 then [d] else [] | [] \<Rightarrow> []) = sign"
    using assms by (cases u; cases s) (simp_all add: sign_def stops_def)
  moreover have "drop (length sign) (u @ s) = drop (length sign) u @ s" by (cases u) (simp_all add: sign_def)
  ultimately show ?thesis
    by (simp add: Cons read_exponent_def Let_def sign_def [symmetric] span_stops [OF assms])
qed

lemma read_number_stops:
  assumes "stops s"
  shows "read_number (t @ s) = map_option (\<lambda>(v, r). (v, r @ s)) (read_number t)"
proof -
  have neg: "(case t @ s of c # _ \<Rightarrow> c = 45 | [] \<Rightarrow> False) = (case t of c # _ \<Rightarrow> c = 45 | [] \<Rightarrow> False)"
    using assms by (cases t; cases s) (simp_all add: stops_def)
  moreover have "(if (case t of c # _ \<Rightarrow> c = 45 | [] \<Rightarrow> False) then tl (t @ s) else t @ s)
      = (if (case t of c # _ \<Rightarrow> c = 45 | [] \<Rightarrow> False) then tl t else t) @ s"
    by (cases t) simp_all
  ultimately show ?thesis
    by (auto simp: read_number_def Let_def read_digits_stops [OF assms] read_fraction_stops [OF assms]
        read_exponent_stops [OF assms] split: option.splits prod.splits)
qed

definition float_text :: "utext \<Rightarrow> bool" where
  \<comment> \<open>the literal of a float\<close>
  "float_text t = (read_number t = Some (NFloat t, []))"

lemma read_number_float: "float_text t \<Longrightarrow> stops s \<Longrightarrow> read_number (t @ s) = Some (NFloat t, s)"
  by (simp add: float_text_def read_number_stops)

lemma number_head:
  assumes "read_number t = Some x"
  shows "\<exists>c cs. t = c # cs \<and> (c = 45 \<or> digit c)"
proof (cases t)
  case (Cons c cs)
  have "read_digits (c # cs) \<noteq> None \<Longrightarrow> digit c" by (auto simp: read_digits_def digit_def split: if_splits)
  with assms show ?thesis unfolding Cons by (cases "c = 45") (auto simp: read_number_def Let_def split: option.splits)
qed (use assms in \<open>simp add: read_number_def read_digits_def\<close>)

section \<open>Values\<close>

fun wf_json :: "jval \<Rightarrow> bool" where
  \<comment> \<open>strings UTF-8 can encode, integers Python prints, no floats\<close>
  "wf_json (NInt i) = (length (asc (nat_text (nat (abs i)))) \<le> 4300)"
| "wf_json (NFloat t) = False"
| "wf_json (NStr s) = list_all scalar s"
| "wf_json (NArr xs) = list_all wf_json xs"
| "wf_json (NObj kvs) = list_all (\<lambda>(k, x). list_all scalar k \<and> wf_json x) kvs"
| "wf_json _ = True"

fun readable :: "jval \<Rightarrow> bool" where
  \<comment> \<open>as \<open>wf_json\<close>, with floats\<close>
  "readable (NInt i) = (length (asc (nat_text (nat (abs i)))) \<le> 4300)"
| "readable (NFloat t) = float_text t"
| "readable (NStr s) = list_all scalar s"
| "readable (NArr xs) = list_all readable xs"
| "readable (NObj kvs) = list_all (\<lambda>(k, x). list_all scalar k \<and> readable x) kvs"
| "readable _ = True"

lemma wf_readable: "wf_json v \<Longrightarrow> readable v"
  by (induction v rule: wf_json.induct) (fastforce simp: list_all_iff)+

lemma int_head: "\<exists>c cs. asc (int_text i) = c # cs \<and> (c = 45 \<or> digit c)"
  using nat_digits_facts [of "nat i"] by (auto simp: int_text_def asc_def)

lemma dumps_head:
  assumes "readable v"
  shows "\<exists>c cs. dumps v = c # cs \<and> \<not> ws c \<and> c \<noteq> 93"
proof (cases v)
  case (NInt i)
  then show ?thesis using int_head [of i] by (auto simp: ws_def digit_def)
next
  case (NFloat t)
  then show ?thesis using assms number_head [of t "(NFloat t, [])"] by (auto simp: float_text_def ws_def digit_def)
qed (use assms in \<open>auto simp: asc_def quoted_def ws_def\<close>)

lemma skip_ws_head: "\<not> ws c \<Longrightarrow> skip_ws (c # s) = c # s"
  by (simp add: skip_ws_def)

lemma skip_dumps: "readable v \<Longrightarrow> skip_ws (dumps v @ s) = dumps v @ s \<and> \<not> opens 93 (dumps v @ s)"
  using dumps_head [of v] by (auto simp: skip_ws_head)

lemma parse_string: "list_all scalar t \<Longrightarrow> parse_value (quoted t @ s) = Some (NStr t, s)"
  by (subst parse_value.simps) (simp add: quoted_def read_quoted list_all_iff)

lemma parse_int:
  assumes "stops s" and "readable (NInt i)"
  shows "parse_value (asc (int_text i) @ s) = Some (NInt i, s)"
proof -
  obtain c cs where c: "asc (int_text i) = c # cs" "c = 45 \<or> digit c" using int_head by blast
  have "c \<notin> {34, 91, 123, 110, 116, 102}" using c(2) by (auto simp: digit_def)
  then have "parse_value (asc (int_text i) @ s) = read_number (asc (int_text i) @ s)"
    unfolding c(1) by (subst parse_value.simps) (auto simp: read_literal_def asc_def)
  also have "\<dots> = Some (NInt i, s)" using assms by (intro read_number_int) simp_all
  finally show ?thesis .
qed

lemma parse_float:
  assumes "stops s" and "float_text t"
  shows "parse_value (t @ s) = Some (NFloat t, s)"
proof -
  obtain c cs where c: "t = c # cs" "c = 45 \<or> digit c"
    using number_head [of t "(NFloat t, [])"] assms(2) by (auto simp: float_text_def)
  have "c \<notin> {34, 91, 123, 110, 116, 102}" using c(2) by (auto simp: digit_def)
  then have "parse_value (t @ s) = read_number (t @ s)"
    unfolding c(1) by (subst parse_value.simps) (auto simp: read_literal_def asc_def)
  then show ?thesis using read_number_float [OF assms(2,1)] by simp
qed

lemma parse_dumps:
  "readable v \<Longrightarrow> stops s \<Longrightarrow> parse_value (dumps v @ s) = Some (v, s)"
  "list_all readable xs \<Longrightarrow> xs \<noteq> [] \<Longrightarrow> parse_items (dumps_items xs @ 93 # s) = Some (xs, s)"
  "list_all (\<lambda>(k, x). list_all scalar k \<and> readable x) kvs \<Longrightarrow> kvs \<noteq> [] \<Longrightarrow>
    parse_members (dumps_members kvs @ 125 # s) = Some (kvs, s)"
proof (induction v and xs and kvs arbitrary: s and s and s rule: dumps_dumps_items_dumps_members.induct)
  case (1 s) show ?case by (subst parse_value.simps) (simp add: read_literal_def asc_def)
next
  case (2 b s) show ?case by (subst parse_value.simps) (simp add: read_literal_def asc_def)
next
  case (3 i s) then show ?case by (simp add: parse_int)
next
  case (4 t s) then show ?case by (simp add: parse_float)
next
  case (5 t s) then show ?case by (simp add: parse_string)
next
  case (6 xs s)
  show ?case
  proof (cases xs)
    case Nil then show ?thesis by (subst parse_value.simps) (simp add: skip_ws_head ws_def)
  next
    case (Cons x ys)
    with 6 have "skip_ws (dumps_items xs @ 93 # s) = dumps_items xs @ 93 # s \<and> \<not> opens 93 (dumps_items xs @ 93 # s)"
      using skip_dumps [of x] by simp
    with 6 Cons show ?thesis by (subst parse_value.simps) simp
  qed
next
  case (7 kvs s)
  show ?case
  proof (cases kvs)
    case Nil then show ?thesis by (subst parse_value.simps) (simp add: skip_ws_head ws_def)
  next
    case (Cons kx ys)
    then have "skip_ws (dumps_members kvs @ 125 # s) = dumps_members kvs @ 125 # s \<and> \<not> opens 125 (dumps_members kvs @ 125 # s)"
      by (cases kx) (simp add: quoted_def skip_ws_head ws_def)
    with 7 Cons show ?thesis by (subst parse_value.simps) simp
  qed
next
  case (8 s) then show ?case by simp
next
  case (9 x xs s)
  have st: "stops (93 # s)" "stops (44 # t)" for t by (simp_all add: stops_def digit_def)
  show ?case
  proof (cases xs)
    case Nil
    with 9 st show ?thesis by (subst parse_items.simps) (simp add: skip_ws_head ws_def)
  next
    case (Cons y ys)
    have "skip_ws (dumps_items xs @ 93 # s) = dumps_items xs @ 93 # s"
      using 9(3) Cons skip_dumps [of y] by simp
    with 9 Cons st show ?thesis by (subst parse_items.simps) (simp add: skip_ws_head ws_def)
  qed
next
  case (10 s) then show ?case by simp
next
  case (11 k x kvs s)
  have st: "stops (125 # s)" "stops (44 # t)" for t by (simp_all add: stops_def digit_def)
  obtain q where q: "quoted k = 34 # q" and k: "read_string (q @ r) = Some (k, r)" for r
    using 11(3) by (simp add: quoted_def read_quoted list_all_iff)
  note sk = skip_dumps [of x, THEN conjunct1] skip_ws_head ws_def
  show ?case
  proof (cases kvs)
    case Nil
    with 11 st k show ?thesis by (subst parse_members.simps) (simp add: q sk)
  next
    case (Cons ky ys)
    have "skip_ws (dumps_members kvs @ 125 # s) = dumps_members kvs @ 125 # s"
      using Cons by (cases ky) (simp add: quoted_def skip_ws_head ws_def)
    with 11 Cons st k show ?thesis by (subst parse_members.simps) (simp add: q sk)
  qed
qed

theorem loads_readable: "readable v \<Longrightarrow> loads (dumps v) = Some v"
  using parse_dumps(1) [of v "[]"] skip_dumps [of v "[]"] by (simp add: loads_def stops_def skip_ws_def)

theorem loads_dumps: "wf_json v \<Longrightarrow> loads (dumps v) = Some v"
  by (rule loads_readable) (rule wf_readable)

section \<open>Printed characters\<close>

definition printable :: "nat \<Rightarrow> bool" where
  "printable b = (32 \<le> b \<and> b \<le> 126)"

lemma hex_printable: "n < 16 \<Longrightarrow> printable (hex_code n)"
  by (simp add: printable_def hex_code_def)

lemma escape_printable: "list_all printable (escape_code n)"
  using hex_printable
  by (simp add: escape_code_def u_escape_def u_digits_def) (simp add: printable_def)

lemma quoted_printable: "list_all printable (quoted s)"
  using escape_printable by (induction s) (auto simp: quoted_def printable_def list_all_iff)

lemma int_printable: "list_all printable (asc (int_text i))"
proof -
  have "list_all printable (asc (nat_text n))" for n
    using nat_digits_facts [of n] by (auto simp: list_all_iff digit_def printable_def)
  then show ?thesis by (auto simp: int_text_def asc_def printable_def)
qed

lemma float_printable: "float_text t \<Longrightarrow> list_all printable t"
proof -
  have d: "list_all printable (takeWhile digit s)" for s
    by (auto simp: list_all_iff digit_def printable_def dest: set_takeWhileD)
  have "list_all printable ds" if "read_digits s = Some (ds, r)" for s ds r
    using that d [of s] by (cases s) (auto simp: read_digits_def printable_def split: if_splits)
  moreover have "list_all printable (fst (read_fraction s))" for s
    using d [of "tl s"] by (cases s) (auto simp: read_fraction_def printable_def)
  moreover have "list_all printable (fst (read_exponent s))" for s
    using d by (cases s) (auto simp: read_exponent_def Let_def printable_def split: list.splits)
  ultimately show "float_text t \<Longrightarrow> list_all printable t"
    unfolding float_text_def read_number_def Let_def
    by (auto split: option.splits prod.splits if_splits simp: printable_def) (metis fst_conv)+
qed

lemma dumps_printable:
  "readable v \<Longrightarrow> list_all printable (dumps v)"
  "list_all readable xs \<Longrightarrow> list_all printable (dumps_items xs)"
  "list_all (\<lambda>(k, x). list_all scalar k \<and> readable x) kvs \<Longrightarrow> list_all printable (dumps_members kvs)"
  by (induction v and xs and kvs rule: dumps_dumps_items_dumps_members.induct)
    (auto simp: int_printable float_printable quoted_printable asc_def [of "c # cs" for c cs] asc_def [of "[]"]
      printable_def [of "numeral k" for k])

lemma printable_ascii: "list_all printable s \<Longrightarrow> list_all (\<lambda>b. b < 128) s \<and> 10 \<notin> set s"
  by (auto simp: list_all_iff printable_def)

end
