(* ===== verification/Utf8.thy ===== *)
theory Utf8
  imports Json_Roundtrip
begin

text \<open>
  UTF-8 as Python's strict codec reads and writes it, and what else the program uses of Python's strings: text is a list of
  code points, bytes are numbers below 256. The table of letters with another upper case is that of Unicode 15.
\<close>

section \<open>Decoding\<close>

definition continuation :: "nat \<Rightarrow> bool" where
  "continuation b = (128 \<le> b \<and> b \<le> 191)"

definition utf8_step :: "nat list \<Rightarrow> (nat \<times> nat list) option" where
  \<comment> \<open>one character: no overlong form, no surrogate, nothing above U+10FFFF\<close>
  "utf8_step s =
     (case s of
        [] \<Rightarrow> None
      | a # s1 \<Rightarrow>
          if a < 128 then Some (a, s1)
          else case s1 of
            [] \<Rightarrow> None
          | b # s2 \<Rightarrow>
              if \<not> continuation b then None
              else if 194 \<le> a \<and> a \<le> 223 then Some (64 * (a - 192) + (b - 128), s2)
              else case s2 of
                [] \<Rightarrow> None
              | c # s3 \<Rightarrow>
                  if \<not> continuation c then None
                  else let n = 4096 * (a - 224) + 64 * (b - 128) + (c - 128)
                  in if 224 \<le> a \<and> a \<le> 239
                     then (if 2048 \<le> n \<and> scalar n then Some (n, s3) else None)
                     else case s3 of
                       [] \<Rightarrow> None
                     | d # s4 \<Rightarrow>
                         let n = 262144 * (a - 240) + 4096 * (b - 128) + 64 * (c - 128) + (d - 128)
                         in if continuation d \<and> 240 \<le> a \<and> 65536 \<le> n \<and> n < 1114112 then Some (n, s4)
                            else None)"

lemma utf8_step_shorter: "utf8_step s = Some (n, r) \<Longrightarrow> length r < length s"
  by (auto simp: utf8_step_def Let_def split: list.splits if_splits)

function utf8_decode :: "nat list \<Rightarrow> utext option" where
  "utf8_decode s =
     (if s = [] then Some []
      else case utf8_step s of
        None \<Rightarrow> None | Some (n, r) \<Rightarrow> map_option (\<lambda>t. n # t) (utf8_decode r))"
  by pat_completeness auto
termination by (relation "measure length") (auto dest: utf8_step_shorter)

declare utf8_decode.simps [simp del]

lemma utf8_decode_ascii: "list_all (\<lambda>b. b < 128) s \<Longrightarrow> utf8_decode s = Some s"
  by (induction s) (subst utf8_decode.simps, simp add: utf8_step_def)+

section \<open>Encoding\<close>

definition utf8_char :: "nat \<Rightarrow> nat list" where
  "utf8_char n =
     (if n < 128 then [n]
      else if n < 2048 then [192 + n div 64, 128 + n mod 64]
      else if n < 65536 then [224 + n div 4096, 128 + n div 64 mod 64, 128 + n mod 64]
      else [240 + n div 262144, 128 + n div 4096 mod 64, 128 + n div 64 mod 64, 128 + n mod 64])"

definition utf8_encode :: "utext \<Rightarrow> nat list option" where
  \<comment> \<open>a surrogate cannot be encoded\<close>
  "utf8_encode t = (if list_all scalar t then Some (concat (map utf8_char t)) else None)"

section \<open>Character classes\<close>

definition is_space :: "nat \<Rightarrow> bool" where
  \<comment> \<open>\<^verbatim>\<open>str.isspace\<close> of one character\<close>
  "is_space c =
     (9 \<le> c \<and> c \<le> 13 \<or> 28 \<le> c \<and> c \<le> 32 \<or> c = 133 \<or> c = 160 \<or> c = 5760 \<or> 8192 \<le> c \<and> c \<le> 8202
      \<or> c = 8232 \<or> c = 8233 \<or> c = 8239 \<or> c = 8287 \<or> c = 12288)"

definition strip_spaces :: "utext \<Rightarrow> utext" where
  "strip_spaces t = rev (dropWhile is_space (rev (dropWhile is_space t)))"

definition upper_table :: "(nat \<times> nat \<times> nat) list" where
  \<comment> \<open>first and last character and distance of the characters that \<^verbatim>\<open>str.upper\<close> changes\<close>
  "upper_table =
    [(97, 122, 1), (181, 181, 1), (223, 246, 1), (248, 255, 1), (257, 311, 2), (314, 328, 2), (329, 375, 2), (378, 384, 2),
     (383, 384, 1), (387, 389, 2), (392, 392, 1), (396, 396, 1), (402, 402, 1), (405, 405, 1), (409, 410, 1), (414, 414, 1),
     (417, 421, 2), (424, 424, 1), (429, 429, 1), (432, 432, 1), (436, 438, 2), (441, 441, 1), (445, 447, 2), (453, 454, 1),
     (456, 457, 1), (459, 460, 1), (462, 476, 2), (477, 495, 2), (496, 498, 2), (499, 501, 2), (505, 543, 2), (547, 563, 2),
     (572, 572, 1), (575, 576, 1), (578, 578, 1), (583, 595, 2), (592, 596, 1), (598, 599, 1), (601, 603, 2), (604, 604, 1),
     (608, 609, 1), (611, 613, 2), (614, 620, 2), (617, 620, 1), (623, 625, 2), (626, 626, 1), (629, 629, 1), (637, 637, 1),
     (640, 642, 2), (643, 643, 1), (647, 652, 1), (658, 658, 1), (669, 670, 1), (837, 837, 1), (881, 883, 2), (887, 887, 1),
     (891, 893, 1), (912, 912, 1), (940, 974, 1), (976, 977, 1), (981, 1013, 2), (982, 983, 1), (1008, 1011, 1),
     (1016, 1016, 1), (1019, 1019, 1), (1072, 1119, 1), (1121, 1153, 2), (1163, 1215, 2), (1218, 1230, 2), (1231, 1327, 2),
     (1377, 1415, 1), (4304, 4346, 1), (4349, 4351, 1), (5112, 5117, 1), (7296, 7304, 1), (7545, 7545, 1), (7549, 7549, 1),
     (7566, 7566, 1), (7681, 7835, 2), (7830, 7835, 1), (7841, 7943, 2), (7936, 7943, 1), (7952, 7957, 1), (7968, 7975, 1),
     (7984, 7991, 1), (8000, 8005, 1), (8016, 8023, 1), (8032, 8039, 1), (8048, 8061, 1), (8064, 8116, 1), (8118, 8119, 1),
     (8124, 8126, 2), (8130, 8132, 1), (8134, 8135, 1), (8140, 8140, 1), (8144, 8147, 1), (8150, 8151, 1), (8160, 8167, 1),
     (8178, 8180, 1), (8182, 8183, 1), (8188, 8188, 1), (8526, 8526, 1), (8560, 8575, 1), (8580, 8580, 1), (9424, 9449, 1),
     (11312, 11359, 1), (11361, 11361, 1), (11365, 11366, 1), (11368, 11372, 2), (11379, 11379, 1), (11382, 11382, 1),
     (11393, 11491, 2), (11500, 11502, 2), (11507, 11507, 1), (11520, 11557, 1), (11559, 11559, 1), (11565, 11565, 1),
     (42561, 42605, 2), (42625, 42651, 2), (42787, 42799, 2), (42803, 42863, 2), (42874, 42876, 2), (42879, 42887, 2),
     (42892, 42892, 1), (42897, 42899, 2), (42900, 42900, 1), (42903, 42921, 2), (42933, 42947, 2), (42952, 42954, 2),
     (42961, 42961, 1), (42967, 42969, 2), (42998, 42998, 1), (43859, 43859, 1), (43888, 43967, 1), (64256, 64262, 1),
     (64275, 64279, 1), (65345, 65370, 1), (66600, 66639, 1), (66776, 66811, 1), (66967, 67003, 2), (66968, 66977, 1),
     (66980, 66993, 1), (66996, 67001, 1), (67004, 67004, 1), (68800, 68850, 1), (71872, 71903, 1), (93792, 93823, 1),
     (125218, 125251, 1)]"

definition changes_upper :: "nat \<Rightarrow> bool" where
  "changes_upper c = list_ex (\<lambda>(lo, hi, d). lo \<le> c \<and> c \<le> hi \<and> (c - lo) mod d = 0) upper_table"

lemma upper_table_low: "list_all (\<lambda>(lo, hi, d). 97 \<le> lo) upper_table"
  unfolding upper_table_def by simp

lemma no_upper: "c < 97 \<Longrightarrow> \<not> changes_upper c"
  using upper_table_low by (fastforce simp: changes_upper_def list_ex_iff list_all_iff)

end
