(* ===== verification/Protocol_Framing.thy ===== *)
theory Protocol_Framing
  imports Utf8 Coordinator_Limits
begin

text \<open>
  Framing of the worker protocol (\<^verbatim>\<open>_protocol_validation.py\<close>): one JSON object per line, written in ASCII
  with sorted keys, read back from strict UTF-8 with duplicate keys, constants and lone surrogates
  refused. Frames are lists of bytes. Python's recursion limit is not modelled.
\<close>

section \<open>Frames\<close>

definition MAX_JSONL_LINE_BYTES :: int where
  "MAX_JSONL_LINE_BYTES = 1048576"

definition validate_line_limit :: "pyval \<Rightarrow> int result" where
  "validate_line_limit v =
     (case v of VInt n \<Rightarrow> if 0 < n \<and> n \<le> MAX_JSONL_LINE_BYTES then Inr n
                         else Inl (ValueError ''max_line_bytes is outside the protocol limit'')
      | _ \<Rightarrow> Inl (ValueError ''max_line_bytes is outside the protocol limit''))"

definition encode_jsonl :: "(utext \<times> jval) list \<Rightarrow> pyval \<Rightarrow> nat list result" where
  "encode_jsonl message max_line_bytes =
     bindE (validate_line_limit max_line_bytes) (\<lambda>limit.
     let encoded = dumps (canonical (NObj message)) @ [10]
     in guardE (int (length encoded) \<le> limit) (ProtocolError ''frame_too_large'') (Inr encoded))"

fun unique_object :: "jval \<Rightarrow> bool" where
  \<comment> \<open>\<^verbatim>\<open>object_pairs_hook\<close> on every object\<close>
  "unique_object (NArr xs) = list_all unique_object xs"
| "unique_object (NObj kvs) = (distinct (map fst kvs) \<and> list_all (\<lambda>(k, x). unique_object x) kvs)"
| "unique_object _ = True"

fun validate_unicode :: "jval \<Rightarrow> bool" where
  "validate_unicode (NStr s) = list_all scalar s"
| "validate_unicode (NArr xs) = list_all validate_unicode xs"
| "validate_unicode (NObj kvs) = list_all (\<lambda>(k, x). list_all scalar k \<and> validate_unicode x) kvs"
| "validate_unicode _ = True"

definition decode_text :: "nat list \<Rightarrow> jval option" where
  "decode_text line =
     (case utf8_decode line of
        None \<Rightarrow> None
      | Some t \<Rightarrow> (case loads t of
          None \<Rightarrow> None | Some v \<Rightarrow> if unique_object v \<and> validate_unicode v then Some v else None))"

definition decode_jsonl :: "nat list \<Rightarrow> pyval \<Rightarrow> (utext \<times> jval) list result" where
  "decode_jsonl frame max_line_bytes =
     bindE (validate_line_limit max_line_bytes) (\<lambda>limit.
     guardE (frame \<noteq> [] \<and> last frame = 10 \<and> \<not> List.member (butlast frame) 10)
       (ProtocolError ''invalid_frame'') (
     guardE (int (length frame) \<le> limit) (ProtocolError ''frame_too_large'') (
     case decode_text (butlast frame) of
       None \<Rightarrow> Inl (ProtocolError ''invalid_json'')
     | Some (NObj kvs) \<Rightarrow> Inr kvs
     | Some _ \<Rightarrow> Inl (ProtocolError ''invalid_message''))))"

section \<open>What is written\<close>

lemma wf_canonical: "wf_json v \<Longrightarrow> wf_json (canonical v)"
  by (induction v rule: canonical.induct) (fastforce simp: list_all_iff split_beta)+

lemma distinct_sort_key: "distinct (map f (sort_key g xs)) = distinct (map f xs)"
  by (simp add: distinct_map)

lemma unique_canonical: "unique_object v \<Longrightarrow> unique_object (canonical v)"
proof (induction v rule: canonical.induct)
  case (2 kvs)
  then show ?case by (fastforce simp: list_all_iff split_beta comp_def distinct_sort_key)
qed (simp_all add: list_all_iff)

lemma wf_unicode: "wf_json v \<Longrightarrow> validate_unicode v"
  by (induction v rule: wf_json.induct) (fastforce simp: list_all_iff split_beta)+

section \<open>Round trip\<close>

definition dict_of :: "(utext \<times> jval) list \<Rightarrow> utext \<Rightarrow> jval option" where
  \<comment> \<open>the dictionary a list of members stands for, with the dictionaries in it in sorted order\<close>
  "dict_of kvs k = map_option canonical (map_of kvs k)"

lemma map_of_map_snd: "map_of (map (\<lambda>(k, x). (k, f x)) kvs) k = map_option f (map_of kvs k)"
  by (induction kvs) auto

lemma map_of_sort_key:
  "distinct (map fst kvs) \<Longrightarrow> map_of (sort_key fst kvs) = map_of kvs"
  by (rule map_of_inject_set [THEN iffD2]) (simp_all add: distinct_sort_key)

text \<open>
  Claim C27 (framing round trip): a message without floats whose keys are distinct and whose strings are
  Unicode text is encoded, where it fits the limit, into one line of printable ASCII, and decoding that
  line gives the same message with the members of every object in sorted order.
\<close>

theorem framing_roundtrip:
  assumes "wf_json (NObj message)" and "unique_object (NObj message)"
    and "encode_jsonl message limit = Inr frame"
  shows "list_all printable (butlast frame) \<and> last frame = 10
    \<and> (\<exists>kvs. decode_jsonl frame limit = Inr kvs \<and> sorted (map fst kvs)
         \<and> map_of kvs = dict_of message)"
proof -
  let ?kvs = "sort_key fst (map (\<lambda>(k, x). (k, canonical x)) message)"
  from assms(3) obtain n where n: "validate_line_limit limit = Inr n"
    and frame: "frame = dumps (canonical (NObj message)) @ [10]" and len: "int (length frame) \<le> n"
    by (auto simp: encode_jsonl_def result_simps Let_def)
  note wf = wf_canonical [OF assms(1)] and un = unique_canonical [OF assms(2)]
  have line: "butlast frame = dumps (canonical (NObj message))" unfolding frame by (rule butlast_snoc)
  have p: "list_all printable (butlast frame)" unfolding line by (rule dumps_printable(1) [OF wf_readable [OF wf]])
  have "utf8_decode (butlast frame) = Some (dumps (canonical (NObj message)))"
    using utf8_decode_ascii printable_ascii [OF p] line by simp
  with loads_dumps [OF wf] un wf_unicode [OF wf] have "decode_text (butlast frame) = Some (NObj ?kvs)"
    by (simp add: decode_text_def)
  then have "decode_jsonl frame limit = Inr ?kvs"
    using n len printable_ascii [OF p] by (simp add: decode_jsonl_def frame)
  moreover have "map_of ?kvs = dict_of message"
    using assms(2) by (subst map_of_sort_key) (auto simp: dict_of_def map_of_map_snd comp_def split_beta fun_eq_iff)
  ultimately show ?thesis using p by (auto simp: frame)
qed

definition example_message :: "(utext \<times> jval) list" where
  "example_message = [(asc ''b'', NInt (-5)), (asc ''a'', NStr [233, 128512])]"

definition example_frame :: "nat list" where
  "example_frame = dumps (canonical (NObj example_message)) @ [10]"

lemma example_message_ok:
  "wf_json (NObj example_message)" "unique_object (NObj example_message)"
  "encode_jsonl example_message (VInt 1048576) = Inr example_frame"
  by (simp_all add: example_frame_def example_message_def asc_def scalar_def encode_jsonl_def
      validate_line_limit_def MAX_JSONL_LINE_BYTES_def nat_text.simps high_surrogate_def low_surrogate_def quoted_def
      escape_code_def u_escape_def u_digits_def int_text_def guardE_def)

theorem framing_roundtrip_witness:
  "last example_frame = 10
   \<and> (\<exists>kvs. decode_jsonl example_frame (VInt 1048576) = Inr kvs \<and> map_of kvs = dict_of example_message)"
  using framing_roundtrip [OF example_message_ok] by blast

end
