(* ===== verification/Protocol_Properties.thy ===== *)
theory Protocol_Properties
  imports Protocol_Session Protocol_Framing Coordinator_Core
begin

text \<open>
  What a protocol session guarantees whatever messages arrive in whatever order from either side.
\<close>

inductive session_reach :: "ProtocolSession \<Rightarrow> bool" where
  new: "new_session identity = Inr s \<Longrightarrow> session_reach s"
| step: "session_reach s \<Longrightarrow> accept_message s dir payload = (r, s') \<Longrightarrow> session_reach s'"

section \<open>One message\<close>

lemma requireP_Inr [result_simps]: "requireP ok c = Inr u \<longleftrightarrow> ok"
  by (simp add: requireP_def guardE_def)

lemma perr_Inr [result_simps]: "perr c \<noteq> Inr u"
  by (simp add: perr_def)

lemma check_message_Inr:
  assumes "check_message s dir payload = Inr t"
  shows "ps_state s \<noteq> SessionTerminal" and "List.member (allowed_messages (ps_state s)) t"
    and "t \<noteq> ''worker_hello'' \<Longrightarrow> same_fields IDENTITY payload (ps_identity s)"
    and "is_terminal_message t \<Longrightarrow> \<exists>start. ps_accepted_job_start s = Some start
      \<and> same_fields START_IDENTITY_FIELDS payload start"
    and "is_terminal_message t \<Longrightarrow> List.member (dict_keys payload) SNAPSHOT = ps_snapshot_requested s"
    and "t = ''job_start'' \<Longrightarrow> List.member (dict_keys payload) SNAPSHOT \<Longrightarrow> ps_snapshot_capability s"
proof -
  from assms obtain names where f: "expected_fields s t payload = Inr names"
    and same: "same_set (dict_keys payload) names"
    and o: "validate_order (ps_state s) t = Inr ()"
    and i: "t = ''worker_hello'' \<or> same_fields IDENTITY payload (ps_identity s)"
    and st: "is_terminal_message t \<longrightarrow> (case ps_accepted_job_start s of
                    None \<Rightarrow> False | Some start \<Rightarrow> same_fields START_IDENTITY_FIELDS payload start)"
    by (auto simp: check_message_def result_simps split: pyval.splits)
  show "ps_state s \<noteq> SessionTerminal" and "List.member (allowed_messages (ps_state s)) t"
    using o by (auto simp: validate_order_def result_simps split: if_splits)
  show "t \<noteq> ''worker_hello'' \<Longrightarrow> same_fields IDENTITY payload (ps_identity s)" using i by simp
  show "is_terminal_message t \<Longrightarrow> \<exists>start. ps_accepted_job_start s = Some start
      \<and> same_fields START_IDENTITY_FIELDS payload start" using st by (auto split: option.splits)
  have not_start: "is_terminal_message t \<Longrightarrow> t \<noteq> ''job_start''" by (auto simp: is_terminal_message_def)
  show "is_terminal_message t \<Longrightarrow> List.member (dict_keys payload) SNAPSHOT = ps_snapshot_requested s"
    using f not_start by (auto simp: expected_fields_def Let_def result_simps split: if_splits)
  show "t = ''job_start'' \<Longrightarrow> List.member (dict_keys payload) SNAPSHOT \<Longrightarrow> ps_snapshot_capability s"
    using f by (auto simp: expected_fields_def Let_def result_simps)
qed

lemma validate_values_session:
  "validate_values t payload s = (r, s') \<Longrightarrow>
   s' = s \<or> (t = ''worker_hello'' \<and> (\<exists>b. s' = s\<lparr>ps_snapshot_capability := b\<rparr>))"
  by (auto simp: validate_values_def validate_hello_def Let_def split: if_splits sum.splits)

lemma accept_cases:
  assumes "accept_message s dir payload = (r, s')"
  obtains (refused) e where "r = Inl e" and "s' = s"
    | (refused_hello) e b where "r = Inl e" and "ps_state s = AwaitingHello" and "s' = s\<lparr>ps_snapshot_capability := b\<rparr>"
    | (hello) b where "ps_state s = AwaitingHello" and "r = Inr payload"
      and "s' = s\<lparr>ps_snapshot_capability := b, ps_negotiated_version := Some 1, ps_state := AwaitingStart\<rparr>"
    | (accepted) t where "check_message s dir payload = Inr t" and "t \<noteq> ''worker_hello''"
      and "validate_values t payload s = (Inr (), s)" and "r = Inr payload" and "s' = advance t payload s"
proof (cases "check_message s dir payload")
  case (Inl e)
  with assms refused show thesis by (auto simp: accept_message_def)
next
  case (Inr t)
  obtain x s1 where v: "validate_values t payload s = (x, s1)" by fastforce
  note vs = validate_values_session [OF v]
  show thesis
  proof (cases "t = ''worker_hello''")
    case True
    then have st: "ps_state s = AwaitingHello"
      using check_message_Inr(2) [OF Inr] by (auto simp: allowed_messages_def split: session_state.splits)
    have "s = s\<lparr>ps_snapshot_capability := ps_snapshot_capability s\<rparr>" by simp
    with vs have "\<exists>b. s1 = s\<lparr>ps_snapshot_capability := b\<rparr>" by blast
    then obtain b where b: "s1 = s\<lparr>ps_snapshot_capability := b\<rparr>" ..
    show thesis
    proof (cases x)
      case (Inl e)
      with assms Inr v b st show thesis by (intro refused_hello [of e b]) (simp_all add: accept_message_def)
    next
      case (Inr u)
      with assms \<open>check_message s dir payload = Inr t\<close> v b st True show thesis
        by (intro hello [of b]) (simp_all add: accept_message_def advance_def)
    qed
  next
    case False
    with vs have "s1 = s" by simp
    show thesis
    proof (cases x)
      case (Inl e)
      with assms Inr v \<open>s1 = s\<close> show thesis by (intro refused [of e]) (simp_all add: accept_message_def)
    next
      case (Inr u)
      with assms \<open>check_message s dir payload = Inr t\<close> v \<open>s1 = s\<close> False show thesis
        by (intro accepted [of t]) (simp_all add: accept_message_def)
    qed
  qed
qed

section \<open>The invariant\<close>

definition terminal_good :: "bool \<Rightarrow> (string \<times> pyval) list \<Rightarrow> bool" where
  "terminal_good snapshot p =
     (terminal_values_ok p
      \<and> (dict_get p ''publication_state'' = VStr ''committed'' \<longleftrightarrow>
           dict_get p ''status'' = VStr ''succeeded'' \<and> \<not> snapshot)
      \<and> (dict_get p ''publication_state'' = VStr ''committed'' \<longrightarrow>
           public_protocol_text (dict_get p ''latest_run_identity'') 128))"

definition session_ok :: "ProtocolSession \<Rightarrow> bool" where
  "session_ok s =
     ((ps_accepted_job_start s = None \<longleftrightarrow> ps_state s = AwaitingHello \<or> ps_state s = AwaitingStart)
      \<and> (ps_negotiated_version s = None \<longleftrightarrow> ps_state s = AwaitingHello)
      \<and> (ps_terminal s = None \<longleftrightarrow> ps_state s \<noteq> SessionTerminal)
      \<and> (ps_snapshot_requested s \<longrightarrow> ps_snapshot_capability s \<and> ps_accepted_job_start s \<noteq> None)
      \<and> 0 \<le> ps_completed s \<and> ps_completed s \<le> max_counter DEFAULT_LIMITS
      \<and> (\<forall>p. ps_terminal s = Some p \<longrightarrow> terminal_good (ps_snapshot_requested s) p
           \<and> same_fields IDENTITY p (ps_identity s)
           \<and> (\<exists>start. ps_accepted_job_start s = Some start \<and> same_fields START_IDENTITY_FIELDS p start)))"

lemma terminal_validated:
  assumes "validate_terminal t p = Inr ()" and "is_terminal_message t"
  shows "terminal_good (List.member (dict_keys p) SNAPSHOT) p"
proof -
  let ?pub = "dict_get p ''publication_state''" and ?st = "dict_get p ''status''"
  from assms(1) have ok: "terminal_values_ok p"
    and out: "if List.member (dict_keys p) SNAPSHOT then outcome_ok t ''not_started'' p else outcome_ok t ''committed'' p"
    and run: "if ?pub = VStr ''committed'' then public_protocol_text (dict_get p ''latest_run_identity'') 128
      else dict_get p ''latest_run_identity'' = VNone"
    by (auto simp: validate_terminal_def result_simps split: if_splits)
  have status: "in_vocabulary ?st [''succeeded'', ''cancelled''] \<Longrightarrow> ?st = VStr ''succeeded'' \<or> ?st = VStr ''cancelled''"
    by (cases ?st) auto
  have pub: "in_vocabulary ?pub [''not_started'', ''rolled_back''] \<Longrightarrow> ?pub \<noteq> VStr ''committed''"
    by (cases ?pub) auto
  have "?pub = VStr ''committed'' \<longleftrightarrow> ?st = VStr ''succeeded'' \<and> \<not> List.member (dict_keys p) SNAPSHOT"
    using out status pub by (auto simp: outcome_ok_def Let_def split: if_splits)
  with ok run show ?thesis by (auto simp: terminal_good_def)
qed

lemma allowed_simps:
  "List.member (allowed_messages st) ''job_start'' \<Longrightarrow> st = AwaitingStart"
  "List.member (allowed_messages st) ''cancel'' \<Longrightarrow> st = SessionRunning"
  "List.member (allowed_messages st) ''cancel_ack'' \<Longrightarrow> st = SessionCancelRequested"
  "List.member (allowed_messages st) t \<Longrightarrow> t \<noteq> ''worker_hello'' \<Longrightarrow> t \<noteq> ''job_start'' \<Longrightarrow>
     st \<noteq> AwaitingHello \<and> st \<noteq> AwaitingStart"
  by (auto simp: allowed_messages_def split: session_state.splits)

lemma progress_validated:
  assumes "validate_values ''progress'' p s = (Inr (), s1)"
  shows "\<exists>n. dict_get p ''completed'' = VInt n \<and> ps_completed s \<le> n \<and> n \<le> max_counter DEFAULT_LIMITS"
  using assms by (auto simp: validate_values_def result_simps progress_ok_def split: pyval.splits)

lemma accepted_ok:
  assumes ok: "session_ok s" and c: "check_message s dir p = Inr t" and t: "t \<noteq> ''worker_hello''"
    and v: "validate_values t p s = (Inr (), s)"
  shows "session_ok (advance t p s)"
proof -
  note ck = check_message_Inr [OF c]
  have live: "ps_terminal s = None" using ok ck(1) by (simp add: session_ok_def)
  have "advance t p s = s" if "t \<noteq> ''job_start''" "t \<noteq> ''progress''" "t \<noteq> ''cancel''" "t \<noteq> ''cancel_ack''"
    "\<not> is_terminal_message t" using that t by (simp add: advance_def)
  then consider "t = ''job_start''" | "t = ''progress''" | "t = ''cancel''" | "t = ''cancel_ack''"
    | "is_terminal_message t" | "advance t p s = s" by blast
  then show ?thesis
  proof cases
    case 1
    with allowed_simps(1) ck(2) have "ps_state s = AwaitingStart" by simp
    with 1 ok ck(6) live show ?thesis by (auto simp: session_ok_def advance_def)
  next
    case 2
    with ok progress_validated [of p s s] v live show ?thesis by (auto simp: session_ok_def advance_def)
  next
    case 3
    with allowed_simps(2) ck(2) have "ps_state s = SessionRunning" by simp
    with 3 ok live show ?thesis by (auto simp: session_ok_def advance_def)
  next
    case 4
    with allowed_simps(3) ck(2) have "ps_state s = SessionCancelRequested" by simp
    with 4 ok live show ?thesis by (auto simp: session_ok_def advance_def)
  next
    case 5
    then have tt: "t \<noteq> ''job_start''" "t \<noteq> ''progress''" "t \<noteq> ''cancel''" "t \<noteq> ''cancel_ack''" "t \<noteq> ''heartbeat''"
      by (auto simp: is_terminal_message_def)
    with v 5 t have "validate_terminal t p = Inr ()" by (simp add: validate_values_def)
    from terminal_validated [OF this 5] ck(3-5) 5 t tt ok allowed_simps(4) [OF ck(2)]
    show ?thesis by (auto simp: session_ok_def advance_def)
  next
    case 6
    with ok show ?thesis by simp
  qed
qed

lemma session_ok_reach: "session_reach s \<Longrightarrow> session_ok s"
proof (induction rule: session_reach.induct)
  case (new identity s)
  then show ?case by (auto simp: new_session_def result_simps session_ok_def DEFAULT_LIMITS_def)
next
  case (step s dir payload r s')
  from step(2) show ?case
  proof (cases rule: accept_cases)
    case (accepted t)
    with accepted_ok [OF step(3)] show ?thesis by simp
  qed (use step(3) in \<open>auto simp: session_ok_def\<close>)
qed

section \<open>Guarantees\<close>

text \<open>
  Claim C26 (an accepted terminal can be trusted): in every session, whatever was sent before, the stored
  terminal message names the session's job and attempt and repeats the graph, kind and generations of
  the accepted start. It reports a committed publication exactly when it reports success without a
  negotiated snapshot, and then it carries every field the coordinator needs for the publication
  marker. Nothing is accepted after it and nothing changes.
\<close>

theorem terminal_is_trustworthy:
  assumes "session_reach s" and "ps_terminal s = Some p"
  shows "same_fields IDENTITY p (ps_identity s)
    \<and> (\<exists>start. ps_accepted_job_start s = Some start \<and> same_fields START_IDENTITY_FIELDS p start)
    \<and> (dict_get p ''publication_state'' = VStr ''committed'' \<longleftrightarrow>
         dict_get p ''status'' = VStr ''succeeded'' \<and> \<not> ps_snapshot_requested s)
    \<and> (dict_get p ''publication_state'' = VStr ''committed'' \<longrightarrow>
         (\<forall>f \<in> set MARKER_FIELDS. \<exists>text. dict_get p f = VStr text \<and> text \<noteq> []))
    \<and> (\<exists>e. accept_message s dir m = (Inl e, s))"
proof -
  note ok = session_ok_reach [OF assms(1)]
  with assms(2) have good: "terminal_good (ps_snapshot_requested s) p" and st: "ps_state s = SessionTerminal"
    and ids: "same_fields IDENTITY p (ps_identity s)"
      "\<exists>start. ps_accepted_job_start s = Some start \<and> same_fields START_IDENTITY_FIELDS p start"
    by (auto simp: session_ok_def)
  have nonempty: "public_protocol_text v n \<Longrightarrow> \<exists>text. v = VStr text \<and> text \<noteq> []" for v n
    by (cases v) (auto simp: utf8_len_def)
  have gen: "valid_generation v x \<Longrightarrow> \<exists>text. v = VStr text \<and> text \<noteq> []" for v x
    by (cases v) (auto simp: utf8_len_def)
  have "\<forall>f \<in> set MARKER_FIELDS. \<exists>text. dict_get p f = VStr text \<and> text \<noteq> []"
    if "dict_get p ''publication_state'' = VStr ''committed''"
    using good that nonempty gen
    by (auto simp: MARKER_FIELDS_def terminal_good_def terminal_values_ok_def start_ok_def)
  moreover have "\<exists>e. accept_message s dir m = (Inl e, s)"
  proof (cases "check_message s dir m")
    case (Inr t)
    with check_message_Inr(1) [OF Inr] st show ?thesis by simp
  qed (simp add: accept_message_def)
  ultimately show ?thesis using good ids by (auto simp: terminal_good_def)
qed

fun session_rank :: "session_state \<Rightarrow> nat" where
  "session_rank AwaitingHello = 0"
| "session_rank AwaitingStart = 1"
| "session_rank SessionRunning = 2"
| "session_rank SessionCancelRequested = 3"
| "session_rank SessionCancelling = 4"
| "session_rank SessionTerminal = 5"

lemma advance_state:
  assumes "List.member (allowed_messages (ps_state s)) t" and "t \<noteq> ''worker_hello''"
  shows "List.member [''progress'', ''heartbeat''] t \<and> ps_state (advance t p s) = ps_state s
    \<or> session_rank (ps_state s) < session_rank (ps_state (advance t p s))"
proof -
  have "session_rank (ps_state s) < 5" using assms(1) by (cases "ps_state s") (simp_all add: allowed_messages_def)
  then have fin: "session_rank (ps_state s) < session_rank SessionTerminal" by simp
  have "List.member [''job_start'', ''progress'', ''heartbeat'', ''cancel'', ''cancel_ack'', ''result'', ''error''] t"
    using assms by (cases "ps_state s") (auto simp: allowed_messages_def)
  then have "t = ''job_start'' \<or> t = ''progress'' \<or> t = ''heartbeat'' \<or> t = ''cancel'' \<or> t = ''cancel_ack''
    \<or> t = ''result'' \<or> t = ''error''" by simp
  then show ?thesis
  proof (elim disjE)
    assume t: "t = ''job_start''"
    with allowed_simps(1) assms(1) have "ps_state s = AwaitingStart" by simp
    with t show ?thesis by (simp add: advance_def)
  next
    assume t: "t = ''cancel''"
    with allowed_simps(2) assms(1) have "ps_state s = SessionRunning" by simp
    with t show ?thesis by (simp add: advance_def)
  next
    assume t: "t = ''cancel_ack''"
    with allowed_simps(3) assms(1) have "ps_state s = SessionCancelRequested" by simp
    with t show ?thesis by (simp add: advance_def)
  qed (use fin in \<open>simp_all add: advance_def is_terminal_message_def\<close>)
qed

text \<open>
  Claim C28 (sessions only move forward): a refused message leaves the session as it was, up to the
  capability a malformed hello announced; an accepted one either moves the session to a later state or
  is a progress or heartbeat of a running one; the progress counter never decreases and never exceeds
  the configured maximum. So at most five messages of a session change its state.
\<close>

theorem session_moves_forward:
  assumes "session_reach s" and "accept_message s dir m = (r, s')"
  shows "ps_completed s \<le> ps_completed s' \<and> ps_completed s' \<le> max_counter DEFAULT_LIMITS
    \<and> ps_identity s' = ps_identity s
    \<and> (case r of
         Inl e \<Rightarrow> s' = s\<lparr>ps_snapshot_capability := ps_snapshot_capability s'\<rparr>
           \<and> (ps_state s \<noteq> AwaitingHello \<longrightarrow> s' = s)
       | Inr p \<Rightarrow> p = m \<and> (session_rank (ps_state s) < session_rank (ps_state s')
           \<or> ps_state s' = ps_state s \<and> in_vocabulary (dict_get m ''message_type'') [''progress'', ''heartbeat'']))"
proof -
  have ok: "session_ok s" "session_ok s'" using assms session_ok_reach session_reach.step by blast+
  have bound: "ps_completed s' \<le> max_counter DEFAULT_LIMITS" using ok by (simp add: session_ok_def)
  from assms(2) show ?thesis
  proof (cases rule: accept_cases)
    case (accepted t)
    have mt: "dict_get m ''message_type'' = VStr t"
      using accepted(1) by (auto simp: check_message_def result_simps split: pyval.splits)
    have known: "List.member (allowed_messages (ps_state s)) t" "ps_state s \<noteq> SessionTerminal"
      using check_message_Inr(1,2) [OF accepted(1)] by simp_all
    have mono: "ps_completed s \<le> ps_completed s'"
    proof (cases "t = ''progress''")
      case True
      with accepted(3) progress_validated [of m s s] obtain n where "dict_get m ''completed'' = VInt n" "ps_completed s \<le> n"
        by auto
      with True accepted(5) show ?thesis by (simp add: advance_def)
    next
      case False
      with accepted(5) show ?thesis by (simp add: advance_def)
    qed
    have "session_rank (ps_state s) < session_rank (ps_state s')
        \<or> ps_state s' = ps_state s \<and> in_vocabulary (dict_get m ''message_type'') [''progress'', ''heartbeat'']"
      using advance_state [OF known(1) accepted(2), of m] accepted(5) mt by auto
    moreover have "ps_identity s' = ps_identity s" using accepted(5) by (simp add: advance_def)
    ultimately show ?thesis using accepted(4) bound mono by simp
  qed (use ok bound in \<open>auto simp: session_ok_def\<close>)
qed

section \<open>A concrete session\<close>

definition example_hello :: "(string \<times> pyval) list" where
  "example_hello = [(''schema_version'', VInt 1), (''message_type'', VStr ''worker_hello''),
     (''protocol_versions'', VList [VInt 1]), (''worker_generation'', VStr ''w1''),
     (''capabilities'', VList [VStr ''refresh_graph'']), (''process_nonce'', VStr ''n1'')]"

definition example_sg :: pyval where
  "example_sg = VStr ''sg1:a''"

definition example_cg :: pyval where
  "example_cg = VStr ''cg1:b''"

definition example_start :: "(string \<times> pyval) list" where
  "example_start = [(''schema_version'', VInt 1), (''message_type'', VStr ''job_start''),
     (''job_id'', VStr ''j''), (''attempt'', VInt 1), (''job_kind'', VStr ''refresh_graph''),
     (''graph_id'', VStr ''g''), (''source_generation'', example_sg), (''config_generation'', example_cg)]"

definition example_result :: "(string \<times> pyval) list" where
  "example_result = [(''schema_version'', VInt 1), (''message_type'', VStr ''result''),
     (''job_id'', VStr ''j''), (''attempt'', VInt 1), (''job_kind'', VStr ''refresh_graph''),
     (''graph_id'', VStr ''g''), (''status'', VStr ''succeeded''),
     (''started_at'', VStr ''2026-01-01T00:00:00Z''), (''finished_at'', VStr ''2026-01-01T00:00:00Z''),
     (''phase'', VStr ''complete''), (''files'', VInt 1), (''observations'', VInt 2),
     (''canonical_nodes'', VInt 3), (''canonical_edges'', VInt 4), (''warnings'', VList []),
     (''diagnostics'', VList []), (''publication_state'', VStr ''committed''),
     (''latest_run_identity'', VStr ''run-1''), (''source_generation'', example_sg),
     (''config_generation'', example_cg), (''extractor_generation'', VStr ''e1''),
     (''canonicalizer_generation'', VStr ''c1''), (''retryable'', VBool False), (''error_category'', VNone)]"

definition session0 :: ProtocolSession where
  "session0 = (case new_session [(''job_id'', VStr ''j''), (''attempt'', VInt 1)] of Inr s \<Rightarrow> s)"

definition session1 :: ProtocolSession where
  "session1 = snd (accept_message session0 Worker example_hello)"

definition session2 :: ProtocolSession where
  "session2 = snd (accept_message session1 Coordinator example_start)"

definition session3 :: ProtocolSession where
  "session3 = snd (accept_message session2 Worker example_result)"

lemma example_sessions_reached: "session_reach session2" "session_reach session3"
proof -
  have "new_session [(''job_id'', VStr ''j''), (''attempt'', VInt 1)] = Inr session0" by code_simp
  then have r0: "session_reach session0" by (rule session_reach.new)
  have step: "session_reach s \<Longrightarrow> session_reach (snd (accept_message s dir m))" for s dir m
    by (erule session_reach.step) (rule surjective_pairing)
  show "session_reach session2" unfolding session2_def session1_def by (intro step r0)
  then show "session_reach session3" unfolding session3_def by (rule step)
qed

lemma example_terminal: "ps_terminal session3 = Some example_result"
  by code_simp

lemma example_accepts: "accept_message session2 Worker example_result = (Inr example_result, session3)"
  by code_simp

theorem terminal_is_trustworthy_witness:
  "same_fields IDENTITY example_result (ps_identity session3)
   \<and> (\<exists>e. accept_message session3 Worker example_result = (Inl e, session3))"
  using terminal_is_trustworthy [OF example_sessions_reached(2) example_terminal] by blast

theorem session_moves_forward_witness:
  "session_rank (ps_state session2) < session_rank (ps_state session3)"
proof -
  have "\<not> in_vocabulary (dict_get example_result ''message_type'') [''progress'', ''heartbeat'']" by code_simp
  then show ?thesis
    using session_moves_forward [OF example_sessions_reached(1) example_accepts] by simp
qed

end
