(* ===== verification/Json_Prefix.thy ===== *)
theory Json_Prefix
  imports Json_Roundtrip
begin

text \<open>
  A proper prefix of a JSON object is not a JSON document: what the parser reads from a text that ends
  an object it also reads from every longer text. A reader of a file that is still being written, or
  was abandoned half way, therefore never mistakes it for a complete record.
\<close>

section \<open>Pieces of a longer text\<close>

lemma skip_ws_append: "skip_ws s \<noteq> [] \<Longrightarrow> skip_ws (s @ t) = skip_ws s @ t"
  by (induction s) (auto simp: skip_ws_def)

lemma opens_append: "opens c s \<Longrightarrow> opens c (s @ t)"
  by (cases s) auto

lemma opens_nonempty: "opens c s \<Longrightarrow> s \<noteq> []"
  by (cases s) auto

lemma opens_append_iff: "s \<noteq> [] \<Longrightarrow> opens c (s @ t) = opens c s"
  by (cases s) auto

lemma skip_opens_append: "opens c (skip_ws s) \<Longrightarrow> skip_ws (s @ t) = skip_ws s @ t"
  by (rule skip_ws_append) (rule opens_nonempty)

lemma hex4_append: "hex4 s = Some (n, r) \<Longrightarrow> hex4 (s @ t) = Some (n, r @ t)"
  by (cases s rule: hex4.cases) (auto split: option.splits)

lemma low_escape_append:
  assumes "s \<noteq> []" and "s \<noteq> [92]" and "low_escape s \<noteq> Some None"
  shows "low_escape (s @ t) = map_option (map_option (\<lambda>(n, r). (n, r @ t))) (low_escape s)"
proof (cases s)
  case (Cons b s1)
  show ?thesis
  proof (cases s1)
    case Nil
    with assms Cons show ?thesis by (cases t) (auto simp: low_escape_def)
  next
    case (Cons u s2)
    with assms \<open>s = b # s1\<close> show ?thesis
      by (cases "hex4 s2") (auto simp: low_escape_def dest: hex4_append)
  qed
qed (use assms in simp)

lemma read_escape_append:
  assumes "read_escape s = Some (n, r)" and "r \<noteq> []" and "r \<noteq> [92]"
  shows "read_escape (s @ t) = Some (n, r @ t)"
proof -
  from assms(1) obtain c s' where s: "s = c # s'" by (cases s) (auto simp: read_escape_def)
  show ?thesis
  proof (cases "c = 117")
    case False
    with assms(1) show ?thesis unfolding s by (auto simp: read_escape_def split: if_splits)
  next
    case True
    with assms(1) have u: "read_u s' = Some (n, r)" by (simp add: s read_escape_def)
    then obtain m s1 where h: "hex4 s' = Some (m, s1)" by (auto simp: read_u_def split: option.splits)
    have "read_u (s' @ t) = Some (n, r @ t)"
    proof (cases "high_surrogate m")
      case False
      with u h show ?thesis by (simp add: read_u_def hex4_append)
    next
      case hs: True
      have ne: "s1 \<noteq> []" "s1 \<noteq> [92]"
        using u h hs assms(2,3) by (auto simp: read_u_def low_escape_def)
      have "low_escape s1 \<noteq> Some None" using u h hs by (auto simp: read_u_def)
      note le = low_escape_append [OF ne this]
      show ?thesis
        using u h hs by (auto simp: read_u_def hex4_append [OF h] le split: option.splits if_splits)
    qed
    with True show ?thesis by (simp add: s read_escape_def)
  qed
qed

lemma read_string_nonempty: "read_string s = Some (t, r) \<Longrightarrow> s \<noteq> [] \<and> s \<noteq> [92]"
  by (auto simp: read_string.simps read_escape_def)

lemma read_string_append: "read_string s = Some (x, r) \<Longrightarrow> read_string (s @ t) = Some (x, r @ t)"
proof (induction "length s" arbitrary: s x r rule: less_induct)
  case less
  from less.prems obtain c s' where s: "s = c # s'" by (cases s) (auto simp: read_string.simps)
  consider "c = 34" | "c = 92" | "c \<noteq> 34" "c \<noteq> 92" by blast
  then show ?case
  proof cases
    case 1
    with less.prems show ?thesis by (simp add: s read_string.simps)
  next
    case 2
    with less.prems obtain n s2 y where e: "read_escape s' = Some (n, s2)" and l: "length s2 < length s"
      and rest: "read_string s2 = Some (y, r)" and x: "x = n # y"
      by (subst (asm) read_string.simps) (auto simp: s split: option.splits if_splits)
    from read_string_nonempty [OF rest] have "read_escape (s' @ t) = Some (n, s2 @ t)"
      using e by (simp add: read_escape_append)
    moreover have "read_string (s2 @ t) = Some (y, r @ t)" using less.hyps [OF l rest] .
    ultimately show ?thesis using 2 l x by (subst read_string.simps) (simp add: s)
  next
    case 3
    with less.prems obtain y where c: "\<not> c < 32" and rest: "read_string s' = Some (y, r)" and x: "x = c # y"
      by (subst (asm) read_string.simps) (auto simp: s split: if_splits)
    from less.hyps [OF _ rest] s have "read_string (s' @ t) = Some (y, r @ t)" by simp
    with 3 c x show ?thesis by (subst read_string.simps) (simp add: s)
  qed
qed

section \<open>Numbers\<close>

definition delim :: "utext \<Rightarrow> bool" where
  \<comment> \<open>what can follow a value inside an array or an object\<close>
  "delim r = (case r of [] \<Rightarrow> False | c # _ \<Rightarrow> ws c \<or> c = 44 \<or> c = 93 \<or> c = 125)"

lemma span_append:
  "dropWhile p s \<noteq> [] \<Longrightarrow> takeWhile p (s @ t) = takeWhile p s \<and> dropWhile p (s @ t) = dropWhile p s @ t"
  by (induction s) auto

lemma read_digits_append: "read_digits s = Some (ds, r) \<Longrightarrow> r \<noteq> [] \<Longrightarrow> read_digits (s @ t) = Some (ds, r @ t)"
  using span_append [of digit s t] by (cases s) (auto simp: read_digits_def split: if_splits)

lemma delim_stops: "delim r \<Longrightarrow> r \<noteq> [] \<and> read_fraction (r @ t) = ([], r @ t) \<and> read_exponent (r @ t) = ([], r @ t)"
  by (cases r) (auto simp: delim_def ws_def read_fraction_def read_exponent_def Let_def)

lemma read_exponent_append:
  assumes "read_exponent s = (ex, r)" and "ex \<noteq> []" and "r \<noteq> []"
  shows "read_exponent (s @ t) = (ex, r @ t)"
proof (cases s)
  case (Cons c s')
  define sign where "sign = (case s' of d # _ \<Rightarrow> if d = 43 \<or> d = 45 then [d] else [] | [] \<Rightarrow> [])"
  have e: "c = 101 \<or> c = 69" and r: "r = dropWhile digit (drop (length sign) s')"
    and x: "ex = c # sign @ takeWhile digit (drop (length sign) s')"
    and ne: "takeWhile digit (drop (length sign) s') \<noteq> []"
    using assms by (auto simp: Cons read_exponent_def Let_def sign_def [symmetric] split: if_splits)
  have s': "s' \<noteq> []" and l: "length sign \<le> length s'" using ne by (auto simp: sign_def split: list.splits)
  have sg: "sign = (case s' @ t of d # _ \<Rightarrow> if d = 43 \<or> d = 45 then [d] else [] | [] \<Rightarrow> [])"
    using s' by (cases s') (simp_all add: sign_def)
  show ?thesis
    using e ne x r assms(3) l span_append [of digit "drop (length sign) s'" t]
    by (simp add: Cons read_exponent_def Let_def sg [symmetric])
qed (use assms in \<open>simp add: read_exponent_def\<close>)

lemma read_exponent_rest: "read_exponent s = (ex, r) \<Longrightarrow> r \<noteq> [] \<Longrightarrow> s \<noteq> []"
  by (auto simp: read_exponent_def)

lemma read_fraction_append:
  assumes "read_fraction s = (fr, r)" and "fr \<noteq> []" and "r \<noteq> []"
  shows "read_fraction (s @ t) = (fr, r @ t)"
  using assms span_append [of digit "tl s" t] by (cases s) (auto simp: read_fraction_def split: if_splits)

lemma read_fraction_none:
  assumes "read_fraction s = ([], r)" and "read_exponent r = (ex, r')" and "ex \<noteq> []"
  shows "r = s \<and> read_fraction (s @ t) = ([], s @ t)"
  using assms by (cases s) (auto simp: read_fraction_def read_exponent_def Let_def split: if_splits)

lemma read_number_append:
  assumes "read_number s = Some (v, r)" and "delim r"
  shows "read_number (s @ t) = Some (v, r @ t)"
proof -
  define neg where "neg = (case s of c # _ \<Rightarrow> c = 45 | [] \<Rightarrow> False)"
  let ?s = "if neg then tl s else s"
  from assms(1) obtain ds s1 where d: "read_digits ?s = Some (ds, s1)"
    unfolding read_number_def Let_def neg_def [symmetric] by (auto split: option.splits)
  obtain fr s2 where f: "read_fraction s1 = (fr, s2)" by fastforce
  obtain ex s3 where e: "read_exponent s2 = (ex, s3)" by fastforce
  have res: "if fr = [] \<and> ex = [] then r = s1 else r = s3"
    and v: "Some v = (if fr = [] \<and> ex = [] then if length ds \<le> 4300
        then Some (NInt (if neg then - digits_value ds else digits_value ds)) else None
      else Some (NFloat ((if neg then [45] else []) @ ds @ fr @ ex)))"
    using assms(1) unfolding read_number_def Let_def neg_def [symmetric] by (auto simp: d f e split: if_splits)
  have ne: "r \<noteq> []" and stop: "read_fraction (r @ t) = ([], r @ t)" "read_exponent (r @ t) = ([], r @ t)"
    using delim_stops [OF assms(2)] by auto
  have "\<exists>fr' s2'. read_fraction (s1 @ t) = (fr', s2') \<and> (\<exists>s3'. read_exponent s2' = (ex, s3') \<and> fr' = fr
      \<and> (if fr = [] \<and> ex = [] then s1 @ t = r @ t else s3' = r @ t))"
  proof (cases "fr = []")
    case fr: True
    show ?thesis
    proof (cases "ex = []")
      case True
      with fr res stop show ?thesis by simp
    next
      case False
      from read_fraction_none [of s1 s2 ex s3 t] f e fr False have "s2 = s1" "read_fraction (s1 @ t) = ([], s1 @ t)" by simp_all
      with read_exponent_append [OF e False] False res ne fr show ?thesis by simp
    qed
  next
    case False
    with res have r: "r = s3" by simp
    with read_exponent_rest [OF e] ne have "s2 \<noteq> []" by simp
    note f' = read_fraction_append [OF f False this, of t]
    show ?thesis
    proof (cases "ex = []")
      case True
      then have "s2 = s3" using e by (auto simp: read_exponent_def Let_def split: list.splits if_splits)
      with f' stop r True False show ?thesis by simp
    next
      case ex: False
      with f' read_exponent_append [OF e ex] r ne False show ?thesis by simp
    qed
  qed
  moreover have "s1 \<noteq> []"
  proof
    assume "s1 = []"
    with f e have "s2 = []" "s3 = []" by (auto simp: read_fraction_def read_exponent_def)
    with res ne \<open>s1 = []\<close> show False by (simp split: if_splits)
  qed
  then have "read_digits (?s @ t) = Some (ds, s1 @ t)" using read_digits_append [OF d] by simp
  moreover have "s \<noteq> []" using d by (auto simp: read_digits_def split: if_splits)
  then have "(case s @ t of c # _ \<Rightarrow> c = 45 | [] \<Rightarrow> False) = neg" and "(if neg then tl (s @ t) else s @ t) = ?s @ t"
    by (auto simp: neg_def split: list.splits)
  ultimately show ?thesis using v unfolding read_number_def Let_def by (auto split: if_splits)
qed

lemma read_literal_append:
  assumes "read_literal s = Some (v, r)" and "delim r"
  shows "read_literal (s @ t) = Some (v, r @ t)"
proof -
  have long: "take n s = w \<Longrightarrow> length w = n \<Longrightarrow> take n (s @ t) = w \<and> drop n (s @ t) = drop n s @ t" for n w
    by auto
  consider "take 4 s = asc ''null''" | "take 4 s = asc ''true''" | "take 5 s = asc ''false''"
    | "take 4 s \<noteq> asc ''null''" "take 4 s \<noteq> asc ''true''" "take 5 s \<noteq> asc ''false''" "read_number s = Some (v, r)"
    using assms(1) by (auto simp: read_literal_def split: if_splits)
  then show ?thesis
  proof cases
    case 1
    with long [of 4] assms(1) show ?thesis by (simp add: read_literal_def asc_def)
  next
    case 2
    with long [of 4] assms(1) show ?thesis by (simp add: read_literal_def asc_def)
  next
    case 3
    then have "hd s = 102" by (cases s) (auto simp: asc_def)
    then have "take 4 (s @ t) \<noteq> asc ''null''" "take 4 (s @ t) \<noteq> asc ''true''" "take 4 s \<noteq> asc ''null''" "take 4 s \<noteq> asc ''true''"
      using 3 by (cases s; auto simp: asc_def)+
    with 3 long [of 5] assms(1) show ?thesis by (simp add: read_literal_def asc_def)
  next
    case 4
    then obtain c s' where "s = c # s'" "c = 45 \<or> digit c" using number_head by blast
    then have "take 4 (s @ t) \<noteq> asc ''null''" "take 4 (s @ t) \<noteq> asc ''true''" "take 5 (s @ t) \<noteq> asc ''false''"
      by (auto simp: asc_def digit_def)
    with read_number_append [OF 4(4) assms(2)] show ?thesis by (simp add: read_literal_def)
  qed
qed

section \<open>Values\<close>

lemma parse_empty: "parse_value [] = None" "parse_items [] = None" "parse_members [] = None"
  by (simp_all add: parse_value.simps parse_items.simps parse_members.simps)

definition bracketed :: "jval \<Rightarrow> bool" where
  "bracketed v = (case v of NObj _ \<Rightarrow> True | NArr _ \<Rightarrow> True | NStr _ \<Rightarrow> True | _ \<Rightarrow> False)"

lemma opens_delim: "opens c (skip_ws r) \<Longrightarrow> c = 44 \<or> c = 93 \<or> c = 125 \<Longrightarrow> delim r"
  by (cases r) (auto simp: skip_ws_def delim_def split: if_splits)

lemma parse_value_append_step:
  assumes items: "\<And>s1 xs r. length s1 < length s \<Longrightarrow> parse_items s1 = Some (xs, r) \<Longrightarrow> parse_items (s1 @ t) = Some (xs, r @ t)"
    and members: "\<And>s1 kvs r. length s1 < length s \<Longrightarrow> parse_members s1 = Some (kvs, r) \<Longrightarrow> parse_members (s1 @ t) = Some (kvs, r @ t)"
    and p: "parse_value s = Some (v, r)" and d: "delim r \<or> bracketed v"
  shows "parse_value (s @ t) = Some (v, r @ t)"
proof -
  from p obtain c s' where s: "s = c # s'" by (cases s) (auto simp: parse_empty)
  let ?s1 = "skip_ws s'"
  consider "c = 34" | "c = 91" | "c = 123" | "c \<noteq> 34" "c \<noteq> 91" "c \<noteq> 123" by blast
  then show ?thesis
  proof cases
    case 1
    with p show ?thesis unfolding s
      by (auto simp: parse_value.simps [of "34 # w" for w] dest: read_string_append)
  next
    case 2
    show ?thesis
    proof (cases "opens 93 ?s1")
      case True
      with p 2 show ?thesis unfolding s
        by (auto simp: parse_value.simps [of "91 # w" for w] skip_opens_append [OF True] opens_append opens_nonempty)
    next
      case False
      with p 2 obtain xs where l: "length ?s1 < length s" and xs: "parse_items ?s1 = Some (xs, r)" and v: "v = NArr xs"
        by (auto simp: s parse_value.simps [of "91 # w" for w] Let_def split: if_splits)
      from xs have ne: "?s1 \<noteq> []" by (auto simp: parse_empty)
      with False items [OF l xs] l v 2 show ?thesis
        by (simp add: s parse_value.simps [of "91 # w" for w] Let_def skip_ws_append [OF ne] opens_append_iff)
    qed
  next
    case 3
    show ?thesis
    proof (cases "opens 125 ?s1")
      case True
      with p 3 show ?thesis unfolding s
        by (auto simp: parse_value.simps [of "123 # w" for w] skip_opens_append [OF True] opens_append opens_nonempty)
    next
      case False
      with p 3 obtain kvs where l: "length ?s1 < length s" and kvs: "parse_members ?s1 = Some (kvs, r)" and v: "v = NObj kvs"
        by (auto simp: s parse_value.simps [of "123 # w" for w] Let_def split: if_splits)
      from kvs have ne: "?s1 \<noteq> []" by (auto simp: parse_empty)
      with False members [OF l kvs] l v 3 show ?thesis
        by (simp add: s parse_value.simps [of "123 # w" for w] Let_def skip_ws_append [OF ne] opens_append_iff)
    qed
  next
    case 4
    with p have lit: "read_literal s = Some (v, r)" by (simp add: s parse_value.simps [of "c # w" for w])
    then have "\<not> bracketed v"
      by (auto simp: read_literal_def read_number_def bracketed_def Let_def split: if_splits option.splits prod.splits)
    with d read_literal_append [OF lit] 4 show ?thesis by (simp add: s parse_value.simps [of "c # w" for w])
  qed
qed

lemma parse_append:
  "(\<forall>v r. parse_value s = Some (v, r) \<longrightarrow> delim r \<or> bracketed v \<longrightarrow> parse_value (s @ t) = Some (v, r @ t))
   \<and> (\<forall>xs r. parse_items s = Some (xs, r) \<longrightarrow> parse_items (s @ t) = Some (xs, r @ t))
   \<and> (\<forall>kvs r. parse_members s = Some (kvs, r) \<longrightarrow> parse_members (s @ t) = Some (kvs, r @ t))"
proof (induction "length s" arbitrary: s rule: less_induct)
  case less
  have val: "parse_value (s @ t) = Some (v, r @ t)" if "parse_value s = Some (v, r)" "delim r \<or> bracketed v" for v r
    by (rule parse_value_append_step [OF _ _ that]) (use less.hyps in blast)+
  have items: "parse_items (s @ t) = Some (xs, r @ t)" if p: "parse_items s = Some (xs, r)" for xs r
  proof -
    from p obtain x r0 where x: "parse_value s = Some (x, r0)"
      by (subst (asm) parse_items.simps) (auto split: option.splits)
    let ?r1 = "skip_ws r0"
    consider (stop) "opens 93 ?r1" "xs = [x]" "r = tl ?r1"
      | (more) ys where "opens 44 ?r1" "length (skip_ws (tl ?r1)) < length s"
          "parse_items (skip_ws (tl ?r1)) = Some (ys, r)" "xs = x # ys"
      using p x by (subst (asm) parse_items.simps) (auto simp: Let_def split: if_splits)
    then show ?thesis
    proof cases
      case stop
      with val [OF x] opens_delim [OF stop(1)] have "parse_value (s @ t) = Some (x, r0 @ t)" by simp
      with stop show ?thesis
        by (subst parse_items.simps) (simp add: Let_def skip_opens_append opens_append opens_nonempty)
    next
      case more
      with val [OF x] opens_delim [OF more(1)] have pv: "parse_value (s @ t) = Some (x, r0 @ t)" by simp
      have ne: "skip_ws (tl ?r1) \<noteq> []" using more(3) by (auto simp: parse_empty)
      have "parse_items (skip_ws (tl ?r1) @ t) = Some (ys, r @ t)" using less.hyps [OF more(2)] more(3) by blast
      moreover have "\<not> opens 93 ?r1" using more(1) by (cases ?r1) auto
      ultimately show ?thesis using pv more
        by (subst parse_items.simps)
          (simp add: Let_def skip_opens_append opens_append_iff opens_nonempty skip_ws_append [OF ne])
    qed
  qed
  have members: "parse_members (s @ t) = Some (kvs, r @ t)" if p: "parse_members s = Some (kvs, r)" for kvs r
  proof -
    from p obtain k r0 where q: "opens 34 s" and k: "read_string (tl s) = Some (k, r0)"
      by (subst (asm) parse_members.simps) (auto split: if_splits option.splits)
    let ?r2 = "skip_ws (tl (skip_ws r0))"
    from p q k obtain x r1 where colon: "opens 58 (skip_ws r0)" and l: "length ?r2 < length s"
      and x: "parse_value ?r2 = Some (x, r1)"
      by (subst (asm) parse_members.simps) (auto simp: Let_def split: if_splits option.splits)
    let ?r3 = "skip_ws r1"
    consider (stop) "opens 125 ?r3" "kvs = [(k, x)]" "r = tl ?r3"
      | (more) ys where "opens 44 ?r3" "length (skip_ws (tl ?r3)) < length s"
          "parse_members (skip_ws (tl ?r3)) = Some (ys, r)" "kvs = (k, x) # ys"
      using p q k colon l x by (subst (asm) parse_members.simps) (auto simp: Let_def split: if_splits)
    note cases = this
    have ne2: "?r2 \<noteq> []" using x by (auto simp: parse_empty)
    have d: "delim r1" using cases opens_delim [of 125 r1] opens_delim [of 44 r1] by auto
    then have pv: "parse_value (?r2 @ t) = Some (x, r1 @ t)" using less.hyps [OF l] x by blast
    have str: "read_string (tl (s @ t)) = Some (k, r0 @ t)" using read_string_append [OF k] opens_nonempty [OF q] by simp
    have r2: "skip_ws (tl (skip_ws (r0 @ t))) = ?r2 @ t" "opens 58 (skip_ws (r0 @ t))"
      using colon by (simp_all add: skip_opens_append opens_append opens_nonempty skip_ws_append [OF ne2])
    from cases show ?thesis
    proof cases
      case stop
      with q str r2 l pv show ?thesis
        by (subst parse_members.simps) (simp add: Let_def skip_opens_append opens_append opens_nonempty)
    next
      case more
      have ne: "skip_ws (tl ?r3) \<noteq> []" using more(3) by (auto simp: parse_empty)
      have "parse_members (skip_ws (tl ?r3) @ t) = Some (ys, r @ t)" using less.hyps [OF more(2)] more(3) by blast
      moreover have "\<not> opens 125 ?r3" using more(1) by (cases ?r3) auto
      ultimately show ?thesis using q str r2 l pv more
        by (subst parse_members.simps)
          (simp add: Let_def skip_opens_append opens_append opens_append_iff opens_nonempty skip_ws_append [OF ne])
    qed
  qed
  from val items members show ?case by blast
qed

theorem object_prefix_free:
  assumes "wf_json (NObj kvs)" and "dumps (NObj kvs) = p @ rest" and "loads p = Some (NObj kvs')"
  shows "rest = [] \<and> kvs' = kvs"
proof -
  have "p \<noteq> []" using assms(3) by (auto simp: loads_def skip_ws_def parse_empty)
  then obtain q where q: "p = 123 # q" using assms(2) by (cases p) auto
  then have skip: "skip_ws p = p" by (simp add: skip_ws_def ws_def)
  from assms(3) obtain r where r: "parse_value p = Some (NObj kvs', r)"
    by (auto simp: loads_def skip split: option.splits if_splits)
  have "parse_value (p @ rest) = Some (NObj kvs', r @ rest)"
    using parse_append [of p rest] r by (simp add: bracketed_def)
  moreover have "parse_value (dumps (NObj kvs)) = Some (NObj kvs, [])"
    using parse_dumps(1) [OF wf_readable [OF assms(1)], of "[]"] by (simp add: stops_def)
  ultimately show ?thesis using assms(2) by simp
qed

end
