(* ===== verification/Publication_Phase.thy ===== *)
theory Publication_Phase
  imports Json_Prefix Control_Db
begin

text \<open>
  The publication gate of an attempt (\<^verbatim>\<open>_publication_phase.py\<close>): a publisher that is about to start its
  transaction and a supervisor that closes an unpublished attempt compete for one decision file, created
  exclusively. Operations are programs over the calls they make to the file system, to the registry of
  fencing proofs and to the closure context, so that operations of several processes interleave between
  any two calls. Every call of the file system may also fail.

  A descriptor stands for the path it was opened with. Bytes outside ASCII, and floats, occur only in files
  the program did not write; what \<^verbatim>\<open>json.loads\<close> makes of them is a parameter. The constants \<^verbatim>\<open>NaN\<close> and
  \<^verbatim>\<open>Infinity\<close> are unreadable here.
\<close>

section \<open>Attempts\<close>

record RefreshAttempt =
  \<comment> \<open>the attributes of a \<^verbatim>\<open>RefreshCapability\<close> the gate reads\<close>
  ra_job_id :: string
  ra_attempt :: int
  ra_graph_id :: string
  ra_coordinator_instance_id :: "string option"
  ra_singleton_fencing_epoch :: int
  ra_generations :: generations
  ra_graph_lease_epoch :: int

datatype phase_attempt = OfClaim JobClaim | OfCapability RefreshAttempt

definition jstr :: "string \<Rightarrow> jval" where "jstr s = NStr (asc s)"

definition generation_members :: "generations \<Rightarrow> (utext \<times> jval) list" where
  "generation_members g =
     (case g of (sg, cg, eg, kg) \<Rightarrow>
        [(asc ''source_generation'', jstr sg), (asc ''config_generation'', jstr cg),
         (asc ''extractor_generation'', jstr eg), (asc ''canonicalizer_generation'', jstr kg)])"

fun identity :: "phase_attempt \<Rightarrow> (utext \<times> jval) list" where
  "identity (OfClaim c) =
     [(asc ''job_id'', jstr (c_job_id c)), (asc ''attempt'', NInt (c_attempt c)),
      (asc ''graph_id'', jstr (c_graph_id c)), (asc ''instance'', jstr (c_instance_id c)),
      (asc ''epoch'', NInt (c_fencing_epoch c))] @ generation_members (c_generations c)"
| "identity (OfCapability r) =
     [(asc ''job_id'', jstr (ra_job_id r)), (asc ''attempt'', NInt (ra_attempt r)),
      (asc ''graph_id'', jstr (ra_graph_id r)),
      (asc ''instance'', case ra_coordinator_instance_id r of
         Some s \<Rightarrow> if s = '''' then NNull else jstr s | None \<Rightarrow> NNull),
      (asc ''epoch'', if ra_singleton_fencing_epoch r = 0 then NNull else NInt (ra_singleton_fencing_epoch r))]
     @ generation_members (ra_generations r)"

fun graph_lease_epoch :: "phase_attempt \<Rightarrow> int" where
  "graph_lease_epoch (OfClaim c) = c_graph_lease_epoch c"
| "graph_lease_epoch (OfCapability r) = ra_graph_lease_epoch r"

definition fencing_identity :: "phase_attempt \<Rightarrow> (utext \<times> jval) list" where
  "fencing_identity a = identity a @ [(asc ''graph_lease_epoch'', NInt (graph_lease_epoch a))]"

record phase_config =
  pc_sha256 :: "utext \<Rightarrow> string"
  pc_float_is :: "utext \<Rightarrow> int \<Rightarrow> bool"
  pc_decode :: "nat list \<Rightarrow> utext option"

definition evidence_path :: "phase_config \<Rightarrow> phase_attempt \<Rightarrow> string \<Rightarrow> string" where
  \<comment> \<open>\<^verbatim>\<open>_path\<close>, within the directory\<close>
  "evidence_path cfg a suffix =
     ''publication-'' @ pc_sha256 cfg (dumps (canonical (NObj (identity a)))) @ ''.'' @ suffix @ ''.json''"

section \<open>Programs\<close>

datatype call =
    CValidate
  | COpen string
  | CStat string
  | CRead string
  | CCreate string
  | CWrite string "nat list"
  | CSync
  | CUnlink string
  | CProof nat
  | CPop nat
  | CEnter
  | CExit

datatype reply =
    ROk
  | RErr py_error
  | RStat bool nat
  | RBytes "nat list"
  | RCount nat
  | RProof "(utext \<times> jval) list"

datatype 'a prog = Return 'a | Raise py_error | Do call "reply \<Rightarrow> 'a prog"

primrec bindP :: "'a prog \<Rightarrow> ('a \<Rightarrow> 'b prog) \<Rightarrow> 'b prog" where
  "bindP (Return x) f = f x"
| "bindP (Raise e) f = Raise e"
| "bindP (Do c k) f = Do c (\<lambda>r. bindP (k r) f)"

primrec catchP :: "'a prog \<Rightarrow> (py_error \<Rightarrow> 'a prog) \<Rightarrow> 'a prog" where
  "catchP (Return x) h = Return x"
| "catchP (Raise e) h = h e"
| "catchP (Do c k) h = Do c (\<lambda>r. catchP (k r) h)"

definition ask :: "call \<Rightarrow> (reply \<Rightarrow> 'a prog) \<Rightarrow> 'a prog" where
  \<comment> \<open>a call whose exception is not handled here\<close>
  "ask c f = Do c (\<lambda>r. case r of RErr e \<Rightarrow> Raise e | _ \<Rightarrow> f r)"

primrec leaving :: "'a prog \<Rightarrow> 'a prog" where
  \<comment> \<open>the end of a \<^verbatim>\<open>with\<close> block: the context is left on every way out, and leaving it may raise\<close>
  "leaving (Return x) = ask CExit (\<lambda>_. Return x)"
| "leaving (Raise e) = ask CExit (\<lambda>_. Raise e)"
| "leaving (Do c k) = Do c (\<lambda>r. leaving (k r))"

section \<open>Evidence files\<close>

function write_loop :: "string \<Rightarrow> nat list \<Rightarrow> unit prog" where
  "write_loop path data =
     (if data = [] then Return ()
      else ask (CWrite path data) (\<lambda>r.
        case r of
          RCount n \<Rightarrow> if n = 0 then Raise (OSError ''publication evidence write failed'')
                     else write_loop path (drop n data)
        | _ \<Rightarrow> Raise (OSError ''write'')))"
  by pat_completeness auto
termination by (relation "measure (length \<circ> snd)") auto

declare write_loop.simps [simp del]

definition evidence_data :: "(utext \<times> jval) list \<Rightarrow> nat list" where
  "evidence_data payload = dumps (canonical (NObj payload))"

definition write_evidence :: "string \<Rightarrow> (utext \<times> jval) list \<Rightarrow> unit prog" where
  "write_evidence path payload =
     ask (CCreate path) (\<lambda>_.
     bindP (write_loop path (evidence_data payload)) (\<lambda>_.
     ask CSync (\<lambda>_. ask CSync (\<lambda>_. Return ()))))"

definition loads_bytes :: "phase_config \<Rightarrow> nat list \<Rightarrow> jval option" where
  "loads_bytes cfg b = (if list_all (\<lambda>c. 0 < c \<and> c < 128) b then loads b else Option.bind (pc_decode cfg b) loads)"

definition MAX_EVIDENCE :: nat where "MAX_EVIDENCE = 4096"

definition stat_and_load :: "phase_config \<Rightarrow> string \<Rightarrow> (utext \<times> jval) list prog" where
  \<comment> \<open>from \<^verbatim>\<open>fstat\<close> to the decoded object\<close>
  "stat_and_load cfg path =
     ask (CStat path) (\<lambda>r. case r of
       RStat private bytes \<Rightarrow>
         if \<not> (private \<and> 0 < bytes \<and> bytes \<le> MAX_EVIDENCE) then Raise (ValueError ''invalid publication evidence'')
         else ask (CRead path) (\<lambda>r. case r of
           RBytes b \<Rightarrow> (case loads_bytes cfg b of
               Some (NObj kvs) \<Rightarrow> Return kvs
             | _ \<Rightarrow> Raise (ValueError ''invalid publication evidence''))
         | _ \<Rightarrow> Raise (OSError ''read''))
     | _ \<Rightarrow> Raise (OSError ''fstat''))"

definition read_evidence :: "phase_config \<Rightarrow> string \<Rightarrow> (utext \<times> jval) list prog" where
  "read_evidence cfg path = ask (COpen path) (\<lambda>_. stat_and_load cfg path)"

fun value_is :: "phase_config \<Rightarrow> jval \<Rightarrow> jval \<Rightarrow> bool" where
  \<comment> \<open>\<^verbatim>\<open>v == w\<close> for a decoded \<open>v\<close> and a string, integer or \<^verbatim>\<open>None\<close>\<close>
  "value_is cfg (NInt i) (NInt j) = (i = j)"
| "value_is cfg (NBool b) (NInt j) = ((if b then 1 else 0) = j)"
| "value_is cfg (NFloat t) (NInt j) = pc_float_is cfg t j"
| "value_is cfg (NStr s) (NStr t) = (s = t)"
| "value_is cfg NNull NNull = True"
| "value_is cfg _ _ = False"

definition member :: "(utext \<times> jval) list \<Rightarrow> utext \<Rightarrow> jval option" where
  \<comment> \<open>of a decoded object: the last of equal keys counts\<close>
  "member kvs k = map_of (rev kvs) k"

definition payload_is :: "phase_config \<Rightarrow> (utext \<times> jval) list \<Rightarrow> (utext \<times> jval) list \<Rightarrow> bool" where
  \<comment> \<open>\<^verbatim>\<open>payload == identity\<close>\<close>
  "payload_is cfg kvs ident =
     (list_all (\<lambda>k. List.member (map fst ident) k) (map fst kvs)
      \<and> list_all (\<lambda>(k, w). case member kvs k of None \<Rightarrow> False | Some v \<Rightarrow> value_is cfg v w) ident)"

definition STATE_KEY :: utext where "STATE_KEY = asc ''publication_state''"

definition pop_state :: "(utext \<times> jval) list \<Rightarrow> jval \<times> (utext \<times> jval) list" where
  \<comment> \<open>\<^verbatim>\<open>payload.pop("publication_state", None)\<close>\<close>
  "pop_state kvs = (case member kvs STATE_KEY of None \<Rightarrow> NNull | Some v \<Rightarrow> v, filter (\<lambda>(k, v). k \<noteq> STATE_KEY) kvs)"

definition says_not_started :: "phase_config \<Rightarrow> phase_attempt \<Rightarrow> (utext \<times> jval) list \<Rightarrow> bool" where
  "says_not_started cfg a kvs =
     (case pop_state kvs of (state, payload) \<Rightarrow> payload_is cfg payload (identity a) \<and> state = jstr ''not_started'')"

section \<open>Operations\<close>

definition initialize :: "phase_config \<Rightarrow> phase_attempt \<Rightarrow> unit prog" where
  "initialize cfg a =
     ask CValidate (\<lambda>_. write_evidence (evidence_path cfg a ''initial'') (identity a))"

definition decision_payload :: "phase_attempt \<Rightarrow> string \<Rightarrow> (utext \<times> jval) list" where
  "decision_payload a state = identity a @ [(STATE_KEY, jstr state)]"

definition before_publication :: "phase_config \<Rightarrow> phase_attempt \<Rightarrow> unit prog" where
  "before_publication cfg a =
     bindP (read_evidence cfg (evidence_path cfg a ''initial'')) (\<lambda>payload.
     if \<not> payload_is cfg payload (identity a) then Raise (ValueError ''publication evidence identity mismatch'')
     else write_evidence (evidence_path cfg a ''decision'') (decision_payload a ''transaction_started''))"

definition validate_proof :: "nat \<Rightarrow> phase_attempt \<Rightarrow> unit prog" where
  "validate_proof pid a =
     ask (CProof pid) (\<lambda>r. if r = RProof (fencing_identity a) then Return ()
       else Raise (ValueError ''Worker fencing proof identity mismatch''))"

definition open_closure_context :: "nat \<Rightarrow> phase_attempt \<Rightarrow> 'a prog \<Rightarrow> 'a prog" where
  \<comment> \<open>\<^verbatim>\<open>with proof.open_closure_context(attempt):\<close> the proof is consumed before anything else\<close>
  "open_closure_context pid a body =
     ask (CPop pid) (\<lambda>r. if r = RProof (fencing_identity a) then ask CEnter (\<lambda>_. leaving body)
       else Raise (ValueError ''Worker fencing proof identity mismatch''))"

fun is_TypeError :: "py_error \<Rightarrow> bool" where
  "is_TypeError (TypeError _) = True"
| "is_TypeError _ = False"

definition evidence_error :: "py_error \<Rightarrow> bool" where
  "evidence_error e = (is_OSError e \<or> is_ValueError e \<or> is_TypeError e)"

definition close_unpublished :: "phase_config \<Rightarrow> phase_attempt \<Rightarrow> nat option \<Rightarrow> bool prog" where
  "close_unpublished cfg a proof_object =
     (case proof_object of
        None \<Rightarrow> Raise (TypeError ''Authoritative WorkerFencingProof is required to close unpublished attempt'')
      | Some pid \<Rightarrow>
          bindP (validate_proof pid a) (\<lambda>_.
          catchP
            (ask CValidate (\<lambda>_.
             bindP (read_evidence cfg (evidence_path cfg a ''initial'')) (\<lambda>payload.
             if \<not> payload_is cfg payload (identity a) then Return False
             else open_closure_context pid a (
               bindP (catchP (write_evidence (evidence_path cfg a ''decision'') (decision_payload a ''not_started''))
                        (\<lambda>e. case e of FileExistsError _ \<Rightarrow> Return () | _ \<Rightarrow> Raise e)) (\<lambda>_.
               bindP (read_evidence cfg (evidence_path cfg a ''decision'')) (\<lambda>kvs.
               Return (says_not_started cfg a kvs)))))))
            (\<lambda>e. if evidence_error e then Return False else Raise e)))"

definition publication_state :: "phase_config \<Rightarrow> phase_attempt \<Rightarrow> string prog" where
  "publication_state cfg a =
     catchP
       (ask CValidate (\<lambda>_.
        bindP (read_evidence cfg (evidence_path cfg a ''initial'')) (\<lambda>payload.
        if \<not> payload_is cfg payload (identity a) then Return ''commit_unknown''
        else bindP (read_evidence cfg (evidence_path cfg a ''decision'')) (\<lambda>kvs.
          Return (if says_not_started cfg a kvs then ''not_started'' else ''commit_unknown'')))))
       (\<lambda>e. if evidence_error e then Return ''commit_unknown'' else Raise e)"

definition check_decision :: "jval \<Rightarrow> unit prog" where
  \<comment> \<open>membership in a set hashes the value, which lists and dictionaries refuse\<close>
  "check_decision state =
     (case state of
        NArr _ \<Rightarrow> Raise (TypeError ''unhashable'')
      | NObj _ \<Rightarrow> Raise (TypeError ''unhashable'')
      | _ \<Rightarrow> if state = jstr ''not_started'' \<or> state = jstr ''transaction_started'' then Return ()
             else Raise (ValueError ''invalid publication decision evidence''))"

definition candidate_valid :: "phase_config \<Rightarrow> phase_attempt \<Rightarrow> string \<Rightarrow> bool prog" where
  \<comment> \<open>one candidate of \<^verbatim>\<open>retire_evidence\<close>: missing is \<open>False\<close>\<close>
  "candidate_valid cfg a suffix =
     (let path = evidence_path cfg a suffix
      in Do (COpen path) (\<lambda>r. case r of
           RErr e \<Rightarrow> if is_FileNotFoundError e then Return False
                    else if is_OSError e then Raise (ValueError ''cannot open publication evidence file'')
                    else Raise e
         | _ \<Rightarrow> bindP (stat_and_load cfg path) (\<lambda>kvs.
             if suffix = ''decision''
             then (case pop_state kvs of (state, payload) \<Rightarrow>
                     bindP (check_decision state) (\<lambda>_.
                     if payload_is cfg payload (identity a) then Return True
                     else Raise (ValueError ''publication evidence identity mismatch'')))
             else if payload_is cfg kvs (identity a) then Return True
             else Raise (ValueError ''publication evidence identity mismatch''))))"

primrec unlink_all :: "string list \<Rightarrow> unit prog" where
  "unlink_all [] = Return ()"
| "unlink_all (p # ps) =
     Do (CUnlink p) (\<lambda>r. case r of
       RErr e \<Rightarrow> if is_FileNotFoundError e then unlink_all ps else Raise e
     | _ \<Rightarrow> unlink_all ps)"

definition retire_phase :: "phase_config \<Rightarrow> phase_attempt \<Rightarrow> string list prog" where
  \<comment> \<open>\<^verbatim>\<open>retire_evidence\<close>\<close>
  "retire_phase cfg a =
     ask CValidate (\<lambda>_.
     bindP (candidate_valid cfg a ''initial'') (\<lambda>first.
     bindP (candidate_valid cfg a ''decision'') (\<lambda>second.
     let validated = (if first then [evidence_path cfg a ''initial''] else [])
                   @ (if second then [evidence_path cfg a ''decision''] else [])
     in if validated = [] then Return []
        else bindP (unlink_all validated) (\<lambda>_. ask CSync (\<lambda>_. ask CSync (\<lambda>_. Return validated))))))"

section \<open>The world the calls act on\<close>

record evidence_file =
  ef_private :: bool \<comment> \<open>a regular file of this user with one link and mode 0600\<close>
  ef_data :: "nat list"

record phase_world =
  pw_private :: bool \<comment> \<open>the directory passes \<^verbatim>\<open>validate_private_directory\<close>\<close>
  pw_files :: "string \<Rightarrow> evidence_file option"
  pw_proofs :: "nat \<Rightarrow> (utext \<times> jval) list option" \<comment> \<open>\<^verbatim>\<open>_PROOFS\<close>\<close>
  pw_consumed :: "nat list" \<comment> \<open>\<^verbatim>\<open>_CONSUMED_PROOFS\<close>\<close>
  pw_issued :: nat

definition issue_fencing_proof :: "phase_attempt \<Rightarrow> phase_world \<Rightarrow> nat \<times> phase_world" where
  "issue_fencing_proof a w =
     (pw_issued w, w\<lparr>pw_proofs := (pw_proofs w)(pw_issued w \<mapsto> fencing_identity a), pw_issued := pw_issued w + 1\<rparr>)"

definition proof_record :: "nat \<Rightarrow> phase_world \<Rightarrow> (utext \<times> jval) list result" where
  "proof_record pid w =
     (if List.member (pw_consumed w) pid
      then Inl (PermissionError ''WorkerFencingProof has already been consumed or invalidated'')
      else case pw_proofs w pid of
        None \<Rightarrow> Inl (PermissionError ''WorkerFencingProof cannot be fabricated'')
      | Some ident \<Rightarrow> Inr ident)"

definition pop_proof :: "nat \<Rightarrow> phase_world \<Rightarrow> phase_world" where
  "pop_proof pid w =
     (case proof_record pid w of
        Inl _ \<Rightarrow> w
      | Inr _ \<Rightarrow> w\<lparr>pw_proofs := (pw_proofs w)(pid := None), pw_consumed := pid # pw_consumed w\<rparr>)"

fun proof_reply :: "(utext \<times> jval) list result \<Rightarrow> reply" where
  "proof_reply (Inl e) = RErr e"
| "proof_reply (Inr ident) = RProof ident"

definition append_data :: "string \<Rightarrow> nat list \<Rightarrow> phase_world \<Rightarrow> phase_world" where
  "append_data p b w =
     (case pw_files w p of
        None \<Rightarrow> w
      | Some f \<Rightarrow> w\<lparr>pw_files := (pw_files w)(p \<mapsto> f\<lparr>ef_data := ef_data f @ b\<rparr>)\<rparr>)"

definition may_fail :: "call \<Rightarrow> py_error \<Rightarrow> bool" where
  \<comment> \<open>entering or leaving the context may raise anything the store raises\<close>
  "may_fail c e =
     (case c of
        CProof _ \<Rightarrow> False
      | CPop _ \<Rightarrow> False
      | CEnter \<Rightarrow> True
      | CExit \<Rightarrow> True
      | CValidate \<Rightarrow> e = ValueError ''invalid refresh capability''
      | _ \<Rightarrow> is_OSError e \<and> (case e of FileExistsError _ \<Rightarrow> False | _ \<Rightarrow> True))"

fun faultless :: "call \<Rightarrow> phase_world \<Rightarrow> reply \<times> phase_world" where
  \<comment> \<open>the answer when nothing fails and writes are complete\<close>
  "faultless CValidate w = (if pw_private w then ROk else RErr (ValueError ''invalid refresh capability''), w)"
| "faultless (COpen p) w = (case pw_files w p of None \<Rightarrow> RErr (FileNotFoundError p) | Some _ \<Rightarrow> ROk, w)"
| "faultless (CStat p) w =
     (case pw_files w p of None \<Rightarrow> RStat False 0 | Some f \<Rightarrow> RStat (ef_private f) (length (ef_data f)), w)"
| "faultless (CRead p) w =
     (case pw_files w p of None \<Rightarrow> RErr (OSError p) | Some f \<Rightarrow> RBytes (take (MAX_EVIDENCE + 1) (ef_data f)), w)"
| "faultless (CCreate p) w =
     (case pw_files w p of
        None \<Rightarrow> (ROk, w\<lparr>pw_files := (pw_files w)(p \<mapsto> \<lparr>ef_private = True, ef_data = []\<rparr>)\<rparr>)
      | Some _ \<Rightarrow> (RErr (FileExistsError p), w))"
| "faultless (CWrite p b) w = (RCount (length b), append_data p b w)"
| "faultless CSync w = (ROk, w)"
| "faultless (CUnlink p) w =
     (case pw_files w p of
        None \<Rightarrow> (RErr (FileNotFoundError p), w) | Some _ \<Rightarrow> (ROk, w\<lparr>pw_files := (pw_files w)(p := None)\<rparr>))"
| "faultless (CProof pid) w = (proof_reply (proof_record pid w), w)"
| "faultless (CPop pid) w = (proof_reply (proof_record pid w), pop_proof pid w)"
| "faultless CEnter w = (ROk, w)"
| "faultless CExit w = (ROk, w)"

definition answers :: "call \<Rightarrow> phase_world \<Rightarrow> reply \<Rightarrow> phase_world \<Rightarrow> bool" where
  \<comment> \<open>what a call may do: its faultless answer, a short write, or an error that changes nothing\<close>
  "answers c w r w' =
     ((r, w') = faultless c w
      \<or> (case (c, r) of
           (CWrite p b, RCount n) \<Rightarrow> n \<le> length b \<and> w' = append_data p (take n b) w
         | (_, RErr e) \<Rightarrow> w' = w \<and> may_fail c e
         | _ \<Rightarrow> False))"

primrec run :: "'a prog \<Rightarrow> phase_world \<Rightarrow> 'a result \<times> phase_world" where
  \<comment> \<open>a program that nothing interrupts and whose calls do not fail\<close>
  "run (Return x) w = (Inr x, w)"
| "run (Raise e) w = (Inl e, w)"
| "run (Do c k) w = (case faultless c w of (r, w') \<Rightarrow> run (k r) w')"

end
