(* ===== verification/Publication_Properties.thy ===== *)
theory Publication_Properties
  imports Publication_Phase Protocol_Framing "HOL-Library.Sublist"
begin

text \<open>
  What the publication gate guarantees when publishers, supervisors and observers run at the same time.
\<close>

section \<open>Several operations at once\<close>

datatype phase_op = Initialize phase_attempt | Publish phase_attempt | Close phase_attempt "nat option" | Observe phase_attempt

datatype phase_outcome = Finished | Closed bool | Observed string

fun op_prog :: "phase_config \<Rightarrow> phase_op \<Rightarrow> phase_outcome prog" where
  "op_prog cfg (Initialize a) = bindP (initialize cfg a) (\<lambda>_. Return Finished)"
| "op_prog cfg (Publish a) = bindP (before_publication cfg a) (\<lambda>_. Return Finished)"
| "op_prog cfg (Close a p) = bindP (close_unpublished cfg a p) (\<lambda>b. Return (Closed b))"
| "op_prog cfg (Observe a) = bindP (publication_state cfg a) (\<lambda>s. Return (Observed s))"

fun op_attempt :: "phase_op \<Rightarrow> phase_attempt" where
  "op_attempt (Initialize a) = a"
| "op_attempt (Publish a) = a"
| "op_attempt (Close a _) = a"
| "op_attempt (Observe a) = a"

inductive phase_reach ::
  "phase_config \<Rightarrow> phase_op list \<Rightarrow> phase_world \<Rightarrow> phase_world \<Rightarrow> phase_outcome prog list \<Rightarrow> bool"
  for cfg :: phase_config and ops :: "phase_op list" and w0 :: phase_world where
  start: "phase_reach cfg ops w0 w0 (map (op_prog cfg) ops)"
| call: "phase_reach cfg ops w0 w ps \<Longrightarrow> i < length ps \<Longrightarrow> ps ! i = Do c k \<Longrightarrow> answers c w r w' \<Longrightarrow>
    phase_reach cfg ops w0 w' (ps[i := k r])"

section \<open>What one program does with the decision file\<close>

record ghost =
  g_created :: bool
  g_written :: "nat list"
  g_read :: "nat list option"

definition noted :: "string \<Rightarrow> call \<Rightarrow> reply \<Rightarrow> ghost \<Rightarrow> ghost" where
  "noted d c r g =
     (case (c, r) of
        (_, RErr e) \<Rightarrow> g
      | (CCreate p, _) \<Rightarrow> if p = d then g\<lparr>g_created := True\<rparr> else g
      | (CWrite p b, RCount n) \<Rightarrow> if p = d then g\<lparr>g_written := g_written g @ take n b\<rparr> else g
      | (CRead p, RBytes b) \<Rightarrow> if p = d then g\<lparr>g_read := Some b\<rparr> else g
      | _ \<Rightarrow> g)"

fun permitted :: "string \<Rightarrow> nat list \<Rightarrow> call \<Rightarrow> ghost \<Rightarrow> bool" where
  "permitted d full (CCreate p) g = (p = d \<longrightarrow> \<not> g_created g)"
| "permitted d full (CWrite p b) g = (p = d \<longrightarrow> g_created g \<and> g_written g @ b = full)"
| "permitted d full (CUnlink p) g = (p \<noteq> d)"
| "permitted d full _ g = True"

primrec keeps :: "'a prog \<Rightarrow> string \<Rightarrow> nat list \<Rightarrow> ghost \<Rightarrow> ('a \<Rightarrow> ghost \<Rightarrow> bool) \<Rightarrow> bool" where
  \<comment> \<open>the program creates \<open>d\<close> at most once, writes only \<open>full\<close> to it, and returns with \<open>Q\<close>\<close>
  "keeps (Return x) d full g Q = Q x g"
| "keeps (Raise e) d full g Q = True"
| "keeps (Do c k) d full g Q = (permitted d full c g \<and> (\<forall>r. keeps (k r) d full (noted d c r g) Q))"

named_theorems keeps_intros

lemma keeps_bind: "keeps (bindP m f) d full g Q \<longleftrightarrow> keeps m d full g (\<lambda>x g. keeps (f x) d full g Q)"
  by (induction m arbitrary: g) auto

lemma keeps_mono: "keeps m d full g Q \<Longrightarrow> (\<And>x g. Q x g \<Longrightarrow> Q' x g) \<Longrightarrow> keeps m d full g Q'"
  by (induction m arbitrary: g) auto

lemma keeps_catch: "keeps m d full g Q \<Longrightarrow> (\<And>e g. keeps (h e) d full g Q) \<Longrightarrow> keeps (catchP m h) d full g Q"
  by (induction m arbitrary: g) auto

lemma keeps_ask:
  "permitted d full c g \<Longrightarrow> (\<And>r. (\<forall>e. r \<noteq> RErr e) \<Longrightarrow> keeps (f r) d full (noted d c r g) Q) \<Longrightarrow> keeps (ask c f) d full g Q"
  by (auto simp: ask_def split: reply.split)

lemma noted_same: "noted d CSync r g = g" "noted d CExit r g = g" "noted d CEnter r g = g" "noted d CValidate r g = g"
  "noted d (COpen p) r g = g" "noted d (CStat p) r g = g" "noted d (CProof i) r g = g" "noted d (CPop i) r g = g"
  by (simp_all add: noted_def split: reply.split)

lemma keeps_leaving: "keeps m d full g Q \<Longrightarrow> keeps (leaving m) d full g Q"
  by (induction m arbitrary: g) (auto simp: ask_def noted_same split: reply.split)

lemma keeps_write_loop:
  "g_created g \<Longrightarrow> g_written g @ data = full \<Longrightarrow>
   keeps (write_loop d data) d full g (\<lambda>_ g'. g_created g' \<and> g_written g' = full)"
proof (induction "length data" arbitrary: data g rule: less_induct)
  case less
  show ?case
  proof (cases "data = []")
    case False
    have "keeps (write_loop d (drop n data)) d full (noted d (CWrite d data) (RCount n) g)
        (\<lambda>_ g'. g_created g' \<and> g_written g' = full)" if "n \<noteq> 0" for n
      using less.prems False that by (intro less.hyps) (auto simp: noted_def)
    then show ?thesis using less.prems False
      by (subst write_loop.simps) (auto intro!: keeps_ask split: reply.split)
  qed (use less.prems in \<open>simp add: write_loop.simps\<close>)
qed

lemma keeps_write_other: "p \<noteq> d \<Longrightarrow> keeps (write_loop p data) d full g (\<lambda>_ g'. g' = g)"
proof (induction "length data" arbitrary: data rule: less_induct)
  case less
  show ?case
  proof (cases "data = []")
    case False
    have "keeps (write_loop p (drop n data)) d full g (\<lambda>_ g'. g' = g)" if "n \<noteq> 0" for n
      using less False that by (intro less.hyps) auto
    then show ?thesis using less.prems False
      by (subst write_loop.simps) (auto intro!: keeps_ask simp: noted_def split: reply.split)
  qed (simp add: write_loop.simps)
qed

lemma keeps_syncs: "keeps (ask CSync (\<lambda>_. ask CSync (\<lambda>_. Return ()))) d full g Q \<longleftrightarrow> Q () g"
  by (auto simp: ask_def noted_same split: reply.split)

lemma keeps_write_evidence:
  assumes "\<not> g_created g" and "g_written g = []" and "full = evidence_data payload"
  shows "keeps (write_evidence d payload) d full g (\<lambda>_ g'. g_created g' \<and> g_written g' = full)"
  unfolding write_evidence_def
proof (rule keeps_ask)
  fix r assume r: "\<forall>e. r \<noteq> RErr e"
  have "noted d (CCreate d) r g = g\<lparr>g_created := True\<rparr>" using r by (simp add: noted_def split: reply.split)
  with assms show "keeps (bindP (write_loop d (evidence_data payload)) (\<lambda>_. ask CSync (\<lambda>_. ask CSync (\<lambda>_. Return ()))))
      d full (noted d (CCreate d) r g) (\<lambda>_ g'. g_created g' \<and> g_written g' = full)"
    by (simp add: keeps_bind keeps_syncs keeps_write_loop)
qed (use assms in simp)

lemma keeps_write_evidence_other:
  "p \<noteq> d \<Longrightarrow> Q () g \<Longrightarrow> keeps (write_evidence p payload) d full g Q"
  unfolding write_evidence_def
  by (intro keeps_ask)
    (auto simp: keeps_bind keeps_syncs noted_def split: reply.split intro!: keeps_mono [OF keeps_write_other])

definition has_read :: "phase_config \<Rightarrow> (utext \<times> jval) list \<Rightarrow> ghost \<Rightarrow> bool" where
  "has_read cfg kvs g = (\<exists>b. g_read g = Some b \<and> loads_bytes cfg b = Some (NObj kvs))"

lemma keeps_read:
  assumes "\<And>kvs g'. g_created g' = g_created g \<Longrightarrow> g_written g' = g_written g \<Longrightarrow>
      (p = d \<Longrightarrow> has_read cfg kvs g') \<Longrightarrow> Q kvs g'"
  shows "keeps (read_evidence cfg p) d full g Q"
  unfolding read_evidence_def stat_and_load_def
  using assms
  by (intro keeps_ask)
    (auto simp: noted_same noted_def has_read_def split: reply.split option.split jval.split intro!: keeps_ask)

section \<open>What each operation does with it\<close>

lemma evidence_path_suffix: "evidence_path cfg a ''initial'' \<noteq> evidence_path cfg b ''decision''"
proof
  assume "evidence_path cfg a ''initial'' = evidence_path cfg b ''decision''"
  then have "take 6 (rev (evidence_path cfg a ''initial'')) = take 6 (rev (evidence_path cfg b ''decision''))" by simp
  then show False by (simp add: evidence_path_def)
qed

fun op_data :: "phase_op \<Rightarrow> nat list" where
  \<comment> \<open>what the operation may write to the decision file\<close>
  "op_data (Publish a) = evidence_data (decision_payload a ''transaction_started'')"
| "op_data (Close a _) = evidence_data (decision_payload a ''not_started'')"
| "op_data _ = []"

definition confirmed :: "phase_config \<Rightarrow> phase_attempt \<Rightarrow> ghost \<Rightarrow> bool" where
  "confirmed cfg a g = (\<exists>kvs. has_read cfg kvs g \<and> says_not_started cfg a kvs)"

lemma confirmedI: "has_read cfg kvs g \<Longrightarrow> says_not_started cfg a kvs \<Longrightarrow> confirmed cfg a g"
  by (auto simp: confirmed_def)

fun op_post :: "phase_config \<Rightarrow> phase_op \<Rightarrow> phase_outcome \<Rightarrow> ghost \<Rightarrow> bool" where
  "op_post cfg (Publish a) x g = (g_created g \<and> g_written g = op_data (Publish a))"
| "op_post cfg (Close a p) (Closed b) g = (b \<longrightarrow> confirmed cfg a g)"
| "op_post cfg (Observe a) (Observed s) g = (s = ''not_started'' \<longrightarrow> confirmed cfg a g)"
| "op_post cfg _ _ g = True"

definition no_ghost :: ghost where "no_ghost = \<lparr>g_created = False, g_written = [], g_read = None\<rparr>"

lemma publish_keeps:
  assumes "d = evidence_path cfg a ''decision''"
  shows "keeps (op_prog cfg (Publish a)) d (op_data (Publish a)) no_ghost (op_post cfg (Publish a))"
  unfolding op_prog.simps before_publication_def keeps_bind
  by (rule keeps_read) (auto simp: keeps_bind assms no_ghost_def intro!: keeps_write_evidence)

lemma close_keeps:
  assumes "d = evidence_path cfg a ''decision''"
  shows "keeps (op_prog cfg (Close a p)) d (op_data (Close a p)) no_ghost (op_post cfg (Close a p))"
proof (cases p)
  case None
  then show ?thesis by (simp add: close_unpublished_def)
next
  case (Some pid)
  let ?full = "op_data (Close a p)" and ?Q = "\<lambda>b g. b \<longrightarrow> confirmed cfg a g"
  have post: "(\<lambda>b. op_post cfg (Close a p) (Closed b)) = ?Q" by (simp add: fun_eq_iff)
  define B where "B = bindP (catchP (write_evidence d (decision_payload a ''not_started''))
      (\<lambda>e. case e of FileExistsError _ \<Rightarrow> Return () | _ \<Rightarrow> Raise e)) (\<lambda>_.
    bindP (read_evidence cfg d) (\<lambda>kvs. Return (says_not_started cfg a kvs)))"
  have body: "keeps B d ?full g ?Q"
    if "\<not> g_created g" "g_written g = []" for g
  proof -
    have rd: "keeps (bindP (read_evidence cfg d) (\<lambda>kvs. Return (says_not_started cfg a kvs))) d ?full g ?Q" for g
      unfolding keeps_bind by (rule keeps_read) (auto intro: confirmedI)
    show ?thesis unfolding B_def keeps_bind [of "catchP m h" for m h]
      by (rule keeps_catch, rule keeps_mono [OF keeps_write_evidence])
        (use that rd in \<open>auto split: py_error.split\<close>)
  qed
  show ?thesis
    unfolding op_prog.simps close_unpublished_def Some option.case keeps_bind validate_proof_def keeps.simps
    by (intro keeps_ask)
      (auto simp: noted_same keeps_bind post Some [symmetric] open_closure_context_def assms [symmetric] B_def [symmetric] no_ghost_def
        intro!: keeps_catch keeps_ask keeps_read keeps_leaving body [unfolded op_data.simps])
qed

lemma observe_keeps:
  assumes "d = evidence_path cfg a ''decision''"
  shows "keeps (op_prog cfg (Observe a)) d full no_ghost (op_post cfg (Observe a))"
proof -
  have rd: "keeps (bindP (read_evidence cfg d) (\<lambda>kvs. Return (if says_not_started cfg a kvs then ''not_started'' else ''commit_unknown'')))
      d full g (\<lambda>s g. s = ''not_started'' \<longrightarrow> confirmed cfg a g)" for g
    unfolding keeps_bind by (rule keeps_read) (auto intro: confirmedI)
  show ?thesis
    unfolding op_prog.simps publication_state_def keeps_bind [of "catchP m h" for m h] keeps.simps op_post.simps
    by (intro keeps_catch keeps_ask) (auto simp: noted_same assms [symmetric] rd
        keeps_bind [of "read_evidence cfg (evidence_path cfg a ''initial'')"] intro!: keeps_read)
qed

lemma other_keeps:
  assumes "evidence_path cfg (op_attempt x) ''decision'' \<noteq> d" and "d = evidence_path cfg a ''decision''"
  shows "keeps (op_prog cfg x) d full g (\<lambda>_ _. True)"
proof -
  have i: "evidence_path cfg b ''initial'' \<noteq> d" for b using evidence_path_suffix assms(2) by simp
  note other = keeps_write_evidence_other keeps_read
  show ?thesis
  proof (cases x)
    case (Initialize b)
    then show ?thesis using i [of b] by (auto simp: initialize_def keeps_bind intro!: keeps_ask other)
  next
    case (Publish b)
    then show ?thesis using assms(1) by (auto simp: before_publication_def keeps_bind intro!: other)
  next
    case (Close b p)
    have inner: "keeps (catchP (write_evidence (evidence_path cfg b ''decision'') (decision_payload b ''not_started''))
        (\<lambda>e. case e of FileExistsError _ \<Rightarrow> Return () | _ \<Rightarrow> Raise e)) d full g
        (\<lambda>_ g. keeps (read_evidence cfg (evidence_path cfg b ''decision'')) d full g (\<lambda>_ _. True))" for g
      using assms(1) Close by (auto intro!: keeps_catch other split: py_error.split)
    show ?thesis unfolding Close
      by (auto simp: close_unpublished_def validate_proof_def open_closure_context_def keeps_bind inner
          intro!: keeps_ask keeps_catch [where m = "ask CValidate f" for f] keeps_read keeps_leaving split: option.split)
  next
    case (Observe b)
    then show ?thesis by (auto simp: publication_state_def keeps_bind intro!: keeps_ask keeps_catch keeps_read)
  qed
qed

lemma initialize_keeps:
  "d = evidence_path cfg a ''decision'' \<Longrightarrow> keeps (op_prog cfg (Initialize b)) d full g (\<lambda>_ _. True)"
  using evidence_path_suffix [of cfg b a]
  by (auto simp: initialize_def keeps_bind intro!: keeps_ask keeps_write_evidence_other)

definition post_at :: "phase_config \<Rightarrow> phase_attempt \<Rightarrow> phase_op \<Rightarrow> phase_outcome \<Rightarrow> ghost \<Rightarrow> bool" where
  "post_at cfg a x = (if evidence_path cfg (op_attempt x) ''decision'' = evidence_path cfg a ''decision''
     then op_post cfg x else (\<lambda>_ _. True))"

definition data_at :: "phase_config \<Rightarrow> phase_attempt \<Rightarrow> phase_op \<Rightarrow> nat list" where
  "data_at cfg a x = (if evidence_path cfg (op_attempt x) ''decision'' = evidence_path cfg a ''decision''
     then op_data x else [])"

lemma op_keeps:
  "keeps (op_prog cfg x) (evidence_path cfg a ''decision'') (data_at cfg a x) no_ghost (post_at cfg a x)"
proof (cases "evidence_path cfg (op_attempt x) ''decision'' = evidence_path cfg a ''decision''")
  case True
  note same = True [symmetric]
  show ?thesis
  proof (cases x)
    case (Initialize b)
    show ?thesis unfolding Initialize by (rule keeps_mono [OF initialize_keeps [OF refl]]) (simp add: post_at_def)
  qed (use same publish_keeps [of _ cfg] close_keeps [of _ cfg] observe_keeps [of _ cfg] in
      \<open>simp_all only: post_at_def data_at_def op_attempt.simps if_True refl\<close>)
next
  case False
  then show ?thesis using other_keeps [OF False refl] by (simp add: post_at_def)
qed

section \<open>The gate\<close>

lemma append_other: "p \<noteq> d \<Longrightarrow> pw_files (append_data p b w) d = pw_files w d"
  by (simp add: append_data_def split: option.split)

lemma append_same:
  "pw_files (append_data d b w) d = map_option (\<lambda>f. f\<lparr>ef_data := ef_data f @ b\<rparr>) (pw_files w d)"
  by (simp add: append_data_def split: option.split)

lemma proof_files: "pw_files (pop_proof pid w) = pw_files w"
  by (simp add: pop_proof_def split: sum.split)

lemma answers_cases:
  assumes ans: "answers c w r w'" and unlink: "c \<noteq> CUnlink d"
  obtains (quiet) "pw_files w' d = pw_files w d" and "\<And>g. noted d c r g = g"
    | (read) b f where "pw_files w d = Some f" and "pw_files w' d = Some f" and "prefix b (ef_data f)"
        and "\<And>g. noted d c r g = g\<lparr>g_read := Some b\<rparr>"
    | (create) "c = CCreate d" and "pw_files w d = None" and "pw_files w' d = Some \<lparr>ef_private = True, ef_data = []\<rparr>"
        and "\<And>g. noted d c r g = g\<lparr>g_created := True\<rparr>"
    | (wrote) b n where "c = CWrite d b" and "\<And>g. noted d c r g = g\<lparr>g_written := g_written g @ take n b\<rparr>"
        and "pw_files w' d = map_option (\<lambda>f. f\<lparr>ef_data := ef_data f @ take n b\<rparr>) (pw_files w d)"
proof (cases "\<exists>e. r = RErr e")
  case True
  then obtain e where r: "r = RErr e" ..
  then have "\<And>g. noted d c r g = g" by (auto simp: noted_def split: call.split)
  moreover have "pw_files w' d = pw_files w d"
    using ans r by (cases c) (auto simp: answers_def proof_files split: option.splits if_splits)
  ultimately show thesis by (rule quiet [rotated])
next
  case ok: False
  consider (cr) "c = CCreate d" | (wr) b where "c = CWrite d b" | (rd) "c = CRead d"
    | (no) "c \<noteq> CCreate d" "\<forall>b. c \<noteq> CWrite d b" "c \<noteq> CRead d" by blast
  then show thesis
  proof cases
    case cr
    with ans ok have "pw_files w d = None" "r = ROk" "pw_files w' d = Some \<lparr>ef_private = True, ef_data = []\<rparr>"
      by (auto simp: answers_def split: option.splits reply.splits)
    with cr show thesis by (intro create) (auto simp: noted_def)
  next
    case (wr b)
    with ans ok obtain n where n: "r = RCount n" "w' = append_data d (take n b) w"
      by (auto simp: answers_def split: reply.splits)
    with wr show thesis by (intro wrote [of b n]) (auto simp: noted_def append_same)
  next
    case rd
    with ans ok obtain f where f: "pw_files w d = Some f" "r = RBytes (take (MAX_EVIDENCE + 1) (ef_data f))" "w' = w"
      by (auto simp: answers_def split: option.splits reply.splits)
    with rd show thesis by (intro read [of f "take (MAX_EVIDENCE + 1) (ef_data f)"]) (auto simp: noted_def take_is_prefix)
  next
    case no
    then have "\<And>g. noted d c r g = g" by (auto simp: noted_def split: call.split reply.split)
    moreover have "pw_files w' d = pw_files w d"
      using ans ok no unlink
      by (cases c) (auto simp: answers_def append_other proof_files split: option.splits reply.splits if_splits)
    ultimately show thesis by (rule quiet [rotated])
  qed
qed

definition file_inv :: "evidence_file option \<Rightarrow> ghost list \<Rightarrow> bool" where
  "file_inv file gs =
     (case file of
        None \<Rightarrow> \<forall>i < length gs. \<not> g_created (gs ! i) \<and> g_read (gs ! i) = None
      | Some f \<Rightarrow> \<exists>i < length gs. g_created (gs ! i) \<and> ef_data f = g_written (gs ! i)
          \<and> (\<forall>j < length gs. (g_created (gs ! j) \<longrightarrow> j = i)
               \<and> (\<forall>b. g_read (gs ! j) = Some b \<longrightarrow> prefix b (ef_data f))))"

definition gate_inv ::
  "phase_config \<Rightarrow> phase_attempt \<Rightarrow> phase_op list \<Rightarrow> phase_world \<Rightarrow> phase_outcome prog list \<Rightarrow> ghost list \<Rightarrow> bool" where
  "gate_inv cfg a ops w ps gs =
     (length ps = length ops \<and> length gs = length ops
      \<and> (\<forall>i < length ops.
           keeps (ps ! i) (evidence_path cfg a ''decision'') (data_at cfg a (ops ! i)) (gs ! i) (post_at cfg a (ops ! i))
           \<and> prefix (g_written (gs ! i)) (data_at cfg a (ops ! i)) \<and> (\<not> g_created (gs ! i) \<longrightarrow> g_written (gs ! i) = []))
      \<and> file_inv (pw_files w (evidence_path cfg a ''decision'')) gs)"

lemma file_invI:
  assumes "k < length gs" and "g_created (gs ! k)" and "ef_data f = g_written (gs ! k)"
    and "\<And>j. j < length gs \<Longrightarrow> g_created (gs ! j) \<Longrightarrow> j = k"
    and "\<And>j b. j < length gs \<Longrightarrow> g_read (gs ! j) = Some b \<Longrightarrow> prefix b (ef_data f)"
  shows "file_inv (Some f) gs"
  unfolding file_inv_def option.case using assms by blast

lemma file_invE:
  assumes "file_inv (Some f) gs"
  obtains k where "k < length gs" and "g_created (gs ! k)" and "ef_data f = g_written (gs ! k)"
    and "\<And>j. j < length gs \<Longrightarrow> g_created (gs ! j) \<Longrightarrow> j = k"
    and "\<And>j b. j < length gs \<Longrightarrow> g_read (gs ! j) = Some b \<Longrightarrow> prefix b (ef_data f)"
  using assms unfolding file_inv_def option.case by blast

lemma file_inv_step:
  assumes inv: "file_inv (pw_files w d) gs" and i: "i < length gs"
    and ans: "answers c w r w'" and perm: "permitted d full c (gs ! i)"
    and fresh: "\<not> g_created (gs ! i) \<longrightarrow> g_written (gs ! i) = []"
  shows "file_inv (pw_files w' d) (gs[i := noted d c r (gs ! i)])"
proof -
  have "c \<noteq> CUnlink d" using perm by auto
  with ans show ?thesis
  proof (cases rule: answers_cases)
    case quiet
    with inv show ?thesis by simp
  next
    case (read b f)
    from inv have "file_inv (Some f) gs" by (simp add: read(1))
    then show ?thesis
    proof (rule file_invE)
      fix k assume k: "k < length gs" "g_created (gs ! k)" "ef_data f = g_written (gs ! k)"
        "\<And>j. j < length gs \<Longrightarrow> g_created (gs ! j) \<Longrightarrow> j = k"
        "\<And>j b. j < length gs \<Longrightarrow> g_read (gs ! j) = Some b \<Longrightarrow> prefix b (ef_data f)"
      have upd: "g_created (gs[i := (gs ! i)\<lparr>g_read := Some b\<rparr>] ! j) = g_created (gs ! j)"
        "g_written (gs[i := (gs ! i)\<lparr>g_read := Some b\<rparr>] ! j) = g_written (gs ! j)"
        "g_read (gs[i := (gs ! i)\<lparr>g_read := Some b\<rparr>] ! j) = (if j = i then Some b else g_read (gs ! j))"
        if "j < length gs" for j by (use that i in \<open>cases "j = i"; simp\<close>)+
      show ?thesis unfolding read(2,4)
      proof (rule file_invI [of k])
        fix j b' assume "j < length (gs[i := (gs ! i)\<lparr>g_read := Some b\<rparr>])"
          "g_read (gs[i := (gs ! i)\<lparr>g_read := Some b\<rparr>] ! j) = Some b'"
        then show "prefix b' (ef_data f)" using k(5) read(3) by (auto simp: upd split: if_splits)
      next
        fix j assume "j < length (gs[i := (gs ! i)\<lparr>g_read := Some b\<rparr>])"
          "g_created (gs[i := (gs ! i)\<lparr>g_read := Some b\<rparr>] ! j)"
        then show "j = k" by (intro k(4)) (simp_all add: upd)
      qed (use k(1-3) in \<open>simp_all add: upd\<close>)
    qed
  next
    case create
    with inv fresh i have none: "\<And>j. j < length gs \<Longrightarrow> \<not> g_created (gs ! j) \<and> g_read (gs ! j) = None"
      and "g_written (gs ! i) = []" by (auto simp: file_inv_def)
    then have new: "gs[i := (gs ! i)\<lparr>g_created := True\<rparr>] ! j = (if j = i then (gs ! i)\<lparr>g_created := True\<rparr> else gs ! j)"
      if "j < length gs" for j by (use that i in \<open>cases "j = i"; simp\<close>)+
    show ?thesis unfolding create(3,4)
      by (rule file_invI [of i]) (use i none \<open>g_written (gs ! i) = []\<close> in \<open>simp_all add: new split: if_splits\<close>)
  next
    case (wrote b n)
    with perm have cr: "g_created (gs ! i)" by simp
    with inv i obtain f where f: "pw_files w d = Some f" by (cases "pw_files w d") (auto simp: file_inv_def)
    with inv have "file_inv (Some f) gs" by simp
    then show ?thesis
    proof (rule file_invE)
      fix k assume k: "k < length gs" "g_created (gs ! k)" "ef_data f = g_written (gs ! k)"
        "\<And>j. j < length gs \<Longrightarrow> g_created (gs ! j) \<Longrightarrow> j = k"
        "\<And>j b. j < length gs \<Longrightarrow> g_read (gs ! j) = Some b \<Longrightarrow> prefix b (ef_data f)"
      have "i = k" using k(4) [OF i cr] .
      let ?g = "(gs ! i)\<lparr>g_written := g_written (gs ! i) @ take n b\<rparr>"
      have upd: "g_created (gs[i := ?g] ! j) = g_created (gs ! j)" "g_read (gs[i := ?g] ! j) = g_read (gs ! j)"
        if "j < length gs" for j by (use that i in \<open>cases "j = i"; simp\<close>)+
      have "map_option (\<lambda>f. f\<lparr>ef_data := ef_data f @ take n b\<rparr>) (pw_files w d)
          = Some (f\<lparr>ef_data := ef_data f @ take n b\<rparr>)" by (simp add: f)
      then show ?thesis unfolding wrote(2,3)
      proof (simp only:, intro file_invI [of i])
        fix j b' assume "j < length (gs[i := ?g])" "g_read (gs[i := ?g] ! j) = Some b'"
        with k(5) show "prefix b' (ef_data (f\<lparr>ef_data := ef_data f @ take n b\<rparr>))" by (simp add: upd prefix_append)
      next
        fix j assume "j < length (gs[i := ?g])" "g_created (gs[i := ?g] ! j)"
        then have "j = k" by (intro k(4)) (simp_all add: upd)
        then show "j = i" using \<open>i = k\<close> by simp
      qed (use i k(3) cr \<open>i = k\<close> in simp_all)
    qed
  qed
qed

lemma ghost_step:
  assumes "permitted d full c g" and "prefix (g_written g) full" and "\<not> g_created g \<longrightarrow> g_written g = []"
  shows "prefix (g_written (noted d c r g)) full \<and> (\<not> g_created (noted d c r g) \<longrightarrow> g_written (noted d c r g) = [])"
  using assms by (cases c; cases r) (auto simp: noted_def take_is_prefix)

lemma gate_inv_reach:
  assumes "phase_reach cfg ops w0 w ps" and "pw_files w0 (evidence_path cfg a ''decision'') = None"
  shows "\<exists>gs. gate_inv cfg a ops w ps gs"
  using assms(1)
proof (induction rule: phase_reach.induct)
  case start
  have "gate_inv cfg a ops w0 (map (op_prog cfg) ops) (replicate (length ops) no_ghost)"
    using assms(2) op_keeps by (auto simp: gate_inv_def file_inv_def no_ghost_def)
  then show ?case by blast
next
  case (call w ps i c k r w')
  then obtain gs where inv: "gate_inv cfg a ops w ps gs" by blast
  let ?d = "evidence_path cfg a ''decision''" and ?g = "noted (evidence_path cfg a ''decision'') c r (gs ! i)"
  from inv have len: "length ps = length ops" "length gs = length ops" by (simp_all add: gate_inv_def)
  have one: "keeps (ps ! j) ?d (data_at cfg a (ops ! j)) (gs ! j) (post_at cfg a (ops ! j))"
    "prefix (g_written (gs ! j)) (data_at cfg a (ops ! j))" "\<not> g_created (gs ! j) \<longrightarrow> g_written (gs ! j) = []"
    if "j < length ops" for j using inv that by (simp_all add: gate_inv_def)
  have i: "i < length ops" using call(2) len by simp
  from one(1) [OF i] call(3) have perm: "permitted ?d (data_at cfg a (ops ! i)) c (gs ! i)"
    and k: "keeps (k r) ?d (data_at cfg a (ops ! i)) ?g (post_at cfg a (ops ! i))" by simp_all
  have "file_inv (pw_files w' ?d) (gs[i := ?g])"
    using inv file_inv_step [OF _ _ call(4) perm] one(3) [OF i] i len by (simp add: gate_inv_def)
  moreover have "keeps (ps[i := k r] ! j) ?d (data_at cfg a (ops ! j)) (gs[i := ?g] ! j) (post_at cfg a (ops ! j))
      \<and> prefix (g_written (gs[i := ?g] ! j)) (data_at cfg a (ops ! j))
      \<and> (\<not> g_created (gs[i := ?g] ! j) \<longrightarrow> g_written (gs[i := ?g] ! j) = [])" if "j < length ops" for j
    using one [OF that] k ghost_step [OF perm one(2,3) [OF i]] that len i by (cases "j = i") simp_all
  ultimately have "gate_inv cfg a ops w' (ps[i := k r]) (gs[i := ?g])" using len by (simp add: gate_inv_def)
  then show ?case by blast
qed

section \<open>Reading the decision\<close>

lemma decision_distinct: "distinct (map fst (decision_payload a state))"
  by (cases a) (auto simp: decision_payload_def generation_members_def STATE_KEY_def asc_def split: prod.split)

lemma asc_scalar: "list_all scalar (asc s)"
proof -
  have "scalar (of_char c)" for c :: char
    using nat_of_char_less_256 [of c] unfolding scalar_def high_surrogate_def low_surrogate_def by linarith
  then show ?thesis by (simp add: asc_def list_all_iff)
qed

lemma jstr_wf: "wf_json (jstr s)"
  using asc_scalar by (simp add: jstr_def)

lemma decision_wf: "wf_json (NObj (identity a)) \<Longrightarrow> wf_json (NObj (decision_payload a state))"
  using asc_scalar jstr_wf by (simp add: decision_payload_def STATE_KEY_def list_all_append)

lemma map_of_rev: "distinct (map fst kvs) \<Longrightarrow> map_of (rev kvs) = map_of kvs"
  by (rule map_of_inject_set [THEN iffD2]) (simp_all flip: rev_map)

lemma decision_state:
  assumes "canonical (NObj (decision_payload a state)) = NObj kvs"
  shows "member kvs STATE_KEY = Some (jstr state)"
proof -
  let ?p = "map (\<lambda>(k, x). (k, canonical x)) (decision_payload a state)"
  have d: "distinct (map fst ?p)" using decision_distinct [of a state] by (simp add: comp_def split_beta)
  have "kvs = sort_key fst ?p" using assms by simp
  then have "member kvs STATE_KEY = map_of ?p STATE_KEY"
    using map_of_sort_key [OF d] d map_of_rev [of "sort_key fst ?p"] by (simp add: member_def distinct_sort_key)
  also have "\<dots> = map_option canonical (map_of (decision_payload a state) STATE_KEY)" by (rule map_of_map_snd)
  also have "map_of (decision_payload a state) STATE_KEY = Some (jstr state)"
    by (rule map_of_is_SomeI [OF decision_distinct]) (simp add: decision_payload_def)
  finally show ?thesis by (simp add: jstr_def)
qed

text \<open>A reader of any part of a decision file sees \<^verbatim>\<open>not_started\<close> only in the whole of a file that says so.\<close>

lemma decision_read:
  assumes wf: "wf_json (NObj (identity b))" and data: "prefix bytes (evidence_data (decision_payload b state))"
    and read: "loads_bytes cfg bytes = Some (NObj kvs)" and says: "says_not_started cfg a kvs"
  shows "state = ''not_started'' \<and> bytes = evidence_data (decision_payload b state)"
proof -
  let ?v = "canonical (NObj (decision_payload b state))"
  note w = wf_canonical [OF decision_wf [OF wf]]
  obtain kvs' where v: "?v = NObj kvs'" by simp
  from data obtain rest where rest: "dumps (NObj kvs') = bytes @ rest" unfolding evidence_data_def v prefix_def ..
  have "list_all printable (dumps ?v)" by (rule dumps_printable(1) [OF wf_readable [OF w]])
  moreover have "printable c \<Longrightarrow> 0 < c \<and> c < 128" for c by (simp add: printable_def)
  ultimately have "list_all (\<lambda>c. 0 < c \<and> c < 128) bytes" unfolding v rest by (simp add: list_all_iff)
  with read have "loads bytes = Some (NObj kvs)" by (simp add: loads_bytes_def)
  from object_prefix_free [OF w [of state, unfolded v] rest this] have "rest = []" "kvs = kvs'" by simp_all
  moreover have "member kvs' STATE_KEY = Some (jstr state)" by (rule decision_state [OF v])
  ultimately have "jstr state = jstr ''not_started''" using says
    by (simp add: says_not_started_def pop_state_def)
  moreover have "inj (of_char :: char \<Rightarrow> nat)" by (rule inj_of_char)
  ultimately have "state = ''not_started''" using inj_map_eq_map [of "of_char :: char \<Rightarrow> nat"]
    unfolding jstr_def asc_def jval.inject by blast
  moreover have "bytes = evidence_data (decision_payload b state)"
    unfolding evidence_data_def v using rest \<open>rest = []\<close> by simp
  ultimately show ?thesis by simp
qed

section \<open>Guarantees\<close>

definition publication_started :: "phase_attempt \<Rightarrow> phase_op list \<Rightarrow> phase_outcome prog list \<Rightarrow> bool" where
  "publication_started a ops ps =
     (\<exists>i < length ops. \<exists>b. identity b = identity a \<and> ops ! i = Publish b \<and> ps ! i = Return Finished)"

definition found_unpublished :: "phase_attempt \<Rightarrow> phase_op list \<Rightarrow> phase_outcome prog list \<Rightarrow> bool" where
  "found_unpublished a ops ps =
     (\<exists>i < length ops. \<exists>b. identity b = identity a
        \<and> ((\<exists>p. ops ! i = Close b p) \<and> ps ! i = Return (Closed True)
           \<or> ops ! i = Observe b \<and> ps ! i = Return (Observed ''not_started'')))"

lemma same_identity:
  assumes "identity b = identity a"
  shows "evidence_path cfg b = evidence_path cfg a" and "decision_payload b = decision_payload a"
    and "says_not_started cfg b = says_not_started cfg a"
  by (simp_all add: fun_eq_iff evidence_path_def decision_payload_def says_not_started_def assms)

lemma started_file:
  assumes inv: "gate_inv cfg a ops w ps gs" and "publication_started a ops ps"
  shows "\<exists>f. pw_files w (evidence_path cfg a ''decision'') = Some f
    \<and> ef_data f = evidence_data (decision_payload a ''transaction_started'')"
proof -
  let ?d = "evidence_path cfg a ''decision''"
  from assms(2) obtain i b where i: "i < length ops" and b: "identity b = identity a" and o: "ops ! i = Publish b"
    and r: "ps ! i = Return Finished" by (auto simp: publication_started_def)
  have "post_at cfg a (ops ! i) Finished (gs ! i)" using inv i r by (auto simp: gate_inv_def)
  then have g: "g_created (gs ! i)" "g_written (gs ! i) = evidence_data (decision_payload a ''transaction_started'')"
    by (simp_all add: o post_at_def same_identity [OF b])
  have fi: "file_inv (pw_files w ?d) gs" and len: "length gs = length ops" using inv by (simp_all add: gate_inv_def)
  obtain f where f: "pw_files w ?d = Some f"
    using fi g(1) i len by (cases "pw_files w ?d") (auto simp: file_inv_def)
  from fi [unfolded f] have "ef_data f = g_written (gs ! i)"
  proof (rule file_invE)
    fix k assume "ef_data f = g_written (gs ! k)" and "\<And>j. j < length gs \<Longrightarrow> g_created (gs ! j) \<Longrightarrow> j = k"
    then show ?thesis using g(1) i len by metis
  qed
  with f g(2) show ?thesis by simp
qed

lemma closed_file:
  assumes inv: "gate_inv cfg a ops w ps gs" and "found_unpublished a ops ps"
    and coll: "\<forall>x \<in> set ops. evidence_path cfg (op_attempt x) ''decision'' = evidence_path cfg a ''decision'' \<longrightarrow>
      identity (op_attempt x) = identity a"
    and wf: "wf_json (NObj (identity a))"
  shows "\<exists>f. pw_files w (evidence_path cfg a ''decision'') = Some f
    \<and> ef_data f = evidence_data (decision_payload a ''not_started'')"
proof -
  let ?d = "evidence_path cfg a ''decision''"
  from assms(2) obtain i b where i: "i < length ops" and b: "identity b = identity a"
    and o: "(\<exists>p. ops ! i = Close b p) \<and> ps ! i = Return (Closed True)
      \<or> ops ! i = Observe b \<and> ps ! i = Return (Observed ''not_started'')" by (auto simp: found_unpublished_def)
  have "keeps (ps ! i) ?d (data_at cfg a (ops ! i)) (gs ! i) (post_at cfg a (ops ! i))" using inv i by (simp add: gate_inv_def)
  then have "confirmed cfg a (gs ! i)" using o
    by (auto simp: post_at_def same_identity [OF b] confirmed_def)
  then obtain bytes kvs where rd: "g_read (gs ! i) = Some bytes" and ld: "loads_bytes cfg bytes = Some (NObj kvs)"
    and says: "says_not_started cfg a kvs" by (auto simp: confirmed_def has_read_def)
  have fi: "file_inv (pw_files w ?d) gs" and len: "length gs = length ops" using inv by (simp_all add: gate_inv_def)
  obtain f where f: "pw_files w ?d = Some f"
    using fi rd i len by (cases "pw_files w ?d") (auto simp: file_inv_def)
  from fi [unfolded f] obtain k where "k < length gs" and kd: "ef_data f = g_written (gs ! k)"
    and read: "\<And>j b. j < length gs \<Longrightarrow> g_read (gs ! j) = Some b \<Longrightarrow> prefix b (ef_data f)"
    by (rule file_invE) blast
  then have k: "k < length ops" and pre: "prefix bytes (ef_data f)" using rd i len by simp_all
  have pk: "prefix (ef_data f) (data_at cfg a (ops ! k))" using inv k kd by (simp add: gate_inv_def)
  have "bytes \<noteq> []"
    using ld by (auto simp: loads_bytes_def loads_def skip_ws_def parse_empty)
  then have ne: "data_at cfg a (ops ! k) \<noteq> []" using pre pk by auto
  then have path: "evidence_path cfg (op_attempt (ops ! k)) ''decision'' = ?d" by (auto simp: data_at_def split: if_splits)
  with coll k have id: "identity (op_attempt (ops ! k)) = identity a" by simp
  obtain state where st: "data_at cfg a (ops ! k) = evidence_data (decision_payload a state)"
    using ne path id by (cases "ops ! k") (auto simp: data_at_def dest: same_identity(2))
  from decision_read [OF wf _ ld says, of state] prefix_order.trans [OF pre pk] st
  have "state = ''not_started''" "bytes = evidence_data (decision_payload a state)" by simp_all
  with pre pk st have "ef_data f = evidence_data (decision_payload a ''not_started'')" by (auto dest: prefix_order.antisym)
  with f show ?thesis by blast
qed

lemma decisions_differ:
  assumes "wf_json (NObj (identity a))"
  shows "evidence_data (decision_payload a ''transaction_started'') \<noteq> evidence_data (decision_payload a ''not_started'')"
proof
  let ?v = "\<lambda>s. canonical (NObj (decision_payload a s))"
  assume "evidence_data (decision_payload a ''transaction_started'') = evidence_data (decision_payload a ''not_started'')"
  then have "loads (dumps (?v ''transaction_started'')) = loads (dumps (?v ''not_started''))" by (simp only: evidence_data_def)
  then have eq: "?v ''transaction_started'' = ?v ''not_started''"
    using loads_dumps [OF wf_canonical [OF decision_wf [OF assms]]] by simp
  obtain kvs where kvs: "?v ''not_started'' = NObj kvs" by simp
  from decision_state [OF kvs] decision_state [of a "''transaction_started''" kvs] eq kvs
  have "jstr ''transaction_started'' = jstr ''not_started''" by simp
  then show False by (simp add: jstr_def asc_def)
qed

text \<open>
  Claim C31 (a publication is decided once): publishers, closers, observers and initializers of any attempts run
  at the same time, their calls interleave in any order, writes may be short, calls may fail and
  processes may stop anywhere. If no decision for an attempt existed before and the digests of different
  attempts differ, then it never happens that one publisher has passed the gate and another operation has
  found the attempt unpublished; whichever happened, the decision file holds exactly that decision.
\<close>

theorem decision_is_exclusive:
  assumes "phase_reach cfg ops w0 w ps"
    and "pw_files w0 (evidence_path cfg a ''decision'') = None"
    and "\<forall>x \<in> set ops. evidence_path cfg (op_attempt x) ''decision'' = evidence_path cfg a ''decision'' \<longrightarrow>
      identity (op_attempt x) = identity a"
    and "wf_json (NObj (identity a))"
  shows "\<not> (publication_started a ops ps \<and> found_unpublished a ops ps)
    \<and> (publication_started a ops ps \<longrightarrow>
         map_option ef_data (pw_files w (evidence_path cfg a ''decision''))
           = Some (evidence_data (decision_payload a ''transaction_started'')))
    \<and> (found_unpublished a ops ps \<longrightarrow>
         map_option ef_data (pw_files w (evidence_path cfg a ''decision''))
           = Some (evidence_data (decision_payload a ''not_started'')))"
proof -
  from gate_inv_reach [OF assms(1,2)] obtain gs where inv: "gate_inv cfg a ops w ps gs" ..
  from started_file [OF inv] closed_file [OF inv _ assms(3,4)] decisions_differ [OF assms(4)]
  show ?thesis by fastforce
qed

end
