(* ===== verification/Publication_Runs.thy ===== *)
theory Publication_Runs
  imports Publication_Properties
begin

text \<open>
  The operations of the publication gate when nothing interrupts them and nothing fails: what they return
  and what they leave behind, through the life of an attempt's evidence.
\<close>

section \<open>Uninterrupted operations\<close>

lemma run_bind:
  "run (bindP m f) w = (case run m w of (Inr x, w') \<Rightarrow> run (f x) w' | (Inl e, w') \<Rightarrow> (Inl e, w'))"
  by (induction m arbitrary: w) (simp_all split: prod.split)

lemma run_catch:
  "run (catchP m h) w = (case run m w of (Inr x, w') \<Rightarrow> (Inr x, w') | (Inl e, w') \<Rightarrow> run (h e) w')"
  by (induction m arbitrary: w) (simp_all split: prod.split)

lemma run_ask:
  "run (ask c f) w = (case faultless c w of (RErr e, w') \<Rightarrow> (Inl e, w') | (r, w') \<Rightarrow> run (f r) w')"
  by (simp add: ask_def split: prod.split reply.split)

lemma run_leaving: "run (leaving m) w = run m w"
  by (induction m arbitrary: w) (simp_all add: run_ask split: prod.split)

lemmas run_simps = run_bind run_catch run_ask run_leaving

lemma run_write_loop:
  "pw_files w p = Some f \<Longrightarrow> run (write_loop p data) w = (Inr (), append_data p data w)"
  by (cases data) (simp_all add: write_loop.simps run_ask append_data_def fun_upd_idem)

lemma run_write_evidence:
  "run (write_evidence p payload) w =
     (case pw_files w p of
        None \<Rightarrow> (Inr (), w\<lparr>pw_files := (pw_files w)(p \<mapsto> \<lparr>ef_private = True, ef_data = evidence_data payload\<rparr>)\<rparr>)
      | Some _ \<Rightarrow> (Inl (FileExistsError p), w))"
  by (simp add: write_evidence_def run_simps run_write_loop [where f = "\<lparr>ef_private = True, ef_data = []\<rparr>"]
      append_data_def split: option.split)

definition fits :: "(utext \<times> jval) list \<Rightarrow> bool" where
  "fits payload = (wf_json (NObj payload) \<and> length (evidence_data payload) \<le> MAX_EVIDENCE)"

definition members_of :: "(utext \<times> jval) list \<Rightarrow> (utext \<times> jval) list" where
  "members_of payload = sort_key fst (map (\<lambda>(k, x). (k, canonical x)) payload)"

lemma loads_evidence: "wf_json (NObj payload) \<Longrightarrow> loads_bytes cfg (evidence_data payload) = Some (NObj (members_of payload))"
proof -
  assume wf: "wf_json (NObj payload)"
  note w = wf_canonical [OF wf]
  have "list_all printable (evidence_data payload)" unfolding evidence_data_def by (rule dumps_printable(1) [OF wf_readable [OF w]])
  moreover have "printable c \<Longrightarrow> 0 < c \<and> c < 128" for c by (simp add: printable_def)
  ultimately have "list_all (\<lambda>c. 0 < c \<and> c < 128) (evidence_data payload)" by (simp add: list_all_iff)
  then show ?thesis using loads_dumps [OF w] by (simp add: loads_bytes_def evidence_data_def members_of_def)
qed

lemma run_load:
  assumes "pw_files w p = Some \<lparr>ef_private = True, ef_data = evidence_data payload\<rparr>" and "fits payload"
  shows "run (stat_and_load cfg p) w = (Inr (members_of payload), w)"
proof -
  have "evidence_data payload \<noteq> []" by (simp add: evidence_data_def)
  then show ?thesis using assms
    by (simp add: stat_and_load_def run_simps fits_def loads_evidence)
qed

lemma run_read:
  assumes "pw_files w p = Some \<lparr>ef_private = True, ef_data = evidence_data payload\<rparr>" and "fits payload"
  shows "run (read_evidence cfg p) w = (Inr (members_of payload), w)"
  using assms by (simp add: read_evidence_def run_ask run_load)

lemma identity_values:
  assumes "(k, v) \<in> set (identity a)"
  shows "canonical v = v" and "value_is cfg v v"
proof -
  have "v = NNull \<or> (\<exists>s. v = NStr s) \<or> (\<exists>i. v = NInt i)"
    using assms by (cases a) (auto simp: generation_members_def jstr_def split: prod.splits option.splits if_splits)
  then show "canonical v = v" and "value_is cfg v v" by auto
qed

lemma member_members_of:
  "distinct (map fst payload) \<Longrightarrow> member (members_of payload) k = map_option canonical (map_of payload k)"
proof -
  assume d: "distinct (map fst payload)"
  let ?p = "map (\<lambda>(k, x). (k, canonical x)) payload"
  have "distinct (map fst ?p)" using d by (simp add: comp_def split_beta)
  then show ?thesis using map_of_sort_key [of ?p] map_of_rev [of "sort_key fst ?p"]
    by (simp add: member_def members_of_def distinct_sort_key map_of_map_snd)
qed

lemma identity_distinct: "distinct (map fst (identity a))" "STATE_KEY \<notin> set (map fst (identity a))"
  using decision_distinct [of a "[]"] by (auto simp: decision_payload_def)

lemma payload_is_identity:
  assumes "set (map fst kvs) \<subseteq> set (map fst (identity a))"
    and "\<And>k v. (k, v) \<in> set (identity a) \<Longrightarrow> member kvs k = Some v"
  shows "payload_is cfg kvs (identity a)"
  using assms identity_values by (auto simp: payload_is_def list_all_iff)

lemma identity_read: "payload_is cfg (members_of (identity a)) (identity a)"
proof (rule payload_is_identity)
  fix k v assume kv: "(k, v) \<in> set (identity a)"
  then have "map_of (identity a) k = Some v" by (rule map_of_is_SomeI [OF identity_distinct(1)])
  with identity_values(1) [OF kv] show "member (members_of (identity a)) k = Some v"
    by (simp add: member_members_of identity_distinct)
qed (force simp: members_of_def)

lemma map_of_filter_key: "k \<noteq> x \<Longrightarrow> map_of (filter (\<lambda>(k, v). k \<noteq> x) kvs) k = map_of kvs k"
  by (induction kvs) auto

lemma decision_pop:
  "pop_state (members_of (decision_payload a state)) = (jstr state, filter (\<lambda>(k, v). k \<noteq> STATE_KEY) (members_of (decision_payload a state)))
   \<and> payload_is cfg (filter (\<lambda>(k, v). k \<noteq> STATE_KEY) (members_of (decision_payload a state))) (identity a)"
proof
  let ?m = "members_of (decision_payload a state)" and ?f = "filter (\<lambda>(k, v). k \<noteq> STATE_KEY)"
  have "member ?m STATE_KEY = Some (jstr state)" by (rule decision_state) (simp add: members_of_def)
  then show "pop_state ?m = (jstr state, ?f ?m)" by (simp add: pop_state_def)
  show "payload_is cfg (?f ?m) (identity a)"
  proof (rule payload_is_identity)
    show "set (map fst (?f ?m)) \<subseteq> set (map fst (identity a))"
      by (force simp: members_of_def decision_payload_def)
    fix k v assume kv: "(k, v) \<in> set (identity a)"
    then have "k \<noteq> STATE_KEY" using identity_distinct(2) by force
    then have "member (?f ?m) k = member ?m k"
      unfolding member_def rev_filter by (rule map_of_filter_key)
    also have "\<dots> = map_option canonical (map_of (decision_payload a state) k)"
      by (rule member_members_of [OF decision_distinct])
    also have "map_of (decision_payload a state) k = Some v"
      by (rule map_of_is_SomeI [OF decision_distinct]) (use kv in \<open>simp add: decision_payload_def\<close>)
    finally show "member (?f ?m) k = Some v" using identity_values(1) [OF kv] by simp
  qed
qed

section \<open>The life of the evidence\<close>

definition fresh_proofs :: "phase_world \<Rightarrow> bool" where
  \<comment> \<open>a new object is none of the consumed ones\<close>
  "fresh_proofs w = list_all (\<lambda>p. p < pw_issued w) (pw_consumed w)"

definition with_files :: "phase_config \<Rightarrow> phase_attempt \<Rightarrow> string option \<Rightarrow> phase_world \<Rightarrow> phase_world" where
  \<comment> \<open>the evidence of an initialized attempt, and of a decided one\<close>
  "with_files cfg a verdict w =
     (let fs = (pw_files w)(evidence_path cfg a ''initial'' \<mapsto> \<lparr>ef_private = True, ef_data = evidence_data (identity a)\<rparr>)
      in w\<lparr>pw_files := (case verdict of None \<Rightarrow> fs
        | Some state \<Rightarrow> fs(evidence_path cfg a ''decision'' \<mapsto>
            \<lparr>ef_private = True, ef_data = evidence_data (decision_payload a state)\<rparr>))\<rparr>)"

definition no_evidence :: "phase_config \<Rightarrow> phase_attempt \<Rightarrow> phase_world \<Rightarrow> bool" where
  "no_evidence cfg a w = (pw_files w (evidence_path cfg a ''initial'') = None
     \<and> pw_files w (evidence_path cfg a ''decision'') = None)"

lemma with_files_lookup:
  "pw_private (with_files cfg a x w) = pw_private w"
  "pw_proofs (with_files cfg a x w) = pw_proofs w"
  "pw_consumed (with_files cfg a x w) = pw_consumed w"
  "pw_files (with_files cfg a x w) (evidence_path cfg a ''initial'')
     = Some \<lparr>ef_private = True, ef_data = evidence_data (identity a)\<rparr>"
  "pw_files (with_files cfg a (Some state) w) (evidence_path cfg a ''decision'')
     = Some \<lparr>ef_private = True, ef_data = evidence_data (decision_payload a state)\<rparr>"
  "pw_files w (evidence_path cfg a ''decision'') = None \<Longrightarrow>
     pw_files (with_files cfg a None w) (evidence_path cfg a ''decision'') = None"
  using evidence_path_suffix [of cfg a a]
  by (simp_all add: with_files_def Let_def split: option.split)

lemma run_initialize:
  assumes "pw_private w" and "no_evidence cfg a w"
  shows "run (initialize cfg a) w = (Inr (), with_files cfg a None w)"
  using assms by (simp add: initialize_def run_simps run_write_evidence no_evidence_def with_files_def)

lemma run_before_publication:
  assumes "fits (identity a)" and "pw_files w (evidence_path cfg a ''decision'') = None"
  shows "run (before_publication cfg a) (with_files cfg a None w)
    = (Inr (), with_files cfg a (Some ''transaction_started'') w)"
  using assms
  by (simp add: before_publication_def run_simps run_read [where payload = "identity a"] with_files_lookup
      identity_read run_write_evidence) (simp add: with_files_def)

lemma run_before_publication_late:
  assumes "fits (identity a)"
  shows "run (before_publication cfg a) (with_files cfg a (Some state) w)
    = (Inl (FileExistsError (evidence_path cfg a ''decision'')), with_files cfg a (Some state) w)"
  using assms
  by (simp add: before_publication_def run_simps run_read [where payload = "identity a"] with_files_lookup
      identity_read run_write_evidence)

lemma says_decision: "says_not_started cfg a (members_of (decision_payload a state)) = (state = ''not_started'')"
proof -
  have "jstr state = jstr ''not_started'' \<longleftrightarrow> state = ''not_started''"
    unfolding jstr_def asc_def jval.inject by (rule inj_map_eq_map [OF inj_of_char])
  then show ?thesis using decision_pop [of a state cfg] by (simp add: says_not_started_def)
qed

lemma run_publication_state:
  assumes "fits (identity a)" and "fits (decision_payload a state)" and "pw_private w"
  shows "run (publication_state cfg a) (with_files cfg a (Some state) w)
    = (Inr (if state = ''not_started'' then ''not_started'' else ''commit_unknown''), with_files cfg a (Some state) w)"
  using assms
  by (simp add: publication_state_def run_simps run_read [where payload = "identity a"] with_files_lookup
      identity_read run_read [where payload = "decision_payload a state"] says_decision)

lemma run_close:
  assumes "fits (identity a)" and "fits (decision_payload a ''not_started'')" and "pw_private w"
    and "pw_files w (evidence_path cfg a ''decision'') = None" and "proof_record pid w = Inr (fencing_identity a)"
  shows "run (close_unpublished cfg a (Some pid)) (with_files cfg a None w)
    = (Inr True, with_files cfg a (Some ''not_started'') (pop_proof pid w))"
proof -
  have rec: "proof_record pid (with_files cfg a x v) = proof_record pid v" for x v
    by (simp add: proof_record_def with_files_lookup)
  have pop: "pop_proof pid (with_files cfg a x w) = with_files cfg a x (pop_proof pid w)" for x
    unfolding pop_proof_def rec by (cases "proof_record pid w") (simp_all add: with_files_def Let_def split: option.split)
  have files: "pw_files (pop_proof pid w) = pw_files w" "pw_private (pop_proof pid w) = pw_private w"
    by (simp_all add: pop_proof_def split: sum.split)
  have decided: "(with_files cfg a None v)\<lparr>pw_files := (pw_files (with_files cfg a None v))(evidence_path cfg a ''decision'' \<mapsto>
      \<lparr>ef_private = True, ef_data = evidence_data (decision_payload a state)\<rparr>)\<rparr> = with_files cfg a (Some state) v" for v state
    by (simp add: with_files_def Let_def)
  have none: "pw_files (with_files cfg a None (pop_proof pid w)) (evidence_path cfg a ''decision'') = None"
    using assms(4) by (simp add: with_files_lookup files)
  show ?thesis using assms
    by (simp add: close_unpublished_def validate_proof_def open_closure_context_def run_simps rec pop with_files_lookup
        run_read [where payload = "identity a"] identity_read run_write_evidence none decided
        run_read [where payload = "decision_payload a ''not_started''"] says_decision)
qed

lemma run_candidates:
  assumes "fits (identity a)" and "fits (decision_payload a state)" and "state = ''not_started'' \<or> state = ''transaction_started''"
  shows "run (candidate_valid cfg a ''initial'') (with_files cfg a (Some state) w) = (Inr True, with_files cfg a (Some state) w)"
    and "run (candidate_valid cfg a ''decision'') (with_files cfg a (Some state) w) = (Inr True, with_files cfg a (Some state) w)"
proof -
  show "run (candidate_valid cfg a ''initial'') (with_files cfg a (Some state) w) = (Inr True, with_files cfg a (Some state) w)"
    using assms by (simp add: candidate_valid_def Let_def run_simps with_files_lookup run_load [where payload = "identity a"] identity_read)
  have "run (check_decision (jstr state)) v = (Inr (), v)" for v
    using assms(3) by (auto simp: check_decision_def jstr_def)
  then show "run (candidate_valid cfg a ''decision'') (with_files cfg a (Some state) w) = (Inr True, with_files cfg a (Some state) w)"
    using assms decision_pop [of a state cfg]
    by (simp add: candidate_valid_def Let_def run_simps with_files_lookup run_load [where payload = "decision_payload a state"])
qed

lemma run_retire:
  assumes "fits (identity a)" and "fits (decision_payload a state)" and "pw_private w"
    and "state = ''not_started'' \<or> state = ''transaction_started''"
    and "pw_files w (evidence_path cfg a ''initial'') = None" and "pw_files w (evidence_path cfg a ''decision'') = None"
  shows "run (retire_phase cfg a) (with_files cfg a (Some state) w)
    = (Inr [evidence_path cfg a ''initial'', evidence_path cfg a ''decision''], w)"
proof -
  let ?w = "with_files cfg a (Some state) w"
  have "fst (run (unlink_all [evidence_path cfg a ''initial'', evidence_path cfg a ''decision'']) ?w) = Inr ()"
    "pw_files (snd (run (unlink_all [evidence_path cfg a ''initial'', evidence_path cfg a ''decision'']) ?w)) = pw_files w"
    using assms(5,6) evidence_path_suffix [of cfg a a] by (auto simp: with_files_lookup with_files_def fun_eq_iff)
  moreover have "snd (run (unlink_all [evidence_path cfg a ''initial'', evidence_path cfg a ''decision'']) ?w)
      = ?w\<lparr>pw_files := pw_files (snd (run (unlink_all [evidence_path cfg a ''initial'', evidence_path cfg a ''decision'']) ?w))\<rparr>"
    using evidence_path_suffix [of cfg a a] by (simp add: with_files_lookup)
  moreover have "?w\<lparr>pw_files := pw_files w\<rparr> = w" by (simp add: with_files_def Let_def)
  ultimately have "run (unlink_all [evidence_path cfg a ''initial'', evidence_path cfg a ''decision'']) ?w = (Inr (), w)"
    by (metis prod.collapse)
  then show ?thesis using assms
    by (simp add: retire_phase_def run_simps with_files_lookup run_candidates Let_def del: unlink_all.simps)
qed

text \<open>
  Claim C32 (closing an attempt): without interruption and failures, in a private directory without evidence
  of the attempt, initializing it and closing it with a proof issued for it reports it closed; it then reads
  as not started, a publisher is refused by the existing decision, the proof cannot be used again, and
  retiring the evidence returns both files and leaves the directory as it was.
\<close>

theorem closing_life_cycle:
  assumes "fits (identity a)" and "fits (decision_payload a ''not_started'')" and "pw_private w" and "no_evidence cfg a w"
    and "fresh_proofs w" and "run (initialize cfg a) w = (r0, w0)" and "issue_fencing_proof a w0 = (pid, w1)"
    and "run (close_unpublished cfg a (Some pid)) w1 = (r2, w2)"
  shows "r0 = Inr () \<and> r2 = Inr True
    \<and> run (publication_state cfg a) w2 = (Inr ''not_started'', w2)
    \<and> run (before_publication cfg a) w2 = (Inl (FileExistsError (evidence_path cfg a ''decision'')), w2)
    \<and> run (close_unpublished cfg a (Some pid)) w2
        = (Inl (PermissionError ''WorkerFencingProof has already been consumed or invalidated''), w2)
    \<and> (\<exists>w3. run (retire_phase cfg a) w2
         = (Inr [evidence_path cfg a ''initial'', evidence_path cfg a ''decision''], w3) \<and> pw_files w3 = pw_files w)"
proof -
  note ini = run_initialize [OF assms(3,4)]
  with assms(6) have r0: "r0 = Inr ()" and w0: "w0 = with_files cfg a None w" by simp_all
  define v where "v = w\<lparr>pw_proofs := (pw_proofs w)(pid \<mapsto> fencing_identity a), pw_issued := pw_issued w + 1\<rparr>"
  have pid: "pid = pw_issued w" and w1: "w1 = with_files cfg a None v"
    using assms(7) by (auto simp: issue_fencing_proof_def w0 v_def with_files_def Let_def)
  have "pid \<notin> set (pw_consumed w)" using assms(5) by (auto simp: pid fresh_proofs_def list_all_iff)
  then have rec: "proof_record pid v = Inr (fencing_identity a)" by (simp add: proof_record_def v_def)
  have v: "pw_private v" "pw_files v = pw_files w" using assms(3) by (simp_all add: v_def)
  have close: "run (close_unpublished cfg a (Some pid)) w1
      = (Inr True, with_files cfg a (Some ''not_started'') (pop_proof pid v))"
    unfolding w1 using assms(1,2,4) v rec by (intro run_close) (simp_all add: no_evidence_def)
  define u where "u = pop_proof pid v"
  have u: "pw_private u" "pw_files u = pw_files w" "List.member (pw_consumed u) pid"
    using v rec by (simp_all add: u_def pop_proof_def)
  from close assms(8) have w2: "w2 = with_files cfg a (Some ''not_started'') u" and r2: "r2 = Inr True" by (simp_all add: u_def)
  have "run (close_unpublished cfg a (Some pid)) w2
      = (Inl (PermissionError ''WorkerFencingProof has already been consumed or invalidated''), w2)"
    using u(3) by (simp add: close_unpublished_def validate_proof_def run_simps w2 proof_record_def with_files_lookup)
  moreover have "run (publication_state cfg a) w2 = (Inr ''not_started'', w2)"
    unfolding w2 using run_publication_state [OF assms(1,2) u(1)] by simp
  moreover have "run (before_publication cfg a) w2 = (Inl (FileExistsError (evidence_path cfg a ''decision'')), w2)"
    unfolding w2 by (rule run_before_publication_late [OF assms(1)])
  moreover have "run (retire_phase cfg a) w2 = (Inr [evidence_path cfg a ''initial'', evidence_path cfg a ''decision''], u)"
    unfolding w2 using assms(4) u by (intro run_retire [OF assms(1,2)]) (simp_all add: no_evidence_def)
  ultimately show ?thesis using r0 r2 u(2) by auto
qed

section \<open>A concrete attempt\<close>

definition demo_phase :: phase_config where
  "demo_phase = \<lparr>pc_sha256 = (\<lambda>s. ''d''), pc_float_is = (\<lambda>t i. False), pc_decode = (\<lambda>b. None)\<rparr>"

definition demo_capability :: phase_attempt where
  "demo_capability = OfCapability \<lparr>ra_job_id = ''j'', ra_attempt = 1, ra_graph_id = ''g'',
     ra_coordinator_instance_id = Some ''one'', ra_singleton_fencing_epoch = 1,
     ra_generations = (''sg1:a'', ''cg1:b'', ''eg1:c'', ''kg1:d''), ra_graph_lease_epoch = 1\<rparr>"

definition empty_world :: phase_world where
  "empty_world = \<lparr>pw_private = True, pw_files = (\<lambda>p. None), pw_proofs = (\<lambda>p. None), pw_consumed = [], pw_issued = 0\<rparr>"

lemma demo_fits: "fits (identity demo_capability)" "fits (decision_payload demo_capability ''not_started'')"
  by (simp_all add: fits_def demo_capability_def generation_members_def decision_payload_def jstr_def asc_def
      STATE_KEY_def scalar_def high_surrogate_def low_surrogate_def evidence_data_def quoted_def escape_code_def
      int_text_def nat_text.simps MAX_EVIDENCE_def)

lemma run_reach:
  "phase_reach cfg ops w0 w ps \<Longrightarrow> i < length ps \<Longrightarrow> ps ! i = m \<Longrightarrow> run m w = (Inr x, w') \<Longrightarrow>
   phase_reach cfg ops w0 w' (ps[i := Return x])"
proof (induction m arbitrary: w ps)
  case (Return y)
  then have "x = y" "w' = w" by simp_all
  with Return(1-3) show ?case by (simp add: list_update_same_conv [THEN iffD2])
next
  case (Do c k)
  obtain r v where f: "faultless c w = (r, v)" by fastforce
  then have "phase_reach cfg ops w0 v (ps[i := k r])"
    using phase_reach.call [OF Do.prems(1-3), of r v] by (simp add: answers_def)
  from Do.IH [OF rangeI this] Do.prems(2,4) f show ?case by simp
qed simp

theorem closing_life_cycle_witness:
  "fst (run (close_unpublished demo_phase demo_capability (Some (fst (issue_fencing_proof demo_capability
       (snd (run (initialize demo_phase demo_capability) empty_world))))))
     (snd (issue_fencing_proof demo_capability (snd (run (initialize demo_phase demo_capability) empty_world)))))
   = Inr True"
proof -
  have start: "pw_private empty_world" "no_evidence demo_phase demo_capability empty_world" "fresh_proofs empty_world"
    by (simp_all add: empty_world_def no_evidence_def fresh_proofs_def)
  show ?thesis
    using closing_life_cycle [OF demo_fits start prod.collapse [symmetric] prod.collapse [symmetric] prod.collapse [symmetric]]
    by blast
qed

definition demo_ops :: "phase_op list" where
  "demo_ops = [Publish demo_capability, Observe demo_capability]"

theorem decision_is_exclusive_witness:
  "\<exists>w ps. phase_reach demo_phase demo_ops (with_files demo_phase demo_capability None empty_world) w ps
     \<and> publication_started demo_capability demo_ops ps \<and> \<not> found_unpublished demo_capability demo_ops ps"
proof -
  let ?w0 = "with_files demo_phase demo_capability None empty_world"
    and ?w1 = "with_files demo_phase demo_capability (Some ''transaction_started'') empty_world"
    and ?ps = "[Return Finished, op_prog demo_phase (Observe demo_capability)]"
  have none: "pw_files empty_world p = None" for p by (simp add: empty_world_def)
  have run: "run (op_prog demo_phase (Publish demo_capability)) ?w0 = (Inr Finished, ?w1)"
    using run_before_publication [OF demo_fits(1) none, of demo_phase] by (simp add: run_bind)
  have reach: "phase_reach demo_phase demo_ops ?w0 ?w1 ?ps"
    using run_reach [OF phase_reach.start [of demo_phase demo_ops ?w0], of 0, OF _ refl] run
    by (simp add: demo_ops_def del: op_prog.simps)
  moreover have started: "publication_started demo_capability demo_ops ?ps"
    by (auto simp: publication_started_def demo_ops_def)
  moreover have "\<not> found_unpublished demo_capability demo_ops ?ps"
    using decision_is_exclusive [OF reach, of demo_capability] started demo_fits(1)
    by (simp add: with_files_lookup none demo_ops_def fits_def del: op_prog.simps)
  ultimately show ?thesis by blast
qed

end
