(* ===== verification/Base64.thy ===== *)
theory Base64
  imports Patterns
begin

text \<open>
  Base 64 with the URL-safe alphabet, as \<^verbatim>\<open>base64.urlsafe_b64encode\<close> writes it and
  \<^verbatim>\<open>base64.b64decode(.., altchars=b"-_", validate=True)\<close> reads it. Bytes are natural numbers below 256.
\<close>

section \<open>Writing\<close>

definition b64_char :: "nat \<Rightarrow> char" where
  "b64_char n =
     (if n < 26 then char_of (65 + n) else if n < 52 then char_of (71 + n)
      else if n < 62 then char_of (n - 4) else if n = 62 then CHR ''-'' else CHR ''_'')"

fun b64_digits :: "nat list \<Rightarrow> nat list" where
  \<comment> \<open>six bits each, the last ones padded with zero bits\<close>
  "b64_digits [] = []"
| "b64_digits [a] = [a div 4, a mod 4 * 16]"
| "b64_digits [a, b] = [a div 4, a mod 4 * 16 + b div 16, b mod 16 * 4]"
| "b64_digits (a # b # c # s) =
     [a div 4, a mod 4 * 16 + b div 16, b mod 16 * 4 + c div 64, c mod 64] @ b64_digits s"

definition b64_pad :: "nat \<Rightarrow> string" where
  "b64_pad n = replicate ((4 - n mod 4) mod 4) (CHR ''='')"

definition urlsafe_b64encode :: "nat list \<Rightarrow> string" where
  "urlsafe_b64encode b = (let s = map b64_char (b64_digits b) in s @ b64_pad (length s))"

definition rstrip :: "char \<Rightarrow> string \<Rightarrow> string" where
  "rstrip c s = rev (dropWhile (\<lambda>d. d = c) (rev s))"

section \<open>Reading\<close>

definition b64_value :: "char \<Rightarrow> nat option" where
  \<comment> \<open>the alternative characters are translated first, so \<^verbatim>\<open>+\<close> and \<^verbatim>\<open>/\<close> are still read\<close>
  "b64_value c =
     (if c_upper c then Some (code c - 65) else if c_lower c then Some (code c - 71)
      else if c_digit c then Some (code c + 4)
      else if c = CHR ''-'' \<or> c = CHR ''+'' then Some 62
      else if c = CHR ''_'' \<or> c = CHR ''/'' then Some 63 else None)"

fun b64_bytes :: "nat list \<Rightarrow> nat list" where
  "b64_bytes (a # b # c # d # s) =
     [a * 4 + b div 16, b mod 16 * 16 + c div 4, c mod 4 * 64 + d] @ b64_bytes s"
| "b64_bytes [a, b, c] = [a * 4 + b div 16, b mod 16 * 16 + c div 4]"
| "b64_bytes [a, b] = [a * 4 + b div 16]"
| "b64_bytes _ = []"

definition b64decode :: "string \<Rightarrow> nat list option" where
  "b64decode s =
     (let k = length (takeWhile (\<lambda>d. d = CHR ''='') (rev s));
          digits = map b64_value (take (length s - k) s)
      in if k \<le> 2 \<and> length s mod 4 = 0 \<and> list_all (\<lambda>v. v \<noteq> None) digits
         then Some (b64_bytes (map the digits)) else None)"

section \<open>Reading what was written\<close>

lemma high_digit: "b < (256::nat) \<Longrightarrow> b div 16 < 16" "b < (256::nat) \<Longrightarrow> b div 64 < 4" "b < (256::nat) \<Longrightarrow> b div 4 < 64"
  by (simp_all add: less_mult_imp_div_less)

lemma joined_digit:
  "y < 16 \<Longrightarrow> x mod 4 * 16 + y < (64::nat)" "y < 4 \<Longrightarrow> x mod 16 * 4 + y < (64::nat)"
proof -
  have "x mod 4 < 4" "x mod 16 < 16" by simp_all
  then show "y < 16 \<Longrightarrow> x mod 4 * 16 + y < 64" "y < 4 \<Longrightarrow> x mod 16 * 4 + y < 64" by linarith+
qed

lemma b64_digits_range: "list_all (\<lambda>b. b < 256) b \<Longrightarrow> list_all (\<lambda>n. n < 64) (b64_digits b)"
proof (induction b rule: b64_digits.induct)
  case (2 a)
  then show ?case using joined_digit(1) [of 0 a] high_digit by simp
next
  case (3 a b)
  then show ?case using joined_digit(2) [of 0 b] joined_digit(1) high_digit by simp
qed (use joined_digit high_digit in simp_all)

lemma b64_digits_length: "length (b64_digits b) mod 4 \<noteq> 1"
  by (induction b rule: b64_digits.induct) (simp_all add: mod_Suc)

lemma b64_digits_bound: "3 * length (b64_digits b) \<le> 4 * length b + 4"
  by (induction b rule: b64_digits.induct) auto

lemma split_digit:
  "y < 16 \<Longrightarrow> (x * 16 + y) div 16 = (x::nat)" "y < 16 \<Longrightarrow> (x * 16 + y) mod 16 = (y::nat)"
  "z < 4 \<Longrightarrow> (x * 4 + z) div 4 = x" "z < 4 \<Longrightarrow> (x * 4 + z) mod 4 = z"
  by (simp_all add: add.commute)

lemma b64_bytes_digits: "list_all (\<lambda>b. b < 256) b \<Longrightarrow> b64_bytes (b64_digits b) = b"
  by (induction b rule: b64_digits.induct) (simp_all add: split_digit high_digit)

lemma b64_value_char: "n < 64 \<Longrightarrow> b64_value (b64_char n) = Some n"
proof -
  assume n: "n < 64"
  consider "n < 26" | "26 \<le> n" "n < 52" | "52 \<le> n" "n < 62" | "n = 62" | "n = 63" using n by linarith
  then show ?thesis
    by cases (auto simp: b64_value_def b64_char_def c_upper_def c_lower_def c_digit_def in_range_def code_def)
qed

lemma b64_char_no_pad: "n < 64 \<Longrightarrow> b64_char n \<noteq> CHR ''=''"
  using b64_value_char [of n] by (auto simp: b64_value_def c_upper_def c_lower_def c_digit_def in_range_def code_def)

lemma rstrip_pad:
  assumes "list_all (\<lambda>c. c \<noteq> d) s"
  shows "rstrip d (s @ replicate n d) = s"
proof -
  have "dropWhile (\<lambda>c. c = d) (replicate n d @ t) = dropWhile (\<lambda>c. c = d) t" for t by (induction n) auto
  moreover have "dropWhile (\<lambda>c. c = d) (rev s) = rev s"
    using assms by (cases s rule: rev_cases) auto
  ultimately show ?thesis by (simp add: rstrip_def)
qed

lemma takeWhile_pad:
  "list_all (\<lambda>c. c \<noteq> d) s \<Longrightarrow> takeWhile (\<lambda>c. c = d) (rev (s @ replicate n d)) = replicate n d"
proof -
  assume s: "list_all (\<lambda>c. c \<noteq> d) s"
  have "takeWhile (\<lambda>c. c = d) (replicate n d @ t) = replicate n d @ takeWhile (\<lambda>c. c = d) t" for t by (induction n) auto
  moreover have "takeWhile (\<lambda>c. c = d) (rev s) = []" using s by (cases s rule: rev_cases) auto
  ultimately show ?thesis by simp
qed

definition b64_text :: "nat list \<Rightarrow> string" where
  "b64_text b = map b64_char (b64_digits b)"

lemma b64_text_plain: "list_all (\<lambda>b. b < 256) b \<Longrightarrow> list_all (\<lambda>c. c \<noteq> CHR ''='') (b64_text b)"
  using b64_digits_range [of b] b64_char_no_pad by (auto simp: b64_text_def list_all_iff)

lemma urlsafe_strip: "list_all (\<lambda>b. b < 256) b \<Longrightarrow> rstrip (CHR ''='') (urlsafe_b64encode b) = b64_text b"
  using rstrip_pad [OF b64_text_plain] by (simp add: urlsafe_b64encode_def b64_pad_def b64_text_def Let_def)

lemma b64decode_text:
  assumes b: "list_all (\<lambda>b. b < 256) b"
  shows "b64decode (b64_text b @ b64_pad (length (b64_text b))) = Some b"
proof -
  let ?t = "b64_text b" and ?n = "(4 - length (b64_text b) mod 4) mod 4"
  have pads: "(4 - k mod 4) mod 4 \<le> 2 \<and> (k + (4 - k mod 4) mod 4) mod 4 = 0" if "k mod 4 \<noteq> 1" for k :: nat
  proof -
    have "k mod 4 = 0 \<or> k mod 4 = 2 \<or> k mod 4 = 3" using that mod_less_divisor [of 4 k] by linarith
    then show ?thesis by (auto simp: mod_Suc)
  qed
  have "length ?t mod 4 \<noteq> 1" using b64_digits_length [of b] by (simp add: b64_text_def)
  from pads [OF this] have n: "?n \<le> 2" and m: "(length ?t + ?n) mod 4 = 0" by blast+
  have v: "map b64_value ?t = map Some (b64_digits b)"
    using b64_digits_range [OF b] b64_value_char by (simp add: b64_text_def list_all_iff)
  have ok: "list_all (\<lambda>v. v \<noteq> None) (map b64_value ?t)" unfolding v by (simp add: list_all_iff)
  have "take (length ?t + ?n - ?n) (?t @ replicate ?n (CHR ''='')) = ?t" by simp
  then show ?thesis
    using n m v ok takeWhile_pad [OF b64_text_plain [OF b], of ?n] b64_bytes_digits [OF b]
    by (simp add: b64decode_def b64_pad_def Let_def comp_def del: take_append rev_append)
qed

end
