(* ===== verification/Job_Listing.thy ===== *)
theory Job_Listing
  imports Base64 Protocol_Framing Protocol_Session Control_Db
begin

text \<open>
  Recent jobs in pages (\<^verbatim>\<open>job_listing.py\<close>, \<^verbatim>\<open>_control_listing.py\<close>): the opaque keyset cursor, the validation of the
  options, and the query. The database driver's conversions of timestamps are parameters: \<open>load\<close> gives the
  UTC fields of a stored timestamp, with a flag for an aware datetime, and \<open>adapt\<close> turns a datetime into a
  stored timestamp. Text is Latin-1; \<^verbatim>\<open>job_id\<close> is ordered by code.
\<close>

section \<open>Cursors\<close>

definition re_LIST_GRAPH_ID :: re where
  \<comment> \<open>\<^verbatim>\<open>[A-Za-z0-9][A-Za-z0-9._-]{0,127}\<close>\<close>
  "re_LIST_GRAPH_ID = RSeq (RCls c_alnum) (RUpto 127 (RCls (\<lambda>c. c_alnum c \<or> c_in ''._-'' c)))"

definition re_JOB_ID :: re where
  \<comment> \<open>\<^verbatim>\<open>[A-Za-z0-9][A-Za-z0-9._:-]{0,127}\<close>\<close>
  "re_JOB_ID = RSeq (RCls c_alnum) (RUpto 127 (RCls (\<lambda>c. c_alnum c \<or> c_in ''._:-'' c)))"

definition re_TIMESTAMP :: re where
  \<comment> \<open>\<^verbatim>\<open>\d{4}-\d{2}-\d{2}T\d{2}:\d{2}:\d{2}\.\d{6}Z\<close>\<close>
  "re_TIMESTAMP = rseqs
     [digits 4, char_re (CHR ''-''), digits 2, char_re (CHR ''-''), digits 2, char_re (CHR ''T''),
      digits 2, char_re (CHR '':''), digits 2, char_re (CHR '':''), digits 2, char_re (CHR ''.''), digits 6,
      char_re (CHR ''Z'')]"

record JobListCursor =
  jc_submitted_at :: string
  jc_job_id :: string

definition invalid_cursor :: py_error where
  "invalid_cursor = ValueError ''job list cursor is invalid''"

definition validate_cursor :: "JobListCursor \<Rightarrow> unit result" where
  "validate_cursor c =
     guardE (fullmatch re_TIMESTAMP (jc_submitted_at c) \<and> fullmatch re_JOB_ID (jc_job_id c)) invalid_cursor (
     guardE (iso_datetime_ok (jc_submitted_at c)) invalid_cursor (Inr ()))"

definition cursor_bytes :: "JobListCursor \<Rightarrow> nat list" where
  "cursor_bytes c = dumps (NArr [NStr (asc (jc_submitted_at c)), NStr (asc (jc_job_id c))])"

definition encode_job_cursor :: "JobListCursor \<Rightarrow> string result" where
  "encode_job_cursor c =
     bindE (validate_cursor c) (\<lambda>_. Inr (rstrip (CHR ''='') (urlsafe_b64encode (cursor_bytes c))))"

definition latin :: "utext \<Rightarrow> string option" where
  "latin t = (if list_all (\<lambda>n. n < 256) t then Some (map char_of t) else None)"

definition cursor_of_json :: "jval \<Rightarrow> JobListCursor option" where
  \<comment> \<open>a list of two strings\<close>
  "cursor_of_json v =
     (case v of
        NArr [NStr a, NStr b] \<Rightarrow>
          (case (latin a, latin b) of
             (Some s, Some t) \<Rightarrow> Some \<lparr>jc_submitted_at = s, jc_job_id = t\<rparr> | _ \<Rightarrow> None)
      | _ \<Rightarrow> None)"

definition read_cursor :: "string \<Rightarrow> JobListCursor option" where
  \<comment> \<open>what the text holds; other encodings than UTF-8 never encode back to it\<close>
  "read_cursor s =
     Option.bind (b64decode (s @ b64_pad (length s))) (\<lambda>raw.
     Option.bind (utf8_decode raw) (\<lambda>t.
     Option.bind (loads t) cursor_of_json))"

definition decode_job_cursor :: "pyval \<Rightarrow> JobListCursor result" where
  "decode_job_cursor v =
     (case v of
        VStr s \<Rightarrow>
          guardE (1 \<le> length s \<and> length s \<le> 512) invalid_cursor (
          case read_cursor s of
            None \<Rightarrow> Inl invalid_cursor
          | Some c \<Rightarrow>
              bindE (validate_cursor c) (\<lambda>_.
              bindE (encode_job_cursor c) (\<lambda>again.
              guardE (again = s) invalid_cursor (Inr c))))
      | _ \<Rightarrow> Inl invalid_cursor)"

definition invalid_options :: py_error where
  "invalid_options = ValueError ''job list options are invalid''"

definition list_graph_id :: "pyval \<Rightarrow> string option result" where
  "list_graph_id v =
     (case v of
        VNone \<Rightarrow> Inr None
      | VStr s \<Rightarrow> guardE (fullmatch re_LIST_GRAPH_ID s) invalid_options (Inr (Some s))
      | _ \<Rightarrow> Inl invalid_options)"

definition list_cursor :: "pyval \<Rightarrow> JobListCursor option result" where
  "list_cursor v =
     (case v of
        VNone \<Rightarrow> Inr None
      | VStr s \<Rightarrow> (case decode_job_cursor v of Inr c \<Rightarrow> Inr (Some c) | Inl _ \<Rightarrow> Inl invalid_options)
      | _ \<Rightarrow> Inl invalid_options)"

definition validate_job_list_options ::
  "pyval \<Rightarrow> pyval \<Rightarrow> pyval \<Rightarrow> (nat \<times> string option \<times> JobListCursor option) result" where
  "validate_job_list_options limit graph cursor =
     (case limit of
        VInt n \<Rightarrow>
          guardE (1 \<le> n \<and> n \<le> 32) invalid_options (
          bindE (list_graph_id graph) (\<lambda>g.
          bindE (list_cursor cursor) (\<lambda>c. Inr (nat n, g, c))))
      | _ \<Rightarrow> Inl invalid_options)"

section \<open>Timestamps\<close>

type_synonym utc_datetime = "nat \<times> nat \<times> nat \<times> nat \<times> nat \<times> nat \<times> int"

definition padded :: "nat \<Rightarrow> nat \<Rightarrow> string" where
  "padded w n = replicate (w - length (nat_text n)) (CHR ''0'') @ nat_text n"

definition format_fields :: "utc_datetime \<Rightarrow> string" where
  \<comment> \<open>\<^verbatim>\<open>strftime("%Y-%m-%dT%H:%M:%S.%fZ")\<close>; \<^verbatim>\<open>%Y\<close> is not padded on every platform\<close>
  "format_fields t =
     (case t of (y, mo, d, h, mi, s, us) \<Rightarrow>
        nat_text y @ ''-'' @ padded 2 mo @ ''-'' @ padded 2 d @ ''T'' @ padded 2 h @ '':'' @ padded 2 mi @ '':''
        @ padded 2 s @ ''.'' @ padded 6 (nat us) @ ''Z'')"

definition format_utc_timestamp :: "bool \<times> utc_datetime \<Rightarrow> string result" where
  "format_utc_timestamp v =
     guardE (fst v) (ValueError ''job list timestamp is invalid'') (Inr (format_fields (snd v)))"

section \<open>Pages\<close>

record JobListItem =
  li_job_id :: string
  li_graph_id :: string
  li_state :: string
  li_submitted_at :: string

record JobListPage =
  lp_jobs :: "JobListItem list"
  lp_next_cursor :: "string option"

definition recency :: "job_row \<Rightarrow> int \<times> string" where
  "recency j = (j_submitted_at j, j_job_id j)"

definition in_page :: "(utc_datetime \<Rightarrow> int) \<Rightarrow> string option \<Rightarrow> JobListCursor option \<Rightarrow> job_row \<Rightarrow> bool" where
  \<comment> \<open>the \<^verbatim>\<open>WHERE\<close> clauses\<close>
  "in_page adapt graph boundary j =
     ((case graph of None \<Rightarrow> True | Some g \<Rightarrow> j_graph_id j = g)
      \<and> (case boundary of None \<Rightarrow> True
         | Some c \<Rightarrow> recency j < (adapt (parse_utc (jc_submitted_at c)), jc_job_id c)))"

definition recent_rows :: "(job_row \<Rightarrow> bool) \<Rightarrow> control_db \<Rightarrow> job_row list" where
  \<comment> \<open>\<^verbatim>\<open>ORDER BY submitted_at DESC, job_id DESC\<close>\<close>
  "recent_rows p db = rev (select_by recency p (jobs db))"

definition list_item :: "(int \<Rightarrow> bool \<times> utc_datetime) \<Rightarrow> job_row \<Rightarrow> JobListItem result" where
  "list_item load j =
     bindE (format_utc_timestamp (load (j_submitted_at j))) (\<lambda>t.
     Inr \<lparr>li_job_id = j_job_id j, li_graph_id = j_graph_id j, li_state = state_name (j_state j), li_submitted_at = t\<rparr>)"

fun list_items :: "(int \<Rightarrow> bool \<times> utc_datetime) \<Rightarrow> job_row list \<Rightarrow> JobListItem list result" where
  "list_items load [] = Inr []"
| "list_items load (j # js) = bindE (list_item load j) (\<lambda>x. bindE (list_items load js) (\<lambda>xs. Inr (x # xs)))"

definition list_recent_jobs ::
  "(int \<Rightarrow> bool \<times> utc_datetime) \<Rightarrow> (utc_datetime \<Rightarrow> int) \<Rightarrow> pyval \<Rightarrow> pyval \<Rightarrow> pyval \<Rightarrow> control_db \<Rightarrow> JobListPage result" where
  "list_recent_jobs load adapt limit graph cursor db =
     bindE (validate_job_list_options limit graph cursor) (\<lambda>(page_size, graph_filter, boundary).
     let rows = take (page_size + 1) (recent_rows (in_page adapt graph_filter boundary) db)
     in bindE (list_items load (take page_size rows)) (\<lambda>items.
        bindE (if page_size < length rows
               then bindE (encode_job_cursor \<lparr>jc_submitted_at = li_submitted_at (last items), jc_job_id = li_job_id (last items)\<rparr>)
                      (\<lambda>c. Inr (Some c))
               else Inr None) (\<lambda>next.
        Inr \<lparr>lp_jobs = items, lp_next_cursor = next\<rparr>)))"

end
