(* ===== verification/Listing_Properties.thy ===== *)
theory Listing_Properties
  imports Job_Listing Control_Example
begin

text \<open>
  Cursors are read back as they were written, every accepted cursor is the one encoding of its boundary,
  and following the cursors of a listing visits every job once, newest first.
\<close>

section \<open>The shape of timestamps\<close>

primrec width :: "re \<Rightarrow> nat option" where
  "width (RCls f) = Some 1"
| "width REps = Some 0"
| "width (RSeq r s) = (case (width r, width s) of (Some m, Some n) \<Rightarrow> Some (m + n) | _ \<Rightarrow> None)"
| "width (RAlt r s) = None"
| "width (RStar r) = None"
| "width (RUpto n r) = None"
| "width RBegin = None"
| "width RWordB = None"

lemma reach_width: "width r = Some n \<Longrightarrow> q \<in> set (reach r p) \<Longrightarrow> length (snd p) = n + length (snd q)"
proof (induction r arbitrary: n p q)
  case (RCls f)
  then show ?case by (cases "snd p") (auto split: if_splits)
next
  case (RSeq r s)
  then obtain m k where w: "width r = Some m" "width s = Some k" "n = m + k" by (auto split: option.splits)
  from RSeq.prems(2) obtain t where t: "t \<in> set (reach r p)" "q \<in> set (reach s t)" by auto
  from RSeq.IH(1) [OF w(1) t(1)] RSeq.IH(2) [OF w(2) t(2)] w(3) show ?case by simp
qed auto

lemma fullmatch_width: "fullmatch r s \<Longrightarrow> width r = Some n \<Longrightarrow> length s = n"
  using reach_width [of r n _ "(None, s)"] by (fastforce simp: fullmatch_def list_ex_iff)

lemma timestamp_width: "width re_TIMESTAMP = Some 27"
  by (simp add: re_TIMESTAMP_def digits_def char_re_def eval_nat_numeral)

definition stamp_char :: "char \<Rightarrow> bool" where
  "stamp_char c = (c_digit c \<or> c_in ''-T:.Z'' c)"

lemma timestamp_chars:
  assumes "fullmatch re_TIMESTAMP s"
  shows "length s = 27 \<and> list_all stamp_char s"
proof -
  have len: "length s = 27" by (rule fullmatch_width [OF assms timestamp_width])
  then obtain a b c d e f g h i j k l m n p q r t u v w x y z a' b' c'
    where s: "s = [a, b, c, d, e, f, g, h, i, j, k, l, m, n, p, q, r, t, u, v, w, x, y, z, a', b', c']"
    by (auto simp: eval_nat_numeral length_Suc_conv)
  show ?thesis using assms unfolding s
    by (simp add: fullmatch_def re_TIMESTAMP_def digits_def char_re_def eval_nat_numeral stamp_char_def c_in_def split: if_splits)
qed

section \<open>Cursors\<close>

definition plain_code :: "nat \<Rightarrow> bool" where
  \<comment> \<open>written without an escape\<close>
  "plain_code n = (32 \<le> n \<and> n \<le> 126 \<and> n \<noteq> 34 \<and> n \<noteq> 92)"

lemma class_plain: "c_alnum c \<or> c_in ''._:-'' c \<or> stamp_char c \<Longrightarrow> plain_code (of_char c)"
  by (auto simp: c_alnum_def c_lower_def c_upper_def c_digit_def in_range_def code_def c_in_def stamp_char_def plain_code_def)

lemma job_id_chars: "fullmatch re_JOB_ID s \<Longrightarrow> 1 \<le> length s \<and> length s \<le> 128 \<and> list_all (\<lambda>c. plain_code (of_char c)) s"
  unfolding re_JOB_ID_def fullmatch_head_upto using class_plain by (fastforce simp: list_all_iff)

lemma plain_quoted: "list_all (\<lambda>c. plain_code (of_char c)) s \<Longrightarrow> quoted (asc s) = 34 # asc s @ [34]"
  by (induction s) (auto simp: quoted_def asc_def escape_code_def plain_code_def)

lemma plain_scalar: "list_all (\<lambda>c. plain_code (of_char c)) s \<Longrightarrow> list_all scalar (asc s)"
  by (auto simp: asc_def list_all_iff plain_code_def scalar_def high_surrogate_def low_surrogate_def)

lemma latin_asc: "latin (asc s) = Some s"
  by (simp add: latin_def asc_def list_all_iff comp_def)

lemma validated_cursor:
  assumes "validate_cursor c = Inr ()"
  shows "cursor_bytes c = [91, 34] @ asc (jc_submitted_at c) @ [34, 44, 34] @ asc (jc_job_id c) @ [34, 93]"
    and "length (cursor_bytes c) \<le> 162" and "list_all printable (cursor_bytes c)"
    and "loads (cursor_bytes c) = Some (NArr [NStr (asc (jc_submitted_at c)), NStr (asc (jc_job_id c))])"
proof -
  have t: "length (jc_submitted_at c) = 27" "list_all stamp_char (jc_submitted_at c)"
    and j: "length (jc_job_id c) \<le> 128" "list_all (\<lambda>c. plain_code (of_char c)) (jc_job_id c)"
    using assms timestamp_chars job_id_chars by (auto simp: validate_cursor_def result_simps)
  then have ts: "list_all (\<lambda>c. plain_code (of_char c)) (jc_submitted_at c)"
    using class_plain by (auto simp: list_all_iff)
  show b: "cursor_bytes c = [91, 34] @ asc (jc_submitted_at c) @ [34, 44, 34] @ asc (jc_job_id c) @ [34, 93]"
    using plain_quoted [OF ts] plain_quoted [OF j(2)] by (simp add: cursor_bytes_def)
  show "length (cursor_bytes c) \<le> 162" using t j by (simp add: b asc_def)
  have wf: "wf_json (NArr [NStr (asc (jc_submitted_at c)), NStr (asc (jc_job_id c))])"
    using plain_scalar [OF ts] plain_scalar [OF j(2)] by simp
  show "list_all printable (cursor_bytes c)" unfolding cursor_bytes_def by (rule dumps_printable(1) [OF wf_readable [OF wf]])
  show "loads (cursor_bytes c) = Some (NArr [NStr (asc (jc_submitted_at c)), NStr (asc (jc_job_id c))])"
    unfolding cursor_bytes_def by (rule loads_dumps [OF wf])
qed

lemma encode_cursor:
  assumes "validate_cursor c = Inr ()"
  shows "encode_job_cursor c = Inr (b64_text (cursor_bytes c))"
    and "1 \<le> length (b64_text (cursor_bytes c)) \<and> length (b64_text (cursor_bytes c)) \<le> 512"
    and "read_cursor (b64_text (cursor_bytes c)) = Some c"
proof -
  note v = validated_cursor [OF assms]
  have bytes: "list_all (\<lambda>b. b < 256) (cursor_bytes c)" "list_all (\<lambda>b. b < 128) (cursor_bytes c)"
    using v(3) by (auto simp: list_all_iff printable_def)
  show "encode_job_cursor c = Inr (b64_text (cursor_bytes c))"
    using assms urlsafe_strip [OF bytes(1)] by (simp add: encode_job_cursor_def)
  have "cursor_bytes c = 91 # 34 # drop 2 (cursor_bytes c)" by (simp add: v(1))
  then have "b64_digits (cursor_bytes c) \<noteq> []" by (metis b64_digits.simps(1) b64_bytes_digits [OF bytes(1)] b64_bytes.simps(4) list.distinct(1))
  then show "1 \<le> length (b64_text (cursor_bytes c)) \<and> length (b64_text (cursor_bytes c)) \<le> 512"
    using b64_digits_bound [of "cursor_bytes c"] v(2) by (auto simp: b64_text_def Suc_le_eq)
  show "read_cursor (b64_text (cursor_bytes c)) = Some c"
    using b64decode_text [OF bytes(1)] utf8_decode_ascii [OF bytes(2)] v(4)
    by (simp add: read_cursor_def cursor_of_json_def latin_asc)
qed

text \<open>
  Claim C33 (cursors): every valid boundary is encoded, and decoding gives it back; conversely every text that
  decodes is the encoding of the boundary it decodes to. So cursors and valid boundaries correspond one
  to one, and no cursor is longer than 512 characters.
\<close>

theorem cursor_roundtrip:
  "(validate_cursor c = Inr () \<longrightarrow> (\<exists>s. encode_job_cursor c = Inr s \<and> decode_job_cursor (VStr s) = Inr c))
   \<and> (decode_job_cursor v = Inr c \<longrightarrow> (\<exists>s. v = VStr s \<and> length s \<le> 512 \<and> encode_job_cursor c = Inr s))"
proof
  show "validate_cursor c = Inr () \<longrightarrow> (\<exists>s. encode_job_cursor c = Inr s \<and> decode_job_cursor (VStr s) = Inr c)"
    using encode_cursor [of c] by (auto simp: decode_job_cursor_def result_simps)
  show "decode_job_cursor v = Inr c \<longrightarrow> (\<exists>s. v = VStr s \<and> length s \<le> 512 \<and> encode_job_cursor c = Inr s)"
    by (auto simp: decode_job_cursor_def result_simps split: pyval.splits option.splits)
qed

definition demo_cursor :: JobListCursor where
  "demo_cursor = \<lparr>jc_submitted_at = ''2026-07-13T01:02:03.000004Z'', jc_job_id = ''j1''\<rparr>"

theorem cursor_roundtrip_witness:
  "\<exists>s. encode_job_cursor demo_cursor = Inr s \<and> decode_job_cursor (VStr s) = Inr demo_cursor"
proof -
  have "validate_cursor demo_cursor = Inr ()" by code_simp
  with cursor_roundtrip [of demo_cursor] show ?thesis by blast
qed

section \<open>Timestamps\<close>

definition valid_fields :: "utc_datetime \<Rightarrow> bool" where
  "valid_fields t =
     (case t of (y, mo, d, h, mi, s, us) \<Rightarrow>
        1000 \<le> y \<and> y < 10000 \<and> 1 \<le> mo \<and> mo \<le> 12 \<and> 1 \<le> d \<and> d \<le> days_in_month y mo
        \<and> h < 24 \<and> mi < 60 \<and> s < 60 \<and> 0 \<le> us \<and> us < 1000000)"

definition digit_text :: "nat \<Rightarrow> string \<Rightarrow> bool" where
  "digit_text w s = (length s = w \<and> list_all c_digit s)"

lemma digit_char: "k < 10 \<Longrightarrow> c_digit (char_of (48 + k)) \<and> code (char_of (48 + k)) = 48 + k"
  by (simp add: c_digit_def in_range_def code_def)

lemma nat_text_digits: "list_all c_digit (nat_text n)"
  by (induction n rule: nat_text.induct) (subst nat_text.simps, simp add: digit_char)

lemma nat_of_digits_snoc: "k < 10 \<Longrightarrow> nat_of_digits (s @ [char_of (48 + k)]) = 10 * nat_of_digits s + k"
  using digit_char [of k] by simp

lemma nat_of_nat_text: "nat_of_digits (nat_text n) = n"
proof (induction n rule: nat_text.induct)
  case (1 n)
  show ?case
  proof (cases "n < 10")
    case True
    then show ?thesis using nat_of_digits_snoc [of n "[]"] by (subst nat_text.simps) simp
  next
    case False
    then show ?thesis using 1 nat_of_digits_snoc [of "n mod 10" "nat_text (n div 10)"]
      by (subst nat_text.simps) (simp del: nat_of_digits.simps)
  qed
qed

lemma nat_of_padded: "nat_of_digits (padded w n) = n"
proof -
  have "nat_of_digits (replicate k (CHR ''0'') @ s) = nat_of_digits s" for k s
    by (induction k) (simp_all add: code_def)
  then show ?thesis by (simp add: padded_def nat_of_nat_text del: nat_of_digits.simps)
qed

lemma nat_text_length: "length (nat_text n) = (if n < 10 then 1 else Suc (length (nat_text (n div 10))))"
  by (subst nat_text.simps) simp

lemma padded_digits: "n < 10 ^ w \<Longrightarrow> 0 < w \<Longrightarrow> digit_text w (padded w n)"
proof -
  have "length (nat_text n) \<le> w" if "n < 10 ^ w" "0 < w" for n w
    using that
  proof (induction w arbitrary: n)
    case (Suc w)
    show ?case
    proof (cases "n < 10")
      case False
      then have "n div 10 < 10 ^ w" "0 < w" using Suc.prems by (auto intro: ccontr simp: less_mult_imp_div_less mult.commute)
      with Suc.IH [of "n div 10"] False show ?thesis by (subst nat_text_length) simp
    qed (subst nat_text_length, simp)
  qed simp
  then show "n < 10 ^ w \<Longrightarrow> 0 < w \<Longrightarrow> digit_text w (padded w n)"
    using nat_text_digits [of n] by (auto simp: digit_text_def padded_def c_digit_def in_range_def code_def list_all_iff)
qed

lemma year_digits:
  assumes "1000 \<le> y" and "y < 10000"
  shows "digit_text 4 (nat_text y)"
proof -
  have "length (nat_text y) = 4" using assms by (simp add: nat_text_length div_mult2_eq [symmetric] div_less_iff_less_mult)
  then show ?thesis using nat_text_digits by (simp add: digit_text_def)
qed

lemma digit_text_split:
  assumes "digit_text 2 s" obtains a b where "s = [a, b]" "c_digit a" "c_digit b"
  using assms by (auto simp: digit_text_def eval_nat_numeral length_Suc_conv)

lemma timestamp_fullmatch:
  assumes "digit_text 4 y" and "digit_text 2 mo" and "digit_text 2 d" and "digit_text 2 h" and "digit_text 2 mi"
    and "digit_text 2 s" and "digit_text 6 us"
  shows "fullmatch re_TIMESTAMP (y @ ''-'' @ mo @ ''-'' @ d @ ''T'' @ h @ '':'' @ mi @ '':'' @ s @ ''.'' @ us @ ''Z'')"
proof -
  obtain y1 y2 y3 y4 where y: "y = [y1, y2, y3, y4]" "c_digit y1" "c_digit y2" "c_digit y3" "c_digit y4"
    using assms(1) by (auto simp: digit_text_def eval_nat_numeral length_Suc_conv)
  obtain u1 u2 u3 u4 u5 u6 where u: "us = [u1, u2, u3, u4, u5, u6]" "c_digit u1" "c_digit u2" "c_digit u3" "c_digit u4"
    "c_digit u5" "c_digit u6"
    using assms(7) by (auto simp: digit_text_def eval_nat_numeral length_Suc_conv)
  obtain a b where mo: "mo = [a, b]" "c_digit a" "c_digit b" using assms(2) by (rule digit_text_split)
  obtain a' b' where d: "d = [a', b']" "c_digit a'" "c_digit b'" using assms(3) by (rule digit_text_split)
  obtain e f where h: "h = [e, f]" "c_digit e" "c_digit f" using assms(4) by (rule digit_text_split)
  obtain e' f' where mi: "mi = [e', f']" "c_digit e'" "c_digit f'" using assms(5) by (rule digit_text_split)
  obtain g g' where s: "s = [g, g']" "c_digit g" "c_digit g'" using assms(6) by (rule digit_text_split)
  show ?thesis using y u mo d h mi s
    by (simp add: fullmatch_def re_TIMESTAMP_def digits_def char_re_def eval_nat_numeral)
qed

lemma format_ok:
  assumes "valid_fields t"
  shows "fullmatch re_TIMESTAMP (format_fields t)" and "iso_datetime_ok (format_fields t)"
    and "parse_utc (format_fields t) = t"
proof -
  obtain y mo d h mi s us where t: "t = (y, mo, d, h, mi, s, us)" by (cases t) auto
  have r: "1000 \<le> y" "y < 10000" "1 \<le> mo" "mo \<le> 12" "1 \<le> d" "d \<le> days_in_month y mo" "h < 24" "mi < 60" "s < 60"
    "0 \<le> us" "us < 1000000" using assms by (simp_all add: t valid_fields_def)
  have "d \<le> 31" using r(6) by (auto simp: days_in_month_def split: if_splits)
  then have dg: "digit_text 4 (nat_text y)" "digit_text 2 (padded 2 mo)" "digit_text 2 (padded 2 d)" "digit_text 2 (padded 2 h)"
    "digit_text 2 (padded 2 mi)" "digit_text 2 (padded 2 s)" "digit_text 6 (padded 6 (nat us))"
    using r year_digits by (auto intro!: padded_digits)
  show "fullmatch re_TIMESTAMP (format_fields t)"
    using timestamp_fullmatch [OF dg] by (simp add: t format_fields_def)
  have len: "length (nat_text y) = 4" "length (padded 2 mo) = 2" "length (padded 2 d) = 2" "length (padded 2 h) = 2"
    "length (padded 2 mi) = 2" "length (padded 2 s) = 2" "length (padded 6 (nat us)) = 6"
    using dg by (simp_all add: digit_text_def)
  have at: "take 4 (format_fields t) = nat_text y" "take 2 (drop 5 (format_fields t)) = padded 2 mo"
    "take 2 (drop 8 (format_fields t)) = padded 2 d" "take 2 (drop 11 (format_fields t)) = padded 2 h"
    "take 2 (drop 14 (format_fields t)) = padded 2 mi" "take 2 (drop 17 (format_fields t)) = padded 2 s"
    "drop 20 (format_fields t) = padded 6 (nat us) @ ''Z''"
    by (simp_all add: t format_fields_def len)
  show "iso_datetime_ok (format_fields t)"
    using r unfolding iso_datetime_ok_def Let_def at nat_of_padded nat_of_nat_text by simp
  have "takeWhile c_digit (padded 6 (nat us) @ ''Z'') = padded 6 (nat us)"
    using dg(7) by (simp add: digit_text_def list_all_iff c_digit_def in_range_def code_def)
  then show "parse_utc (format_fields t) = t"
    using r unfolding parse_utc_def Let_def at nat_of_padded nat_of_nat_text by (simp add: len t nat_of_padded del: nat_of_digits.simps)
qed

section \<open>Pages\<close>

definition driver_ok :: "(int \<Rightarrow> bool \<times> utc_datetime) \<Rightarrow> (utc_datetime \<Rightarrow> int) \<Rightarrow> control_db \<Rightarrow> bool" where
  \<comment> \<open>the driver returns aware datetimes with four-digit years and stores a datetime it returned as it was\<close>
  "driver_ok load adapt db =
     list_all (\<lambda>(k, j). case load (j_submitted_at j) of (aware, t) \<Rightarrow>
       aware \<and> valid_fields t \<and> adapt t = j_submitted_at j) (jobs db)"

definition ids_ok :: "control_db \<Rightarrow> bool" where
  "ids_ok db = list_all (\<lambda>(k, j). fullmatch re_JOB_ID (j_job_id j)) (jobs db)"

definition shown :: "(int \<Rightarrow> bool \<times> utc_datetime) \<Rightarrow> job_row \<Rightarrow> JobListItem" where
  "shown load j = \<lparr>li_job_id = j_job_id j, li_graph_id = j_graph_id j, li_state = state_name (j_state j),
     li_submitted_at = format_fields (snd (load (j_submitted_at j)))\<rparr>"

definition boundary_of :: "(int \<Rightarrow> bool \<times> utc_datetime) \<Rightarrow> job_row \<Rightarrow> JobListCursor" where
  "boundary_of load j = \<lparr>jc_submitted_at = format_fields (snd (load (j_submitted_at j))), jc_job_id = j_job_id j\<rparr>"

lemma row_ok:
  assumes "driver_ok load adapt db" and "ids_ok db" and "j \<in> snd ` set (jobs db)"
  shows "list_item load j = Inr (shown load j)" and "validate_cursor (boundary_of load j) = Inr ()"
    and "adapt (parse_utc (jc_submitted_at (boundary_of load j))) = j_submitted_at j"
proof -
  obtain aware t where l: "load (j_submitted_at j) = (aware, t)" by (cases "load (j_submitted_at j)")
  have a: "aware" "valid_fields t" "adapt t = j_submitted_at j" "fullmatch re_JOB_ID (j_job_id j)"
    using assms l by (auto simp: driver_ok_def ids_ok_def list_all_iff)
  show "list_item load j = Inr (shown load j)" using a by (simp add: list_item_def shown_def format_utc_timestamp_def l)
  show "validate_cursor (boundary_of load j) = Inr ()" using a format_ok [OF a(2)] by (simp add: validate_cursor_def boundary_of_def l)
  show "adapt (parse_utc (jc_submitted_at (boundary_of load j))) = j_submitted_at j"
    using a(3) format_ok(3) [OF a(2)] by (simp add: boundary_of_def l)
qed

lemma list_items_ok:
  "(\<And>j. j \<in> set js \<Longrightarrow> list_item load j = Inr (shown load j)) \<Longrightarrow> list_items load js = Inr (map (shown load) js)"
  by (induction js) simp_all

lemma recent_rows_filter: "recent_rows (\<lambda>j. p j \<and> q j) db = filter q (recent_rows p db)"
  by (simp add: recent_rows_def select_by_def rev_filter [symmetric] filter_sort conj_commute)

lemma recent_rows_sorted:
  assumes "distinct (map j_job_id (map snd (jobs db)))"
  shows "sorted_wrt (\<lambda>a b. recency b < recency a) (recent_rows p db)"
proof -
  let ?xs = "select_by recency p (jobs db)"
  have "distinct (map j_job_id (filter p (map snd (jobs db))))" using assms by (rule distinct_map_filter)
  then have "distinct (map j_job_id ?xs)" by (simp add: select_by_def distinct_map inj_on_def)
  then have "distinct (map recency ?xs)" by (auto simp: distinct_map inj_on_def recency_def)
  with sorted_select_by [of recency p "jobs db"] have "sorted_wrt (<) (map recency ?xs)"
    by (simp add: strict_sorted_iff)
  then show ?thesis by (simp add: recent_rows_def sorted_wrt_map sorted_wrt_rev)
qed

lemma after_boundary:
  assumes "sorted_wrt (\<lambda>a b. recency b < recency a) (pre @ x # post)"
  shows "filter (\<lambda>j. recency j < recency x) (pre @ x # post) = post"
proof -
  have "filter (\<lambda>j. recency j < recency x) pre = []" using assms by (fastforce simp: sorted_wrt_append filter_empty_conv)
  moreover have "filter (\<lambda>j. recency j < recency x) post = post"
    using assms by (simp add: sorted_wrt_append filter_id_conv)
  ultimately show ?thesis by simp
qed

definition graph_option :: "string option \<Rightarrow> pyval" where
  "graph_option g = (case g of None \<Rightarrow> VNone | Some s \<Rightarrow> VStr s)"

lemma one_page:
  assumes ok: "driver_ok load adapt db" "ids_ok db" and n: "1 \<le> n" "n \<le> 32"
    and g: "list_graph_id (graph_option g) = Inr g" and c: "list_cursor cursor = Inr b"
    and rows: "recent_rows (in_page adapt g b) db = post"
  shows "list_recent_jobs load adapt (VInt (int n)) (graph_option g) cursor db =
    Inr \<lparr>lp_jobs = map (shown load) (take n post),
      lp_next_cursor = (if n < length post then Some (b64_text (cursor_bytes (boundary_of load (last (take n post))))) else None)\<rparr>"
proof -
  have sub: "set post \<subseteq> snd ` set (jobs db)" using rows by (auto simp: recent_rows_def)
  have items: "list_items load (take n post) = Inr (map (shown load) (take n post))"
  proof (rule list_items_ok)
    fix j assume "j \<in> set (take n post)"
    then have "j \<in> snd ` set (jobs db)" using sub set_take_subset [of n post] by (meson subsetD)
    then show "list_item load j = Inr (shown load j)" by (rule row_ok(1) [OF ok])
  qed
  show ?thesis
  proof (cases "n < length post")
    case True
    then have ne: "take n post \<noteq> []" using n by auto
    then have "last (take n post) \<in> snd ` set (jobs db)" using sub by (meson in_set_takeD last_in_set subsetD)
    from encode_cursor(1) [OF row_ok(2) [OF ok this]] True ne n items g c rows show ?thesis
      by (simp add: list_recent_jobs_def validate_job_list_options_def last_map shown_def boundary_of_def min_def)
  next
    case False
    then show ?thesis using n items g c rows
      by (simp add: list_recent_jobs_def validate_job_list_options_def)
  qed
qed

fun follow :: "nat \<Rightarrow> (pyval \<Rightarrow> JobListPage result) \<Rightarrow> pyval \<Rightarrow> JobListItem list option" where
  \<comment> \<open>a client that requests pages until there is no further cursor\<close>
  "follow 0 page cursor = None"
| "follow (Suc n) page cursor =
     (case page cursor of
        Inl e \<Rightarrow> None
      | Inr p \<Rightarrow> (case lp_next_cursor p of
          None \<Rightarrow> Some (lp_jobs p)
        | Some c \<Rightarrow> map_option (\<lambda>r. lp_jobs p @ r) (follow n page (VStr c))))"

lemma follow_rest:
  assumes ok: "driver_ok load adapt db" "ids_ok db" and n: "1 \<le> n" "n \<le> 32"
    and g: "list_graph_id (graph_option g) = Inr g"
    and sorted: "sorted_wrt (\<lambda>a b. recency b < recency a) (recent_rows (in_page adapt g None) db)"
    and c: "list_cursor cursor = Inr b" and rows: "recent_rows (in_page adapt g b) db = post"
    and split: "recent_rows (in_page adapt g None) db = pre @ post" and fuel: "length post < fuel"
  shows "follow fuel (\<lambda>c. list_recent_jobs load adapt (VInt (int n)) (graph_option g) c db) cursor
    = Some (map (shown load) post)"
  using c rows split fuel
proof (induction fuel arbitrary: cursor b pre post)
  case (Suc m)
  note page = one_page [OF ok n g Suc.prems(1,2)]
  show ?case
  proof (cases "n < length post")
    case True
    define x where "x = last (take n post)"
    have ne: "take n post \<noteq> []" using True n by auto
    have all: "recent_rows (in_page adapt g None) db = (pre @ butlast (take n post)) @ x # drop n post"
      using Suc.prems(3) ne append_take_drop_id [of n post] append_butlast_last_id [OF ne] unfolding x_def
      by (metis append.assoc append_Cons append_Nil)
    have "x \<in> set (recent_rows (in_page adapt g None) db)" unfolding all by simp
    then have x: "x \<in> snd ` set (jobs db)" by (auto simp: recent_rows_def)
    note v = row_ok(2) [OF ok x] and t = row_ok(3) [OF ok x]
    let ?c = "b64_text (cursor_bytes (boundary_of load x))"
    have "decode_job_cursor (VStr ?c) = Inr (boundary_of load x)"
      using encode_cursor [OF v] v by (simp add: decode_job_cursor_def)
    then have cur: "list_cursor (VStr ?c) = Inr (Some (boundary_of load x))" by (simp add: list_cursor_def)
    have "recent_rows (in_page adapt g (Some (boundary_of load x))) db
        = recent_rows (\<lambda>j. in_page adapt g None j \<and> recency j < recency x) db"
      using t by (intro arg_cong [where f = "\<lambda>p. recent_rows p db"] ext)
        (simp add: in_page_def recency_def [of x] boundary_of_def)
    also have "\<dots> = drop n post"
      unfolding recent_rows_filter all by (rule after_boundary) (use sorted all in simp)
    finally have rest: "recent_rows (in_page adapt g (Some (boundary_of load x))) db = drop n post" .
    have "length (drop n post) < m" using Suc.prems(4) True n by simp
    from Suc.IH [OF cur rest _ this, of "pre @ take n post"] Suc.prems(3)
    have "follow m (\<lambda>c. list_recent_jobs load adapt (VInt (int n)) (graph_option g) c db) (VStr ?c)
        = Some (map (shown load) (drop n post))" by simp
    then show ?thesis using True by (simp add: page x_def [symmetric] flip: map_append)
  next
    case False
    then show ?thesis by (simp add: page)
  qed
qed simp

text \<open>
  Claim C34 (listing is complete): on a reachable database whose job ids are of the public form, with a driver
  that keeps timestamps, a client that asks for pages of any allowed size and follows the cursors gets every
  job of the graph it asked for (or every job) exactly once, newest first, after at most one more request
  than there are jobs.
\<close>

theorem pages_enumerate:
  assumes "reachable limits sha256 (db, C)" and "0 \<le> max_retry_attempts limits"
    and "driver_ok load adapt db" and "ids_ok db" and "1 \<le> n" and "n \<le> 32"
    and "list_graph_id (graph_option g) = Inr g"
  shows "\<exists>rows. follow (length (jobs db) + 1)
        (\<lambda>c. list_recent_jobs load adapt (VInt (int n)) (graph_option g) c db) VNone = Some (map (shown load) rows)
    \<and> set rows = {j \<in> snd ` set (jobs db). g = None \<or> g = Some (j_graph_id j)}
    \<and> distinct (map j_job_id rows) \<and> sorted_wrt (\<lambda>a b. recency b < recency a) rows"
proof -
  let ?rows = "recent_rows (in_page adapt g None) db"
  have inv: "store_inv (max_retry_attempts limits) db"
    using reachable_system_inv [OF assms(1,2)] by (simp add: system_inv_def)
  then have t: "table_ok (jobs db)" and k: "\<And>k j. map_of (jobs db) k = Some j \<Longrightarrow> j_job_id j = k"
    by (auto simp: store_inv_def tables_ok_def inv_maps_def keys_ok_def)
  have "map j_job_id (map snd (jobs db)) = map fst (jobs db)"
    using k table_row_iff [OF t] by auto
  then have d: "distinct (map j_job_id (map snd (jobs db)))" using t by (simp only: table_ok_def)
  note sorted = recent_rows_sorted [OF d]
  have "length ?rows \<le> length (jobs db)" by (simp add: recent_rows_def select_by_def le_trans [OF length_filter_le])
  then have "follow (length (jobs db) + 1)
      (\<lambda>c. list_recent_jobs load adapt (VInt (int n)) (graph_option g) c db) VNone = Some (map (shown load) ?rows)"
    using sorted by (intro follow_rest [OF assms(3-7), where b = None and pre = "[]"]) (simp_all add: list_cursor_def)
  moreover have "set ?rows = {j \<in> snd ` set (jobs db). g = None \<or> g = Some (j_graph_id j)}"
    by (cases g) (auto simp: recent_rows_def in_page_def)
  moreover have "distinct (map j_job_id ?rows)"
  proof -
    have "distinct (map j_job_id (filter (in_page adapt g None) (map snd (jobs db))))" using d by (rule distinct_map_filter)
    then show ?thesis by (simp add: recent_rows_def select_by_def distinct_map inj_on_def)
  qed
  ultimately show ?thesis using sorted by blast
qed

definition demo_load :: "int \<Rightarrow> bool \<times> utc_datetime" where
  "demo_load t = (True, (2026, 1, 1, 0, 0, 0, t))"

definition demo_adapt :: "utc_datetime \<Rightarrow> int" where
  "demo_adapt t = (case t of (_, _, _, _, _, _, us) \<Rightarrow> us)"

theorem pages_enumerate_witness:
  "\<exists>rows. follow (length (jobs demo_queued) + 1)
       (\<lambda>c. list_recent_jobs demo_load demo_adapt (VInt (int 1)) (graph_option None) c demo_queued) VNone
       = Some (map (shown demo_load) rows)
     \<and> distinct (map j_job_id rows)"
proof -
  have ok: "driver_ok demo_load demo_adapt demo_queued" "ids_ok demo_queued" by code_simp+
  have g: "list_graph_id (graph_option None) = Inr None" by (simp add: list_graph_id_def graph_option_def)
  have n: "(1::nat) \<le> 1" "(1::nat) \<le> 32" by simp_all
  show ?thesis
    using pages_enumerate [OF demo_queued_reachable demo_limits ok n g] by blast
qed

end
