(* ===== verification/Digest_Encoding.thy ===== *)
theory Digest_Encoding
  imports Json_Roundtrip
begin

text \<open>
  The canonical encoding of digest rows (\<^verbatim>\<open>storage/structural_digest_encoding.py\<close>): the parts that Python's
  \<^verbatim>\<open>JSONEncoder.iterencode\<close> yields one after the other, cut into chunks of bounded length. The parts matter
  because the program asks between chunks whether it is cancelled.

  A field of a row is a value the encoder accepts, or one on which it raises after having yielded some
  parts (an object of another type, an integer of more than 4300 digits). \<^verbatim>\<open>NaN\<close> and \<^verbatim>\<open>Infinity\<close> are not
  represented, nor is Python's recursion limit.
\<close>

section \<open>Parts\<close>

fun is_atom :: "jval \<Rightarrow> bool" where
  "is_atom (NArr _) = False"
| "is_atom (NObj _) = False"
| "is_atom _ = True"

fun parts :: "jval \<Rightarrow> utext list" and list_parts :: "utext \<Rightarrow> jval list \<Rightarrow> utext list"
  and member_parts :: "utext list \<Rightarrow> (utext \<times> jval) list \<Rightarrow> utext list" where
  "parts (NArr xs) = (if xs = [] then [[91, 93]] else list_parts [91] xs)"
| "parts (NObj kvs) = (if kvs = [] then [[123, 125]] else [123] # member_parts [] kvs)"
| "parts v = [dumps v]"
| "list_parts buf [] = [[93]]"
| "list_parts buf (x # xs) = (if is_atom x then [buf @ dumps x] else buf # parts x) @ list_parts [44] xs"
| "member_parts sep [] = [[125]]"
| "member_parts sep ((k, x) # kvs) = sep @ [quoted k, [58]] @ parts x @ member_parts [[44]] kvs"

lemma concat_parts:
  "concat (parts v) = dumps v"
  "concat (list_parts buf xs) = (if xs = [] then [93] else buf @ dumps_items xs @ [93])"
  "concat (member_parts sep kvs) = (if kvs = [] then [125] else concat sep @ dumps_members kvs @ [125])"
  by (induction v and buf xs and sep kvs rule: parts_list_parts_member_parts.induct) (auto split: if_splits)

definition item_parts :: "utext \<Rightarrow> jval \<Rightarrow> utext list" where
  "item_parts buf x = (if is_atom x then [buf @ dumps x] else buf # parts x)"

lemma concat_item_parts: "concat (item_parts buf x) = buf @ dumps x"
  by (simp add: item_parts_def concat_parts)

datatype field = Value jval | Unencodable "utext list"

fun fields_parts :: "utext \<Rightarrow> field list \<Rightarrow> utext list \<times> bool" where
  \<comment> \<open>the parts of the rest of a row, and whether the encoder gets to its end\<close>
  "fields_parts buf [] = ([[93]], True)"
| "fields_parts buf (Value v # fs) =
     (case fields_parts [44] fs of (ps, whole) \<Rightarrow> (item_parts buf (canonical v) @ ps, whole))"
| "fields_parts buf (Unencodable ps # fs) = (ps, False)"

definition row_parts :: "field list \<Rightarrow> utext list \<times> bool" where
  "row_parts fs = (if fs = [] then ([[91, 93]], True) else fields_parts [91] fs)"

lemma fields_parts_values:
  "concat (fst (fields_parts buf (map Value vs))) = (if vs = [] then [93] else buf @ dumps_items (map canonical vs) @ [93])
   \<and> snd (fields_parts buf (map Value vs))"
  by (induction vs arbitrary: buf) (simp_all add: concat_item_parts split_beta)

lemma row_parts_values:
  "concat (fst (row_parts (map Value vs))) = dumps (canonical (NArr vs))" "snd (row_parts (map Value vs))"
  using fields_parts_values [of "[91]" vs] by (auto simp: row_parts_def)

section \<open>Chunks\<close>

definition ENCODE_TEXT_CHUNK_CHARACTERS :: nat where
  "ENCODE_TEXT_CHUNK_CHARACTERS = 16384"

function iter_text_chunks :: "utext \<Rightarrow> utext list" where
  "iter_text_chunks t =
     (if t = [] then []
      else take ENCODE_TEXT_CHUNK_CHARACTERS t # iter_text_chunks (drop ENCODE_TEXT_CHUNK_CHARACTERS t))"
  by pat_completeness auto
termination by (relation "measure length") (auto simp: ENCODE_TEXT_CHUNK_CHARACTERS_def)

declare iter_text_chunks.simps [simp del]

lemma concat_chunks [simp]: "concat (iter_text_chunks t) = t"
  by (induction t rule: iter_text_chunks.induct) (subst iter_text_chunks.simps, simp)

lemma chunk_length: "c \<in> set (iter_text_chunks t) \<Longrightarrow> length c \<le> ENCODE_TEXT_CHUNK_CHARACTERS"
proof (induction t rule: iter_text_chunks.induct)
  case (1 t)
  then have "t \<noteq> []" by (auto simp: iter_text_chunks.simps)
  with 1 have "c = take ENCODE_TEXT_CHUNK_CHARACTERS t \<or> c \<in> set (iter_text_chunks (drop ENCODE_TEXT_CHUNK_CHARACTERS t))"
    by (simp add: iter_text_chunks.simps [of t])
  with 1(1) \<open>t \<noteq> []\<close> show ?case by auto
qed

lemma concat_part_chunks: "concat (concat (map iter_text_chunks ps)) = concat ps"
  by (induction ps) simp_all

end
