(* ===== verification/Heapq.thy ===== *)
theory Heapq
  imports Main "HOL-Library.Multiset"
begin

text \<open>
  Python's \<^verbatim>\<open>heapq\<close> on a list, with the comparisons it makes: a comparison may raise (\<open>None\<close>), and then the
  operation raises. The interface \<open>merge_queue\<close> states what a client that merges ordered runs needs.
\<close>

section \<open>Operations\<close>

function siftdown :: "('a \<Rightarrow> 'a \<Rightarrow> bool option) \<Rightarrow> 'a list \<Rightarrow> nat \<Rightarrow> 'a list option" where
  \<comment> \<open>\<^verbatim>\<open>_siftdown(heap, 0, pos)\<close>\<close>
  "siftdown lt h pos =
     (if pos = 0 then Some h
      else let p = (pos - 1) div 2
      in case lt (h ! pos) (h ! p) of
           None \<Rightarrow> None
         | Some lower \<Rightarrow> if lower then siftdown lt (h[pos := h ! p, p := h ! pos]) p else Some h)"
  by pat_completeness auto
termination by (relation "measure (\<lambda>(_, _, pos). pos)") auto

declare siftdown.simps [simp del]

definition smaller_child :: "('a \<Rightarrow> 'a \<Rightarrow> bool option) \<Rightarrow> 'a list \<Rightarrow> nat \<Rightarrow> nat option" where
  "smaller_child lt h c =
     (if c + 1 < length h then map_option (\<lambda>lower. if lower then c else c + 1) (lt (h ! c) (h ! (c + 1))) else Some c)"

function siftup :: "('a \<Rightarrow> 'a \<Rightarrow> bool option) \<Rightarrow> 'a list \<Rightarrow> nat \<Rightarrow> 'a list option" where
  \<comment> \<open>\<^verbatim>\<open>_siftup(heap, pos)\<close>: the smaller children move up to a leaf, then the item moves down to its place\<close>
  "siftup lt h pos =
     (if 2 * pos + 1 < length h
      then (case smaller_child lt h (2 * pos + 1) of
              None \<Rightarrow> None
            | Some c \<Rightarrow> siftup lt (h[pos := h ! c, c := h ! pos]) c)
      else siftdown lt h pos)"
  by pat_completeness auto
termination
  by (relation "measure (\<lambda>(_, h, pos). length h - pos)") (auto simp: smaller_child_def split: if_splits)

declare siftup.simps [simp del]

definition heappush :: "('a \<Rightarrow> 'a \<Rightarrow> bool option) \<Rightarrow> 'a list \<Rightarrow> 'a \<Rightarrow> 'a list option" where
  "heappush lt h x = siftdown lt (h @ [x]) (length h)"

definition heappop :: "('a \<Rightarrow> 'a \<Rightarrow> bool option) \<Rightarrow> 'a list \<Rightarrow> ('a \<times> 'a list) option" where
  \<comment> \<open>the list is not empty\<close>
  "heappop lt h =
     (if length h = 1 then Some (hd h, [])
      else map_option (\<lambda>h'. (hd h, h')) (siftup lt ((butlast h)[0 := last h]) 0))"

section \<open>Contents\<close>

lemma swap_mset: "i < length h \<Longrightarrow> j < length h \<Longrightarrow> mset (h[i := h ! j, j := h ! i]) = mset h"
  by (cases "i = j") (simp_all add: mset_swap)

lemma siftdown_mset: "siftdown lt h pos = Some h' \<Longrightarrow> pos < length h \<Longrightarrow> mset h' = mset h"
proof (induction lt h pos rule: siftdown.induct)
  case (1 lt h pos)
  show ?case
  proof (cases "pos = 0")
    case False
    then obtain lower where l: "lt (h ! pos) (h ! ((pos - 1) div 2)) = Some lower"
      using 1(2) by (subst (asm) siftdown.simps) (auto simp: Let_def split: option.splits)
    show ?thesis
    proof (cases lower)
      case True
      with l False 1 have "mset h' = mset (h[pos := h ! ((pos - 1) div 2), (pos - 1) div 2 := h ! pos])"
        by (subst (asm) (2) siftdown.simps) (auto simp: Let_def)
      with 1(3) show ?thesis using swap_mset [of pos h "(pos - 1) div 2"] by simp
    qed (use 1 False l in \<open>subst (asm) (2) siftdown.simps, simp add: Let_def\<close>)
  qed (use 1 in \<open>subst (asm) (2) siftdown.simps, simp\<close>)
qed

lemma siftup_mset: "siftup lt h pos = Some h' \<Longrightarrow> pos < length h \<Longrightarrow> mset h' = mset h"
proof (induction lt h pos rule: siftup.induct)
  case (1 lt h pos)
  show ?case
  proof (cases "2 * pos + 1 < length h")
    case True
    then obtain c where c: "smaller_child lt h (2 * pos + 1) = Some c"
      using 1(2) by (subst (asm) siftup.simps) (auto split: option.splits)
    then have l: "c < length h" using True by (auto simp: smaller_child_def split: if_splits)
    have "siftup lt (h[pos := h ! c, c := h ! pos]) c = Some h'"
      using 1(2) True c by (subst (asm) siftup.simps) simp
    with 1(1) [OF True c] l have "mset h' = mset (h[pos := h ! c, c := h ! pos])" by simp
    with swap_mset [OF 1(3) l] show ?thesis by simp
  qed (use 1 siftdown_mset in \<open>subst (asm) (2) siftup.simps, auto\<close>)
qed

lemma heappush_mset: "heappush lt h x = Some h' \<Longrightarrow> mset h' = add_mset x (mset h)"
  using siftdown_mset [of lt "h @ [x]" "length h" h'] by (simp add: heappush_def)

lemma heappop_mset: "heappop lt h = Some (x, h') \<Longrightarrow> h \<noteq> [] \<Longrightarrow> mset h = add_mset x (mset h') \<and> x = hd h"
proof -
  assume a: "heappop lt h = Some (x, h')" "h \<noteq> []"
  show ?thesis
  proof (cases "length h = 1")
    case True
    with a show ?thesis by (cases h) (auto simp: heappop_def)
  next
    case False
    then obtain y ys z where h: "h = y # ys @ [z]"
      using a(2) by (cases h rule: rev_cases; cases "butlast h") (auto simp: butlast_append)
    have b: "(butlast h)[0 := last h] = z # ys" by (simp add: h butlast_append)
    from a(1) False have "siftup lt (z # ys) 0 = Some h'" "x = y" by (auto simp: heappop_def h butlast_append)
    with siftup_mset [of lt "z # ys" 0 h'] show ?thesis by (simp add: h)
  qed
qed

lemma heappush_length: "heappush lt h x = Some h' \<Longrightarrow> length h' = Suc (length h)"
  using heappush_mset [THEN arg_cong [of _ _ size]] by force

lemma heappop_length: "heappop lt h = Some (x, h') \<Longrightarrow> h \<noteq> [] \<Longrightarrow> length h = Suc (length h')"
  using heappop_mset [THEN conjunct1, THEN arg_cong [of _ _ size]] by force

section \<open>Order\<close>

definition ordered_at :: "'a::linorder list \<Rightarrow> nat \<Rightarrow> bool" where
  "ordered_at h i = (h ! ((i - 1) div 2) \<le> h ! i)"

definition is_heap :: "'a::linorder list \<Rightarrow> bool" where
  "is_heap h = (\<forall>i < length h. 0 < i \<longrightarrow> ordered_at h i)"

definition decides :: "('a::linorder \<Rightarrow> 'a \<Rightarrow> bool option) \<Rightarrow> 'a set \<Rightarrow> bool" where
  \<comment> \<open>no comparison of two elements raises\<close>
  "decides lt A = (\<forall>x \<in> A. \<forall>y \<in> A. lt x y = Some (x < y))"

definition heap_but :: "'a::linorder list \<Rightarrow> nat \<Rightarrow> bool" where
  \<comment> \<open>the item at \<open>pos\<close> may be too small for its place\<close>
  "heap_but h pos = ((\<forall>i < length h. 0 < i \<longrightarrow> i \<noteq> pos \<longrightarrow> ordered_at h i)
     \<and> (\<forall>i < length h. 0 < pos \<longrightarrow> 0 < i \<longrightarrow> (i - 1) div 2 = pos \<longrightarrow> h ! ((pos - 1) div 2) \<le> h ! i))"

lemma decidesD: "decides lt (set h) \<Longrightarrow> i < length h \<Longrightarrow> j < length h \<Longrightarrow> lt (h ! i) (h ! j) = Some (h ! i < h ! j)"
  by (simp add: decides_def)

lemma parent_less: "0 < i \<Longrightarrow> (i - 1) div 2 < (i::nat)"
  by simp

lemma swap_nth:
  assumes "i < length h" "j < length h" "k < length h"
  shows "h[i := h ! j, j := h ! i] ! k = (if k = j then h ! i else if k = i then h ! j else h ! k)"
  using assms by (auto simp: nth_list_update)

lemma set_swap: "i < length h \<Longrightarrow> j < length h \<Longrightarrow> set (h[i := h ! j, j := h ! i]) = set h"
  using swap_mset [of i h j] by (metis mset_eq_setD)

lemma swap_up_heap_but:
  assumes h: "heap_but h pos" and pos: "pos < length h" "0 < pos" and small: "h ! pos < h ! ((pos - 1) div 2)"
  shows "heap_but (h[pos := h ! ((pos - 1) div 2), (pos - 1) div 2 := h ! pos]) ((pos - 1) div 2)"
proof -
  let ?p = "(pos - 1) div 2"
  let ?g = "h[pos := h ! ?p, ?p := h ! pos]"
  have p: "?p < pos" "?p < length h" using pos by auto
  have nth: "?g ! k = (if k = ?p then h ! pos else if k = pos then h ! ?p else h ! k)" if "k < length h" for k
    using swap_nth [OF pos(1) p(2) that] by simp
  have up: "h ! ((i - 1) div 2) \<le> h ! i" if "i < length h" "0 < i" "i \<noteq> pos" for i
    using h that by (auto simp: heap_but_def ordered_at_def)
  have kids: "h ! ?p \<le> h ! i" if "i < length h" "0 < i" "(i - 1) div 2 = pos" for i
    using h that pos by (auto simp: heap_but_def)
  have "ordered_at ?g i" if i: "i < length h" "0 < i" "i \<noteq> ?p" for i
  proof -
    have q: "(i - 1) div 2 < length h" using i by simp
    consider "i = pos" | "i \<noteq> pos" "(i - 1) div 2 = pos" | "i \<noteq> pos" "(i - 1) div 2 = ?p" | "i \<noteq> pos" "(i - 1) div 2 \<noteq> ?p" "(i - 1) div 2 \<noteq> pos"
      by blast
    then show ?thesis
    proof cases
      case 1 then show ?thesis using small p pos nth [of pos] nth [of ?p] by (simp add: ordered_at_def)
    next
      case 2 then show ?thesis using kids [OF i(1,2)] i nth [OF i(1)] nth [OF q] p by (simp add: ordered_at_def)
    next
      case 3
      then have "h ! pos \<le> h ! i" using up [OF i(1,2)] small by simp
      with 3 show ?thesis using i nth [OF i(1)] nth [OF q] by (simp add: ordered_at_def)
    next
      case 4 then show ?thesis using up [OF i(1,2)] i nth [OF i(1)] nth [OF q] by (simp add: ordered_at_def)
    qed
  qed
  moreover have "?g ! ((?p - 1) div 2) \<le> ?g ! i" if i: "i < length h" "0 < ?p" "0 < i" "(i - 1) div 2 = ?p" for i
  proof -
    have q: "(?p - 1) div 2 < ?p" "(?p - 1) div 2 < length h" using parent_less [OF i(2)] p by linarith+
    have "h ! ((?p - 1) div 2) \<le> h ! ?p" using up [of ?p] i(2) p by simp
    moreover have "h ! ?p \<le> h ! i" if "i \<noteq> pos" using up [OF i(1,3) that] i(4) by simp
    moreover have "i \<noteq> ?p" using i by auto
    ultimately show ?thesis using nth [OF i(1)] nth [OF q(2)] q p by auto
  qed
  ultimately show ?thesis by (simp add: heap_but_def)
qed

lemma siftdown_heap:
  "heap_but h pos \<Longrightarrow> pos < length h \<Longrightarrow> decides lt (set h) \<Longrightarrow> \<exists>h'. siftdown lt h pos = Some h' \<and> is_heap h'"
proof (induction lt h pos rule: siftdown.induct)
  case (1 lt h pos)
  let ?p = "(pos - 1) div 2"
  show ?case
  proof (cases "pos = 0")
    case True
    then show ?thesis using 1(2) by (subst siftdown.simps) (simp add: heap_but_def is_heap_def)
  next
    case False
    then have p: "?p < pos" "?p < length h" using 1(3) by auto
    have l: "lt (h ! pos) (h ! ?p) = Some (h ! pos < h ! ?p)" using decidesD [OF 1(4,3) p(2)] .
    show ?thesis
    proof (cases "h ! pos < h ! ?p")
      case True
      then show ?thesis
        using False l 1(1) [OF False refl l] swap_up_heap_but [OF 1(2,3)] set_swap [OF 1(3) p(2)] 1(4) p
        by (subst siftdown.simps) (simp add: Let_def)
    next
      case False': False
      then have "is_heap h" using 1(2) by (auto simp: heap_but_def is_heap_def ordered_at_def)
      then show ?thesis using False False' l by (subst siftdown.simps) (simp add: Let_def)
    qed
  qed
qed

definition heap_hole :: "'a::linorder list \<Rightarrow> nat \<Rightarrow> bool" where
  \<comment> \<open>the item at \<open>pos\<close> may be anything\<close>
  "heap_hole h pos = ((\<forall>i < length h. 0 < i \<longrightarrow> i \<noteq> pos \<longrightarrow> (i - 1) div 2 \<noteq> pos \<longrightarrow> ordered_at h i)
     \<and> (\<forall>i < length h. 0 < pos \<longrightarrow> 0 < i \<longrightarrow> (i - 1) div 2 = pos \<longrightarrow> h ! ((pos - 1) div 2) \<le> h ! i))"

lemma smaller_child_least:
  assumes "decides lt (set h)" and "2 * pos + 1 < length h"
  shows "\<exists>c. smaller_child lt h (2 * pos + 1) = Some c \<and> c < length h \<and> 0 < c \<and> (c - 1) div 2 = pos
    \<and> (\<forall>i < length h. 0 < i \<longrightarrow> (i - 1) div 2 = pos \<longrightarrow> h ! c \<le> h ! i)"
proof -
  have kids: "i = 2 * pos + 1 \<or> i = 2 * pos + 2" if "0 < i" "(i - 1) div 2 = pos" for i
    using that by linarith
  show ?thesis
  proof (cases "2 * pos + 2 < length h")
    case True
    then have "lt (h ! (2 * pos + 1)) (h ! (2 * pos + 2)) = Some (h ! (2 * pos + 1) < h ! (2 * pos + 2))"
      using decidesD [OF assms(1), of "2 * pos + 1" "2 * pos + 2"] by simp
    then show ?thesis using True assms(2) kids by (fastforce simp: smaller_child_def)
  next
    case False
    then show ?thesis using assms(2) kids by (fastforce simp: smaller_child_def)
  qed
qed

lemma swap_down_heap_hole:
  assumes h: "heap_hole h pos" and c: "c < length h" "0 < c" "(c - 1) div 2 = pos"
    and least: "\<And>i. i < length h \<Longrightarrow> 0 < i \<Longrightarrow> (i - 1) div 2 = pos \<Longrightarrow> h ! c \<le> h ! i"
  shows "heap_hole (h[pos := h ! c, c := h ! pos]) c"
proof -
  let ?g = "h[pos := h ! c, c := h ! pos]"
  have p: "pos < c" "pos < length h" using c by auto
  have nth: "?g ! k = (if k = c then h ! pos else if k = pos then h ! c else h ! k)" if "k < length h" for k
    using swap_nth [OF p(2) c(1) that] by simp
  have up: "h ! ((i - 1) div 2) \<le> h ! i" if "i < length h" "0 < i" "i \<noteq> pos" "(i - 1) div 2 \<noteq> pos" for i
    using h that by (auto simp: heap_hole_def ordered_at_def)
  have "ordered_at ?g i" if i: "i < length h" "0 < i" "i \<noteq> c" "(i - 1) div 2 \<noteq> c" for i
  proof -
    have q: "(i - 1) div 2 < length h" "(i - 1) div 2 < i" using i by auto
    consider "i = pos" | "i \<noteq> pos" "(i - 1) div 2 = pos" | "i \<noteq> pos" "(i - 1) div 2 \<noteq> pos" by blast
    then show ?thesis
    proof cases
      case 1
      then have "h ! ((pos - 1) div 2) \<le> h ! c"
        using h [unfolded heap_hole_def, THEN conjunct2, rule_format, of c] c i(2) by simp
      moreover have "?g ! i = h ! c" using nth [OF i(1)] i(3) 1 by simp
      moreover have "?g ! ((i - 1) div 2) = h ! ((pos - 1) div 2)"
        using nth [OF q(1)] i(4) q(2) unfolding 1 by (simp del: One_nat_def)
      ultimately show ?thesis unfolding ordered_at_def by simp
    next
      case 2 then show ?thesis using least [OF i(1,2)] i nth [OF i(1)] nth [OF q(1)] q by (simp add: ordered_at_def)
    next
      case 3 then show ?thesis using up [OF i(1,2)] i nth [OF i(1)] nth [OF q(1)] by (simp add: ordered_at_def)
    qed
  qed
  moreover have "?g ! ((c - 1) div 2) \<le> ?g ! i" if i: "i < length h" "0 < i" "(i - 1) div 2 = c" for i
  proof -
    have "h ! c \<le> h ! i" using up [OF i(1,2)] i c p by auto
    moreover have "i \<noteq> c" "i \<noteq> pos" using i p by auto
    ultimately show ?thesis using nth [OF i(1)] nth [OF p(2)] p c(3) by simp
  qed
  ultimately show ?thesis unfolding heap_hole_def length_list_update by blast
qed

lemma siftup_heap:
  "heap_hole h pos \<Longrightarrow> pos < length h \<Longrightarrow> decides lt (set h) \<Longrightarrow> \<exists>h'. siftup lt h pos = Some h' \<and> is_heap h'"
proof (induction lt h pos rule: siftup.induct)
  case (1 lt h pos)
  show ?case
  proof (cases "2 * pos + 1 < length h")
    case True
    from smaller_child_least [OF 1(4) True] obtain c where c: "smaller_child lt h (2 * pos + 1) = Some c" "c < length h"
      "0 < c" "(c - 1) div 2 = pos" "\<And>i. i < length h \<Longrightarrow> 0 < i \<Longrightarrow> (i - 1) div 2 = pos \<Longrightarrow> h ! c \<le> h ! i" by blast
    have "heap_hole (h[pos := h ! c, c := h ! pos]) c" using 1(2) c by (intro swap_down_heap_hole) auto
    then show ?thesis using 1(1) [OF True c(1)] 1(3,4) c(1,2) set_swap [OF 1(3) c(2)] True
      by (subst siftup.simps) simp
  next
    case False
    then have "heap_but h pos" using 1(2) by (auto simp: heap_hole_def heap_but_def)
    from siftdown_heap [OF this 1(3,4)] False show ?thesis by (subst siftup.simps) simp
  qed
qed

lemma heap_least: "is_heap h \<Longrightarrow> i < length h \<Longrightarrow> h ! 0 \<le> h ! i"
proof (induction i rule: less_induct)
  case (less i)
  show ?case
  proof (cases "i = 0")
    case False
    then have "h ! 0 \<le> h ! ((i - 1) div 2)" using less by simp
    also have "\<dots> \<le> h ! i" using less(2,3) False by (simp add: is_heap_def ordered_at_def)
    finally show ?thesis .
  qed simp
qed

lemma heappush_heap:
  assumes "is_heap h" and "decides lt (insert x (set h))"
  shows "\<exists>h'. heappush lt h x = Some h' \<and> is_heap h' \<and> mset h' = add_mset x (mset h)"
proof -
  have "heap_but (h @ [x]) (length h)"
    using assms(1) by (auto simp: heap_but_def is_heap_def ordered_at_def nth_append)
  from siftdown_heap [OF this, of lt] assms(2) obtain h' where h': "heappush lt h x = Some h'" "is_heap h'"
    by (auto simp: heappush_def)
  with heappush_mset [OF h'(1)] show ?thesis by blast
qed

lemma heappop_heap:
  assumes "is_heap h" and "decides lt (set h)" and "h \<noteq> []"
  shows "\<exists>x h'. heappop lt h = Some (x, h') \<and> is_heap h' \<and> mset h = add_mset x (mset h') \<and> (\<forall>y \<in># mset h'. x \<le> y)"
proof -
  have "\<exists>x h'. heappop lt h = Some (x, h') \<and> is_heap h'"
  proof (cases "length h = 1")
    case True
    then show ?thesis by (simp add: heappop_def is_heap_def)
  next
    case False
    then obtain y ys z where h: "h = y # ys @ [z]"
      using assms(3) by (cases h rule: rev_cases; cases "butlast h") (auto simp: butlast_append)
    have "ordered_at (z # ys) i" if i: "i < length (z # ys)" "0 < i" "(i - 1) div 2 \<noteq> 0" for i
    proof -
      have "i < length h" using i(1) by (simp add: h)
      then have "h ! ((i - 1) div 2) \<le> h ! i" using assms(1) i(2) unfolding is_heap_def ordered_at_def by blast
      moreover have "(z # ys) ! k = h ! k" if "0 < k" "k < length (z # ys)" for k
        using that by (cases k) (auto simp: h nth_append)
      moreover have "(i - 1) div 2 < length (z # ys)" using i by auto
      ultimately show ?thesis using i by (simp add: ordered_at_def)
    qed
    then have "heap_hole (z # ys) 0" by (auto simp: heap_hole_def)
    from siftup_heap [OF this, of lt] assms(2) obtain h' where "siftup lt (z # ys) 0 = Some h'" "is_heap h'"
      by (auto simp: h decides_def)
    then show ?thesis using False by (simp add: heappop_def h butlast_append)
  qed
  then obtain x h' where p: "heappop lt h = Some (x, h')" "is_heap h'" by blast
  have m: "mset h = add_mset x (mset h')" "x = h ! 0"
    using heappop_mset [OF p(1) assms(3)] assms(3) by (auto simp: hd_conv_nth)
  have "x \<le> y" if "y \<in># mset h'" for y
  proof -
    have "y \<in> set h" using that m(1) by (metis set_mset_mset insertI2 set_mset_add_mset_insert)
    then show ?thesis using heap_least [OF assms(1)] m(2) by (metis in_set_conv_nth)
  qed
  with p m show ?thesis by blast
qed

section \<open>Interface\<close>

text \<open>
  What a merge relies on. \<open>fits\<close> says of a set of elements that they can be compared with each other.
\<close>

locale merge_queue =
  fixes push :: "'q \<Rightarrow> 'a::linorder \<Rightarrow> 'q option"
    and pop :: "'q \<Rightarrow> ('a \<times> 'q) option"
    and items :: "'q \<Rightarrow> 'a multiset"
    and valid :: "'q \<Rightarrow> bool"
    and fits :: "'a set \<Rightarrow> bool"
  assumes push_valid: "valid q \<Longrightarrow> fits (insert x (set_mset (items q))) \<Longrightarrow>
      \<exists>q'. push q x = Some q' \<and> valid q' \<and> items q' = add_mset x (items q)"
    and pop_valid: "valid q \<Longrightarrow> fits (set_mset (items q)) \<Longrightarrow> items q \<noteq> {#} \<Longrightarrow>
      \<exists>x q'. pop q = Some (x, q') \<and> valid q' \<and> items q = add_mset x (items q') \<and> (\<forall>y \<in># items q'. x \<le> y)"
begin

lemma pop_below:
  \<comment> \<open>the popped element is below everything that waits behind some element of the queue\<close>
  assumes "valid q" and "fits (set_mset (items q))" and "items q \<noteq> {#}" and "\<And>y. y \<in># rest \<Longrightarrow> \<exists>z \<in># items q. z \<le> y"
  shows "\<exists>x q'. pop q = Some (x, q') \<and> valid q' \<and> items q = add_mset x (items q') \<and> (\<forall>y \<in># items q' + rest. x \<le> y)"
proof -
  from pop_valid [OF assms(1-3)] obtain x q' where p: "pop q = Some (x, q')" "valid q'" "items q = add_mset x (items q')"
    "\<forall>y \<in># items q'. x \<le> y" by blast
  have "x \<le> y" if "y \<in># rest" for y
    using assms(4) [OF that] p(3,4) by (auto intro: order_trans)
  with p show ?thesis by auto
qed

end

end
