(* ===== verification/External_Sort.thy ===== *)
theory External_Sort
  imports Digest_Encoding Heapq "HOL-Library.AList"
begin

text \<open>
  Bounded external sorting of digest rows (\<^verbatim>\<open>storage/external_row_sort.py\<close>, \<^verbatim>\<open>storage/_external_row_sort_helpers.py\<close>).
  Rows are encoded and buffered up to a byte limit, written to sorted runs, and runs are merged with a bounded
  fan-in on a bounded number of levels.

  The caller's \<^verbatim>\<open>cancellation_check\<close> and \<^verbatim>\<open>artifact_observer\<close> are the parameter \<open>cb\<close>: what the n-th call back
  raises, if it does. A row source is a list of rows in which an \<open>Inl e\<close> is the exception \<open>e\<close> of the iterator.
  The consumer of the generator is the parameter \<open>sink\<close>: what it does with a row, ending in \<open>Abandon e\<close> when
  it raises \<open>e\<close> and drops the generator. The file operations succeed.
\<close>

section \<open>State\<close>

record sort_state =
  st_files :: "(nat \<times> utext) list"   \<comment> \<open>the runs in the temporary directory\<close>
  st_fresh :: nat                      \<comment> \<open>the next name \<^verbatim>\<open>mkstemp\<close> gives\<close>
  st_sizes :: "(nat \<times> nat) list"      \<comment> \<open>\<^verbatim>\<open>_ArtifactTracker._sizes\<close>\<close>
  st_calls :: nat                      \<comment> \<open>calls back so far\<close>
  st_seen :: "(nat \<times> nat) list"       \<comment> \<open>what the observer was told: bytes and runs\<close>

type_synonym 'a sorter = "sort_state \<Rightarrow> 'a result \<times> sort_state"
type_synonym callbacks = "nat \<Rightarrow> py_error option"

definition retS :: "'a \<Rightarrow> 'a sorter" where "retS x s = (Inr x, s)"
definition raiseS :: "py_error \<Rightarrow> 'a sorter" where "raiseS e s = (Inl e, s)"
definition liftS :: "'a result \<Rightarrow> 'a sorter" where "liftS r s = (r, s)"

definition bindS :: "'a sorter \<Rightarrow> ('a \<Rightarrow> 'b sorter) \<Rightarrow> 'b sorter" where
  "bindS m f s = (case m s of (Inl e, t) \<Rightarrow> (Inl e, t) | (Inr x, t) \<Rightarrow> f x t)"

lemma bindS_cong [fundef_cong]:
  "m s = m' s' \<Longrightarrow> (\<And>x t. m' s' = (Inr x, t) \<Longrightarrow> f x t = g x t) \<Longrightarrow> bindS m f s = bindS m' g s'"
  by (auto simp: bindS_def split: prod.splits sum.splits)

datatype 'b flow = Continue 'b | Abandon py_error

definition consume :: "'a sorter \<Rightarrow> 'a flow sorter" where
  \<comment> \<open>what a consumer raises in its loop body\<close>
  "consume m s = (case m s of (Inl e, t) \<Rightarrow> (Inr (Abandon e), t) | (Inr x, t) \<Rightarrow> (Inr (Continue x), t))"

fun resume :: "'b flow \<Rightarrow> 'b sorter" where
  "resume (Continue x) = retS x"
| "resume (Abandon e) = raiseS e"

definition call_back :: "callbacks \<Rightarrow> unit sorter" where
  "call_back cb s =
     ((case cb (st_calls s) of None \<Rightarrow> Inr () | Some e \<Rightarrow> Inl e), s\<lparr>st_calls := st_calls s + 1\<rparr>)"

definition check_cancellation :: "callbacks \<Rightarrow> unit sorter" where
  "check_cancellation cb = call_back cb"

section \<open>Artifacts\<close>

definition publish :: "callbacks \<Rightarrow> unit sorter" where
  "publish cb s =
     call_back cb (s\<lparr>st_seen := st_seen s @ [(sum_list (map snd (st_sizes s)), length (st_sizes s))]\<rparr>)"

definition begin_artifact :: "callbacks \<Rightarrow> nat \<Rightarrow> unit sorter" where
  "begin_artifact cb path s = publish cb (s\<lparr>st_sizes := AList.update path 0 (st_sizes s)\<rparr>)"

definition resize_artifact :: "callbacks \<Rightarrow> nat \<Rightarrow> nat \<Rightarrow> unit sorter" where
  "resize_artifact cb path n s =
     (case map_of (st_sizes s) path of
        None \<Rightarrow> (Inl (ExternalRowSortError ''external structural digest artifact state is invalid''), s)
      | Some old \<Rightarrow>
          if n < old then (Inl (ExternalRowSortError ''external structural digest artifact state is invalid''), s)
          else publish cb (s\<lparr>st_sizes := AList.update path n (st_sizes s)\<rparr>))"

definition remove_artifact :: "callbacks \<Rightarrow> nat \<Rightarrow> unit sorter" where
  "remove_artifact cb path s = publish cb (s\<lparr>st_sizes := AList.delete path (st_sizes s)\<rparr>)"

definition clear_artifacts :: "callbacks \<Rightarrow> unit sorter" where
  "clear_artifacts cb s = (if st_sizes s = [] then (Inr (), s) else publish cb (s\<lparr>st_sizes := []\<rparr>))"

section \<open>Keys and rows\<close>

datatype sort_atom = KInt int | KStr utext
datatype key_type = Int_type | Str_type

fun atom_type :: "sort_atom \<Rightarrow> key_type" where
  "atom_type (KInt _) = Int_type"
| "atom_type (KStr _) = Str_type"

instantiation sort_atom :: linorder
begin

fun less_sort_atom :: "sort_atom \<Rightarrow> sort_atom \<Rightarrow> bool" where
  "less_sort_atom (KInt i) (KInt j) = (i < j)"
| "less_sort_atom (KStr s) (KStr t) = (s < t)"
| "less_sort_atom (KInt _) (KStr _) = True"
| "less_sort_atom (KStr _) (KInt _) = False"

definition less_eq_sort_atom :: "sort_atom \<Rightarrow> sort_atom \<Rightarrow> bool" where
  "less_eq_sort_atom x y = (x < y \<or> x = y)"

instance
proof
  fix x y z :: sort_atom
  show "(x < y) = (x \<le> y \<and> \<not> y \<le> x)" by (cases x; cases y) (auto simp: less_eq_sort_atom_def)
  show "x \<le> x" by (simp add: less_eq_sort_atom_def)
  show "x \<le> y \<Longrightarrow> y \<le> z \<Longrightarrow> x \<le> z" by (cases x; cases y; cases z) (auto simp: less_eq_sort_atom_def)
  show "x \<le> y \<Longrightarrow> y \<le> x \<Longrightarrow> x = y" by (cases x; cases y) (auto simp: less_eq_sort_atom_def)
  show "x \<le> y \<or> y \<le> x" by (cases x; cases y) (auto simp: less_eq_sort_atom_def)
qed

end

type_synonym sort_item = "sort_atom list \<times> utext"
type_synonym heap_entry = "sort_atom list \<times> utext \<times> nat"

fun clash :: "sort_atom list \<Rightarrow> sort_atom list \<Rightarrow> bool" where
  \<comment> \<open>comparing the tuples compares a number with a string first\<close>
  "clash (x # xs) (y # ys) = (if x = y then clash xs ys else atom_type x \<noteq> atom_type y)"
| "clash _ _ = False"

definition compare_error :: py_error where
  "compare_error = TypeError ''not supported between instances''"

definition entry_lt :: "heap_entry \<Rightarrow> heap_entry \<Rightarrow> bool option" where
  "entry_lt a b = (if clash (fst a) (fst b) then None else Some (a < b))"

definition sort_rows :: "sort_item list \<Rightarrow> sort_item list result" where
  \<comment> \<open>\<^verbatim>\<open>rows.sort\<close>: sorting a list that holds two keys it cannot compare compares two such keys\<close>
  "sort_rows rows =
     (if list_ex (\<lambda>a. list_ex (\<lambda>b. clash (fst a) (fst b)) rows) rows then Inl compare_error else Inr (sort rows))"

record sort_config =
  sc_key_indexes :: "int list"
  sc_field_count :: int
  sc_key_types :: "key_type list option"
  sc_run_byte_limit :: int
  sc_merge_fan_in :: int

definition py_index :: "'a list \<Rightarrow> int \<Rightarrow> 'a option" where
  "py_index xs i =
     (let n = int (length xs); k = (if i < 0 then n + i else i)
      in if 0 \<le> k \<and> k < n then Some (xs ! nat k) else None)"

fun key_atom :: "field \<Rightarrow> sort_atom option" where
  "key_atom (Value (NInt i)) = Some (KInt i)"
| "key_atom (Value (NStr s)) = Some (KStr s)"
| "key_atom _ = None"

definition invalid_key :: py_error where
  "invalid_key = ExternalRowSortError ''external structural digest sort key is invalid''"

definition sort_key_of :: "sort_config \<Rightarrow> field list \<Rightarrow> sort_atom list result" where
  "sort_key_of cfg row =
     (case those (map (py_index row) (sc_key_indexes cfg)) of
        None \<Rightarrow> Inl invalid_key
      | Some values \<Rightarrow>
          (case those (map key_atom values) of
             None \<Rightarrow> Inl invalid_key
           | Some key \<Rightarrow>
               guardE (case sc_key_types cfg of
                         None \<Rightarrow> True
                       | Some ts \<Rightarrow> list_all (\<lambda>(x, t). atom_type x = t) (zip key ts)) invalid_key (Inr key)))"

datatype row = Row "field list" | NotRow

fun encode_chunks :: "callbacks \<Rightarrow> utext list \<Rightarrow> utext sorter" where
  \<comment> \<open>\<^verbatim>\<open>"".join\<close> over the chunks, each preceded by a check\<close>
  "encode_chunks cb [] = retS []"
| "encode_chunks cb (c # cs) =
     bindS (check_cancellation cb) (\<lambda>_. bindS (encode_chunks cb cs) (\<lambda>t. retS (c @ t)))"

definition encode_value :: "callbacks \<Rightarrow> utext list \<times> bool \<Rightarrow> utext sorter" where
  "encode_value cb ps =
     bindS (encode_chunks cb (concat (map iter_text_chunks (fst ps)))) (\<lambda>t.
     if snd ps then bindS (check_cancellation cb) (\<lambda>_. retS t)
     else raiseS (ExternalRowSortError ''external structural digest row value is invalid''))"

definition encode_row :: "callbacks \<Rightarrow> sort_config \<Rightarrow> row \<Rightarrow> sort_item sorter" where
  "encode_row cb cfg row =
     (case row of
        NotRow \<Rightarrow> raiseS (ExternalRowSortError ''external structural digest row is invalid'')
      | Row fs \<Rightarrow>
          if int (length fs) \<noteq> sc_field_count cfg
          then raiseS (ExternalRowSortError ''external structural digest row is invalid'')
          else bindS (liftS (sort_key_of cfg fs)) (\<lambda>key.
               bindS (encode_value cb (row_parts fs)) (\<lambda>encoded. retS (key, encoded))))"

definition invalid_run :: py_error where
  "invalid_run = ExternalRowSortError ''external structural digest run is invalid''"

definition decode_row :: "sort_config \<Rightarrow> utext \<Rightarrow> jval list result" where
  "decode_row cfg encoded =
     (case loads encoded of
        Some (NArr xs) \<Rightarrow> guardE (int (length xs) = sc_field_count cfg) invalid_run (Inr xs)
      | _ \<Rightarrow> Inl invalid_run)"

section \<open>Runs\<close>

function file_lines :: "utext \<Rightarrow> utext list" where
  \<comment> \<open>the lines of a text file without their ends\<close>
  "file_lines t =
     (if t = [] then []
      else let l = takeWhile (\<lambda>c. c \<noteq> 10 \<and> c \<noteq> 13) t; r = dropWhile (\<lambda>c. c \<noteq> 10 \<and> c \<noteq> 13) t
      in l # (if opens 13 r \<and> opens 10 (tl r) then file_lines (tl (tl r)) else file_lines (tl r)))"
  by pat_completeness auto
termination
proof (relation "measure length")
  fix t l r :: utext
  assume "t \<noteq> []" and r: "r = dropWhile (\<lambda>c. c \<noteq> 10 \<and> c \<noteq> 13) t"
  moreover have "length r \<le> length t" unfolding r by (rule length_dropWhile_le)
  ultimately show "(tl r, t) \<in> measure length" "(tl (tl r), t) \<in> measure length" by (cases t; cases r; simp)+
qed simp

declare file_lines.simps [simp del]

definition read_line :: "sort_config \<Rightarrow> utext \<Rightarrow> sort_item result" where
  \<comment> \<open>one step of \<^verbatim>\<open>_iter_encoded_run\<close>\<close>
  "read_line cfg line =
     bindE (decode_row cfg line) (\<lambda>row.
     bindE (sort_key_of cfg (map Value row)) (\<lambda>key. Inr (key, line)))"

definition open_run :: "sort_state \<Rightarrow> nat \<Rightarrow> utext list result" where
  "open_run s path =
     (case map_of (st_files s) path of
        None \<Rightarrow> Inl (ExternalRowSortError ''external structural digest run is unavailable'')
      | Some content \<Rightarrow> Inr (file_lines content))"

fun merge_start ::
  "sort_config \<Rightarrow> sort_state \<Rightarrow> nat list \<Rightarrow> heap_entry list \<Rightarrow> utext list list \<Rightarrow> (heap_entry list \<times> utext list list) result" where
  \<comment> \<open>the first row of every run; \<open>iters\<close> are the lines still to be read\<close>
  "merge_start cfg s [] heap iters = Inr (heap, iters)"
| "merge_start cfg s (path # paths) heap iters =
     bindE (open_run s path) (\<lambda>lines.
     case lines of
       [] \<Rightarrow> merge_start cfg s paths heap (iters @ [[]])
     | line # rest \<Rightarrow>
         bindE (read_line cfg line) (\<lambda>(key, encoded).
         case heappush entry_lt heap (key, encoded, length iters) of
           None \<Rightarrow> Inl compare_error
         | Some heap' \<Rightarrow> merge_start cfg s paths heap' (iters @ [rest])))"

definition pull :: "nat \<Rightarrow> utext list list \<Rightarrow> (utext \<times> utext list list) option" where
  "pull index iters =
     (if index < length iters
      then (case iters ! index of [] \<Rightarrow> None | line # rest \<Rightarrow> Some (line, iters[index := rest])) else None)"

lemma pull_shorter:
  "pull index iters = Some (line, iters') \<Longrightarrow> length (concat iters) = Suc (length (concat iters'))"
proof -
  assume p: "pull index iters = Some (line, iters')"
  then obtain rest where i: "index < length iters" "iters ! index = line # rest" "iters' = iters[index := rest]"
    by (auto simp: pull_def split: if_splits list.splits)
  have "iters = take index iters @ (line # rest) # drop (Suc index) iters"
    using id_take_nth_drop [OF i(1)] i(2) by simp
  moreover have "iters' = take index iters @ rest # drop (Suc index) iters"
    using upd_conv_take_nth_drop [OF i(1)] i(3) by simp
  ultimately show ?thesis by (metis (no_types) concat_append concat.simps(2) length_append length_Cons add_Suc add_Suc_right append_Cons)
qed

function merge_each ::
  "callbacks \<Rightarrow> sort_config \<Rightarrow> (utext \<Rightarrow> 'b \<Rightarrow> 'b flow sorter) \<Rightarrow> heap_entry list \<Rightarrow> utext list list \<Rightarrow> 'b \<Rightarrow> 'b flow sorter"
where
  \<comment> \<open>the loop of \<^verbatim>\<open>_merge_encoded_runs\<close> with its consumer\<close>
  "merge_each cb cfg sink heap iters acc s =
     (if heap = [] then retS (Continue acc) s
      else bindS (check_cancellation cb) (\<lambda>_.
        case heappop entry_lt heap of
          None \<Rightarrow> raiseS compare_error
        | Some (entry, heap1) \<Rightarrow>
            bindS (sink (fst (snd entry)) acc) (\<lambda>r.
            case r of
              Abandon e \<Rightarrow> retS (Abandon e)
            | Continue acc' \<Rightarrow>
                (case pull (snd (snd entry)) iters of
                   None \<Rightarrow> merge_each cb cfg sink heap1 iters acc'
                 | Some (line, iters1) \<Rightarrow>
                     bindS (liftS (read_line cfg line)) (\<lambda>(key, encoded).
                     case heappush entry_lt heap1 (key, encoded, snd (snd entry)) of
                       None \<Rightarrow> raiseS compare_error
                     | Some heap2 \<Rightarrow> merge_each cb cfg sink heap2 iters1 acc')))) s)"
  by pat_completeness auto
termination
  by (relation "measure (\<lambda>(_, _, _, heap, iters, _, _). length heap + length (concat iters))")
    (auto dest!: heappop_length heappush_length pull_shorter)

declare merge_each.simps [simp del]

definition merge_encoded_runs ::
  "callbacks \<Rightarrow> sort_config \<Rightarrow> nat list \<Rightarrow> (utext \<Rightarrow> 'b \<Rightarrow> 'b flow sorter) \<Rightarrow> 'b \<Rightarrow> 'b flow sorter" where
  "merge_encoded_runs cb cfg runs sink acc s =
     bindS (liftS (merge_start cfg s runs [] [])) (\<lambda>(heap, iters). merge_each cb cfg sink heap iters acc) s"

fun list_each :: "(utext \<Rightarrow> 'b \<Rightarrow> 'b flow sorter) \<Rightarrow> utext list \<Rightarrow> 'b \<Rightarrow> 'b flow sorter" where
  "list_each sink [] acc = retS (Continue acc)"
| "list_each sink (t # ts) acc =
     bindS (sink t acc) (\<lambda>r. case r of Abandon e \<Rightarrow> retS (Abandon e) | Continue acc' \<Rightarrow> list_each sink ts acc')"

definition write_encoded :: "callbacks \<Rightarrow> nat \<Rightarrow> utext \<Rightarrow> nat \<Rightarrow> nat sorter" where
  \<comment> \<open>the body of the loop of \<^verbatim>\<open>_write_encoded_rows\<close>\<close>
  "write_encoded cb path encoded written =
     (let n = written + length encoded + 1
      in bindS (resize_artifact cb path n) (\<lambda>_ s.
         (Inr n, s\<lparr>st_files := AList.map_default path (encoded @ [10]) (\<lambda>content. content @ encoded @ [10]) (st_files s)\<rparr>)))"

definition unlink :: "nat \<Rightarrow> unit sorter" where
  "unlink path s = (Inr (), s\<lparr>st_files := AList.delete path (st_files s)\<rparr>)"

definition write_encoded_rows ::
  "callbacks \<Rightarrow> ((utext \<Rightarrow> nat \<Rightarrow> nat flow sorter) \<Rightarrow> nat \<Rightarrow> nat flow sorter) \<Rightarrow> nat sorter" where
  \<comment> \<open>\<open>rows\<close> is the iterator, given by what it does with a consumer\<close>
  "write_encoded_rows cb rows s =
     (let path = st_fresh s;
          s1 = s\<lparr>st_fresh := path + 1, st_files := AList.update path [] (st_files s)\<rparr>
      in case bindS (begin_artifact cb path) (\<lambda>_.
              bindS (rows (\<lambda>encoded written. consume (write_encoded cb path encoded written)) 0) resume) s1 of
           (Inr _, s2) \<Rightarrow> (Inr path, s2)
         | (Inl e, s2) \<Rightarrow>
             bindS (remove_artifact cb path) (\<lambda>_. bindS (unlink path) (\<lambda>_. raiseS e)) s2)"

definition write_run :: "callbacks \<Rightarrow> sort_item list \<Rightarrow> nat sorter" where
  "write_run cb rows =
     bindS (liftS (sort_rows rows)) (\<lambda>sorted_rows.
     write_encoded_rows cb (\<lambda>sink. list_each sink (map snd sorted_rows)))"

definition write_merged_run :: "callbacks \<Rightarrow> sort_config \<Rightarrow> nat list \<Rightarrow> nat sorter" where
  "write_merged_run cb cfg runs = write_encoded_rows cb (merge_encoded_runs cb cfg runs)"

fun remove_runs :: "callbacks \<Rightarrow> nat list \<Rightarrow> unit sorter" where
  "remove_runs cb [] = retS ()"
| "remove_runs cb (path # paths) =
     bindS (unlink path) (\<lambda>_. bindS (remove_artifact cb path) (\<lambda>_. remove_runs cb paths))"

section \<open>Levels\<close>

definition MAX_RUN_LEVELS :: nat where "MAX_RUN_LEVELS = 4"

definition run_bound_error :: py_error where
  "run_bound_error = ExternalRowSortError ''external structural digest run bound is exceeded''"

function add_run :: "callbacks \<Rightarrow> sort_config \<Rightarrow> nat list list \<Rightarrow> nat \<Rightarrow> nat \<Rightarrow> nat list list sorter" where
  "add_run cb cfg levels path level s =
     (if length levels \<le> level then raiseS run_bound_error s
      else let members = levels ! level @ [path]
      in if int (length members) < sc_merge_fan_in cfg then retS (levels[level := members]) s
         else bindS (write_merged_run cb cfg members) (\<lambda>out.
              bindS (remove_runs cb members) (\<lambda>_.
              add_run cb cfg (levels[level := []]) out (level + 1))) s)"
  by pat_completeness auto
termination by (relation "measure (\<lambda>(_, _, levels, _, level, _). length levels - level)") auto

declare add_run.simps [simp del]

fun finalize_run_levels :: "callbacks \<Rightarrow> sort_config \<Rightarrow> nat list list \<Rightarrow> nat list sorter" where
  "finalize_run_levels cb cfg [] = retS []"
| "finalize_run_levels cb cfg (members # rest) =
     (if length members \<le> 1
      then bindS (finalize_run_levels cb cfg rest) (\<lambda>final. retS (members @ final))
      else bindS (write_merged_run cb cfg members) (\<lambda>out.
           bindS (remove_runs cb members) (\<lambda>_.
           bindS (finalize_run_levels cb cfg rest) (\<lambda>final. retS (out # final)))))"

section \<open>Sorting\<close>

record sort_buffer =
  sb_buffered :: "sort_item list"
  sb_bytes :: nat
  sb_levels :: "nat list list"
  sb_has_runs :: bool

definition flush :: "callbacks \<Rightarrow> sort_config \<Rightarrow> sort_buffer \<Rightarrow> sort_buffer sorter" where
  "flush cb cfg b =
     bindS (write_run cb (sb_buffered b)) (\<lambda>path.
     bindS (add_run cb cfg (sb_levels b) path 0) (\<lambda>levels.
     retS \<lparr>sb_buffered = [], sb_bytes = 0, sb_levels = levels, sb_has_runs = True\<rparr>))"

definition absorb_item :: "callbacks \<Rightarrow> sort_config \<Rightarrow> sort_item \<Rightarrow> sort_buffer \<Rightarrow> sort_buffer sorter" where
  "absorb_item cb cfg item b =
     (let n = length (snd item)
      in bindS (if sb_buffered b \<noteq> [] \<and> sc_run_byte_limit cfg < int (sb_bytes b + n) then flush cb cfg b else retS b) (\<lambda>b1.
         let b2 = b1\<lparr>sb_buffered := sb_buffered b1 @ [item], sb_bytes := sb_bytes b1 + n\<rparr>
         in if sc_run_byte_limit cfg \<le> int (sb_bytes b2) then flush cb cfg b2 else retS b2))"

fun absorb_rows :: "callbacks \<Rightarrow> sort_config \<Rightarrow> row result list \<Rightarrow> sort_buffer \<Rightarrow> sort_buffer sorter" where
  "absorb_rows cb cfg [] b = retS b"
| "absorb_rows cb cfg (Inl e # source) b = raiseS e"
| "absorb_rows cb cfg (Inr row # source) b =
     bindS (check_cancellation cb) (\<lambda>_.
     bindS (encode_row cb cfg row) (\<lambda>item.
     bindS (absorb_item cb cfg item b) (\<lambda>b'. absorb_rows cb cfg source b')))"

definition checked :: "callbacks \<Rightarrow> (utext \<Rightarrow> 'b \<Rightarrow> 'b flow sorter) \<Rightarrow> utext \<Rightarrow> 'b \<Rightarrow> 'b flow sorter" where
  "checked cb sink t acc = bindS (check_cancellation cb) (\<lambda>_. sink t acc)"

definition valid_config :: "sort_config \<Rightarrow> bool" where
  "valid_config cfg =
     (0 < sc_run_byte_limit cfg \<and> 2 \<le> sc_merge_fan_in cfg
      \<and> (case sc_key_types cfg of None \<Rightarrow> True | Some ts \<Rightarrow> length ts = length (sc_key_indexes cfg)))"

definition empty_buffer :: sort_buffer where
  "empty_buffer = \<lparr>sb_buffered = [], sb_bytes = 0, sb_levels = replicate MAX_RUN_LEVELS [], sb_has_runs = False\<rparr>"

definition sort_body ::
  "callbacks \<Rightarrow> sort_config \<Rightarrow> row result list \<Rightarrow> (utext \<Rightarrow> 'b \<Rightarrow> 'b flow sorter) \<Rightarrow> 'b \<Rightarrow> 'b flow sorter" where
  "sort_body cb cfg source sink acc =
     bindS (absorb_rows cb cfg source empty_buffer) (\<lambda>b.
     if \<not> sb_has_runs b
     then bindS (liftS (sort_rows (sb_buffered b))) (\<lambda>rows. list_each (checked cb sink) (map snd rows) acc)
     else bindS (if sb_buffered b \<noteq> [] then flush cb cfg b else retS b) (\<lambda>b'.
          bindS (finalize_run_levels cb cfg (sb_levels b')) (\<lambda>runs.
          merge_encoded_runs cb cfg runs sink acc)))"

definition external_sort_encoded_rows ::
  "callbacks \<Rightarrow> sort_config \<Rightarrow> row result list \<Rightarrow> (utext \<Rightarrow> 'b \<Rightarrow> 'b flow sorter) \<Rightarrow> 'b
     \<Rightarrow> sort_state \<Rightarrow> 'b flow result \<times> unit result \<times> sort_state" where
  \<comment> \<open>how the body of the generator ends and how its \<^verbatim>\<open>finally\<close> block does; leaving the \<^verbatim>\<open>with\<close> removes the directory\<close>
  "external_sort_encoded_rows cb cfg source sink acc s =
     (if \<not> valid_config cfg then (Inl (ValueError ''external row sort configuration is invalid''), Inr (), s)
      else case sort_body cb cfg source sink acc s of (r, s1) \<Rightarrow>
           (case clear_artifacts cb (s1\<lparr>st_files := []\<rparr>) of (c, s2) \<Rightarrow> (r, c, s2)))"

fun closed :: "'b flow result \<Rightarrow> unit result \<Rightarrow> 'b flow result" where
  \<comment> \<open>an exception of the \<^verbatim>\<open>finally\<close> block replaces the outcome; after an abandoned loop \<^verbatim>\<open>close()\<close> raises it\<close>
  "closed r (Inr _) = r"
| "closed (Inr (Abandon _)) (Inl e) = Inr (Abandon e)"
| "closed _ (Inl e) = Inl e"

definition decoding :: "sort_config \<Rightarrow> (jval list \<Rightarrow> 'b \<Rightarrow> 'b flow sorter) \<Rightarrow> utext \<Rightarrow> 'b \<Rightarrow> 'b flow sorter" where
  "decoding cfg sink encoded acc =
     (case decode_row cfg encoded of Inl e \<Rightarrow> raiseS e | Inr row \<Rightarrow> sink row acc)"

definition external_sort_rows ::
  "callbacks \<Rightarrow> sort_config \<Rightarrow> row result list \<Rightarrow> (jval list \<Rightarrow> 'b \<Rightarrow> 'b flow sorter) \<Rightarrow> 'b \<Rightarrow> 'b flow sorter" where
  \<comment> \<open>a row that does not decode is raised by this generator, not by its consumer\<close>
  "external_sort_rows cb cfg source sink acc s =
     (case external_sort_encoded_rows cb cfg source (decoding cfg sink) acc s of (r, c, s1) \<Rightarrow> (closed r c, s1))"

end
