(* ===== verification/Sort_Merge.thy ===== *)
theory Sort_Merge
  imports External_Sort
begin

text \<open>
  Merging of sorted runs: for every consumer and all call backs, the k-way merge of good runs behaves as the
  iteration over their sorted contents, with a cancellation check before each row.
\<close>

section \<open>Sequencing\<close>

lemma bindS_ret [simp]: "bindS (retS x) f = f x" "bindS (liftS (Inr x)) f = f x"
  and bindS_raise [simp]: "bindS (raiseS e) f = raiseS e" "bindS (liftS (Inl e)) f = raiseS e"
  by (simp_all add: bindS_def retS_def liftS_def raiseS_def fun_eq_iff)

lemma bindS_assoc: "bindS (bindS m f) g = bindS m (\<lambda>x. bindS (f x) g)"
  by (auto simp: bindS_def fun_eq_iff split: prod.splits sum.splits)

lemma bindS_eqI: "(\<And>x t. m s = (Inr x, t) \<Longrightarrow> f x t = g x t) \<Longrightarrow> bindS m f s = bindS m g s"
  by (rule bindS_cong) simp_all

lemma sort_mset_cong: "mset xs = mset ys \<Longrightarrow> sort xs = sort ys"
  by (rule properties_for_sort) simp_all

section \<open>Lines of a run\<close>

definition run_text :: "sort_item list \<Rightarrow> utext" where
  "run_text r = concat (map (\<lambda>x. snd x @ [10]) r)"

definition good_item :: "sort_config \<Rightarrow> sort_item \<Rightarrow> bool" where
  \<comment> \<open>what is read back from the line of the item is the item\<close>
  "good_item cfg x = (read_line cfg (snd x) = Inr x \<and> list_all printable (snd x))"

lemma file_lines_step:
  assumes "list_all printable l"
  shows "file_lines (l @ 10 # t) = l # file_lines t"
proof -
  have "\<forall>c \<in> set l. c \<noteq> 10 \<and> c \<noteq> 13" using assms by (auto simp: list_all_iff printable_def)
  then have "takeWhile (\<lambda>c. c \<noteq> 10 \<and> c \<noteq> 13) (l @ 10 # t) = l" "dropWhile (\<lambda>c. c \<noteq> 10 \<and> c \<noteq> 13) (l @ 10 # t) = 10 # t"
    by (simp_all add: takeWhile_append2 dropWhile_append2)
  then show ?thesis by (subst file_lines.simps) (simp add: Let_def)
qed

lemma run_lines: "\<forall>x \<in> set r. good_item cfg x \<Longrightarrow> file_lines (run_text r) = map snd r"
  by (induction r) (simp_all add: run_text_def good_item_def file_lines_step file_lines.simps [of "[]"])

section \<open>Comparable entries\<close>

definition agree :: "sort_item set \<Rightarrow> bool" where
  "agree U = (\<forall>x \<in> U. \<forall>y \<in> U. \<not> clash (fst x) (fst y))"

definition strip :: "heap_entry \<Rightarrow> sort_item" where
  "strip e = (fst e, fst (snd e))"

definition entries_fit :: "heap_entry set \<Rightarrow> bool" where
  "entries_fit A = agree (strip ` A)"

lemma strip_entry [simp]: "strip (fst x, snd x, i) = x"
  by (simp add: strip_def)

lemma entries_fitI: "agree U \<Longrightarrow> strip ` A \<subseteq> U \<Longrightarrow> entries_fit A"
  unfolding entries_fit_def agree_def by blast

lemma entries_decide: "entries_fit A \<Longrightarrow> decides entry_lt A"
  by (simp add: entries_fit_def agree_def decides_def entry_lt_def strip_def)

interpretation hq: merge_queue "heappush entry_lt" "heappop entry_lt" mset is_heap entries_fit
proof
  fix q :: "heap_entry list" and x :: heap_entry
  assume "is_heap q" and "entries_fit (insert x (set_mset (mset q)))"
  then show "\<exists>q'. heappush entry_lt q x = Some q' \<and> is_heap q' \<and> mset q' = add_mset x (mset q)"
    using heappush_heap [of q entry_lt x] entries_decide by simp
next
  fix q :: "heap_entry list"
  assume "is_heap q" and "entries_fit (set_mset (mset q))" and "mset q \<noteq> {#}"
  then show "\<exists>x q'. heappop entry_lt q = Some (x, q') \<and> is_heap q' \<and> mset q = add_mset x (mset q') \<and> (\<forall>y \<in># mset q'. x \<le> y)"
    using heappop_heap [of q entry_lt] entries_decide by simp
qed

section \<open>The merge loop\<close>

definition unread :: "sort_item list list \<Rightarrow> heap_entry multiset" where
  "unread runs = mset (concat (map (\<lambda>i. map (\<lambda>x. (fst x, snd x, i)) (runs ! i)) [0..<length runs]))"

lemma unread_iff: "e \<in># unread runs \<longleftrightarrow> snd (snd e) < length runs \<and> strip e \<in> set (runs ! snd (snd e))"
  by (cases e) (force simp: unread_def strip_def)

definition merge_inv :: "sort_config \<Rightarrow> sort_item set \<Rightarrow> heap_entry list \<Rightarrow> sort_item list list \<Rightarrow> bool" where
  \<comment> \<open>the heap holds at most one row of every run, a row below the rest of its run, and no run waits without one\<close>
  "merge_inv cfg U heap runs =
     (is_heap heap \<and> strip ` set heap \<subseteq> U \<and> set (concat runs) \<subseteq> U
      \<and> (\<forall>e \<in> set heap. snd (snd e) < length runs \<and> sorted (strip e # runs ! snd (snd e)))
      \<and> (\<forall>i < length runs. runs ! i \<noteq> [] \<longrightarrow> (\<exists>e \<in> set heap. snd (snd e) = i))
      \<and> distinct (map (snd \<circ> snd) heap))"

lemma entry_le: "strip a \<le> strip b \<Longrightarrow> snd (snd a) = snd (snd b) \<Longrightarrow> a \<le> b"
  by (cases a; cases b) (auto simp: strip_def less_eq_prod_def)

lemma strip_mono: "a \<le> b \<Longrightarrow> strip a \<le> strip b"
  by (cases a; cases b) (auto simp: strip_def less_eq_prod_def)

lemma merge_inv_pop:
  assumes inv: "merge_inv cfg U heap runs" and U: "agree U" and ne: "heap \<noteq> []"
  shows "\<exists>e heap'. heappop entry_lt heap = Some (e, heap') \<and> is_heap heap' \<and> mset heap = add_mset e (mset heap')
    \<and> (\<forall>y \<in> set (map strip heap' @ concat runs). strip e \<le> y)"
proof -
  have "entries_fit (set heap)" using inv by (intro entries_fitI [OF U]) (simp add: merge_inv_def)
  moreover have "\<exists>z \<in># mset heap. z \<le> y" if y: "y \<in># unread runs" for y
  proof -
    let ?i = "snd (snd y)"
    from y have i: "?i < length runs" "strip y \<in> set (runs ! ?i)" by (simp_all add: unread_iff)
    then have "runs ! ?i \<noteq> []" by auto
    with inv i(1) obtain z where z: "z \<in> set heap" "snd (snd z) = ?i" unfolding merge_inv_def by blast
    with inv have "sorted (strip z # runs ! ?i)" unfolding merge_inv_def by metis
    with i(2) have "strip z \<le> strip y" by simp
    with z entry_le [of z y] show ?thesis by auto
  qed
  ultimately obtain e heap' where p: "heappop entry_lt heap = Some (e, heap')" "is_heap heap'"
    "mset heap = add_mset e (mset heap')" "\<forall>y \<in># mset heap' + unread runs. e \<le> y"
    using hq.pop_below [of heap "unread runs"] inv ne by (auto simp: merge_inv_def)
  have "strip e \<le> y" if y: "y \<in> set (concat runs)" for y
  proof -
    from y obtain r where "r \<in> set runs" "y \<in> set r" by auto
    then obtain i where "i < length runs" "y \<in> set (runs ! i)" by (metis in_set_conv_nth)
    then have "(fst y, snd y, i) \<in># unread runs" by (simp add: unread_iff strip_def)
    with p(4) have "e \<le> (fst y, snd y, i)" by simp
    then show ?thesis using strip_mono [of e "(fst y, snd y, i)"] by (simp add: strip_def)
  qed
  moreover have "strip e \<le> strip z" if "z \<in> set heap'" for z using p(4) that strip_mono by simp
  ultimately show ?thesis using p by auto
qed

lemma merge_inv_rest:
  \<comment> \<open>after a pop the run of the popped row is the only one that may wait without a row in the heap\<close>
  assumes inv: "merge_inv cfg U heap runs" and h: "is_heap heap'" "mset heap = add_mset e (mset heap')"
  shows "snd (snd e) < length runs" "strip e \<in> U" "sorted (strip e # runs ! snd (snd e))"
    "runs ! snd (snd e) = [] \<Longrightarrow> merge_inv cfg U heap' runs"
    "runs ! snd (snd e) = x # r \<Longrightarrow> is_heap heap'' \<Longrightarrow> mset heap'' = add_mset (fst x, snd x, snd (snd e)) (mset heap')
      \<Longrightarrow> merge_inv cfg U heap'' (runs[snd (snd e) := r])"
proof -
  let ?i = "snd (snd e)"
  have set: "set heap = insert e (set heap')" using h(2) by (metis set_mset_add_mset_insert set_mset_mset)
  have "image_mset (snd \<circ> snd) (mset heap) = add_mset ?i (image_mset (snd \<circ> snd) (mset heap'))" by (simp add: h(2))
  then have "mset (map (snd \<circ> snd) heap) = mset (?i # map (snd \<circ> snd) heap')" by simp
  then have "distinct (map (snd \<circ> snd) heap) \<longleftrightarrow> distinct (?i # map (snd \<circ> snd) heap')" by (rule mset_eq_imp_distinct_iff)
  with inv have dist: "?i \<notin> (snd \<circ> snd) ` set heap'" "distinct (map (snd \<circ> snd) heap')" by (auto simp: merge_inv_def)
  show i: "?i < length runs" and U: "strip e \<in> U" and sorted: "sorted (strip e # runs ! ?i)"
    using inv unfolding merge_inv_def set by auto
  show "merge_inv cfg U heap' runs" if "runs ! ?i = []"
    using inv dist h(1) that unfolding merge_inv_def set by auto
  assume r: "runs ! ?i = x # r" and h'': "is_heap heap''" "mset heap'' = add_mset (fst x, snd x, ?i) (mset heap')"
  have set'': "set heap'' = insert (fst x, snd x, ?i) (set heap')" using h''(2) by (metis set_mset_add_mset_insert set_mset_mset)
  have "image_mset (snd \<circ> snd) (mset heap'') = add_mset ?i (image_mset (snd \<circ> snd) (mset heap'))" by (simp add: h''(2))
  then have "mset (map (snd \<circ> snd) heap'') = mset (?i # map (snd \<circ> snd) heap')" by simp
  then have "distinct (map (snd \<circ> snd) heap'') \<longleftrightarrow> distinct (?i # map (snd \<circ> snd) heap')" by (rule mset_eq_imp_distinct_iff)
  then have d: "distinct (map (snd \<circ> snd) heap'')" using dist by simp
  have other: "snd (snd a) \<noteq> ?i" if "a \<in> set heap'" for a using that dist(1) by (metis comp_apply image_eqI)
  have "set (runs ! ?i) \<subseteq> set (concat runs)" using nth_mem [OF i] by auto
  with r inv have x: "x \<in> U" by (auto simp: merge_inv_def)
  have sub: "set (concat (runs[?i := r])) \<subseteq> set (concat runs)"
    using set_update_subset_insert [of runs ?i r] \<open>set (runs ! ?i) \<subseteq> set (concat runs)\<close> r by auto
  show "merge_inv cfg U heap'' (runs[?i := r])"
    unfolding merge_inv_def
  proof (intro conjI ballI allI impI)
    show "strip ` set heap'' \<subseteq> U" using inv x unfolding merge_inv_def set set'' by (auto simp: strip_def)
    show "set (concat (runs[?i := r])) \<subseteq> U" using inv sub unfolding merge_inv_def by blast
  next
    fix a assume "a \<in> set heap''"
    then consider "a = (fst x, snd x, ?i)" | "a \<in> set heap'" "snd (snd a) \<noteq> ?i" using set'' other by auto
    then show "snd (snd a) < length (runs[?i := r])" and "sorted (strip a # runs[?i := r] ! snd (snd a))"
      using inv i r sorted unfolding merge_inv_def set by (cases; auto simp: strip_def)+
  next
    fix k assume k: "k < length (runs[?i := r])" "runs[?i := r] ! k \<noteq> []"
    show "\<exists>a \<in> set heap''. snd (snd a) = k"
    proof (cases "k = ?i")
      case False
      with k inv obtain a where "a \<in> set heap" "snd (snd a) = k" unfolding merge_inv_def by auto
      with False show ?thesis unfolding set set'' by auto
    qed (simp add: set'')
  qed (use h'' d in simp_all)
qed

lemma concat_update_mset:
  assumes "i < length runs" and "runs ! i = x # r"
  shows "mset (concat runs) = add_mset x (mset (concat (runs[i := r])))"
proof -
  have "runs = take i runs @ (x # r) # drop (Suc i) runs" using id_take_nth_drop [OF assms(1)] assms(2) by simp
  then have "mset (concat runs) = mset (concat (take i runs)) + mset (x # r) + mset (concat (drop (Suc i) runs))"
    by (metis concat.simps(2) concat_append mset_append union_assoc)
  moreover have "runs[i := r] = take i runs @ r # drop (Suc i) runs" using assms(1) by (rule upd_conv_take_nth_drop)
  ultimately show ?thesis by simp
qed

lemma pull_runs:
  assumes "i < length runs"
  shows "pull i (map (map snd) runs) =
    (case runs ! i of [] \<Rightarrow> None | x # r \<Rightarrow> Some (snd x, map (map snd) (runs[i := r])))"
  using assms by (simp add: pull_def map_update split: list.split)

lemma list_each_Cons:
  "list_each (checked cb sink) (t # ts) acc s =
     bindS (check_cancellation cb) (\<lambda>_. bindS (sink t acc) (\<lambda>r.
       case r of Abandon e \<Rightarrow> retS (Abandon e) | Continue acc' \<Rightarrow> list_each (checked cb sink) ts acc')) s"
  by (simp add: checked_def bindS_assoc)

lemma merge_each_sorted:
  assumes "merge_inv cfg U heap runs" and U: "agree U" "\<forall>x \<in> U. good_item cfg x"
  shows "merge_each cb cfg sink heap (map (map snd) runs) acc s
     = list_each (checked cb sink) (map snd (sort (map strip heap @ concat runs))) acc s"
  using assms(1)
proof (induction "length heap + length (concat runs)" arbitrary: heap runs acc s)
  case 0
  then have "heap = []" "concat runs = []" by simp_all
  then have "map strip heap @ concat runs = []" by (simp only: list.map append_Nil)
  then show ?case unfolding \<open>map strip heap @ concat runs = []\<close> using \<open>heap = []\<close> by (subst merge_each.simps) simp
next
  case (Suc n)
  show ?case
  proof (cases "heap = []")
    case True
    with Suc(3) have "concat runs = []" by (auto simp: merge_inv_def in_set_conv_nth)
    with True Suc(2) show ?thesis by simp
  next
    case False
    from merge_inv_pop [OF Suc(3) U(1) this] obtain e heap1 where p: "heappop entry_lt heap = Some (e, heap1)" "is_heap heap1"
      "mset heap = add_mset e (mset heap1)" "\<forall>y \<in> set (map strip heap1 @ concat runs). strip e \<le> y" by blast
    note rest = merge_inv_rest [OF Suc(3) p(2,3)]
    let ?i = "snd (snd e)"
    let ?rest = "map strip heap1 @ concat runs"
    have len: "length heap = Suc (length heap1)" using p(3) by (metis size_add_mset size_mset)
    have "mset (map strip heap @ concat runs) = mset (strip e # ?rest)"
      using p(3) by simp
    then have "sort (map strip heap @ concat runs) = sort (strip e # ?rest)" by (rule sort_mset_cong)
    also have "\<dots> = strip e # sort ?rest" using p(4) by (intro properties_for_sort) simp_all
    finally have s: "map snd (sort (map strip heap @ concat runs)) = fst (snd e) # map snd (sort ?rest)"
      by (simp add: strip_def)
    have step: "(case pull ?i (map (map snd) runs) of
          None \<Rightarrow> merge_each cb cfg sink heap1 (map (map snd) runs) acc'
        | Some (line, iters1) \<Rightarrow> bindS (liftS (read_line cfg line)) (\<lambda>(key, encoded).
            case heappush entry_lt heap1 (key, encoded, ?i) of
              None \<Rightarrow> raiseS compare_error | Some heap2 \<Rightarrow> merge_each cb cfg sink heap2 iters1 acc')) t
        = list_each (checked cb sink) (map snd (sort ?rest)) acc' t" for acc' t
    proof (cases "runs ! ?i")
      case Nil
      then show ?thesis using Suc(1) [of heap1 runs] Suc(2) rest(1) rest(4) [OF Nil] len by (simp add: pull_runs)
    next
      case (Cons x r)
      have "x \<in> set (runs ! ?i)" using Cons by simp
      then have "x \<in> set (concat runs)" using nth_mem [OF rest(1)] by auto
      with Suc(3) have x: "x \<in> U" unfolding merge_inv_def by blast
      have "set heap = insert e (set heap1)" using p(3) by (metis set_mset_add_mset_insert set_mset_mset)
      then have "strip ` set heap \<subseteq> U" "set heap1 \<subseteq> set heap" using Suc(3) unfolding merge_inv_def by auto
      then have "entries_fit (insert (fst x, snd x, ?i) (set_mset (mset heap1)))"
        using x by (intro entries_fitI [OF U(1)]) auto
      from hq.push_valid [OF p(2) this] obtain heap2 where h2: "heappush entry_lt heap1 (fst x, snd x, ?i) = Some heap2"
        "is_heap heap2" "mset heap2 = add_mset (fst x, snd x, ?i) (mset heap1)" by blast
      have l2: "length heap2 = length heap" using h2(3) len by (metis size_add_mset size_mset)
      have c: "mset (concat runs) = add_mset x (mset (concat (runs[?i := r])))"
        using rest(1) Cons by (rule concat_update_mset)
      then have n: "length heap2 + length (concat (runs[?i := r])) = n"
        using Suc(2) l2 by (metis add_Suc_right diff_Suc_1 size_add_mset size_mset)
      have "mset (map strip heap2 @ concat (runs[?i := r])) = mset ?rest"
        using h2(3) c by (simp add: strip_def)
      then have "sort (map strip heap2 @ concat (runs[?i := r])) = sort ?rest" by (rule sort_mset_cong)
      then show ?thesis
        using Suc(1) [OF n [symmetric] rest(5) [OF Cons h2(2,3)]] rest(1) Cons U(2) [rule_format, OF x] h2(1)
        by (simp add: pull_runs good_item_def split_beta)
    qed
    show ?thesis unfolding s list_each_Cons
      using False p(1) step by (subst merge_each.simps) (auto intro!: bindS_eqI split: flow.split)
  qed
qed

section \<open>Whole runs\<close>

definition run_at :: "sort_item set \<Rightarrow> sort_state \<Rightarrow> nat \<Rightarrow> sort_item list \<Rightarrow> bool" where
  "run_at U s p r = (map_of (st_files s) p = Some (run_text r) \<and> sorted r \<and> set r \<subseteq> U)"

lemma merge_inv_add_empty: "merge_inv cfg U heap runs \<Longrightarrow> merge_inv cfg U heap (runs @ [[]])"
  by (auto simp: merge_inv_def nth_append less_Suc_eq)

lemma merge_inv_add:
  assumes "merge_inv cfg U heap runs" and "is_heap heap'" and "mset heap' = add_mset (fst x, snd x, length runs) (mset heap)"
    and "sorted (x # r)" and "set (x # r) \<subseteq> U"
  shows "merge_inv cfg U heap' (runs @ [r])"
proof -
  have set: "set heap' = insert (fst x, snd x, length runs) (set heap)"
    using assms(3) by (metis set_mset_add_mset_insert set_mset_mset)
  have "image_mset (snd \<circ> snd) (mset heap') = add_mset (length runs) (image_mset (snd \<circ> snd) (mset heap))" by (simp add: assms(3))
  then have "mset (map (snd \<circ> snd) heap') = mset (length runs # map (snd \<circ> snd) heap)" by simp
  then have "distinct (map (snd \<circ> snd) heap') \<longleftrightarrow> distinct (length runs # map (snd \<circ> snd) heap)" by (rule mset_eq_imp_distinct_iff)
  moreover have "length runs \<notin> (snd \<circ> snd) ` set heap" using assms(1) by (auto simp: merge_inv_def)
  ultimately show ?thesis
    using assms(1,2,4,5) unfolding merge_inv_def set by (auto simp: nth_append less_Suc_eq)
qed

lemma merge_start_runs:
  assumes "agree U" and "\<forall>x \<in> U. good_item cfg x"
  shows "list_all2 (run_at U s) paths rs \<Longrightarrow> merge_inv cfg U heap runs \<Longrightarrow>
    \<exists>heap' runs'. merge_start cfg s paths heap (map (map snd) runs) = Inr (heap', map (map snd) runs')
      \<and> merge_inv cfg U heap' runs' \<and> mset (map strip heap' @ concat runs') = mset (map strip heap @ concat runs @ concat rs)"
proof (induction arbitrary: heap runs rule: list_all2_induct)
  case (Cons p ps r rs)
  have "\<forall>x \<in> set r. good_item cfg x" using Cons(1) assms(2) by (auto simp: run_at_def)
  then have o: "open_run s p = Inr (map snd r)" using Cons(1) run_lines by (simp add: open_run_def run_at_def)
  show ?case
  proof (cases r)
    case Nil
    from Cons(3) [OF merge_inv_add_empty [OF Cons(4)]] Nil o show ?thesis by simp
  next
    case (Cons x r')
    have x: "x \<in> U" "good_item cfg x" using Cons.hyps(1) assms(2) Cons by (auto simp: run_at_def)
    have "entries_fit (insert (fst x, snd x, length runs) (set_mset (mset heap)))"
      using x(1) Cons.prems by (intro entries_fitI [OF assms(1)]) (simp add: merge_inv_def)
    moreover have "is_heap heap" using Cons.prems by (simp add: merge_inv_def)
    ultimately obtain heap1 where h: "heappush entry_lt heap (fst x, snd x, length runs) = Some heap1" "is_heap heap1"
      "mset heap1 = add_mset (fst x, snd x, length runs) (mset heap)" using hq.push_valid by blast
    have "merge_inv cfg U heap1 (runs @ [r'])"
      using Cons.hyps(1) Cons by (intro merge_inv_add [OF Cons.prems h(2,3)]) (auto simp: run_at_def)
    from Cons.IH [OF this] h x(2) Cons o show ?thesis by (auto simp: good_item_def split_beta)
  qed
qed auto

theorem merge_encoded_runs_sorted:
  assumes "agree U" and "\<forall>x \<in> U. good_item cfg x" and "list_all2 (run_at U s) paths rs"
  shows "merge_encoded_runs cb cfg paths sink acc s = list_each (checked cb sink) (map snd (sort (concat rs))) acc s"
proof -
  have "merge_inv cfg U [] []" by (simp add: merge_inv_def is_heap_def)
  from merge_start_runs [OF assms this] obtain heap runs where m: "merge_start cfg s paths [] [] = Inr (heap, map (map snd) runs)"
    "merge_inv cfg U heap runs" "mset (map strip heap @ concat runs) = mset (concat rs)" by auto
  from sort_mset_cong [OF m(3)] merge_each_sorted [OF m(2) assms(1,2), of cb sink acc s] m(1)
  show ?thesis by (simp add: merge_encoded_runs_def)
qed

end
