(* ===== verification/Sort_Levels.thy ===== *)
theory Sort_Levels
  imports Sort_Merge
begin

text \<open>
  Sorting without interruption: what is stored in the runs, how runs move up the levels, and when the bound on
  their number is reached.
\<close>

section \<open>Steps that return\<close>

abbreviation quiet :: callbacks where
  \<comment> \<open>no call back raises\<close>
  "quiet \<equiv> (\<lambda>_. None)"

definition runs_to :: "'a sorter \<Rightarrow> sort_state \<Rightarrow> ('a \<Rightarrow> sort_state \<Rightarrow> bool) \<Rightarrow> bool" where
  "runs_to m s Q = (\<exists>x t. m s = (Inr x, t) \<and> Q x t)"

lemma runs_to_bind: "runs_to m s (\<lambda>x t. runs_to (f x) t Q) \<Longrightarrow> runs_to (bindS m f) s Q"
  by (auto simp: runs_to_def bindS_def)

lemma runs_to_ret: "Q x s \<Longrightarrow> runs_to (retS x) s Q"
  by (simp add: runs_to_def retS_def)

lemma runs_to_mono: "runs_to m s P \<Longrightarrow> (\<And>x t. P x t \<Longrightarrow> Q x t) \<Longrightarrow> runs_to m s Q"
  by (auto simp: runs_to_def)

lemma publish_quiet:
  "publish quiet s = (Inr (), s\<lparr>st_seen := st_seen s @ [(sum_list (map snd (st_sizes s)), length (st_sizes s))],
     st_calls := st_calls s + 1\<rparr>)"
  by (simp add: publish_def call_back_def)

section \<open>Writing a run\<close>

definition being_written :: "nat \<Rightarrow> (nat \<rightharpoonup> utext) \<Rightarrow> nat \<Rightarrow> utext \<Rightarrow> nat \<Rightarrow> sort_state \<Rightarrow> bool" where
  "being_written path files fresh content n s =
     (map_of (st_files s) = files(path \<mapsto> content) \<and> st_fresh s = fresh \<and> map_of (st_sizes s) path = Some n)"

definition writes :: "nat \<Rightarrow> (utext \<Rightarrow> nat \<Rightarrow> nat flow sorter) \<Rightarrow> bool" where
  \<comment> \<open>the consumer appends a line\<close>
  "writes path sink = (\<forall>t n s files fresh content. being_written path files fresh content n s \<longrightarrow>
     runs_to (sink t n) s (\<lambda>r s'. \<exists>n'. r = Continue n' \<and> being_written path files fresh (content @ t @ [10]) n' s'))"

lemma map_of_append_line:
  "map_of kvs p = Some c \<Longrightarrow> map_of (AList.map_default p d f kvs) = (map_of kvs)(p \<mapsto> f c)"
  by (simp add: map_of_map_default)

lemma write_encoded_writes: "writes path (\<lambda>t n. consume (write_encoded quiet path t n))"
  unfolding writes_def
proof (intro allI impI)
  fix t n s files fresh content
  assume "being_written path files fresh content n s"
  then show "runs_to (consume (write_encoded quiet path t n)) s
    (\<lambda>r s'. \<exists>n'. r = Continue n' \<and> being_written path files fresh (content @ t @ [10]) n' s')"
    by (simp add: being_written_def runs_to_def consume_def write_encoded_def Let_def bindS_def resize_artifact_def
        publish_quiet update_conv' map_of_append_line)
qed

lemma checked_writes:
  assumes "writes path sink"
  shows "writes path (checked quiet sink)"
  unfolding writes_def
proof (intro allI impI)
  fix t n s files fresh content
  assume "being_written path files fresh content n s"
  then have "being_written path files fresh content n (s\<lparr>st_calls := st_calls s + 1\<rparr>)" by (simp add: being_written_def)
  with assms have "runs_to (sink t n) (s\<lparr>st_calls := st_calls s + 1\<rparr>)
    (\<lambda>r s'. \<exists>n'. r = Continue n' \<and> being_written path files fresh (content @ t @ [10]) n' s')" unfolding writes_def by blast
  then show "runs_to (checked quiet sink t n) s
    (\<lambda>r s'. \<exists>n'. r = Continue n' \<and> being_written path files fresh (content @ t @ [10]) n' s')"
    by (simp add: runs_to_def checked_def bindS_def check_cancellation_def call_back_def)
qed

lemma list_each_writes:
  assumes "writes path sink"
  shows "being_written path files fresh content n s \<Longrightarrow>
    runs_to (list_each sink ts n) s (\<lambda>r s'. \<exists>n'. r = Continue n' \<and>
      being_written path files fresh (content @ concat (map (\<lambda>t. t @ [10]) ts)) n' s')"
proof (induction ts arbitrary: content n s)
  case (Cons t ts)
  from assms Cons(2) have "runs_to (sink t n) s
      (\<lambda>r s'. \<exists>n'. r = Continue n' \<and> being_written path files fresh (content @ t @ [10]) n' s')"
    unfolding writes_def by blast
  then obtain n' s' where 1: "sink t n s = (Inr (Continue n'), s')" "being_written path files fresh (content @ t @ [10]) n' s'"
    by (auto simp: runs_to_def)
  from Cons(1) [OF 1(2)] 1(1) show ?case by (simp add: runs_to_def bindS_def)
qed (simp add: runs_to_def retS_def)

lemma write_encoded_rows_quiet:
  assumes "\<And>s'. map_of (st_files s') = (map_of (st_files s))(st_fresh s \<mapsto> []) \<Longrightarrow>
      rows (\<lambda>t n. consume (write_encoded quiet (st_fresh s) t n)) 0 s' = list_each sink ts 0 s'"
    and "writes (st_fresh s) sink"
  shows "runs_to (write_encoded_rows quiet rows) s (\<lambda>p t. p = st_fresh s \<and> st_fresh t = st_fresh s + 1
     \<and> map_of (st_files t) = (map_of (st_files s))(p \<mapsto> concat (map (\<lambda>t. t @ [10]) ts)))"
proof -
  let ?p = "st_fresh s"
  define s1 where "s1 = snd (begin_artifact quiet ?p (s\<lparr>st_fresh := ?p + 1, st_files := AList.update ?p [] (st_files s)\<rparr>))"
  have b: "begin_artifact quiet ?p (s\<lparr>st_fresh := ?p + 1, st_files := AList.update ?p [] (st_files s)\<rparr>) = (Inr (), s1)"
    and w: "being_written ?p (map_of (st_files s)) (?p + 1) [] 0 s1"
    by (simp_all add: s1_def begin_artifact_def publish_quiet being_written_def update_conv')
  from w have "map_of (st_files s1) = (map_of (st_files s))(?p \<mapsto> [])" by (simp add: being_written_def)
  with assms(1) have r: "rows (\<lambda>t n. consume (write_encoded quiet ?p t n)) 0 s1 = list_each sink ts 0 s1" .
  from list_each_writes [OF assms(2) w, of ts] obtain n t where l: "list_each sink ts 0 s1 = (Inr (Continue n), t)"
    "being_written ?p (map_of (st_files s)) (?p + 1) (concat (map (\<lambda>t. t @ [10]) ts)) n t" by (auto simp: runs_to_def)
  then show ?thesis using b r by (simp add: runs_to_def write_encoded_rows_def Let_def bindS_def being_written_def retS_def)
qed

section \<open>What the runs store\<close>

definition stores :: "sort_item set \<Rightarrow> sort_state \<Rightarrow> nat list \<Rightarrow> sort_item multiset \<Rightarrow> bool" where
  "stores U s ps M =
     ((\<exists>g. (\<forall>p \<in> set ps. run_at U s p (g p)) \<and> (\<Sum>p \<in># mset ps. mset (g p)) = M)
      \<and> distinct ps \<and> (\<forall>p \<in> dom (map_of (st_files s)). p < st_fresh s))"

lemma stores_perm: "mset ps = mset qs \<Longrightarrow> stores U s ps M = stores U s qs M"
  using mset_eq_setD [of ps qs] mset_eq_imp_distinct_iff [of ps qs] by (simp add: stores_def)

lemma stores_runs:
  "stores U s ps M \<Longrightarrow> \<exists>rs. list_all2 (run_at U s) ps rs \<and> mset (concat rs) = M"
proof -
  assume "stores U s ps M"
  then obtain g where g: "\<forall>p \<in> set ps. run_at U s p (g p)" "(\<Sum>p \<in># mset ps. mset (g p)) = M"
    unfolding stores_def by blast
  have "list_all2 (run_at U s) ps (map g ps)" using g(1) by (simp add: list_all2_conv_all_nth)
  moreover have "mset (concat (map g ps)) = (\<Sum>p \<in># mset ps. mset (g p))" by (induction ps) simp_all
  then have "mset (concat (map g ps)) = M" using g(2) by simp
  ultimately show ?thesis by blast
qed

lemma stores_add:
  assumes "stores U s ps M" and "map_of (st_files t) = (map_of (st_files s))(st_fresh s \<mapsto> run_text r)"
    and "st_fresh t = st_fresh s + 1" and "sorted r" and "set r \<subseteq> U"
  shows "stores U t (st_fresh s # ps) (mset r + M)"
proof -
  let ?p = "st_fresh s"
  from assms(1) obtain g where g: "\<forall>p \<in> set ps. run_at U s p (g p)" "(\<Sum>p \<in># mset ps. mset (g p)) = M" "distinct ps"
    "\<forall>p \<in> dom (map_of (st_files s)). p < ?p" unfolding stores_def by blast
  have new: "?p \<notin> set ps" using g(1,4) by (fastforce simp: run_at_def)
  have "(\<Sum>p \<in># mset ps. mset ((g(?p := r)) p)) = (\<Sum>p \<in># mset ps. mset (g p))"
    using new by (intro arg_cong [of _ _ sum_mset] image_mset_cong) auto
  then have "(\<Sum>p \<in># mset (?p # ps). mset ((g(?p := r)) p)) = mset r + M" using g(2) by simp
  moreover have "\<forall>p \<in> set (?p # ps). run_at U t p ((g(?p := r)) p)"
    using g(1) new assms(2,4,5) by (auto simp: run_at_def)
  moreover have "\<forall>p \<in> dom (map_of (st_files t)). p < st_fresh t"
    using g(4) by (auto simp: assms(2,3) intro: less_SucI)
  ultimately show ?thesis using new g(3) unfolding stores_def by (intro conjI exI [of _ "g(?p := r)"]) auto
qed

lemma remove_runs_quiet:
  "runs_to (remove_runs quiet ps) s (\<lambda>_ t. st_fresh t = st_fresh s
     \<and> (\<forall>q. map_of (st_files t) q = (if q \<in> set ps then None else map_of (st_files s) q)))"
proof (induction ps arbitrary: s)
  case (Cons p ps)
  define s1 where "s1 = snd (remove_artifact quiet p (s\<lparr>st_files := AList.delete p (st_files s)\<rparr>))"
  have 1: "remove_artifact quiet p (s\<lparr>st_files := AList.delete p (st_files s)\<rparr>) = (Inr (), s1)"
    "st_fresh s1 = st_fresh s" "map_of (st_files s1) = (map_of (st_files s))(p := None)"
    by (simp_all add: s1_def remove_artifact_def publish_quiet delete_conv')
  from Cons [of s1] obtain t where "remove_runs quiet ps s1 = (Inr (), t)" "st_fresh t = st_fresh s1"
    "\<forall>q. map_of (st_files t) q = (if q \<in> set ps then None else map_of (st_files s1) q)" by (auto simp: runs_to_def)
  with 1 show ?case by (simp add: runs_to_def bindS_def unlink_def)
qed (simp add: runs_to_def retS_def)

lemma write_run_quiet:
  assumes "stores U s ps M" and "set rows \<subseteq> U" and "agree U"
  shows "runs_to (write_run quiet rows) s (\<lambda>p t. stores U t (p # ps) (mset rows + M))"
proof -
  have "sort_rows rows = Inr (sort rows)"
    using assms(2,3) by (auto simp: sort_rows_def agree_def list_ex_iff)
  moreover have "runs_to (write_encoded_rows quiet (\<lambda>sink. list_each sink (map snd (sort rows)))) s
      (\<lambda>p t. p = st_fresh s \<and> st_fresh t = st_fresh s + 1
         \<and> map_of (st_files t) = (map_of (st_files s))(p \<mapsto> concat (map (\<lambda>t. t @ [10]) (map snd (sort rows)))))"
    by (rule write_encoded_rows_quiet) (rule refl, rule write_encoded_writes)
  ultimately show ?thesis
    using stores_add [OF assms(1), of _ "sort rows"] assms(2)
    by (auto simp: write_run_def runs_to_def run_text_def comp_def)
qed

lemma merge_members_quiet:
  assumes s: "stores U s (members @ ps) M" and U: "agree U" "\<forall>x \<in> U. good_item cfg x"
  shows "\<exists>out t. stores U t (out # ps) M
    \<and> bindS (write_merged_run quiet cfg members) (\<lambda>out. bindS (remove_runs quiet members) (\<lambda>_. f out)) s = f out t"
proof -
  from s obtain g where g: "\<forall>p \<in> set (members @ ps). run_at U s p (g p)" "(\<Sum>p \<in># mset (members @ ps). mset (g p)) = M"
    "distinct (members @ ps)" "\<forall>p \<in> dom (map_of (st_files s)). p < st_fresh s" unfolding stores_def by blast
  let ?rs = "map g members" and ?p = "st_fresh s"
  let ?r = "sort (concat ?rs)"
  have new: "?p \<notin> set (members @ ps)" using g(1,4) by (fastforce simp: run_at_def)
  have "merge_encoded_runs quiet cfg members sink acc s' = list_each (checked quiet sink) (map snd ?r) acc s'"
    if "map_of (st_files s') = (map_of (st_files s))(?p \<mapsto> [])" for s' and sink :: "utext \<Rightarrow> nat \<Rightarrow> nat flow sorter" and acc
    using g(1) new that
    by (intro merge_encoded_runs_sorted [OF U]) (auto simp: list_all2_map2 list_all2_same run_at_def)
  then have "runs_to (write_merged_run quiet cfg members) s (\<lambda>p t. p = ?p \<and> st_fresh t = ?p + 1
      \<and> map_of (st_files t) = (map_of (st_files s))(p \<mapsto> concat (map (\<lambda>t. t @ [10]) (map snd ?r))))"
    unfolding write_merged_run_def
    by (rule write_encoded_rows_quiet) (assumption, intro checked_writes write_encoded_writes)
  then obtain s1 where s1: "write_merged_run quiet cfg members s = (Inr ?p, s1)" "st_fresh s1 = ?p + 1"
    "map_of (st_files s1) = (map_of (st_files s))(?p \<mapsto> run_text ?r)" by (auto simp: runs_to_def run_text_def comp_def)
  from remove_runs_quiet [of members s1] obtain t where t: "remove_runs quiet members s1 = (Inr (), t)" "st_fresh t = st_fresh s1"
    "\<forall>q. map_of (st_files t) q = (if q \<in> set members then None else map_of (st_files s1) q)" by (auto simp: runs_to_def)
  have "stores U t (?p # ps) M" unfolding stores_def
  proof (intro conjI exI [of _ "g(?p := ?r)"])
    have "mset (concat (map g members)) = (\<Sum>p \<in># mset members. mset (g p))" by (induction members) simp_all
    moreover have "(\<Sum>p \<in># mset ps. mset ((g(?p := ?r)) p)) = (\<Sum>p \<in># mset ps. mset (g p))"
      using new by (intro arg_cong [of _ _ sum_mset] image_mset_cong) auto
    ultimately show "(\<Sum>p \<in># mset (?p # ps). mset ((g(?p := ?r)) p)) = M" using g(2) by simp
    show "distinct (?p # ps)" using g(3) new by simp
    show "\<forall>p \<in> dom (map_of (st_files t)). p < st_fresh t"
      using g(4) t s1 by (auto simp: dom_def less_Suc_eq split: if_splits)
    show "\<forall>p \<in> set (?p # ps). run_at U t p ((g(?p := ?r)) p)"
      using g(1,3) new t(3) s1(3) by (auto simp: run_at_def)
  qed
  with s1(1) t(1) show ?thesis by (auto simp: bindS_def)
qed

section \<open>Levels\<close>

fun weight :: "nat \<Rightarrow> nat list list \<Rightarrow> nat" where
  \<comment> \<open>how many runs of the lowest level went into the levels\<close>
  "weight f [] = 0"
| "weight f (l # ls) = length l + f * weight f ls"

definition fan_in :: "sort_config \<Rightarrow> nat" where
  "fan_in cfg = nat (sc_merge_fan_in cfg)"

definition level_ok :: "nat \<Rightarrow> nat list list \<Rightarrow> bool" where
  "level_ok f ls = (\<forall>l \<in> set ls. length l < f)"

lemma digit_bound:
  assumes "(a::nat) < f" and "w < n"
  shows "a + f * w < f * n"
proof -
  have "a + f * w < f * (w + 1)" using assms(1) by simp
  also have "\<dots> \<le> f * n" using assms(2) by (intro mult_le_mono2) simp
  finally show ?thesis .
qed

lemma weight_bound: "level_ok f ls \<Longrightarrow> weight f ls < f ^ length ls"
  by (induction ls) (simp_all add: level_ok_def digit_bound)

lemma stores_tail_perm: "stores U s (path # concat (pre @ l # ls)) M = stores U s ((l @ [path]) @ concat (pre @ [] # ls)) M"
  by (rule stores_perm) simp

lemma add_run_quiet:
  assumes U: "agree U" "\<forall>x \<in> U. good_item cfg x" and fan: "2 \<le> sc_merge_fan_in cfg"
  shows "level_ok (fan_in cfg) ls \<Longrightarrow> stores U s (path # concat (pre @ ls)) M \<Longrightarrow>
    (if weight (fan_in cfg) ls + 1 < fan_in cfg ^ length ls
     then runs_to (add_run quiet cfg (pre @ ls) path (length pre)) s (\<lambda>lv t. \<exists>ls'. lv = pre @ ls' \<and> length ls' = length ls
        \<and> level_ok (fan_in cfg) ls' \<and> weight (fan_in cfg) ls' = weight (fan_in cfg) ls + 1 \<and> stores U t (concat lv) M)
     else \<exists>t. add_run quiet cfg (pre @ ls) path (length pre) s = (Inl run_bound_error, t))"
proof (induction ls arbitrary: pre path s)
  case Nil
  then show ?case by (subst add_run.simps) (simp add: raiseS_def)
next
  case (Cons l ls)
  let ?f = "fan_in cfg"
  have f: "2 \<le> ?f" "sc_merge_fan_in cfg = int ?f" using fan by (simp_all add: fan_in_def)
  show ?case
  proof (cases "length l + 1 < ?f")
    case True
    have "weight ?f ls < ?f ^ length ls" using Cons(2) by (intro weight_bound) (simp add: level_ok_def)
    with digit_bound [OF True, of "weight ?f ls"] have w: "weight ?f (l # ls) + 1 < ?f ^ length (l # ls)" by simp
    have "add_run quiet cfg (pre @ l # ls) path (length pre) s = (Inr (pre @ (l @ [path]) # ls), s)"
      using True f by (subst add_run.simps) (simp add: Let_def retS_def list_update_append)
    moreover have "stores U s (concat (pre @ (l @ [path]) # ls)) M"
      using Cons(3) by (subst stores_perm [of _ "path # concat (pre @ l # ls)"]) simp_all
    ultimately show ?thesis using w Cons(2) True
      by (simp add: runs_to_def level_ok_def)
  next
    case False
    then have l: "length l + 1 = ?f" using Cons(2) by (simp add: level_ok_def)
    have "weight ?f (l # ls) + 1 = ?f * (weight ?f ls + 1)" using l by (simp add: algebra_simps)
    moreover have "?f ^ length (l # ls) = ?f * ?f ^ length ls" by simp
    moreover have "0 < ?f" using f(1) by simp
    ultimately have w: "weight ?f (l # ls) + 1 < ?f ^ length (l # ls) \<longleftrightarrow> weight ?f ls + 1 < ?f ^ length ls"
      by (simp only: nat_mult_less_cancel_disj simp_thms)
    have step: "add_run quiet cfg (pre @ l # ls) path (length pre) s = bindS (write_merged_run quiet cfg (l @ [path])) (\<lambda>out.
        bindS (remove_runs quiet (l @ [path])) (\<lambda>_. add_run quiet cfg (pre @ [] # ls) out (length pre + 1))) s"
      using l f(2) by (subst add_run.simps) (simp add: Let_def list_update_append)
    from Cons(3) have "stores U s ((l @ [path]) @ concat (pre @ [] # ls)) M" by (simp only: stores_tail_perm)
    from merge_members_quiet [OF this U, of "\<lambda>out. add_run quiet cfg (pre @ [] # ls) out (length pre + 1)"]
    obtain out t where t: "stores U t (out # concat (pre @ [] # ls)) M"
      "add_run quiet cfg (pre @ l # ls) path (length pre) s = add_run quiet cfg (pre @ [] # ls) out (length pre + 1) t"
      unfolding step by blast
    from Cons(1) [of t out "pre @ [[]]"] t Cons(2) l show ?thesis
      unfolding w by (simp add: level_ok_def) (auto simp: runs_to_def level_ok_def)
  qed
qed

lemma finalize_quiet:
  assumes U: "agree U" "\<forall>x \<in> U. good_item cfg x"
  shows "stores U s (concat levels @ others) M \<Longrightarrow>
    runs_to (finalize_run_levels quiet cfg levels) s (\<lambda>final t. stores U t (final @ others) M)"
proof (induction levels arbitrary: s others)
  case (Cons members rest)
  show ?case
  proof (cases "length members \<le> 1")
    case True
    have "stores U s (concat rest @ members @ others) M" using Cons(2) by (subst stores_perm [of _ "concat (members # rest) @ others"]) simp_all
    from Cons(1) [OF this] obtain final t where f: "finalize_run_levels quiet cfg rest s = (Inr final, t)"
      "stores U t (final @ members @ others) M" by (auto simp: runs_to_def)
    then have "stores U t ((members @ final) @ others) M" by (subst stores_perm [of _ "final @ members @ others"]) simp_all
    with f(1) True show ?thesis by (simp add: runs_to_def bindS_def retS_def)
  next
    case False
    have "stores U s (members @ concat rest @ others) M" using Cons(2) by simp
    from merge_members_quiet [OF this U, of "\<lambda>out. bindS (finalize_run_levels quiet cfg rest) (\<lambda>final. retS (out # final))"]
    obtain out t where t: "stores U t (out # concat rest @ others) M"
      "finalize_run_levels quiet cfg (members # rest) s = bindS (finalize_run_levels quiet cfg rest) (\<lambda>final. retS (out # final)) t"
      using False by auto
    have "stores U t (concat rest @ out # others) M" using t(1) by (subst stores_perm [of _ "out # concat rest @ others"]) simp_all
    from Cons(1) [OF this] obtain final u where f: "finalize_run_levels quiet cfg rest t = (Inr final, u)"
      "stores U u (final @ out # others) M" by (auto simp: runs_to_def)
    then have "stores U u ((out # final) @ others) M" by (subst stores_perm [of _ "final @ out # others"]) simp_all
    with f(1) t(2) show ?thesis by (simp add: runs_to_def bindS_def retS_def)
  qed
qed (simp add: runs_to_def retS_def)

section \<open>Cutting the input into runs\<close>

definition item_bytes :: "sort_item list \<Rightarrow> nat" where
  "item_bytes xs = sum_list (map (length \<circ> snd) xs)"

definition cut_step :: "int \<Rightarrow> sort_item list \<Rightarrow> sort_item \<Rightarrow> nat \<times> sort_item list" where
  \<comment> \<open>a row that does not fit starts a new run, and a full run is complete\<close>
  "cut_step limit buffer x =
     (let full = (buffer \<noteq> [] \<and> limit < int (item_bytes buffer + length (snd x)));
          buffer2 = (if full then [] else buffer) @ [x];
          n = (if full then 1 else 0)
      in if limit \<le> int (item_bytes buffer2) then (n + 1, []) else (n, buffer2))"

fun cut_runs :: "int \<Rightarrow> sort_item list \<Rightarrow> sort_item list \<Rightarrow> nat \<times> sort_item list" where
  \<comment> \<open>how many runs the items fill, and which are left\<close>
  "cut_runs limit buffer [] = (0, buffer)"
| "cut_runs limit buffer (x # xs) =
     (case cut_step limit buffer x of (n, buffer') \<Rightarrow>
      case cut_runs limit buffer' xs of (m, rest) \<Rightarrow> (n + m, rest))"

definition run_total :: "int \<Rightarrow> sort_item list \<Rightarrow> nat" where
  "run_total limit xs = (case cut_runs limit [] xs of (n, rest) \<Rightarrow> if n = 0 \<or> rest = [] then n else n + 1)"

definition buffer_ok :: "sort_item set \<Rightarrow> sort_config \<Rightarrow> sort_state \<Rightarrow> sort_buffer \<Rightarrow> nat \<Rightarrow> sort_item multiset \<Rightarrow> bool" where
  \<comment> \<open>\<open>n\<close> runs were written and hold, with the buffer, the items of \<open>M\<close>\<close>
  "buffer_ok U cfg s b n M =
     (level_ok (fan_in cfg) (sb_levels b) \<and> length (sb_levels b) = MAX_RUN_LEVELS
      \<and> weight (fan_in cfg) (sb_levels b) = n \<and> sb_has_runs b = (0 < n)
      \<and> set (sb_buffered b) \<subseteq> U \<and> sb_bytes b = item_bytes (sb_buffered b)
      \<and> (\<exists>M'. M = mset (sb_buffered b) + M' \<and> stores U s (concat (sb_levels b)) M'))"

abbreviation run_bound :: "sort_config \<Rightarrow> nat" where
  "run_bound cfg \<equiv> fan_in cfg ^ MAX_RUN_LEVELS"

lemma flush_quiet:
  assumes U: "agree U" "\<forall>x \<in> U. good_item cfg x" and fan: "2 \<le> sc_merge_fan_in cfg" and b: "buffer_ok U cfg s b n M"
  shows "if n + 1 < run_bound cfg
    then runs_to (flush quiet cfg b) s (\<lambda>b' t. buffer_ok U cfg t b' (n + 1) M \<and> sb_buffered b' = [])
    else \<exists>t. flush quiet cfg b s = (Inl run_bound_error, t)"
proof -
  from b obtain M' where M: "M = mset (sb_buffered b) + M'" "stores U s (concat (sb_levels b)) M'"
    and l: "level_ok (fan_in cfg) (sb_levels b)" "length (sb_levels b) = MAX_RUN_LEVELS" "weight (fan_in cfg) (sb_levels b) = n"
    and sub: "set (sb_buffered b) \<subseteq> U" unfolding buffer_ok_def by blast
  from write_run_quiet [OF M(2) sub U(1)] obtain path s1 where w: "write_run quiet (sb_buffered b) s = (Inr path, s1)"
    "stores U s1 (path # concat (sb_levels b)) M" using M(1) by (auto simp: runs_to_def)
  show ?thesis
  proof (cases "n + 1 < run_bound cfg")
    case True
    with add_run_quiet [OF U fan l(1), of s1 path "[]" M] w(2) l(2,3) obtain lv t where
      t: "add_run quiet cfg (sb_levels b) path 0 s1 = (Inr lv, t)" "length lv = MAX_RUN_LEVELS" "level_ok (fan_in cfg) lv"
      "weight (fan_in cfg) lv = n + 1" "stores U t (concat lv) M" by (auto simp: runs_to_def)
    then show ?thesis using True w(1)
      by (simp add: flush_def runs_to_def bindS_def retS_def buffer_ok_def item_bytes_def)
  next
    case False
    with add_run_quiet [OF U fan l(1), of s1 path "[]" M] w(2) l(2,3)
    obtain t where "add_run quiet cfg (sb_levels b) path 0 s1 = (Inl run_bound_error, t)" by auto
    then show ?thesis using False w(1) by (simp add: flush_def bindS_def)
  qed
qed

lemma absorb_item_quiet:
  assumes U: "agree U" "\<forall>x \<in> U. good_item cfg x" and fan: "2 \<le> sc_merge_fan_in cfg"
    and b: "buffer_ok U cfg s b n M" and x: "x \<in> U" and cut: "cut_step (sc_run_byte_limit cfg) (sb_buffered b) x = (k, rest)"
  shows "if n + k < run_bound cfg
    then runs_to (absorb_item quiet cfg x b) s (\<lambda>b' t. buffer_ok U cfg t b' (n + k) (add_mset x M) \<and> sb_buffered b' = rest)
    else \<exists>t. absorb_item quiet cfg x b s = (Inl run_bound_error, t)"
proof -
  let ?L = "sc_run_byte_limit cfg"
  define full where "full = (sb_buffered b \<noteq> [] \<and> ?L < int (sb_bytes b + length (snd x)))"
  define first where "first = (if full then flush quiet cfg b else retS b)"
  define add where "add b1 = b1\<lparr>sb_buffered := sb_buffered b1 @ [x], sb_bytes := sb_bytes b1 + length (snd x)\<rparr>" for b1 :: sort_buffer
  have absorb: "absorb_item quiet cfg x b =
      bindS first (\<lambda>b1. if ?L \<le> int (sb_bytes (add b1)) then flush quiet cfg (add b1) else retS (add b1))"
    unfolding absorb_item_def first_def full_def add_def Let_def by (rule refl)
  have bytes: "sb_bytes b = item_bytes (sb_buffered b)" using b by (simp add: buffer_ok_def)
  let ?j = "if full then 1 else 0 :: nat"
  let ?buf = "(if full then [] else sb_buffered b) @ [x]"
  have cut': "(k, rest) = (if ?L \<le> int (item_bytes ?buf) then (?j + 1, []) else (?j, ?buf))"
    using cut [symmetric] unfolding cut_step_def Let_def bytes [symmetric] full_def [symmetric] .
  have one: "if n + ?j < run_bound cfg then runs_to first s (\<lambda>b1 t. buffer_ok U cfg t b1 (n + ?j) M \<and> sb_buffered b1 @ [x] = ?buf)
      else \<exists>t. first s = (Inl run_bound_error, t)"
    using flush_quiet [OF U fan b] b weight_bound [of "fan_in cfg" "sb_levels b"]
    by (auto simp: first_def runs_to_def retS_def buffer_ok_def)
  show ?thesis
  proof (cases "n + ?j < run_bound cfg")
    case False
    then obtain t where "first s = (Inl run_bound_error, t)" using one by auto
    then show ?thesis using False cut' unfolding absorb by (auto simp: bindS_def split: if_splits)
  next
    case True
    then obtain b1 t where 1: "first s = (Inr b1, t)" "buffer_ok U cfg t b1 (n + ?j) M" "sb_buffered b1 @ [x] = ?buf"
      using one by (auto simp: runs_to_def)
    have 2: "buffer_ok U cfg t (add b1) (n + ?j) (add_mset x M)" "sb_buffered (add b1) = ?buf"
      using 1(2,3) x by (auto simp: buffer_ok_def add_def item_bytes_def)
    have 3: "sb_bytes (add b1) = item_bytes ?buf" using 2 by (simp add: buffer_ok_def)
    show ?thesis
    proof (cases "?L \<le> int (item_bytes ?buf)")
      case True
      then show ?thesis using flush_quiet [OF U fan 2(1)] 1(1) 3 cut' unfolding absorb
        by (auto simp: bindS_def runs_to_def)
    next
      case False
      then show ?thesis using True 1(1) 2 3 cut' unfolding absorb by (auto simp: bindS_def runs_to_def retS_def)
    qed
  qed
qed

end
