(* ===== verification/Sort_Properties.thy ===== *)
theory Sort_Properties
  imports Sort_Levels
begin

text \<open>
  The external sort as a whole: it yields the rows in the order of one in-memory sort or reports that the bound
  on the number of runs is exceeded, whatever the byte limit and the fan-in.
\<close>

section \<open>Rows that encode\<close>

definition row_item :: "sort_config \<Rightarrow> jval list \<Rightarrow> sort_item result" where
  \<comment> \<open>the key and the canonical encoding of a row\<close>
  "row_item cfg vs = bindE (sort_key_of cfg (map Value vs)) (\<lambda>key. Inr (key, dumps (canonical (NArr vs))))"

definition proper_row :: "sort_config \<Rightarrow> jval list \<Rightarrow> bool" where
  \<comment> \<open>of the right length, with a valid key, of values that can be read back\<close>
  "proper_row cfg vs =
     (int (length vs) = sc_field_count cfg \<and> list_all readable vs \<and> \<not> isl (sort_key_of cfg (map Value vs)))"

definition items_of :: "sort_config \<Rightarrow> jval list list \<Rightarrow> sort_item list" where
  "items_of cfg rows = concat (map (\<lambda>vs. case row_item cfg vs of Inr x \<Rightarrow> [x] | Inl _ \<Rightarrow> []) rows)"

lemma readable_canonical: "readable v \<Longrightarrow> readable (canonical v)"
  by (induction v rule: canonical.induct) (fastforce simp: list_all_iff split_beta)+

lemma py_index_map: "py_index (map f xs) i = map_option f (py_index xs i)"
  by (auto simp: py_index_def Let_def)

lemma key_atom_canonical: "key_atom (Value (canonical v)) = key_atom (Value v)"
  by (cases v) simp_all

lemma those_map_option: "those (map (\<lambda>x. map_option f (g x)) xs) = map_option (map f) (those (map g xs))"
  by (induction xs) (auto simp: option.map_comp comp_def split: option.splits)

lemma sort_key_canonical: "sort_key_of cfg (map Value (map canonical vs)) = sort_key_of cfg (map Value vs)"
proof -
  have "those (map (py_index (map (Value \<circ> f) vs)) is) = map_option (map (Value \<circ> f)) (those (map (py_index vs) is))"
    for f :: "jval \<Rightarrow> jval" and "is"
    unfolding py_index_map by (rule those_map_option)
  from this [of canonical] this [of id] show ?thesis
    by (simp add: sort_key_of_def comp_def key_atom_canonical split: option.split)
qed

lemma row_good:
  assumes "proper_row cfg vs" and "row_item cfg vs = Inr x"
  shows "good_item cfg x"
proof -
  have r: "readable (canonical (NArr vs))"
    using assms(1) by (intro readable_canonical) (simp add: proper_row_def)
  then have "loads (dumps (canonical (NArr vs))) = Some (NArr (map canonical vs))" by (subst loads_readable) simp_all
  then show ?thesis
    using assms dumps_printable(1) [OF r] sort_key_canonical [of cfg vs]
    by (auto simp: good_item_def read_line_def decode_row_def row_item_def proper_row_def result_simps)
qed

lemma encode_chunks_quiet: "\<exists>c. encode_chunks quiet ts s = (Inr (concat ts), s\<lparr>st_calls := c\<rparr>)"
proof (induction ts arbitrary: s)
  case Nil
  show ?case by (intro exI [of _ "st_calls s"]) (simp add: retS_def)
next
  case (Cons t ts)
  from Cons [of "s\<lparr>st_calls := st_calls s + 1\<rparr>"] show ?case
    by (auto simp: bindS_def check_cancellation_def call_back_def retS_def)
qed

lemma encode_row_quiet:
  assumes "proper_row cfg vs" and "row_item cfg vs = Inr x"
  shows "\<exists>c. encode_row quiet cfg (Row (map Value vs)) s = (Inr x, s\<lparr>st_calls := c\<rparr>)"
proof -
  let ?ps = "row_parts (map Value vs)"
  from encode_chunks_quiet [of "concat (map iter_text_chunks (fst ?ps))" s] obtain c where
    "encode_chunks quiet (concat (map iter_text_chunks (fst ?ps))) s = (Inr (dumps (canonical (NArr vs))), s\<lparr>st_calls := c\<rparr>)"
    by (auto simp: concat_part_chunks row_parts_values)
  then have "encode_value quiet ?ps s = (Inr (dumps (canonical (NArr vs))), s\<lparr>st_calls := c + 1\<rparr>)"
    using row_parts_values(2) [of vs]
    by (simp add: encode_value_def bindS_def check_cancellation_def call_back_def retS_def)
  then show ?thesis
    using assms by (auto simp: encode_row_def proper_row_def row_item_def bindS_def liftS_def retS_def result_simps)
qed

section \<open>Whole inputs\<close>

definition source_of :: "jval list list \<Rightarrow> row result list" where
  "source_of rows = map (\<lambda>vs. Inr (Row (map Value vs))) rows"

lemma proper_item: "proper_row cfg vs \<Longrightarrow> \<exists>x. row_item cfg vs = Inr x"
  by (cases "sort_key_of cfg (map Value vs)") (auto simp: proper_row_def row_item_def)

lemma items_of_Cons: "row_item cfg vs = Inr x \<Longrightarrow> items_of cfg (vs # rows) = x # items_of cfg rows"
  by (simp add: items_of_def)

lemma buffer_calls: "buffer_ok U cfg (s\<lparr>st_calls := c\<rparr>) b n M = buffer_ok U cfg s b n M"
  by (simp add: buffer_ok_def stores_def run_at_def)

lemma absorb_rows_quiet:
  assumes U: "agree U" "\<forall>x \<in> U. good_item cfg x" and fan: "2 \<le> sc_merge_fan_in cfg"
  shows "list_all (proper_row cfg) rows \<Longrightarrow> set (items_of cfg rows) \<subseteq> U \<Longrightarrow> buffer_ok U cfg s b n M \<Longrightarrow>
    cut_runs (sc_run_byte_limit cfg) (sb_buffered b) (items_of cfg rows) = (k, rest) \<Longrightarrow>
    if n + k < run_bound cfg
    then runs_to (absorb_rows quiet cfg (source_of rows) b) s
      (\<lambda>b' t. buffer_ok U cfg t b' (n + k) (mset (items_of cfg rows) + M) \<and> sb_buffered b' = rest)
    else \<exists>t. absorb_rows quiet cfg (source_of rows) b s = (Inl run_bound_error, t)"
proof (induction rows arbitrary: s b n M k)
  case Nil
  then show ?case using weight_bound [of "fan_in cfg" "sb_levels b"]
    by (auto simp: source_of_def items_of_def runs_to_def retS_def buffer_ok_def)
next
  case (Cons vs rows)
  from Cons(2) have "proper_row cfg vs" by simp
  from proper_item [OF this] this obtain x where x: "row_item cfg vs = Inr x" "proper_row cfg vs" by blast
  obtain i buf where i: "cut_step (sc_run_byte_limit cfg) (sb_buffered b) x = (i, buf)" by fastforce
  obtain m where m: "cut_runs (sc_run_byte_limit cfg) buf (items_of cfg rows) = (m, rest)" and k: "k = i + m"
    using Cons(5) i by (auto simp: items_of_Cons [OF x(1)] split: prod.splits)
  obtain c where enc: "encode_row quiet cfg (Row (map Value vs)) (s\<lparr>st_calls := st_calls s + 1\<rparr>) = (Inr x, s\<lparr>st_calls := c\<rparr>)"
    using encode_row_quiet [OF x(2,1), of "s\<lparr>st_calls := st_calls s + 1\<rparr>"] by auto
  let ?s = "s\<lparr>st_calls := c\<rparr>"
  have step: "absorb_rows quiet cfg (source_of (vs # rows)) b s
      = bindS (absorb_item quiet cfg x b) (\<lambda>b'. absorb_rows quiet cfg (source_of rows) b') ?s"
    using enc by (simp add: source_of_def bindS_def check_cancellation_def call_back_def)
  have U': "x \<in> U" "set (items_of cfg rows) \<subseteq> U" using Cons(3) by (simp_all add: items_of_Cons [OF x(1)])
  note one = absorb_item_quiet [OF U fan, of ?s b n M x i buf, unfolded buffer_calls, OF Cons(4) U'(1) i]
  show ?case
  proof (cases "n + i < run_bound cfg")
    case False
    with one obtain t where "absorb_item quiet cfg x b ?s = (Inl run_bound_error, t)" by auto
    with False show ?thesis unfolding step k by (simp add: bindS_def)
  next
    case True
    with one obtain b' t where b': "absorb_item quiet cfg x b ?s = (Inr b', t)" "buffer_ok U cfg t b' (n + i) (add_mset x M)"
      "sb_buffered b' = buf" by (auto simp: runs_to_def)
    from Cons(1) [OF _ U'(2) b'(2), of m] Cons(2) b'(3) m b'(1) show ?thesis
      unfolding k runs_to_def step by (auto simp: bindS_def items_of_Cons [OF x(1)] add.assoc split: if_splits)
  qed
qed

lemma weight_zero: "weight f ls = 0 \<Longrightarrow> 0 < f \<Longrightarrow> concat ls = []"
  by (induction ls) auto

lemma finish_quiet:
  assumes U: "agree U" "\<forall>x \<in> U. good_item cfg x" and b: "buffer_ok U cfg s b n (mset xs)" and "sb_buffered b = []"
  shows "\<exists>t. bindS (finalize_run_levels quiet cfg (sb_levels b)) (\<lambda>runs. merge_encoded_runs quiet cfg runs sink acc) s
    = list_each (checked quiet sink) (map snd (sort xs)) acc t"
proof -
  have "stores U s (concat (sb_levels b) @ []) (mset xs)" using b assms(4) by (simp add: buffer_ok_def)
  from finalize_quiet [OF U this] obtain final t where f: "finalize_run_levels quiet cfg (sb_levels b) s = (Inr final, t)"
    "stores U t final (mset xs)" by (auto simp: runs_to_def)
  from stores_runs [OF f(2)] obtain rs where rs: "list_all2 (run_at U t) final rs" "mset (concat rs) = mset xs" by blast
  from merge_encoded_runs_sorted [OF U rs(1), of quiet sink acc] sort_mset_cong [OF rs(2)] f(1)
  show ?thesis by (auto simp: bindS_def)
qed

lemma items_good: "list_all (proper_row cfg) rows \<Longrightarrow> \<forall>x \<in> set (items_of cfg rows). good_item cfg x"
  using row_good by (auto simp: items_of_def list_all_iff split: sum.splits)

lemma empty_buffer_ok: "2 \<le> sc_merge_fan_in cfg \<Longrightarrow> st_files s = [] \<Longrightarrow> buffer_ok U cfg s empty_buffer 0 {#}"
  by (auto simp: buffer_ok_def empty_buffer_def level_ok_def MAX_RUN_LEVELS_def fan_in_def item_bytes_def
      stores_def numeral_eq_Suc)

lemma sort_body_quiet:
  assumes U: "agree (set (items_of cfg rows))" and proper: "list_all (proper_row cfg) rows"
    and cfg: "valid_config cfg" and s: "st_files s = []"
  shows "if run_total (sc_run_byte_limit cfg) (items_of cfg rows) < run_bound cfg
    then \<exists>t. sort_body quiet cfg (source_of rows) sink acc s
           = list_each (checked quiet sink) (map snd (sort (items_of cfg rows))) acc t
    else \<exists>t. sort_body quiet cfg (source_of rows) sink acc s = (Inl run_bound_error, t)"
proof -
  let ?U = "set (items_of cfg rows)" and ?b = empty_buffer
  have fan: "2 \<le> sc_merge_fan_in cfg" using cfg by (simp add: valid_config_def)
  have good: "\<forall>x \<in> ?U. good_item cfg x" using proper by (rule items_good)
  obtain n rest where cut: "cut_runs (sc_run_byte_limit cfg) [] (items_of cfg rows) = (n, rest)" by fastforce
  note start = empty_buffer_ok [OF fan s]
  note absorb = absorb_rows_quiet [OF U good fan proper subset_refl start, of n rest]
  have total: "run_total (sc_run_byte_limit cfg) (items_of cfg rows) = (if n = 0 \<or> rest = [] then n else n + 1)"
    by (simp add: run_total_def cut)
  show ?thesis
  proof (cases "n < run_bound cfg")
    case False
    with absorb cut obtain t where "absorb_rows quiet cfg (source_of rows) ?b s = (Inl run_bound_error, t)"
      by (auto simp: empty_buffer_def)
    with False show ?thesis by (simp add: total sort_body_def bindS_def)
  next
    case True
    with absorb cut obtain b t where b: "absorb_rows quiet cfg (source_of rows) ?b s = (Inr b, t)"
      "buffer_ok ?U cfg t b n (mset (items_of cfg rows))" "sb_buffered b = rest"
      by (auto simp: empty_buffer_def runs_to_def)
    show ?thesis
    proof (cases "n = 0")
      case True
      then have "concat (sb_levels b) = []"
        using b(2) fan by (intro weight_zero [of "fan_in cfg"]) (simp_all add: buffer_ok_def fan_in_def)
      moreover obtain M where "mset (items_of cfg rows) = mset (sb_buffered b) + M" "stores ?U t (concat (sb_levels b)) M"
        using b(2) unfolding buffer_ok_def by blast
      ultimately have m: "mset (sb_buffered b) = mset (items_of cfg rows)" "\<not> sb_has_runs b"
        using True b(2) by (simp_all only: stores_def buffer_ok_def) simp_all
      then have "sort_rows (sb_buffered b) = Inr (sort (items_of cfg rows))"
        using U sort_mset_cong [OF m(1)] mset_eq_setD [OF m(1)] by (auto simp: sort_rows_def agree_def list_ex_iff)
      then have "sort_body quiet cfg (source_of rows) sink acc s
          = list_each (checked quiet sink) (map snd (sort (items_of cfg rows))) acc t"
        using b(1) m(2) by (simp add: sort_body_def bindS_def liftS_def)
      then show ?thesis using True \<open>n < run_bound cfg\<close> unfolding total by auto
    next
      case n: False
      then have h: "sb_has_runs b" using b(2) by (simp add: buffer_ok_def)
      have body: "sort_body quiet cfg (source_of rows) sink acc s = bindS (if rest \<noteq> [] then flush quiet cfg b else retS b) (\<lambda>b'.
          bindS (finalize_run_levels quiet cfg (sb_levels b')) (\<lambda>runs. merge_encoded_runs quiet cfg runs sink acc)) t"
        using b(1,3) h by (simp add: sort_body_def bindS_def)
      show ?thesis
      proof (cases "rest = []")
        case True
        with finish_quiet [OF U good b(2)] b(3) n \<open>n < run_bound cfg\<close> show ?thesis unfolding total body by auto
      next
        case rest: False
        show ?thesis
        proof (cases "n + 1 < run_bound cfg")
          case True
          with flush_quiet [OF U good fan b(2)] obtain b' u where f: "flush quiet cfg b t = (Inr b', u)"
            "buffer_ok ?U cfg u b' (n + 1) (mset (items_of cfg rows))" "sb_buffered b' = []" by (auto simp: runs_to_def)
          from finish_quiet [OF U good f(2,3)] f(1) rest n True show ?thesis unfolding total body by (auto simp: bindS_def)
        next
          case False
          with flush_quiet [OF U good fan b(2)] obtain u where "flush quiet cfg b t = (Inl run_bound_error, u)" by auto
          with rest n False show ?thesis unfolding total body by (simp add: bindS_def)
        qed
      qed
    qed
  qed
qed

section \<open>Equivalence with one sort in memory\<close>

definition collect :: "'a \<Rightarrow> 'a list \<Rightarrow> 'a list flow sorter" where
  \<comment> \<open>a consumer that takes everything\<close>
  "collect x acc = retS (Continue (acc @ [x]))"

lemma list_each_collect:
  "\<exists>c. list_each (checked quiet (\<lambda>t acc. case f t of Inl e \<Rightarrow> raiseS e | Inr x \<Rightarrow> collect x acc)) ts acc s
     = (Inr (Continue (acc @ xs)), s\<lparr>st_calls := c\<rparr>)" if "map f ts = map Inr xs"
  using that
proof (induction ts arbitrary: acc xs s)
  case Nil
  show ?case using Nil by (intro exI [of _ "st_calls s"]) (simp add: retS_def)
next
  case (Cons t ts)
  then obtain x ys where x: "xs = x # ys" "f t = Inr x" "map f ts = map Inr ys" by (cases xs) auto
  from Cons(1) [OF x(3), of "acc @ [x]" "s\<lparr>st_calls := st_calls s + 1\<rparr>"] x(1,2) show ?case
    by (auto simp: bindS_def checked_def check_cancellation_def call_back_def collect_def retS_def)
qed

lemma decode_item: "proper_row cfg vs \<Longrightarrow> decode_row cfg (dumps (canonical (NArr vs))) = Inr (map canonical vs)"
  using loads_readable [OF readable_canonical, of "NArr vs"] by (simp add: decode_row_def proper_row_def)

definition finished :: "'b flow result \<times> unit result \<times> sort_state \<Rightarrow> 'b flow result \<Rightarrow> bool" where
  \<comment> \<open>the outcome of a sort that leaves no file and no artifact behind\<close>
  "finished out r = (case out of (r', c, t) \<Rightarrow> r' = r \<and> c = Inr () \<and> st_files t = [] \<and> st_sizes t = [])"

lemma finished_quiet: "valid_config cfg \<Longrightarrow> sort_body quiet cfg source sink acc s = (r, t) \<Longrightarrow>
    finished (external_sort_encoded_rows quiet cfg source sink acc s) r"
  by (simp add: finished_def external_sort_encoded_rows_def clear_artifacts_def publish_quiet)

lemma items_decode:
  "list_all (proper_row cfg) rows \<Longrightarrow> map (\<lambda>x. decode_row cfg (snd x)) (items_of cfg rows) = map (\<lambda>vs. Inr (map canonical vs)) rows
     \<and> map snd (items_of cfg rows) = map (\<lambda>vs. dumps (NArr (map canonical vs))) rows"
proof (induction rows)
  case (Cons vs rows)
  then have p: "proper_row cfg vs" by simp
  then obtain x where x: "row_item cfg vs = Inr x" using proper_item by blast
  then have "snd x = dumps (NArr (map canonical vs))" by (auto simp: row_item_def result_simps)
  with Cons decode_item [OF p] show ?case by (simp add: items_of_Cons [OF x])
qed (simp add: items_of_def)

lemma sorted_rows:
  assumes "list_all (proper_row cfg) rows"
  shows "\<exists>out. mset out = mset (map (map canonical) rows) \<and> map (\<lambda>vs. dumps (NArr vs)) out = map snd (sort (items_of cfg rows))
    \<and> map (decode_row cfg) (map snd (sort (items_of cfg rows))) = map Inr out"
proof -
  let ?xs = "items_of cfg rows"
  define h where "h = (\<lambda>x::sort_item. projr (decode_row cfg (snd x)))"
  note d = items_decode [OF assms]
  from d have "map h ?xs = map (map canonical) rows"
    unfolding h_def by (metis (no_types, lifting) list.map_comp comp_apply map_eq_conv sum.sel(2))
  then have "mset (map h (sort ?xs)) = mset (map (map canonical) rows)" by (metis mset_map mset_sort)
  moreover have "decode_row cfg (snd x) = Inr (h x) \<and> dumps (NArr (h x)) = snd x" if x: "x \<in> set ?xs" for x
  proof -
    from x obtain i where i: "i < length ?xs" "?xs ! i = x" by (auto simp: in_set_conv_nth)
    moreover from d have "length ?xs = length rows" by (metis length_map)
    ultimately have "decode_row cfg (snd x) = Inr (map canonical (rows ! i))" "snd x = dumps (NArr (map canonical (rows ! i)))"
      using d [THEN conjunct1, THEN arg_cong [of _ _ "\<lambda>l. l ! i"]] d [THEN conjunct2, THEN arg_cong [of _ _ "\<lambda>l. l ! i"]] by simp_all
    then show ?thesis by (simp add: h_def)
  qed
  ultimately show ?thesis by (intro exI [of _ "map h (sort ?xs)"]) simp
qed

definition within_bound :: "sort_config \<Rightarrow> jval list list \<Rightarrow> bool" where
  "within_bound cfg rows = (run_total (sc_run_byte_limit cfg) (items_of cfg rows) < run_bound cfg)"

text \<open>
  Claim C35 (external sort): for rows of the right length with comparable keys, and call backs that do not raise, the
  sort yields the encodings exactly in the order of one sort by key and encoding, and the decoded rows
  accordingly, if the rows fill fewer runs than the fan-in to the power of the number of levels; otherwise it
  raises that the bound is exceeded and yields nothing. Either way no run is left.
\<close>

theorem sort_is_reference:
  assumes "valid_config cfg" and "list_all (proper_row cfg) rows" and "agree (set (items_of cfg rows))" and "st_files s = []"
  shows "finished (external_sort_encoded_rows quiet cfg (source_of rows) collect [] s)
      (if within_bound cfg rows then Inr (Continue (map snd (sort (items_of cfg rows)))) else Inl run_bound_error)
    \<and> (within_bound cfg rows \<longrightarrow> (\<exists>out t. external_sort_rows quiet cfg (source_of rows) collect [] s = (Inr (Continue out), t)
         \<and> mset out = mset (map (map canonical) rows)
         \<and> map (\<lambda>vs. dumps (NArr vs)) out = map snd (sort (items_of cfg rows))))"
proof (cases "within_bound cfg rows")
  case True
  let ?ts = "map snd (sort (items_of cfg rows))"
  have body: "\<exists>t. sort_body quiet cfg (source_of rows) sink acc s = list_each (checked quiet sink) ?ts acc t"
    for sink and acc :: 'b
    using sort_body_quiet [OF assms(3,2,1,4), of sink acc] True by (simp add: within_bound_def)
  have "\<exists>c. list_each (checked quiet collect) ?ts [] t = (Inr (Continue ?ts), t\<lparr>st_calls := c\<rparr>)" for t
    using list_each_collect [of Inr ?ts ?ts "[]" t] by (simp add: checked_def)
  with body [of collect "[]"] obtain t where "sort_body quiet cfg (source_of rows) collect [] s = (Inr (Continue ?ts), t)" by metis
  from finished_quiet [OF assms(1) this] have 1: "finished (external_sort_encoded_rows quiet cfg (source_of rows) collect [] s) (Inr (Continue ?ts))" .
  obtain out where out: "mset out = mset (map (map canonical) rows)" "map (\<lambda>vs. dumps (NArr vs)) out = ?ts"
    "map (decode_row cfg) ?ts = map Inr out" using sorted_rows [OF assms(2)] by blast
  have "decoding cfg collect = (\<lambda>t acc. case decode_row cfg t of Inl e \<Rightarrow> raiseS e | Inr x \<Rightarrow> collect x acc)"
    by (simp add: decoding_def fun_eq_iff)
  with list_each_collect [OF out(3), of "[]"] body [of "decoding cfg collect" "[]"]
  obtain t where "sort_body quiet cfg (source_of rows) (decoding cfg collect) [] s = (Inr (Continue out), t)" by fastforce
  from finished_quiet [OF assms(1) this] have "\<exists>t. external_sort_rows quiet cfg (source_of rows) collect [] s = (Inr (Continue out), t)"
    by (auto simp: external_sort_rows_def finished_def split: prod.splits)
  with 1 out True show ?thesis by auto
next
  case False
  with sort_body_quiet [OF assms(3,2,1,4), of collect "[]"] obtain t where
    "sort_body quiet cfg (source_of rows) collect [] s = (Inl run_bound_error, t)" by (auto simp: within_bound_def)
  from finished_quiet [OF assms(1) this] False show ?thesis by simp
qed

definition demo_sort :: sort_config where
  "demo_sort = \<lparr>sc_key_indexes = [0], sc_field_count = 2, sc_key_types = Some [Int_type], sc_run_byte_limit = 8, sc_merge_fan_in = 2\<rparr>"

definition demo_rows :: "jval list list" where
  "demo_rows = [[NInt 2, NNull], [NInt 1, NBool True], [NInt 1, NNull]]"

definition fresh_state :: sort_state where
  "fresh_state = \<lparr>st_files = [], st_fresh = 0, st_sizes = [], st_calls = 0, st_seen = []\<rparr>"

theorem sort_is_reference_witness:
  "finished (external_sort_encoded_rows quiet demo_sort (source_of demo_rows) collect [] fresh_state)
     (Inr (Continue (map asc [''[1,null]'', ''[1,true]'', ''[2,null]''])))"
proof -
  have "list_all (proper_row demo_sort) demo_rows"
    by (simp add: demo_rows_def demo_sort_def proper_row_def sort_key_of_def py_index_def nat_text.simps asc_def Let_def)
  moreover have "valid_config demo_sort" "agree (set (items_of demo_sort demo_rows))"
    "st_files fresh_state = []" "within_bound demo_sort demo_rows"
    "map snd (sort (items_of demo_sort demo_rows)) = map asc [''[1,null]'', ''[1,true]'', ''[2,null]'']"
    by code_simp+
  ultimately show ?thesis using sort_is_reference [of demo_sort demo_rows fresh_state] by simp
qed

section \<open>Rows that are refused\<close>

definition row_error :: "sort_config \<Rightarrow> row \<Rightarrow> py_error option" where
  "row_error cfg row =
     (case row of
        NotRow \<Rightarrow> Some (ExternalRowSortError ''external structural digest row is invalid'')
      | Row fs \<Rightarrow>
          if int (length fs) \<noteq> sc_field_count cfg
          then Some (ExternalRowSortError ''external structural digest row is invalid'')
          else (case sort_key_of cfg fs of
                  Inl e \<Rightarrow> Some e
                | Inr _ \<Rightarrow> if snd (row_parts fs) then None
                           else Some (ExternalRowSortError ''external structural digest row value is invalid'')))"

lemma encode_row_refused:
  assumes "row_error cfg row = Some e"
  shows "\<exists>t. encode_row quiet cfg row s = (Inl e, t)"
proof (cases row)
  case (Row fs)
  from encode_chunks_quiet [of "concat (map iter_text_chunks (fst (row_parts fs)))" s] obtain c where
    "encode_chunks quiet (concat (map iter_text_chunks (fst (row_parts fs)))) s = (Inr (concat (fst (row_parts fs))), s\<lparr>st_calls := c\<rparr>)"
    by (auto simp: concat_part_chunks)
  then show ?thesis using assms Row
    by (auto simp: row_error_def encode_row_def encode_value_def bindS_def liftS_def raiseS_def split: if_splits sum.splits)
qed (use assms in \<open>simp add: row_error_def encode_row_def raiseS_def\<close>)

lemma absorb_rows_append: "absorb_rows cb cfg (xs @ ys) b = bindS (absorb_rows cb cfg xs b) (absorb_rows cb cfg ys)"
proof (induction xs arbitrary: b)
  case (Cons x xs)
  then have "absorb_rows cb cfg (xs @ ys) = (\<lambda>b. bindS (absorb_rows cb cfg xs b) (absorb_rows cb cfg ys))" by (rule ext)
  then show ?case by (cases x) (simp_all add: bindS_assoc)
qed simp

text \<open>
  The first refusal: if the rows before it fill fewer runs than the bound, the first row that is not a
  row of the right length with a valid key of encodable values, or the first exception of the source, is what
  the sort raises, whatever comes after it; the consumer gets nothing and no run is left.
\<close>

theorem first_refusal_raised:
  assumes "valid_config cfg" and "list_all (proper_row cfg) rows" and "agree (set (items_of cfg rows))" and "st_files s = []"
    and "fst (cut_runs (sc_run_byte_limit cfg) [] (items_of cfg rows)) < run_bound cfg"
    and "(case x of Inl e' \<Rightarrow> Some e' | Inr row \<Rightarrow> row_error cfg row) = Some e"
  shows "finished (external_sort_encoded_rows quiet cfg (source_of rows @ x # later) sink acc s) (Inl e)"
proof -
  let ?U = "set (items_of cfg rows)"
  have fan: "2 \<le> sc_merge_fan_in cfg" using assms(1) by (simp add: valid_config_def)
  have good: "\<forall>x \<in> ?U. good_item cfg x" using assms(2) by (rule items_good)
  obtain n rest where cut: "cut_runs (sc_run_byte_limit cfg) [] (items_of cfg rows) = (n, rest)" by fastforce
  from absorb_rows_quiet [OF assms(3) good fan assms(2) subset_refl empty_buffer_ok [OF fan assms(4)], of n rest] cut assms(5)
  obtain b t where b: "absorb_rows quiet cfg (source_of rows) empty_buffer s = (Inr b, t)"
    by (auto simp: empty_buffer_def runs_to_def)
  have "\<exists>u. absorb_rows quiet cfg (x # later) b t = (Inl e, u)"
  proof (cases x)
    case (Inr row)
    with assms(6) encode_row_refused [of cfg row e "t\<lparr>st_calls := st_calls t + 1\<rparr>"] show ?thesis
      by (auto simp: bindS_def check_cancellation_def call_back_def)
  qed (use assms(6) in \<open>simp add: raiseS_def\<close>)
  then obtain u where "sort_body quiet cfg (source_of rows @ x # later) sink acc s = (Inl e, u)"
    using b by (auto simp: sort_body_def absorb_rows_append bindS_def)
  from finished_quiet [OF assms(1) this] show ?thesis .
qed

theorem first_refusal_raised_witness:
  "finished (external_sort_encoded_rows quiet demo_sort (source_of [[NInt 3, NNull]] @ Inr (Row [Value (NStr []), Value NNull]) # [Inr NotRow])
     collect [] fresh_state) (Inl invalid_key)"
proof -
  have "list_all (proper_row demo_sort) [[NInt 3, NNull]]"
    by (simp add: demo_sort_def proper_row_def sort_key_of_def py_index_def nat_text.simps asc_def)
  moreover have "valid_config demo_sort" "agree (set (items_of demo_sort [[NInt 3, NNull]]))" "st_files fresh_state = []"
    "fst (cut_runs (sc_run_byte_limit demo_sort) [] (items_of demo_sort [[NInt 3, NNull]])) < run_bound demo_sort"
    "row_error demo_sort (Row [Value (NStr []), Value NNull]) = Some invalid_key" by code_simp+
  ultimately show ?thesis
    using first_refusal_raised [of demo_sort "[[NInt 3, NNull]]" fresh_state "Inr (Row [Value (NStr []), Value NNull])" invalid_key] by simp
qed

end
