(* ===== verification/Sort_Types.thy ===== *)
theory Sort_Types
  imports Sort_Properties
begin

text \<open>
  Declared key types keep the sort from comparing a number with a string, on every path: whatever the rows, the
  contents of the runs, the call backs and the consumer do.
\<close>

section \<open>Typed keys\<close>

lemma typed_no_clash: "map atom_type k = map atom_type l \<Longrightarrow> \<not> clash k l"
  by (induction k l rule: clash.induct) auto

lemma those_length: "those xs = Some ys \<Longrightarrow> length ys = length xs"
  by (induction xs arbitrary: ys) (auto split: option.splits)

lemma sort_key_typed:
  assumes "valid_config cfg" and "sc_key_types cfg = Some ts" and "sort_key_of cfg fs = Inr key"
  shows "map atom_type key = ts"
proof -
  have "list_all (\<lambda>(x, t). atom_type x = t) (zip key ts)"
    using assms(2,3) by (auto simp: sort_key_of_def result_simps split: option.splits)
  moreover have "length key = length ts"
    using assms by (auto simp: sort_key_of_def valid_config_def result_simps dest!: those_length split: option.splits)
  ultimately show ?thesis by (intro nth_equalityI) (auto simp: list_all_length)
qed

definition typed :: "key_type list \<Rightarrow> sort_item set \<Rightarrow> bool" where
  "typed ts U = (\<forall>x \<in> U. map atom_type (fst x) = ts)"

lemma typed_agree: "typed ts U \<Longrightarrow> agree U"
  using typed_no_clash by (auto simp: typed_def agree_def)

definition typed_heap :: "key_type list \<Rightarrow> heap_entry list \<Rightarrow> bool" where
  "typed_heap ts heap = (is_heap heap \<and> typed ts (strip ` set heap))"

lemma typed_push:
  assumes "typed_heap ts heap" and "map atom_type key = ts"
  shows "\<exists>heap'. heappush entry_lt heap (key, t, i) = Some heap' \<and> typed_heap ts heap'"
proof -
  have U: "typed ts (strip ` set ((key, t, i) # heap))" using assms by (simp add: typed_heap_def typed_def strip_def)
  then have "entries_fit (insert (key, t, i) (set_mset (mset heap)))" using entries_fitI [OF typed_agree] by simp
  with assms(1) obtain heap' where h: "heappush entry_lt heap (key, t, i) = Some heap'" "is_heap heap'"
    "mset heap' = add_mset (key, t, i) (mset heap)" using hq.push_valid [of heap "(key, t, i)"] by (auto simp: typed_heap_def)
  from h(3) have "set heap' = set ((key, t, i) # heap)" by (metis mset.simps(2) mset_eq_setD)
  with h U show ?thesis by (simp add: typed_heap_def)
qed

lemma typed_pop:
  assumes "typed_heap ts heap" and "heap \<noteq> []"
  shows "\<exists>e heap'. heappop entry_lt heap = Some (e, heap') \<and> typed_heap ts heap'"
proof -
  have "entries_fit (set_mset (mset heap))"
    using assms(1) entries_fitI [OF typed_agree subset_refl, of ts "set heap"] by (simp add: typed_heap_def)
  with assms obtain e heap' where h: "heappop entry_lt heap = Some (e, heap')" "is_heap heap'" "mset heap = add_mset e (mset heap')"
    using hq.pop_valid [of heap] by (auto simp: typed_heap_def)
  from h(3) have "set heap = set (e # heap')" by (metis mset.simps(2) mset_eq_setD)
  with h(2) assms(1) have "typed_heap ts heap'" by (simp add: typed_heap_def typed_def)
  with h(1) show ?thesis by blast
qed

section \<open>All paths of a merge\<close>

text \<open>
  A rule for every outcome of a merge: \<open>H\<close> is kept by the heap, \<open>S\<close> by the state, \<open>Q\<close> holds of the outcome.
\<close>

lemma flow_result_cases:
  obtains (stop) e where "r = Inl e" | (drop) e where "r = Inr (Abandon e)" | (go) x where "r = Inr (Continue x)"
  by (cases r) (simp, metis flow.exhaust)

lemma merge_each_inv:
  assumes pop: "\<And>heap. H heap \<Longrightarrow> heap \<noteq> [] \<Longrightarrow> case heappop entry_lt heap of None \<Rightarrow> Q (Inl compare_error) | Some (e, heap') \<Rightarrow> H heap'"
    and push: "\<And>heap line key t i. H heap \<Longrightarrow> read_line cfg line = Inr (key, t) \<Longrightarrow>
      case heappush entry_lt heap (key, t, i) of None \<Rightarrow> Q (Inl compare_error) | Some heap' \<Rightarrow> H heap'"
    and line: "\<And>line e. read_line cfg line = Inl e \<Longrightarrow> Q (Inl e)"
    and check: "\<And>s r t. S s \<Longrightarrow> check_cancellation cb s = (r, t) \<Longrightarrow> S t \<and> (\<forall>e. r = Inl e \<longrightarrow> Q (Inl e))"
    and sink: "\<And>x acc s r t. S s \<Longrightarrow> sink x acc s = (r, t) \<Longrightarrow> S t \<and> ((\<forall>acc'. r \<noteq> Inr (Continue acc')) \<longrightarrow> Q r)"
    and ends: "\<And>acc. Q (Inr (Continue acc))"
  shows "H heap \<Longrightarrow> S s \<Longrightarrow> Q (fst (merge_each cb cfg sink heap iters acc s)) \<and> S (snd (merge_each cb cfg sink heap iters acc s))"
proof (induction "length heap + length (concat iters)" arbitrary: heap iters acc s rule: less_induct)
  case less
  note unfold = merge_each.simps [of cb cfg sink heap iters acc s] bindS_def
  show ?case
  proof (cases "heap = []")
    case True
    then show ?thesis unfolding unfold(1) using less(3) ends by (simp add: retS_def)
  next
    case ne: False
    obtain rc s1 where c: "check_cancellation cb s = (rc, s1)" by fastforce
    note S1 = check [OF less(3) c]
    show ?thesis
    proof (cases "\<exists>e heap1. rc = Inr () \<and> heappop entry_lt heap = Some (e, heap1)")
      case False
      then show ?thesis using ne c S1 pop [OF less(2) ne] by (cases rc) (auto simp: unfold raiseS_def split: option.splits)
    next
      case True
      then obtain e heap1 where p: "heappop entry_lt heap = Some (e, heap1)" and ok: "rc = Inr ()" by blast
      have H1: "H heap1" using pop [OF less(2) ne] p by simp
      obtain r t where r: "sink (fst (snd e)) acc s1 = (r, t)" by fastforce
      note S2 = sink [OF S1 [THEN conjunct1] r]
      note step = ne c ok p r
      show ?thesis
      proof (cases r rule: flow_result_cases)
        case (go acc')
        show ?thesis
        proof (cases "pull (snd (snd e)) iters")
          case None
          then show ?thesis using less(1) [OF _ H1] heappop_length [OF p ne] S2 by (simp add: unfold step go)
        next
          case (Some li)
          obtain line iters1 where li: "li = (line, iters1)" by fastforce
          show ?thesis
          proof (cases "read_line cfg line")
            case (Inl err)
            then show ?thesis using S2 line by (simp add: unfold step go Some li liftS_def raiseS_def)
          next
            case (Inr x)
            obtain key u where x: "x = (key, u)" by fastforce
            note pushed = push [OF H1 Inr [unfolded x], of "snd (snd e)"]
            show ?thesis
            proof (cases "heappush entry_lt heap1 (key, u, snd (snd e))")
              case None
              then show ?thesis using S2 pushed by (simp add: unfold step go Some li liftS_def Inr x raiseS_def)
            next
              case h: (Some heap2)
              have "length heap2 + length (concat iters1) < length heap + length (concat iters)"
                using heappush_length [OF h] pull_shorter [OF Some [unfolded li]] heappop_length [OF p ne] by simp
              from less(1) [OF this] pushed h S2 show ?thesis by (simp add: unfold step go Some li liftS_def Inr x)
            qed
          qed
        qed
      qed (use S2 step in \<open>simp_all add: unfold retS_def\<close>)
    qed
  qed
qed

lemma list_each_inv:
  assumes sink: "\<And>x acc s r t. S s \<Longrightarrow> sink x acc s = (r, t) \<Longrightarrow> S t \<and> ((\<forall>acc'. r \<noteq> Inr (Continue acc')) \<longrightarrow> Q r)"
    and ends: "\<And>acc. Q (Inr (Continue acc))"
  shows "S s \<Longrightarrow> Q (fst (list_each sink ts acc s)) \<and> S (snd (list_each sink ts acc s))"
proof (induction ts arbitrary: acc s)
  case (Cons x ts)
  obtain r t where r: "sink x acc s = (r, t)" by fastforce
  from sink [OF Cons(2) r] Cons(1) [of t] r show ?case
    by (cases r rule: flow_result_cases) (simp_all add: bindS_def retS_def)
qed (simp add: retS_def ends)

section \<open>Pre- and postconditions\<close>

definition spec :: "(sort_state \<Rightarrow> bool) \<Rightarrow> 'a sorter \<Rightarrow> ('a \<Rightarrow> sort_state \<Rightarrow> bool) \<Rightarrow> (py_error \<Rightarrow> sort_state \<Rightarrow> bool) \<Rightarrow> bool" where
  "spec P m Q E = (\<forall>s. P s \<longrightarrow> (case m s of (Inr x, t) \<Rightarrow> Q x t | (Inl e, t) \<Rightarrow> E e t))"

lemma specI:
  assumes "\<And>s x t. P s \<Longrightarrow> m s = (Inr x, t) \<Longrightarrow> Q x t" and "\<And>s e t. P s \<Longrightarrow> m s = (Inl e, t) \<Longrightarrow> E e t"
  shows "spec P m Q E"
  using assms by (auto simp: spec_def split: prod.splits sum.splits)

lemma specD: "spec P m Q E \<Longrightarrow> P s \<Longrightarrow> m s = (Inr x, t) \<Longrightarrow> Q x t" "spec P m Q E \<Longrightarrow> P s \<Longrightarrow> m s = (Inl e, t) \<Longrightarrow> E e t"
  by (fastforce simp: spec_def)+

lemma spec_bind:
  assumes "spec P m Q E" and "\<And>x. spec (Q x) (f x) R E"
  shows "spec P (bindS m f) R E"
  unfolding spec_def
proof (intro allI impI)
  fix s assume "P s"
  with assms(1) have 1: "case m s of (Inr x, t) \<Rightarrow> Q x t | (Inl e, t) \<Rightarrow> E e t" by (simp add: spec_def)
  obtain r t where r: "m s = (r, t)" by fastforce
  show "case bindS m f s of (Inr x, t) \<Rightarrow> R x t | (Inl e, t) \<Rightarrow> E e t"
    using 1 assms(2) by (cases r) (auto simp: bindS_def r spec_def)
qed

lemma spec_ret: "(\<And>s. P s \<Longrightarrow> Q x s) \<Longrightarrow> spec P (retS x) Q E"
  by (simp add: spec_def retS_def)

lemma spec_raise: "(\<And>s. P s \<Longrightarrow> E e s) \<Longrightarrow> spec P (raiseS e) Q E"
  by (simp add: spec_def raiseS_def)

lemma spec_weaken:
  "spec P m Q E \<Longrightarrow> (\<And>s. P' s \<Longrightarrow> P s) \<Longrightarrow> (\<And>x s. Q x s \<Longrightarrow> Q' x s) \<Longrightarrow> (\<And>e s. E e s \<Longrightarrow> E' e s) \<Longrightarrow> spec P' m Q' E'"
  unfolding spec_def by (fastforce split: prod.splits sum.splits)

section \<open>Merges of typed keys\<close>

lemma read_line_typed:
  assumes "valid_config cfg" and "sc_key_types cfg = Some ts"
  shows "read_line cfg line = Inr (key, t) \<Longrightarrow> map atom_type key = ts" and "read_line cfg line \<noteq> Inl compare_error"
proof -
  show "read_line cfg line = Inr (key, t) \<Longrightarrow> map atom_type key = ts"
    using sort_key_typed [OF assms] by (auto simp: read_line_def result_simps)
  show "read_line cfg line \<noteq> Inl compare_error"
    by (auto simp: read_line_def decode_row_def sort_key_of_def result_simps compare_error_def invalid_run_def invalid_key_def
        split: option.splits jval.splits)
qed

lemma merge_start_typed:
  assumes "valid_config cfg" and "sc_key_types cfg = Some ts"
  shows "typed_heap ts heap \<Longrightarrow> (case merge_start cfg s paths heap iters of
      Inl e \<Rightarrow> e \<noteq> compare_error | Inr (heap', iters') \<Rightarrow> typed_heap ts heap')"
proof (induction paths arbitrary: heap iters)
  case (Cons path paths)
  show ?case
  proof (cases "open_run s path")
    case (Inl e)
    then show ?thesis by (auto simp: open_run_def compare_error_def split: option.splits)
  next
    case (Inr lines)
    show ?thesis
    proof (cases lines)
      case Nil
      with Inr Cons(1) [OF Cons(2)] show ?thesis by simp
    next
      case (Cons line rest)
      show ?thesis
      proof (cases "read_line cfg line")
        case (Inl e)
        then show ?thesis using Inr Cons read_line_typed(2) [OF assms, of line] by simp
      next
        case r: (Inr x)
        obtain key t where x: "x = (key, t)" by fastforce
        from typed_push [OF Cons.prems read_line_typed(1) [OF assms r [unfolded x]]] obtain heap' where
          "heappush entry_lt heap (key, t, length iters) = Some heap'" "typed_heap ts heap'" by blast
        with Cons.IH Inr Cons r x show ?thesis by simp
      qed
    qed
  qed
qed simp


section \<open>Sorting with declared key types\<close>

abbreviation clash_free :: "'a sorter \<Rightarrow> bool" where
  \<comment> \<open>never raises for two keys that cannot be compared\<close>
  "clash_free m \<equiv> spec (\<lambda>_. True) m (\<lambda>_ _. True) (\<lambda>e _. e \<noteq> compare_error)"

lemma sort_error_calm [simp]:
  "ExternalRowSortError m \<noteq> compare_error" "invalid_key \<noteq> compare_error" "run_bound_error \<noteq> compare_error"
  "compare_error \<noteq> invalid_key"
  by (simp_all add: compare_error_def invalid_key_def run_bound_error_def)

lemma calm_bind: "clash_free m \<Longrightarrow> (\<And>x. clash_free (f x)) \<Longrightarrow> clash_free (bindS m f)"
  by (rule spec_bind)

lemma calm_ret: "clash_free (retS x)" and calm_raise: "e \<noteq> compare_error \<Longrightarrow> clash_free (raiseS e)"
  by (simp_all add: spec_def retS_def raiseS_def)

definition calm_flow :: "'b flow result \<Rightarrow> bool" where
  "calm_flow r = (r \<noteq> Inl compare_error \<and> r \<noteq> Inr (Abandon compare_error))"

definition typed_env :: "sort_config \<Rightarrow> key_type list \<Rightarrow> callbacks \<Rightarrow> bool" where
  "typed_env cfg ts cb = (valid_config cfg \<and> sc_key_types cfg = Some ts \<and> (\<forall>n. cb n \<noteq> Some compare_error))"

lemma call_back_calm:
  assumes "typed_env cfg ts cb"
  shows "clash_free (call_back cb)" "clash_free (check_cancellation cb)" "clash_free (publish cb)"
  using assms by (auto simp: typed_env_def spec_def call_back_def check_cancellation_def publish_def split: option.splits)

lemma artifact_calm:
  assumes "typed_env cfg ts cb"
  shows "clash_free (begin_artifact cb p)" "clash_free (remove_artifact cb p)" "clash_free (resize_artifact cb p n)" "clash_free (unlink p)"
  using call_back_calm(3) [OF assms] unfolding spec_def
  by (auto simp: begin_artifact_def remove_artifact_def resize_artifact_def unlink_def compare_error_def split: option.splits)

lemma calm_consume: "clash_free m \<Longrightarrow> calm_flow (fst (consume m s))"
  by (auto simp: spec_def consume_def calm_flow_def split: prod.splits sum.splits)

lemma merge_typed:
  assumes env: "typed_env cfg ts cb" and Q: "\<And>x. Q (Inr (Continue x))" "\<And>e. e \<noteq> compare_error \<Longrightarrow> Q (Inl e)"
    and sink: "\<And>t acc s. Q (fst (sink t acc s))"
  shows "Q (fst (merge_encoded_runs cb cfg paths sink acc s))"
proof -
  have cfg: "valid_config cfg" "sc_key_types cfg = Some ts" using env by (simp_all add: typed_env_def)
  have "typed_heap ts []" by (simp add: typed_heap_def is_heap_def typed_def)
  note start = merge_start_typed [OF cfg this, of s paths "[]"]
  have "Q (fst (merge_each cb cfg sink heap iters acc s))" if "typed_heap ts heap" for heap iters
  proof (rule merge_each_inv [where H = "typed_heap ts" and S = "\<lambda>_. True" and Q = Q, THEN conjunct1])
    fix heap line key t i assume h: "typed_heap ts heap" and l: "read_line cfg line = Inr (key, t)"
    from typed_push [OF h read_line_typed(1) [OF cfg l], of t i]
    show "case heappush entry_lt heap (key, t, i) of None \<Rightarrow> Q (Inl compare_error) | Some heap' \<Rightarrow> typed_heap ts heap'" by auto
  next
    fix heap assume "typed_heap ts heap" "heap \<noteq> []"
    from typed_pop [OF this] show "case heappop entry_lt heap of None \<Rightarrow> Q (Inl compare_error) | Some (e, heap') \<Rightarrow> typed_heap ts heap'" by auto
  next
    fix line e assume "read_line cfg line = Inl e"
    with read_line_typed(2) [OF cfg, of line] Q(2) show "Q (Inl e)" by auto
  next
    fix s r t assume "check_cancellation cb s = (r, t)"
    with specD(2) [OF call_back_calm(2) [OF env] TrueI] Q(2) show "True \<and> (\<forall>e. r = Inl e \<longrightarrow> Q (Inl e))" by blast
  next
    fix x acc s r t assume "sink x acc s = (r, t)"
    with sink [of x acc s] show "True \<and> ((\<forall>acc'. r \<noteq> Inr (Continue acc')) \<longrightarrow> Q r)" by simp
  qed (use that Q in simp_all)
  with start Q(2) show ?thesis
    by (auto simp: merge_encoded_runs_def bindS_def liftS_def raiseS_def split: sum.splits)
qed

lemma write_rows_calm:
  assumes env: "typed_env cfg ts cb"
    and rows: "\<And>sink s. (\<And>t acc s. calm_flow (fst (sink t acc s))) \<Longrightarrow> calm_flow (fst (rows sink 0 s))"
  shows "clash_free (write_encoded_rows cb rows)"
proof -
  have "clash_free (write_encoded cb path t n)" for path t n
    unfolding write_encoded_def Let_def using artifact_calm(3) [OF env] by (intro calm_bind) (simp_all add: spec_def)
  then have "calm_flow (fst (rows (\<lambda>t n. consume (write_encoded cb path t n)) 0 s))" for path s
    by (intro rows calm_consume)
  then have "clash_free (bindS (rows (\<lambda>t n. consume (write_encoded cb path t n)) 0) resume)" for path
  proof (intro specI)
    fix s e t
    assume b: "bindS (rows (\<lambda>t n. consume (write_encoded cb path t n)) 0) resume s = (Inl e, t)"
    obtain r u where r: "rows (\<lambda>t n. consume (write_encoded cb path t n)) 0 s = (r, u)" by fastforce
    then have "calm_flow r" using \<open>calm_flow (fst (rows (\<lambda>t n. consume (write_encoded cb path t n)) 0 s))\<close> by simp
    then show "e \<noteq> compare_error" using b r
      by (cases r rule: flow_result_cases) (auto simp: bindS_def retS_def raiseS_def calm_flow_def)
  qed simp
  then have "clash_free (bindS (begin_artifact cb path) (\<lambda>_. bindS (rows (\<lambda>t n. consume (write_encoded cb path t n)) 0) resume))" for path
    using artifact_calm(1) [OF env] by (rule calm_bind [rotated])
  note body = specD(2) [OF this TrueI]
  have "clash_free (bindS (remove_artifact cb path) (\<lambda>_. bindS (unlink path) (\<lambda>_. raiseS e)))"
    if "e \<noteq> compare_error" for path and e :: py_error
    using artifact_calm [OF env] that by (intro calm_bind calm_raise)
  note handler = specD(2) [OF this TrueI]
  show ?thesis
    unfolding write_encoded_rows_def Let_def
    by (intro specI) (auto split: prod.splits sum.splits dest: body handler)
qed

lemma list_calm: "(\<And>t acc s. calm_flow (fst (sink t acc s))) \<Longrightarrow> calm_flow (fst (list_each sink ts acc s))"
  by (rule list_each_inv [where S = "\<lambda>_. True", THEN conjunct1]) (auto simp: calm_flow_def, (metis fst_conv)+)

lemma write_run_calm:
  assumes env: "typed_env cfg ts cb" and rows: "typed ts (set rows)"
  shows "clash_free (write_run cb rows)"
proof -
  have "sort_rows rows = Inr (sort rows)" using typed_agree [OF rows] by (auto simp: sort_rows_def agree_def list_ex_iff)
  then show ?thesis using write_rows_calm [OF env list_calm] by (simp add: write_run_def)
qed

lemma merge_members_calm:
  assumes env: "typed_env cfg ts cb"
  shows "clash_free (write_merged_run cb cfg paths)" and "clash_free (remove_runs cb paths)"
proof -
  show "clash_free (write_merged_run cb cfg paths)"
    unfolding write_merged_run_def
  proof (rule write_rows_calm [OF env])
    fix sink :: "utext \<Rightarrow> nat \<Rightarrow> nat flow sorter" and s
    assume "\<And>t acc s. calm_flow (fst (sink t acc s))"
    then show "calm_flow (fst (merge_encoded_runs cb cfg paths sink 0 s))"
      by (rule merge_typed [OF env, rotated 2]) (simp_all add: calm_flow_def)
  qed
  show "clash_free (remove_runs cb paths)"
    using artifact_calm [OF env] by (induction paths) (auto intro!: calm_bind calm_ret)
qed

lemma add_run_calm:
  assumes env: "typed_env cfg ts cb"
  shows "clash_free (add_run cb cfg levels path level)"
proof (induction "length levels - level" arbitrary: levels path level)
  case 0
  then have "add_run cb cfg levels path level = raiseS run_bound_error" by (intro ext) (simp add: add_run.simps)
  then show ?case by (simp add: calm_raise)
next
  case (Suc n)
  let ?members = "levels ! level @ [path]"
  have l: "\<not> length levels \<le> level" using Suc(2) by simp
  have "add_run cb cfg levels path level = (if int (length ?members) < sc_merge_fan_in cfg then retS (levels[level := ?members])
      else bindS (write_merged_run cb cfg ?members) (\<lambda>out. bindS (remove_runs cb ?members) (\<lambda>_.
           add_run cb cfg (levels[level := []]) out (level + 1))))"
    using l by (intro ext) (subst add_run.simps, simp add: Let_def)
  moreover have "clash_free (add_run cb cfg (levels[level := []]) out (level + 1))" for out using Suc by simp
  ultimately show ?case using merge_members_calm [OF env] by (auto intro!: calm_bind calm_ret)
qed

lemma finalize_calm:
  assumes "typed_env cfg ts cb"
  shows "clash_free (finalize_run_levels cb cfg levels)"
  using merge_members_calm [OF assms] by (induction levels) (auto intro!: calm_bind calm_ret)

lemma flush_calm:
  assumes "typed_env cfg ts cb" and "typed ts (set (sb_buffered b))"
  shows "spec (\<lambda>_. True) (flush cb cfg b) (\<lambda>b' _. sb_buffered b' = []) (\<lambda>e _. e \<noteq> compare_error)"
  unfolding flush_def using write_run_calm [OF assms] add_run_calm [OF assms(1)]
  by (intro spec_bind spec_ret) auto

lemma encode_row_calm:
  assumes env: "typed_env cfg ts cb"
  shows "spec (\<lambda>_. True) (encode_row cb cfg row) (\<lambda>x _. map atom_type (fst x) = ts) (\<lambda>e _. e \<noteq> compare_error)"
proof (cases row)
  case (Row fs)
  have "clash_free (encode_chunks cb cs)" for cs
    using call_back_calm(2) [OF env] by (induction cs) (auto intro!: calm_bind calm_ret)
  then have v: "clash_free (encode_value cb ps)" for ps
    unfolding encode_value_def using call_back_calm(2) [OF env]
    by (auto intro!: calm_bind calm_ret calm_raise)
  have "spec (\<lambda>_. True) (liftS (sort_key_of cfg fs)) (\<lambda>k _. map atom_type k = ts) (\<lambda>e _. e \<noteq> compare_error)"
    using sort_key_typed [of cfg ts fs] env
    by (auto simp: spec_def liftS_def typed_env_def split: sum.splits)
      (auto simp: sort_key_of_def result_simps split: option.splits)
  moreover have "spec (\<lambda>_. map atom_type k = ts) (bindS (encode_value cb (row_parts fs)) (\<lambda>encoded. retS (k, encoded)))
      (\<lambda>x _. map atom_type (fst x) = ts) (\<lambda>e _. e \<noteq> compare_error)" for k
    using v [of "row_parts fs"] by (intro spec_bind [where Q = "\<lambda>_ _. map atom_type k = ts"] spec_ret) (auto simp: spec_def split: prod.splits sum.splits)
  ultimately show ?thesis using Row
    by (auto simp: encode_row_def intro!: spec_raise intro: spec_bind)
qed (simp add: encode_row_def spec_def raiseS_def)

lemma absorb_item_calm:
  assumes env: "typed_env cfg ts cb" and b: "typed ts (set (sb_buffered b))" and x: "map atom_type (fst x) = ts"
  shows "spec (\<lambda>_. True) (absorb_item cb cfg x b) (\<lambda>b' _. typed ts (set (sb_buffered b'))) (\<lambda>e _. e \<noteq> compare_error)"
proof -
  have one: "spec (\<lambda>_. True) (if full then flush cb cfg b else retS b) (\<lambda>b' _. typed ts (set (sb_buffered b'))) (\<lambda>e _. e \<noteq> compare_error)" for full
    using b spec_weaken [OF flush_calm [OF env b]] by (auto simp: typed_def intro!: spec_ret)
  have two: "spec (\<lambda>_. typed ts (set (sb_buffered b1)))
      (let b2 = b1\<lparr>sb_buffered := sb_buffered b1 @ [x], sb_bytes := sb_bytes b1 + length (snd x)\<rparr>
       in if sc_run_byte_limit cfg \<le> int (sb_bytes b2) then flush cb cfg b2 else retS b2)
      (\<lambda>b' _. typed ts (set (sb_buffered b'))) (\<lambda>e _. e \<noteq> compare_error)" for b1
  proof (cases "typed ts (set (sb_buffered b1))")
    case True
    let ?b2 = "b1\<lparr>sb_buffered := sb_buffered b1 @ [x], sb_bytes := sb_bytes b1 + length (snd x)\<rparr>"
    have "typed ts (set (sb_buffered ?b2))" using True x by (simp add: typed_def)
    with spec_weaken [OF flush_calm [OF env this]] True show ?thesis
      unfolding Let_def by (auto simp: typed_def intro!: spec_ret)
  qed (simp add: spec_def)
  show ?thesis unfolding absorb_item_def Let_def [of "length (snd x)"] using one two by (rule spec_bind)
qed

lemma absorb_rows_calm:
  assumes env: "typed_env cfg ts cb"
  shows "Inl compare_error \<notin> set source \<Longrightarrow> typed ts (set (sb_buffered b)) \<Longrightarrow>
    spec (\<lambda>_. True) (absorb_rows cb cfg source b) (\<lambda>b' _. typed ts (set (sb_buffered b'))) (\<lambda>e _. e \<noteq> compare_error)"
proof (induction source arbitrary: b)
  case Nil
  then show ?case by (auto intro!: spec_ret)
next
  case (Cons x source)
  show ?case
  proof (cases x)
    case (Inl e)
    with Cons(2) show ?thesis by (auto intro!: spec_raise)
  next
    case (Inr row)
    have later: "spec (\<lambda>_. typed ts (set (sb_buffered b'))) (absorb_rows cb cfg source b')
        (\<lambda>b' _. typed ts (set (sb_buffered b'))) (\<lambda>e _. e \<noteq> compare_error)" for b'
      using Cons(1) [of b'] Cons(2) by (simp add: spec_def)
    have item: "spec (\<lambda>_. map atom_type (fst i) = ts) (bindS (absorb_item cb cfg i b) (\<lambda>b'. absorb_rows cb cfg source b'))
        (\<lambda>b' _. typed ts (set (sb_buffered b'))) (\<lambda>e _. e \<noteq> compare_error)" for i
      using spec_bind [OF absorb_item_calm [OF env Cons(3), of i] later] by (simp add: spec_def)
    show ?thesis unfolding Inr absorb_rows.simps
      by (rule spec_bind [OF call_back_calm(2) [OF env] spec_bind [OF encode_row_calm [OF env] item]])
  qed
qed

text \<open>
  Key types: with declared key types the sort never compares a number with a string. On no path, for no
  rows, with no call backs and no consumer does it raise the error of such a comparison, unless a call back, the
  source or the consumer raises that very error itself.
\<close>

theorem typed_keys_never_clash:
  assumes "sc_key_types cfg = Some ts" and "\<And>n. cb n \<noteq> Some compare_error" and "Inl compare_error \<notin> set source"
    and "\<And>t acc s. fst (sink t acc s) \<noteq> Inl compare_error"
  shows "fst (external_sort_encoded_rows cb cfg source sink acc s) \<noteq> Inl compare_error"
proof (cases "valid_config cfg")
  case False
  then show ?thesis by (simp add: external_sort_encoded_rows_def compare_error_def)
next
  case True
  then have env: "typed_env cfg ts cb" using assms by (simp add: typed_env_def)
  have chk: "fst (check_cancellation cb u) \<noteq> Inl compare_error" for u
    using specD(2) [OF call_back_calm(2) [OF env] TrueI, of u] by (cases "check_cancellation cb u") fastforce
  have "fst (checked cb sink t acc u) \<noteq> Inl compare_error" for t acc u
    using chk [of u] assms(4) by (auto simp: checked_def bindS_def split: prod.splits sum.splits)
  then have mem: "fst (list_each (checked cb sink) xs acc u) \<noteq> Inl compare_error" for xs u
    by (intro list_each_inv [where S = "\<lambda>_. True" and Q = "\<lambda>r. r \<noteq> Inl compare_error", THEN conjunct1]) (auto, metis fst_conv)
  have merge: "clash_free (merge_encoded_runs cb cfg runs sink acc)" for runs
    using merge_typed [OF env, of "\<lambda>r. r \<noteq> Inl compare_error" sink runs acc] assms(4) by (intro specI) (auto, metis fst_conv)
  have "clash_free (sort_body cb cfg source sink acc)" unfolding sort_body_def
  proof (rule spec_bind [OF absorb_rows_calm [OF env assms(3)]])
    show "typed ts (set (sb_buffered empty_buffer))" by (simp add: empty_buffer_def typed_def)
  next
    fix b
    show "spec (\<lambda>_. typed ts (set (sb_buffered b)))
      (if \<not> sb_has_runs b then bindS (liftS (sort_rows (sb_buffered b))) (\<lambda>rows. list_each (checked cb sink) (map snd rows) acc)
       else bindS (if sb_buffered b \<noteq> [] then flush cb cfg b else retS b) (\<lambda>b'.
            bindS (finalize_run_levels cb cfg (sb_levels b')) (\<lambda>runs. merge_encoded_runs cb cfg runs sink acc)))
      (\<lambda>_ _. True) (\<lambda>e _. e \<noteq> compare_error)"
    proof (cases "typed ts (set (sb_buffered b))")
      case t: True
      have "sort_rows (sb_buffered b) = Inr (sort (sb_buffered b))"
        using typed_agree [OF t] by (auto simp: sort_rows_def agree_def list_ex_iff)
      moreover have "clash_free (list_each (checked cb sink) xs acc)" for xs using mem by (intro specI) (auto, metis fst_conv)
      moreover have "clash_free (if sb_buffered b \<noteq> [] then flush cb cfg b else retS b)"
        using spec_weaken [OF flush_calm [OF env t]] by (auto intro: calm_ret)
      ultimately show ?thesis using t finalize_calm [OF env] merge by (auto intro!: calm_bind)
    qed (simp add: spec_def)
  qed
  then show ?thesis using True specD(2) [of "\<lambda>_. True"]
    by (auto simp: external_sort_encoded_rows_def split: prod.splits) blast
qed

theorem typed_keys_never_clash_witness:
  "fst (external_sort_encoded_rows quiet demo_sort [Inr (Row [Value (NInt 1), Value NNull]), Inr (Row [Value (NStr []), Value NNull])]
     collect [] fresh_state) \<noteq> Inl compare_error"
proof -
  have "sc_key_types demo_sort = Some [Int_type]" by (simp add: demo_sort_def)
  then show ?thesis
    by (rule typed_keys_never_clash) (simp_all add: collect_def retS_def)
qed

end
