(* ===== verification/Sort_Artifacts.thy ===== *)
theory Sort_Artifacts
  imports Sort_Types
begin

text \<open>
  What the observer of artifacts sees on every path, also when call backs, the source or the consumer raise: a
  bounded number of runs, and at last none.
\<close>

section \<open>The tracker\<close>

definition tracked :: "nat list \<Rightarrow> sort_state \<Rightarrow> bool" where
  "tracked ps s = (distinct (map fst (st_sizes s)) \<and> fst ` set (st_sizes s) \<subseteq> set ps)"

definition bounded :: "nat \<Rightarrow> sort_state \<Rightarrow> bool" where
  "bounded C s = (\<forall>(b, n) \<in> set (st_seen s). n \<le> C)"

definition observed :: "nat \<Rightarrow> sort_state \<Rightarrow> bool" where
  \<comment> \<open>the observer was never told of too many runs, and knows the present ones\<close>
  "observed C s = (bounded C s \<and> (if st_seen s = [] then st_sizes s = []
     else last (st_seen s) = (sum_list (map snd (st_sizes s)), length (st_sizes s))))"

definition holds :: "nat \<Rightarrow> nat list \<Rightarrow> sort_state \<Rightarrow> bool" where
  "holds C ps s = (tracked ps s \<and> observed C s)"

lemma holds_set: "set ps \<subseteq> set qs \<Longrightarrow> holds C ps s \<Longrightarrow> holds C qs s"
  by (auto simp: holds_def tracked_def)

lemma spec_holds_set: "spec (holds C ps) m Q E \<Longrightarrow> set qs \<subseteq> set ps \<Longrightarrow> spec (holds C qs) m Q E"
  by (erule spec_weaken) (auto intro: holds_set)

lemma publish_holds:
  assumes "length ps \<le> C" and "distinct (map fst al)" and "fst ` set al \<subseteq> set ps" and "holds C qs s"
  shows "holds C ps (snd (publish cb (s\<lparr>st_sizes := al\<rparr>)))"
proof -
  have "length al = card (fst ` set al)" using assms(2) by (metis distinct_card length_map set_map)
  also have "\<dots> \<le> card (set ps)" using assms(3) by (intro card_mono) simp_all
  also have "\<dots> \<le> C" using card_length [of ps] assms(1) by simp
  finally show ?thesis
    using assms(2-4) by (auto simp: publish_def call_back_def holds_def tracked_def observed_def bounded_def)
qed

lemma spec_snd: "(\<And>s. P s \<Longrightarrow> Q (snd (m s))) \<Longrightarrow> spec P m (\<lambda>_. Q) (\<lambda>_. Q)"
  by (intro specI) (metis snd_conv)+

lemma check_holds: "spec (holds C ps) (check_cancellation cb) (\<lambda>_. holds C ps) (\<lambda>_. holds C ps)"
  by (intro spec_snd) (simp add: check_cancellation_def call_back_def holds_def tracked_def observed_def bounded_def)

lemma holds_tracked: "holds C ps s \<Longrightarrow> distinct (map fst (st_sizes s)) \<and> fst ` set (st_sizes s) \<subseteq> set ps"
  by (simp add: holds_def tracked_def)

lemma begin_holds:
  assumes "length (p # ps) \<le> C"
  shows "spec (holds C ps) (begin_artifact cb p) (\<lambda>_. holds C (p # ps)) (\<lambda>_. holds C (p # ps))"
proof (intro spec_snd)
  fix s assume h: "holds C ps s"
  with holds_tracked [OF h] show "holds C (p # ps) (snd (begin_artifact cb p s))"
    unfolding begin_artifact_def using assms by (intro publish_holds) (auto simp: distinct_update dom_update)
qed

lemma resize_holds:
  assumes "length ps \<le> C"
  shows "spec (holds C ps) (resize_artifact cb p n) (\<lambda>_. holds C ps) (\<lambda>_. holds C ps)"
proof (intro spec_snd)
  fix s assume h: "holds C ps s"
  have "holds C ps (snd (publish cb (s\<lparr>st_sizes := AList.update p n (st_sizes s)\<rparr>)))" if "map_of (st_sizes s) p = Some k" for k
    using assms holds_tracked [OF h] h map_of_SomeD [OF that]
    by (intro publish_holds) (auto simp: distinct_update dom_update)
  with h show "holds C ps (snd (resize_artifact cb p n s))" by (simp add: resize_artifact_def split: option.split)
qed

lemma remove_holds:
  assumes "length ps \<le> C"
  shows "spec (holds C (p # ps)) (remove_artifact cb p) (\<lambda>_. holds C ps) (\<lambda>_. holds C ps)"
proof (intro spec_snd)
  fix s assume h: "holds C (p # ps) s"
  have "fst ` set (AList.delete p (st_sizes s)) = fst ` set (st_sizes s) - {p}" by (metis delete_keys set_map set_removeAll)
  with holds_tracked [OF h] show "holds C ps (snd (remove_artifact cb p s))"
    unfolding remove_artifact_def using assms h by (intro publish_holds) (auto simp: distinct_delete)
qed

section \<open>Writing and removing runs\<close>

lemma holds_files [simp]: "holds C ps (s\<lparr>st_files := fs\<rparr>) = holds C ps s" "holds C ps (s\<lparr>st_fresh := n\<rparr>) = holds C ps s"
  by (simp_all add: holds_def tracked_def observed_def bounded_def)

lemma write_encoded_holds:
  assumes "length ps \<le> C" and "holds C ps s" and "consume (write_encoded cb p t n) s = (r, u)"
  shows "holds C ps u"
proof -
  obtain rr v where v: "resize_artifact cb p (n + length t + 1) s = (rr, v)" by fastforce
  with resize_holds [OF assms(1), of cb p "n + length t + 1"] assms(2) have "holds C ps v"
    by (cases rr) (auto simp: spec_def split: prod.splits sum.splits)
  with assms(3) v show ?thesis by (cases rr) (auto simp: consume_def write_encoded_def Let_def bindS_def)
qed

lemma resume_state: "snd (resume x s) = s"
  by (cases x) (simp_all add: retS_def raiseS_def)

lemma write_rows_holds:
  assumes C: "length ps + 1 \<le> C"
    and rows: "\<And>sink S s. (\<And>x acc s r t. S s \<Longrightarrow> sink x acc s = (r, t) \<Longrightarrow> S t) \<Longrightarrow>
      (\<And>s r t. S s \<Longrightarrow> check_cancellation cb s = (r, t) \<Longrightarrow> S t) \<Longrightarrow> S s \<Longrightarrow> S (snd (rows sink 0 s))"
  shows "spec (holds C ps) (write_encoded_rows cb rows) (\<lambda>p. holds C (p # ps)) (\<lambda>_. holds C ps)"
proof -
  have body: "spec (holds C ps) (bindS (begin_artifact cb p) (\<lambda>_.
      bindS (rows (\<lambda>t n. consume (write_encoded cb p t n)) 0) resume)) (\<lambda>_. holds C (p # ps)) (\<lambda>_. holds C (p # ps))" for p
  proof (rule spec_bind [OF begin_holds])
    have len: "length (p # ps) \<le> C" using C by simp
    have chk: "holds C (p # ps) s \<Longrightarrow> check_cancellation cb s = (r, t) \<Longrightarrow> holds C (p # ps) t" for s r t
      using check_holds [of C "p # ps" cb] by (cases r) (auto simp: spec_def split: prod.splits sum.splits)
    have "holds C (p # ps) s \<Longrightarrow> holds C (p # ps) (snd (rows (\<lambda>t n. consume (write_encoded cb p t n)) 0 s))" for s
      by (rule rows) (use write_encoded_holds [OF len] chk in blast)+
    then show "spec (holds C (p # ps)) (bindS (rows (\<lambda>t n. consume (write_encoded cb p t n)) 0) resume)
        (\<lambda>_. holds C (p # ps)) (\<lambda>_. holds C (p # ps))"
      by (intro spec_bind [OF spec_snd] spec_snd) (simp_all add: resume_state)
  qed (use C in simp)
  have handler: "spec (holds C (p # ps)) (bindS (remove_artifact cb p) (\<lambda>_. bindS (unlink p) (\<lambda>_. raiseS e :: nat sorter))) (\<lambda>_ _. False) (\<lambda>_. holds C ps)"
    for p and e :: py_error
    using C by (intro spec_bind [OF remove_holds]) (auto simp: spec_def unlink_def bindS_def raiseS_def)
  show ?thesis unfolding spec_def
  proof (intro allI impI)
    fix s assume h: "holds C ps s"
    let ?p = "st_fresh s"
    let ?s1 = "s\<lparr>st_fresh := ?p + 1, st_files := AList.update ?p [] (st_files s)\<rparr>"
    let ?body = "bindS (begin_artifact cb ?p) (\<lambda>_. bindS (rows (\<lambda>t n. consume (write_encoded cb ?p t n)) 0) resume)"
    obtain r u where b: "?body ?s1 = (r, u)" by fastforce
    have s1: "holds C ps ?s1" using h by simp
    show "case write_encoded_rows cb rows s of (Inr p, t) \<Rightarrow> holds C (p # ps) t | (Inl e, t) \<Rightarrow> holds C ps t"
    proof (cases r)
      case (Inr x)
      then show ?thesis using specD(1) [OF body s1] b by (simp add: write_encoded_rows_def Let_def)
    next
      case (Inl e)
      obtain r' v where v: "bindS (remove_artifact cb ?p) (\<lambda>_. bindS (unlink ?p) (\<lambda>_. raiseS e :: nat sorter)) u = (r', v)" by fastforce
      have u: "holds C (?p # ps) u" using specD(2) [OF body s1] b Inl by simp
      with specD [OF handler u] v Inl b show ?thesis by (cases r') (auto simp: write_encoded_rows_def Let_def)
    qed
  qed
qed

lemma write_run_holds:
  assumes "length ps + 1 \<le> C"
  shows "spec (holds C ps) (write_run cb rows) (\<lambda>p. holds C (p # ps)) (\<lambda>_. holds C ps)"
proof (cases "sort_rows rows")
  case (Inr xs)
  have "spec (holds C ps) (write_encoded_rows cb (\<lambda>sink. list_each sink (map snd xs))) (\<lambda>p. holds C (p # ps)) (\<lambda>_. holds C ps)"
    by (rule write_rows_holds [OF assms]) (rule list_each_inv [where Q = "\<lambda>_. True", THEN conjunct2]; blast)
  then show ?thesis by (simp add: write_run_def Inr)
qed (simp add: write_run_def spec_raise)

lemma write_merged_run_holds:
  assumes "length ps + 1 \<le> C"
  shows "spec (holds C ps) (write_merged_run cb cfg runs) (\<lambda>p. holds C (p # ps)) (\<lambda>_. holds C ps)"
  unfolding write_merged_run_def
proof (rule write_rows_holds [OF assms])
  fix sink :: "utext \<Rightarrow> nat \<Rightarrow> nat flow sorter" and S s
  assume a: "\<And>x acc s r t. S s \<Longrightarrow> sink x acc s = (r, t) \<Longrightarrow> S t" "\<And>s r t. S s \<Longrightarrow> check_cancellation cb s = (r, t) \<Longrightarrow> S t" "S s"
  have "S (snd (merge_each cb cfg sink heap iters 0 s))" for heap iters
    by (rule merge_each_inv [where H = "\<lambda>_. True" and Q = "\<lambda>_. True" and S = S, THEN conjunct2])
      (simp_all add: a(3) split: option.split, (use a(1,2) in blast)+)
  then show "S (snd (merge_encoded_runs cb cfg runs sink 0 s))"
    using a(3) by (simp add: merge_encoded_runs_def bindS_def liftS_def split: sum.split prod.split)
qed

lemma remove_runs_holds:
  "length (qs @ ps) \<le> C \<Longrightarrow> spec (holds C (qs @ ps)) (remove_runs cb qs) (\<lambda>_. holds C ps) (\<lambda>_. observed C)"
proof (induction qs)
  case Nil
  show ?case by (simp add: spec_ret)
next
  case (Cons q qs)
  have "spec (holds C (q # qs @ ps)) (unlink q) (\<lambda>_. holds C (q # qs @ ps)) (\<lambda>_. observed C)"
    by (simp add: spec_def unlink_def)
  moreover have "spec (holds C (q # qs @ ps)) (remove_artifact cb q) (\<lambda>_. holds C (qs @ ps)) (\<lambda>_. observed C)"
    using Cons(2) by (intro spec_weaken [OF remove_holds [of "qs @ ps" C q cb]]) (auto simp: holds_def)
  ultimately show ?case using Cons by (auto intro: spec_bind)
qed

lemma merge_members_holds:
  assumes "length (members @ ps) + 1 \<le> C" and "\<And>out. spec (holds C (out # ps)) (f out) Q (\<lambda>_. observed C)"
  shows "spec (holds C (members @ ps)) (bindS (write_merged_run cb cfg members) (\<lambda>out. bindS (remove_runs cb members) (\<lambda>_. f out)))
    Q (\<lambda>_. observed C)"
proof (rule spec_bind)
  show "spec (holds C (members @ ps)) (write_merged_run cb cfg members) (\<lambda>p. holds C (p # members @ ps)) (\<lambda>_. observed C)"
    using assms(1) by (intro spec_weaken [OF write_merged_run_holds [of "members @ ps" C cb cfg members]]) (auto simp: holds_def)
next
  fix out
  have "spec (holds C (members @ out # ps)) (remove_runs cb members) (\<lambda>_. holds C (out # ps)) (\<lambda>_. observed C)"
    using assms(1) by (intro remove_runs_holds) simp
  then have "spec (holds C (out # members @ ps)) (remove_runs cb members) (\<lambda>_. holds C (out # ps)) (\<lambda>_. observed C)"
    by (rule spec_holds_set) auto
  then show "spec (holds C (out # members @ ps)) (bindS (remove_runs cb members) (\<lambda>_. f out)) Q (\<lambda>_. observed C)"
    using assms(2) by (rule spec_bind)
qed

section \<open>Levels\<close>

definition levels_ok :: "sort_config \<Rightarrow> nat list list \<Rightarrow> bool" where
  "levels_ok cfg levels = (level_ok (fan_in cfg) levels \<and> length levels = MAX_RUN_LEVELS)"

definition artifact_bound :: "sort_config \<Rightarrow> nat" where
  \<comment> \<open>all levels but for one run full, one run more, and the output of a merge\<close>
  "artifact_bound cfg = MAX_RUN_LEVELS * (fan_in cfg - 1) + 2"

lemma concat_levels: "level_ok f ls \<Longrightarrow> length (concat ls) \<le> length ls * (f - 1)"
  by (induction ls) (auto simp: level_ok_def)

lemma levels_bound: "levels_ok cfg levels \<Longrightarrow> length (concat levels) + 2 \<le> artifact_bound cfg"
  using concat_levels [of "fan_in cfg" levels] by (simp add: levels_ok_def artifact_bound_def)

lemma add_run_holds:
  assumes fan: "2 \<le> sc_merge_fan_in cfg"
  shows "levels_ok cfg levels \<Longrightarrow> spec (holds (artifact_bound cfg) (path # concat levels)) (add_run cb cfg levels path level)
    (\<lambda>lv s. levels_ok cfg lv \<and> holds (artifact_bound cfg) (concat lv) s) (\<lambda>_. observed (artifact_bound cfg))"
proof (induction "length levels - level" arbitrary: levels path level)
  case 0
  then have "add_run cb cfg levels path level = raiseS run_bound_error" by (intro ext) (simp add: add_run.simps)
  then show ?case by (auto intro!: spec_raise simp: holds_def)
next
  case (Suc n)
  let ?members = "levels ! level @ [path]"
  have l: "level < length levels" using Suc(2) by simp
  have f: "sc_merge_fan_in cfg = int (fan_in cfg)" using fan by (simp add: fan_in_def)
  have eq: "add_run cb cfg levels path level = (if length ?members < fan_in cfg then retS (levels[level := ?members])
      else bindS (write_merged_run cb cfg ?members) (\<lambda>out. bindS (remove_runs cb ?members) (\<lambda>_.
           add_run cb cfg (levels[level := []]) out (level + 1))))"
    using l f by (intro ext) (subst add_run.simps, simp add: Let_def)
  have split: "concat levels = concat (take level levels) @ levels ! level @ concat (drop (Suc level) levels)"
    by (subst id_take_nth_drop [OF l]) simp
  have upd: "concat (levels[level := x]) = concat (take level levels) @ x @ concat (drop (Suc level) levels)" for x
    by (subst upd_conv_take_nth_drop [OF l]) simp
  show ?case
  proof (cases "length ?members < fan_in cfg")
    case True
    then have "levels_ok cfg (levels[level := ?members])"
      using Suc(3) set_update_subset_insert [of levels level ?members] by (auto simp: levels_ok_def level_ok_def)
    moreover have "set (path # concat levels) \<subseteq> set (concat (levels[level := ?members]))" by (auto simp: split upd)
    note holds_set [OF this]
    ultimately show ?thesis unfolding eq using True by (simp only: if_True) (intro spec_ret conjI)
  next
    case False
    let ?rest = "concat (levels[level := []])"
    have ok: "levels_ok cfg (levels[level := []])"
      using Suc(3) set_update_subset_insert [of levels level "[]"] fan by (auto simp: levels_ok_def level_ok_def fan_in_def)
    have "n = length (levels[level := []]) - (level + 1)" using Suc(2) by simp
    note ih = Suc(1) [OF this ok]
    have "length (?members @ ?rest) + 1 \<le> artifact_bound cfg"
      using levels_bound [OF Suc(3)] by (simp add: split upd)
    from merge_members_holds [OF this ih, of cb cfg] have "spec (holds (artifact_bound cfg) (?members @ ?rest)) (add_run cb cfg levels path level)
        (\<lambda>lv s. levels_ok cfg lv \<and> holds (artifact_bound cfg) (concat lv) s) (\<lambda>_. observed (artifact_bound cfg))"
      unfolding eq using False by simp
    then show ?thesis by (rule spec_holds_set) (auto simp: split upd)
  qed
qed

lemma finalize_holds:
  "length (concat levels @ ps) + 1 \<le> C \<Longrightarrow> spec (holds C (concat levels @ ps)) (finalize_run_levels cb cfg levels)
     (\<lambda>final. holds C (final @ ps)) (\<lambda>_. observed C)"
proof (induction levels arbitrary: ps)
  case Nil
  show ?case by (simp add: spec_ret)
next
  case (Cons members rest)
  show ?case
  proof (cases "length members \<le> 1")
    case True
    have "spec (holds C (concat rest @ members @ ps)) (finalize_run_levels cb cfg rest) (\<lambda>final. holds C (final @ members @ ps)) (\<lambda>_. observed C)"
      using Cons(2) by (intro Cons(1)) simp
    then have "spec (holds C (concat (members # rest) @ ps)) (finalize_run_levels cb cfg rest) (\<lambda>final. holds C ((members @ final) @ ps)) (\<lambda>_. observed C)"
      by (rule spec_weaken) (auto intro: holds_set [rotated])
    from spec_bind [OF this, of "\<lambda>final. retS (members @ final)" "\<lambda>final. holds C (final @ ps)"] show ?thesis
      using True by (simp add: spec_ret)
  next
    case False
    have "spec (holds C (out # concat rest @ ps)) (bindS (finalize_run_levels cb cfg rest) (\<lambda>final. retS (out # final)))
        (\<lambda>final. holds C (final @ ps)) (\<lambda>_. observed C)" for out
    proof (rule spec_bind)
      have "spec (holds C (concat rest @ out # ps)) (finalize_run_levels cb cfg rest) (\<lambda>final. holds C (final @ out # ps)) (\<lambda>_. observed C)"
        using Cons(2) False by (intro Cons(1)) simp
      then show "spec (holds C (out # concat rest @ ps)) (finalize_run_levels cb cfg rest) (\<lambda>final. holds C ((out # final) @ ps)) (\<lambda>_. observed C)"
        by (rule spec_weaken) (auto intro: holds_set [rotated])
    qed (simp add: spec_ret)
    from merge_members_holds [OF _ this, of members cb cfg] Cons(2) False show ?thesis by simp
  qed
qed

section \<open>Sorting\<close>

abbreviation buffer_holds :: "sort_config \<Rightarrow> sort_buffer \<Rightarrow> sort_state \<Rightarrow> bool" where
  "buffer_holds cfg b s \<equiv> levels_ok cfg (sb_levels b) \<and> holds (artifact_bound cfg) (concat (sb_levels b)) s"

lemma flush_holds:
  assumes fan: "2 \<le> sc_merge_fan_in cfg"
  shows "spec (buffer_holds cfg b) (flush cb cfg b) (buffer_holds cfg) (\<lambda>_. observed (artifact_bound cfg))"
proof (cases "levels_ok cfg (sb_levels b)")
  case True
  let ?C = "artifact_bound cfg"
  have "spec (holds ?C (concat (sb_levels b))) (write_run cb (sb_buffered b)) (\<lambda>p. holds ?C (p # concat (sb_levels b))) (\<lambda>_. observed ?C)"
    using levels_bound [OF True] by (intro spec_weaken [OF write_run_holds [of "concat (sb_levels b)" ?C]]) (auto simp: holds_def)
  moreover have "spec (holds ?C (path # concat (sb_levels b))) (bindS (add_run cb cfg (sb_levels b) path 0) (\<lambda>levels.
      retS \<lparr>sb_buffered = [], sb_bytes = 0, sb_levels = levels, sb_has_runs = True\<rparr>)) (buffer_holds cfg) (\<lambda>_. observed ?C)" for path
    by (rule spec_bind [OF add_run_holds [OF fan True]]) (simp add: spec_ret)
  ultimately have "spec (holds ?C (concat (sb_levels b))) (flush cb cfg b) (buffer_holds cfg) (\<lambda>_. observed ?C)"
    unfolding flush_def by (rule spec_bind)
  then show ?thesis by (rule spec_weaken) auto
qed (simp add: spec_def)

lemma absorb_item_holds:
  assumes fan: "2 \<le> sc_merge_fan_in cfg"
  shows "spec (buffer_holds cfg b) (absorb_item cb cfg x b) (buffer_holds cfg) (\<lambda>_. observed (artifact_bound cfg))"
proof -
  have "spec (buffer_holds cfg b) (if full then flush cb cfg b else retS b) (buffer_holds cfg) (\<lambda>_. observed (artifact_bound cfg))" for full b
    using flush_holds [OF fan, of b cb] by (auto intro: spec_ret)
  moreover have "spec (buffer_holds cfg b1)
      (let b2 = b1\<lparr>sb_buffered := sb_buffered b1 @ [x], sb_bytes := sb_bytes b1 + length (snd x)\<rparr>
       in if sc_run_byte_limit cfg \<le> int (sb_bytes b2) then flush cb cfg b2 else retS b2)
      (buffer_holds cfg) (\<lambda>_. observed (artifact_bound cfg))" for b1
    using flush_holds [OF fan, of "b1\<lparr>sb_buffered := sb_buffered b1 @ [x], sb_bytes := sb_bytes b1 + length (snd x)\<rparr>" cb]
    unfolding Let_def by (auto intro!: spec_ret)
  ultimately show ?thesis unfolding absorb_item_def Let_def [of "length (snd x)"] by (rule spec_bind)
qed

lemma encode_row_holds:
  "spec (holds C ps) (encode_row cb cfg row) (\<lambda>_. holds C ps) (\<lambda>_. observed C)"
proof -
  have chk: "spec (holds C ps) (check_cancellation cb) (\<lambda>_. holds C ps) (\<lambda>_. observed C)"
    using check_holds by (rule spec_weaken) (auto simp: holds_def)
  have raise: "spec (holds C ps) (raiseS e) Q (\<lambda>_. observed C)" for e and Q :: "'c \<Rightarrow> sort_state \<Rightarrow> bool"
    by (rule spec_raise) (simp add: holds_def)
  have "spec (holds C ps) (encode_chunks cb cs) (\<lambda>_. holds C ps) (\<lambda>_. observed C)" for cs
    by (induction cs) (auto intro!: spec_ret spec_bind [OF chk] intro: spec_bind)
  then have "spec (holds C ps) (encode_value cb v) (\<lambda>_. holds C ps) (\<lambda>_. observed C)" for v
    unfolding encode_value_def by (rule spec_bind) (auto intro!: spec_ret spec_bind [OF chk] raise)
  then have enc: "spec (holds C ps) (bindS (encode_value cb v) (\<lambda>t. retS (key, t))) (\<lambda>_. holds C ps) (\<lambda>_. observed C)" for v and key :: "sort_atom list"
    by (rule spec_bind) (simp add: spec_ret)
  have lift: "spec (holds C ps) (liftS r) (\<lambda>_. holds C ps) (\<lambda>_. observed C)" for r :: "sort_atom list result"
    by (cases r) (auto simp: spec_def liftS_def holds_def)
  have "spec (holds C ps) (bindS (liftS k) (\<lambda>key. bindS (encode_value cb v) (\<lambda>t. retS (key, t)))) (\<lambda>_. holds C ps) (\<lambda>_. observed C)"
    for k :: "sort_atom list result" and v by (rule spec_bind [OF lift enc])
  then show ?thesis by (auto simp: encode_row_def intro!: raise split: row.split)
qed

lemma absorb_rows_holds:
  assumes fan: "2 \<le> sc_merge_fan_in cfg"
  shows "spec (buffer_holds cfg b) (absorb_rows cb cfg source b) (buffer_holds cfg) (\<lambda>_. observed (artifact_bound cfg))"
proof (induction source arbitrary: b)
  case Nil
  show ?case by (simp add: spec_ret)
next
  case (Cons x source)
  let ?C = "artifact_bound cfg"
  show ?case
  proof (cases x)
    case (Inl e)
    then show ?thesis by (auto intro!: spec_raise simp: holds_def)
  next
    case (Inr row)
    show ?thesis
    proof (cases "levels_ok cfg (sb_levels b)")
      case True
      have "spec (holds ?C (concat (sb_levels b))) (check_cancellation cb) (\<lambda>_. holds ?C (concat (sb_levels b))) (\<lambda>_. observed ?C)"
        using check_holds by (rule spec_weaken) (auto simp: holds_def)
      moreover have "spec (holds ?C (concat (sb_levels b))) (bindS (absorb_item cb cfg i b) (\<lambda>b'. absorb_rows cb cfg source b'))
          (buffer_holds cfg) (\<lambda>_. observed ?C)" for i
        using spec_bind [OF absorb_item_holds [OF fan] Cons, of b cb i] True by simp
      ultimately have "spec (holds ?C (concat (sb_levels b))) (absorb_rows cb cfg (x # source) b) (buffer_holds cfg) (\<lambda>_. observed ?C)"
        unfolding Inr absorb_rows.simps by (intro spec_bind [OF _ spec_bind [OF encode_row_holds]])
      then show ?thesis by (rule spec_weaken) auto
    qed (simp add: spec_def)
  qed
qed

definition untouched :: "(utext \<Rightarrow> 'b \<Rightarrow> 'b flow sorter) \<Rightarrow> bool" where
  \<comment> \<open>a consumer outside of the sort\<close>
  "untouched sink = (\<forall>t acc s. st_sizes (snd (sink t acc s)) = st_sizes s \<and> st_seen (snd (sink t acc s)) = st_seen s)"

lemma sort_body_shown:
  assumes cfg: "valid_config cfg" and sink: "untouched sink"
  shows "spec (\<lambda>s. st_sizes s = [] \<and> st_seen s = []) (sort_body cb cfg source sink acc)
    (\<lambda>_. observed (artifact_bound cfg)) (\<lambda>_. observed (artifact_bound cfg))"
proof -
  let ?C = "artifact_bound cfg"
  have fan: "2 \<le> sc_merge_fan_in cfg" using cfg by (simp add: valid_config_def)
  have seen: "observed ?C t" if "st_sizes t = st_sizes s" "st_seen t = st_seen s" "observed ?C s" for s t
    using that by (simp add: observed_def bounded_def)
  have chk: "observed ?C s \<Longrightarrow> check_cancellation cb s = (r, t) \<Longrightarrow> observed ?C t" for s r t
    by (rule seen) (auto simp: check_cancellation_def call_back_def)
  have snk: "observed ?C s \<Longrightarrow> sink x a s = (r, t) \<Longrightarrow> observed ?C t" for s x a r t
    using sink [unfolded untouched_def, rule_format, of x a s] by (auto intro: seen [of t s])
  have both: "observed ?C t" if "observed ?C s" "checked cb sink x a s = (r, t)" for s x a r t
  proof -
    obtain rc u where c: "check_cancellation cb s = (rc, u)" by fastforce
    with chk [OF that(1)] have "observed ?C u" .
    with that(2) c snk [of u x a r t] show ?thesis by (cases rc) (auto simp: checked_def bindS_def)
  qed
  have mem: "spec (observed ?C) (list_each (checked cb sink) xs acc) (\<lambda>_. observed ?C) (\<lambda>_. observed ?C)" for xs
  proof (rule spec_snd, rule list_each_inv [where S = "observed ?C" and Q = "\<lambda>_. True", THEN conjunct2])
    fix x a s r t assume "observed ?C s" "checked cb sink x a s = (r, t)"
    from both [OF this] show "observed ?C t \<and> ((\<forall>acc'. r \<noteq> Inr (Continue acc')) \<longrightarrow> True)" by simp
  qed simp_all
  have "observed ?C s \<Longrightarrow> observed ?C (snd (merge_each cb cfg sink heap iters acc s))" for heap iters s
  proof (rule merge_each_inv [where H = "\<lambda>_. True" and Q = "\<lambda>_. True" and S = "observed ?C", THEN conjunct2])
    fix s r t assume "observed ?C s" "check_cancellation cb s = (r, t)"
    from chk [OF this] show "observed ?C t \<and> (\<forall>e. r = Inl e \<longrightarrow> True)" by simp
  next
    fix x a s r t assume "observed ?C s" "sink x a s = (r, t)"
    from snk [OF this] show "observed ?C t \<and> ((\<forall>acc'. r \<noteq> Inr (Continue acc')) \<longrightarrow> True)" by simp
  qed (simp_all split: option.split)
  then have merge: "spec (observed ?C) (merge_encoded_runs cb cfg runs sink acc) (\<lambda>_. observed ?C) (\<lambda>_. observed ?C)" for runs
    by (intro spec_snd) (simp add: merge_encoded_runs_def bindS_def liftS_def split: sum.split prod.split)
  have start: "spec (\<lambda>s. st_sizes s = [] \<and> st_seen s = []) (absorb_rows cb cfg source empty_buffer) (buffer_holds cfg) (\<lambda>_. observed ?C)"
    using fan by (intro spec_weaken [OF absorb_rows_holds [OF fan]])
      (auto simp: empty_buffer_def levels_ok_def level_ok_def fan_in_def holds_def tracked_def observed_def bounded_def)
  show ?thesis unfolding sort_body_def
  proof (rule spec_bind [OF start])
    fix b
    have "spec (buffer_holds cfg b) (if sb_buffered b \<noteq> [] then flush cb cfg b else retS b) (buffer_holds cfg) (\<lambda>_. observed ?C)"
      using flush_holds [OF fan, of b cb] by (auto intro: spec_ret)
    moreover have "spec (buffer_holds cfg b') (bindS (finalize_run_levels cb cfg (sb_levels b')) (\<lambda>runs. merge_encoded_runs cb cfg runs sink acc))
        (\<lambda>_. observed ?C) (\<lambda>_. observed ?C)" for b'
    proof (cases "levels_ok cfg (sb_levels b')")
      case True
      from levels_bound [OF True] have "spec (holds ?C (concat (sb_levels b'))) (finalize_run_levels cb cfg (sb_levels b')) (\<lambda>_. observed ?C) (\<lambda>_. observed ?C)"
        by (intro spec_weaken [OF finalize_holds [of "sb_levels b'" "[]" ?C]]) (auto simp: holds_def)
      from spec_bind [OF this merge] show ?thesis by (rule spec_weaken) auto
    qed (simp add: spec_def)
    moreover have "spec (buffer_holds cfg b) (bindS (liftS r) (\<lambda>rows. list_each (checked cb sink) (map snd rows) acc)) (\<lambda>_. observed ?C) (\<lambda>_. observed ?C)"
      for r :: "sort_item list result"
      by (rule spec_bind [where Q = "\<lambda>_. observed ?C", OF _ mem]) (auto simp: spec_def liftS_def holds_def split: sum.split)
    ultimately show "spec (buffer_holds cfg b)
      (if \<not> sb_has_runs b then bindS (liftS (sort_rows (sb_buffered b))) (\<lambda>rows. list_each (checked cb sink) (map snd rows) acc)
       else bindS (if sb_buffered b \<noteq> [] then flush cb cfg b else retS b) (\<lambda>b'.
            bindS (finalize_run_levels cb cfg (sb_levels b')) (\<lambda>runs. merge_encoded_runs cb cfg runs sink acc)))
      (\<lambda>_. observed ?C) (\<lambda>_. observed ?C)" by (auto intro: spec_bind)
  qed
qed

text \<open>
  Claim C36 (live runs): whatever the rows, whichever call back raises and when the consumer gives up, the observer
  of a sort is never told of more than \<open>4 * (fan_in - 1) + 2\<close> runs; what it is told last is that there are none
  and no bytes, and neither a file nor a tracked artifact is left.
\<close>

theorem artifacts_bounded:
  assumes "valid_config cfg" and "st_sizes s = []" and "st_seen s = []"
    and "untouched sink" and "external_sort_encoded_rows cb cfg source sink acc s = (r, c, t)"
  shows "(\<forall>(bytes, n) \<in> set (st_seen t). n \<le> 4 * (fan_in cfg - 1) + 2)
    \<and> (st_seen t \<noteq> [] \<longrightarrow> last (st_seen t) = (0, 0)) \<and> st_files t = [] \<and> st_sizes t = []"
proof -
  obtain u where u: "sort_body cb cfg source sink acc s = (r, u)" "clear_artifacts cb (u\<lparr>st_files := []\<rparr>) = (c, t)"
    using assms(1,5) by (auto simp: external_sort_encoded_rows_def split: prod.splits)
  from sort_body_shown [OF assms(1,4), where cb = cb and source = source and acc = acc] assms(2,3) u(1) have sh: "observed (artifact_bound cfg) u"
    by (cases r) (auto simp: spec_def split: prod.splits sum.splits)
  have files: "st_files t = []" and sizes: "st_sizes t = []"
    using u(2) by (auto simp: clear_artifacts_def publish_def call_back_def split: if_splits)
  have "st_seen t = st_seen u \<and> st_sizes u = [] \<or> st_seen t = st_seen u @ [(0, 0)]"
    using u(2) by (auto simp: clear_artifacts_def publish_def call_back_def split: if_splits)
  with sh have "bounded (artifact_bound cfg) t \<and> (st_seen t \<noteq> [] \<longrightarrow> last (st_seen t) = (0, 0))"
    by (auto simp: observed_def bounded_def)
  with files sizes show ?thesis by (simp add: bounded_def artifact_bound_def MAX_RUN_LEVELS_def)
qed

definition impatient :: callbacks where
  "impatient n = (if n = 40 then Some LockNotAvailable else None)"

theorem artifacts_bounded_witness:
  "case external_sort_encoded_rows impatient demo_sort (source_of demo_rows) collect [] fresh_state of
     (r, c, t) \<Rightarrow> list_all (\<lambda>(bytes, n). n \<le> 6) (st_seen t) \<and> st_files t = []"
proof -
  obtain r c t where e: "external_sort_encoded_rows impatient demo_sort (source_of demo_rows) collect [] fresh_state = (r, c, t)"
    by (rule prod_cases3)
  have "valid_config demo_sort" "st_sizes fresh_state = []" "st_seen fresh_state = []" "fan_in demo_sort = 2" by code_simp+
  then show ?thesis
    using artifacts_bounded [OF _ _ _ _ e] by (simp add: e list_all_iff untouched_def collect_def retS_def)
qed

end
