(* ===== verification/Structural_Digest.thy ===== *)
theory Structural_Digest
  imports External_Sort
begin

text \<open>
  The semantic digest of a graph (\<^verbatim>\<open>storage/structural_digest.py\<close>): SHA-256 over the JSON text of the seven row families,
  written piece by piece. SHA-256 is a parameter. All call backs, also the \<^verbatim>\<open>chunk_observer\<close>, are the parameter \<open>cb\<close>.
  The rows of a family are an iterator, given by what it does with a consumer.
\<close>

section \<open>Families\<close>

definition STRUCTURAL_DIGEST_FIELDS :: "(string \<times> string list) list" where
  "STRUCTURAL_DIGEST_FIELDS =
     [(''files'', [''path'', ''language'', ''role'', ''content_hash'', ''executable'', ''generated'', ''metadata_json'']),
      (''raw_observations'', [''source_ordinal'', ''schema_version'', ''kind'', ''source_id'', ''path'', ''payload_json'',
         ''payload_hash'']),
      (''canonical_nodes'', [''graph_key_version'', ''canonical_key'', ''kind'', ''display_name'', ''metadata_json'',
         ''confidence'', ''conflict'']),
      (''canonical_edges'', [''graph_key_version'', ''source_canonical_key'', ''edge_kind'', ''target_canonical_key'',
         ''identity_metadata_json'', ''identity_metadata_hash'', ''metadata_json'', ''confidence'', ''conflict'']),
      (''canonical_evidence'', [''graph_key_version'', ''evidence_key'', ''raw_observation_ordinal'', ''raw_schema_version'',
         ''raw_kind'', ''raw_source_id'', ''path'', ''start_line'', ''end_line'', ''extractor'', ''extractor_version'',
         ''confidence'', ''metadata_json'']),
      (''canonical_node_evidence'', [''canonical_key'', ''evidence_key'', ''link_kind'']),
      (''canonical_edge_evidence'', [''source_canonical_key'', ''edge_kind'', ''target_canonical_key'',
         ''identity_metadata_hash'', ''evidence_key'', ''link_kind''])]"

definition STRUCTURAL_DIGEST_FAMILY_CODES :: "string list" where
  "STRUCTURAL_DIGEST_FAMILY_CODES = sort (map fst STRUCTURAL_DIGEST_FIELDS)"

definition ORDER_INDEXES :: "(string \<times> int list) list" where
  "ORDER_INDEXES =
     [(''files'', [0]), (''raw_observations'', [0]), (''canonical_nodes'', [0, 1]), (''canonical_edges'', [0, 1, 2, 3, 5]),
      (''canonical_evidence'', [0, 1]), (''canonical_node_evidence'', [0, 1, 2]), (''canonical_edge_evidence'', [0, 1, 2, 3, 4, 5])]"

definition ORDER_TYPES :: "(string \<times> key_type list) list" where
  "ORDER_TYPES =
     [(''files'', [Str_type]), (''raw_observations'', [Int_type]), (''canonical_nodes'', [Int_type, Str_type]),
      (''canonical_edges'', [Int_type, Str_type, Str_type, Str_type, Str_type]), (''canonical_evidence'', [Int_type, Str_type]),
      (''canonical_node_evidence'', [Str_type, Str_type, Str_type]),
      (''canonical_edge_evidence'', [Str_type, Str_type, Str_type, Str_type, Str_type, Str_type])]"

definition family_entry :: "(string \<times> 'a list) list \<Rightarrow> string \<Rightarrow> 'a list" where
  "family_entry table code = (case map_of table code of Some x \<Rightarrow> x | None \<Rightarrow> [])"

abbreviation fields_of :: "string \<Rightarrow> string list" where
  "fields_of \<equiv> family_entry STRUCTURAL_DIGEST_FIELDS"

section \<open>Writing the digest\<close>

datatype digest_row = Encoded utext | Raw row

type_synonym digest_acc = "utext \<times> bool"   \<comment> \<open>what was hashed, and whether the next row is the first\<close>
type_synonym row_iterator = "(digest_row \<Rightarrow> digest_acc \<Rightarrow> digest_acc flow sorter) \<Rightarrow> digest_acc \<Rightarrow> digest_acc flow sorter"

datatype digest_family = StructuralDigestFamily string row_iterator | NotFamily

definition update :: "callbacks \<Rightarrow> utext \<Rightarrow> utext \<Rightarrow> utext sorter" where
  "update cb payload hashed =
     bindS (check_cancellation cb) (\<lambda>_. bindS (call_back cb) (\<lambda>_. retS (hashed @ payload)))"

fun update_chunks :: "callbacks \<Rightarrow> utext list \<Rightarrow> utext \<Rightarrow> utext sorter" where
  \<comment> \<open>the loop over chunks, each preceded by the check of the generator\<close>
  "update_chunks cb [] hashed = retS hashed"
| "update_chunks cb (c # cs) hashed =
     bindS (check_cancellation cb) (\<lambda>_. bindS (update cb c hashed) (\<lambda>hashed'. update_chunks cb cs hashed'))"

definition encode_json :: "callbacks \<Rightarrow> utext list \<times> bool \<Rightarrow> utext \<Rightarrow> utext sorter" where
  "encode_json cb ps hashed =
     bindS (update_chunks cb (concat (map iter_text_chunks (fst ps))) hashed) (\<lambda>hashed'.
     if snd ps then bindS (check_cancellation cb) (\<lambda>_. retS hashed')
     else raiseS (StructuralDigestError ''structural digest row value is invalid''))"

definition encode_canonical_row :: "callbacks \<Rightarrow> utext \<Rightarrow> utext \<Rightarrow> utext sorter" where
  "encode_canonical_row cb encoded = update_chunks cb (iter_text_chunks encoded)"

definition digest_one_row :: "callbacks \<Rightarrow> string \<Rightarrow> digest_row \<Rightarrow> digest_acc \<Rightarrow> digest_acc sorter" where
  \<comment> \<open>the body of the loop of \<^verbatim>\<open>_encode_rows\<close>\<close>
  "digest_one_row cb code row acc =
     bindS (check_cancellation cb) (\<lambda>_.
     bindS (if snd acc then retS (fst acc) else update cb [44] (fst acc)) (\<lambda>hashed.
     bindS (case row of
              Encoded t \<Rightarrow> encode_canonical_row cb t hashed
            | Raw NotRow \<Rightarrow> raiseS (StructuralDigestError ''structural digest row is invalid'')
            | Raw (Row fs) \<Rightarrow>
                if length fs \<noteq> length (fields_of code)
                then raiseS (StructuralDigestError ''structural digest row is invalid'')
                else encode_json cb (row_parts fs) hashed) (\<lambda>hashed'.
     retS (hashed', False))))"

definition encode_rows :: "callbacks \<Rightarrow> string \<Rightarrow> row_iterator \<Rightarrow> utext \<Rightarrow> utext sorter" where
  "encode_rows cb code rows hashed =
     bindS (rows (\<lambda>row acc. consume (digest_one_row cb code row acc)) (hashed, True)) (\<lambda>r.
     bindS (resume r) (\<lambda>acc. retS (fst acc)))"

fun digest_families :: "callbacks \<Rightarrow> bool \<Rightarrow> string list \<Rightarrow> digest_family list \<Rightarrow> utext \<Rightarrow> utext sorter" where
  \<comment> \<open>the loop of \<^verbatim>\<open>structural_digest\<close> over the expected families, and the check that no other follows\<close>
  "digest_families cb first [] families hashed =
     (if families = [] then retS hashed else raiseS (StructuralDigestError ''structural digest family is unexpected''))"
| "digest_families cb first (code # codes) [] hashed = raiseS (StructuralDigestError ''structural digest family is missing'')"
| "digest_families cb first (code # codes) (NotFamily # families) hashed =
     raiseS (StructuralDigestError ''structural digest family order is invalid'')"
| "digest_families cb first (code # codes) (StructuralDigestFamily code' rows # families) hashed =
     (if code' \<noteq> code then raiseS (StructuralDigestError ''structural digest family order is invalid'')
      else bindS (if first then retS hashed else update cb [44] hashed) (\<lambda>hashed.
           bindS (encode_json cb (parts (NStr (asc code)), True) hashed) (\<lambda>hashed.
           bindS (update cb [58, 91] hashed) (\<lambda>hashed.
           bindS (encode_rows cb code rows hashed) (\<lambda>hashed.
           bindS (update cb [93] hashed) (\<lambda>hashed.
           digest_families cb False codes families hashed))))))"

definition structural_digest :: "callbacks \<Rightarrow> (utext \<Rightarrow> string) \<Rightarrow> digest_family list \<Rightarrow> string sorter" where
  "structural_digest cb sha256 families =
     bindS (update cb [123] []) (\<lambda>hashed.
     bindS (digest_families cb True STRUCTURAL_DIGEST_FAMILY_CODES families hashed) (\<lambda>hashed.
     bindS (update cb [125] hashed) (\<lambda>hashed.
     bindS (check_cancellation cb) (\<lambda>_. retS (sha256 hashed)))))"

section \<open>Prepared rows\<close>

datatype prepared_row = Mapping "(string \<times> field) list" | NotMapping

definition invalid_prepared_row :: py_error where
  "invalid_prepared_row = StructuralDigestError ''prepared structural digest row is invalid''"

definition project_prepared_row :: "string list \<Rightarrow> prepared_row result \<Rightarrow> row result" where
  "project_prepared_row names row =
     bindE row (\<lambda>row.
     case row of
       NotMapping \<Rightarrow> Inl invalid_prepared_row
     | Mapping kvs \<Rightarrow>
         (case those (map (map_of kvs) names) of None \<Rightarrow> Inl invalid_prepared_row | Some vs \<Rightarrow> Inr (Row vs)))"

definition digest_config :: "string \<Rightarrow> sort_config" where
  "digest_config code =
     \<lparr>sc_key_indexes = family_entry ORDER_INDEXES code, sc_field_count = int (length (fields_of code)),
      sc_key_types = Some (family_entry ORDER_TYPES code), sc_run_byte_limit = 4 * 1024 * 1024, sc_merge_fan_in = 32\<rparr>"

fun ordering_error :: "py_error \<Rightarrow> py_error" where
  "ordering_error (ExternalRowSortError _) = StructuralDigestError ''prepared structural digest ordering failed''"
| "ordering_error e = e"

definition ordered_prepared_rows :: "callbacks \<Rightarrow> prepared_row result list \<Rightarrow> string \<Rightarrow> row_iterator" where
  \<comment> \<open>an abandoned sort is closed when it is collected, and what it raises then is dropped\<close>
  "ordered_prepared_rows cb rows code sink acc s =
     (case external_sort_encoded_rows cb (digest_config code) (map (project_prepared_row (fields_of code)) rows)
             (\<lambda>t acc. sink (Encoded t) acc) acc s of
        (Inr (Abandon e), c, t) \<Rightarrow> (Inr (Abandon e), t)
      | (r, c, t) \<Rightarrow> ((case closed r c of Inl e \<Rightarrow> Inl (ordering_error e) | Inr x \<Rightarrow> Inr x), t))"

definition digest_prepared_stage_rows ::
  "callbacks \<Rightarrow> (utext \<Rightarrow> string) \<Rightarrow> (string \<times> prepared_row result list) list \<Rightarrow> string sorter" where
  "digest_prepared_stage_rows cb sha256 prepared =
     (if set (map fst prepared) \<noteq> set STRUCTURAL_DIGEST_FAMILY_CODES
      then raiseS (StructuralDigestError ''prepared structural digest families are invalid'')
      else structural_digest cb sha256
        (map (\<lambda>code. StructuralDigestFamily code (ordered_prepared_rows cb (family_entry prepared code) code))
          STRUCTURAL_DIGEST_FAMILY_CODES))"

end
