(* ===== verification/Digest_Properties.thy ===== *)
theory Digest_Properties
  imports Structural_Digest Sort_Types
begin

text \<open>
  The digest written piece by piece, over rows that were sorted in bounded memory, is the digest of the JSON text
  of the whole graph, and does not depend on the order in which the rows arrive.
\<close>

section \<open>Steps that only count call backs\<close>

definition plain :: "'a sorter \<Rightarrow> 'a \<Rightarrow> bool" where
  "plain m x = (\<forall>s. \<exists>c. m s = (Inr x, s\<lparr>st_calls := c\<rparr>))"

lemma plain_bind:
  assumes "plain m x" and "plain (f x) y"
  shows "plain (bindS m f) y"
  unfolding plain_def
proof
  fix s
  obtain c where "m s = (Inr x, s\<lparr>st_calls := c\<rparr>)" using assms(1) by (auto simp: plain_def)
  moreover obtain d where "f x (s\<lparr>st_calls := c\<rparr>) = (Inr y, s\<lparr>st_calls := c, st_calls := d\<rparr>)"
    using assms(2) unfolding plain_def by blast
  ultimately show "\<exists>c. bindS m f s = (Inr y, s\<lparr>st_calls := c\<rparr>)" by (auto simp: bindS_def)
qed

lemma plain_ret: "plain (retS x) x"
  unfolding plain_def
proof
  fix s :: sort_state
  show "\<exists>c. retS x s = (Inr x, s\<lparr>st_calls := c\<rparr>)" by (intro exI [of _ "st_calls s"]) (simp add: retS_def)
qed

lemma plain_check: "plain (check_cancellation quiet) ()" "plain (call_back quiet) ()"
  by (auto simp: plain_def check_cancellation_def call_back_def)

lemma plain_update: "plain (update quiet payload hashed) (hashed @ payload)"
  unfolding update_def by (intro plain_bind [OF plain_check(1)] plain_bind [OF plain_check(2)] plain_ret)

lemma plain_chunks: "plain (update_chunks quiet cs hashed) (hashed @ concat cs)"
proof (induction cs arbitrary: hashed)
  case (Cons c cs)
  from Cons [of "hashed @ c"] show ?case
    by (auto intro!: plain_bind [OF plain_check(1)] plain_bind [OF plain_update])
qed (simp add: plain_ret)

lemma plain_json: "plain (encode_json quiet (ps, True) hashed) (hashed @ concat ps)"
proof -
  have "plain (update_chunks quiet (concat (map iter_text_chunks ps)) hashed) (hashed @ concat ps)"
    using plain_chunks [of "concat (map iter_text_chunks ps)" hashed] by (simp add: concat_part_chunks)
  then show ?thesis unfolding encode_json_def by (auto intro!: plain_bind [OF plain_check(1)] plain_ret elim!: plain_bind)
qed

section \<open>One family\<close>

fun joins :: "bool \<Rightarrow> utext list \<Rightarrow> utext" where
  "joins first [] = []"
| "joins first (t # ts) = (if first then [] else [44]) @ t @ joins False ts"

lemma joins_items: "joins first (map dumps xs) = (if xs = [] \<or> first then [] else [44]) @ dumps_items xs"
  by (induction xs arbitrary: first) auto

abbreviation digest_sink :: "string \<Rightarrow> utext \<Rightarrow> digest_acc \<Rightarrow> digest_acc flow sorter" where
  "digest_sink code t acc \<equiv> consume (digest_one_row quiet code (Encoded t) acc)"

lemma plain_consume: "plain m x \<Longrightarrow> plain (consume m) (Continue x)"
  unfolding plain_def
proof
  fix s
  assume "\<forall>s. \<exists>c. m s = (Inr x, s\<lparr>st_calls := c\<rparr>)"
  then obtain c where "m s = (Inr x, s\<lparr>st_calls := c\<rparr>)" by blast
  then show "\<exists>c. consume m s = (Inr (Continue x), s\<lparr>st_calls := c\<rparr>)" by (auto simp: consume_def)
qed

lemma plain_separator: "plain (if first then retS hashed else update quiet [44] hashed) (hashed @ (if first then [] else [44]))"
  using plain_ret [of hashed] plain_update [of "[44]" hashed] by simp

lemma plain_digest_row:
  "plain (digest_one_row quiet code (Encoded t) (hashed, first)) (hashed @ (if first then [] else [44]) @ t, False)"
proof -
  let ?h = "hashed @ (if first then [] else [44])"
  have "plain (encode_canonical_row quiet t ?h) (?h @ t)"
    unfolding encode_canonical_row_def using plain_chunks [of "iter_text_chunks t" ?h] by simp
  then show ?thesis
    unfolding digest_one_row_def fst_conv snd_conv digest_row.case
    by (intro plain_bind [OF plain_check(1)] plain_bind [OF plain_separator]) (simp add: plain_bind plain_ret)
qed

lemma plain_rows:
  "plain (list_each (checked quiet (digest_sink code)) ts (hashed, first))
     (Continue (hashed @ joins first ts, first \<and> ts = []))"
proof (induction ts arbitrary: hashed first)
  case Nil
  show ?case by (simp add: plain_ret)
next
  case (Cons t ts)
  have "plain (checked quiet (digest_sink code) t (hashed, first)) (Continue (hashed @ (if first then [] else [44]) @ t, False))"
    unfolding checked_def by (intro plain_bind [OF plain_check(1)] plain_consume plain_digest_row)
  moreover have "plain (list_each (checked quiet (digest_sink code)) ts (hashed @ (if first then [] else [44]) @ t, False))
      (Continue (hashed @ joins first (t # ts), False))"
    using Cons [of "hashed @ (if first then [] else [44]) @ t" False] by simp
  ultimately show ?case by (auto elim!: plain_bind)
qed

section \<open>Steps without left over files\<close>

definition gives :: "'a sorter \<Rightarrow> 'a result \<Rightarrow> bool" where
  "gives m r = (\<forall>s. st_files s = [] \<longrightarrow> (\<exists>t. m s = (r, t) \<and> st_files t = []))"

lemma plain_gives: "plain m x \<Longrightarrow> gives m (Inr x)"
  unfolding plain_def gives_def
proof (intro allI impI)
  fix s :: sort_state
  assume "\<forall>s. \<exists>c. m s = (Inr x, s\<lparr>st_calls := c\<rparr>)" and s: "st_files s = []"
  then obtain c where "m s = (Inr x, s\<lparr>st_calls := c\<rparr>)" by blast
  with s show "\<exists>t. m s = (Inr x, t) \<and> st_files t = []" by simp
qed

lemma gives_bind: "gives m (Inr x) \<Longrightarrow> gives (f x) r \<Longrightarrow> gives (bindS m f) r"
  by (fastforce simp: gives_def bindS_def)

lemma gives_fail: "gives m (Inl e) \<Longrightarrow> gives (bindS m f) (Inl e)"
  by (fastforce simp: gives_def bindS_def)

lemma finishedE: "finished out r \<Longrightarrow> \<exists>t. out = (r, Inr (), t) \<and> st_files t = []"
  by (auto simp: finished_def split: prod.splits)

lemma family_configs: "list_all (\<lambda>code. valid_config (digest_config code)) STRUCTURAL_DIGEST_FAMILY_CODES"
  by code_simp

lemma items_agree:
  assumes "valid_config (digest_config code)"
  shows "agree (set (items_of (digest_config code) rows))"
proof (rule typed_agree)
  show "typed (family_entry ORDER_TYPES code) (set (items_of (digest_config code) rows))"
  proof -
    have "map atom_type (fst x) = family_entry ORDER_TYPES code" if "row_item (digest_config code) vs = Inr x" for vs x
      using sort_key_typed [OF assms, of "family_entry ORDER_TYPES code" "map Value vs"] that
      by (cases "sort_key_of (digest_config code) (map Value vs)") (auto simp: row_item_def digest_config_def)
    moreover have "\<exists>vs. row_item (digest_config code) vs = Inr x" if "x \<in> set (items_of (digest_config code) rows)" for x
      using that unfolding items_of_def by (auto split: sum.splits) (metis+)?
    ultimately show ?thesis unfolding typed_def by blast
  qed
qed

definition ordering_failed :: py_error where
  "ordering_failed = StructuralDigestError ''prepared structural digest ordering failed''"

lemma ordered_rows_quiet:
  assumes cfg: "valid_config (digest_config code)" and proper: "list_all (proper_row (digest_config code)) rows"
    and rows: "map (project_prepared_row (fields_of code)) prepared = source_of rows"
  shows "gives (ordered_prepared_rows quiet prepared code (\<lambda>row acc. consume (digest_one_row quiet code row acc)) (hashed, True))
    (if within_bound (digest_config code) rows
     then Inr (Continue (hashed @ joins True (map snd (sort (items_of (digest_config code) rows))), rows = []))
     else Inl ordering_failed)"
  unfolding gives_def
proof (intro allI impI)
  fix s :: sort_state
  let ?cfg = "digest_config code" and ?h = "(hashed, True)"
  let ?ts = "map snd (sort (items_of ?cfg rows))"
  assume s: "st_files s = []"
  note body = sort_body_quiet [OF items_agree [OF cfg] proper cfg s, of "digest_sink code" ?h]
  show "\<exists>t. ordered_prepared_rows quiet prepared code (\<lambda>row acc. consume (digest_one_row quiet code row acc)) ?h s
    = (if within_bound ?cfg rows then Inr (Continue (hashed @ joins True ?ts, rows = [])) else Inl ordering_failed, t) \<and> st_files t = []"
  proof (cases "within_bound ?cfg rows")
    case True
    with body obtain t where t: "sort_body quiet ?cfg (source_of rows) (digest_sink code) ?h s
        = list_each (checked quiet (digest_sink code)) ?ts ?h t" by (auto simp: within_bound_def)
    have n: "?ts = [] \<longleftrightarrow> rows = []" using items_decode [OF proper]
      by (metis length_0_conv length_map length_sort)
    obtain u where "sort_body quiet ?cfg (source_of rows) (digest_sink code) ?h s = (Inr (Continue (hashed @ joins True ?ts, rows = [])), u)"
      using plain_rows [of code ?ts hashed True] n unfolding t plain_def by auto
    from finishedE [OF finished_quiet [OF cfg this]] True show ?thesis
      by (auto simp: ordered_prepared_rows_def rows)
  next
    case False
    with body obtain t where "sort_body quiet ?cfg (source_of rows) (digest_sink code) ?h s = (Inl run_bound_error, t)"
      by (auto simp: within_bound_def)
    from finishedE [OF finished_quiet [OF cfg this]] False show ?thesis
      by (auto simp: ordered_prepared_rows_def rows run_bound_error_def ordering_failed_def)
  qed
qed

section \<open>The whole graph\<close>

type_synonym graph = "string \<Rightarrow> jval list list"   \<comment> \<open>the rows of each family, as values\<close>

definition order_item :: "string \<Rightarrow> jval list \<Rightarrow> sort_item" where
  \<comment> \<open>a row's sort key and, for rows with the same key, its encoding\<close>
  "order_item code vs = (case row_item (digest_config code) vs of Inr x \<Rightarrow> x | Inl _ \<Rightarrow> ([], []))"

definition graph_json :: "graph \<Rightarrow> jval" where
  \<comment> \<open>the graph as one object of families, each family in the order of one sort\<close>
  "graph_json g =
     NObj (map (\<lambda>code. (asc code, NArr (map NArr (sort_key (order_item code) (g code))))) (map fst STRUCTURAL_DIGEST_FIELDS))"

definition proper_graph :: "graph \<Rightarrow> bool" where
  "proper_graph g = list_all (\<lambda>code. list_all (proper_row (digest_config code)) (g code)) STRUCTURAL_DIGEST_FAMILY_CODES"

definition represents :: "(string \<times> prepared_row result list) list \<Rightarrow> graph \<Rightarrow> bool" where
  \<comment> \<open>the prepared rows of each family project to the rows of the graph\<close>
  "represents prepared g =
     (set (map fst prepared) = set STRUCTURAL_DIGEST_FAMILY_CODES
      \<and> list_all (\<lambda>code. map (project_prepared_row (fields_of code)) (family_entry prepared code) = source_of (g code))
          STRUCTURAL_DIGEST_FAMILY_CODES)"

definition same_rows :: "graph \<Rightarrow> graph \<Rightarrow> bool" where
  "same_rows g h = list_all (\<lambda>code. mset (g code) = mset (h code)) STRUCTURAL_DIGEST_FAMILY_CODES"

definition graph_fits :: "graph \<Rightarrow> bool" where
  "graph_fits g = list_all (\<lambda>code. within_bound (digest_config code) (g code)) STRUCTURAL_DIGEST_FAMILY_CODES"

lemma sort_map: "sort (map f xs) = map f (sort_key f xs)"
  by (rule properties_for_sort) simp_all

lemma insort_key_map: "insort_key f (g x) (map g xs) = map g (insort_key (\<lambda>x. f (g x)) x xs)"
  by (induction xs) auto

lemma sort_key_map: "sort_key f (map g xs) = map g (sort_key (\<lambda>x. f (g x)) xs)"
  by (induction xs) (simp_all add: insort_key_map)

lemma family_keys: "sort_key asc (map fst STRUCTURAL_DIGEST_FIELDS) = STRUCTURAL_DIGEST_FAMILY_CODES"
  by code_simp

lemma items_are_order:
  assumes "list_all (proper_row (digest_config code)) rows"
  shows "items_of (digest_config code) rows = map (order_item code) rows"
  using assms
proof (induction rows)
  case (Cons vs rows)
  with proper_item [of "digest_config code" vs] show ?case by (auto simp: items_of_Cons order_item_def)
qed (simp add: items_of_def)

definition family_json :: "graph \<Rightarrow> string \<Rightarrow> jval list" where
  "family_json g code = map (\<lambda>vs. canonical (NArr vs)) (sort_key (order_item code) (g code))"

lemma family_text:
  assumes "list_all (proper_row (digest_config code)) (g code)" and "mset (g code) = mset (h code)"
  shows "map snd (sort (items_of (digest_config code) (g code))) = map dumps (family_json h code)"
proof -
  have h: "list_all (proper_row (digest_config code)) (h code)"
    using assms mset_eq_setD [OF assms(2)] by (simp add: list_all_iff)
  have snd: "snd (order_item code vs) = dumps (canonical (NArr vs))" if "vs \<in> set (h code)" for vs
    using proper_item [of "digest_config code" vs] h that by (auto simp: order_item_def row_item_def list_all_iff result_simps)
  have "sort (items_of (digest_config code) (g code)) = sort (items_of (digest_config code) (h code))"
    using assms h by (intro sort_mset_cong) (simp add: items_are_order)
  then show ?thesis using snd by (simp add: items_are_order [OF h] sort_map family_json_def)
qed

lemma canonical_graph: "canonical (graph_json h) = NObj (map (\<lambda>code. (asc code, NArr (family_json h code))) STRUCTURAL_DIGEST_FAMILY_CODES)"
proof -
  let ?f = "\<lambda>code. (asc code, NArr (family_json h code))"
  have "canonical (graph_json h) = NObj (sort_key fst (map ?f (map fst STRUCTURAL_DIGEST_FIELDS)))"
    by (simp add: graph_json_def family_json_def comp_def)
  then show ?thesis by (simp only: sort_key_map [of fst ?f] fst_conv family_keys)
qed

lemma encode_rows_quiet:
  assumes cfg: "valid_config (digest_config code)" and proper: "list_all (proper_row (digest_config code)) (g code)"
    and rows: "map (project_prepared_row (fields_of code)) prepared = source_of (g code)" and h: "mset (g code) = mset (h code)"
  shows "gives (encode_rows quiet code (ordered_prepared_rows quiet prepared code) hashed)
    (if within_bound (digest_config code) (g code) then Inr (hashed @ dumps_items (family_json h code)) else Inl ordering_failed)"
proof (cases "within_bound (digest_config code) (g code)")
  case True
  with ordered_rows_quiet [OF cfg proper rows, of hashed] family_text [of code g h, OF proper h]
  have "gives (ordered_prepared_rows quiet prepared code (\<lambda>row acc. consume (digest_one_row quiet code row acc)) (hashed, True))
      (Inr (Continue (hashed @ dumps_items (family_json h code), g code = [])))" by (simp add: joins_items)
  then have "gives (encode_rows quiet code (ordered_prepared_rows quiet prepared code) hashed) (Inr (hashed @ dumps_items (family_json h code)))"
    unfolding encode_rows_def by (rule gives_bind) (simp add: plain_gives plain_ret)
  with True show ?thesis by simp
next
  case False
  with ordered_rows_quiet [OF cfg proper rows, of hashed] show ?thesis
    unfolding encode_rows_def by (simp add: gives_fail)
qed

lemma digest_families_quiet:
  assumes "list_all (\<lambda>code. valid_config (digest_config code) \<and> list_all (proper_row (digest_config code)) (g code)
      \<and> map (project_prepared_row (fields_of code)) (prepared code) = source_of (g code) \<and> mset (g code) = mset (h code)) codes"
  shows "gives (digest_families quiet first codes
      (map (\<lambda>code. StructuralDigestFamily code (ordered_prepared_rows quiet (prepared code) code)) codes) hashed)
    (if list_all (\<lambda>code. within_bound (digest_config code) (g code)) codes
     then Inr (hashed @ (if codes = [] \<or> first then [] else [44]) @ dumps_members (map (\<lambda>code. (asc code, NArr (family_json h code))) codes))
     else Inl ordering_failed)"
  using assms
proof (induction codes arbitrary: first hashed)
  case Nil
  show ?case by (simp add: plain_gives plain_ret)
next
  case (Cons code codes)
  let ?fam = "\<lambda>code. StructuralDigestFamily code (ordered_prepared_rows quiet (prepared code) code)"
  let ?h = "((hashed @ (if first then [] else [44])) @ quoted (asc code)) @ [58, 91]"
  have json: "plain (encode_json quiet (parts (NStr (asc code)), True) hashed) (hashed @ quoted (asc code))" for hashed
    using plain_json [of "parts (NStr (asc code))" hashed] by simp
  have head: "gives (digest_families quiet first (code # codes) (map ?fam (code # codes)) hashed) r"
    if "gives (bindS (encode_rows quiet code (ordered_prepared_rows quiet (prepared code) code) ?h)
          (\<lambda>t. bindS (update quiet [93] t) (digest_families quiet False codes (map ?fam codes)))) r" for r
    using that unfolding list.map digest_families.simps
    by (simp only: not_not simp_thms if_False)
      (rule gives_bind [OF plain_gives [OF plain_separator]], rule gives_bind [OF plain_gives [OF json]],
        rule gives_bind [OF plain_gives [OF plain_update]], simp)
  have rows: "gives (encode_rows quiet code (ordered_prepared_rows quiet (prepared code) code) ?h)
      (if within_bound (digest_config code) (g code) then Inr (?h @ dumps_items (family_json h code)) else Inl ordering_failed)"
    by (rule encode_rows_quiet) (use Cons(2) in simp_all)
  show ?case
  proof (cases "within_bound (digest_config code) (g code)")
    case True
    let ?h' = "(?h @ dumps_items (family_json h code)) @ [93]"
    have "gives (digest_families quiet False codes
        (map (\<lambda>code. StructuralDigestFamily code (ordered_prepared_rows quiet (prepared code) code)) codes) ?h')
      (if list_all (\<lambda>code. within_bound (digest_config code) (g code)) (code # codes)
       then Inr (hashed @ (if first then [] else [44]) @ dumps_members (map (\<lambda>code. (asc code, NArr (family_json h code))) (code # codes)))
       else Inl ordering_failed)"
      using Cons(1) [of False ?h'] Cons(2) True 
      by (cases "codes = []"; cases first; cases "list_all (\<lambda>code. within_bound (digest_config code) (g code)) codes") simp_all
    then have rest: "gives (bindS (update quiet [93] (?h @ dumps_items (family_json h code))) (digest_families quiet False codes (map ?fam codes)))
      (if list_all (\<lambda>code. within_bound (digest_config code) (g code)) (code # codes)
       then Inr (hashed @ (if first then [] else [44]) @ dumps_members (map (\<lambda>code. (asc code, NArr (family_json h code))) (code # codes)))
       else Inl ordering_failed)"
      by (rule gives_bind [OF plain_gives [OF plain_update]])
    have "gives (encode_rows quiet code (ordered_prepared_rows quiet (prepared code) code) ?h)
        (Inr (?h @ dumps_items (family_json h code)))" using rows True by simp
    from head [OF gives_bind [OF this], OF rest] show ?thesis by (simp only: list.distinct simp_thms)
  next
    case False
    with rows have "gives (encode_rows quiet code (ordered_prepared_rows quiet (prepared code) code) ?h) (Inl ordering_failed)" by simp
    from head [OF gives_fail [OF this]] False show ?thesis by simp
  qed
qed

text \<open>
  Claim C37 (semantic digest): let the prepared rows of the seven families have the right fields, typed identity fields and
  readable values, and let call backs not raise. If no family needs more runs than the sort allows, the digest is the hash
  of the JSON text, with sorted keys, of the one object that holds every family in sorted order. It is the same for
  every graph with the same rows, in whatever order they arrive. If some family needs more, the digest is refused.
  Either way no file is left.
\<close>

theorem digest_is_canonical:
  assumes "represents prepared g" and "proper_graph g" and "same_rows g h" and "st_files s = []"
  shows "\<exists>t. digest_prepared_stage_rows quiet sha256 prepared s
      = (if graph_fits g then Inr (sha256 (dumps (canonical (graph_json h)))) else Inl ordering_failed, t) \<and> st_files t = []"
proof -
  let ?codes = STRUCTURAL_DIGEST_FAMILY_CODES
  let ?ms = "dumps_members (map (\<lambda>code. (asc code, NArr (family_json h code))) ?codes)"
  have "list_all (\<lambda>code. valid_config (digest_config code) \<and> list_all (proper_row (digest_config code)) (g code)
      \<and> map (project_prepared_row (fields_of code)) (family_entry prepared code) = source_of (g code) \<and> mset (g code) = mset (h code)) ?codes"
    using assms family_configs by (simp add: represents_def proper_graph_def same_rows_def list_all_iff)
  note families = digest_families_quiet [OF this, of True "[123]"]
  let ?fam = "\<lambda>code. StructuralDigestFamily code (ordered_prepared_rows quiet (family_entry prepared code) code)"
  have "gives (digest_families quiet True ?codes (map ?fam ?codes) [123])
    (if graph_fits g then Inr ([123] @ ?ms) else Inl ordering_failed)"
    using families unfolding graph_fits_def by (cases "graph_fits g") (simp_all add: graph_fits_def)
  then have "gives (bindS (digest_families quiet True ?codes (map ?fam ?codes) [123]) (\<lambda>hashed.
      bindS (update quiet [125] hashed) (\<lambda>hashed. bindS (check_cancellation quiet) (\<lambda>_. retS (sha256 hashed)))))
    (if graph_fits g then Inr (sha256 (dumps (canonical (graph_json h)))) else Inl ordering_failed)"
  proof (cases "graph_fits g")
    case True
    have "plain (bindS (update quiet [125] ([123] @ ?ms)) (\<lambda>hashed. bindS (check_cancellation quiet) (\<lambda>_. retS (sha256 hashed))))
        (sha256 (([123] @ ?ms) @ [125]))"
      by (rule plain_bind [OF plain_update plain_bind [OF plain_check(1) plain_ret]])
    from plain_gives [OF this] have "gives (bindS (digest_families quiet True ?codes (map ?fam ?codes) [123]) (\<lambda>hashed.
        bindS (update quiet [125] hashed) (\<lambda>hashed. bindS (check_cancellation quiet) (\<lambda>_. retS (sha256 hashed)))))
      (Inr (sha256 (([123] @ ?ms) @ [125])))"
      by (rule gives_bind [of _ "[123] @ ?ms", rotated]) (use families True in \<open>simp add: graph_fits_def\<close>)
    with True show ?thesis by (simp add: canonical_graph)
  next
    case False
    with families gives_fail show ?thesis by (simp add: graph_fits_def)
  qed
  then have "gives (structural_digest quiet sha256 (map ?fam ?codes))
      (if graph_fits g then Inr (sha256 (dumps (canonical (graph_json h)))) else Inl ordering_failed)"
    unfolding structural_digest_def by (rule gives_bind [OF plain_gives [OF plain_update [of "[123]" "[]", simplified]]])
  with assms(1) have "gives (digest_prepared_stage_rows quiet sha256 prepared)
      (if graph_fits g then Inr (sha256 (dumps (canonical (graph_json h)))) else Inl ordering_failed)"
    by (simp add: digest_prepared_stage_rows_def represents_def)
  with assms(4) show ?thesis by (simp add: gives_def)
qed

definition demo_graph :: "jval list list \<Rightarrow> graph" where
  "demo_graph links code = (if code = ''canonical_node_evidence'' then links else [])"

definition demo_stage :: "(string \<times> prepared_row result list) list" where
  \<comment> \<open>two links, the larger first, one of them with a field the digest does not use\<close>
  "demo_stage =
     map (\<lambda>code. (code, [])) [''files'', ''raw_observations'', ''canonical_nodes'', ''canonical_edges'', ''canonical_evidence''] @
     [(''canonical_node_evidence'',
        [Inr (Mapping [(''link_kind'', Value (NStr [100])), (''canonical_key'', Value (NStr [98])), (''evidence_key'', Value (NStr [101]))]),
         Inr (Mapping [(''canonical_key'', Value (NStr [97])), (''evidence_key'', Value (NStr [101])), (''link_kind'', Value (NStr [100])),
           (''run'', Value (NInt 7))])]),
      (''canonical_edge_evidence'', [])]"

abbreviation demo_links :: "jval list list" where
  "demo_links \<equiv> [[NStr [98], NStr [101], NStr [100]], [NStr [97], NStr [101], NStr [100]]]"

theorem digest_is_canonical_witness:
  "\<exists>t. digest_prepared_stage_rows quiet (map char_of) demo_stage fresh_state
     = (Inr (''{\"canonical_edge_evidence\":[],\"canonical_edges\":[],\"canonical_evidence\":[],\"canonical_node_evidence\":'' @
             ''[[\"a\",\"e\",\"d\"],[\"b\",\"e\",\"d\"]],\"canonical_nodes\":[],\"files\":[],\"raw_observations\":[]}''), t) \<and> st_files t = []"
proof -
  have rep: "represents demo_stage (demo_graph demo_links)" by code_simp
  have same: "same_rows (demo_graph demo_links) (demo_graph (rev demo_links))" by code_simp
  have "list_all (\<lambda>code. run_total (sc_run_byte_limit (digest_config code)) (items_of (digest_config code) (demo_graph demo_links code)) = 0)
      STRUCTURAL_DIGEST_FAMILY_CODES" by code_simp
  moreover have "0 < run_bound (digest_config code)" for code by (simp add: fan_in_def digest_config_def)
  ultimately have fits: "graph_fits (demo_graph demo_links)" by (simp add: graph_fits_def within_bound_def list_all_iff)
  have printed: "map char_of (dumps (canonical (graph_json (demo_graph (rev demo_links)))))
      = ''{\"canonical_edge_evidence\":[],\"canonical_edges\":[],\"canonical_evidence\":[],\"canonical_node_evidence\":'' @
        ''[[\"a\",\"e\",\"d\"],[\"b\",\"e\",\"d\"]],\"canonical_nodes\":[],\"files\":[],\"raw_observations\":[]}''" by code_simp
  have "list_all (proper_row (digest_config ''canonical_node_evidence'')) demo_links"
    by (simp add: proper_row_def digest_config_def family_entry_def STRUCTURAL_DIGEST_FIELDS_def ORDER_INDEXES_def ORDER_TYPES_def
        sort_key_of_def py_index_def scalar_def high_surrogate_def low_surrogate_def)
  then have "proper_graph (demo_graph demo_links)" by (auto simp: proper_graph_def demo_graph_def list_all_iff)
  moreover have "st_files fresh_state = []" by (simp add: fresh_state_def)
  ultimately show ?thesis
    using digest_is_canonical [OF rep _ same, of fresh_state "map char_of", unfolded printed] fits by (simp only: if_True)
qed

end
