(* ===== verification/Graph_Keys.thy ===== *)
theory Graph_Keys
  imports Utf8 "HOL-Library.Sublist"
begin

text \<open>
  Canonical graph keys (\<^verbatim>\<open>graph/keys.py\<close>, \<^verbatim>\<open>graph/_key_namespaces.py\<close>): percent-encoded segments behind a namespace, the
  parser and its validator, and the checks that the key builders share. Text is a list of code points. An argument is a
  string or one of the other things the program asks for. The faults stand for the messages of \<^verbatim>\<open>GraphKeyError\<close>;
  only the way Python prints one character (\<^verbatim>\<open>repr\<close>) is a parameter of the messages.
\<close>

section \<open>Arguments and errors\<close>

datatype py_arg =
    PyStr utext
  | PurePathArg utext            \<comment> \<open>a \<^verbatim>\<open>PurePath\<close>, with its \<^verbatim>\<open>as_posix()\<close>\<close>
  | PathLikeArg "utext option"   \<comment> \<open>another \<^verbatim>\<open>os.PathLike\<close>; \<open>None\<close> when \<^verbatim>\<open>os.fspath\<close> gives bytes\<close>
  | OtherArg

datatype key_fault =
    KeyNotString | KeyRequired | SeparatorMissing | UnknownNamespace utext | SegmentCount utext nat
  | SegmentRequired | ReservedCharacter nat | NotUtf8 | MalformedEscape | LowercaseEscape
  | FilePathMissing | EmptyComponent | NotNormalized | KeyEscapes
  | PathType | PathRequired | PathAbsolute | PathEscapes
  | GoRequired | GoTooLong nat | GoNotSlashPath | GoTraverses | GoFallback | GoParent
  | FileParent | WrongParent utext | PointerRequired | PointerNotNormalized | JsPointerRequired | JsOwner
  | ScopeUnsafe | DirectoryNotRelative | SourceModuleParent | SourcePackageParent

datatype key_error =
    GraphKeyError key_fault
  | UnicodeEncodeError      \<comment> \<open>a lone surrogate has no UTF-8 form\<close>
  | NamespaceKeyError utext  \<comment> \<open>\<^verbatim>\<open>_SEGMENT_COUNTS[namespace]\<close>\<close>

type_synonym 'a keyed = "key_error + 'a"
type_synonym key_result = "utext keyed"

abbreviation fault :: "key_fault \<Rightarrow> 'a keyed" where
  "fault f \<equiv> Inl (GraphKeyError f)"

fun fault_text :: "(nat \<Rightarrow> utext) \<Rightarrow> key_fault \<Rightarrow> utext" where
  \<comment> \<open>\<^verbatim>\<open>str(error)\<close>; \<open>repr\<close> is how Python prints a character\<close>
  "fault_text repr KeyNotString = asc ''canonical key must be a string''"
| "fault_text repr KeyRequired = asc ''canonical key is required''"
| "fault_text repr SeparatorMissing = asc ''canonical key must include a namespace separator''"
| "fault_text repr (UnknownNamespace ns) = asc ''unknown canonical key namespace: '' @ ns"
| "fault_text repr (SegmentCount ns n) = ns @ asc '' keys require '' @ asc (nat_text n) @ asc '' segments''"
| "fault_text repr SegmentRequired = asc ''canonical key segment is required''"
| "fault_text repr (ReservedCharacter c) = asc ''reserved character '' @ repr c @ asc '' must be percent-encoded''"
| "fault_text repr NotUtf8 = asc ''percent-encoded segment is not valid UTF-8''"
| "fault_text repr MalformedEscape = asc ''malformed percent escape''"
| "fault_text repr LowercaseEscape = asc ''percent escapes must use uppercase hex digits''"
| "fault_text repr FilePathMissing = asc ''file key requires a path''"
| "fault_text repr EmptyComponent = asc ''file key path must not contain empty components''"
| "fault_text repr NotNormalized = asc ''file key path must be normalized''"
| "fault_text repr KeyEscapes = asc ''file key path must not escape the repository''"
| "fault_text repr PathType = asc ''file path must be a string or path-like object''"
| "fault_text repr PathRequired = asc ''file path is required''"
| "fault_text repr PathAbsolute = asc ''file path must not be absolute''"
| "fault_text repr PathEscapes = asc ''file path must not escape the repository''"
| "fault_text repr GoRequired = asc ''Go canonical identity component is required''"
| "fault_text repr (GoTooLong n) = asc ''Go canonical identity component exceeds '' @ asc (nat_text n) @ asc '' UTF-8 bytes''"
| "fault_text repr GoNotSlashPath = asc ''Go module identity must be a non-local slash path''"
| "fault_text repr GoTraverses = asc ''Go module identity must not traverse directories''"
| "fault_text repr GoFallback = asc ''Go package fallback identity must be repository-relative''"
| "fault_text repr GoParent = asc ''go.package keys require a go.package parent key''"
| "fault_text repr FileParent = asc ''documentation page keys require a file key''"
| "fault_text repr (WrongParent ns) = ns @ asc '' keys require a '' @ ns @ asc '' parent key''"
| "fault_text repr PointerRequired = asc ''config pointer is required''"
| "fault_text repr PointerNotNormalized = asc ''config pointer must be normalized''"
| "fault_text repr JsPointerRequired = asc ''JavaScript pointer is required''"
| "fault_text repr JsOwner = asc ''js.test_case keys require js.file or js.test_suite owner''"
| "fault_text repr ScopeUnsafe = asc ''Go repository scope must be a public-safe identifier''"
| "fault_text repr DirectoryNotRelative = asc ''Go source directory must be normalized and repository-relative''"
| "fault_text repr SourceModuleParent = asc ''go.source-package.v2 keys require a go.source-module.v2 parent key''"
| "fault_text repr SourcePackageParent = asc ''Go source declarations require a source-package parent key''"

section \<open>Namespaces\<close>

definition SEGMENT_COUNTS :: "(string \<times> nat) list" where
  "SEGMENT_COUNTS =
    [(''tool'', 1), (''env'', 1), (''host.category'', 1), (''python.module'', 1), (''python.class'', 2),
     (''python.function'', 2), (''python.method'', 3), (''go.module'', 1), (''go.package'', 2), (''go.type'', 2),
     (''go.function'', 2), (''go.method'', 3), (''go.const'', 2), (''go.var'', 2), (''go.source-module.v2'', 3),
     (''go.source-package.v2'', 3), (''go.source-package-fallback.v2'', 3), (''go.source-type.v2'', 2),
     (''go.source-function.v2'', 2), (''go.source-method.v2'', 3), (''go.source-const.v2'', 2),
     (''go.source-var.v2'', 2), (''nix.app'', 3), (''nix.package'', 3), (''nix.devShell'', 3), (''nix.check'', 3),
     (''nix.output'', 2), (''doc.page'', 1), (''doc.section'', 2), (''doc.adr'', 1), (''doc.skill'', 1),
     (''external.url'', 1), (''config.document'', 1), (''config.path'', 2), (''css.document'', 1), (''css.rule'', 2),
     (''css.selector'', 2), (''css.custom_property'', 2), (''html.document'', 1), (''html.element'', 2),
     (''html.anchor'', 2), (''xml.document'', 1), (''xml.element'', 2), (''xml.attribute'', 3), (''feed.document'', 1),
     (''feed.channel'', 2), (''feed.item'', 2), (''feed.author'', 2), (''feed.category'', 2), (''warc.document'', 1),
     (''warc.record'', 2), (''document.file'', 1), (''document.section'', 2), (''document.table'', 2),
     (''document.sheet'', 2), (''document.column'', 2), (''document.latex_command'', 2), (''ruby.file'', 1),
     (''ruby.module'', 1), (''ruby.class'', 1), (''ruby.method'', 2), (''ruby.singleton_method'', 2),
     (''ruby.constant'', 2), (''ruby.test_case'', 2), (''ruby.test_method'', 2), (''ruby.route'', 2), (''js.file'', 1),
     (''js.module'', 1), (''js.function'', 2), (''js.class'', 2), (''js.method'', 2), (''js.variable'', 2),
     (''js.component'', 2), (''js.test_suite'', 2), (''js.test_case'', 2), (''js.route'', 2), (''bash.script'', 1),
     (''bash.function'', 2), (''bats.file'', 1), (''bats.test_case'', 2), (''bats.expectation'', 3),
     (''awk.program'', 1), (''awk.function'', 2), (''zsh.script'', 1), (''zsh.function'', 2), (''zunit.file'', 1),
     (''zunit.suite'', 2), (''zunit.test_case'', 2), (''zunit.hook'', 3), (''zunit.assertion'', 3),
     (''zunit.expectation'', 3), (''zunit.command_under_test'', 3), (''zunit.mock'', 3), (''zunit.stub'', 3),
     (''powershell.script'', 1), (''powershell.module'', 1), (''powershell.manifest'', 1), (''powershell.function'', 2),
     (''powershell.export'', 3), (''email.mailbox'', 1), (''email.message'', 2), (''email.address'', 1),
     (''email.part'', 2), (''email.attachment_stub'', 2), (''email.thread_hint'', 2), (''dynamic'', 2),
     (''external'', 2), (''unknown'', 2)]"

definition segment_count :: "utext \<Rightarrow> nat option" where
  "segment_count ns = map_of (map (\<lambda>(n, k). (asc n, k)) SEGMENT_COUNTS) ns"

definition GRAPH_KEY_VERSION :: nat where "GRAPH_KEY_VERSION = 1"
definition MAX_GO_PATH_IDENTITY_BYTES :: nat where "MAX_GO_PATH_IDENTITY_BYTES = 4096"
definition MAX_GO_NAME_IDENTITY_BYTES :: nat where "MAX_GO_NAME_IDENTITY_BYTES = 512"

section \<open>Segments\<close>

definition safe_char :: "nat \<Rightarrow> bool" where
  "safe_char c =
     (65 \<le> c \<and> c \<le> 90 \<or> 97 \<le> c \<and> c \<le> 122 \<or> 48 \<le> c \<and> c \<le> 57 \<or> c = 45 \<or> c = 46 \<or> c = 95 \<or> c = 126)"

definition upper_hex :: "nat \<Rightarrow> nat" where
  "upper_hex n = (if n < 10 then 48 + n else 55 + n)"

definition upper_hex_value :: "nat \<Rightarrow> nat option" where
  "upper_hex_value c =
     (if 48 \<le> c \<and> c \<le> 57 then Some (c - 48) else if 65 \<le> c \<and> c \<le> 70 then Some (c - 55) else None)"

definition encode_byte :: "nat \<Rightarrow> utext" where
  "encode_byte b = (if safe_char b then [b] else [37, upper_hex (b div 16), upper_hex (b mod 16)])"

fun encode_segment :: "py_arg \<Rightarrow> key_result" where
  "encode_segment (PyStr s) =
     (if s = [] then fault SegmentRequired
      else case utf8_encode s of
        None \<Rightarrow> Inl UnicodeEncodeError
      | Some bytes \<Rightarrow> Inr (concat (map encode_byte bytes)))"
| "encode_segment _ = fault SegmentRequired"

definition decode_percent_byte :: "nat \<Rightarrow> nat \<Rightarrow> nat keyed" where
  "decode_percent_byte a b =
     (if changes_upper a \<or> changes_upper b then fault LowercaseEscape
      else case (upper_hex_value a, upper_hex_value b) of
        (Some x, Some y) \<Rightarrow> Inr (16 * x + y)
      | _ \<Rightarrow> fault MalformedEscape)"

fun decode_bytes :: "utext \<Rightarrow> nat list keyed" where
  \<comment> \<open>the loop of \<^verbatim>\<open>_decode_segment\<close>\<close>
  "decode_bytes [] = Inr []"
| "decode_bytes (c # cs) =
     (if c = 37 then
        (case cs of
           a # b # rest \<Rightarrow>
             bindE (decode_percent_byte a b) (\<lambda>v. bindE (decode_bytes rest) (\<lambda>bs. Inr (v # bs)))
         | _ \<Rightarrow> fault MalformedEscape)
      else if \<not> safe_char c then fault (ReservedCharacter c)
      else bindE (decode_bytes cs) (\<lambda>bs. Inr (c # bs)))"

definition decode_segment :: "utext \<Rightarrow> key_result" where
  "decode_segment s =
     (if s = [] then fault SegmentRequired
      else bindE (decode_bytes s) (\<lambda>bs. case utf8_decode bs of None \<Rightarrow> fault NotUtf8 | Some t \<Rightarrow> Inr t))"

fun mapE :: "('a \<Rightarrow> 'e + 'b) \<Rightarrow> 'a list \<Rightarrow> 'e + 'b list" where
  \<comment> \<open>a comprehension whose element may raise\<close>
  "mapE f [] = Inr []"
| "mapE f (x # xs) = bindE (f x) (\<lambda>y. bindE (mapE f xs) (\<lambda>ys. Inr (y # ys)))"

section \<open>Parsing\<close>

record parsed_key =
  pk_version :: nat
  pk_namespace :: utext
  pk_segments :: "utext list"
  pk_key :: utext
  pk_path :: "utext option"

abbreviation dot :: utext where "dot \<equiv> [46]"
abbreviation dotdot :: utext where "dotdot \<equiv> [46, 46]"

definition parse_file_segments :: "utext \<Rightarrow> utext list keyed" where
  "parse_file_segments path_text =
     (if path_text = [] then fault FilePathMissing
      else let raw = split_on 47 path_text
      in if [] \<in> set raw then fault EmptyComponent
         else bindE (mapE decode_segment raw) (\<lambda>segments.
              if segments = [dot] then Inr segments
              else if dot \<in> set segments then fault NotNormalized
              else if dotdot \<in> set segments then fault KeyEscapes
              else Inr segments))"

fun parse_key :: "py_arg \<Rightarrow> parsed_key keyed" where
  "parse_key (PyStr key) =
     (if key = [] then fault KeyRequired
      else let namespace = takeWhile (\<lambda>c. c \<noteq> 58) key; rest = dropWhile (\<lambda>c. c \<noteq> 58) key
      in if rest = [] then fault SeparatorMissing
         else if namespace = asc ''file'' then
           bindE (parse_file_segments (tl rest)) (\<lambda>segments.
           Inr \<lparr>pk_version = GRAPH_KEY_VERSION, pk_namespace = namespace, pk_segments = segments, pk_key = key,
                pk_path = Some (join_with 47 segments)\<rparr>)
         else case segment_count namespace of
           None \<Rightarrow> fault (UnknownNamespace namespace)
         | Some expected \<Rightarrow>
             let raw = split_on 58 (tl rest)
             in if length raw \<noteq> expected then fault (SegmentCount namespace expected)
                else bindE (mapE decode_segment raw) (\<lambda>segments.
                     Inr \<lparr>pk_version = GRAPH_KEY_VERSION, pk_namespace = namespace, pk_segments = segments, pk_key = key,
                          pk_path = None\<rparr>))"
| "parse_key _ = fault KeyNotString"

definition validate_key :: "(nat \<Rightarrow> utext) \<Rightarrow> py_arg \<Rightarrow> (bool \<times> utext option) keyed" where
  \<comment> \<open>\<^verbatim>\<open>GraphKeyValidation\<close>: the flag and the error\<close>
  "validate_key repr key =
     (case parse_key key of
        Inl (GraphKeyError f) \<Rightarrow> Inr (False, Some (fault_text repr f))
      | Inl e \<Rightarrow> Inl e
      | Inr _ \<Rightarrow> Inr (True, None))"

section \<open>Building\<close>

definition graph_key :: "string \<Rightarrow> py_arg list \<Rightarrow> key_result" where
  \<comment> \<open>\<^verbatim>\<open>_key\<close>\<close>
  "graph_key namespace segments =
     (case segment_count (asc namespace) of
        None \<Rightarrow> Inl (NamespaceKeyError (asc namespace))
      | Some expected \<Rightarrow>
          if length segments \<noteq> expected then fault (SegmentCount (asc namespace) expected)
          else bindE (mapE encode_segment segments) (\<lambda>encoded. Inr (asc namespace @ 58 # join_with 58 encoded)))"

fun normalize_step :: "utext list \<Rightarrow> utext list \<Rightarrow> utext list keyed" where
  \<comment> \<open>the loop of \<^verbatim>\<open>_normalize_file_components\<close>\<close>
  "normalize_step components [] = Inr components"
| "normalize_step components (c # cs) =
     (if c = [] \<or> c = dot then normalize_step components cs
      else if c = dotdot then
        (if components = [] then fault PathEscapes else normalize_step (butlast components) cs)
      else normalize_step (components @ [c]) cs)"

fun raw_path :: "py_arg \<Rightarrow> utext option keyed" where
  "raw_path (PurePathArg p) = Inr (Some p)"
| "raw_path (PathLikeArg p) = Inr p"
| "raw_path (PyStr p) = Inr (Some p)"
| "raw_path OtherArg = fault PathType"

definition normalize_raw :: "utext \<Rightarrow> utext list keyed" where
  "normalize_raw raw =
     (let slashed = map (\<lambda>c. if c = 92 then 47 else c) raw
      in if opens 47 slashed then fault PathAbsolute
         else bindE (normalize_step [] (split_on 47 slashed)) (\<lambda>components.
              Inr (if components = [] then [dot] else components)))"

definition normalize_file_components :: "py_arg \<Rightarrow> utext list keyed" where
  "normalize_file_components path =
     bindE (raw_path path) (\<lambda>raw.
     case raw of
       None \<Rightarrow> fault PathRequired
     | Some raw \<Rightarrow> if raw = [] then fault PathRequired else normalize_raw raw)"

definition file_key :: "py_arg \<Rightarrow> key_result" where
  "file_key path =
     bindE (normalize_file_components path) (\<lambda>components.
     bindE (mapE (\<lambda>c. encode_segment (PyStr c)) components) (\<lambda>encoded.
     Inr (asc ''file:'' @ join_with 47 encoded)))"

section \<open>Checks of the builders\<close>

definition coerce_file_key :: "py_arg \<Rightarrow> key_result" where
  "coerce_file_key path =
     (case path of
        PyStr s \<Rightarrow>
          if prefix (asc ''file:'') s
          then bindE (parse_key path) (\<lambda>parsed.
               if pk_namespace parsed \<noteq> asc ''file'' then fault FileParent else Inr s)
          else file_key path
      | _ \<Rightarrow> file_key path)"

fun coerce_namespace_key :: "py_arg \<Rightarrow> string \<Rightarrow> key_result" where
  "coerce_namespace_key (PyStr key) namespace =
     bindE (parse_key (PyStr key)) (\<lambda>parsed.
     if pk_namespace parsed \<noteq> asc namespace then fault (WrongParent (asc namespace)) else Inr key)"
| "coerce_namespace_key _ namespace = fault KeyNotString"

fun coerce_pointer :: "py_arg \<Rightarrow> key_result" where
  "coerce_pointer (PyStr pointer) =
     (if pointer = [] then fault PointerRequired
      else if hd pointer \<noteq> 47 then fault PointerNotNormalized
      else Inr pointer)"
| "coerce_pointer _ = fault PointerRequired"

fun coerce_js_pointer :: "py_arg \<Rightarrow> key_result" where
  "coerce_js_pointer (PyStr pointer) = (if list_all is_space pointer then fault JsPointerRequired else Inr pointer)"
| "coerce_js_pointer _ = fault JsPointerRequired"

fun bounded_go_identity :: "py_arg \<Rightarrow> nat \<Rightarrow> key_result" where
  "bounded_go_identity (PyStr value) maximum_bytes =
     (if value = [] then fault GoRequired
      else case utf8_encode value of
        None \<Rightarrow> Inl UnicodeEncodeError
      | Some bytes \<Rightarrow> if maximum_bytes < length bytes then fault (GoTooLong maximum_bytes) else Inr value)"
| "bounded_go_identity _ maximum_bytes = fault GoRequired"

definition unsafe_path :: "utext \<Rightarrow> bool" where
  \<comment> \<open>rooted at \<^verbatim>\<open>/\<close> or \<^verbatim>\<open>~\<close>, or with a backslash, a colon or white space\<close>
  "unsafe_path value =
     (opens 47 value \<or> opens 126 value \<or> 92 \<in> set value \<or> 58 \<in> set value \<or> list_ex is_space value)"

definition traverses :: "utext \<Rightarrow> bool" where
  "traverses value = list_ex (\<lambda>c. c = [] \<or> c = dot \<or> c = dotdot) (split_on 47 value)"

definition bounded_go_path_identity :: "py_arg \<Rightarrow> key_result" where
  "bounded_go_path_identity value =
     bindE (bounded_go_identity value MAX_GO_PATH_IDENTITY_BYTES) (\<lambda>value.
     if strip_spaces value \<noteq> value \<or> unsafe_path value then fault GoNotSlashPath
     else if traverses value then fault GoTraverses
     else Inr value)"

definition bounded_go_package_import_path :: "py_arg \<Rightarrow> key_result" where
  "bounded_go_package_import_path value =
     bindE (bounded_go_identity value MAX_GO_PATH_IDENTITY_BYTES) (\<lambda>value.
     if \<not> prefix (asc ''repo-relative:'') value then bounded_go_path_identity (PyStr value)
     else let relative = drop (length (asc ''repo-relative:'')) value
     in if relative = dot then Inr value
        else if relative = [] \<or> unsafe_path relative \<or> traverses relative then fault GoFallback
        else Inr value)"

fun coerce_go_package_key :: "py_arg \<Rightarrow> key_result" where
  "coerce_go_package_key (PyStr key) =
     bindE (parse_key (PyStr key)) (\<lambda>parsed.
     if pk_namespace parsed \<noteq> asc ''go.package'' then fault GoParent
     else bindE (bounded_go_package_import_path (PyStr (pk_segments parsed ! 0))) (\<lambda>_.
          bindE (bounded_go_identity (PyStr (pk_segments parsed ! 1)) MAX_GO_NAME_IDENTITY_BYTES) (\<lambda>_.
          Inr key)))"
| "coerce_go_package_key _ = fault KeyNotString"

end
