(* ===== verification/Key_Builders.thy ===== *)
theory Key_Builders
  imports Graph_Keys
begin

text \<open>
  The public builders of graph keys, one definition per function of \<^verbatim>\<open>graph/keys.py\<close>, in its order, and those of
  \<^verbatim>\<open>graph/go_source_keys.py\<close>. The argument \<open>path\<close> is a path or a file key, \<open>parent\<close> the key of the owner.
\<close>

datatype line_arg = LineInt int | LineText utext

fun line_text :: "line_arg \<Rightarrow> utext" where
  \<comment> \<open>\<^verbatim>\<open>str(line_number)\<close>\<close>
  "line_text (LineInt n) = asc (int_text n)"
| "line_text (LineText t) = t"

section \<open>Builders\<close>

definition tool_key :: "py_arg \<Rightarrow> key_result" where
  "tool_key name = graph_key ''tool'' [name]"

definition env_key :: "py_arg \<Rightarrow> key_result" where
  "env_key name = graph_key ''env'' [name]"

definition host_category_key :: "py_arg \<Rightarrow> key_result" where
  "host_category_key category = graph_key ''host.category'' [category]"

definition python_module_key :: "py_arg \<Rightarrow> key_result" where
  "python_module_key name = graph_key ''python.module'' [name]"

definition python_class_key :: "py_arg \<Rightarrow> py_arg \<Rightarrow> key_result" where
  "python_class_key module_name cls = graph_key ''python.class'' [module_name, cls]"

definition python_function_key :: "py_arg \<Rightarrow> py_arg \<Rightarrow> key_result" where
  "python_function_key module_name fname = graph_key ''python.function'' [module_name, fname]"

definition python_method_key :: "py_arg \<Rightarrow> py_arg \<Rightarrow> py_arg \<Rightarrow> key_result" where
  "python_method_key module_name cls mname = graph_key ''python.method'' [module_name, cls, mname]"

definition go_module_key :: "py_arg \<Rightarrow> key_result" where
  "go_module_key module_path =
     bindE (bounded_go_path_identity module_path) (\<lambda>module_path'.
     graph_key ''go.module'' [PyStr module_path'])"

definition go_package_key :: "py_arg \<Rightarrow> py_arg \<Rightarrow> key_result" where
  "go_package_key import_path package_name =
     bindE (bounded_go_package_import_path import_path) (\<lambda>import_path'.
     bindE (bounded_go_identity package_name MAX_GO_NAME_IDENTITY_BYTES) (\<lambda>package_name'.
     graph_key ''go.package'' [PyStr import_path', PyStr package_name']))"

definition go_type_key :: "py_arg \<Rightarrow> py_arg \<Rightarrow> key_result" where
  "go_type_key parent dname =
     bindE (coerce_go_package_key parent) (\<lambda>parent'.
     bindE (bounded_go_identity dname MAX_GO_NAME_IDENTITY_BYTES) (\<lambda>dname'.
     graph_key ''go.type'' [PyStr parent', PyStr dname']))"

definition go_function_key :: "py_arg \<Rightarrow> py_arg \<Rightarrow> key_result" where
  "go_function_key parent dname =
     bindE (coerce_go_package_key parent) (\<lambda>parent'.
     bindE (bounded_go_identity dname MAX_GO_NAME_IDENTITY_BYTES) (\<lambda>dname'.
     graph_key ''go.function'' [PyStr parent', PyStr dname']))"

definition go_method_key :: "py_arg \<Rightarrow> py_arg \<Rightarrow> py_arg \<Rightarrow> key_result" where
  "go_method_key parent receiver_base dname =
     bindE (coerce_go_package_key parent) (\<lambda>parent'.
     bindE (bounded_go_identity receiver_base MAX_GO_NAME_IDENTITY_BYTES) (\<lambda>receiver_base'.
     bindE (bounded_go_identity dname MAX_GO_NAME_IDENTITY_BYTES) (\<lambda>dname'.
     graph_key ''go.method'' [PyStr parent', PyStr receiver_base', PyStr dname'])))"

definition go_const_key :: "py_arg \<Rightarrow> py_arg \<Rightarrow> key_result" where
  "go_const_key parent dname =
     bindE (coerce_go_package_key parent) (\<lambda>parent'.
     bindE (bounded_go_identity dname MAX_GO_NAME_IDENTITY_BYTES) (\<lambda>dname'.
     graph_key ''go.const'' [PyStr parent', PyStr dname']))"

definition go_var_key :: "py_arg \<Rightarrow> py_arg \<Rightarrow> key_result" where
  "go_var_key parent dname =
     bindE (coerce_go_package_key parent) (\<lambda>parent'.
     bindE (bounded_go_identity dname MAX_GO_NAME_IDENTITY_BYTES) (\<lambda>dname'.
     graph_key ''go.var'' [PyStr parent', PyStr dname']))"

definition nix_app_key :: "py_arg \<Rightarrow> py_arg \<Rightarrow> py_arg \<Rightarrow> key_result" where
  "nix_app_key flake_ref system name = graph_key ''nix.app'' [flake_ref, system, name]"

definition nix_package_key :: "py_arg \<Rightarrow> py_arg \<Rightarrow> py_arg \<Rightarrow> key_result" where
  "nix_package_key flake_ref system name = graph_key ''nix.package'' [flake_ref, system, name]"

definition nix_dev_shell_key :: "py_arg \<Rightarrow> py_arg \<Rightarrow> py_arg \<Rightarrow> key_result" where
  "nix_dev_shell_key flake_ref system name = graph_key ''nix.devShell'' [flake_ref, system, name]"

definition nix_check_key :: "py_arg \<Rightarrow> py_arg \<Rightarrow> py_arg \<Rightarrow> key_result" where
  "nix_check_key flake_ref system name = graph_key ''nix.check'' [flake_ref, system, name]"

definition nix_output_key :: "py_arg \<Rightarrow> py_arg \<Rightarrow> key_result" where
  "nix_output_key flake_ref output_path = graph_key ''nix.output'' [flake_ref, output_path]"

definition doc_page_key :: "py_arg \<Rightarrow> key_result" where
  "doc_page_key path = bindE (coerce_file_key path) (\<lambda>path'. graph_key ''doc.page'' [PyStr path'])"

definition doc_section_key :: "py_arg \<Rightarrow> py_arg \<Rightarrow> key_result" where
  "doc_section_key path anchor =
     bindE (coerce_file_key path) (\<lambda>path'.
     graph_key ''doc.section'' [PyStr path', anchor])"

definition doc_adr_key :: "py_arg \<Rightarrow> key_result" where
  "doc_adr_key number = graph_key ''doc.adr'' [number]"

definition doc_skill_key :: "py_arg \<Rightarrow> key_result" where
  "doc_skill_key name = graph_key ''doc.skill'' [name]"

definition external_url_key :: "py_arg \<Rightarrow> key_result" where
  "external_url_key url = graph_key ''external.url'' [url]"

definition config_document_key :: "py_arg \<Rightarrow> key_result" where
  "config_document_key path = bindE (coerce_file_key path) (\<lambda>path'. graph_key ''config.document'' [PyStr path'])"

definition config_path_key :: "py_arg \<Rightarrow> py_arg \<Rightarrow> key_result" where
  "config_path_key path pointer =
     bindE (coerce_file_key path) (\<lambda>path'.
     bindE (coerce_pointer pointer) (\<lambda>pointer'.
     graph_key ''config.path'' [PyStr path', PyStr pointer']))"

definition css_document_key :: "py_arg \<Rightarrow> key_result" where
  "css_document_key path = bindE (coerce_file_key path) (\<lambda>path'. graph_key ''css.document'' [PyStr path'])"

definition css_rule_key :: "py_arg \<Rightarrow> py_arg \<Rightarrow> key_result" where
  "css_rule_key path pointer =
     bindE (coerce_file_key path) (\<lambda>path'.
     bindE (coerce_pointer pointer) (\<lambda>pointer'.
     graph_key ''css.rule'' [PyStr path', PyStr pointer']))"

definition css_selector_key :: "py_arg \<Rightarrow> py_arg \<Rightarrow> key_result" where
  "css_selector_key path pointer =
     bindE (coerce_file_key path) (\<lambda>path'.
     bindE (coerce_pointer pointer) (\<lambda>pointer'.
     graph_key ''css.selector'' [PyStr path', PyStr pointer']))"

definition css_custom_property_key :: "py_arg \<Rightarrow> py_arg \<Rightarrow> key_result" where
  "css_custom_property_key path property_name =
     bindE (coerce_file_key path) (\<lambda>path'.
     graph_key ''css.custom_property'' [PyStr path', property_name])"

definition html_document_key :: "py_arg \<Rightarrow> key_result" where
  "html_document_key path = bindE (coerce_file_key path) (\<lambda>path'. graph_key ''html.document'' [PyStr path'])"

definition html_element_key :: "py_arg \<Rightarrow> py_arg \<Rightarrow> key_result" where
  "html_element_key path pointer =
     bindE (coerce_file_key path) (\<lambda>path'.
     bindE (coerce_pointer pointer) (\<lambda>pointer'.
     graph_key ''html.element'' [PyStr path', PyStr pointer']))"

definition html_anchor_key :: "py_arg \<Rightarrow> py_arg \<Rightarrow> key_result" where
  "html_anchor_key path fragment =
     bindE (coerce_file_key path) (\<lambda>path'.
     graph_key ''html.anchor'' [PyStr path', fragment])"

definition xml_document_key :: "py_arg \<Rightarrow> key_result" where
  "xml_document_key path = bindE (coerce_file_key path) (\<lambda>path'. graph_key ''xml.document'' [PyStr path'])"

definition xml_element_key :: "py_arg \<Rightarrow> py_arg \<Rightarrow> key_result" where
  "xml_element_key path pointer =
     bindE (coerce_file_key path) (\<lambda>path'.
     bindE (coerce_pointer pointer) (\<lambda>pointer'.
     graph_key ''xml.element'' [PyStr path', PyStr pointer']))"

definition xml_attribute_key :: "py_arg \<Rightarrow> py_arg \<Rightarrow> py_arg \<Rightarrow> key_result" where
  "xml_attribute_key path pointer attribute_name =
     bindE (coerce_file_key path) (\<lambda>path'.
     bindE (coerce_pointer pointer) (\<lambda>pointer'.
     graph_key ''xml.attribute'' [PyStr path', PyStr pointer', attribute_name]))"

definition feed_document_key :: "py_arg \<Rightarrow> key_result" where
  "feed_document_key path = bindE (coerce_file_key path) (\<lambda>path'. graph_key ''feed.document'' [PyStr path'])"

definition feed_channel_key :: "py_arg \<Rightarrow> py_arg \<Rightarrow> key_result" where
  "feed_channel_key parent channel_id =
     bindE (coerce_namespace_key parent ''feed.document'') (\<lambda>parent'.
     graph_key ''feed.channel'' [PyStr parent', channel_id])"

definition feed_item_key :: "py_arg \<Rightarrow> py_arg \<Rightarrow> key_result" where
  "feed_item_key parent item_id =
     bindE (coerce_namespace_key parent ''feed.channel'') (\<lambda>parent'.
     graph_key ''feed.item'' [PyStr parent', item_id])"

definition feed_author_key :: "py_arg \<Rightarrow> py_arg \<Rightarrow> key_result" where
  "feed_author_key parent author_id =
     bindE (coerce_namespace_key parent ''feed.channel'') (\<lambda>parent'.
     graph_key ''feed.author'' [PyStr parent', author_id])"

definition feed_category_key :: "py_arg \<Rightarrow> py_arg \<Rightarrow> key_result" where
  "feed_category_key parent category_id =
     bindE (coerce_namespace_key parent ''feed.channel'') (\<lambda>parent'.
     graph_key ''feed.category'' [PyStr parent', category_id])"

definition warc_document_key :: "py_arg \<Rightarrow> key_result" where
  "warc_document_key path = bindE (coerce_file_key path) (\<lambda>path'. graph_key ''warc.document'' [PyStr path'])"

definition warc_record_key :: "py_arg \<Rightarrow> py_arg \<Rightarrow> key_result" where
  "warc_record_key parent record_id =
     bindE (coerce_namespace_key parent ''warc.document'') (\<lambda>parent'.
     graph_key ''warc.record'' [PyStr parent', record_id])"

definition document_file_key :: "py_arg \<Rightarrow> key_result" where
  "document_file_key path = bindE (coerce_file_key path) (\<lambda>path'. graph_key ''document.file'' [PyStr path'])"

definition document_section_key :: "py_arg \<Rightarrow> py_arg \<Rightarrow> key_result" where
  "document_section_key path pointer =
     bindE (coerce_file_key path) (\<lambda>path'.
     bindE (coerce_pointer pointer) (\<lambda>pointer'.
     graph_key ''document.section'' [PyStr path', PyStr pointer']))"

definition document_table_key :: "py_arg \<Rightarrow> py_arg \<Rightarrow> key_result" where
  "document_table_key path pointer =
     bindE (coerce_file_key path) (\<lambda>path'.
     bindE (coerce_pointer pointer) (\<lambda>pointer'.
     graph_key ''document.table'' [PyStr path', PyStr pointer']))"

definition document_sheet_key :: "py_arg \<Rightarrow> py_arg \<Rightarrow> key_result" where
  "document_sheet_key path pointer =
     bindE (coerce_file_key path) (\<lambda>path'.
     bindE (coerce_pointer pointer) (\<lambda>pointer'.
     graph_key ''document.sheet'' [PyStr path', PyStr pointer']))"

definition document_column_key :: "py_arg \<Rightarrow> py_arg \<Rightarrow> key_result" where
  "document_column_key path pointer =
     bindE (coerce_file_key path) (\<lambda>path'.
     bindE (coerce_pointer pointer) (\<lambda>pointer'.
     graph_key ''document.column'' [PyStr path', PyStr pointer']))"

definition document_latex_command_key :: "py_arg \<Rightarrow> py_arg \<Rightarrow> key_result" where
  "document_latex_command_key path pointer =
     bindE (coerce_file_key path) (\<lambda>path'.
     bindE (coerce_pointer pointer) (\<lambda>pointer'.
     graph_key ''document.latex_command'' [PyStr path', PyStr pointer']))"

definition ruby_file_key :: "py_arg \<Rightarrow> key_result" where
  "ruby_file_key path = bindE (coerce_file_key path) (\<lambda>path'. graph_key ''ruby.file'' [PyStr path'])"

definition ruby_module_key :: "py_arg \<Rightarrow> key_result" where
  "ruby_module_key name = graph_key ''ruby.module'' [name]"

definition ruby_class_key :: "py_arg \<Rightarrow> key_result" where
  "ruby_class_key cls = graph_key ''ruby.class'' [cls]"

definition ruby_method_key :: "py_arg \<Rightarrow> py_arg \<Rightarrow> key_result" where
  "ruby_method_key owner mname = graph_key ''ruby.method'' [owner, mname]"

definition ruby_singleton_method_key :: "py_arg \<Rightarrow> py_arg \<Rightarrow> key_result" where
  "ruby_singleton_method_key owner mname = graph_key ''ruby.singleton_method'' [owner, mname]"

definition ruby_constant_key :: "py_arg \<Rightarrow> py_arg \<Rightarrow> key_result" where
  "ruby_constant_key owner cname = graph_key ''ruby.constant'' [owner, cname]"

definition ruby_test_case_key :: "py_arg \<Rightarrow> py_arg \<Rightarrow> key_result" where
  "ruby_test_case_key path name =
     bindE (coerce_file_key path) (\<lambda>path'.
     graph_key ''ruby.test_case'' [PyStr path', name])"

definition ruby_test_method_key :: "py_arg \<Rightarrow> py_arg \<Rightarrow> key_result" where
  "ruby_test_method_key parent mname =
     bindE (coerce_namespace_key parent ''ruby.test_case'') (\<lambda>parent'.
     graph_key ''ruby.test_method'' [PyStr parent', mname])"

definition ruby_route_key :: "py_arg \<Rightarrow> py_arg \<Rightarrow> key_result" where
  "ruby_route_key path pointer =
     bindE (coerce_file_key path) (\<lambda>path'.
     bindE (coerce_pointer pointer) (\<lambda>pointer'.
     graph_key ''ruby.route'' [PyStr path', PyStr pointer']))"

definition js_file_key :: "py_arg \<Rightarrow> key_result" where
  "js_file_key path = bindE (coerce_file_key path) (\<lambda>path'. graph_key ''js.file'' [PyStr path'])"

definition js_module_key :: "py_arg \<Rightarrow> key_result" where
  "js_module_key path = bindE (coerce_file_key path) (\<lambda>path'. graph_key ''js.module'' [PyStr path'])"

definition js_function_key :: "py_arg \<Rightarrow> py_arg \<Rightarrow> key_result" where
  "js_function_key path pointer =
     bindE (coerce_file_key path) (\<lambda>path'.
     bindE (coerce_js_pointer pointer) (\<lambda>pointer'.
     graph_key ''js.function'' [PyStr path', PyStr pointer']))"

definition js_class_key :: "py_arg \<Rightarrow> py_arg \<Rightarrow> key_result" where
  "js_class_key path cls = bindE (coerce_file_key path) (\<lambda>path'. graph_key ''js.class'' [PyStr path', cls])"

definition js_method_key :: "py_arg \<Rightarrow> py_arg \<Rightarrow> key_result" where
  "js_method_key parent mname =
     bindE (coerce_namespace_key parent ''js.class'') (\<lambda>parent'.
     graph_key ''js.method'' [PyStr parent', mname])"

definition js_variable_key :: "py_arg \<Rightarrow> py_arg \<Rightarrow> key_result" where
  "js_variable_key path pointer =
     bindE (coerce_file_key path) (\<lambda>path'.
     bindE (coerce_js_pointer pointer) (\<lambda>pointer'.
     graph_key ''js.variable'' [PyStr path', PyStr pointer']))"

definition js_component_key :: "py_arg \<Rightarrow> py_arg \<Rightarrow> key_result" where
  "js_component_key path pointer =
     bindE (coerce_file_key path) (\<lambda>path'.
     bindE (coerce_js_pointer pointer) (\<lambda>pointer'.
     graph_key ''js.component'' [PyStr path', PyStr pointer']))"

definition js_test_suite_key :: "py_arg \<Rightarrow> py_arg \<Rightarrow> key_result" where
  "js_test_suite_key path pointer =
     bindE (coerce_file_key path) (\<lambda>path'.
     bindE (coerce_pointer pointer) (\<lambda>pointer'.
     graph_key ''js.test_suite'' [PyStr path', PyStr pointer']))"

definition js_test_case_key :: "py_arg \<Rightarrow> py_arg \<Rightarrow> key_result" where
  "js_test_case_key owner pointer =
     bindE (parse_key owner) (\<lambda>parsed.
     if pk_namespace parsed \<noteq> asc ''js.file'' \<and> pk_namespace parsed \<noteq> asc ''js.test_suite'' then fault JsOwner
     else bindE (coerce_pointer pointer) (\<lambda>pointer'.
          graph_key ''js.test_case'' [owner, PyStr pointer']))"

definition js_route_key :: "py_arg \<Rightarrow> py_arg \<Rightarrow> key_result" where
  "js_route_key path pointer =
     bindE (coerce_file_key path) (\<lambda>path'.
     bindE (coerce_pointer pointer) (\<lambda>pointer'.
     graph_key ''js.route'' [PyStr path', PyStr pointer']))"

definition bash_script_key :: "py_arg \<Rightarrow> key_result" where
  "bash_script_key path = bindE (coerce_file_key path) (\<lambda>path'. graph_key ''bash.script'' [PyStr path'])"

definition bash_function_key :: "py_arg \<Rightarrow> py_arg \<Rightarrow> key_result" where
  "bash_function_key path fname =
     bindE (coerce_file_key path) (\<lambda>path'.
     graph_key ''bash.function'' [PyStr path', fname])"

definition bats_file_key :: "py_arg \<Rightarrow> key_result" where
  "bats_file_key path = bindE (coerce_file_key path) (\<lambda>path'. graph_key ''bats.file'' [PyStr path'])"

definition bats_test_case_key :: "py_arg \<Rightarrow> py_arg \<Rightarrow> key_result" where
  "bats_test_case_key path test_identity =
     bindE (coerce_file_key path) (\<lambda>path'.
     graph_key ''bats.test_case'' [PyStr path', test_identity])"

definition bats_expectation_key :: "py_arg \<Rightarrow> py_arg \<Rightarrow> line_arg \<Rightarrow> py_arg \<Rightarrow> key_result" where
  "bats_expectation_key path test_identity line assertion_name =
     bindE (bats_test_case_key path test_identity) (\<lambda>test_key.
     graph_key ''bats.expectation'' [PyStr test_key, PyStr (line_text line), assertion_name])"

definition awk_program_key :: "py_arg \<Rightarrow> key_result" where
  "awk_program_key path = bindE (coerce_file_key path) (\<lambda>path'. graph_key ''awk.program'' [PyStr path'])"

definition awk_function_key :: "py_arg \<Rightarrow> py_arg \<Rightarrow> key_result" where
  "awk_function_key path fname =
     bindE (coerce_file_key path) (\<lambda>path'.
     graph_key ''awk.function'' [PyStr path', fname])"

definition zsh_script_key :: "py_arg \<Rightarrow> key_result" where
  "zsh_script_key path = bindE (coerce_file_key path) (\<lambda>path'. graph_key ''zsh.script'' [PyStr path'])"

definition zsh_function_key :: "py_arg \<Rightarrow> py_arg \<Rightarrow> key_result" where
  "zsh_function_key path fname =
     bindE (coerce_file_key path) (\<lambda>path'.
     graph_key ''zsh.function'' [PyStr path', fname])"

definition zunit_file_key :: "py_arg \<Rightarrow> key_result" where
  "zunit_file_key path = bindE (coerce_file_key path) (\<lambda>path'. graph_key ''zunit.file'' [PyStr path'])"

definition zunit_suite_key :: "py_arg \<Rightarrow> py_arg \<Rightarrow> key_result" where
  "zunit_suite_key path suite_identity =
     bindE (coerce_file_key path) (\<lambda>path'.
     graph_key ''zunit.suite'' [PyStr path', suite_identity])"

definition zunit_test_case_key :: "py_arg \<Rightarrow> py_arg \<Rightarrow> key_result" where
  "zunit_test_case_key path test_identity =
     bindE (coerce_file_key path) (\<lambda>path'.
     graph_key ''zunit.test_case'' [PyStr path', test_identity])"

definition zunit_hook_key :: "py_arg \<Rightarrow> py_arg \<Rightarrow> line_arg \<Rightarrow> key_result" where
  "zunit_hook_key path hook_kind line =
     bindE (coerce_file_key path) (\<lambda>path'.
     graph_key ''zunit.hook'' [PyStr path', hook_kind, PyStr (line_text line)])"

definition zunit_assertion_key :: "py_arg \<Rightarrow> line_arg \<Rightarrow> py_arg \<Rightarrow> key_result" where
  "zunit_assertion_key path line assertion_name =
     bindE (coerce_file_key path) (\<lambda>path'.
     graph_key ''zunit.assertion'' [PyStr path', PyStr (line_text line), assertion_name])"

definition zunit_expectation_key :: "py_arg \<Rightarrow> line_arg \<Rightarrow> py_arg \<Rightarrow> key_result" where
  "zunit_expectation_key path line expectation_kind =
     bindE (coerce_file_key path) (\<lambda>path'.
     graph_key ''zunit.expectation'' [PyStr path', PyStr (line_text line), expectation_kind])"

definition zunit_command_under_test_key :: "py_arg \<Rightarrow> line_arg \<Rightarrow> py_arg \<Rightarrow> key_result" where
  "zunit_command_under_test_key path line command_identity =
     bindE (coerce_file_key path) (\<lambda>path'.
     graph_key ''zunit.command_under_test'' [PyStr path', PyStr (line_text line), command_identity])"

definition zunit_mock_key :: "py_arg \<Rightarrow> line_arg \<Rightarrow> py_arg \<Rightarrow> key_result" where
  "zunit_mock_key path line command_identity =
     bindE (coerce_file_key path) (\<lambda>path'.
     graph_key ''zunit.mock'' [PyStr path', PyStr (line_text line), command_identity])"

definition zunit_stub_key :: "py_arg \<Rightarrow> line_arg \<Rightarrow> py_arg \<Rightarrow> key_result" where
  "zunit_stub_key path line command_identity =
     bindE (coerce_file_key path) (\<lambda>path'.
     graph_key ''zunit.stub'' [PyStr path', PyStr (line_text line), command_identity])"

definition powershell_script_key :: "py_arg \<Rightarrow> key_result" where
  "powershell_script_key path =
     bindE (coerce_file_key path) (\<lambda>path'.
     graph_key ''powershell.script'' [PyStr path'])"

definition powershell_module_key :: "py_arg \<Rightarrow> key_result" where
  "powershell_module_key path =
     bindE (coerce_file_key path) (\<lambda>path'.
     graph_key ''powershell.module'' [PyStr path'])"

definition powershell_manifest_key :: "py_arg \<Rightarrow> key_result" where
  "powershell_manifest_key path =
     bindE (coerce_file_key path) (\<lambda>path'.
     graph_key ''powershell.manifest'' [PyStr path'])"

definition powershell_function_key :: "py_arg \<Rightarrow> py_arg \<Rightarrow> key_result" where
  "powershell_function_key path fname =
     bindE (coerce_file_key path) (\<lambda>path'.
     graph_key ''powershell.function'' [PyStr path', fname])"

definition powershell_manifest_export_key :: "py_arg \<Rightarrow> py_arg \<Rightarrow> py_arg \<Rightarrow> key_result" where
  "powershell_manifest_export_key parent export_kind export_name =
     bindE (coerce_namespace_key parent ''powershell.manifest'') (\<lambda>parent'.
     graph_key ''powershell.export'' [PyStr parent', export_kind, export_name])"

definition email_message_key :: "py_arg \<Rightarrow> py_arg \<Rightarrow> key_result" where
  "email_message_key path identity =
     bindE (coerce_file_key path) (\<lambda>path'.
     graph_key ''email.message'' [PyStr path', identity])"

definition email_mailbox_key :: "py_arg \<Rightarrow> key_result" where
  "email_mailbox_key path = bindE (coerce_file_key path) (\<lambda>path'. graph_key ''email.mailbox'' [PyStr path'])"

definition email_address_key :: "py_arg \<Rightarrow> key_result" where
  "email_address_key address_identity = graph_key ''email.address'' [address_identity]"

definition email_part_key :: "py_arg \<Rightarrow> py_arg \<Rightarrow> key_result" where
  "email_part_key parent pointer =
     bindE (coerce_namespace_key parent ''email.message'') (\<lambda>parent'.
     bindE (coerce_pointer pointer) (\<lambda>pointer'.
     graph_key ''email.part'' [PyStr parent', PyStr pointer']))"

definition email_attachment_stub_key :: "py_arg \<Rightarrow> py_arg \<Rightarrow> key_result" where
  "email_attachment_stub_key parent pointer =
     bindE (coerce_namespace_key parent ''email.message'') (\<lambda>parent'.
     bindE (coerce_pointer pointer) (\<lambda>pointer'.
     graph_key ''email.attachment_stub'' [PyStr parent', PyStr pointer']))"

definition email_thread_hint_key :: "py_arg \<Rightarrow> py_arg \<Rightarrow> key_result" where
  "email_thread_hint_key parent pointer =
     bindE (coerce_namespace_key parent ''email.message'') (\<lambda>parent'.
     bindE (coerce_pointer pointer) (\<lambda>pointer'.
     graph_key ''email.thread_hint'' [PyStr parent', PyStr pointer']))"

definition dynamic_key :: "py_arg \<Rightarrow> py_arg \<Rightarrow> key_result" where
  "dynamic_key domain reason = graph_key ''dynamic'' [domain, reason]"

definition external_key :: "py_arg \<Rightarrow> py_arg \<Rightarrow> key_result" where
  "external_key domain stable_name = graph_key ''external'' [domain, stable_name]"

definition unknown_key :: "py_arg \<Rightarrow> py_arg \<Rightarrow> key_result" where
  "unknown_key domain reason = graph_key ''unknown'' [domain, reason]"

section \<open>Go sources\<close>

definition MAX_GO_REPOSITORY_SCOPE_BYTES :: nat where "MAX_GO_REPOSITORY_SCOPE_BYTES = 512"

definition alnum_code :: "nat \<Rightarrow> bool" where
  "alnum_code c = (65 \<le> c \<and> c \<le> 90 \<or> 97 \<le> c \<and> c \<le> 122 \<or> 48 \<le> c \<and> c \<le> 57)"

definition matches_scope :: "utext \<Rightarrow> bool" where
  \<comment> \<open>\<^verbatim>\<open>[A-Za-z0-9][A-Za-z0-9._-]*\Z\<close>\<close>
  "matches_scope s =
     (s \<noteq> [] \<and> alnum_code (hd s) \<and> list_all (\<lambda>c. alnum_code c \<or> c = 46 \<or> c = 95 \<or> c = 45) (tl s))"

definition validate_go_repository_scope :: "py_arg \<Rightarrow> key_result" where
  "validate_go_repository_scope scope =
     bindE (bounded_go_identity scope MAX_GO_REPOSITORY_SCOPE_BYTES) (\<lambda>scope.
     if \<not> matches_scope scope then fault ScopeUnsafe else Inr scope)"

definition posix_root :: "utext \<Rightarrow> utext" where
  \<comment> \<open>exactly two leading slashes are kept\<close>
  "posix_root p =
     (if prefix [47, 47] p \<and> \<not> prefix [47, 47, 47] p then [47, 47] else if opens 47 p then [47] else [])"

definition posix_names :: "utext \<Rightarrow> utext list" where
  "posix_names p = filter (\<lambda>c. c \<noteq> [] \<and> c \<noteq> dot) (split_on 47 p)"

definition posix_text :: "utext \<Rightarrow> utext" where
  \<comment> \<open>\<^verbatim>\<open>str(PurePosixPath(p))\<close>\<close>
  "posix_text p = (if posix_root p = [] \<and> posix_names p = [] then dot else posix_root p @ join_with 47 (posix_names p))"

definition posix_parts :: "utext \<Rightarrow> utext list" where
  "posix_parts p = (if posix_root p = [] then posix_names p else posix_root p # posix_names p)"

definition windows_drive :: "utext \<Rightarrow> bool" where
  \<comment> \<open>\<^verbatim>\<open>PureWindowsPath(p).drive\<close> of a path that does not begin with a separator\<close>
  "windows_drive p = opens 58 (tl p)"

definition bounded_relative_directory :: "py_arg \<Rightarrow> key_result" where
  "bounded_relative_directory value =
     bindE (bounded_go_identity value MAX_GO_PATH_IDENTITY_BYTES) (\<lambda>value.
     if value = dot then Inr value
     else if 92 \<in> set value \<or> posix_root value \<noteq> [] \<or> windows_drive value \<or> posix_text value \<noteq> value
             \<or> list_ex (\<lambda>c. c = [] \<or> c = dot \<or> c = dotdot) (posix_parts value)
     then fault DirectoryNotRelative
     else Inr value)"

fun coerce_source_module_key :: "py_arg \<Rightarrow> key_result" where
  "coerce_source_module_key (PyStr key) =
     bindE (parse_key (PyStr key)) (\<lambda>parsed.
     if pk_namespace parsed \<noteq> asc ''go.source-module.v2'' then fault SourceModuleParent
     else bindE (validate_go_repository_scope (PyStr (pk_segments parsed ! 0))) (\<lambda>_.
          bindE (bounded_relative_directory (PyStr (pk_segments parsed ! 1))) (\<lambda>_.
          bindE (bounded_go_path_identity (PyStr (pk_segments parsed ! 2))) (\<lambda>_.
          Inr key))))"
| "coerce_source_module_key _ = fault KeyNotString"

fun coerce_source_package_key :: "py_arg \<Rightarrow> key_result" where
  "coerce_source_package_key (PyStr key) =
     bindE (parse_key (PyStr key)) (\<lambda>parsed.
     if pk_namespace parsed \<noteq> asc ''go.source-package.v2'' \<and> pk_namespace parsed \<noteq> asc ''go.source-package-fallback.v2''
     then fault SourcePackageParent
     else bindE (if pk_namespace parsed = asc ''go.source-package.v2''
                 then coerce_source_module_key (PyStr (pk_segments parsed ! 0))
                 else validate_go_repository_scope (PyStr (pk_segments parsed ! 0))) (\<lambda>_.
          bindE (bounded_relative_directory (PyStr (pk_segments parsed ! 1))) (\<lambda>_.
          bindE (bounded_go_identity (PyStr (pk_segments parsed ! 2)) MAX_GO_NAME_IDENTITY_BYTES) (\<lambda>_.
          Inr key))))"
| "coerce_source_package_key _ = fault KeyNotString"

definition go_source_module_key :: "py_arg \<Rightarrow> py_arg \<Rightarrow> py_arg \<Rightarrow> key_result" where
  "go_source_module_key scope module_root module_path =
     bindE (validate_go_repository_scope scope) (\<lambda>scope'.
     bindE (bounded_relative_directory module_root) (\<lambda>module_root'.
     bindE (bounded_go_path_identity module_path) (\<lambda>module_path'.
     graph_key ''go.source-module.v2'' [PyStr scope', PyStr module_root', PyStr module_path'])))"

definition go_source_package_key :: "py_arg \<Rightarrow> py_arg \<Rightarrow> py_arg \<Rightarrow> key_result" where
  "go_source_package_key parent relative_directory package_name =
     bindE (coerce_source_module_key parent) (\<lambda>parent'.
     bindE (bounded_relative_directory relative_directory) (\<lambda>relative_directory'.
     bindE (bounded_go_identity package_name MAX_GO_NAME_IDENTITY_BYTES) (\<lambda>package_name'.
     graph_key ''go.source-package.v2'' [PyStr parent', PyStr relative_directory', PyStr package_name'])))"

definition go_source_package_fallback_key :: "py_arg \<Rightarrow> py_arg \<Rightarrow> py_arg \<Rightarrow> key_result" where
  "go_source_package_fallback_key scope repository_directory package_name =
     bindE (validate_go_repository_scope scope) (\<lambda>scope'.
     bindE (bounded_relative_directory repository_directory) (\<lambda>repository_directory'.
     bindE (bounded_go_identity package_name MAX_GO_NAME_IDENTITY_BYTES) (\<lambda>package_name'.
     graph_key ''go.source-package-fallback.v2'' [PyStr scope', PyStr repository_directory', PyStr package_name'])))"

definition source_declaration_key :: "string \<Rightarrow> py_arg \<Rightarrow> py_arg \<Rightarrow> key_result" where
  "source_declaration_key namespace parent dname =
     bindE (coerce_source_package_key parent) (\<lambda>parent'.
     bindE (bounded_go_identity dname MAX_GO_NAME_IDENTITY_BYTES) (\<lambda>dname'.
     graph_key namespace [PyStr parent', PyStr dname']))"

definition go_source_type_key :: "py_arg \<Rightarrow> py_arg \<Rightarrow> key_result" where
  "go_source_type_key parent dname = source_declaration_key ''go.source-type.v2'' parent dname"

definition go_source_function_key :: "py_arg \<Rightarrow> py_arg \<Rightarrow> key_result" where
  "go_source_function_key parent dname = source_declaration_key ''go.source-function.v2'' parent dname"

definition go_source_method_key :: "py_arg \<Rightarrow> py_arg \<Rightarrow> py_arg \<Rightarrow> key_result" where
  "go_source_method_key parent receiver_base dname =
     bindE (coerce_source_package_key parent) (\<lambda>parent'.
     bindE (bounded_go_identity receiver_base MAX_GO_NAME_IDENTITY_BYTES) (\<lambda>receiver_base'.
     bindE (bounded_go_identity dname MAX_GO_NAME_IDENTITY_BYTES) (\<lambda>dname'.
     graph_key ''go.source-method.v2'' [PyStr parent', PyStr receiver_base', PyStr dname'])))"

definition go_source_const_key :: "py_arg \<Rightarrow> py_arg \<Rightarrow> key_result" where
  "go_source_const_key parent dname = source_declaration_key ''go.source-const.v2'' parent dname"

definition go_source_var_key :: "py_arg \<Rightarrow> py_arg \<Rightarrow> key_result" where
  "go_source_var_key parent dname = source_declaration_key ''go.source-var.v2'' parent dname"

end
