(* ===== verification/Utf8_Roundtrip.thy ===== *)
theory Utf8_Roundtrip
  imports Utf8
begin

text \<open>Strict UTF-8 is a bijection between the texts without surrogates and the byte sequences the decoder accepts.\<close>

lemma scalar_bound: "scalar n \<Longrightarrow> n < 1114112"
  by (simp add: scalar_def)

lemma digits64:
  fixes n :: nat
  shows "n div 64 = 64 * (n div 4096) + n div 64 mod 64" "n div 4096 = 64 * (n div 262144) + n div 4096 mod 64"
  using mult_div_mod_eq [of 64 "n div 64"] mult_div_mod_eq [of 64 "n div 4096"]
  by (simp_all flip: div_mult2_eq)

lemma utf8_step_char:
  assumes "scalar n"
  shows "utf8_step (utf8_char n @ r) = Some (n, r)"
proof -
  have m: "k mod 64 \<le> 63" for k :: nat by presburger
  consider "n < 128" | "128 \<le> n" "n < 2048" | "2048 \<le> n" "n < 65536" | "65536 \<le> n" "n < 1114112"
    using scalar_bound [OF assms] by linarith
  then show ?thesis
  proof cases
    case 2
    then have "n div 64 < 32" "2 \<le> n div 64" by linarith+
    then show ?thesis using 2 by (simp add: utf8_step_def utf8_char_def continuation_def)
  next
    case 3
    have "n div 4096 < 16" "n = 4096 * (n div 4096) + 64 * (n div 64 mod 64) + n mod 64"
      using 3 digits64 [of n] mult_div_mod_eq [of 64 n] by linarith+
    then show ?thesis using 3 assms m by (simp add: utf8_step_def utf8_char_def continuation_def)
  next
    case 4
    have "n div 262144 < 5" "n = 262144 * (n div 262144) + 4096 * (n div 4096 mod 64) + 64 * (n div 64 mod 64) + n mod 64"
      using 4 digits64 [of n] mult_div_mod_eq [of 64 n] by linarith+
    then show ?thesis using 4 m by (simp add: utf8_step_def utf8_char_def continuation_def)
  qed (simp add: utf8_step_def utf8_char_def)
qed

lemma utf8_char_bytes: "scalar n \<Longrightarrow> list_all (\<lambda>b. b < 256) (utf8_char n) \<and> utf8_char n \<noteq> []"
  using scalar_bound [of n] by (auto simp: utf8_char_def)

lemma utf8_decode_encode: "utf8_encode t = Some bs \<Longrightarrow> utf8_decode bs = Some t"
proof -
  assume "utf8_encode t = Some bs"
  then have "list_all scalar t" "bs = concat (map utf8_char t)" by (auto simp: utf8_encode_def split: if_splits)
  then show ?thesis
  proof (induction t arbitrary: bs)
    case (Cons n t)
    with utf8_char_bytes [of n] show ?case by (subst utf8_decode.simps) (simp add: utf8_step_char)
  qed (subst utf8_decode.simps, simp)
qed

lemma utf8_encode_bytes: "utf8_encode t = Some bs \<Longrightarrow> list_all (\<lambda>b. b < 256) bs \<and> (bs = [] \<longleftrightarrow> t = [])"
  using utf8_char_bytes by (fastforce simp: utf8_encode_def list_all_iff split: if_splits)

lemma char_two: "2 \<le> x \<Longrightarrow> x < 32 \<Longrightarrow> y < 64 \<Longrightarrow> utf8_char (64 * x + y) = [192 + x, 128 + y] \<and> scalar (64 * x + y)"
  by (simp add: utf8_char_def scalar_def high_surrogate_def low_surrogate_def)

lemma last_digit: "n = k + 64 * m \<Longrightarrow> k < 64 \<Longrightarrow> n mod 64 = k" for n k m :: nat
  by (simp only: mod_mult_self2 mod_less)

lemma char_three:
  assumes "x < 16" "y < 64" "z < 64" "2048 \<le> 4096 * x + 64 * y + z"
  shows "utf8_char (4096 * x + 64 * y + z) = [224 + x, 128 + y, 128 + z]"
proof -
  let ?n = "4096 * x + 64 * y + z"
  have "?n div 64 = 64 * x + y" using assms by (simp add: algebra_simps)
  moreover have "?n mod 64 = z" using assms(3) by (intro last_digit [of _ _ "64 * x + y"]) simp_all
  moreover have "?n div 4096 = x" using assms by (simp add: algebra_simps)
  ultimately show ?thesis using assms by (simp add: utf8_char_def)
qed

lemma char_four:
  assumes "y < 64" "z < 64" "w < 64" "65536 \<le> 262144 * x + 4096 * y + 64 * z + w"
  shows "utf8_char (262144 * x + 4096 * y + 64 * z + w) = [240 + x, 128 + y, 128 + z, 128 + w]"
proof -
  let ?n = "262144 * x + 4096 * y + 64 * z + w"
  have "?n div 64 = 64 * (64 * x + y) + z" using assms by (simp add: algebra_simps)
  moreover have "?n mod 64 = w" using assms(3) by (intro last_digit [of _ _ "64 * (64 * x + y) + z"]) simp_all
  moreover have "(4096 * x + 64 * y + z) mod 64 = z" using assms(2) by (intro last_digit [of _ _ "64 * x + y"]) simp_all
  moreover have "?n div 4096 = 64 * x + y" "?n div 262144 = x" using assms by (simp_all add: algebra_simps)
  ultimately show ?thesis using assms by (simp add: utf8_char_def)
qed

lemma continuationE: "continuation b \<Longrightarrow> \<exists>y < 64. b = 128 + y"
  by (rule exI [of _ "b - 128"]) (auto simp: continuation_def)

lemma utf8_step_encodes: "utf8_step s = Some (n, r) \<Longrightarrow> s = utf8_char n @ r \<and> scalar n"
proof -
  assume s: "utf8_step s = Some (n, r)"
  then obtain a s1 where a: "s = a # s1" by (cases s) (simp_all add: utf8_step_def)
  consider "a < 128" | "194 \<le> a" "a \<le> 223" | "224 \<le> a" "a \<le> 239" | "240 \<le> a" | "128 \<le> a" "a < 194" by linarith
  then show ?thesis
  proof cases
    case 1
    with s a show ?thesis by (simp add: utf8_step_def utf8_char_def scalar_def high_surrogate_def low_surrogate_def)
  next
    case 2
    with s a obtain b where b: "s1 = b # r" "continuation b" "n = 64 * (a - 192) + (b - 128)"
      by (auto simp: utf8_step_def split: list.splits if_splits)
    obtain y where "y < 64" "b = 128 + y" using continuationE [OF b(2)] by blast
    with char_two [of "a - 192" y] 2 b a show ?thesis by simp
  next
    case 3
    with s a obtain b c where b: "s1 = b # c # r" "continuation b" "continuation c" "n = 4096 * (a - 224) + 64 * (b - 128) + (c - 128)"
      "2048 \<le> n" "scalar n"
      by (auto simp: utf8_step_def Let_def split: list.splits if_splits)
    obtain y z where "y < 64" "b = 128 + y" "z < 64" "c = 128 + z" using continuationE b(2,3) by metis
    with char_three [of "a - 224" y z] 3 b a show ?thesis by simp
  next
    case 4
    with s a obtain b c d where b: "s1 = b # c # d # r" "continuation b" "continuation c" "continuation d"
      "n = 262144 * (a - 240) + 4096 * (b - 128) + 64 * (c - 128) + (d - 128)" "65536 \<le> n" "n < 1114112"
      by (auto simp: utf8_step_def Let_def split: list.splits if_splits)
    obtain y z w where "y < 64" "b = 128 + y" "z < 64" "c = 128 + z" "w < 64" "d = 128 + w"
      using continuationE b(2-4) by metis
    with char_four [of y z w "a - 240"] 4 b a show ?thesis
      by (simp add: scalar_def high_surrogate_def low_surrogate_def)
  next
    case 5
    with s a show ?thesis by (auto simp: utf8_step_def Let_def split: list.splits if_splits)
  qed
qed

lemma utf8_encode_decode: "utf8_decode bs = Some t \<Longrightarrow> utf8_encode t = Some bs"
proof (induction bs arbitrary: t rule: utf8_decode.induct)
  case (1 bs)
  show ?case
  proof (cases "bs = []")
    case True
    with 1(2) show ?thesis by (simp add: utf8_decode.simps utf8_encode_def)
  next
    case False
    with 1(2) obtain n r u where n: "utf8_step bs = Some (n, r)" "utf8_decode r = Some u" "t = n # u"
      by (subst (asm) utf8_decode.simps) (auto split: option.splits)
    from 1(1) [OF False n(1) refl n(2)] utf8_step_encodes [OF n(1)] n(3) show ?thesis
      by (auto simp: utf8_encode_def split: if_splits)
  qed
qed

end
