(* ===== verification/Key_Segments.thy ===== *)
theory Key_Segments
  imports Key_Builders Utf8_Roundtrip
begin

text \<open>Encoding and parsing of key segments undo each other; a text is accepted in the spelling that is built or with
  superfluous escapes.\<close>

section \<open>Bytes\<close>

lemma upper_hex_back: "n < 16 \<Longrightarrow> upper_hex_value (upper_hex n) = Some n \<and> upper_hex n < 97"
  by (auto simp: upper_hex_def upper_hex_value_def)

lemma decode_percent_hex: "b < 256 \<Longrightarrow> decode_percent_byte (upper_hex (b div 16)) (upper_hex (b mod 16)) = Inr b"
  using upper_hex_back [of "b div 16"] upper_hex_back [of "b mod 16"] no_upper
  by (simp add: decode_percent_byte_def)

lemma safe_not_percent: "safe_char c \<Longrightarrow> c \<noteq> 37 \<and> c \<noteq> 58 \<and> c \<noteq> 47"
  by (auto simp: safe_char_def)

lemma decode_encoded_byte: "b < 256 \<Longrightarrow> decode_bytes (encode_byte b @ s) = bindE (decode_bytes s) (\<lambda>bs. Inr (b # bs))"
  by (simp add: encode_byte_def decode_percent_hex safe_not_percent)

lemma decode_encoded_bytes: "list_all (\<lambda>b. b < 256) bs \<Longrightarrow> decode_bytes (concat (map encode_byte bs)) = Inr bs"
  by (induction bs) (simp_all add: decode_encoded_byte)

lemma encode_byte_chars: "c \<in> set (encode_byte b) \<Longrightarrow> b < 256 \<Longrightarrow> c \<noteq> 58 \<and> c \<noteq> 47"
proof -
  assume c: "c \<in> set (encode_byte b)" and "b < 256"
  then have "b div 16 < 16" "b mod 16 < 16" by simp_all
  then show ?thesis using c safe_not_percent [of b] by (auto simp: encode_byte_def upper_hex_def split: if_splits)
qed

section \<open>Segments\<close>

lemma encode_segment_Inr:
  assumes "encode_segment a = Inr t"
  shows "\<exists>s. a = PyStr s \<and> s \<noteq> [] \<and> t \<noteq> [] \<and> decode_segment t = Inr s \<and> 58 \<notin> set t \<and> 47 \<notin> set t"
proof -
  obtain s bs where s: "a = PyStr s" "s \<noteq> []" "utf8_encode s = Some bs" "t = concat (map encode_byte bs)"
    using assms by (cases a) (auto split: if_splits option.splits)
  have bs: "list_all (\<lambda>b. b < 256) bs" "bs \<noteq> []" using utf8_encode_bytes [OF s(3)] s(2) by auto
  then have "t \<noteq> []" using s(4) by (cases bs) (auto simp: encode_byte_def)
  moreover have "decode_segment t = Inr s"
    using calculation decode_encoded_bytes [OF bs(1)] utf8_decode_encode [OF s(3)] s(4) by (simp add: decode_segment_def)
  moreover have "58 \<notin> set t \<and> 47 \<notin> set t" using encode_byte_chars bs(1) unfolding s(4) list_all_iff by fastforce
  ultimately show ?thesis using s by blast
qed

lemma encode_segment_inj: "encode_segment a = Inr t \<Longrightarrow> encode_segment b = Inr t \<Longrightarrow> a = b"
  by (drule encode_segment_Inr)+ auto

lemma mapE_Inr: "mapE f xs = Inr ys \<longleftrightarrow> list_all2 (\<lambda>x y. f x = Inr y) xs ys"
  by (induction xs arbitrary: ys) (auto simp: list_all2_Cons1 result_simps)

lemma mapE_length: "mapE f xs = Inr ys \<Longrightarrow> length ys = length xs"
  by (simp add: mapE_Inr list_all2_lengthD)

lemma encode_all:
  assumes "mapE encode_segment as = Inr ts"
  shows "\<exists>ss. as = map PyStr ss \<and> list_all (\<lambda>s. s \<noteq> []) ss \<and> mapE decode_segment ts = Inr ss
    \<and> list_all (\<lambda>t. t \<noteq> [] \<and> 58 \<notin> set t \<and> 47 \<notin> set t) ts"
  using assms
proof (induction as arbitrary: ts)
  case (Cons a as)
  then obtain t us where t: "encode_segment a = Inr t" "mapE encode_segment as = Inr us" "ts = t # us" by (auto simp: result_simps)
  obtain s where "a = PyStr s" "s \<noteq> []" "t \<noteq> []" "decode_segment t = Inr s" "58 \<notin> set t" "47 \<notin> set t"
    using encode_segment_Inr [OF t(1)] by blast
  moreover obtain ss where "as = map PyStr ss" "list_all (\<lambda>s. s \<noteq> []) ss" "mapE decode_segment us = Inr ss"
    "list_all (\<lambda>t. t \<noteq> [] \<and> 58 \<notin> set t \<and> 47 \<notin> set t) us"
    using Cons(1) [OF t(2)] by blast
  ultimately show ?case using t(3) by (intro exI [of _ "s # ss"]) simp
qed simp

section \<open>Spellings\<close>

fun minimal :: "utext \<Rightarrow> bool" where
  \<comment> \<open>no escape of a character that stands for itself\<close>
  "minimal [] = True"
| "minimal (c # cs) =
     (if c = 37 then
        (case cs of
           a # b # rest \<Rightarrow>
             (case (upper_hex_value a, upper_hex_value b) of (Some x, Some y) \<Rightarrow> \<not> safe_char (16 * x + y) | _ \<Rightarrow> False)
             \<and> minimal rest
         | _ \<Rightarrow> False)
      else minimal cs)"

lemma hex_value_upper: "upper_hex_value c = Some n \<Longrightarrow> c = upper_hex n \<and> n < 16"
  by (auto simp: upper_hex_value_def upper_hex_def split: if_splits)

lemma decode_bytes_spelling:
  "decode_bytes t = Inr bs \<Longrightarrow> list_all (\<lambda>b. b < 256) bs \<and> (concat (map encode_byte bs) = t \<longleftrightarrow> minimal t)
     \<and> minimal (concat (map encode_byte bs)) \<and> 58 \<notin> set t \<and> 47 \<notin> set t"
proof (induction t arbitrary: bs rule: decode_bytes.induct)
  case (2 c cs)
  show ?case
  proof (cases "c = 37")
    case True
    with 2(3) obtain a b rest v us where d: "cs = a # b # rest" "decode_percent_byte a b = Inr v" "decode_bytes rest = Inr us"
      "bs = v # us" by (auto simp: result_simps split: list.splits)
    then obtain x y where x: "upper_hex_value a = Some x" "upper_hex_value b = Some y" "v = 16 * x + y"
      by (auto simp: decode_percent_byte_def split: if_splits option.splits)
    from hex_value_upper [OF x(1)] hex_value_upper [OF x(2)] have h: "a = upper_hex x" "x < 16" "b = upper_hex y" "y < 16" by auto
    then have v: "v < 256" "v div 16 = x" "v mod 16 = y" using x(3) by auto
    have ab: "a \<noteq> 58" "a \<noteq> 47" "b \<noteq> 58" "b \<noteq> 47" using h by (auto simp: upper_hex_def)
    note ih = 2(1) [OF True d(1) refl d(3)]
    show ?thesis
    proof (cases "safe_char v")
      case safe: True
      then have "encode_byte v = [v]" "v \<noteq> 37" by (auto simp: encode_byte_def dest: safe_not_percent)
      with ih True d(1,4) x v(1) ab safe show ?thesis by simp
    next
      case False
      then have "encode_byte v = [37, a, b]" using v h by (simp add: encode_byte_def)
      with ih True d(1,4) x v(1) ab False show ?thesis by simp
    qed
  next
    case False
    with 2(3) obtain us where d: "safe_char c" "decode_bytes cs = Inr us" "bs = c # us" by (auto simp: result_simps split: if_splits)
    from d(1) have "c < 256" "c \<noteq> 58" "c \<noteq> 47" by (auto simp: safe_char_def)
    with 2(2) [OF False _ d(2)] d False show ?thesis by (simp add: encode_byte_def)
  qed
qed simp

lemma decode_bytes_nonempty: "decode_bytes (c # cs) \<noteq> Inr []"
  by (cases "c = 37") (auto simp: result_simps split: list.splits)

lemma decode_segment_spelling:
  assumes "decode_segment t = Inr s"
  shows "\<exists>t'. encode_segment (PyStr s) = Inr t' \<and> minimal t' \<and> (t' = t \<longleftrightarrow> minimal t) \<and> 58 \<notin> set t \<and> 47 \<notin> set t"
proof -
  obtain bs where bs: "t \<noteq> []" "decode_bytes t = Inr bs" "utf8_decode bs = Some s"
    using assms by (auto simp: decode_segment_def result_simps split: if_splits option.splits)
  note spelling = decode_bytes_spelling [OF bs(2)]
  have "bs \<noteq> []" using bs(1,2) decode_bytes_nonempty by (cases t) auto
  then have "s \<noteq> []" using utf8_encode_bytes [OF utf8_encode_decode [OF bs(3)]] by simp
  with utf8_encode_decode [OF bs(3)] spelling show ?thesis by simp
qed

section \<open>Keys\<close>

lemma asc_inj: "asc m = asc n \<longleftrightarrow> m = n"
  by (simp add: asc_def inj_map_eq_map inj_def)

lemma segment_count_asc: "segment_count (asc ns) = map_of SEGMENT_COUNTS ns"
proof -
  have "map_of (map (\<lambda>(n, k). (asc n, k)) xs) (asc ns) = map_of xs ns" for xs :: "(string \<times> nat) list"
    by (induction xs) (auto simp: asc_inj)
  then show ?thesis by (simp add: segment_count_def)
qed

lemma namespaces: "list_all (\<lambda>(ns, n). 58 \<notin> set (asc ns) \<and> ns \<noteq> [] \<and> ns \<noteq> ''file'' \<and> 1 \<le> n \<and> n \<le> 3) SEGMENT_COUNTS"
  by code_simp

lemma namespaceD:
  assumes "segment_count u = Some n"
  shows "\<exists>ns. u = asc ns \<and> 58 \<notin> set u \<and> u \<noteq> [] \<and> u \<noteq> asc ''file'' \<and> 1 \<le> n"
proof -
  from assms obtain ns where "(ns, n) \<in> set SEGMENT_COUNTS" "u = asc ns"
    by (auto simp: segment_count_def dest!: map_of_SomeD)
  moreover from this(1) namespaces have "58 \<notin> set (asc ns)" "ns \<noteq> []" "ns \<noteq> ''file''" "1 \<le> n"
    unfolding list_all_iff by blast+
  moreover from this(2) have "asc ns \<noteq> []" by (simp add: asc_def)
  ultimately show ?thesis using asc_inj by blast
qed

lemma key_parts:
  assumes "58 \<notin> set ns"
  shows "takeWhile (\<lambda>c. c \<noteq> 58) (ns @ 58 # r) = ns" "dropWhile (\<lambda>c. c \<noteq> 58) (ns @ 58 # r) = 58 # r"
  using assms by (induction ns) auto

definition key_record :: "utext \<Rightarrow> utext list \<Rightarrow> utext \<Rightarrow> parsed_key" where
  "key_record ns segments key =
     \<lparr>pk_version = GRAPH_KEY_VERSION, pk_namespace = ns, pk_segments = segments, pk_key = key,
      pk_path = (if ns = asc ''file'' then Some (join_with 47 segments) else None)\<rparr>"

lemma parse_namespaced:
  assumes "segment_count ns = Some n" and "ts \<noteq> []" and "list_all (\<lambda>t. 58 \<notin> set t) ts"
  shows "parse_key (PyStr (ns @ 58 # join_with 58 ts)) =
    (if length ts \<noteq> n then fault (SegmentCount ns n)
     else bindE (mapE decode_segment ts) (\<lambda>ss. Inr (key_record ns ss (ns @ 58 # join_with 58 ts))))"
  using namespaceD [OF assms(1)] assms split_join [OF assms(2,3)]
  by (auto simp: key_parts Let_def key_record_def)

lemma graph_key_parses:
  assumes "graph_key ns args = Inr k"
  shows "\<exists>ss. args = map PyStr ss \<and> list_all (\<lambda>s. s \<noteq> []) ss \<and> parse_key (PyStr k) = Inr (key_record (asc ns) ss k)"
proof -
  obtain n ts where n: "segment_count (asc ns) = Some n" "length args = n" "mapE encode_segment args = Inr ts"
    "k = asc ns @ 58 # join_with 58 ts"
    using assms by (auto simp: graph_key_def result_simps split: option.splits if_splits)
  obtain ss where ss: "args = map PyStr ss" "list_all (\<lambda>s. s \<noteq> []) ss" "mapE decode_segment ts = Inr ss"
    "list_all (\<lambda>t. 58 \<notin> set t) ts" using encode_all [OF n(3)] by (auto simp: list_all_iff)
  have "length ts = n" "ts \<noteq> []" using namespaceD [OF n(1)] mapE_length [OF n(3)] n(2) by auto
  with parse_namespaced [OF n(1) _ ss(4)] ss n(4) show ?thesis by auto
qed

lemma key_recordD: "key_record ns ss k = key_record ns' ss' k' \<Longrightarrow> ns = ns' \<and> ss = ss'"
  by (simp add: key_record_def)

end
