(* ===== verification/Key_Properties.thy ===== *)
theory Key_Properties
  imports Key_Segments
begin

text \<open>
  Graph keys identify: every key that is built is accepted and names exactly what it was built from, file keys are normalized,
  and the parser accepts other spellings of the same identity only with superfluous escapes.
\<close>

section \<open>Every builder\<close>

inductive built :: "string \<Rightarrow> utext \<Rightarrow> bool" where
  \<comment> \<open>the key is what a public builder of the namespace returned\<close>
  "tool_key a = Inr k \<Longrightarrow> built ''tool'' k"
| "env_key a = Inr k \<Longrightarrow> built ''env'' k"
| "host_category_key a = Inr k \<Longrightarrow> built ''host.category'' k"
| "python_module_key a = Inr k \<Longrightarrow> built ''python.module'' k"
| "python_class_key a b = Inr k \<Longrightarrow> built ''python.class'' k"
| "python_function_key a b = Inr k \<Longrightarrow> built ''python.function'' k"
| "python_method_key a b c = Inr k \<Longrightarrow> built ''python.method'' k"
| "go_module_key a = Inr k \<Longrightarrow> built ''go.module'' k"
| "go_package_key a b = Inr k \<Longrightarrow> built ''go.package'' k"
| "go_type_key a b = Inr k \<Longrightarrow> built ''go.type'' k"
| "go_function_key a b = Inr k \<Longrightarrow> built ''go.function'' k"
| "go_method_key a b c = Inr k \<Longrightarrow> built ''go.method'' k"
| "go_const_key a b = Inr k \<Longrightarrow> built ''go.const'' k"
| "go_var_key a b = Inr k \<Longrightarrow> built ''go.var'' k"
| "nix_app_key a b c = Inr k \<Longrightarrow> built ''nix.app'' k"
| "nix_package_key a b c = Inr k \<Longrightarrow> built ''nix.package'' k"
| "nix_dev_shell_key a b c = Inr k \<Longrightarrow> built ''nix.devShell'' k"
| "nix_check_key a b c = Inr k \<Longrightarrow> built ''nix.check'' k"
| "nix_output_key a b = Inr k \<Longrightarrow> built ''nix.output'' k"
| "doc_page_key a = Inr k \<Longrightarrow> built ''doc.page'' k"
| "doc_section_key a b = Inr k \<Longrightarrow> built ''doc.section'' k"
| "doc_adr_key a = Inr k \<Longrightarrow> built ''doc.adr'' k"
| "doc_skill_key a = Inr k \<Longrightarrow> built ''doc.skill'' k"
| "external_url_key a = Inr k \<Longrightarrow> built ''external.url'' k"
| "config_document_key a = Inr k \<Longrightarrow> built ''config.document'' k"
| "config_path_key a b = Inr k \<Longrightarrow> built ''config.path'' k"
| "css_document_key a = Inr k \<Longrightarrow> built ''css.document'' k"
| "css_rule_key a b = Inr k \<Longrightarrow> built ''css.rule'' k"
| "css_selector_key a b = Inr k \<Longrightarrow> built ''css.selector'' k"
| "css_custom_property_key a b = Inr k \<Longrightarrow> built ''css.custom_property'' k"
| "html_document_key a = Inr k \<Longrightarrow> built ''html.document'' k"
| "html_element_key a b = Inr k \<Longrightarrow> built ''html.element'' k"
| "html_anchor_key a b = Inr k \<Longrightarrow> built ''html.anchor'' k"
| "xml_document_key a = Inr k \<Longrightarrow> built ''xml.document'' k"
| "xml_element_key a b = Inr k \<Longrightarrow> built ''xml.element'' k"
| "xml_attribute_key a b c = Inr k \<Longrightarrow> built ''xml.attribute'' k"
| "feed_document_key a = Inr k \<Longrightarrow> built ''feed.document'' k"
| "feed_channel_key a b = Inr k \<Longrightarrow> built ''feed.channel'' k"
| "feed_item_key a b = Inr k \<Longrightarrow> built ''feed.item'' k"
| "feed_author_key a b = Inr k \<Longrightarrow> built ''feed.author'' k"
| "feed_category_key a b = Inr k \<Longrightarrow> built ''feed.category'' k"
| "warc_document_key a = Inr k \<Longrightarrow> built ''warc.document'' k"
| "warc_record_key a b = Inr k \<Longrightarrow> built ''warc.record'' k"
| "document_file_key a = Inr k \<Longrightarrow> built ''document.file'' k"
| "document_section_key a b = Inr k \<Longrightarrow> built ''document.section'' k"
| "document_table_key a b = Inr k \<Longrightarrow> built ''document.table'' k"
| "document_sheet_key a b = Inr k \<Longrightarrow> built ''document.sheet'' k"
| "document_column_key a b = Inr k \<Longrightarrow> built ''document.column'' k"
| "document_latex_command_key a b = Inr k \<Longrightarrow> built ''document.latex_command'' k"
| "ruby_file_key a = Inr k \<Longrightarrow> built ''ruby.file'' k"
| "ruby_module_key a = Inr k \<Longrightarrow> built ''ruby.module'' k"
| "ruby_class_key a = Inr k \<Longrightarrow> built ''ruby.class'' k"
| "ruby_method_key a b = Inr k \<Longrightarrow> built ''ruby.method'' k"
| "ruby_singleton_method_key a b = Inr k \<Longrightarrow> built ''ruby.singleton_method'' k"
| "ruby_constant_key a b = Inr k \<Longrightarrow> built ''ruby.constant'' k"
| "ruby_test_case_key a b = Inr k \<Longrightarrow> built ''ruby.test_case'' k"
| "ruby_test_method_key a b = Inr k \<Longrightarrow> built ''ruby.test_method'' k"
| "ruby_route_key a b = Inr k \<Longrightarrow> built ''ruby.route'' k"
| "js_file_key a = Inr k \<Longrightarrow> built ''js.file'' k"
| "js_module_key a = Inr k \<Longrightarrow> built ''js.module'' k"
| "js_function_key a b = Inr k \<Longrightarrow> built ''js.function'' k"
| "js_class_key a b = Inr k \<Longrightarrow> built ''js.class'' k"
| "js_method_key a b = Inr k \<Longrightarrow> built ''js.method'' k"
| "js_variable_key a b = Inr k \<Longrightarrow> built ''js.variable'' k"
| "js_component_key a b = Inr k \<Longrightarrow> built ''js.component'' k"
| "js_test_suite_key a b = Inr k \<Longrightarrow> built ''js.test_suite'' k"
| "js_test_case_key a b = Inr k \<Longrightarrow> built ''js.test_case'' k"
| "js_route_key a b = Inr k \<Longrightarrow> built ''js.route'' k"
| "bash_script_key a = Inr k \<Longrightarrow> built ''bash.script'' k"
| "bash_function_key a b = Inr k \<Longrightarrow> built ''bash.function'' k"
| "bats_file_key a = Inr k \<Longrightarrow> built ''bats.file'' k"
| "bats_test_case_key a b = Inr k \<Longrightarrow> built ''bats.test_case'' k"
| "bats_expectation_key a b c d = Inr k \<Longrightarrow> built ''bats.expectation'' k"
| "awk_program_key a = Inr k \<Longrightarrow> built ''awk.program'' k"
| "awk_function_key a b = Inr k \<Longrightarrow> built ''awk.function'' k"
| "zsh_script_key a = Inr k \<Longrightarrow> built ''zsh.script'' k"
| "zsh_function_key a b = Inr k \<Longrightarrow> built ''zsh.function'' k"
| "zunit_file_key a = Inr k \<Longrightarrow> built ''zunit.file'' k"
| "zunit_suite_key a b = Inr k \<Longrightarrow> built ''zunit.suite'' k"
| "zunit_test_case_key a b = Inr k \<Longrightarrow> built ''zunit.test_case'' k"
| "zunit_hook_key a b c = Inr k \<Longrightarrow> built ''zunit.hook'' k"
| "zunit_assertion_key a b c = Inr k \<Longrightarrow> built ''zunit.assertion'' k"
| "zunit_expectation_key a b c = Inr k \<Longrightarrow> built ''zunit.expectation'' k"
| "zunit_command_under_test_key a b c = Inr k \<Longrightarrow> built ''zunit.command_under_test'' k"
| "zunit_mock_key a b c = Inr k \<Longrightarrow> built ''zunit.mock'' k"
| "zunit_stub_key a b c = Inr k \<Longrightarrow> built ''zunit.stub'' k"
| "powershell_script_key a = Inr k \<Longrightarrow> built ''powershell.script'' k"
| "powershell_module_key a = Inr k \<Longrightarrow> built ''powershell.module'' k"
| "powershell_manifest_key a = Inr k \<Longrightarrow> built ''powershell.manifest'' k"
| "powershell_function_key a b = Inr k \<Longrightarrow> built ''powershell.function'' k"
| "powershell_manifest_export_key a b c = Inr k \<Longrightarrow> built ''powershell.export'' k"
| "email_message_key a b = Inr k \<Longrightarrow> built ''email.message'' k"
| "email_mailbox_key a = Inr k \<Longrightarrow> built ''email.mailbox'' k"
| "email_address_key a = Inr k \<Longrightarrow> built ''email.address'' k"
| "email_part_key a b = Inr k \<Longrightarrow> built ''email.part'' k"
| "email_attachment_stub_key a b = Inr k \<Longrightarrow> built ''email.attachment_stub'' k"
| "email_thread_hint_key a b = Inr k \<Longrightarrow> built ''email.thread_hint'' k"
| "dynamic_key a b = Inr k \<Longrightarrow> built ''dynamic'' k"
| "external_key a b = Inr k \<Longrightarrow> built ''external'' k"
| "unknown_key a b = Inr k \<Longrightarrow> built ''unknown'' k"
| "go_source_module_key a b c = Inr k \<Longrightarrow> built ''go.source-module.v2'' k"
| "go_source_package_key a b c = Inr k \<Longrightarrow> built ''go.source-package.v2'' k"
| "go_source_package_fallback_key a b c = Inr k \<Longrightarrow> built ''go.source-package-fallback.v2'' k"
| "go_source_type_key a b = Inr k \<Longrightarrow> built ''go.source-type.v2'' k"
| "go_source_function_key a b = Inr k \<Longrightarrow> built ''go.source-function.v2'' k"
| "go_source_method_key a b c = Inr k \<Longrightarrow> built ''go.source-method.v2'' k"
| "go_source_const_key a b = Inr k \<Longrightarrow> built ''go.source-const.v2'' k"
| "go_source_var_key a b = Inr k \<Longrightarrow> built ''go.source-var.v2'' k"

lemmas builder_defs = tool_key_def env_key_def host_category_key_def python_module_key_def python_class_key_def
  python_function_key_def python_method_key_def go_module_key_def go_package_key_def go_type_key_def go_function_key_def
  go_method_key_def go_const_key_def go_var_key_def nix_app_key_def nix_package_key_def nix_dev_shell_key_def
  nix_check_key_def nix_output_key_def doc_page_key_def doc_section_key_def doc_adr_key_def doc_skill_key_def
  external_url_key_def config_document_key_def config_path_key_def css_document_key_def css_rule_key_def
  css_selector_key_def css_custom_property_key_def html_document_key_def html_element_key_def html_anchor_key_def
  xml_document_key_def xml_element_key_def xml_attribute_key_def feed_document_key_def feed_channel_key_def
  feed_item_key_def feed_author_key_def feed_category_key_def warc_document_key_def warc_record_key_def
  document_file_key_def document_section_key_def document_table_key_def document_sheet_key_def document_column_key_def
  document_latex_command_key_def ruby_file_key_def ruby_module_key_def ruby_class_key_def ruby_method_key_def
  ruby_singleton_method_key_def ruby_constant_key_def ruby_test_case_key_def ruby_test_method_key_def ruby_route_key_def
  js_file_key_def js_module_key_def js_function_key_def js_class_key_def js_method_key_def js_variable_key_def
  js_component_key_def js_test_suite_key_def js_test_case_key_def js_route_key_def bash_script_key_def bash_function_key_def
  bats_file_key_def bats_test_case_key_def bats_expectation_key_def awk_program_key_def awk_function_key_def
  zsh_script_key_def zsh_function_key_def zunit_file_key_def zunit_suite_key_def zunit_test_case_key_def zunit_hook_key_def
  zunit_assertion_key_def zunit_expectation_key_def zunit_command_under_test_key_def zunit_mock_key_def zunit_stub_key_def
  powershell_script_key_def powershell_module_key_def powershell_manifest_key_def powershell_function_key_def
  powershell_manifest_export_key_def email_message_key_def email_mailbox_key_def email_address_key_def email_part_key_def
  email_attachment_stub_key_def email_thread_hint_key_def dynamic_key_def external_key_def unknown_key_def
  go_source_module_key_def go_source_package_key_def go_source_package_fallback_key_def go_source_type_key_def
  go_source_function_key_def go_source_method_key_def go_source_const_key_def go_source_var_key_def

lemma built_graph_key: "built ns k \<Longrightarrow> \<exists>args. graph_key ns args = Inr k"
  by (induction rule: built.induct) (auto simp: builder_defs source_declaration_key_def result_simps split: if_splits)

text \<open>
  Claim C39 (builders): a key that any of the public builders returns is accepted by the parser, in the namespace of that
  builder. The parsed segments are not empty, building from them gives the same key, and the validator calls the key valid.
\<close>

theorem built_keys_parse:
  assumes "built ns k"
  shows "\<exists>p. parse_key (PyStr k) = Inr p \<and> pk_namespace p = asc ns \<and> pk_key p = k
    \<and> pk_segments p \<noteq> [] \<and> list_all (\<lambda>s. s \<noteq> []) (pk_segments p) \<and> graph_key ns (map PyStr (pk_segments p)) = Inr k
    \<and> validate_key repr (PyStr k) = Inr (True, None)"
proof -
  obtain args where a: "graph_key ns args = Inr k" using built_graph_key [OF assms] by blast
  obtain ss where ss: "args = map PyStr ss" "list_all (\<lambda>s. s \<noteq> []) ss" "parse_key (PyStr k) = Inr (key_record (asc ns) ss k)"
    using graph_key_parses [OF a] by blast
  have "ss \<noteq> []" using a ss(1) namespaceD by (fastforce simp: graph_key_def split: option.splits if_splits)
  with a ss show ?thesis by (auto simp: key_record_def validate_key_def simp del: parse_key.simps)
qed

lemmas graph_key_counts = graph_key_def [unfolded segment_count_asc]

lemmas encoding_simps = graph_key_counts SEGMENT_COUNTS_def utf8_encode_def utf8_char_def scalar_def
  high_surrogate_def low_surrogate_def encode_byte_def safe_char_def upper_hex_def asc_def [of "_ # _"]

theorem built_keys_parse_witness:
  "\<exists>p. parse_key (PyStr (asc ''bash.function:file%3Aa%2520b:f'')) = Inr p \<and> pk_namespace p = asc ''bash.function''
     \<and> graph_key ''bash.function'' (map PyStr (pk_segments p)) = Inr (asc ''bash.function:file%3Aa%2520b:f'')"
proof -
  have "bash_function_key (PurePathArg (asc ''a b'')) (PyStr (asc ''f'')) = Inr (asc ''bash.function:file%3Aa%2520b:f'')"
    by (simp add: bash_function_key_def coerce_file_key_def file_key_def normalize_file_components_def normalize_raw_def encoding_simps)
  from built_keys_parse [OF built.intros(70) [OF this]] show ?thesis by blast
qed

text \<open>
  Claim C38 (identity): two keys built with \<^verbatim>\<open>_key\<close> are equal exactly if they were built for the same namespace from the same
  segments, whatever Unicode text the segments hold; and parsing gives back the segments.
\<close>

theorem keys_identify:
  assumes "graph_key ns args = Inr k" and "graph_key ns' args' = Inr k'"
  shows "(k = k') = (ns = ns' \<and> args = args')
    \<and> (case parse_key (PyStr k) of Inr p \<Rightarrow> pk_namespace p = asc ns \<and> map PyStr (pk_segments p) = args | Inl _ \<Rightarrow> False)"
proof -
  obtain ss where ss: "args = map PyStr ss" "parse_key (PyStr k) = Inr (key_record (asc ns) ss k)"
    using graph_key_parses [OF assms(1)] by blast
  obtain ss' where ss': "args' = map PyStr ss'" "parse_key (PyStr k') = Inr (key_record (asc ns') ss' k')"
    using graph_key_parses [OF assms(2)] by blast
  show ?thesis using ss ss' assms by (auto simp: asc_inj key_record_def simp del: parse_key.simps)
qed

theorem keys_identify_witness:
  "asc ''python.method:m:C:%C3%A9'' \<noteq> asc ''python.method:m:C%3A%C3%A9:x''"
proof -
  have "graph_key ''python.method'' [PyStr (asc ''m''), PyStr (asc ''C''), PyStr [233]] = Inr (asc ''python.method:m:C:%C3%A9'')"
    "graph_key ''python.method'' [PyStr (asc ''m''), PyStr [67, 58, 233], PyStr (asc ''x'')] = Inr (asc ''python.method:m:C%3A%C3%A9:x'')"
    by (simp_all add: encoding_simps)
  from keys_identify [OF this, THEN conjunct1] show ?thesis by (simp add: asc_def)
qed

section \<open>Files\<close>

definition plain_name :: "utext \<Rightarrow> bool" where
  "plain_name c = (c \<noteq> [] \<and> c \<noteq> dot \<and> c \<noteq> dotdot \<and> 47 \<notin> set c \<and> 92 \<notin> set c)"

definition normal :: "utext list \<Rightarrow> bool" where
  \<comment> \<open>a path below the root of the repository, or the root itself\<close>
  "normal cs = (cs = [dot] \<or> (cs \<noteq> [] \<and> list_all plain_name cs))"

lemma normalize_step_normal:
  "normalize_step comps cs = Inr out \<Longrightarrow> list_all plain_name comps \<Longrightarrow> list_all (\<lambda>c. 47 \<notin> set c \<and> 92 \<notin> set c) cs \<Longrightarrow>
     list_all plain_name out"
proof (induction comps cs rule: normalize_step.induct)
  case (2 comps c cs)
  have "list_all plain_name (butlast comps)" using 2(5) by (auto simp: list_all_iff dest: in_set_butlastD)
  with 2 show ?case by (auto simp: plain_name_def [of c] split: if_splits)
qed simp

lemma normalize_step_plain: "list_all plain_name cs \<Longrightarrow> normalize_step comps cs = Inr (comps @ cs)"
  by (induction cs arbitrary: comps) (auto simp: plain_name_def)

lemma normalize_normal:
  assumes "normalize_file_components a = Inr cs"
  shows "normal cs"
proof -
  obtain raw out where raw: "normalize_step [] (split_on 47 (map (\<lambda>c. if c = 92 then 47 else c) raw)) = Inr out"
    "cs = (if out = [] then [dot] else out)"
    using assms by (auto simp: normalize_file_components_def normalize_raw_def Let_def result_simps split: option.splits if_splits)
  have "list_all (\<lambda>c. 47 \<notin> set c \<and> 92 \<notin> set c) (split_on 47 (map (\<lambda>c. if c = 92 then 47 else c) raw))"
    unfolding list_all_iff
  proof
    fix c assume c: "c \<in> set (split_on 47 (map (\<lambda>c. if c = 92 then 47 else c) raw))"
    have "92 \<notin> set (map (\<lambda>c. if c = 92 then 47 else c) raw)" by auto
    with split_chars [OF c] split_parts [OF c] show "47 \<notin> set c \<and> 92 \<notin> set c" by blast
  qed
  from normalize_step_normal [OF raw(1) _ this] raw(2) show ?thesis by (auto simp: normal_def)
qed

lemma normalize_join:
  assumes "normal cs"
  shows "normalize_file_components (PyStr (join_with 47 cs)) = Inr cs"
proof (cases "cs = [dot]")
  case True
  then show ?thesis by (simp add: normalize_file_components_def normalize_raw_def)
next
  case False
  with assms have cs: "cs \<noteq> []" "list_all plain_name cs" by (auto simp: normal_def)
  let ?p = "join_with 47 cs"
  obtain c cs' where c: "cs = c # cs'" "plain_name c" using cs by (cases cs) auto
  then have x: "?p \<noteq> []" "\<not> opens 47 ?p" by (cases cs'; cases c; simp add: plain_name_def)+
  have "92 \<notin> set ?p" using cs by (induction cs rule: induct_list012) (auto simp: plain_name_def)
  then have m: "map (\<lambda>c. if c = 92 then 47 else c) ?p = ?p" by (intro map_idI) auto
  have "list_all (\<lambda>c. 47 \<notin> set c) cs" using cs(2) by (auto simp: list_all_iff plain_name_def)
  from split_join [OF cs(1) this] normalize_step_plain [OF cs(2), of "[]"] m x cs(1) show ?thesis
    by (simp add: normalize_file_components_def normalize_raw_def)
qed

lemma file_key_parses:
  assumes "normal cs" and "mapE (\<lambda>c. encode_segment (PyStr c)) cs = Inr ts"
  shows "parse_key (PyStr (asc ''file:'' @ join_with 47 ts)) = Inr (key_record (asc ''file'') cs (asc ''file:'' @ join_with 47 ts))"
proof -
  have "mapE encode_segment (map PyStr cs) = Inr ts" using assms(2) by (simp add: mapE_Inr list_all2_map1)
  from encode_all [OF this] have d: "mapE decode_segment ts = Inr cs" "list_all (\<lambda>t. t \<noteq> [] \<and> 47 \<notin> set t) ts"
    by (auto simp: list_all_iff inj_map_eq_map inj_def)
  have ne: "ts \<noteq> []" using mapE_length [OF assms(2)] assms(1) by (auto simp: normal_def)
  have "join_with 47 ts \<noteq> []" using ne d(2) by (cases ts; cases "tl ts") (auto simp: join_Cons)
  moreover have "split_on 47 (join_with 47 ts) = ts" using d(2) by (intro split_join [OF ne]) (simp add: list_all_iff)
  ultimately have "parse_file_segments (join_with 47 ts) = Inr cs"
    using assms(1) d by (auto simp: parse_file_segments_def Let_def normal_def plain_name_def list_all_iff)
  moreover have f: "asc ''file:'' = asc ''file'' @ [58]" by (simp add: asc_def)
  moreover have "58 \<notin> set (asc ''file'')" by (simp add: asc_def)
  ultimately show ?thesis by (simp add: key_parts Let_def key_record_def)
qed

text \<open>
  Claim C40 (file keys): the key of a path is accepted, and what is parsed from it is a normalized path: its components are not
  empty, hold no separator and are neither \<^verbatim>\<open>.\<close> nor \<^verbatim>\<open>..\<close>, so it never leaves the repository; only the root is \<^verbatim>\<open>.\<close>
  itself. The key of that path is the same key, and another path has this key exactly if it normalizes to these components.
\<close>

theorem file_keys_normalize:
  assumes "file_key a = Inr k"
  shows "\<exists>cs p. parse_key (PyStr k) = Inr p \<and> normal cs \<and> pk_segments p = cs \<and> pk_path p = Some (join_with 47 cs)
    \<and> file_key (PyStr (join_with 47 cs)) = Inr k \<and> (\<forall>b. file_key b = Inr k \<longleftrightarrow> normalize_file_components b = Inr cs)"
proof -
  obtain cs ts where c: "normalize_file_components a = Inr cs" "mapE (\<lambda>c. encode_segment (PyStr c)) cs = Inr ts"
    "k = asc ''file:'' @ join_with 47 ts" using assms by (auto simp: file_key_def result_simps)
  note n = normalize_normal [OF c(1)]
  note p = file_key_parses [OF n c(2), folded c(3)]
  have other: "normalize_file_components b = Inr cs" if "file_key b = Inr k" for b
  proof -
    obtain ds us where d: "normalize_file_components b = Inr ds" "mapE (\<lambda>c. encode_segment (PyStr c)) ds = Inr us"
      "k = asc ''file:'' @ join_with 47 us" using \<open>file_key b = Inr k\<close> by (auto simp: file_key_def result_simps)
    from file_key_parses [OF normalize_normal [OF d(1)] d(2)] p d(1,3) show ?thesis by (auto dest: key_recordD)
  qed
  have same: "file_key b = Inr k" if "normalize_file_components b = Inr cs" for b
    using that c by (simp add: file_key_def)
  show ?thesis using p n other same [OF normalize_join [OF n]] same
    by (intro exI [of _ cs] exI [of _ "key_record (asc ''file'') cs k"]) (auto simp: key_record_def simp del: parse_key.simps)
qed

theorem file_keys_normalize_witness:
  "\<exists>p. parse_key (PyStr (asc ''file:src/a%20b.py'')) = Inr p \<and> pk_path p = Some (asc ''src/a b.py'')
     \<and> normal (pk_segments p) \<and> file_key (PurePathArg (asc ''src/a b.py'')) = Inr (asc ''file:src/a%20b.py'')"
proof -
  let ?a = "PyStr (asc ''./src'' @ [92] @ asc ''x/../a b.py'')"
  have n: "normalize_file_components ?a = Inr [asc ''src'', asc ''a b.py'']"
    "normalize_file_components (PurePathArg (asc ''src/a b.py'')) = Inr [asc ''src'', asc ''a b.py'']"
    "join_with 47 [asc ''src'', asc ''a b.py''] = asc ''src/a b.py''"
    by (simp_all add: normalize_file_components_def normalize_raw_def asc_def)
  have k: "file_key ?a = Inr (asc ''file:src/a%20b.py'')"
    unfolding file_key_def n by (simp add: encoding_simps)
  from file_keys_normalize [OF k] obtain cs p where p: "parse_key (PyStr (asc ''file:src/a%20b.py'')) = Inr p" "normal cs"
    "pk_segments p = cs" "pk_path p = Some (join_with 47 cs)"
    "\<forall>b. file_key b = Inr (asc ''file:src/a%20b.py'') \<longleftrightarrow> normalize_file_components b = Inr cs" by blast
  from p(5) k have "normalize_file_components ?a = Inr cs" by blast
  then have cs: "cs = [asc ''src'', asc ''a b.py'']" unfolding n(1) by simp
  from p(5) n(2) cs have "file_key (PurePathArg (asc ''src/a b.py'')) = Inr (asc ''file:src/a%20b.py'')" by blast
  with p(1,2,3,4) n(3) cs show ?thesis by auto
qed

section \<open>Other spellings\<close>

lemma decode_all_spelling:
  assumes "mapE decode_segment ts = Inr ss"
  shows "\<exists>us. mapE encode_segment (map PyStr ss) = Inr us \<and> (us = ts \<longleftrightarrow> list_all minimal ts) \<and> list_all minimal us
    \<and> list_all (\<lambda>t. 58 \<notin> set t) ts"
  using assms
proof (induction ts arbitrary: ss)
  case (Cons t ts)
  then obtain s rs where s: "decode_segment t = Inr s" "mapE decode_segment ts = Inr rs" "ss = s # rs" by (auto simp: result_simps)
  obtain us where "mapE encode_segment (map PyStr rs) = Inr us" "us = ts \<longleftrightarrow> list_all minimal ts" "list_all minimal us"
    "list_all (\<lambda>t. 58 \<notin> set t) ts" using Cons(1) [OF s(2)] by blast
  moreover obtain u where "encode_segment (PyStr s) = Inr u" "minimal u" "u = t \<longleftrightarrow> minimal t" "58 \<notin> set t"
    using decode_segment_spelling [OF s(1)] by blast
  ultimately show ?case using s(3) by (intro exI [of _ "u # us"]) (auto simp del: encode_segment.simps)
qed simp

lemma parse_namespaceD:
  assumes "parse_key (PyStr k) = Inr p" and "pk_namespace p \<noteq> asc ''file''"
  shows "\<exists>ts n. k = pk_namespace p @ 58 # join_with 58 ts \<and> segment_count (pk_namespace p) = Some n \<and> length ts = n
    \<and> mapE decode_segment ts = Inr (pk_segments p) \<and> list_all (\<lambda>t. 58 \<notin> set t) ts"
proof -
  let ?ns = "takeWhile (\<lambda>c. c \<noteq> 58) k" and ?rest = "dropWhile (\<lambda>c. c \<noteq> 58) k"
  obtain n where n: "?rest \<noteq> []" "segment_count ?ns = Some n" "length (split_on 58 (tl ?rest)) = n"
    "mapE decode_segment (split_on 58 (tl ?rest)) = Inr (pk_segments p)" "pk_namespace p = ?ns"
    using assms by (auto simp: Let_def result_simps split: if_splits option.splits)
  have "hd ?rest = 58" using hd_dropWhile [OF n(1)] by simp
  then have "k = ?ns @ 58 # tl ?rest" using n(1) by (metis list.collapse takeWhile_dropWhile_id)
  moreover have "list_all (\<lambda>t. 58 \<notin> set t) (split_on 58 (tl ?rest))" unfolding list_all_iff by (intro ballI split_parts)
  ultimately show ?thesis using n join_split [of 58 "tl ?rest"] by metis
qed

definition spelled_minimally :: "utext \<Rightarrow> bool" where
  "spelled_minimally k = list_all minimal (split_on 58 (tl (dropWhile (\<lambda>c. c \<noteq> 58) k)))"

text \<open>
  Spellings: whatever key the parser accepts in a namespace other than that of files, building from the parsed
  namespace and segments succeeds, and the key that is built parses to the same segments. The accepted key is the built one
  exactly if it escapes no character that stands for itself; otherwise it is a second spelling of the same identity.
\<close>

theorem accepted_spellings:
  assumes "parse_key (PyStr k) = Inr p" and "pk_namespace p \<noteq> asc ''file''"
  shows "\<exists>ns k'. pk_namespace p = asc ns \<and> graph_key ns (map PyStr (pk_segments p)) = Inr k' \<and> spelled_minimally k'
    \<and> (case parse_key (PyStr k') of Inr q \<Rightarrow> pk_namespace q = asc ns \<and> pk_segments q = pk_segments p | Inl _ \<Rightarrow> False)
    \<and> (k' = k \<longleftrightarrow> spelled_minimally k)"
proof -
  obtain ts n where t: "k = pk_namespace p @ 58 # join_with 58 ts" "segment_count (pk_namespace p) = Some n" "length ts = n"
    "mapE decode_segment ts = Inr (pk_segments p)" "list_all (\<lambda>t. 58 \<notin> set t) ts"
    using parse_namespaceD [OF assms] by blast
  obtain ns where ns: "pk_namespace p = asc ns" "58 \<notin> set (asc ns)" "1 \<le> n" using namespaceD [OF t(2)] by auto
  obtain us where u: "mapE encode_segment (map PyStr (pk_segments p)) = Inr us" "us = ts \<longleftrightarrow> list_all minimal ts"
    "list_all minimal us" using decode_all_spelling [OF t(4)] by blast
  let ?k = "asc ns @ 58 # join_with 58 us"
  have len: "length (pk_segments p) = n" "length us = n" using mapE_length [OF t(4)] mapE_length [OF u(1)] t(3) by simp_all
  then have g: "graph_key ns (map PyStr (pk_segments p)) = Inr ?k" using u(1) t(2) ns(1) by (simp add: graph_key_def)
  from graph_key_parses [OF g] have q: "parse_key (PyStr ?k) = Inr (key_record (asc ns) (pk_segments p) ?k)"
    by (auto simp: inj_map_eq_map inj_def simp del: parse_key.simps)
  have split: "split_on 58 (join_with 58 ts) = ts" using t(5) t(3) ns(3) by (intro split_join) auto
  have "list_all (\<lambda>t. 58 \<notin> set t) us" using encode_all [OF u(1)] by (auto simp: list_all_iff)
  then have split': "split_on 58 (join_with 58 us) = us" using len(2) ns(3) by (intro split_join) auto
  have "us = ts" if "join_with 58 us = join_with 58 ts"
    using arg_cong [OF that, of "split_on 58"] by (simp only: split split')
  then have "?k = k \<longleftrightarrow> us = ts" using t(1) ns(1) by auto
  then show ?thesis using g q u(2,3) t(1) ns split split'
    by (intro exI [of _ ns] exI [of _ ?k])
      (simp add: spelled_minimally_def key_parts key_record_def del: parse_key.simps)
qed

lemmas decoding_simps = decode_segment_def decode_percent_byte_def upper_hex_value_def safe_char_def no_upper utf8_decode_ascii

theorem accepted_spellings_witness:
  "\<exists>p k'. parse_key (PyStr (asc ''tool:%6Eix'')) = Inr p \<and> graph_key ''tool'' (map PyStr (pk_segments p)) = Inr k'
     \<and> k' \<noteq> asc ''tool:%6Eix''"
proof -
  have n: "parse_key (PyStr (asc ''tool'' @ 58 # join_with 58 [asc ''%6Eix'']))
      = Inr (key_record (asc ''tool'') [asc ''nix''] (asc ''tool:%6Eix''))"
  proof (subst parse_namespaced [where n = 1])
    show "segment_count (asc ''tool'') = Some 1" unfolding segment_count_asc by (simp add: SEGMENT_COUNTS_def)
  qed (simp_all add: decoding_simps asc_def)
  have k: "asc ''tool'' @ 58 # join_with 58 [asc ''%6Eix''] = asc ''tool:%6Eix''" by (simp add: asc_def)
  have "pk_namespace (key_record (asc ''tool'') [asc ''nix''] (asc ''tool:%6Eix'')) \<noteq> asc ''file''"
    by (simp add: key_record_def asc_inj)
  moreover have "\<not> spelled_minimally (asc ''tool:%6Eix'')"
    by (simp add: spelled_minimally_def asc_def upper_hex_value_def safe_char_def)
  ultimately show ?thesis using accepted_spellings [OF n [unfolded k]] n k by (auto simp: key_record_def asc_inj simp del: parse_key.simps)
qed

lemma file_key_text: "parse_key (PyStr (asc ''file:'' @ r)) =
    bindE (parse_file_segments r) (\<lambda>ss. Inr (key_record (asc ''file'') ss (asc ''file:'' @ r)))"
proof -
  have "asc ''file:'' @ r = asc ''file'' @ 58 # r" "58 \<notin> set (asc ''file'')" by (simp_all add: asc_def)
  then show ?thesis by (simp add: key_parts key_record_def Let_def)
qed

text \<open>
  A file key with an encoded separator is accepted although its path leaves the repository: the components are checked
  before they are joined.
\<close>

theorem encoded_separator_escapes:
  "\<exists>p. parse_key (PyStr (asc ''file:'' @ asc ''a%2F..%2F..%2Fb'')) = Inr p \<and> pk_path p = Some (asc ''a/../../b'')
     \<and> file_key (PyStr (asc ''a/../../b'')) = fault PathEscapes"
proof -
  have "parse_file_segments (asc ''a%2F..%2F..%2Fb'') = Inr [asc ''a/../../b'']"
    by (simp add: parse_file_segments_def decoding_simps asc_def)
  moreover have "file_key (PyStr (asc ''a/../../b'')) = fault PathEscapes"
    by (simp add: file_key_def normalize_file_components_def normalize_raw_def asc_def)
  ultimately show ?thesis unfolding file_key_text by (simp add: key_record_def)
qed

text \<open>
  A file key with a superfluous escape is passed on as it is: the page of one file gets a second key.
\<close>

theorem second_page_key:
  "\<exists>k k' p p'. doc_page_key (PyStr (asc ''file:'' @ asc ''%61'')) = Inr k \<and> doc_page_key (PyStr (asc ''a'')) = Inr k' \<and> k \<noteq> k'
     \<and> parse_key (PyStr (asc ''file:'' @ asc ''%61'')) = Inr p \<and> parse_key (PyStr (asc ''file:'' @ asc ''a'')) = Inr p'
     \<and> pk_path p = pk_path p'"
proof -
  have p: "parse_file_segments (asc ''%61'') = Inr [asc ''a'']" "parse_file_segments (asc ''a'') = Inr [asc ''a'']"
    by (simp_all add: parse_file_segments_def decoding_simps asc_def)
  have "doc_page_key (PyStr (asc ''a'')) = Inr (asc ''doc.page:file%3Aa'')"
    by (simp add: doc_page_key_def coerce_file_key_def file_key_def normalize_file_components_def normalize_raw_def encoding_simps)
  moreover have "coerce_file_key (PyStr (asc ''file:'' @ asc ''%61'')) = Inr (asc ''file:'' @ asc ''%61'')"
    using file_key_text [of "asc ''%61''"] p(1) by (simp add: coerce_file_key_def key_record_def del: parse_key.simps)
  then have "doc_page_key (PyStr (asc ''file:'' @ asc ''%61'')) = Inr (asc ''doc.page:file%3A%2561'')"
    by (simp add: doc_page_key_def encoding_simps)
  moreover have "asc ''doc.page:file%3A%2561'' \<noteq> asc ''doc.page:file%3Aa''" by (simp add: asc_inj)
  ultimately show ?thesis unfolding file_key_text p by (auto simp: key_record_def)
qed

end
