(* ===== verification/Desired_State.thy ===== *)
theory Desired_State
  imports Coordinator_Calls
begin

text \<open>
  Desired-state comparison (\<^verbatim>\<open>coordinator/desired_state.py\<close>): one poll of a graph compares the generations
  its sources and configuration call for with those of the latest publication, and asks the control
  store for an automatic refresh when they differ. The resolver and the cancellation event belong to
  whoever builds the reconciler; the store calls are those of the control store, made through
  \<^const>\<open>callC\<close>. Delays are in microseconds, like every duration of the store.
\<close>

section \<open>Data\<close>

record SourceSnapshot =
  ss_category :: string
  ss_generation :: "string option"
  ss_file_count :: int
  ss_total_bytes :: int

record PollingSnapshot =
  ps_source :: SourceSnapshot
  ps_config_generation :: string
  ps_extractor_generation :: string
  ps_canonicalizer_generation :: string

record PollOutcome =
  po_category :: string
  po_refresh_requested :: bool
  po_file_count :: int
  po_total_bytes :: int

definition poll_outcome :: "string \<Rightarrow> bool \<Rightarrow> int \<Rightarrow> int \<Rightarrow> PollOutcome" where
  "poll_outcome category requested files bytes =
     \<lparr>po_category = category, po_refresh_requested = requested, po_file_count = files, po_total_bytes = bytes\<rparr>"

definition outcome_to_public :: "PollOutcome \<Rightarrow> dict" where
  "outcome_to_public o1 = [(''category'', VStr (po_category o1)), (''refresh_requested'', VBool (po_refresh_requested o1)),
     (''file_count'', VInt (po_file_count o1)), (''total_bytes'', VInt (po_total_bytes o1))]"

section \<open>Watcher hints\<close>

record WatcherHint =
  wh_graph_id :: string
  wh_category :: string
  wh_observed_at :: string
  wh_overflow :: bool

definition hint_CATEGORY :: re where
  "hint_CATEGORY = RSeq (RCls c_lower) (RUpto 63 (RCls (\<lambda>c. c_lower c \<or> c_digit c \<or> c_in ''_-'' c)))"

definition hint_TIMESTAMP :: re where
  "hint_TIMESTAMP = rseqs
     [digits 4, char_re (CHR ''-''), digits 2, char_re (CHR ''-''), digits 2, char_re (CHR ''T''),
      digits 2, char_re (CHR '':''), digits 2, char_re (CHR '':''), digits 2, char_re (CHR ''Z'')]"

definition fullmatch_value :: "re \<Rightarrow> pyval \<Rightarrow> bool result" where
  \<comment> \<open>\<^verbatim>\<open>pattern.fullmatch(value)\<close> raises on a value that is not text\<close>
  "fullmatch_value r v = (case v of VStr s \<Rightarrow> Inr (fullmatch r s) | _ \<Rightarrow> Inl (TypeError ''expected string or bytes-like object''))"

definition invalid_hint :: py_error where "invalid_hint = ValueError ''watcher hint is invalid''"

definition make_hint :: "pyval \<Rightarrow> pyval \<Rightarrow> pyval \<Rightarrow> pyval \<Rightarrow> WatcherHint result" where
  "make_hint g category observed overflow =
     bindE (fullmatch_value re_CONFIGURED_GRAPH_ID g) (\<lambda>b1.
     guardE b1 invalid_hint (
     bindE (fullmatch_value hint_CATEGORY category) (\<lambda>b2.
     guardE b2 invalid_hint (
     bindE (fullmatch_value hint_TIMESTAMP observed) (\<lambda>b3.
     guardE b3 invalid_hint (
     case (g, category, observed, overflow) of
       (VStr g', VStr c', VStr o', VBool b) \<Rightarrow>
         Inr \<lparr>wh_graph_id = g', wh_category = c', wh_observed_at = o', wh_overflow = b\<rparr>
     | _ \<Rightarrow> Inl invalid_hint))))))"

definition hint_to_public :: "WatcherHint \<Rightarrow> dict" where
  "hint_to_public h = [(''graph_id'', VStr (wh_graph_id h)), (''category'', VStr (wh_category h)),
     (''observed_at'', VStr (wh_observed_at h)), (''overflow'', VBool (wh_overflow h))]"

section \<open>Publications and requests\<close>

definition GENERATION_FIELDS :: "string list" where
  "GENERATION_FIELDS = [''source_generation'', ''config_generation'', ''extractor_generation'', ''canonicalizer_generation'']"

definition publication_generations :: "dict option \<Rightarrow> generations option result" where
  "publication_generations publication =
     (case publication of
        None \<Rightarrow> Inr None
      | Some d \<Rightarrow>
          (case map (dict_get d) GENERATION_FIELDS of
             [VStr a, VStr b, VStr c, VStr e] \<Rightarrow>
               guardE (a \<noteq> [] \<and> b \<noteq> [] \<and> c \<noteq> [] \<and> e \<noteq> []) (ValueError ''publication receipt is incomplete'')
                 (Inr (Some (a, b, c, e)))
           | _ \<Rightarrow> Inl (ValueError ''publication receipt is incomplete'')))"

definition automatic_key :: "(string \<Rightarrow> string) \<Rightarrow> string \<Rightarrow> generations \<Rightarrow> string" where
  \<comment> \<open>\<open>sha256\<close> is the hexadecimal digest of the UTF-8 encoding of a text\<close>
  "automatic_key sha256 gid gens =
     (case gens of (a, b, c, e) \<Rightarrow> ''poll-'' @ sha256 (join_with (CHR ''|'') [gid, a, b, c, e]))"

definition automatic_request :: "(string \<Rightarrow> string) \<Rightarrow> string \<Rightarrow> generations \<Rightarrow> JobRequest result" where
  "automatic_request sha256 gid gens =
     normalize_request (VDict [
       (''schema_version'', VInt 1),
       (''job_kind'', VStr ''refresh_graph''),
       (''graph_id'', VStr gid),
       (''request_id'', VStr (automatic_key sha256 gid gens)),
       (''idempotency_key'', VStr (automatic_key sha256 gid gens)),
       (''priority'', VStr ''automatic''),
       (''operation_options'', VDict [(''reason'', VStr ''polling'')])])
     gens False DEFAULT_LIMITS"

section \<open>The reconciler\<close>

text \<open>
  The resolver answers with a snapshot or a publication or raises; \<open>cancelled i\<close> is the cancellation
  event at the \<open>i\<close>-th look at it; \<open>new_id\<close> is the identifier drawn for a job this poll may create.
\<close>

record reconciler =
  dr_next_reconcile :: int
  dr_retry :: int
  dr_snapshot :: "string \<Rightarrow> PollingSnapshot result"
  dr_publication :: "string \<Rightarrow> dict option result"

definition make_reconciler ::
  "(string \<Rightarrow> PollingSnapshot result) \<Rightarrow> (string \<Rightarrow> dict option result) \<Rightarrow> int \<Rightarrow> int \<Rightarrow> reconciler result" where
  "make_reconciler snapshot publication next_reconcile retry =
     guardE (\<not> (next_reconcile \<le> 0 \<or> retry \<le> 0)) (ValueError ''reconciliation timing is invalid'')
       (Inr \<lparr>dr_next_reconcile = next_reconcile, dr_retry = retry, dr_snapshot = snapshot, dr_publication = publication\<rparr>)"

definition reconcile_record_current :: "core_world \<Rightarrow> reconciler \<Rightarrow> string \<Rightarrow> generations \<Rightarrow> bool core" where
  "reconcile_record_current w rec gid gens =
     callC w (\<lambda>env. record_current env gid gens (dr_next_reconcile rec))"

definition reconcile_record_condition :: "core_world \<Rightarrow> reconciler \<Rightarrow> string \<Rightarrow> string \<Rightarrow> bool core" where
  "reconcile_record_condition w rec gid category =
     callC w (\<lambda>env. record_condition env gid category (dr_retry rec))"

definition is_configuration_error :: "py_error \<Rightarrow> bool" where
  \<comment> \<open>\<^verbatim>\<open>StorageSchemaError\<close> is a \<^verbatim>\<open>ValueError\<close>\<close>
  "is_configuration_error e = (is_OSError e \<or> is_ValueError e)"

definition is_publication_error :: "py_error \<Rightarrow> bool" where
  "is_publication_error e = (is_OSError e \<or> is_ValueError e
     \<or> (case e of TypeError _ \<Rightarrow> True | KeyError _ \<Rightarrow> True | _ \<Rightarrow> False))"

definition blocked :: "core_world \<Rightarrow> reconciler \<Rightarrow> string \<Rightarrow> string \<Rightarrow> int \<Rightarrow> int \<Rightarrow> PollOutcome core" where
  \<comment> \<open>record the condition, then report it\<close>
  "blocked w rec gid category files bytes =
     seqC (reconcile_record_condition w rec gid category) (returnC (poll_outcome category False files bytes))"

definition request_refresh ::
  "core_world \<Rightarrow> (string \<Rightarrow> string) \<Rightarrow> string \<Rightarrow> reconciler \<Rightarrow> string \<Rightarrow> generations \<Rightarrow> int \<Rightarrow> int \<Rightarrow> PollOutcome core" where
  "request_refresh w sha256 new_id rec gid desired files bytes =
     catchC
       (bindC (liftC (automatic_request sha256 gid desired)) (\<lambda>request.
        bindC (callC w (\<lambda>env. coalesce_automatic env sha256 new_id request ''polling'' DEFAULT_LIMITS)) (\<lambda>result.
        returnC (poll_outcome (if sr_replayed result then ''refresh_coalesced'' else ''refresh_requested'')
          (\<not> sr_replayed result) files bytes))))
       (\<lambda>e. if is_ValueError e then blocked w rec gid ''automatic_intent_blocked'' files bytes else raiseC e)"

definition compare_publication ::
  "core_world \<Rightarrow> (string \<Rightarrow> string) \<Rightarrow> string \<Rightarrow> (nat \<Rightarrow> bool) \<Rightarrow> reconciler \<Rightarrow> string \<Rightarrow> PollingSnapshot \<Rightarrow> string
   \<Rightarrow> PollOutcome core" where
  "compare_publication w sha256 new_id cancelled rec gid snapshot generation =
     (let source = ps_source snapshot;
          files = ss_file_count source;
          bytes = ss_total_bytes source;
          desired = (generation, ps_config_generation snapshot,
                     ps_extractor_generation snapshot, ps_canonicalizer_generation snapshot)
      in case bindE (dr_publication rec gid) publication_generations of
           Inl e \<Rightarrow>
             if is_publication_error e then blocked w rec gid ''publication_unavailable'' files bytes else raiseC e
         | Inr actual \<Rightarrow>
             if actual = Some desired
             then seqC (reconcile_record_current w rec gid desired) (returnC (poll_outcome ''current'' False files bytes))
             else if cancelled 2 then returnC (poll_outcome ''cancelled'' False files bytes)
             else request_refresh w sha256 new_id rec gid desired files bytes)"

definition reconcile_graph ::
  "core_world \<Rightarrow> (string \<Rightarrow> string) \<Rightarrow> string \<Rightarrow> (nat \<Rightarrow> bool) \<Rightarrow> reconciler \<Rightarrow> string \<Rightarrow> PollOutcome core" where
  "reconcile_graph w sha256 new_id cancelled rec gid =
     (if cancelled 0 then returnC (poll_outcome ''cancelled'' False 0 0)
      else case dr_snapshot rec gid of
        Inl e \<Rightarrow>
          if is_configuration_error e then blocked w rec gid ''configuration_invalid'' 0 0 else raiseC e
      | Inr snapshot \<Rightarrow>
          (let source = ps_source snapshot
           in case ss_generation source of
                None \<Rightarrow> blocked w rec gid (ss_category source) (ss_file_count source) (ss_total_bytes source)
              | Some generation \<Rightarrow>
                  if cancelled 1
                  then returnC (poll_outcome ''cancelled'' False (ss_file_count source) (ss_total_bytes source))
                  else compare_publication w sha256 new_id cancelled rec gid snapshot generation))"

lemmas reconcile_defs = reconcile_graph_def compare_publication_def request_refresh_def blocked_def
  reconcile_record_current_def reconcile_record_condition_def Let_def

end
