(* ===== verification/Polling.thy ===== *)
theory Polling
  imports Desired_State Utf8 "HOL-Library.Option_ord"
begin

text \<open>
  The polling scheduler (\<^verbatim>\<open>coordinator/polling.py\<close>): which graphs are polled when, by how many workers, and
  with which delay after a failure. Times are exact numbers of seconds where the code uses floats;
  \<^verbatim>\<open>float("-inf")\<close> as the time of the last completion is \<^const>\<open>None\<close>. Dictionaries are association lists in
  insertion order, sets are lists without duplicates. The resolver, the clock and SHA-256 are
  parameters. A future is pending until its worker has stored what the poll returned or raised.
\<close>

section \<open>Configuration\<close>

record polling_config =
  pc_interval :: rat
  pc_retry :: rat
  pc_jitter :: rat
  pc_max_concurrent :: int
  pc_startup_batch :: int
  pc_max_retry :: rat
  pc_multiplier :: rat
  pc_wake :: rat
  pc_shutdown_timeout :: rat

definition make_config ::
  "rat \<Rightarrow> rat \<Rightarrow> rat \<Rightarrow> int \<Rightarrow> int \<Rightarrow> rat \<Rightarrow> rat \<Rightarrow> rat \<Rightarrow> rat \<Rightarrow> polling_config result" where
  "make_config interval retry jitter max_concurrent startup_batch max_retry multiplier wake shutdown =
     guardE (\<not> (interval \<le> 0 \<or> retry \<le> 0 \<or> jitter < 0 \<or> max_concurrent \<le> 0 \<or> startup_batch \<le> 0
         \<or> max_retry < retry \<or> multiplier < 1 \<or> wake \<le> 0 \<or> shutdown \<le> 0))
       (ValueError ''polling limits are invalid'')
       (Inr \<lparr>pc_interval = interval, pc_retry = retry, pc_jitter = jitter, pc_max_concurrent = max_concurrent,
          pc_startup_batch = min startup_batch max_concurrent, pc_max_retry = max_retry, pc_multiplier = multiplier,
          pc_wake = wake, pc_shutdown_timeout = shutdown\<rparr>)"

definition SUCCESS_CATEGORIES :: "string list" where
  "SUCCESS_CATEGORIES = [''current'', ''refresh_requested'', ''refresh_coalesced'']"

definition RETRY_CATEGORIES :: "string list" where
  "RETRY_CATEGORIES = [''source_unavailable'', ''source_invalid'', ''source_unstable'', ''source_limit_exceeded'',
     ''source_timeout'', ''configuration_invalid'', ''publication_unavailable'', ''automatic_intent_blocked'',
     ''poll_failed'', ''cancelled'']"

definition UNAVAILABLE_CATEGORIES :: "string list" where
  "UNAVAILABLE_CATEGORIES = [''source_unavailable'', ''publication_unavailable'', ''poll_failed'']"

definition MAX_HEALTH_COUNTER :: int where "MAX_HEALTH_COUNTER = 2147483647"

definition DEFAULT_MAX_TOTAL_BYTES :: int where "DEFAULT_MAX_TOTAL_BYTES = 512 * 1024 * 1024"

section \<open>State\<close>

datatype future = Pending | Done "PollOutcome result"

datatype poll_thread = NoThread | Alive | Finished

record poll_counters =
  pn_started :: int
  pn_completed :: int
  pn_succeeded :: int
  pn_current :: int
  pn_changed :: int
  pn_unstable :: int
  pn_unavailable :: int
  pn_invalid :: int
  pn_timed_out :: int
  pn_cancelled :: int
  pn_requested :: int
  pn_coalesced :: int

record scheduler =
  sc_stop :: bool
  sc_cancelled :: bool
  sc_thread :: poll_thread
  sc_started :: bool
  sc_next_due :: "(string \<times> rat) list"
  sc_running :: "string list"
  sc_futures :: "(string \<times> future) list"
  sc_failures :: "(string \<times> int) list"
  sc_last_completed :: "(string \<times> rat option) list"
  sc_startup_pending :: "string list"
  sc_eligible :: int
  sc_polls_due :: int
  sc_counters :: poll_counters
  sc_last_category :: "string option"
  sc_status :: string

definition init_counters :: poll_counters where
  "init_counters = \<lparr>pn_started = 0, pn_completed = 0, pn_succeeded = 0, pn_current = 0, pn_changed = 0,
     pn_unstable = 0, pn_unavailable = 0, pn_invalid = 0, pn_timed_out = 0, pn_cancelled = 0, pn_requested = 0,
     pn_coalesced = 0\<rparr>"

definition init_scheduler :: scheduler where
  "init_scheduler = \<lparr>sc_stop = False, sc_cancelled = False, sc_thread = NoThread, sc_started = False,
     sc_next_due = [], sc_running = [], sc_futures = [], sc_failures = [], sc_last_completed = [],
     sc_startup_pending = [], sc_eligible = 0, sc_polls_due = 0, sc_counters = init_counters,
     sc_last_category = None, sc_status = ''stopped''\<rparr>"

definition increment :: "int \<Rightarrow> int" where
  "increment v = min MAX_HEALTH_COUNTER (v + 1)"

definition increment_if :: "bool \<Rightarrow> int \<Rightarrow> int" where
  "increment_if b v = (if b then increment v else v)"

section \<open>Starting and stopping\<close>

definition start_polling :: "scheduler \<Rightarrow> scheduler result" where
  "start_polling st =
     guardE (sc_thread st \<noteq> Alive) (RuntimeError ''polling scheduler is already started'') (
     guardE (\<not> sc_started st) (RuntimeError ''polling scheduler cannot be restarted'') (
     Inr (st\<lparr>sc_started := True, sc_status := ''running'', sc_stop := False, sc_thread := Alive\<rparr>)))"

definition signal_stop :: "scheduler \<Rightarrow> scheduler" where
  \<comment> \<open>the first half of \<^verbatim>\<open>stop\<close>: the events are set before the thread is joined\<close>
  "signal_stop st = st\<lparr>sc_stop := True, sc_cancelled := True\<rparr>"

definition finish_stop :: "scheduler \<Rightarrow> unit result \<times> scheduler" where
  \<comment> \<open>the second half, once the join has returned\<close>
  "finish_stop st =
     (if sc_thread st = Alive then (Inl (RuntimeError ''polling scheduler did not stop''), st)
      else (Inr (), st\<lparr>sc_thread := NoThread,
              sc_status := (if sc_status st \<noteq> ''degraded'' then ''stopped'' else sc_status st)\<rparr>))"

section \<open>The schedule\<close>

definition add_target_id :: "pyval \<times> pyval \<Rightarrow> string list \<Rightarrow> string list result" where
  "add_target_id entry ids =
     (case entry of
        (VStr g, policy) \<Rightarrow>
          bindE (py_in policy [''polling'', ''continuous'']) (\<lambda>b. Inr (if b then List.insert g ids else ids))
      | _ \<Rightarrow> Inr ids)"

definition target_ids :: "(pyval \<times> pyval) list result \<Rightarrow> scheduler \<Rightarrow> (string list \<times> scheduler) result" where
  "target_ids configured st =
     (case configured of
        Inl e \<Rightarrow>
          if is_OSError e \<or> is_ValueError e
          then Inr ([], st\<lparr>sc_eligible := 0, sc_last_category := Some ''configuration_invalid''\<rparr>)
          else Inl e
      | Inr entries \<Rightarrow> bindE (foldE add_target_id entries []) (\<lambda>ids. Inr (sort ids, st)))"

definition set_default :: "'k \<Rightarrow> 'v \<Rightarrow> ('k \<times> 'v) list \<Rightarrow> ('k \<times> 'v) list" where
  "set_default k v d = (case map_of d k of None \<Rightarrow> AList.update k v d | Some _ \<Rightarrow> d)"

definition add_target :: "rat \<Rightarrow> string \<Rightarrow> scheduler \<Rightarrow> scheduler" where
  "add_target now g st =
     (if map_of (sc_next_due st) g = None
      then st\<lparr>sc_next_due := AList.update g now (sc_next_due st),
              sc_failures := set_default g 0 (sc_failures st),
              sc_last_completed := set_default g None (sc_last_completed st),
              sc_startup_pending := List.insert g (sc_startup_pending st)\<rparr>
      else st)"

definition drop_target :: "string list \<Rightarrow> string \<Rightarrow> scheduler \<Rightarrow> scheduler" where
  "drop_target targets g st =
     (if \<not> List.member targets g
      then st\<lparr>sc_next_due := AList.delete g (sc_next_due st),
              sc_failures := AList.delete g (sc_failures st),
              sc_last_completed := AList.delete g (sc_last_completed st),
              sc_startup_pending := removeAll g (sc_startup_pending st)\<rparr>
      else st)"

definition sync_targets :: "string list \<Rightarrow> rat \<Rightarrow> scheduler \<Rightarrow> scheduler" where
  "sync_targets targets now st =
     (let added = fold (add_target now) targets st;
          kept = fold (drop_target targets) (map fst (sc_next_due added)) added
      in kept\<lparr>sc_eligible := int (length targets)\<rparr>)"

section \<open>Finishing polls\<close>

definition record_outcome :: "PollOutcome \<Rightarrow> scheduler \<Rightarrow> scheduler" where
  "record_outcome o1 st =
     (let c = po_category o1; n = sc_counters st
      in st\<lparr>sc_last_category := Some c,
            sc_counters := n\<lparr>
              pn_succeeded := increment_if (List.member SUCCESS_CATEGORIES c) (pn_succeeded n),
              pn_current := increment_if (c = ''current'') (pn_current n),
              pn_changed := increment_if (c = ''refresh_requested'') (pn_changed n),
              pn_coalesced := increment_if (c = ''refresh_coalesced'') (pn_coalesced n),
              pn_unstable := increment_if (c = ''source_unstable'') (pn_unstable n),
              pn_unavailable := increment_if (List.member UNAVAILABLE_CATEGORIES c) (pn_unavailable n),
              pn_invalid := increment_if (c = ''source_invalid'' \<or> c = ''configuration_invalid'') (pn_invalid n),
              pn_timed_out := increment_if (c = ''source_timeout'') (pn_timed_out n),
              pn_cancelled := increment_if (c = ''cancelled'') (pn_cancelled n),
              pn_requested := increment_if (po_refresh_requested o1) (pn_requested n)\<rparr>\<rparr>)"

definition deterministic_jitter :: "(nat list \<Rightarrow> nat list) \<Rightarrow> polling_config \<Rightarrow> string \<Rightarrow> rat" where
  \<comment> \<open>\<open>digest\<close> is SHA-256 on bytes; the first four bytes, big endian, over \<open>2 ^ 32\<close>\<close>
  "deterministic_jitter digest cfg g =
     (if pc_jitter cfg = 0 then 0
      else rat_of_nat (foldl (\<lambda>a b. 256 * a + b) 0 (take 4 (digest (concat (map (\<lambda>c. utf8_char (of_char c)) g)))))
        / 4294967296 * pc_jitter cfg)"

definition retry_delay :: "polling_config \<Rightarrow> int \<Rightarrow> rat" where
  "retry_delay cfg failures = min (pc_max_retry cfg) (pc_retry cfg * pc_multiplier cfg ^ nat (failures - 1))"

definition get_failures :: "string \<Rightarrow> scheduler \<Rightarrow> int" where
  "get_failures g st = (case map_of (sc_failures st) g of None \<Rightarrow> 0 | Some n \<Rightarrow> n)"

definition reschedule :: "(nat list \<Rightarrow> nat list) \<Rightarrow> polling_config \<Rightarrow> string \<Rightarrow> PollOutcome \<Rightarrow> rat \<Rightarrow> scheduler \<Rightarrow> scheduler" where
  "reschedule digest cfg g o1 now st =
     (let retry = List.member RETRY_CATEGORIES (po_category o1);
          failures = (if retry then min (get_failures g st + 1) 31 else 0);
          delay = (if retry then retry_delay cfg failures else pc_interval cfg)
      in st\<lparr>sc_last_completed := AList.update g (Some now) (sc_last_completed st),
            sc_failures := AList.update g failures (sc_failures st),
            sc_next_due := AList.update g (now + delay + deterministic_jitter digest cfg g) (sc_next_due st)\<rparr>)"

definition finish_poll ::
  "(nat list \<Rightarrow> nat list) \<Rightarrow> polling_config \<Rightarrow> string \<Rightarrow> PollOutcome \<Rightarrow> rat \<Rightarrow> scheduler \<Rightarrow> scheduler" where
  "finish_poll digest cfg g o1 now st =
     (let st1 = record_outcome o1 st;
          st2 = st1\<lparr>sc_futures := AList.delete g (sc_futures st1),
                    sc_running := removeAll g (sc_running st1),
                    sc_counters := (sc_counters st1)\<lparr>pn_completed := increment (pn_completed (sc_counters st1))\<rparr>,
                    sc_startup_pending := removeAll g (sc_startup_pending st1)\<rparr>
      in if map_of (sc_next_due st2) g = None then st2 else reschedule digest cfg g o1 now st2)"

definition poll_failed :: PollOutcome where
  "poll_failed = poll_outcome ''poll_failed'' False 0 0"

definition future_outcome :: "PollOutcome result \<Rightarrow> PollOutcome" where
  \<comment> \<open>\<^verbatim>\<open>future.result()\<close>, any exception being a failed poll\<close>
  "future_outcome r = (case r of Inr o1 \<Rightarrow> o1 | Inl e \<Rightarrow> poll_failed)"

fun completed_futures :: "(string \<times> future) list \<Rightarrow> (string \<times> PollOutcome result) list" where
  "completed_futures [] = []"
| "completed_futures ((g, Done r) # fs) = (g, r) # completed_futures fs"
| "completed_futures ((g, Pending) # fs) = completed_futures fs"

definition collect_completed :: "(nat list \<Rightarrow> nat list) \<Rightarrow> polling_config \<Rightarrow> rat \<Rightarrow> scheduler \<Rightarrow> scheduler" where
  "collect_completed digest cfg now st =
     fold (\<lambda>(g, r). finish_poll digest cfg g (future_outcome r) now) (completed_futures (sc_futures st)) st"

section \<open>Admitting polls\<close>

type_synonym poll_priority = "rat \<times> nat \<times> int \<times> rat option \<times> string"

definition priority_key :: "scheduler \<Rightarrow> string \<Rightarrow> poll_priority" where
  "priority_key st g =
     (the (map_of (sc_next_due st) g), if get_failures g st \<noteq> 0 then 1 else 0, get_failures g st,
      case map_of (sc_last_completed st) g of None \<Rightarrow> None | Some t \<Rightarrow> t, g)"

definition due_graphs :: "rat \<Rightarrow> scheduler \<Rightarrow> string list" where
  "due_graphs now st = map fst (filter (\<lambda>(g, due). \<not> List.member (sc_running st) g \<and> due \<le> now) (sc_next_due st))"

definition submit_poll :: "string \<Rightarrow> scheduler \<Rightarrow> scheduler" where
  "submit_poll g st = st\<lparr>sc_running := List.insert g (sc_running st),
     sc_counters := (sc_counters st)\<lparr>pn_started := increment (pn_started (sc_counters st))\<rparr>,
     sc_futures := AList.update g Pending (sc_futures st)\<rparr>"

definition poll_capacity :: "polling_config \<Rightarrow> scheduler \<Rightarrow> int" where
  "poll_capacity cfg st = pc_max_concurrent cfg - int (length (sc_running st))"

definition selected_graphs :: "polling_config \<Rightarrow> rat \<Rightarrow> scheduler \<Rightarrow> string list" where
  \<comment> \<open>the polls an iteration starts\<close>
  "selected_graphs cfg now st =
     (if poll_capacity cfg st \<le> 0 then []
      else let capacity = (if sc_startup_pending st \<noteq> [] then min (poll_capacity cfg st) (pc_startup_batch cfg)
                           else poll_capacity cfg st)
           in take (nat capacity) (sort_key (priority_key st) (due_graphs now st)))"

definition admit_due :: "polling_config \<Rightarrow> rat \<Rightarrow> scheduler \<Rightarrow> scheduler" where
  "admit_due cfg now st =
     fold submit_poll (selected_graphs cfg now st) (st\<lparr>sc_polls_due := int (length (due_graphs now st))\<rparr>)"

definition poll_one :: "PollOutcome result \<Rightarrow> PollOutcome result" where
  \<comment> \<open>what a worker stores in its future when the reconciler returned or raised\<close>
  "poll_one r =
     (case r of
        Inr o1 \<Rightarrow> Inr o1
      | Inl e \<Rightarrow> if is_OSError e \<or> is_RuntimeError e \<or> is_ValueError e then Inr poll_failed else Inl e)"

definition complete_poll :: "string \<Rightarrow> PollOutcome result \<Rightarrow> scheduler \<Rightarrow> scheduler" where
  \<comment> \<open>a worker finishes: its pending future is done\<close>
  "complete_poll g r st =
     (if map_of (sc_futures st) g = Some Pending
      then st\<lparr>sc_futures := AList.update g (Done (poll_one r)) (sc_futures st)\<rparr> else st)"

section \<open>The loop\<close>

definition wait_seconds :: "polling_config \<Rightarrow> rat \<Rightarrow> scheduler \<Rightarrow> rat" where
  "wait_seconds cfg now st =
     (let later = filter (\<lambda>due. due > now) (map snd (sc_next_due st))
      in if int (length (sc_running st)) \<ge> pc_max_concurrent cfg \<or> later = [] then pc_wake cfg
         else min (pc_wake cfg) (max (1 / 100) (Min (set later) - now)))"

definition iteration ::
  "(nat list \<Rightarrow> nat list) \<Rightarrow> polling_config \<Rightarrow> rat \<Rightarrow> (pyval \<times> pyval) list result \<Rightarrow> scheduler \<Rightarrow> scheduler result" where
  "iteration digest cfg now configured st =
     bindE (target_ids configured st) (\<lambda>(targets, st1).
     Inr (admit_due cfg now (collect_completed digest cfg now (sync_targets targets now st1))))"

definition run_failed :: "scheduler \<Rightarrow> scheduler" where
  \<comment> \<open>the handler of an exception in the loop\<close>
  "run_failed st = st\<lparr>sc_status := ''degraded'', sc_last_category := Some ''scheduler_failed'',
     sc_stop := True, sc_cancelled := True\<rparr>"

definition run_finally :: "scheduler \<Rightarrow> scheduler" where
  "run_finally st = st\<lparr>sc_running := [], sc_futures := [], sc_startup_pending := [], sc_thread := Finished\<rparr>"

definition run_loop_step ::
  "(nat list \<Rightarrow> nat list) \<Rightarrow> polling_config \<Rightarrow> rat \<Rightarrow> (pyval \<times> pyval) list result \<Rightarrow> scheduler \<Rightarrow> scheduler" where
  \<comment> \<open>one turn of \<^verbatim>\<open>while not self._stop.is_set()\<close>, its handler and its \<^verbatim>\<open>finally\<close>\<close>
  "run_loop_step digest cfg now configured st =
     (if sc_stop st then run_finally st
      else case iteration digest cfg now configured st of
        Inr st' \<Rightarrow> st'
      | Inl e \<Rightarrow> run_finally (run_failed st))"

section \<open>Health\<close>

definition round3 :: "rat \<Rightarrow> rat" where
  \<comment> \<open>\<^verbatim>\<open>round(x, 3)\<close>: ties to even\<close>
  "round3 x =
     (let y = x * 1000; f = \<lfloor>y\<rfloor>; d = y - of_int f
      in of_int (if d < 1 / 2 then f else if d > 1 / 2 then f + 1 else if even f then f else f + 1) / 1000)"

definition polling_health :: "polling_config \<Rightarrow> rat \<Rightarrow> scheduler \<Rightarrow> dict" where
  "polling_health cfg now st =
     (let due_values = map snd (filter (\<lambda>(g, due). \<not> List.member (sc_running st) g \<and> due \<le> now) (sc_next_due st));
          later = filter (\<lambda>due. due > now) (map snd (sc_next_due st));
          next_poll = (if due_values \<noteq> [] then VFloat 0
                       else if later = [] then VNone else VFloat (round3 (Min (set later) - now)));
          oldest_due = (if due_values = [] then VNone else VFloat (round3 (max 0 (now - Min (set due_values)))));
          in_backoff = length (filter (\<lambda>(g, n). n \<noteq> 0
            \<and> (case map_of (sc_next_due st) g of None \<Rightarrow> now | Some due \<Rightarrow> due) > now) (sc_failures st));
          queued = int (length due_values);
          category = (case sc_last_category st of None \<Rightarrow> VNone | Some c \<Rightarrow> VStr c);
          n = sc_counters st
      in [(''status'', VStr (sc_status st)), (''scheduler_status'', VStr (sc_status st)),
          (''eligible_graphs'', VInt (sc_eligible st)), (''due_graphs'', VInt queued),
          (''queued_poll_graphs'', VInt queued), (''polls_due'', VInt queued),
          (''polls_running'', VInt (int (length (sc_running st)))), (''poll_capacity'', VInt (pc_max_concurrent cfg)),
          (''aggregate_hash_budget_bytes'', VInt (pc_max_concurrent cfg * DEFAULT_MAX_TOTAL_BYTES)),
          (''aggregate_open_file_budget'', VInt (pc_max_concurrent cfg)),
          (''startup_backlog'', VInt (int (length (sc_startup_pending st)))),
          (''polls_started'', VInt (pn_started n)), (''polls_completed'', VInt (pn_completed n)),
          (''polls_succeeded'', VInt (pn_succeeded n)), (''polls_current'', VInt (pn_current n)),
          (''polls_changed'', VInt (pn_changed n)), (''polls_unstable'', VInt (pn_unstable n)),
          (''polls_unavailable'', VInt (pn_unavailable n)), (''polls_invalid'', VInt (pn_invalid n)),
          (''polls_timed_out'', VInt (pn_timed_out n)), (''polls_cancelled'', VInt (pn_cancelled n)),
          (''automatic_refreshes_requested'', VInt (pn_requested n)),
          (''automatic_refreshes_coalesced'', VInt (pn_coalesced n)),
          (''graphs_in_backoff'', VInt (int in_backoff)), (''graphs_paused'', VInt 0),
          (''oldest_due_age_seconds'', oldest_due), (''next_poll_at'', next_poll),
          (''last_poll_category'', category), (''last_scheduler_category'', category)])"

end
