(* ===== verification/Control_Intents.thy ===== *)
theory Control_Intents
  imports Control_Example
begin

text \<open>
  What the coalescing rows say about the jobs they name. In every reachable state a job named by the row
  of a graph exists and belongs to that graph, and while the row is dirty and not paused the job it names
  as queued was made for exactly the generations of the row.
\<close>

definition intent_ok :: "control_db \<Rightarrow> string \<Rightarrow> intent_row \<Rightarrow> bool" where
  "intent_ok db g i =
     ((\<forall>k. cs_queued_job_id i = Some k \<or> cs_running_job_id i = Some k \<longrightarrow>
         (\<exists>j. map_of (jobs db) k = Some j \<and> j_graph_id j = g))
      \<and> (cs_dirty i \<and> \<not> cs_paused i \<longrightarrow>
         (\<exists>k j. cs_queued_job_id i = Some k \<and> map_of (jobs db) k = Some j \<and> j_generations j = cs_generations i)))"

definition intents_ok :: "control_db \<Rightarrow> bool" where
  "intents_ok db = (\<forall>g i. map_of (intents db) g = Some i \<longrightarrow> intent_ok db g i)"

definition intent_kept :: "intent_row \<Rightarrow> intent_row \<Rightarrow> bool" where
  \<comment> \<open>names no other job and is not made dirty\<close>
  "intent_kept i i' =
     (cs_queued_job_id i' \<in> {None, cs_queued_job_id i} \<and> cs_running_job_id i' \<in> {None, cs_running_job_id i}
      \<and> (cs_dirty i' \<and> \<not> cs_paused i' \<longrightarrow> cs_dirty i \<and> \<not> cs_paused i
           \<and> cs_queued_job_id i' = cs_queued_job_id i \<and> cs_generations i' = cs_generations i))"

definition bare :: "intent_row \<Rightarrow> bool" where
  "bare i = (cs_queued_job_id i = None \<and> cs_running_job_id i = None \<and> (cs_dirty i \<longrightarrow> cs_paused i))"

definition intents_follow :: "control_db \<Rightarrow> control_db \<Rightarrow> bool" where
  "intents_follow db db' = (\<forall>g i'. map_of (intents db') g = Some i' \<longrightarrow>
     bare i' \<or> (\<exists>i. map_of (intents db) g = Some i \<and> intent_kept i i'))"

lemma intent_kept_refl [simp]: "intent_kept i i"
  by (simp add: intent_kept_def)

lemma intents_same: "intents db' = intents db \<Longrightarrow> intents_follow db db'"
  by (auto simp: intents_follow_def)

lemma intent_ok_kept: "intent_ok db g i \<Longrightarrow> intent_kept i i' \<Longrightarrow> intent_ok db g i'"
  by (auto simp: intent_ok_def intent_kept_def)

lemma intent_ok_bare: "bare i \<Longrightarrow> intent_ok db g i"
  by (auto simp: intent_ok_def bare_def)

lemma intent_ok_evolves:
  assumes "intent_ok db g i" and "evolves N db db'"
  shows "intent_ok db' g i"
proof -
  have kept: "\<exists>j'. map_of (jobs db') k = Some j' \<and> j_graph_id j' = j_graph_id j \<and> j_generations j' = j_generations j"
    if "map_of (jobs db) k = Some j" for k j
    using evolvesD(1) [OF assms(2) that] by (auto simp: job_evolves_def same_job_def)
  show ?thesis
    unfolding intent_ok_def
  proof (intro conjI allI impI)
    fix k assume "cs_queued_job_id i = Some k \<or> cs_running_job_id i = Some k"
    then obtain j where "map_of (jobs db) k = Some j" "j_graph_id j = g" using assms(1) by (auto simp: intent_ok_def)
    with kept show "\<exists>j. map_of (jobs db') k = Some j \<and> j_graph_id j = g" by fastforce
  next
    assume "cs_dirty i \<and> \<not> cs_paused i"
    then obtain k j where "cs_queued_job_id i = Some k" "map_of (jobs db) k = Some j" "j_generations j = cs_generations i"
      using assms(1) by (auto simp: intent_ok_def)
    with kept show "\<exists>k j. cs_queued_job_id i = Some k \<and> map_of (jobs db') k = Some j \<and> j_generations j = cs_generations i"
      by fastforce
  qed
qed

lemma intents_follow_trans: "intents_follow a b \<Longrightarrow> intents_follow b c \<Longrightarrow> intents_follow a c"
proof -
  have "bare i'" if "bare i" "intent_kept i i'" for i i'
    using that by (auto simp: bare_def intent_kept_def)
  moreover have "intent_kept i i''" if "intent_kept i i'" "intent_kept i' i''" for i i' i''
    using that by (auto simp: intent_kept_def)
  ultimately show "intents_follow a b \<Longrightarrow> intents_follow b c \<Longrightarrow> intents_follow a c"
    unfolding intents_follow_def by metis
qed

lemma intents_ok_follow:
  assumes "intents_ok db" and "evolves N db db'" and "intents_follow db db'"
  shows "intents_ok db'"
  using assms intent_ok_bare intent_ok_kept intent_ok_evolves unfolding intents_ok_def intents_follow_def by metis

section \<open>Transactions that keep the rows\<close>

lemma update_intents [simp]:
  "update_job k p f db = Inr (b, db') \<Longrightarrow> intents db' = intents db"
  "update_attempt ka q h db = Inr (b, db') \<Longrightarrow> intents db' = intents db"
  by (auto elim: update_job_cases update_attempt_cases)

lemma intents_follow_update:
  "(\<And>i. map_of (intents db) g = Some i \<Longrightarrow> p i \<Longrightarrow> intent_kept i (f i)) \<Longrightarrow> intents_follow db (snd (update_intent g p f db))"
  by (auto simp: update_intent_def intents_follow_def split: option.splits)

lemma clear_running_follow: "intents_follow db (clear_running g k db)"
  unfolding clear_running_def by (rule intents_follow_update) (simp add: intent_kept_def)

lemma pause_follow: "intents_follow db (pause_graph_intent env c db)"
  by (auto simp: pause_graph_intent_def intents_follow_def Let_def intent_kept_def bare_def split: option.splits)

lemma drop_lease_follow: "drop_lease c db = Inr db' \<Longrightarrow> intents_follow db db'"
  by (erule drop_lease_Inr)
     (use clear_running_follow in \<open>force simp: intents_follow_def\<close>)

lemma delete_lease_intents [simp]: "intents (snd (delete_lease g p db)) = intents db"
  by (simp add: delete_lease_def split: option.splits)

lemma close_attempt_intents: "close_attempt env c p e d db = Inr db' \<Longrightarrow> intents db' = intents db"
  by (auto simp: close_attempt_def result_simps)

lemma intents_follow_from: "intents b = intents a \<Longrightarrow> intents_follow b c \<Longrightarrow> intents_follow a c"
  by (simp add: intents_follow_def)

lemma close_follow:
  "close_terminal env c t p e d db = Inr db' \<Longrightarrow> intents_follow db db'"
  "queue_retry env c p db = Inr db' \<Longrightarrow> intents_follow db db'"
proof -
  assume "close_terminal env c t p e d db = Inr db'"
  then obtain db2 where "intents db2 = intents db" "drop_lease c db2 = Inr db'"
    by (auto simp: close_terminal_def result_simps dest!: close_attempt_intents)
  then show "intents_follow db db'" by (intro intents_follow_from [OF _ drop_lease_follow])
next
  assume "queue_retry env c p db = Inr db'"
  then obtain db2 where "intents db2 = intents db" "drop_lease c db2 = Inr db'"
    by (auto simp: queue_retry_def result_simps dest!: close_attempt_intents)
  then show "intents_follow db db'" by (intro intents_follow_from [OF _ drop_lease_follow])
qed

lemma reconcile_publication_follow:
  assumes run: "reconcile_publication env c mx ri re u db = Inr (r, db')"
  shows "intents_follow db db'"
proof (cases "lock_evidence c db")
  case None
  with run show ?thesis by (auto simp: reconcile_publication_def result_simps intents_same)
next
  case (Some ev)
  obtain j a mk where "ev = (j, a, mk)" by (cases ev)
  with run Some have "reconcile_evidence env c mx u j a mk db = Inr (r, db')"
    by (simp add: reconcile_publication_def result_simps)
  then show ?thesis
    by (cases rule: reconcile_evidence_cases)
       (auto intro: close_follow intents_same intents_follow_trans [OF pause_follow])
qed

lemma release_follow: "release_graph_lease env g k n oi oe ri re db = Inr (b, db') \<Longrightarrow> intents_follow db db'"
  using clear_running_follow
  by (force simp: release_graph_lease_def delete_lease_def intents_follow_def split: option.splits if_splits)

lemma quarantine_follow:
  assumes "quarantine_legacy_attempt env clk locks c ri re fence db = Inr (b, db')"
  shows "intents_follow db db'"
  using assms
proof (cases rule: quarantine_legacy_attempt_cases)
  case quarantined
  then obtain db1 db2 u v p f q h where
    1: "update_job (c_job_id c) p f db = Inr (u, db1)" and
    2: "update_attempt (claim_key c) q h db1 = Inr (v, db2)"
    and 3: "(let (ok, db3) = delete_lease (c_graph_id c)
           (\<lambda>l. lease_of_claim c l \<and> gl_graph_lease_epoch l = 0) db2
       in guardE ok (StaleDurableAuthorityError ''legacy lease deletion failed'')
          (Inr (clear_running (c_graph_id c) (c_job_id c) db3))) = Inr db'"
    unfolding quarantine_rows_def bindE_Inr_iff guardE_Inr_iff split_paired_Ex prod.case by blast
  note update_intents(1) [OF 1] update_intents(2) [OF 2]
  moreover obtain ok db3 where d: "delete_lease (c_graph_id c)
      (\<lambda>l. lease_of_claim c l \<and> gl_graph_lease_epoch l = 0) db2 = (ok, db3)" by fastforce
  moreover have "intents db3 = intents db2" using delete_lease_intents [of "c_graph_id c" _ db2] d by (metis snd_conv)
  moreover have "db' = clear_running (c_graph_id c) (c_job_id c) db3" using 3 d by (auto simp: result_simps)
  ultimately show ?thesis using intents_follow_from [OF _ clear_running_follow] by simp
qed (simp add: intents_same)

lemma observation_follow:
  "record_current env g gens delay db = Inr (b, db') \<Longrightarrow> intents_follow db db'"
  "record_condition env g cat delay db = Inr (b, db') \<Longrightarrow> intents_follow db db'"
  by (auto simp: record_current_def record_condition_def result_simps intent_kept_def prod_eq_iff
      intro!: intents_follow_update)

lemma foldE_recover_intents: "foldE (recover_row env) rows db = Inr db' \<Longrightarrow> intents db' = intents db"
proof (induction rows arbitrary: db)
  case (Cons r rows)
  then obtain db1 where s: "recover_row env r db = Inr db1" "foldE (recover_row env) rows db1 = Inr db'"
    by (auto simp: result_simps)
  have "intents db1 = intents db" using s(1) by (auto simp: recover_row_def result_simps)
  with Cons.IH [OF s(2)] show ?case by simp
qed simp

lemma intents_frame:
  "acquire_singleton env iid ttl db = Inr (e, db') \<Longrightarrow> intents db' = intents db"
  "heartbeat_singleton env iid ep ttl db = Inr (b, db') \<Longrightarrow> intents db' = intents db"
  "stop_singleton env iid ep db = Inr (b, db') \<Longrightarrow> intents db' = intents db"
  "submit_transaction env sha256 new_id request requester limits db = Inr (r, db') \<Longrightarrow> intents db' = intents db"
  "mark_attempt_terminated env c pr iid ep d db = Inr (b, db') \<Longrightarrow> intents db' = intents db"
  "persist_supervisor_registration env locks c dg db = Inr db' \<Longrightarrow> intents db' = intents db"
  "in_process_currency_context env locks c odg decide db = Inr (out, db') \<Longrightarrow> intents db' = intents db"
  "record_publication_marker env c run gens outcome db = Inr (b, db') \<Longrightarrow> intents db' = intents db"
  "request_cancellation env k db = Inr (st, db') \<Longrightarrow> intents db' = intents db"
  "recover_abandoned_attempts env iid ep limit db = Inr (n, db') \<Longrightarrow> intents db' = intents db"
           apply (auto simp: acquire_singleton_def result_simps split: option.splits if_splits)[1]
          apply (auto simp: heartbeat_singleton_def result_simps split: option.splits if_splits)[1]
         apply (auto simp: stop_singleton_def result_simps split: option.splits if_splits)[1]
        apply (auto simp: submit_transaction_def Let_def result_simps split: option.splits dest!: insert_job_Inr(4))[1]
       apply (auto simp: mark_attempt_terminated_def result_simps)[1]
      apply (auto elim!: persist_supervisor_registration_Inr)[1]
     apply (auto elim!: in_process_currency_context_Inr)[1]
    apply (auto elim!: record_publication_marker_cases)[1]
   apply (auto simp: request_cancellation_def result_simps)[1]
  apply (auto simp: recover_abandoned_attempts_def Let_def result_simps dest: foldE_recover_intents)[1]
  done

lemma compare_and_set_intents:
  "compare_and_set_state env k s t n iid ep p e d db = Inr (b, db') \<Longrightarrow> intents db' = intents db"
  by (erule compare_and_set_state_cases) simp_all

lemma renew_lease_intents [simp]: "intents (snd (renew_lease env c secs db)) = intents db"
  by (simp add: renew_lease_def split: option.splits)

lemma heartbeat_attempt_intents:
  assumes "heartbeat_attempt env limits c ttl ph cnt tot db = Inr (b, db')"
  shows "intents db' = intents db"
proof -
  obtain secs where s: "positive_seconds ttl = Inr secs" using assms by (auto simp: heartbeat_attempt_def result_simps)
  obtain b1 db1 where r: "renew_lease env c secs db = (b1, db1)" by fastforce
  with renew_lease_intents [of env c secs db] have "intents db1 = intents db" by simp
  with assms s r show ?thesis
    by (cases ph) (auto simp: heartbeat_attempt_def result_simps split: if_splits)
qed

lemma schedule_retry_intents: "schedule_retry env c s delay cat mx d db = Inr (b, db') \<Longrightarrow> intents db' = intents db"
  by (auto simp: schedule_retry_def result_simps split: option.splits)

lemma execute_durable_closure_intents:
  "execute_durable_closure env clk locks c ri re fence closer db = Inr (b, db') \<Longrightarrow> intents db' = intents db"
  by (erule execute_durable_closure_cases) (auto simp: persist_not_started_def result_simps)

section \<open>Transactions that name jobs\<close>

lemma claim_once_intents:
  assumes ok: "intents_ok db" and inv: "store_inv m db"
    and run: "claim_once env iid ep secs mx auto db = Inr (Some c, db')"
  shows "intents_ok db'"
proof -
  obtain j db2 where nc: "next_claimable env mx auto db = Some j"
    and uj: "update_job (j_job_id j) (\<lambda>r. j_state r = Queued)
           (\<lambda>r. r\<lparr>j_state := Claimed, j_current_attempt := j_current_attempt j + 1,
                 j_updated_at := tx_now env\<rparr>)
           (db\<lparr>attempts := AList.update (j_job_id j, j_current_attempt j + 1)
                 (new_attempt env iid ep j) (attempts db),
               leases := AList.update (j_graph_id j) (new_lease env iid ep secs j) (leases db)\<rparr>)
           = Inr db2"
    and out: "db' = (if j_priority_class j = Automatic
                then snd (update_intent (j_graph_id j)
                       (\<lambda>i. cs_queued_job_id i = Some (j_job_id j))
                       (\<lambda>i. i\<lparr>cs_queued_job_id := None,
                             cs_running_job_id := Some (j_job_id j), cs_dirty := False\<rparr>) (snd db2))
                else snd db2)"
    by (rule claim_once_Some [OF run]) blast
  have tab: "table_ok (jobs db)" using inv by (simp add: store_inv_def tables_ok_def)
  obtain k where k: "map_of (jobs db) k = Some j" using next_claimable_Some(1) [OF nc tab] by blast
  then have jk: "map_of (jobs db) (j_job_id j) = Some j" using store_inv_job_id [OF inv k] by simp
  note ev = claim_once_evolves [OF inv run, of "{}"]
  obtain j' where j': "map_of (jobs db') (j_job_id j) = Some j'" "j_graph_id j' = j_graph_id j"
    using evolvesD(1) [OF ev jk] by (auto simp: job_evolves_def same_job_def)
  have same: "intents (snd db2) = intents db" using update_intents(1) [of _ _ _ _ "fst db2" "snd db2"] uj by simp
  have "intent_ok db' g i'" if i': "map_of (intents db') g = Some i'" for g i'
  proof (cases "map_of (intents db) g = Some i'")
    case True
    then show ?thesis using ok intent_ok_evolves [OF _ ev] by (simp add: intents_ok_def)
  next
    case False
    with i' same have "g = j_graph_id j" "i' = i'\<lparr>cs_queued_job_id := None,
        cs_running_job_id := Some (j_job_id j), cs_dirty := False\<rparr>"
      unfolding out by (auto simp: update_intent_def split: if_splits option.splits)
    then have "g = j_graph_id j" "cs_queued_job_id i' = None" "cs_running_job_id i' = Some (j_job_id j)" "\<not> cs_dirty i'"
      by (metis intent_row.select_convs intent_row.surjective intent_row.update_convs)+
    with j' show ?thesis by (simp add: intent_ok_def)
  qed
  then show ?thesis by (simp add: intents_ok_def)
qed

lemma coalesce_transaction_intents:
  assumes ok: "intents_ok db" and inv: "store_inv m db" and m: "0 \<le> m"
    and run: "coalesce_transaction env sha256 new_id request requester limits db = Inr (r, db')"
  shows "intents_ok db'"
proof (cases "coalesced_job (request_generations request) (map_of (intents db) (graph_id request)) db")
  case None
  with run obtain db1 db2 db3 replaced fp dg where
    1: "supersede env replaced db = Inr db1" and
    2: "insert_job (new_job env new_id request requester dg fp 50) db1 = Inr db2" and
    3: "link_replacement replaced new_id db2 = Inr db3" and
    4: "db' = upsert_intent env request new_id (request_generations request) db3"
    by (auto simp: coalesce_transaction_def Let_def result_simps split: if_splits)
  have i2: "store_inv m db2"
    using supersede_inv [OF inv 1] 2 m by (elim insert_job_inv) (auto simp: new_job_def)
  have same: "intents db3 = intents db"
    using 1 2 3 by (auto simp: supersede_def link_replacement_def result_simps split: option.splits dest!: insert_job_Inr(4))
  note ev = coalesce_transaction_evolves [OF inv m insertI1 run]
  have "map_of (jobs db2) new_id = Some (new_job env new_id request requester dg fp 50)"
    using insert_job_Inr(4) [OF 2] by (simp add: new_job_def)
  then have "\<exists>j. map_of (jobs db3) new_id = Some j \<and> j_graph_id j = graph_id request
      \<and> j_generations j = request_generations request"
    using 3 store_inv_job_id [OF i2]
    by (auto simp: link_replacement_def result_simps new_job_def split: option.splits elim!: update_job_cases)
  then obtain j where j: "map_of (jobs db3) new_id = Some j" "j_graph_id j = graph_id request"
      "j_generations j = request_generations request" by blast
  have j': "map_of (jobs db') new_id = Some j" using j(1) unfolding 4 by (simp add: upsert_intent_def Let_def)
  have "intent_ok db' g i'" if i': "map_of (intents db') g = Some i'" for g i'
  proof (cases "g = graph_id request")
    case False
    with i' have "map_of (intents db) g = Some i'" unfolding 4 by (simp add: upsert_intent_def Let_def same)
    then show ?thesis using ok intent_ok_evolves [OF _ ev] by (simp add: intents_ok_def)
  next
    case True
    with i' have row: "cs_queued_job_id i' = Some new_id" "cs_generations i' = request_generations request"
      "\<And>k. cs_running_job_id i' = Some k \<Longrightarrow> \<exists>i. map_of (intents db) g = Some i \<and> cs_running_job_id i = Some k"
      unfolding 4 by (auto simp: upsert_intent_def Let_def same split: option.splits)
    have "\<exists>j. map_of (jobs db') k = Some j \<and> j_graph_id j = g" if k: "cs_running_job_id i' = Some k" for k
    proof -
      obtain i where "map_of (intents db) g = Some i" "cs_running_job_id i = Some k" using row(3) [OF k] by blast
      with ok intent_ok_evolves [OF _ ev] show ?thesis unfolding intents_ok_def intent_ok_def by blast
    qed
    with row j j' True show ?thesis by (auto simp: intent_ok_def)
  qed
  then show ?thesis by (simp add: intents_ok_def)
qed (use run ok in \<open>auto simp: coalesce_transaction_def Let_def split: if_splits\<close>)

lemma delete_jobs_intents:
  assumes ok: "intents_ok db" and run: "delete_jobs ids db = Inr db'"
  shows "intents_ok db'"
  using run
proof (cases rule: delete_jobs_Inr)
  case deleted
  have same: "intents db' = intents db" using deleted by simp
  have "k \<notin> set ids" if "map_of (intents db) g = Some i" "cs_queued_job_id i = Some k \<or> cs_running_job_id i = Some k" for g i k
    using map_of_SomeD [OF that(1)] that(2) deleted(2) by (fastforce simp: job_referenced_def list_ex_iff)
  moreover have "map_of (jobs db') k = (if k \<in> set ids then None else map_of (jobs db) k)" for k
    using delete_jobs_forgets [OF run] by (simp add: forgets_def)
  ultimately show ?thesis
    using ok unfolding intents_ok_def intent_ok_def same by (metis (no_types, lifting))
qed (use ok in simp)

section \<open>Steps\<close>

lemma step_intents_ok:
  assumes "store_step limits sha256 (db, C) (db', C')" and inv: "store_inv (max_retry_attempts limits) db"
    and m: "0 \<le> max_retry_attempts limits" and ok: "intents_ok db"
  shows "intents_ok db'"
proof -
  have follow: "evolves UNIV db db' \<Longrightarrow> intents_follow db db' \<Longrightarrow> ?thesis" using intents_ok_follow [OF ok] by blast
  have same: "evolves UNIV db db' \<Longrightarrow> intents db' = intents db \<Longrightarrow> ?thesis" using follow intents_same by blast
  from assms(1) show ?thesis
  proof (cases rule: store_step_cases)
    case acquire then show ?thesis by (intro same acquire_singleton_evolves intents_frame(1))
  next
    case renew then show ?thesis by (intro same heartbeat_singleton_evolves intents_frame(2))
  next
    case stop then show ?thesis by (intro same stop_singleton_evolves intents_frame(3))
  next
    case submit
    note tx = submit_Inr(1) [OF submit(2)]
    show ?thesis by (intro same submit_transaction_evolves [OF tx UNIV_I] intents_frame(4) [OF tx])
  next
    case coalesce then show ?thesis using coalesce_transaction_intents [OF ok inv m coalesce_automatic_Inr(1)] by blast
  next
    case claim then show ?thesis using claim_once_intents [OF ok inv] by blast
  next
    case release then show ?thesis by (intro follow release_graph_lease_evolves release_follow)
  next
    case compare_and_set
    then show ?thesis by (intro same compare_and_set_state_evolves [OF inv] compare_and_set_intents)
  next
    case heartbeat then show ?thesis by (intro same heartbeat_attempt_evolves [OF inv] heartbeat_attempt_intents)
  next
    case cancel then show ?thesis by (intro same request_cancellation_evolves [OF inv] intents_frame(9))
  next
    case terminated then show ?thesis by (intro same mark_attempt_terminated_evolves intents_frame(5))
  next
    case retry then show ?thesis by (intro same schedule_retry_evolves [OF inv] schedule_retry_intents)
  next
    case reconcile then show ?thesis by (intro follow reconcile_publication_evolves [OF inv] reconcile_publication_follow)
  next
    case recover then show ?thesis by (intro same recover_abandoned_attempts_evolves [OF inv] intents_frame(10))
  next
    case list_claims then show ?thesis using ok by simp
  next
    case register then show ?thesis by (intro same persist_supervisor_registration_evolves intents_frame(6))
  next
    case consume then show ?thesis by (intro same in_process_currency_context_evolves intents_frame(7))
  next
    case close_unpublished
    then show ?thesis by (intro same execute_durable_closure_evolves [OF inv] execute_durable_closure_intents)
  next
    case quarantine_legacy
    then show ?thesis by (intro follow quarantine_legacy_attempt_evolves [OF inv] quarantine_follow)
  next
    case marker then show ?thesis by (intro same record_publication_marker_evolves intents_frame(8))
  next
    case cleanup
    show ?thesis
      using cleanup_terminal_Inr(2) [OF cleanup(2)] delete_jobs_intents [OF ok cleanup_terminal_Inr(3) [OF cleanup(2)]] ok
      by blast
  next
    case poll_current then show ?thesis by (intro follow record_current_evolves observation_follow(1))
  next
    case poll_condition then show ?thesis by (intro follow record_condition_evolves observation_follow(2))
  qed
qed

lemma reachable_intents_ok:
  assumes "reachable limits sha256 (db, C)" and m: "0 \<le> max_retry_attempts limits"
  shows "intents_ok db"
proof -
  have "reachable limits sha256 s \<Longrightarrow> intents_ok (fst s)" for s
    unfolding reachable_def
  proof (induction rule: rtranclp_induct)
    case base
    show ?case by (simp add: initial_def empty_db_def intents_ok_def)
  next
    case (step s t)
    have "reachable limits sha256 s" using step.hyps(1) by (simp add: reachable_def)
    then have "store_inv (max_retry_attempts limits) (fst s)"
      using reachable_system_inv [OF _ m] by (simp add: system_inv_def)
    with step.hyps(2) step.IH m show ?case by (cases s, cases t) (auto dest: step_intents_ok)
  qed
  with assms(1) show ?thesis by fastforce
qed

text \<open>
  Claim C19 (coalescing rows are true): in every reachable state the jobs that the coalescing row of a
  graph names as queued and as running exist and belong to that graph, and while the row is dirty and not
  paused, the job it names as queued carries exactly the generations of the row.
\<close>

theorem coalescing_rows_true:
  assumes "reachable limits sha256 (db, C)" and "0 \<le> max_retry_attempts limits"
    and "map_of (intents db) g = Some i"
  shows "(\<forall>k. cs_queued_job_id i = Some k \<or> cs_running_job_id i = Some k \<longrightarrow>
         (\<exists>j. map_of (jobs db) k = Some j \<and> j_graph_id j = g))
    \<and> (cs_dirty i \<and> \<not> cs_paused i \<longrightarrow>
         (\<exists>k j. cs_queued_job_id i = Some k \<and> map_of (jobs db) k = Some j \<and> j_generations j = cs_generations i))"
  using reachable_intents_ok [OF assms(1,2)] assms(3) by (simp add: intents_ok_def intent_ok_def)

definition demo_hint :: "(SubmissionResult \<times> control_db) result" where
  "demo_hint = coalesce_transaction (demo_env 20) demo_sha256 ''j9'' (demo_request ''kk'' Automatic) ''polling''
     DEFAULT_LIMITS demo_owned"

lemma demo_hint_row:
  "case demo_hint of
     Inl e \<Rightarrow> False
   | Inr (r, db) \<Rightarrow> (case map_of (intents db) ''g'' of
        None \<Rightarrow> False
      | Some i \<Rightarrow> cs_dirty i \<and> \<not> cs_paused i \<and> cs_queued_job_id i = Some ''j9'' \<and> cs_generations i = demo_generations)"
  by code_simp

lemma demo_hint_valid: "validate_request (demo_request ''kk'' Automatic) = Inr (demo_request ''kk'' Automatic)"
  "safe_category ''polling'' ''requester'' = Inr ''polling''" "request_priority (demo_request ''kk'' Automatic) = Automatic"
  "require_transaction_admission (demo_env 20) = Inr ()"
  by code_simp+

lemma demo_hint_call: "coalesce_automatic (demo_env 20) demo_sha256 ''j9'' (demo_request ''kk'' Automatic) ''polling''
    DEFAULT_LIMITS demo_owned = demo_hint"
  by (simp add: coalesce_automatic_def demo_hint_def demo_hint_valid)

theorem coalescing_rows_true_witness:
  "\<exists>r db j. demo_hint = Inr (r, db) \<and> map_of (jobs db) ''j9'' = Some j \<and> j_graph_id j = ''g''
     \<and> j_generations j = demo_generations"
proof -
  obtain r db i where run: "demo_hint = Inr (r, db)" and i: "map_of (intents db) ''g'' = Some i" "cs_dirty i"
      "\<not> cs_paused i" "cs_queued_job_id i = Some ''j9''" "cs_generations i = demo_generations"
    using demo_hint_row by (auto split: sum.splits prod.splits option.splits)
  have "store_step DEFAULT_LIMITS demo_sha256 initial (demo_owned, {})"
    unfolding initial_def by (rule store_step.acquire [OF demo_acquire])
  moreover have "store_step DEFAULT_LIMITS demo_sha256 (demo_owned, {}) (db, {})"
    by (rule store_step.coalesce [OF demo_hint_call [unfolded run]]) simp
  ultimately have "reachable DEFAULT_LIMITS demo_sha256 (db, {})"
    unfolding reachable_def by (meson rtranclp.rtrancl_into_rtrancl rtranclp.rtrancl_refl)
  note rows = coalescing_rows_true [OF this demo_limits i(1)]
  from rows i(4) obtain j where "map_of (jobs db) ''j9'' = Some j" "j_graph_id j = ''g''" by blast
  with rows i(2-5) run show ?thesis by auto
qed

end
