(* ===== verification/Desired_Properties.thy ===== *)
theory Desired_Properties
  imports Desired_State Coordinator_Properties Control_Intents
begin

text \<open>
  What a poll of one graph promises: the outcome it reports is what it found and what it left in the
  control store, and the transactions it commits are steps of the store's system.
\<close>

section \<open>What a poll compares\<close>

definition wanted :: "reconciler \<Rightarrow> string \<Rightarrow> generations option" where
  \<comment> \<open>the desired generations, when the source could be read\<close>
  "wanted rec gid =
     (case dr_snapshot rec gid of
        Inl e \<Rightarrow> None
      | Inr snap \<Rightarrow> map_option (\<lambda>g. (g, ps_config_generation snap, ps_extractor_generation snap,
          ps_canonicalizer_generation snap)) (ss_generation (ps_source snap)))"

definition published :: "reconciler \<Rightarrow> string \<Rightarrow> generations option result" where
  "published rec gid = bindE (dr_publication rec gid) publication_generations"

definition POLL_SUCCESS :: "string list" where
  "POLL_SUCCESS = [''current'', ''refresh_requested'', ''refresh_coalesced'']"

definition honest_source :: "reconciler \<Rightarrow> string \<Rightarrow> bool" where
  \<comment> \<open>a snapshot without a generation does not carry the name of a successful poll\<close>
  "honest_source rec gid =
     (case dr_snapshot rec gid of
        Inl e \<Rightarrow> True
      | Inr snap \<Rightarrow> ss_generation (ps_source snap) = None \<longrightarrow> ss_category (ps_source snap) \<notin> set POLL_SUCCESS)"

lemma poll_outcome_simps [simp]:
  "po_category (poll_outcome c b f n) = c" "po_refresh_requested (poll_outcome c b f n) = b"
  by (simp_all add: poll_outcome_def)

lemma blocked_Inr:
  assumes "blocked w rec gid category f n s = (Inr o1, s')"
  shows "\<exists>b. reconcile_record_condition w rec gid category s = (Inr b, s')"
    and "o1 = poll_outcome category False f n"
  using assms by (auto simp: blocked_def seqC_def elim!: bindC_cases)

lemma automatic_request_Inr:
  assumes "automatic_request sha256 gid gens = Inr req"
  shows "graph_id req = gid" and "request_generations req = gens" and "request_priority req = Automatic"
    and "idempotency_key req = automatic_key sha256 gid gens" and "job_kind req = ''refresh_graph''"
  using assms
  by (cases gens; auto simp: automatic_request_def normalize_request_def normalize_fields_def result_simps
      bounded_string_def make_request_def validate_generation_def request_generations_def dict_get_def
      split: if_splits option.splits)+

lemma request_refresh_cases:
  assumes "request_refresh w sha256 new_id rec gid gens f n s = (Inr o1, s')"
  obtains (stored) req res where "automatic_request sha256 gid gens = Inr req"
      and "callC w (\<lambda>env. coalesce_automatic env sha256 new_id req ''polling'' DEFAULT_LIMITS) s = (Inr res, s')"
      and "o1 = poll_outcome (if sr_replayed res then ''refresh_coalesced'' else ''refresh_requested'') (\<not> sr_replayed res) f n"
    | (refused) "blocked w rec gid ''automatic_intent_blocked'' f n s = (Inr o1, s')"
    | (failed) req e s1 where "callC w (\<lambda>env. coalesce_automatic env sha256 new_id req ''polling'' DEFAULT_LIMITS) s = (Inl e, s1)"
      and "is_ValueError e" and "blocked w rec gid ''automatic_intent_blocked'' f n s1 = (Inr o1, s')"
  using assms unfolding request_refresh_def
  by (auto simp: liftC_def elim!: catchC_cases bindC_cases split: if_splits intro: that)

lemma reconcile_graph_cases:
  assumes "reconcile_graph w sha256 new_id cancelled rec gid s = (Inr o1, s')"
  obtains (cancelled) f n where "o1 = poll_outcome ''cancelled'' False f n" and "s' = s"
    | (blocked) category f n where "blocked w rec gid category f n s = (Inr o1, s')"
        and "honest_source rec gid \<Longrightarrow> category \<notin> set POLL_SUCCESS"
    | (current) gens b f n where "wanted rec gid = Some gens" and "published rec gid = Inr (Some gens)"
        and "reconcile_record_current w rec gid gens s = (Inr b, s')" and "o1 = poll_outcome ''current'' False f n"
    | (refresh) gens actual f n where "wanted rec gid = Some gens" and "published rec gid = Inr actual"
        and "actual \<noteq> Some gens" and "request_refresh w sha256 new_id rec gid gens f n s = (Inr o1, s')"
proof (cases "cancelled 0")
  case True
  with assms that(1) show ?thesis by (auto simp: reconcile_graph_def)
next
  case c0: False
  show ?thesis
  proof (cases "dr_snapshot rec gid")
    case (Inl e)
    with assms c0 that(2) show ?thesis
      by (auto simp: reconcile_graph_def POLL_SUCCESS_def split: if_splits)
  next
    case snap: (Inr snap)
    show ?thesis
    proof (cases "ss_generation (ps_source snap)")
      case None
      with assms c0 snap that(2) show ?thesis by (auto simp: reconcile_graph_def honest_source_def Let_def)
    next
      case (Some g)
      let ?gens = "(g, ps_config_generation snap, ps_extractor_generation snap, ps_canonicalizer_generation snap)"
      have wanted: "wanted rec gid = Some ?gens" using snap Some by (simp add: wanted_def)
      show ?thesis
      proof (cases "cancelled 1")
        case True
        with assms c0 snap Some that(1) show ?thesis by (auto simp: reconcile_graph_def Let_def)
      next
        case False
        with assms c0 snap Some have "compare_publication w sha256 new_id cancelled rec gid snap g s = (Inr o1, s')"
          by (simp add: reconcile_graph_def Let_def)
        then show ?thesis
          using that wanted unfolding compare_publication_def Let_def published_def [symmetric]
          by (auto simp: POLL_SUCCESS_def seqC_def split: sum.splits if_splits elim!: bindC_cases)
      qed
    qed
  qed
qed

lemma outcome_flag:
  assumes "reconcile_graph w sha256 new_id cancelled rec gid s = (Inr o1, s')" and "honest_source rec gid"
  shows "po_refresh_requested o1 = (po_category o1 = ''refresh_requested'')"
  using assms(1)
proof (cases rule: reconcile_graph_cases)
  case (blocked category f n)
  with blocked_Inr(2) [OF blocked(1)] assms(2) show ?thesis by (auto simp: POLL_SUCCESS_def)
next
  case (refresh gens actual f n)
  from refresh(4) show ?thesis by (cases rule: request_refresh_cases) (auto dest: blocked_Inr(2))
qed simp_all

section \<open>What coalescing leaves behind\<close>

definition named_job :: "intent_row \<Rightarrow> string option" where
  \<comment> \<open>the job a coalescing row points to: the queued one, or else the running one\<close>
  "named_job i = (case cs_queued_job_id i of Some q \<Rightarrow> Some q | None \<Rightarrow> cs_running_job_id i)"

lemma named_job_ok:
  assumes "intents_ok db" and "map_of (intents db) g = Some i" and "named_job i = Some k" and "map_of (jobs db) k = Some j"
  shows "j_graph_id j = g" and "cs_dirty i \<Longrightarrow> \<not> cs_paused i \<Longrightarrow> j_generations j = cs_generations i"
  using assms by (fastforce simp: intents_ok_def intent_ok_def named_job_def split: option.splits)+

lemma coalesced:
  assumes inv: "store_inv m db" and run: "coalesce_automatic env sha256 new_id req requester limits db = Inr (res, db')"
  obtains (replayed) j i jid where "sr_replayed res" and "db' = db" and "map_of (intents db) (graph_id req) = Some i"
      and "cs_generations i = request_generations req" and "map_of (jobs db) jid = Some j" and "\<not> terminal (j_state j)"
      and "named_job i = Some jid" and "\<not> cs_paused i"
    | (queued) j i where "\<not> sr_replayed res" and "map_of (jobs db) new_id = None"
      and "map_of (jobs db') new_id = Some j" and "j_state j = Queued"
      and "j_graph_id j = graph_id req" and "j_generations j = request_generations req"
      and "j_priority_class j = Automatic" and "j_requester j = requester"
      and "map_of (intents db') (graph_id req) = Some i" and "cs_generations i = request_generations req"
      and "cs_dirty i" and "cs_queued_job_id i = Some new_id"
proof -
  note tx = coalesce_automatic_Inr [OF run]
  show ?thesis
  proof (cases "coalesced_job (request_generations req) (map_of (intents db) (graph_id req)) db")
    case (Some j)
    with tx(1) have r: "sr_replayed res" "db' = db"
      by (auto simp: coalesce_transaction_def Let_def split: if_splits)
    from Some obtain i jid where i: "map_of (intents db) (graph_id req) = Some i" "cs_generations i = request_generations req"
        "named_job i = Some jid" "map_of (jobs db) jid = Some j" "\<not> terminal (j_state j)"
      by (auto simp: coalesced_job_def named_job_def split: option.splits if_splits)
    with tx(1) have "\<not> cs_paused i" by (auto simp: coalesce_transaction_def Let_def split: if_splits)
    with r i show ?thesis by (intro replayed)
  next
    case None
    let ?j = "\<lambda>fp. new_job env new_id req requester (sha256 (idempotency_key req)) fp 50"
    from None tx(1) obtain db1 db2 db3 replaced fp where
      1: "supersede env replaced db = Inr db1" and 2: "insert_job (?j fp) db1 = Inr db2" and
      3: "link_replacement replaced new_id db2 = Inr db3" and
      4: "db' = upsert_intent env req new_id (request_generations req) db3" and r: "\<not> sr_replayed res"
      by (auto simp: coalesce_transaction_def Let_def result_simps split: if_splits)
    note ins = insert_job_Inr [OF 2]
    have db1: "map_of (jobs db1) new_id = None" using ins(1) by (simp add: new_job_def)
    with 1 have none: "map_of (jobs db) new_id = None"
      by (auto simp: supersede_def result_simps split: option.splits if_splits elim!: update_job_cases)
    have "\<exists>j. map_of (jobs db3) new_id = Some j \<and> j_state j = Queued \<and> j_graph_id j = graph_id req
        \<and> j_generations j = request_generations req \<and> j_priority_class j = Automatic \<and> j_requester j = requester"
      using 3 ins(4) tx(3) store_inv_job_id [OF supersede_inv [OF inv 1]]
      by (auto simp: link_replacement_def result_simps new_job_def split: option.splits if_splits elim!: update_job_cases)
    then obtain j where "map_of (jobs db') new_id = Some j" "j_state j = Queued" "j_graph_id j = graph_id req"
        "j_generations j = request_generations req" "j_priority_class j = Automatic" "j_requester j = requester"
      using 4 by (auto simp: upsert_intent_def Let_def)
    then show ?thesis
      using queued r none 4 by (auto simp: upsert_intent_def Let_def split: option.splits)
  qed
qed

section \<open>The outcome of a poll\<close>

definition reports_current :: "reconciler \<Rightarrow> string \<Rightarrow> control_db \<Rightarrow> control_db \<Rightarrow> bool" where
  \<comment> \<open>the publication carries the desired generations, no job changed, and the coalescing row, if there is one, is clean\<close>
  "reports_current rec gid db db' = (\<exists>gens. wanted rec gid = Some gens \<and> published rec gid = Inr (Some gens)
     \<and> jobs db' = jobs db \<and> (\<forall>i. map_of (intents db') gid = Some i \<longrightarrow> cs_generations i = gens \<and> \<not> cs_dirty i))"

definition reports_requested :: "reconciler \<Rightarrow> string \<Rightarrow> string \<Rightarrow> control_db \<Rightarrow> control_db \<Rightarrow> bool" where
  \<comment> \<open>the publication differs and a new queued automatic job stands for the desired generations\<close>
  "reports_requested rec gid new_id db db' = (\<exists>gens j i. wanted rec gid = Some gens \<and> published rec gid \<noteq> Inr (Some gens)
     \<and> map_of (jobs db) new_id = None \<and> map_of (jobs db') new_id = Some j \<and> j_state j = Queued
     \<and> j_graph_id j = gid \<and> j_generations j = gens \<and> j_priority_class j = Automatic \<and> j_requester j = ''polling''
     \<and> map_of (intents db') gid = Some i \<and> cs_generations i = gens \<and> cs_dirty i \<and> cs_queued_job_id i = Some new_id)"

definition reports_coalesced :: "reconciler \<Rightarrow> string \<Rightarrow> control_db \<Rightarrow> control_db \<Rightarrow> bool" where
  \<comment> \<open>the publication differs, the coalescing row carries the desired generations and names a job of the graph that has
    not ended, made for these generations if the row is dirty, and nothing changed\<close>
  "reports_coalesced rec gid db db' = (\<exists>gens i jid j. wanted rec gid = Some gens \<and> published rec gid \<noteq> Inr (Some gens)
     \<and> db' = db \<and> map_of (intents db) gid = Some i \<and> cs_generations i = gens
     \<and> (case cs_queued_job_id i of Some q \<Rightarrow> Some q | None \<Rightarrow> cs_running_job_id i) = Some jid
     \<and> map_of (jobs db) jid = Some j \<and> \<not> terminal (j_state j) \<and> j_graph_id j = gid
     \<and> (cs_dirty i \<longrightarrow> j_generations j = gens))"

lemma record_current_Inr:
  assumes "record_current env gid gens d db = Inr (b, db')"
  shows "jobs db' = jobs db" and "map_of (intents db') gid = Some i \<Longrightarrow> cs_generations i = gens \<and> \<not> cs_dirty i"
  using assms by (auto simp: record_current_def safe_graph_id_def update_intent_def result_simps split: option.splits if_splits)

lemma record_condition_jobs: "record_condition env gid c d db = Inr (b, db') \<Longrightarrow> jobs db' = jobs db"
  by (auto simp: record_condition_def safe_graph_id_def update_intent_def result_simps split: option.splits if_splits)

definition undisturbed :: "core_world \<Rightarrow> bool" where
  \<comment> \<open>nobody else changes a job meanwhile, and a lost connection is not a \<^verbatim>\<open>ValueError\<close>\<close>
  "undisturbed w = ((\<forall>i db. jobs (w_others w i db) = jobs db) \<and> (\<forall>i a e. w_fail w i = Some (a, e) \<longrightarrow> \<not> is_ValueError e))"

lemma blocked_jobs:
  assumes "undisturbed w" and "blocked w rec gid category f n s = (Inr o1, s')"
  shows "jobs (k_db s') = jobs (k_db s)"
  using assms(1) blocked_Inr(1) [OF assms(2)]
  by (auto simp: reconcile_record_condition_def undisturbed_def dest!: callC_Inr(1) record_condition_jobs)

lemma failed_call_jobs:
  assumes "undisturbed w" and "callC w f s = (Inl e, s')" and "is_ValueError e"
  shows "jobs (k_db s') = jobs (k_db s)"
  using assms by (auto simp: callC_def Let_def undisturbed_def split: sum.splits prod.splits option.splits if_splits)

text \<open>
  Claim C22 (a poll is truthful): take a poll that returns, on a database reachable for the store, with a
  source that does not name a failure like a success. If it reports \<^verbatim>\<open>current\<close>, the latest publication
  carries exactly the desired generations, the coalescing row (if there is one) is clean and carries
  them, and no job changed. If it reports \<^verbatim>\<open>refresh_requested\<close>, the publication differs and a new
  queued automatic job for the desired generations exists, named by a dirty coalescing row. If it reports
  \<^verbatim>\<open>refresh_coalesced\<close>, the publication differs, and the coalescing row carries the desired generations and
  names a job of this graph that has not ended; that job was made for these generations if the row is
  dirty, and otherwise possibly for others, because an observation that finds the publication current
  rewrites the generations of the row and not those of the job; the poll changed nothing. Exactly the
  second outcome counts as a requested refresh, and any other outcome leaves every job as it was, unless
  somebody else changes it.
\<close>

theorem poll_is_truthful:
  assumes run: "reconcile_graph w sha256 new_id cancelled rec gid s = (Inr o1, s')"
    and db: "db = w_others w (k_calls s) (k_db s)" and reach: "reachable DEFAULT_LIMITS sha256 (db, C)"
    and source: "honest_source rec gid"
  shows "(po_category o1 = ''current'' \<longrightarrow> reports_current rec gid db (k_db s'))
    \<and> (po_category o1 = ''refresh_requested'' \<longrightarrow> reports_requested rec gid new_id db (k_db s'))
    \<and> (po_category o1 = ''refresh_coalesced'' \<longrightarrow> reports_coalesced rec gid db (k_db s'))
    \<and> po_refresh_requested o1 = (po_category o1 = ''refresh_requested'')
    \<and> (undisturbed w \<and> po_category o1 \<noteq> ''refresh_requested'' \<longrightarrow> jobs (k_db s') = jobs (k_db s))"
  using run
proof (cases rule: reconcile_graph_cases)
  case cancelled
  then show ?thesis by simp
next
  case (blocked category f n)
  from blocked(2) source have "category \<notin> set POLL_SUCCESS" by blast
  then show ?thesis
    using blocked_Inr(2) [OF blocked(1)] blocked_jobs [OF _ blocked(1)] by (auto simp: POLL_SUCCESS_def)
next
  case (current gens b f n)
  from callC_Inr(1) [OF current(3) [unfolded reconcile_record_current_def]] db
  have rec: "record_current (w_env w (k_calls s)) gid gens (dr_next_reconcile rec) db = Inr (b, k_db s')" by simp
  show ?thesis using current db record_current_Inr [OF rec] by (auto simp: undisturbed_def reports_current_def)
next
  case (refresh gens actual f n)
  from refresh(4) show ?thesis
  proof (cases rule: request_refresh_cases)
    case (stored req res)
    from callC_Inr(1) [OF stored(2)] db
    have tx: "coalesce_automatic (w_env w (k_calls s)) sha256 new_id req ''polling'' DEFAULT_LIMITS db = Inr (res, k_db s')"
      by simp
    have inv: "store_inv (max_retry_attempts DEFAULT_LIMITS) db"
      using reachable_system_inv [OF reach demo_limits] by (simp add: system_inv_def)
    note req = automatic_request_Inr [OF stored(1)]
    from inv tx show ?thesis
    proof (cases rule: coalesced)
      case (replayed j i jid)
      with named_job_ok [OF reachable_intents_ok [OF reach demo_limits], of "graph_id req" i jid j] req
      have "j_graph_id j = gid" "cs_dirty i \<longrightarrow> j_generations j = gens" by auto
      with replayed stored refresh db req show ?thesis by (auto simp: undisturbed_def reports_coalesced_def named_job_def)
    next
      case (queued j i)
      with stored refresh req show ?thesis by (auto simp: reports_requested_def)
    qed
  next
    case refused
    from blocked_Inr(2) [OF this] blocked_jobs [OF _ this] show ?thesis by simp
  next
    case (failed req e s1)
    from blocked_Inr(2) [OF failed(3)] blocked_jobs [OF _ failed(3)] failed_call_jobs [OF _ failed(1,2)] show ?thesis
      by simp
  qed
qed

text \<open>
  Polling cannot ask for generations a second time: while a polling job for the same graph and the same desired
  generations exists, in whatever state, and the coalescing table names no live job for them, no poll requests
  or coalesces a refresh. Desired generations that return to an earlier value stay unpublished until
  retention has removed the earlier job.
\<close>

theorem repeated_generations_not_requested:
  assumes run: "reconcile_graph w sha256 new_id cancelled rec gid s = (Inr o1, s')"
    and db: "db = w_others w (k_calls s) (k_db s)" and inv: "store_inv m db" and source: "honest_source rec gid"
    and gens: "wanted rec gid = Some gens" and job: "map_of (jobs db) k = Some j"
    and key: "job_key j = (''polling'', ''refresh_graph'', gid, sha256 (automatic_key sha256 gid gens))"
    and none: "coalesced_job gens (map_of (intents db) gid) db = None"
  shows "po_category o1 \<noteq> ''refresh_requested'' \<and> po_category o1 \<noteq> ''refresh_coalesced''"
  using run
proof (cases rule: reconcile_graph_cases)
  case (blocked category f n)
  with blocked_Inr(2) [OF blocked(1)] source show ?thesis by (auto simp: POLL_SUCCESS_def)
next
  case (refresh gens' actual f n)
  from refresh(4) show ?thesis
  proof (cases rule: request_refresh_cases)
    case (stored req res)
    note req = automatic_request_Inr [OF stored(1)]
    have "gens' = gens" using refresh(1) gens by simp
    with req key none have "\<exists>e. coalesce_automatic (w_env w (k_calls s)) sha256 new_id req ''polling'' DEFAULT_LIMITS db = Inl e"
      by (intro coalescing_refuses_known_key [OF inv job]) simp_all
    with callC_Inr(1) [OF stored(2)] db show ?thesis by simp
  qed (auto dest: blocked_Inr(2))
qed simp_all

definition demo_snapshot :: PollingSnapshot where
  "demo_snapshot = \<lparr>ps_source = \<lparr>ss_category = ''ok'', ss_generation = Some ''sg1:a'', ss_file_count = 3, ss_total_bytes = 40\<rparr>,
     ps_config_generation = ''cg1:b'', ps_extractor_generation = ''eg1:c'', ps_canonicalizer_generation = ''kg1:d''\<rparr>"

definition demo_reconciler :: "dict option \<Rightarrow> reconciler" where
  "demo_reconciler publication = \<lparr>dr_next_reconcile = 60000000, dr_retry = 15000000, dr_snapshot = (\<lambda>g. Inr demo_snapshot),
     dr_publication = (\<lambda>g. Inr publication)\<rparr>"

definition demo_poll_sha256 :: "string \<Rightarrow> string" where
  \<comment> \<open>a stand-in digest that keeps the polling key short\<close>
  "demo_poll_sha256 s = (if take 2 s = ''g|'' then ''f'' else replicate 64 (CHR ''f''))"

lemma demo_owned_reachable: "reachable DEFAULT_LIMITS demo_poll_sha256 (demo_owned, {})"
  using store_step.acquire [OF demo_acquire, of DEFAULT_LIMITS demo_poll_sha256 "{}"]
  by (auto simp: reachable_def initial_def)

lemma demo_poll_requests:
  "fst (reconcile_graph (demo_world [] None) demo_poll_sha256 ''j9'' (\<lambda>i. False) (demo_reconciler None) ''g'' (demo_core demo_owned))
   = Inr (poll_outcome ''refresh_requested'' True 3 40)"
  by code_simp

theorem poll_is_truthful_witness:
  "\<exists>s'. reconcile_graph (demo_world [] None) demo_poll_sha256 ''j9'' (\<lambda>i. False) (demo_reconciler None) ''g'' (demo_core demo_owned)
      = (Inr (poll_outcome ''refresh_requested'' True 3 40), s')
     \<and> reports_requested (demo_reconciler None) ''g'' ''j9'' demo_owned (k_db s')"
proof -
  obtain s' where run: "reconcile_graph (demo_world [] None) demo_poll_sha256 ''j9'' (\<lambda>i. False) (demo_reconciler None) ''g''
      (demo_core demo_owned) = (Inr (poll_outcome ''refresh_requested'' True 3 40), s')"
    using run_of [OF demo_poll_requests] by blast
  have "honest_source (demo_reconciler None) ''g''"
    by (simp add: honest_source_def demo_reconciler_def demo_snapshot_def)
  from poll_is_truthful [OF run refl _ this, of "{}"] run show ?thesis
    using demo_owned_reachable by (simp add: demo_world_def demo_core_def)
qed

text \<open>
  The job behind a coalesced refresh may be for other generations: a job is queued for one set of
  generations, an observation finds other ones current and writes them into the row, and asking for these
  is then answered by the first job, although it will publish the former.
\<close>

definition demo_generations2 :: generations where
  "demo_generations2 = (''sg1:z'', ''cg1:b'', ''eg1:c'', ''kg1:d'')"

definition demo_rewritten :: control_db where
  "demo_rewritten =
     (let polled = after demo_owned (coalesce_transaction (demo_env 20) demo_sha256 ''j9''
            (demo_request ''kk'' Automatic) ''polling'' DEFAULT_LIMITS demo_owned)
      in after polled (record_current (demo_env 30) ''g'' demo_generations2 60 polled))"

lemma replayed_job_of_other_generations:
  "map_option j_job_id (coalesced_job demo_generations2 (map_of (intents demo_rewritten) ''g'') demo_rewritten) = Some ''j9''"
  "map_option (\<lambda>j. j_generations j = demo_generations2) (map_of (jobs demo_rewritten) ''j9'') = Some False"
  by code_simp+

section \<open>Polls are runs of the store\<close>

definition avoids :: "(string \<Rightarrow> string) \<Rightarrow> string \<Rightarrow> control_db \<Rightarrow> control_db \<Rightarrow> bool" where
  \<comment> \<open>committed transactions lead from \<open>db\<close> to \<open>db'\<close> without a claim on a job named \<open>new_id\<close>\<close>
  "avoids sha256 new_id db db' =
     (\<forall>C. reachable DEFAULT_LIMITS sha256 (db, C) \<and> new_id \<notin> c_job_id ` C \<longrightarrow>
        (\<exists>C'. C \<subseteq> C' \<and> new_id \<notin> c_job_id ` C' \<and> (store_step DEFAULT_LIMITS sha256)\<^sup>*\<^sup>* (db, C) (db', C')))"

lemma avoidsE:
  assumes "avoids sha256 new_id db db'" and "reachable DEFAULT_LIMITS sha256 (db, C)" and "new_id \<notin> c_job_id ` C"
  obtains C' where "C \<subseteq> C'" and "new_id \<notin> c_job_id ` C'" and "(store_step DEFAULT_LIMITS sha256)\<^sup>*\<^sup>* (db, C) (db', C')"
    and "reachable DEFAULT_LIMITS sha256 (db', C')"
proof -
  from assms obtain C' where C': "C \<subseteq> C' \<and> new_id \<notin> c_job_id ` C' \<and> (store_step DEFAULT_LIMITS sha256)\<^sup>*\<^sup>* (db, C) (db', C')"
    by (metis avoids_def)
  moreover from this assms(2) have "reachable DEFAULT_LIMITS sha256 (db', C')"
    unfolding reachable_def by (elim conjE) (rule rtranclp_trans)
  ultimately show thesis using that by metis
qed

lemma avoids_refl_trans:
  "reflp (\<lambda>s s'. avoids sha256 new_id (k_db s) (k_db s'))" "transp (\<lambda>s s'. avoids sha256 new_id (k_db s) (k_db s'))"
proof -
  show "reflp (\<lambda>s s'. avoids sha256 new_id (k_db s) (k_db s'))" by (rule reflpI) (auto simp: avoids_def)
  show "transp (\<lambda>s s'. avoids sha256 new_id (k_db s) (k_db s'))"
  proof (rule transpI)
    fix x y z
    assume 1: "avoids sha256 new_id (k_db x) (k_db y)" and 2: "avoids sha256 new_id (k_db y) (k_db z)"
    show "avoids sha256 new_id (k_db x) (k_db z)"
      unfolding avoids_def
    proof (intro allI impI, elim conjE)
      fix C assume C: "reachable DEFAULT_LIMITS sha256 (k_db x, C)" "new_id \<notin> c_job_id ` C"
      from 1 C obtain C1 where C1: "C \<subseteq> C1" "new_id \<notin> c_job_id ` C1"
          "(store_step DEFAULT_LIMITS sha256)\<^sup>*\<^sup>* (k_db x, C) (k_db y, C1)" "reachable DEFAULT_LIMITS sha256 (k_db y, C1)"
        by (rule avoidsE)
      from 2 C1(4,2) obtain C2 where "C1 \<subseteq> C2" "new_id \<notin> c_job_id ` C2"
          "(store_step DEFAULT_LIMITS sha256)\<^sup>*\<^sup>* (k_db y, C1) (k_db z, C2)" by (rule avoidsE)
      with C1 show "\<exists>C'. C \<subseteq> C' \<and> new_id \<notin> c_job_id ` C'
          \<and> (store_step DEFAULT_LIMITS sha256)\<^sup>*\<^sup>* (k_db x, C) (k_db z, C')"
        by (intro exI [of _ C2] conjI rtranclp_trans [OF C1(3)]) simp_all
    qed
  qed
qed

lemma avoids_step:
  "(\<And>C. new_id \<notin> c_job_id ` C \<Longrightarrow> store_step DEFAULT_LIMITS sha256 (db, C) (db', C)) \<Longrightarrow> avoids sha256 new_id db db'"
  unfolding avoids_def by (blast intro: r_into_rtranclp)

definition uninvolved :: "(string \<Rightarrow> string) \<Rightarrow> string \<Rightarrow> core_world \<Rightarrow> bool" where
  \<comment> \<open>others run the store too, and do not draw the identifier this poll has drawn\<close>
  "uninvolved sha256 new_id w = (\<forall>i db. avoids sha256 new_id db (w_others w i db))"

lemma poll_call:
  assumes "uninvolved sha256 new_id w"
    and "\<And>env db x db' C. f env db = Inr (x, db') \<Longrightarrow> new_id \<notin> c_job_id ` C
      \<Longrightarrow> store_step DEFAULT_LIMITS sha256 (db, C) (db', C)"
  shows "relates (\<lambda>s s'. avoids sha256 new_id (k_db s) (k_db s')) (callC w f)"
  by (rule relates_call) (use assms in \<open>auto simp: uninvolved_def avoids_refl_trans intro!: avoids_step\<close>)

lemma relates_sum:
  "(\<And>e. relates R (f e)) \<Longrightarrow> (\<And>x. relates R (g x)) \<Longrightarrow> relates R (case v of Inl e \<Rightarrow> f e | Inr x \<Rightarrow> g x)"
  by (cases v) simp_all

lemmas avoids_intros = relates_prim [OF avoids_refl_trans(1)] relates_bind [OF avoids_refl_trans(2)]
  relates_seq [OF avoids_refl_trans(2)] relates_catch [OF avoids_refl_trans(2)] relates_if
  relates_option relates_sum

lemma reconcile_graph_avoids:
  assumes "uninvolved sha256 new_id w"
  shows "relates (\<lambda>s s'. avoids sha256 new_id (k_db s) (k_db s')) (reconcile_graph w sha256 new_id cancelled rec gid)"
proof -
  let ?R = "\<lambda>s s'. avoids sha256 new_id (k_db s) (k_db s')"
  have 1: "relates ?R (reconcile_record_condition w rec gid c)" "relates ?R (reconcile_record_current w rec gid gens)" for c gens
    unfolding reconcile_record_condition_def reconcile_record_current_def
    by (rule poll_call [OF assms], rule store_step.intros, assumption)+
  have 2: "relates ?R (callC w (\<lambda>env. coalesce_automatic env sha256 new_id req ''polling'' DEFAULT_LIMITS))" for req
    by (rule poll_call [OF assms]) (rule store_step.coalesce)
  have 3: "relates ?R (blocked w rec gid c f n)" for c f n unfolding blocked_def by (intro avoids_intros 1)
  have 4: "relates ?R (request_refresh w sha256 new_id rec gid gens f n)" for gens f n
    unfolding request_refresh_def by (intro avoids_intros 2 3)
  have 5: "relates ?R (compare_publication w sha256 new_id cancelled rec gid snap g)" for snap g
    unfolding compare_publication_def Let_def by (intro avoids_intros 1 3 4)
  show ?thesis
    unfolding reconcile_graph_def Let_def by (intro avoids_intros 3 5)
qed

text \<open>
  Polls compose with the store: whatever the resolver answers, wherever a call fails and however the
  poll ends, it takes a reachable database along committed transactions of the control store, provided
  everybody else does and nobody else draws the identifier of the job it may create.
\<close>

theorem poll_refines_store:
  assumes "uninvolved sha256 new_id w" and "reconcile_graph w sha256 new_id cancelled rec gid s = (r, s')"
    and "reachable DEFAULT_LIMITS sha256 (k_db s, C)" and "new_id \<notin> c_job_id ` C"
  shows "\<exists>C'. C \<subseteq> C' \<and> (store_step DEFAULT_LIMITS sha256)\<^sup>*\<^sup>* (k_db s, C) (k_db s', C')"
  using relatesD [OF reconcile_graph_avoids [OF assms(1)] assms(2)] assms(3,4) by (rule avoidsE) metis

theorem poll_refines_store_witness:
  "\<exists>s' C'. reconcile_graph (demo_world [] None) demo_poll_sha256 ''j9'' (\<lambda>i. False) (demo_reconciler None) ''g''
       (demo_core demo_owned) = (Inr (poll_outcome ''refresh_requested'' True 3 40), s')
     \<and> (store_step DEFAULT_LIMITS demo_poll_sha256)\<^sup>*\<^sup>* (demo_owned, {}) (k_db s', C')"
proof -
  obtain s' where run: "reconcile_graph (demo_world [] None) demo_poll_sha256 ''j9'' (\<lambda>i. False) (demo_reconciler None) ''g''
      (demo_core demo_owned) = (Inr (poll_outcome ''refresh_requested'' True 3 40), s')"
    using run_of [OF demo_poll_requests] by blast
  have "uninvolved demo_poll_sha256 ''j9'' (demo_world [] None)" by (auto simp: uninvolved_def demo_world_def avoids_def)
  from poll_refines_store [OF this run, of "{}"] run show ?thesis
    using demo_owned_reachable by (auto simp: demo_core_def)
qed

end
