(* ===== verification/Polling_Properties.thy ===== *)
theory Polling_Properties
  imports Polling Desired_Properties
begin

text \<open>
  What the polling scheduler keeps: its tables describe the same graphs, at most the configured number of
  polls is in flight, and its counters account for them.
\<close>

section \<open>Lookups after the operations\<close>

lemma set_default_lookup [simp]:
  "map_of (set_default k v d) h = (if h = k \<and> map_of d k = None then Some v else map_of d h)"
  by (auto simp: set_default_def split: option.splits)

lemma dom_map_of_fst: "(\<exists>v. map_of t k = Some v) \<longleftrightarrow> k \<in> fst ` set t"
  by (metis map_of_eq_None_iff not_None_eq)

lemma add_targets_lookup:
  "map_of (sc_next_due (fold (add_target now) ts st)) h =
     (if h \<in> set ts \<and> map_of (sc_next_due st) h = None then Some now else map_of (sc_next_due st) h)"
  by (induction ts arbitrary: st) (auto simp: add_target_def)

lemma add_targets_same:
  assumes "map_of (sc_next_due st) h \<noteq> None"
  shows "map_of (sc_failures (fold (add_target now) ts st)) h = map_of (sc_failures st) h"
    and "map_of (sc_last_completed (fold (add_target now) ts st)) h = map_of (sc_last_completed st) h"
  using assms by (induction ts arbitrary: st) (auto simp: add_target_def)

lemma drop_targets_lookup:
  "map_of (sc_next_due (fold (drop_target ts) gs st)) h = (if h \<in> set gs \<and> h \<notin> set ts then None else map_of (sc_next_due st) h)"
  "map_of (sc_failures (fold (drop_target ts) gs st)) h = (if h \<in> set gs \<and> h \<notin> set ts then None else map_of (sc_failures st) h)"
  "map_of (sc_last_completed (fold (drop_target ts) gs st)) h =
     (if h \<in> set gs \<and> h \<notin> set ts then None else map_of (sc_last_completed st) h)"
  by (induction gs arbitrary: st) (auto simp: drop_target_def delete_conv List.member_iff)

lemma sync_frame [simp]:
  "sc_running (sync_targets ts now st) = sc_running st" "sc_futures (sync_targets ts now st) = sc_futures st"
  "sc_counters (sync_targets ts now st) = sc_counters st" "sc_thread (sync_targets ts now st) = sc_thread st"
  "sc_stop (sync_targets ts now st) = sc_stop st" "sc_started (sync_targets ts now st) = sc_started st"
proof -
  have a: "sc_running (fold (add_target now) ts st) = sc_running st \<and> sc_futures (fold (add_target now) ts st) = sc_futures st
      \<and> sc_counters (fold (add_target now) ts st) = sc_counters st \<and> sc_thread (fold (add_target now) ts st) = sc_thread st
      \<and> sc_stop (fold (add_target now) ts st) = sc_stop st \<and> sc_started (fold (add_target now) ts st) = sc_started st" for ts st
    by (induction ts arbitrary: st) (auto simp: add_target_def)
  have d: "sc_running (fold (drop_target us) ts st) = sc_running st \<and> sc_futures (fold (drop_target us) ts st) = sc_futures st
      \<and> sc_counters (fold (drop_target us) ts st) = sc_counters st \<and> sc_thread (fold (drop_target us) ts st) = sc_thread st
      \<and> sc_stop (fold (drop_target us) ts st) = sc_stop st \<and> sc_started (fold (drop_target us) ts st) = sc_started st" for us ts st
    by (induction ts arbitrary: st) (auto simp: drop_target_def)
  from a d show "sc_running (sync_targets ts now st) = sc_running st" "sc_futures (sync_targets ts now st) = sc_futures st"
    "sc_counters (sync_targets ts now st) = sc_counters st" "sc_thread (sync_targets ts now st) = sc_thread st"
    "sc_stop (sync_targets ts now st) = sc_stop st" "sc_started (sync_targets ts now st) = sc_started st"
    by (simp_all add: sync_targets_def Let_def)
qed

lemma sync_lookup:
  "map_of (sc_next_due (sync_targets ts now st)) h =
     (if h \<in> set ts then (case map_of (sc_next_due st) h of None \<Rightarrow> Some now | Some d \<Rightarrow> Some d) else None)"
proof -
  have "h \<notin> fst ` set (sc_next_due (fold (add_target now) ts st)) \<Longrightarrow> h \<notin> set ts \<Longrightarrow> map_of (sc_next_due st) h = None"
    using add_targets_lookup [of now ts st h] by (auto simp: map_of_eq_None_iff [symmetric])
  then show ?thesis
    by (auto simp: sync_targets_def Let_def drop_targets_lookup add_targets_lookup split: option.split)
qed

lemma sync_same:
  assumes "h \<in> set ts" and "map_of (sc_next_due st) h \<noteq> None"
  shows "map_of (sc_failures (sync_targets ts now st)) h = map_of (sc_failures st) h"
    and "map_of (sc_last_completed (sync_targets ts now st)) h = map_of (sc_last_completed st) h"
  using assms by (simp_all add: sync_targets_def Let_def drop_targets_lookup add_targets_same)

lemma finish_frame [simp]:
  "sc_running (finish_poll digest cfg g o1 now st) = removeAll g (sc_running st)"
  "sc_futures (finish_poll digest cfg g o1 now st) = AList.delete g (sc_futures st)"
  "sc_startup_pending (finish_poll digest cfg g o1 now st) = removeAll g (sc_startup_pending st)"
  "sc_thread (finish_poll digest cfg g o1 now st) = sc_thread st"
  "sc_stop (finish_poll digest cfg g o1 now st) = sc_stop st"
  "sc_started (finish_poll digest cfg g o1 now st) = sc_started st"
  by (simp_all add: finish_poll_def reschedule_def record_outcome_def Let_def)

lemma finish_other:
  assumes "h \<noteq> g"
  shows "map_of (sc_next_due (finish_poll digest cfg g o1 now st)) h = map_of (sc_next_due st) h"
    and "map_of (sc_failures (finish_poll digest cfg g o1 now st)) h = map_of (sc_failures st) h"
    and "map_of (sc_last_completed (finish_poll digest cfg g o1 now st)) h = map_of (sc_last_completed st) h"
  using assms by (simp_all add: finish_poll_def reschedule_def record_outcome_def Let_def)

section \<open>Delays\<close>

definition config_ok :: "polling_config \<Rightarrow> bool" where
  "config_ok cfg = (0 < pc_interval cfg \<and> 0 < pc_retry cfg \<and> 0 \<le> pc_jitter cfg \<and> 0 < pc_max_concurrent cfg
     \<and> 0 < pc_startup_batch cfg \<and> pc_startup_batch cfg \<le> pc_max_concurrent cfg \<and> pc_retry cfg \<le> pc_max_retry cfg
     \<and> 1 \<le> pc_multiplier cfg \<and> 0 < pc_wake cfg \<and> 0 < pc_shutdown_timeout cfg)"

lemma make_config_ok: "make_config a b c d e f g h k = Inr cfg \<Longrightarrow> config_ok cfg"
  by (auto simp: make_config_def config_ok_def result_simps)

lemma retry_delay_bounds:
  assumes "config_ok cfg"
  shows "pc_retry cfg \<le> retry_delay cfg n" and "retry_delay cfg n \<le> pc_max_retry cfg"
proof -
  have "1 \<le> pc_multiplier cfg ^ nat (n - 1)" using assms by (simp add: config_ok_def)
  then have "pc_retry cfg * 1 \<le> pc_retry cfg * pc_multiplier cfg ^ nat (n - 1)"
    using assms by (intro mult_left_mono) (simp_all add: config_ok_def)
  then show "pc_retry cfg \<le> retry_delay cfg n" using assms by (simp add: retry_delay_def config_ok_def)
  show "retry_delay cfg n \<le> pc_max_retry cfg" by (simp add: retry_delay_def)
qed

lemma retry_delay_mono:
  assumes "config_ok cfg" and "m \<le> n"
  shows "retry_delay cfg m \<le> retry_delay cfg n"
proof -
  have "pc_multiplier cfg ^ nat (m - 1) \<le> pc_multiplier cfg ^ nat (n - 1)"
    using assms by (intro power_increasing) (simp_all add: config_ok_def)
  then have "pc_retry cfg * pc_multiplier cfg ^ nat (m - 1) \<le> pc_retry cfg * pc_multiplier cfg ^ nat (n - 1)"
    using assms(1) by (intro mult_left_mono) (simp_all add: config_ok_def)
  then show ?thesis by (simp add: retry_delay_def min_le_iff_disj)
qed

lemma jitter_nonneg: "config_ok cfg \<Longrightarrow> 0 \<le> deterministic_jitter digest cfg g"
  by (simp add: deterministic_jitter_def config_ok_def)

lemma big_endian_bound:
  fixes bs :: "nat list"
  shows "list_all (\<lambda>b. b < 256) bs \<Longrightarrow> foldl (\<lambda>a b. 256 * a + b) 0 bs < 256 ^ length bs"
proof (induction bs rule: rev_induct)
  case (snoc b bs)
  then have "foldl (\<lambda>a b. 256 * a + b) 0 bs + 1 \<le> 256 ^ length bs" by simp
  then have "256 * (foldl (\<lambda>a b. 256 * a + b) 0 bs + 1) \<le> 256 * 256 ^ length bs" by (intro mult_left_mono) auto
  with snoc.prems show ?case by simp
qed simp

definition byte_digest :: "(nat list \<Rightarrow> nat list) \<Rightarrow> bool" where
  \<comment> \<open>a digest consists of bytes\<close>
  "byte_digest digest = (\<forall>bs. list_all (\<lambda>b. b < 256) (digest bs))"

lemma jitter_bound:
  assumes "config_ok cfg" and "byte_digest digest" and "0 < pc_jitter cfg"
  shows "deterministic_jitter digest cfg g < pc_jitter cfg"
proof -
  let ?d = "take 4 (digest (concat (map (\<lambda>c. utf8_char (of_char c)) g)))"
  have "foldl (\<lambda>a b. 256 * a + b) 0 ?d < 256 ^ length ?d"
    using assms(2) by (intro big_endian_bound) (auto simp: byte_digest_def list_all_iff dest: in_set_takeD)
  also have "\<dots> \<le> 256 ^ 4" by (intro power_increasing) auto
  finally have "foldl (\<lambda>a b. 256 * a + b) 0 ?d < 4294967296" by simp
  then have "rat_of_nat (foldl (\<lambda>a b. 256 * a + b) 0 ?d) < rat_of_nat 4294967296" by (simp only: of_nat_less_iff)
  then have "rat_of_nat (foldl (\<lambda>a b. 256 * a + b) 0 ?d) / 4294967296 < 1" by simp
  then show ?thesis using assms(3) by (simp add: deterministic_jitter_def)
qed

section \<open>The invariant\<close>

definition maps_ok ::
  "(string \<rightharpoonup> rat) \<Rightarrow> (string \<rightharpoonup> int) \<Rightarrow> (string \<rightharpoonup> rat option) \<Rightarrow> string list \<Rightarrow> bool" where
  "maps_ok nd fl lc pend = (dom fl = dom nd \<and> dom lc = dom nd \<and> distinct pend \<and> set pend \<subseteq> dom nd
     \<and> (\<forall>g n. fl g = Some n \<longrightarrow> 0 \<le> n \<and> n \<le> 31))"

definition schedule_ok :: "scheduler \<Rightarrow> bool" where
  "schedule_ok st = (distinct (map fst (sc_next_due st))
     \<and> maps_ok (map_of (sc_next_due st)) (map_of (sc_failures st)) (map_of (sc_last_completed st)) (sc_startup_pending st))"

lemma maps_ok_update:
  assumes "maps_ok nd fl lc pend" and "0 \<le> n" and "n \<le> 31"
  shows "maps_ok (nd(g \<mapsto> d)) (fl(g \<mapsto> n)) (lc(g \<mapsto> t)) pend"
    and "maps_ok (nd(g \<mapsto> d)) (fl(g \<mapsto> n)) (lc(g \<mapsto> t)) (List.insert g pend)"
  using assms by (auto simp: maps_ok_def)

lemma maps_ok_remove:
  assumes "maps_ok nd fl lc pend"
  shows "maps_ok (nd(g := None)) (fl(g := None)) (lc(g := None)) (removeAll g pend)"
    and "maps_ok nd fl lc (removeAll g pend)"
  using assms by (auto simp: maps_ok_def distinct_removeAll)

lemma maps_ok_None: "maps_ok nd fl lc pend \<Longrightarrow> nd g = None \<Longrightarrow> fl g = None \<and> lc g = None"
  unfolding maps_ok_def by (metis domIff)

definition honest_outcome :: "PollOutcome \<Rightarrow> bool" where
  "honest_outcome o1 = (po_refresh_requested o1 = (po_category o1 = ''refresh_requested''))"

definition flight_ok :: "polling_config \<Rightarrow> scheduler \<Rightarrow> bool" where
  "flight_ok cfg st = (distinct (sc_running st) \<and> distinct (map fst (sc_futures st))
     \<and> set (sc_running st) = dom (map_of (sc_futures st)) \<and> int (length (sc_running st)) \<le> pc_max_concurrent cfg
     \<and> (\<forall>g r. map_of (sc_futures st) g = Some (Done r) \<longrightarrow> honest_outcome (future_outcome r)))"

definition counters_bounded :: "poll_counters \<Rightarrow> bool" where
  "counters_bounded n = list_all (\<lambda>v. 0 \<le> v \<and> v \<le> MAX_HEALTH_COUNTER) [pn_started n, pn_completed n, pn_succeeded n,
     pn_current n, pn_changed n, pn_unstable n, pn_unavailable n, pn_invalid n, pn_timed_out n, pn_cancelled n,
     pn_requested n, pn_coalesced n]"

definition successes_add_up :: "poll_counters \<Rightarrow> bool" where
  "successes_add_up n = (pn_succeeded n \<le> pn_completed n
     \<and> (pn_succeeded n < MAX_HEALTH_COUNTER \<longrightarrow> pn_succeeded n = pn_current n + pn_changed n + pn_coalesced n)
     \<and> pn_requested n = pn_changed n)"

definition polls_add_up :: "bool \<Rightarrow> int \<Rightarrow> poll_counters \<Rightarrow> bool" where
  \<comment> \<open>until the counter saturates, started polls are completed or in flight\<close>
  "polls_add_up alive inflight n = (pn_completed n \<le> pn_started n
     \<and> (pn_started n < MAX_HEALTH_COUNTER \<longrightarrow> pn_completed n + inflight \<le> pn_started n
         \<and> (alive \<longrightarrow> pn_completed n + inflight = pn_started n)))"

definition counters_ok :: "scheduler \<Rightarrow> bool" where
  "counters_ok st = (counters_bounded (sc_counters st) \<and> successes_add_up (sc_counters st)
     \<and> polls_add_up (sc_thread st = Alive \<or> \<not> sc_started st) (int (length (sc_running st))) (sc_counters st)
     \<and> (sc_thread st = Alive \<longrightarrow> sc_started st))"

definition scheduler_ok :: "polling_config \<Rightarrow> scheduler \<Rightarrow> bool" where
  "scheduler_ok cfg st = (schedule_ok st \<and> flight_ok cfg st \<and> counters_ok st)"

lemma init_ok: "config_ok cfg \<Longrightarrow> scheduler_ok cfg init_scheduler"
  by (simp add: scheduler_ok_def schedule_ok_def maps_ok_def flight_ok_def counters_ok_def counters_bounded_def
      successes_add_up_def polls_add_up_def init_scheduler_def init_counters_def config_ok_def MAX_HEALTH_COUNTER_def)

lemma increment_bounds: "0 \<le> v \<Longrightarrow> v \<le> MAX_HEALTH_COUNTER \<Longrightarrow> 0 \<le> increment_if b v \<and> increment_if b v \<le> MAX_HEALTH_COUNTER"
  by (simp add: increment_if_def increment_def MAX_HEALTH_COUNTER_def)

lemma add_target_tables:
  assumes "schedule_ok st"
  shows "schedule_ok (add_target now g st)"
proof (cases "map_of (sc_next_due st) g")
  case None
  with assms have "map_of (sc_failures st) g = None" "map_of (sc_last_completed st) g = None"
    using maps_ok_None by (fastforce simp: schedule_ok_def)+
  with assms None show ?thesis
    by (simp add: schedule_ok_def add_target_def set_default_def update_conv' distinct_update maps_ok_update(2))
qed (use assms in \<open>simp add: add_target_def\<close>)

lemma drop_target_tables: "schedule_ok st \<Longrightarrow> schedule_ok (drop_target ts g st)"
  by (simp add: schedule_ok_def drop_target_def delete_conv' distinct_delete maps_ok_remove(1))

lemma sync_tables: "schedule_ok st \<Longrightarrow> schedule_ok (sync_targets ts now st)"
proof -
  assume "schedule_ok st"
  then have "schedule_ok (fold (add_target now) ts st)" by (induction ts arbitrary: st) (auto intro: add_target_tables)
  moreover have "schedule_ok st \<Longrightarrow> schedule_ok (fold (drop_target ts) gs st)" for gs st
    by (induction gs arbitrary: st) (auto intro: drop_target_tables)
  moreover have "schedule_ok st \<Longrightarrow> schedule_ok (st\<lparr>sc_eligible := n\<rparr>)" for st n by (simp add: schedule_ok_def)
  ultimately show ?thesis by (simp add: sync_targets_def Let_def)
qed

lemma sync_ok: "scheduler_ok cfg st \<Longrightarrow> scheduler_ok cfg (sync_targets ts now st)"
  by (simp add: scheduler_ok_def sync_tables flight_ok_def counters_ok_def Let_def)

lemma reschedule_tables:
  assumes "schedule_ok st"
  shows "schedule_ok (reschedule digest cfg g o1 now st)"
proof -
  have "0 \<le> get_failures g st"
    using assms by (auto simp: get_failures_def schedule_ok_def maps_ok_def split: option.splits)
  with assms show ?thesis
    by (simp add: schedule_ok_def reschedule_def Let_def update_conv' distinct_update maps_ok_update(1))
qed

lemma finish_tables:
  assumes "schedule_ok st"
  shows "schedule_ok (finish_poll digest cfg g o1 now st)"
proof -
  have "schedule_ok (st\<lparr>sc_last_category := c, sc_futures := f, sc_running := r, sc_counters := n,
      sc_startup_pending := removeAll g (sc_startup_pending st)\<rparr>)" for c f r n
    using assms by (simp add: schedule_ok_def maps_ok_remove(2))
  then show ?thesis
    unfolding finish_poll_def record_outcome_def Let_def by (simp add: reschedule_tables)
qed

lemma removeAll_distinct_length:
  "distinct xs \<Longrightarrow> x \<in> set xs \<Longrightarrow> int (length (removeAll x xs)) = int (length xs) - 1"
  by (induction xs) (auto simp: removeAll_id)

lemma finish_flight:
  assumes "flight_ok cfg st"
  shows "flight_ok cfg (finish_poll digest cfg g o1 now st)"
proof -
  have "int (length (removeAll g (sc_running st))) \<le> int (length (sc_running st))" by simp
  with assms have "int (length (removeAll g (sc_running st))) \<le> pc_max_concurrent cfg"
    unfolding flight_ok_def by linarith
  with assms show ?thesis
    by (auto simp: flight_ok_def distinct_delete delete_conv' distinct_removeAll)
qed

lemma finish_counters_eq:
  "sc_counters (finish_poll digest cfg g o1 now st) =
     (let n = sc_counters (record_outcome o1 st) in n\<lparr>pn_completed := increment (pn_completed n)\<rparr>)"
  by (simp add: finish_poll_def reschedule_def Let_def)

lemma outcome_counters:
  fixes st o1
  defines "n \<equiv> sc_counters st" and "n' \<equiv> sc_counters (record_outcome o1 st)"
  assumes "counters_bounded n" and "successes_add_up n" and "pn_completed n \<le> MAX_HEALTH_COUNTER" and "honest_outcome o1"
  shows "counters_bounded n'" and "successes_add_up (n'\<lparr>pn_completed := increment (pn_completed n')\<rparr>)"
    and "pn_completed n' = pn_completed n" and "pn_started n' = pn_started n"
proof -
  show "counters_bounded n'"
    using assms(3) unfolding counters_bounded_def n_def n'_def record_outcome_def Let_def
    by (simp add: increment_bounds)
  show same: "pn_completed n' = pn_completed n" "pn_started n' = pn_started n"
    by (simp_all add: n_def n'_def record_outcome_def Let_def)
  let ?c = "po_category o1"
  consider "?c = ''current''" | "?c = ''refresh_requested''" | "?c = ''refresh_coalesced''" | "?c \<notin> set SUCCESS_CATEGORIES"
    by (auto simp: SUCCESS_CATEGORIES_def)
  moreover have "0 \<le> pn_current n" "0 \<le> pn_changed n" "0 \<le> pn_coalesced n" "pn_succeeded n \<le> MAX_HEALTH_COUNTER"
    using assms(3) by (simp_all add: counters_bounded_def)
  ultimately show "successes_add_up (n'\<lparr>pn_completed := increment (pn_completed n')\<rparr>)"
    using assms(4-6) unfolding same successes_add_up_def honest_outcome_def n_def n'_def record_outcome_def Let_def
    by cases (auto simp: increment_if_def increment_def SUCCESS_CATEGORIES_def min_def split: if_splits)
qed

lemma polls_add_up_finish:
  assumes "polls_add_up alive k n" and "1 \<le> k" and "counters_bounded n"
    and "pn_completed n' = pn_completed n" and "pn_started n' = pn_started n"
  shows "polls_add_up alive (k - 1) (n'\<lparr>pn_completed := increment (pn_completed n')\<rparr>)"
proof -
  have "pn_started n \<le> MAX_HEALTH_COUNTER" using assms(3) by (simp add: counters_bounded_def)
  with assms(1,2,4,5) show ?thesis by (auto simp: polls_add_up_def increment_def)
qed

lemma finish_counters:
  assumes "counters_ok st" and "distinct (sc_running st)" and "g \<in> set (sc_running st)" and "honest_outcome o1"
  shows "counters_ok (finish_poll digest cfg g o1 now st)"
proof -
  have len: "int (length (removeAll g (sc_running st))) = int (length (sc_running st)) - 1"
    by (rule removeAll_distinct_length [OF assms(2,3)])
  have pos: "1 \<le> int (length (sc_running st))" using assms(3) by (cases "sc_running st") auto
  have b: "counters_bounded (sc_counters st)" and a: "successes_add_up (sc_counters st)"
    and p: "polls_add_up (sc_thread st = Alive \<or> \<not> sc_started st) (int (length (sc_running st))) (sc_counters st)"
    using assms(1) by (simp_all add: counters_ok_def)
  from b have "pn_completed (sc_counters st) \<le> MAX_HEALTH_COUNTER" by (simp add: counters_bounded_def)
  note o1 = outcome_counters [OF b a this assms(4)]
  show ?thesis
    unfolding counters_ok_def finish_counters_eq finish_frame len Let_def
    using o1 polls_add_up_finish [OF p pos b o1(3,4)] assms(1)
    by (simp add: counters_ok_def counters_bounded_def increment_def MAX_HEALTH_COUNTER_def)
qed

lemma finish_ok:
  assumes "scheduler_ok cfg st" and "g \<in> set (sc_running st)" and "honest_outcome o1"
  shows "scheduler_ok cfg (finish_poll digest cfg g o1 now st)"
proof -
  from assms(1) have t: "schedule_ok st" and f: "flight_ok cfg st" and c: "counters_ok st" by (simp_all add: scheduler_ok_def)
  from f have "distinct (sc_running st)" by (simp add: flight_ok_def)
  from finish_tables [OF t] finish_flight [OF f] finish_counters [OF c this assms(2,3)] show ?thesis
    unfolding scheduler_ok_def by blast
qed

lemma completed_futures_subset: "fst ` set (completed_futures fs) \<subseteq> fst ` set fs"
  by (induction fs rule: completed_futures.induct) auto

lemma completed_futures_distinct: "distinct (map fst fs) \<Longrightarrow> distinct (map fst (completed_futures fs))"
proof (induction fs rule: completed_futures.induct)
  case (2 g r fs)
  with completed_futures_subset [of fs] show ?case by auto
qed simp_all

lemma completed_futures_done: "distinct (map fst fs) \<Longrightarrow> (g, r) \<in> set (completed_futures fs) \<Longrightarrow> map_of fs g = Some (Done r)"
proof (induction fs rule: completed_futures.induct)
  case (2 h r' fs)
  with completed_futures_subset [of fs] show ?case by (auto simp: image_iff) (metis fst_conv subset_iff image_eqI)
next
  case (3 h fs)
  with completed_futures_subset [of fs] show ?case by (auto simp: image_iff)
qed simp

lemma collect_ok:
  assumes "scheduler_ok cfg st"
  shows "scheduler_ok cfg (collect_completed digest cfg now st)"
proof -
  have "scheduler_ok cfg st \<Longrightarrow> distinct (map fst gs) \<Longrightarrow> fst ` set gs \<subseteq> set (sc_running st)
      \<Longrightarrow> \<forall>(g, r) \<in> set gs. honest_outcome (future_outcome r)
      \<Longrightarrow> scheduler_ok cfg (fold (\<lambda>(g, r). finish_poll digest cfg g (future_outcome r) now) gs st)" for gs st
  proof (induction gs arbitrary: st)
    case (Cons x gs)
    obtain g r where x: "x = (g, r)" by force
    from Cons.prems x have "scheduler_ok cfg (finish_poll digest cfg g (future_outcome r) now st)"
      by (intro finish_ok) auto
    moreover have "fst ` set gs \<subseteq> set (sc_running (finish_poll digest cfg g (future_outcome r) now st))"
      using Cons.prems x by auto
    ultimately show ?case using Cons x by simp
  qed simp
  moreover from assms have d: "distinct (map fst (sc_futures st))"
    and h: "\<forall>g r. map_of (sc_futures st) g = Some (Done r) \<longrightarrow> honest_outcome (future_outcome r)"
    and run: "fst ` set (sc_futures st) = set (sc_running st)"
    by (simp_all add: scheduler_ok_def flight_ok_def dom_map_of_conv_image_fst)
  moreover have "\<forall>(g, r) \<in> set (completed_futures (sc_futures st)). honest_outcome (future_outcome r)"
    using completed_futures_done [OF d] h by blast
  ultimately show ?thesis
    using assms completed_futures_subset [of "sc_futures st"] completed_futures_distinct [OF d]
    unfolding collect_completed_def by simp
qed

lemma submit_ok:
  assumes "scheduler_ok cfg st" and "g \<notin> set (sc_running st)" and "int (length (sc_running st)) < pc_max_concurrent cfg"
  shows "scheduler_ok cfg (submit_poll g st)"
proof -
  have "counters_ok (submit_poll g st)"
    using assms unfolding scheduler_ok_def counters_ok_def
    by (auto simp: submit_poll_def counters_bounded_def successes_add_up_def polls_add_up_def increment_def
        MAX_HEALTH_COUNTER_def List.insert_def)
  moreover have "schedule_ok (submit_poll g st)" using assms by (simp add: scheduler_ok_def schedule_ok_def submit_poll_def)
  moreover have "flight_ok cfg (submit_poll g st)"
    using assms by (auto simp: scheduler_ok_def flight_ok_def submit_poll_def distinct_update update_conv' List.insert_def)
  ultimately show ?thesis by (simp add: scheduler_ok_def)
qed

lemma submits_ok:
  assumes "scheduler_ok cfg st" and "distinct gs" and "set gs \<inter> set (sc_running st) = {}"
    and "int (length gs) + int (length (sc_running st)) \<le> pc_max_concurrent cfg"
  shows "scheduler_ok cfg (fold submit_poll gs st)"
  using assms
proof (induction gs arbitrary: st)
  case (Cons g gs)
  then have "scheduler_ok cfg (submit_poll g st)" by (intro submit_ok) auto
  with Cons show ?case by (auto simp: submit_poll_def List.insert_def)
qed simp

lemma due_graphs_set:
  assumes "distinct (map fst (sc_next_due st))"
  shows "set (due_graphs now st) = {g. g \<notin> set (sc_running st) \<and> (\<exists>d \<le> now. map_of (sc_next_due st) g = Some d)}"
    and "distinct (due_graphs now st)"
proof -
  show "set (due_graphs now st) = {g. g \<notin> set (sc_running st) \<and> (\<exists>d \<le> now. map_of (sc_next_due st) g = Some d)}"
    using assms by (force simp: due_graphs_def List.member_iff)
  show "distinct (due_graphs now st)"
    using assms by (simp add: due_graphs_def distinct_map_filter)
qed

lemma selected_graphs_facts:
  assumes "scheduler_ok cfg st"
  shows "distinct (selected_graphs cfg now st)" and "set (selected_graphs cfg now st) \<subseteq> set (due_graphs now st)"
    and "int (length (selected_graphs cfg now st)) \<le> max 0 (poll_capacity cfg st)"
proof -
  have d: "distinct (due_graphs now st)" using assms by (simp add: due_graphs_set scheduler_ok_def schedule_ok_def)
  then show "distinct (selected_graphs cfg now st)" by (simp add: selected_graphs_def Let_def)
  show "set (selected_graphs cfg now st) \<subseteq> set (due_graphs now st)"
    by (auto simp: selected_graphs_def Let_def dest: in_set_takeD split: if_splits)
  show "int (length (selected_graphs cfg now st)) \<le> max 0 (poll_capacity cfg st)"
    by (auto simp: selected_graphs_def Let_def)
qed

lemma admit_ok:
  assumes "scheduler_ok cfg st"
  shows "scheduler_ok cfg (admit_due cfg now st)"
proof -
  let ?st = "st\<lparr>sc_polls_due := int (length (due_graphs now st))\<rparr>"
  have "scheduler_ok cfg ?st"
    using assms by (simp add: scheduler_ok_def schedule_ok_def flight_ok_def counters_ok_def)
  moreover have "set (selected_graphs cfg now st) \<inter> set (sc_running st) = {}"
    using selected_graphs_facts(2) [OF assms, of now] assms by (auto simp: due_graphs_set scheduler_ok_def schedule_ok_def)
  moreover have "int (length (selected_graphs cfg now st)) + int (length (sc_running st)) \<le> pc_max_concurrent cfg"
    using selected_graphs_facts(3) [OF assms, of now] assms
    by (auto simp: poll_capacity_def scheduler_ok_def flight_ok_def)
  ultimately show ?thesis
    unfolding admit_due_def using selected_graphs_facts(1) [OF assms] by (intro submits_ok) simp_all
qed

lemma iteration_ok:
  assumes "scheduler_ok cfg st" and "iteration digest cfg now configured st = Inr st'"
  shows "scheduler_ok cfg st'"
proof -
  from assms(2) obtain targets st1 where t: "target_ids configured st = Inr (targets, st1)"
    and st': "st' = admit_due cfg now (collect_completed digest cfg now (sync_targets targets now st1))"
    by (auto simp: iteration_def result_simps)
  have "scheduler_ok cfg (st\<lparr>sc_eligible := 0, sc_last_category := c\<rparr>)" for c
    using assms(1) by (simp add: scheduler_ok_def schedule_ok_def flight_ok_def counters_ok_def)
  with t assms(1) have "scheduler_ok cfg st1"
    by (auto simp: target_ids_def result_simps split: sum.splits if_splits)
  with st' show ?thesis by (simp add: sync_ok collect_ok admit_ok)
qed

section \<open>Runs of the scheduler\<close>

text \<open>
  The scheduler thread, its workers and its owner take turns: the owner starts and stops the scheduler, the
  thread runs its loop, and a worker's poll of a graph ends with what \<^const>\<open>reconcile_graph\<close> returned or raised,
  in whatever surroundings.
\<close>

inductive poll_step :: "(nat list \<Rightarrow> nat list) \<Rightarrow> polling_config \<Rightarrow> scheduler \<Rightarrow> scheduler \<Rightarrow> bool"
  for digest :: "nat list \<Rightarrow> nat list" and cfg :: polling_config where
  start: "start_polling st = Inr st' \<Longrightarrow> poll_step digest cfg st st'"
| signal: "poll_step digest cfg st (signal_stop st)"
| stopped: "finish_stop st = (r, st') \<Longrightarrow> poll_step digest cfg st st'"
| turn: "sc_thread st = Alive \<Longrightarrow> poll_step digest cfg st (run_loop_step digest cfg now configured st)"
| worker: "reconcile_graph w sha256 new_id cancelled rec g s = (r, s') \<Longrightarrow> honest_source rec g
    \<Longrightarrow> poll_step digest cfg st (complete_poll g r st)"

lemma honest_worker:
  assumes "reconcile_graph w sha256 new_id cancelled rec g s = (r, s')" and "honest_source rec g"
  shows "honest_outcome (future_outcome (poll_one r))"
  using assms outcome_flag
  by (cases r) (auto simp: future_outcome_def poll_one_def honest_outcome_def poll_failed_def)

lemma complete_ok:
  assumes "scheduler_ok cfg st" and "honest_outcome (future_outcome (poll_one r))"
  shows "scheduler_ok cfg (complete_poll g r st)"
  using assms
  by (auto simp: complete_poll_def scheduler_ok_def schedule_ok_def flight_ok_def counters_ok_def distinct_update update_conv'
      simp del: map_of_eq_Some_iff split: if_splits)

lemma run_finally_ok:
  assumes "scheduler_ok cfg st" and "config_ok cfg" and "sc_started st"
  shows "scheduler_ok cfg (run_finally st)"
  using assms
  by (auto simp: run_finally_def scheduler_ok_def schedule_ok_def maps_ok_def flight_ok_def counters_ok_def polls_add_up_def config_ok_def)

lemma run_failed_ok: "scheduler_ok cfg st \<Longrightarrow> scheduler_ok cfg (run_failed st)"
  by (simp add: run_failed_def scheduler_ok_def schedule_ok_def flight_ok_def counters_ok_def)

lemma start_polling_Inr:
  assumes "start_polling st = Inr st'"
  obtains "sc_thread st \<noteq> Alive" and "\<not> sc_started st"
    and "st' = st\<lparr>sc_started := True, sc_status := ''running'', sc_stop := False, sc_thread := Alive\<rparr>"
  using assms by (auto simp: start_polling_def result_simps)

lemma poll_step_ok:
  assumes "poll_step digest cfg st st'" and "config_ok cfg" and "scheduler_ok cfg st"
  shows "scheduler_ok cfg st'"
  using assms(1)
proof cases
  case start
  with assms(3) show ?thesis
    by (elim start_polling_Inr) (simp add: scheduler_ok_def schedule_ok_def flight_ok_def counters_ok_def)
next
  case signal
  with assms(3) show ?thesis by (simp add: signal_stop_def scheduler_ok_def schedule_ok_def flight_ok_def counters_ok_def)
next
  case (stopped r)
  from assms(3) have "sc_thread st \<noteq> Alive \<Longrightarrow> scheduler_ok cfg (st\<lparr>sc_thread := NoThread, sc_status := status\<rparr>)" for status
    by (simp add: scheduler_ok_def schedule_ok_def flight_ok_def counters_ok_def)
  with stopped assms(3) show ?thesis by (auto simp: finish_stop_def split: if_splits)
next
  case (turn now configured)
  then have "sc_started st" using assms(3) by (simp add: scheduler_ok_def counters_ok_def)
  with turn assms(2,3) show ?thesis
    by (auto simp: run_loop_step_def run_failed_def intro!: run_finally_ok run_failed_ok [unfolded run_failed_def]
        dest: iteration_ok split: sum.splits)
next
  case worker
  with assms(3) show ?thesis by (auto intro: complete_ok honest_worker)
qed

lemma polling_runs_ok:
  assumes "config_ok cfg" and "(poll_step digest cfg)\<^sup>*\<^sup>* init_scheduler st"
  shows "scheduler_ok cfg st"
  using assms(2) by (induction rule: rtranclp_induct) (auto intro: init_ok poll_step_ok assms(1))

text \<open>
  Claim C24 (polling stays within its bounds): in every state a scheduler with an accepted configuration can
  reach, at most the configured number of polls is in flight, each with its future, no graph is polled
  twice at a time, and no graph counts more than 31 failures. Every counter stays between zero and its ceiling, and until a
  counter saturates the counters add up: a running scheduler has started exactly the polls that are completed
  or in flight, every successful poll was current, changed or coalesced, and requested refreshes are exactly
  the changes found.
\<close>

theorem polls_in_bounds:
  assumes "make_config a b c d e f g h k = Inr cfg" and "(poll_step digest cfg)\<^sup>*\<^sup>* init_scheduler st"
  shows "int (length (sc_running st)) \<le> pc_max_concurrent cfg \<and> distinct (sc_running st)
     \<and> set (sc_running st) = dom (map_of (sc_futures st))
     \<and> dom (map_of (sc_failures st)) = dom (map_of (sc_next_due st))
     \<and> (\<forall>g n. map_of (sc_failures st) g = Some n \<longrightarrow> 0 \<le> n \<and> n \<le> 31)
     \<and> counters_bounded (sc_counters st)
     \<and> (sc_thread st = Alive \<and> pn_started (sc_counters st) < MAX_HEALTH_COUNTER \<longrightarrow>
          pn_started (sc_counters st) = pn_completed (sc_counters st) + int (length (sc_running st)))
     \<and> (pn_succeeded (sc_counters st) < MAX_HEALTH_COUNTER \<longrightarrow> pn_succeeded (sc_counters st)
          = pn_current (sc_counters st) + pn_changed (sc_counters st) + pn_coalesced (sc_counters st))
     \<and> pn_requested (sc_counters st) = pn_changed (sc_counters st)"
  using polling_runs_ok [OF make_config_ok [OF assms(1)] assms(2)]
  unfolding scheduler_ok_def schedule_ok_def maps_ok_def flight_ok_def counters_ok_def successes_add_up_def polls_add_up_def
  by (elim conjE) (intro conjI, simp_all)

definition demo_polling :: polling_config where
  \<comment> \<open>the defaults of the constructor, with one poll at a time\<close>
  "demo_polling = \<lparr>pc_interval = 60, pc_retry = 15, pc_jitter = 5, pc_max_concurrent = 1, pc_startup_batch = 1,
     pc_max_retry = 900, pc_multiplier = 2, pc_wake = 1 / 4, pc_shutdown_timeout = 35\<rparr>"

lemma demo_polling_made: "make_config 60 15 5 1 2 900 2 (1 / 4) 35 = Inr demo_polling"
  by (simp add: make_config_def demo_polling_def guardE_def)

definition demo_digest_bytes :: "nat list \<Rightarrow> nat list" where
  "demo_digest_bytes bs = replicate 32 0"

definition demo_targets :: "(pyval \<times> pyval) list result" where
  "demo_targets = Inr [(VStr ''b'', VStr ''polling''), (VStr ''a'', VStr ''continuous''), (VStr ''c'', VStr ''manual'')]"

definition demo_turn :: scheduler where
  \<comment> \<open>after the first turn: two graphs are due and one of them is polled\<close>
  "demo_turn = run_loop_step demo_digest_bytes demo_polling 100 demo_targets
     (init_scheduler\<lparr>sc_started := True, sc_status := ''running'', sc_thread := Alive\<rparr>)"

lemma demo_turn_run: "(poll_step demo_digest_bytes demo_polling)\<^sup>*\<^sup>* init_scheduler demo_turn"
proof -
  let ?st = "init_scheduler\<lparr>sc_started := True, sc_status := ''running'', sc_thread := Alive\<rparr>"
  have "start_polling init_scheduler = Inr ?st" by (simp add: start_polling_def init_scheduler_def guardE_def)
  then have "poll_step demo_digest_bytes demo_polling init_scheduler ?st" by (rule poll_step.start)
  moreover have "poll_step demo_digest_bytes demo_polling ?st demo_turn"
    unfolding demo_turn_def by (rule poll_step.turn) simp
  ultimately show ?thesis by (meson converse_rtranclp_into_rtranclp r_into_rtranclp)
qed

lemma demo_turn_state: "sc_running demo_turn = [''a'']" "sc_thread demo_turn = Alive" "pn_started (sc_counters demo_turn) = 1"
  by code_simp+

theorem polls_in_bounds_witness:
  "sc_running demo_turn = [''a''] \<and> int (length (sc_running demo_turn)) \<le> pc_max_concurrent demo_polling
     \<and> pn_started (sc_counters demo_turn) = pn_completed (sc_counters demo_turn) + 1"
  using polls_in_bounds [OF demo_polling_made demo_turn_run] demo_turn_state by (simp add: MAX_HEALTH_COUNTER_def)

section \<open>Backoff\<close>

abbreviation retries :: "PollOutcome \<times> rat \<Rightarrow> bool" where
  "retries \<equiv> \<lambda>(o1, now). po_category o1 \<in> set RETRY_CATEGORIES"

definition polls_of :: "(nat list \<Rightarrow> nat list) \<Rightarrow> polling_config \<Rightarrow> string \<Rightarrow> (PollOutcome \<times> rat) list \<Rightarrow> scheduler \<Rightarrow> scheduler" where
  \<comment> \<open>the polls of one graph that end one after the other\<close>
  "polls_of digest cfg g outcomes st = fold (\<lambda>(o1, now). finish_poll digest cfg g o1 now) outcomes st"

lemma finish_own:
  assumes "map_of (sc_next_due st) g \<noteq> None"
  shows "map_of (sc_next_due (finish_poll digest cfg g o1 now st)) g = Some (now
      + (if po_category o1 \<in> set RETRY_CATEGORIES then retry_delay cfg (min (get_failures g st + 1) 31) else pc_interval cfg)
      + deterministic_jitter digest cfg g)"
    and "get_failures g (finish_poll digest cfg g o1 now st) =
      (if po_category o1 \<in> set RETRY_CATEGORIES then min (get_failures g st + 1) 31 else 0)"
  using assms
  by (auto simp: finish_poll_def record_outcome_def reschedule_def get_failures_def Let_def List.member_iff)

lemma failures_counted:
  assumes "map_of (sc_next_due st) g \<noteq> None" and "get_failures g st = 0"
  shows "map_of (sc_next_due (polls_of digest cfg g outcomes st)) g \<noteq> None
    \<and> get_failures g (polls_of digest cfg g outcomes st) = int (min (length (takeWhile retries (rev outcomes))) 31)"
proof (induction outcomes rule: rev_induct)
  case Nil
  then show ?case using assms by (simp add: polls_of_def)
next
  case (snoc x outcomes)
  obtain o1 now where x: "x = (o1, now)" by force
  from snoc have "map_of (sc_next_due (polls_of digest cfg g outcomes st)) g \<noteq> None" by blast
  note own = finish_own [OF this]
  show ?case using snoc own by (auto simp: polls_of_def x)
qed

text \<open>
  Claim C25 (polling backs off): after any sequence of polls of a scheduled graph that starts without failures and
  whose last poll ends at \<open>now\<close>, the graph is due again after the interval when that poll did not fail, and after
  the retry delay multiplied once for every further consecutive failure when it did, at most 30 times and never
  above the configured maximum. The jitter added to it is less than the configured one.
\<close>

theorem polling_backs_off:
  assumes "make_config a b c d e f m h i = Inr cfg" and "byte_digest digest"
    and "map_of (sc_next_due st) g \<noteq> None" and "get_failures g st = 0"
    and "k = length (takeWhile retries (rev (outcomes @ [(o1, now)])))"
    and "delay = (if k = 0 then pc_interval cfg else min (pc_max_retry cfg) (pc_retry cfg * pc_multiplier cfg ^ (min k 31 - 1)))"
  shows "\<exists>t. map_of (sc_next_due (polls_of digest cfg g (outcomes @ [(o1, now)]) st)) g = Some t
    \<and> now + delay \<le> t \<and> (t < now + delay + pc_jitter cfg \<or> t = now + delay)
    \<and> (k \<noteq> 0 \<longrightarrow> pc_retry cfg \<le> delay \<and> delay \<le> pc_max_retry cfg)"
proof -
  have ok: "config_ok cfg" using assms(1) by (rule make_config_ok)
  let ?st = "polls_of digest cfg g outcomes st" and ?j = "deterministic_jitter digest cfg g"
  have st: "map_of (sc_next_due ?st) g \<noteq> None"
    and n: "get_failures g ?st = int (min (length (takeWhile retries (rev outcomes))) 31)"
    using failures_counted [OF assms(3,4)] by blast+
  have "map_of (sc_next_due (polls_of digest cfg g (outcomes @ [(o1, now)]) st)) g = Some (now + delay + ?j)"
  proof (cases "po_category o1 \<in> set RETRY_CATEGORIES")
    case True
    then have "k = Suc (length (takeWhile retries (rev outcomes)))" using assms(5) by simp
    then have "nat (min (get_failures g ?st + 1) 31 - 1) = min k 31 - 1" and "k \<noteq> 0" unfolding n by linarith+
    then have "retry_delay cfg (min (get_failures g ?st + 1) 31) = delay" by (simp add: assms(6) retry_delay_def)
    with True finish_own(1) [OF st, of digest cfg o1 now] show ?thesis by (simp add: polls_of_def)
  next
    case False
    with finish_own(1) [OF st, of digest cfg o1 now] assms(5,6) show ?thesis by (simp add: polls_of_def)
  qed
  moreover have "?j < pc_jitter cfg \<or> ?j = 0"
    using jitter_bound [OF ok assms(2)] ok by (cases "pc_jitter cfg = 0") (auto simp: config_ok_def deterministic_jitter_def)
  moreover have "k \<noteq> 0 \<longrightarrow> pc_retry cfg \<le> delay \<and> delay \<le> pc_max_retry cfg"
    using retry_delay_bounds [OF ok, of "int (min k 31)"] assms(6) by (auto simp: retry_delay_def nat_diff_distrib')
  ultimately show ?thesis using jitter_nonneg [OF ok, of digest g] by auto
qed

theorem polling_backs_off_witness:
  "\<exists>t. map_of (sc_next_due (polls_of demo_digest_bytes demo_polling ''a''
        ([(poll_failed, 110), (poll_failed, 130)] @ [(poll_failed, 165)]) demo_turn)) ''a'' = Some t
     \<and> 165 + 60 \<le> t \<and> t < 165 + 60 + 5"
proof -
  have st: "map_of (sc_next_due demo_turn) ''a'' \<noteq> None" "get_failures ''a'' demo_turn = 0" by code_simp+
  have k: "3 = length (takeWhile retries (rev ([(poll_failed, 110), (poll_failed, 130)] @ [(poll_failed, 165)])))"
    by (simp add: poll_failed_def poll_outcome_def RETRY_CATEGORIES_def)
  have bytes: "byte_digest demo_digest_bytes" by (simp add: byte_digest_def demo_digest_bytes_def list_all_iff)
  from polling_backs_off [OF demo_polling_made bytes st k refl] show ?thesis by (auto simp: demo_polling_def)
qed

end
