(* ===== verification/Polling_Fairness.thy ===== *)
theory Polling_Fairness
  imports Polling_Properties
begin

text \<open>
  Fairness of polling: a graph that is due is overtaken by every other graph at most once. The argument is
  that of a waiting line, stated as a locale and discharged for the scheduler.
\<close>

section \<open>Waiting lines\<close>

text \<open>
  A line serves some of its members at every turn. The contract: as long as somebody waits, a turn that leaves
  them out serves only members ahead of them, each once, and nobody gets ahead of them anew. The flag says
  whether the turn had room for anybody at all, in which case it served somebody.
\<close>

inductive unserved ::
  "('g \<Rightarrow> 'e \<Rightarrow> 's \<Rightarrow> bool) \<Rightarrow> ('e \<Rightarrow> 's \<Rightarrow> bool \<times> 'g list \<times> 's) \<Rightarrow> 'g \<Rightarrow> 's \<Rightarrow> nat \<Rightarrow> 'g list \<Rightarrow> 's \<Rightarrow> bool"
  for allowed serve g where
  \<comment> \<open>allowed turns that leave \<open>g\<close> out: how many had room, and whom they served\<close>
  none: "unserved allowed serve g s 0 [] s"
| more: "unserved allowed serve g s n served s' \<Longrightarrow> allowed g e s' \<Longrightarrow> serve e s' = (room, xs, s'') \<Longrightarrow> g \<notin> set xs
    \<Longrightarrow> unserved allowed serve g s (if room then Suc n else n) (served @ xs) s''"

locale waiting_line =
  fixes waits :: "'g \<Rightarrow> 's \<Rightarrow> bool"
    and ahead :: "'g \<Rightarrow> 's \<Rightarrow> 'g set"
    and allowed :: "'g \<Rightarrow> 'e \<Rightarrow> 's \<Rightarrow> bool"
    and serve :: "'e \<Rightarrow> 's \<Rightarrow> bool \<times> 'g list \<times> 's"
  assumes ahead_finite: "waits g s \<Longrightarrow> finite (ahead g s)"
    and serve_others: "waits g s \<Longrightarrow> allowed g e s \<Longrightarrow> serve e s = (room, xs, s') \<Longrightarrow> g \<notin> set xs
      \<Longrightarrow> waits g s' \<and> distinct xs \<and> set xs \<subseteq> ahead g s \<and> ahead g s' \<subseteq> ahead g s - set xs \<and> (room \<longrightarrow> xs \<noteq> [])"
begin

lemma overtaken_once:
  assumes "unserved allowed serve g s n served s'" and "waits g s"
  shows "waits g s' \<and> distinct served \<and> set served \<subseteq> ahead g s \<and> ahead g s' \<subseteq> ahead g s - set served
    \<and> n \<le> length served"
  using assms
proof induction
  case (more s n served s' e room xs s'')
  then have s': "waits g s'" "distinct served" "set served \<subseteq> ahead g s" "ahead g s' \<subseteq> ahead g s - set served"
    "n \<le> length served" by blast+
  from serve_others [OF s'(1) more.hyps(2,3,4)] s' show ?case by (cases xs) (auto split: if_splits)
qed simp

lemma soon_served:
  assumes "unserved allowed serve g s n served s'" and "waits g s"
  shows "n \<le> card (ahead g s)"
proof -
  note o = overtaken_once [OF assms]
  then have "length served = card (set served)" by (simp add: distinct_card)
  also have "\<dots> \<le> card (ahead g s)" using o ahead_finite [OF assms(2)] by (intro card_mono) auto
  finally show ?thesis using o by simp
qed

end

section \<open>The scheduler as a waiting line\<close>

datatype poll_event = Worker string "PollOutcome result" | Turn rat "(pyval \<times> pyval) list result"

definition prepared :: "(nat list \<Rightarrow> nat list) \<Rightarrow> polling_config \<Rightarrow> rat \<Rightarrow> string list \<Rightarrow> scheduler \<Rightarrow> scheduler" where
  \<comment> \<open>the state in which a turn admits polls\<close>
  "prepared digest cfg now targets st = collect_completed digest cfg now (sync_targets targets now st)"

definition serve_polls ::
  "(nat list \<Rightarrow> nat list) \<Rightarrow> polling_config \<Rightarrow> poll_event \<Rightarrow> scheduler \<Rightarrow> bool \<times> string list \<times> scheduler" where
  \<comment> \<open>a turn of the loop or the end of a worker; whether a slot was free, and the polls started\<close>
  "serve_polls digest cfg e st =
     (case e of
        Worker g r \<Rightarrow> (False, [], complete_poll g r st)
      | Turn now configured \<Rightarrow>
          (case target_ids configured st of
             Inl err \<Rightarrow> (False, [], run_loop_step digest cfg now configured st)
           | Inr (targets, st1) \<Rightarrow>
               let st2 = prepared digest cfg now targets st1
               in (0 < poll_capacity cfg st2, selected_graphs cfg now st2, run_loop_step digest cfg now configured st)))"

definition poll_waits :: "polling_config \<Rightarrow> string \<Rightarrow> scheduler \<Rightarrow> bool" where
  "poll_waits cfg g st = (config_ok cfg \<and> scheduler_ok cfg st \<and> map_of (sc_next_due st) g \<noteq> None \<and> g \<notin> set (sc_running st))"

definition poll_ahead :: "string \<Rightarrow> scheduler \<Rightarrow> string set" where
  "poll_ahead g st = {h. map_of (sc_next_due st) h \<noteq> None \<and> h \<notin> set (sc_running st) \<and> priority_key st h < priority_key st g}"

definition poll_allowed :: "string \<Rightarrow> poll_event \<Rightarrow> scheduler \<Rightarrow> bool" where
  \<comment> \<open>the graph stays configured and has been due before the turn; workers report honestly\<close>
  "poll_allowed g e st =
     (case e of
        Worker h r \<Rightarrow> honest_outcome (future_outcome (poll_one r))
      | Turn now configured \<Rightarrow> \<not> sc_stop st
          \<and> (\<exists>targets st1. target_ids configured st = Inr (targets, st1) \<and> g \<in> set targets)
          \<and> the (map_of (sc_next_due st) g) < now)"

lemma finishes_lookup:
  fixes digest cfg now
  defines "finish \<equiv> fold (\<lambda>(g, r). finish_poll digest cfg g (future_outcome r) now)"
  assumes "config_ok cfg"
  shows "set (sc_running (finish gs st)) = set (sc_running st) - fst ` set gs"
    and "h \<notin> fst ` set gs \<Longrightarrow> map_of (sc_next_due (finish gs st)) h = map_of (sc_next_due st) h
      \<and> map_of (sc_failures (finish gs st)) h = map_of (sc_failures st) h
      \<and> map_of (sc_last_completed (finish gs st)) h = map_of (sc_last_completed st) h"
    and "h \<in> fst ` set gs \<Longrightarrow> map_of (sc_next_due (finish gs st)) h = Some t \<Longrightarrow> now < t"
proof -
  show "set (sc_running (finish gs st)) = set (sc_running st) - fst ` set gs"
    unfolding finish_def by (induction gs arbitrary: st) auto
  show keep: "map_of (sc_next_due (finish gs st)) h = map_of (sc_next_due st) h
      \<and> map_of (sc_failures (finish gs st)) h = map_of (sc_failures st) h
      \<and> map_of (sc_last_completed (finish gs st)) h = map_of (sc_last_completed st) h" if "h \<notin> fst ` set gs" for gs st
    using that unfolding finish_def by (induction gs arbitrary: st) (auto simp: finish_other)
  have later: "now < t" if "map_of (sc_next_due (finish_poll digest cfg h o1 now st)) h = Some t" for h o1 st t
  proof -
    have "map_of (sc_next_due st) h \<noteq> None"
      using that by (auto simp: finish_poll_def record_outcome_def Let_def split: if_splits)
    from finish_own(1) [OF this, of digest cfg o1 now] that show ?thesis
      using retry_delay_bounds(1) [OF assms(2), of "min (get_failures h st + 1) 31"] jitter_nonneg [OF assms(2), of digest h] assms(2)
      by (auto simp: config_ok_def split: if_splits)
  qed
  show "now < t" if "h \<in> fst ` set gs" "map_of (sc_next_due (finish gs st)) h = Some t"
    using that
  proof (induction gs arbitrary: st)
    case (Cons x gs)
    obtain g r where x: "x = (g, r)" by force
    show ?case
    proof (cases "h \<in> fst ` set gs")
      case False
      with Cons.prems x have "h = g" by auto
      moreover from Cons.prems(2) x have "map_of (sc_next_due (finish gs (finish_poll digest cfg g (future_outcome r) now st))) h = Some t"
        by (simp add: finish_def)
      ultimately show ?thesis using keep [OF False] later by auto
    next
      case True
      with Cons x show ?thesis by (simp add: finish_def)
    qed
  qed simp
qed

lemma prepared_ok: "scheduler_ok cfg st \<Longrightarrow> scheduler_ok cfg (prepared digest cfg now ts st)"
  by (simp add: prepared_def collect_ok sync_ok)

lemma prepared_cases:
  assumes "config_ok cfg" and "scheduler_ok cfg st" and "map_of (sc_next_due (prepared digest cfg now ts st)) h = Some t"
    and "h \<notin> set (sc_running (prepared digest cfg now ts st))"
  obtains (waited) "h \<notin> set (sc_running st)" and "map_of (sc_next_due st) h = Some t" and "h \<in> set ts"
    | (later) "now \<le> t"
proof (cases "h \<in> fst ` set (completed_futures (sc_futures st))")
  case True
  have "now < t" by (rule finishes_lookup(3) [OF assms(1) True]) (use assms(3) in \<open>simp add: prepared_def collect_completed_def\<close>)
  then show thesis by (intro later) simp
next
  case False
  note same = finishes_lookup [OF assms(1), where gs = "completed_futures (sc_futures st)" and st = "sync_targets ts now st"]
  from same(2) [OF False] assms(3) have "map_of (sc_next_due (sync_targets ts now st)) h = Some t"
    by (simp add: prepared_def collect_completed_def)
  moreover from same(1) False assms(4) have "h \<notin> set (sc_running st)"
    by (simp add: prepared_def collect_completed_def)
  ultimately show thesis using waited later by (auto simp: sync_lookup split: if_splits option.splits)
qed

lemma prepared_keeps:
  assumes "config_ok cfg" and "scheduler_ok cfg st" and "h \<notin> set (sc_running st)" and "h \<in> set ts"
    and "map_of (sc_next_due st) h \<noteq> None"
  shows "priority_key (prepared digest cfg now ts st) h = priority_key st h"
    and "map_of (sc_next_due (prepared digest cfg now ts st)) h = map_of (sc_next_due st) h"
    and "h \<notin> set (sc_running (prepared digest cfg now ts st))"
proof -
  have "set (sc_running st) = fst ` set (sc_futures st)"
    using assms(2) by (simp add: scheduler_ok_def flight_ok_def dom_map_of_conv_image_fst)
  then have h: "h \<notin> fst ` set (completed_futures (sc_futures st))"
    using assms(3) completed_futures_subset [of "sc_futures st"] by blast
  note same = finishes_lookup(1,2) [OF assms(1), where gs = "completed_futures (sc_futures st)" and st = "sync_targets ts now st"]
  from same(2) [OF h] assms(4,5) sync_same [OF assms(4,5), of now] sync_lookup [of ts now st h]
  show "priority_key (prepared digest cfg now ts st) h = priority_key st h"
    and due: "map_of (sc_next_due (prepared digest cfg now ts st)) h = map_of (sc_next_due st) h"
    by (auto simp: prepared_def collect_completed_def priority_key_def get_failures_def split: option.splits)
  show "h \<notin> set (sc_running (prepared digest cfg now ts st))"
    using same(1) assms(3) by (simp add: prepared_def collect_completed_def)
qed

lemma prepared_ahead:
  assumes "config_ok cfg" and "scheduler_ok cfg st" and "g \<notin> set (sc_running st)" and "g \<in> set ts"
    and "map_of (sc_next_due st) g = Some d" and "d < now"
  shows "poll_ahead g (prepared digest cfg now ts st) \<subseteq> poll_ahead g st"
proof
  let ?p = "prepared digest cfg now ts st"
  have due: "map_of (sc_next_due st) g \<noteq> None" using assms(5) by simp
  note g = prepared_keeps [OF assms(1-4) due, of digest now]
  fix h assume h: "h \<in> poll_ahead g ?p"
  then obtain t where t: "map_of (sc_next_due ?p) h = Some t" "h \<notin> set (sc_running ?p)" and lt: "priority_key ?p h < priority_key ?p g"
    by (auto simp: poll_ahead_def)
  from assms(1,2) t show "h \<in> poll_ahead g st"
  proof (cases rule: prepared_cases)
    case waited
    then have "map_of (sc_next_due st) h \<noteq> None" by simp
    from prepared_keeps(1) [OF assms(1,2) waited(1,3) this, of digest now] lt g waited show ?thesis
      by (simp add: poll_ahead_def)
  next
    case later
    with lt t(1) g(1,2) assms(5,6) show ?thesis by (auto simp: priority_key_def less_prod_def less_eq_prod_def)
  qed
qed

lemma take_sort_key_least:
  fixes k :: "'a \<Rightarrow> 'b::linorder"
  assumes "x \<in> set (take n (sort_key k xs))" and "y \<in> set xs" and "y \<notin> set (take n (sort_key k xs))"
  shows "k x \<le> k y"
proof -
  have "sorted (map k (take n (sort_key k xs) @ drop n (sort_key k xs)))" by simp
  moreover have "y \<in> set (drop n (sort_key k xs))"
    using assms(2,3) append_take_drop_id [of n "sort_key k xs"] by (metis Un_iff set_append set_sort)
  ultimately show ?thesis using assms(1) by (simp only: map_append sorted_append) auto
qed

lemma priority_key_inj: "priority_key st x = priority_key st y \<Longrightarrow> x = y"
  by (simp add: priority_key_def)

lemma selected_ahead:
  assumes "scheduler_ok cfg st" and "map_of (sc_next_due st) g = Some d" and "d \<le> now" and "g \<notin> set (sc_running st)"
    and "g \<notin> set (selected_graphs cfg now st)"
  shows "set (selected_graphs cfg now st) \<subseteq> poll_ahead g st"
proof
  fix x assume x: "x \<in> set (selected_graphs cfg now st)"
  have dist: "distinct (map fst (sc_next_due st))" using assms(1) by (simp add: scheduler_ok_def schedule_ok_def)
  have g: "g \<in> set (due_graphs now st)" using assms(2-4) by (simp add: due_graphs_set [OF dist])
  have "priority_key st x \<le> priority_key st g"
    using x assms(5) g by (auto simp: selected_graphs_def Let_def split: if_splits intro: take_sort_key_least)
  moreover have "x \<noteq> g" using x assms(5) by blast
  ultimately have "priority_key st x < priority_key st g" using priority_key_inj by (metis order_le_imp_less_or_eq)
  moreover have "x \<in> set (due_graphs now st)" using x selected_graphs_facts(2) [OF assms(1)] by blast
  ultimately show "x \<in> poll_ahead g st" by (auto simp: due_graphs_set [OF dist] poll_ahead_def simp del: map_of_eq_Some_iff)
qed

lemma selected_some:
  assumes "config_ok cfg" and "0 < poll_capacity cfg st" and "due_graphs now st \<noteq> []"
  shows "selected_graphs cfg now st \<noteq> []"
proof -
  have "sort_key (priority_key st) (due_graphs now st) \<noteq> []" using assms(3) by (metis length_0_conv length_sort)
  with assms(1,2) show ?thesis by (auto simp: selected_graphs_def config_ok_def Let_def min_def)
qed

lemma submits_lookup:
  "set (sc_running (fold submit_poll gs st)) = set (sc_running st) \<union> set gs"
  "sc_next_due (fold submit_poll gs st) = sc_next_due st" "sc_failures (fold submit_poll gs st) = sc_failures st"
  "sc_last_completed (fold submit_poll gs st) = sc_last_completed st"
  by (induction gs arbitrary: st) (auto simp: submit_poll_def)

lemma admit_lookup:
  "set (sc_running (admit_due cfg now st)) = set (sc_running st) \<union> set (selected_graphs cfg now st)"
  "sc_next_due (admit_due cfg now st) = sc_next_due st" "priority_key (admit_due cfg now st) h = priority_key st h"
  by (simp_all add: admit_due_def submits_lookup priority_key_def get_failures_def)

lemma turn_serves:
  assumes w: "poll_waits cfg g st" and allowed: "poll_allowed g (Turn now configured) st"
    and serve: "serve_polls digest cfg (Turn now configured) st = (room, xs, st')" and g: "g \<notin> set xs"
  shows "poll_waits cfg g st' \<and> distinct xs \<and> set xs \<subseteq> poll_ahead g st \<and> poll_ahead g st' \<subseteq> poll_ahead g st - set xs
    \<and> (room \<longrightarrow> xs \<noteq> [])"
proof -
  from w obtain d where cfg: "config_ok cfg" and ok: "scheduler_ok cfg st" and d: "map_of (sc_next_due st) g = Some d"
    and idle: "g \<notin> set (sc_running st)" by (auto simp: poll_waits_def)
  from allowed d obtain ts st1 where stop: "\<not> sc_stop st" and ts1: "target_ids configured st = Inr (ts, st1)"
    and gts: "g \<in> set ts" and now: "d < now" by (auto simp: poll_allowed_def)
  have st1: "st1 = st" using ts1 gts by (auto simp: target_ids_def result_simps split: sum.splits if_splits)
  let ?p = "prepared digest cfg now ts st"
  have p: "scheduler_ok cfg ?p" using prepared_ok [OF ok] .
  from ts1 st1 stop serve have room: "room = (0 < poll_capacity cfg ?p)" and xs: "xs = selected_graphs cfg now ?p"
    and st': "st' = admit_due cfg now ?p"
    by (auto simp: serve_polls_def run_loop_step_def iteration_def prepared_def Let_def)
  have due: "map_of (sc_next_due st) g \<noteq> None" using d by simp
  note keep = prepared_keeps [OF cfg ok idle gts due, of digest now]
  have dp: "map_of (sc_next_due ?p) g = Some d" using keep(2) d by simp
  have "set xs \<subseteq> poll_ahead g ?p"
    using selected_ahead [OF p dp _ keep(3)] now g xs by simp
  moreover have "poll_ahead g ?p \<subseteq> poll_ahead g st" by (rule prepared_ahead [OF cfg ok idle gts d now])
  moreover have "poll_ahead g st' \<subseteq> poll_ahead g ?p - set xs"
    by (auto simp: poll_ahead_def st' xs admit_lookup)
  moreover have "poll_waits cfg g st'"
    using cfg admit_ok [OF p] dp keep(3) g xs by (simp add: poll_waits_def st' admit_lookup)
  moreover have "distinct xs" using selected_graphs_facts(1) [OF p] xs by simp
  moreover have "room \<longrightarrow> xs \<noteq> []"
  proof
    assume room
    have "\<exists>d \<le> now. map_of (sc_next_due ?p) g = Some d" using dp now by (intro exI [of _ d]) simp
    then have "g \<in> set (due_graphs now ?p)"
      using p keep(3) by (simp add: due_graphs_set scheduler_ok_def schedule_ok_def del: map_of_eq_Some_iff)
    then have "due_graphs now ?p \<noteq> []" by auto
    with \<open>room\<close> room xs cfg show "xs \<noteq> []" by (simp add: selected_some)
  qed
  ultimately show ?thesis by blast
qed

lemma worker_serves:
  assumes "poll_waits cfg g st" and "poll_allowed g (Worker h r) st"
    and "serve_polls digest cfg (Worker h r) st = (room, xs, st')"
  shows "poll_waits cfg g st' \<and> xs = [] \<and> \<not> room \<and> poll_ahead g st' = poll_ahead g st"
proof -
  from assms(3) have st': "st' = complete_poll h r st" "xs = []" "\<not> room" by (auto simp: serve_polls_def)
  have "scheduler_ok cfg st'"
    unfolding st' using assms(1,2) by (intro complete_ok) (auto simp: poll_waits_def poll_allowed_def)
  moreover have "poll_ahead g st' = poll_ahead g st" "sc_next_due st' = sc_next_due st" "sc_running st' = sc_running st"
    by (auto simp: st' complete_poll_def poll_ahead_def priority_key_def get_failures_def)
  ultimately show ?thesis using assms(1) st' by (simp add: poll_waits_def)
qed

interpretation line: waiting_line "poll_waits cfg" poll_ahead poll_allowed "serve_polls digest cfg" for cfg digest
proof
  show "finite (poll_ahead g st)" for g st
    by (rule finite_subset [OF _ finite_dom_map_of [of "sc_next_due st"]]) (auto simp: poll_ahead_def simp del: map_of_eq_Some_iff)
  show "poll_waits cfg g st' \<and> distinct xs \<and> set xs \<subseteq> poll_ahead g st \<and> poll_ahead g st' \<subseteq> poll_ahead g st - set xs
      \<and> (room \<longrightarrow> xs \<noteq> [])"
    if "poll_waits cfg g st" "poll_allowed g e st" "serve_polls digest cfg e st = (room, xs, st')" "g \<notin> set xs"
    for g e st room xs st'
  proof (cases e)
    case (Worker h r)
    with worker_serves [of cfg g st h r digest room xs st'] that show ?thesis by simp
  next
    case (Turn now configured)
    with turn_serves that show ?thesis by blast
  qed
qed

text \<open>
  Claim C23 (polling is fair): let a configured graph be due and not in flight, and follow turns of the scheduler
  and ends of workers, in any order, as long as the graph stays configured and no turn admits it. Every other
  graph is admitted at most once meanwhile, and only graphs that came before it in the queue at the beginning are.
  Since a turn that finds a free slot admits somebody, the graph is left out by at most as many such turns
  as graphs were before it.
\<close>

theorem due_graph_overtaken_once:
  assumes "make_config a b c d e f m h k = Inr cfg" and "(poll_step digest cfg)\<^sup>*\<^sup>* init_scheduler st"
    and "map_of (sc_next_due st) g \<noteq> None" and "g \<notin> set (sc_running st)"
    and "unserved poll_allowed (serve_polls digest cfg) g st n served st'"
  shows "distinct served \<and> set served \<subseteq> poll_ahead g st \<and> n \<le> card (poll_ahead g st)"
proof -
  note ok = make_config_ok [OF assms(1)]
  have w: "poll_waits cfg g st" using ok polling_runs_ok [OF ok assms(2)] assms(3,4) by (simp add: poll_waits_def)
  from line.overtaken_once [OF assms(5) w] line.soon_served [OF assms(5) w] show ?thesis by blast
qed

definition demo_line :: "(pyval \<times> pyval) list result" where
  "demo_line = Inr (map (\<lambda>g. (VStr g, VStr ''polling'')) [''a'', ''b'', ''c''])"

definition demo_waiting_line :: scheduler where
  \<comment> \<open>three graphs are due, the first is in flight\<close>
  "demo_waiting_line = run_loop_step demo_digest_bytes demo_polling 100 demo_line
     (init_scheduler\<lparr>sc_started := True, sc_status := ''running'', sc_thread := Alive\<rparr>)"

definition demo_served :: "bool \<times> string list \<times> scheduler" where
  "demo_served = serve_polls demo_digest_bytes demo_polling (Turn 120 demo_line)
     (complete_poll ''a'' (Inr poll_failed) demo_waiting_line)"

lemma demo_serves: "fst demo_served" "fst (snd demo_served) = [''b'']"
  by code_simp+

lemma demo_sorted: "sort [''c'', ''b'', ''a''] = [''a'', ''b'', ''c'']"
  by code_simp

lemma demo_waiting_line_facts:
  "map_of (sc_next_due demo_waiting_line) ''c'' \<noteq> None" "''c'' \<notin> set (sc_running demo_waiting_line)"
  "poll_allowed ''c'' (Worker ''a'' (Inr poll_failed)) demo_waiting_line"
  "poll_allowed ''c'' (Turn 120 demo_line) (complete_poll ''a'' (Inr poll_failed) demo_waiting_line)"
proof -
  show "map_of (sc_next_due demo_waiting_line) ''c'' \<noteq> None" "''c'' \<notin> set (sc_running demo_waiting_line)" by code_simp+
  show "poll_allowed ''c'' (Worker ''a'' (Inr poll_failed)) demo_waiting_line"
    by (simp add: poll_allowed_def poll_one_def future_outcome_def honest_outcome_def poll_failed_def)
  let ?st = "complete_poll ''a'' (Inr poll_failed) demo_waiting_line"
  have "target_ids demo_line ?st = Inr ([''a'', ''b'', ''c''], ?st)"
    by (simp add: target_ids_def demo_line_def add_target_id_def demo_sorted)
  moreover have "\<not> sc_stop ?st" "the (map_of (sc_next_due ?st) ''c'') < 120" by code_simp+
  ultimately show "poll_allowed ''c'' (Turn 120 demo_line) ?st" by (simp add: poll_allowed_def)
qed

theorem due_graph_overtaken_once_witness:
  "''b'' \<in> poll_ahead ''c'' demo_waiting_line \<and> 1 \<le> card (poll_ahead ''c'' demo_waiting_line)"
proof -
  let ?w = "complete_poll ''a'' (Inr poll_failed) demo_waiting_line"
  have "poll_step demo_digest_bytes demo_polling init_scheduler
      (init_scheduler\<lparr>sc_started := True, sc_status := ''running'', sc_thread := Alive\<rparr>)"
    by (rule poll_step.start) (simp add: start_polling_def init_scheduler_def guardE_def)
  moreover have "poll_step demo_digest_bytes demo_polling
      (init_scheduler\<lparr>sc_started := True, sc_status := ''running'', sc_thread := Alive\<rparr>) demo_waiting_line"
    unfolding demo_waiting_line_def by (rule poll_step.turn) simp
  ultimately have reach: "(poll_step demo_digest_bytes demo_polling)\<^sup>*\<^sup>* init_scheduler demo_waiting_line"
    by (meson converse_rtranclp_into_rtranclp r_into_rtranclp)
  have worker: "unserved poll_allowed (serve_polls demo_digest_bytes demo_polling) ''c'' demo_waiting_line
      (if False then Suc 0 else 0) ([] @ []) ?w"
    by (rule unserved.more [OF unserved.none, of poll_allowed _ "Worker ''a'' (Inr poll_failed)"])
      (simp_all add: demo_waiting_line_facts serve_polls_def)
  have "serve_polls demo_digest_bytes demo_polling (Turn 120 demo_line) ?w
      = (fst demo_served, fst (snd demo_served), snd (snd demo_served))" by (simp add: demo_served_def)
  from unserved.more [OF worker demo_waiting_line_facts(4) this] demo_serves
  have "unserved poll_allowed (serve_polls demo_digest_bytes demo_polling) ''c'' demo_waiting_line 1 [''b''] (snd (snd demo_served))"
    by simp
  from due_graph_overtaken_once [OF demo_polling_made reach demo_waiting_line_facts(1,2) this] show ?thesis by simp
qed

end
