(* ===== verification/Spec2Isabelle.thy ===== *)
theory Spec2Isabelle
  imports Control_Admission Control_Life_Cycle Coordinator_Truth Recovery_Properties Protocol_Properties
    Publication_Runs Listing_Properties Sort_Artifacts Digest_Properties Key_Properties Polling_Fairness
begin

text \<open>
  \<^bold>\<open>RepoMap's coordinator.\<close> RepoMap indexes source trees into graphs. Its coordinator
  (\<^verbatim>\<open>repomap_kg/coordinator\<close> below \<^verbatim>\<open>src/src/main/python\<close>) accepts refresh jobs, stores them in a PostgreSQL control
  database, claims them one per graph, starts a worker process for each, and decides from the worker's
  report and from the publication markers of the graph database what became of the job. Several
  coordinators may exist; a singleton row with a fencing epoch decides which one may act. Processes can
  die and connections can fail between any two statements. The storage layer (\<^verbatim>\<open>repomap_kg/storage\<close>) identifies
  the graph a worker publishes by a semantic digest, for which it sorts the rows in bounded memory. The nodes and edges of
  a graph are named by canonical keys (\<^verbatim>\<open>repomap_kg/graph\<close>).

  \<^bold>\<open>How the parts interact.\<close> A client submits through the submission code; the work loop
  (\<^verbatim>\<open>core.py\<close>, \<^verbatim>\<open>_core_disposition.py\<close>) claims through the ownership code, moves the job through the state code,
  talks to the worker through the protocol, and disposes of the worker's terminal message: it records a
  publication marker, closes, retries or reconciles. A new process starts with the startup code, which
  recovers the attempts of dead owners and reconciles what they left. The polling scheduler (\<^verbatim>\<open>polling.py\<close>) asks
  the reconciler (\<^verbatim>\<open>desired_state.py\<close>) graph by graph whether the latest publication still is what the sources call for, and
  the reconciler submits automatic jobs through coalescing. All of them act on the control
  database in transactions; this is the state they share.

  \<^bold>\<open>Theories and sources.\<close>

  \<^item> \<open>Prelude\<close>, \<open>Patterns\<close>, \<open>Json\<close>, \<open>Json_Text\<close>, \<open>Json_Roundtrip\<close>: results as sums with the program's exceptions
    (\<open>py_error\<close>), untyped Python values (\<open>pyval\<close>), association lists, the part of \<^verbatim>\<open>re\<close> the program uses, JSON
    text. These model the language's library.
  \<^item> \<open>Coordinator_Limits\<close> (\<^verbatim>\<open>limits.py\<close>), \<open>Contracts\<close> (\<^verbatim>\<open>contracts.py\<close>), \<open>Semantics\<close> (\<^verbatim>\<open>semantics.py\<close>): limits and
    their validation, the job states and legal transitions, request normalization, public projections,
    retry policy and publication decision.
  \<^item> \<open>Control_Db\<close>: the tables of the control schema as record rows in association lists, its CHECK, UNIQUE
    and foreign key constraints as the errors of the statements.
  \<^item> \<open>Control_Ownership\<close>, \<open>Control_Submission\<close>, \<open>Control_State\<close>, \<open>Control_Reconciliation\<close>, \<open>Control_Startup\<close>,
    \<open>Control_Maintenance\<close>: one definition per transaction of \<^verbatim>\<open>_control_ownership.py\<close>, \<^verbatim>\<open>_control_submission.py\<close> and
    \<^verbatim>\<open>_control_coalescing.py\<close>, \<^verbatim>\<open>_control_state.py\<close>, \<^verbatim>\<open>_control_reconciliation.py\<close>, \<^verbatim>\<open>_control_startup.py\<close> with
    \<^verbatim>\<open>_supervisor_registration.py\<close> and \<^verbatim>\<open>_restart_fencing.py\<close>, \<^verbatim>\<open>_control_maintenance.py\<close>. A transaction takes its
    environment (clock readings, transaction id, lock outcome) and the database and returns an error,
    which rolls back, or a value with the new database.
  \<^item> \<open>Control_System\<close>: all transactions as one step relation with reachability.
  \<^item> \<open>Coordinator_Calls\<close>, \<open>Coordinator_Core\<close>: the coordinator object, its calls into the store (a call may
    fail before or after committing, and other processes' transactions may come between two calls), the
    work loop and the disposition of a worker's report.
  \<^item> \<open>Startup_Recovery\<close> (\<^verbatim>\<open>startup_recovery.py\<close>): startup, the recovery pass, heartbeats, the diagnostic ring.
  \<^item> \<open>Desired_State\<close> (\<^verbatim>\<open>desired_state.py\<close>): one poll of a graph as a program over the store's calls; \<open>Polling\<close> (\<^verbatim>\<open>polling.py\<close>):
    the scheduler's tables and counters as a record, one definition per method. The scheduler thread, its workers
    and its owner interleave; inside one turn of the loop the thread alone changes the tables, and a worker only marks its
    own future as done, so a turn is one step.
  \<^item> \<open>Artifact_References\<close> (\<^verbatim>\<open>artifacts/references.py\<close>), \<open>Protocol_Framing\<close> (\<^verbatim>\<open>_protocol_validation.py\<close>),
    \<open>Protocol_Session\<close> (\<^verbatim>\<open>_protocol_session.py\<close>): artifact references, JSONL frames, the protocol state machine.
  \<^item> \<open>Json_Prefix\<close>, \<open>Publication_Phase\<close> (\<^verbatim>\<open>_publication_phase.py\<close>): the file that decides once per attempt whether its
    publication may start. Every operation is a program over its file system, registry and context calls;
    programs of several processes interleave at these calls and may be cut off between them.
  \<^item> \<open>Base64\<close>, \<open>Job_Listing\<close> (\<^verbatim>\<open>job_listing.py\<close>, \<^verbatim>\<open>_control_listing.py\<close>): opaque cursors and pages of recent jobs.
  \<^item> \<open>Digest_Encoding\<close> (\<^verbatim>\<open>storage/structural_digest_encoding.py\<close>), \<open>Heapq\<close> (CPython's \<^verbatim>\<open>heapq\<close>), \<open>External_Sort\<close>
    (\<^verbatim>\<open>storage/external_row_sort.py\<close>, \<^verbatim>\<open>storage/_external_row_sort_helpers.py\<close>): rows are encoded, buffered up to a byte
    limit, written to sorted run files and merged through a heap on four levels. Steps take and return the state of the
    temporary directory, the tracked artifacts and the count of call backs; a generator is given by what it does
    with its consumer.
  \<^item> \<open>Utf8\<close> (strict UTF-8, splitting, character classes), \<open>Graph_Keys\<close> (\<^verbatim>\<open>graph/keys.py\<close>, \<^verbatim>\<open>graph/_key_namespaces.py\<close>): the
    encoding of key segments, the parser, the validator, path normalization; \<open>Key_Builders\<close>: one definition per public
    builder, also of \<^verbatim>\<open>graph/go_source_keys.py\<close>.
  \<^item> \<open>Structural_Digest\<close> (\<^verbatim>\<open>storage/structural_digest.py\<close>): the digest of the seven row families over these sorted rows.

  \<^bold>\<open>Lemmas.\<close>

  \<^item> \<open>Control_Invariant\<close>, \<open>Control_Steps\<close>: the invariant of the database and one preservation lemma per
    transaction; \<open>Control_Evolution\<close>: what a transaction never undoes in a job, an attempt, a marker or the
    singleton. \<open>Control_Safety\<close> states fencing as the locales \<open>epoch_bound\<close> and \<open>fenced\<close> with an interpretation per
    operation; it, \<open>Control_Properties\<close>, \<open>Control_Admission\<close>, \<open>Control_Restart\<close> give the guarantees of every reachable
    database; \<open>Control_Life_Cycle\<close>: the single legal transition a transaction may make with a job; \<open>Control_Intents\<close>: what the
    coalescing rows say about the jobs they name.
  \<^item> \<open>Coordinator_Refinement\<close>: the locale \<open>coordinator_store\<close> states what the coordinator relies on, interpreted
    on the control store, so that the work loop runs along transactions of the store and the guarantees above carry over
    to systems of coordinators; \<open>Coordinator_Properties\<close>, \<open>Coordinator_Truth\<close>: the loop returns its worker slot, is fair and
    reports truthfully. \<open>Recovery_Effect\<close>, \<open>Recovery_Properties\<close>, \<open>Recovery_Diagnostics\<close>: the
    same for startup and recovery (locale \<open>recovering_store\<close>), what a failed startup leaves, and the diagnostic ring as a
    view of a log.
  \<^item> \<open>Desired_Properties\<close>: a poll reports what it found and left, and runs along transactions of the store; \<open>Polling_Properties\<close>: the invariant of
    the scheduler over all runs, and its delays; \<open>Polling_Fairness\<close>: the locale \<open>waiting_line\<close> states when nobody is
    overtaken twice, interpreted on the scheduler.
  \<^item> \<open>Json_Roundtrip\<close>, \<open>Protocol_Framing\<close>: reading what was written; \<open>Protocol_Properties\<close>: the invariant of a
    session over all message sequences.
  \<^item> \<open>Publication_Properties\<close>: an attempt is never both published and closed, over all interleavings;
    \<open>Publication_Runs\<close>: what the operations return when nothing interrupts them.
  \<^item> \<open>Listing_Properties\<close>: cursors correspond to boundaries, and following them enumerates the jobs.
  \<^item> \<open>Heapq\<close> also states the locale \<open>merge_queue\<close> of a priority queue whose comparison may raise; \<open>Sort_Merge\<close> interprets it
    for heap entries and shows that the merge loop yields the sorted union of the runs; \<open>Sort_Levels\<close> follows the runs
    through the levels; \<open>Sort_Properties\<close>: the external sort is one sort in memory, or refuses; \<open>Sort_Types\<close>: declared key
    types exclude incomparable keys on every path; \<open>Sort_Artifacts\<close>: how many runs exist at once, whatever raises.
  \<^item> \<open>Digest_Properties\<close>: the digest is the hash of the canonical JSON text of the whole graph.
  \<^item> \<open>Utf8_Roundtrip\<close>, \<open>Key_Segments\<close>: encodings and their inverses; \<open>Key_Properties\<close>: keys identify, file keys are normalized,
    and which other spellings the parser accepts.
  \<^item> \<open>Control_Example\<close>, \<open>Coordinator_Example\<close>: concrete runs for the witnesses.

  \<^bold>\<open>Parameters.\<close> Clocks, SHA-256, random delays, the storage fence callback, the gate that closes a file,
  the worker, the marker reader and the marker retirer, the resolver of polled graphs, the driver's conversions of timestamps, the
  decoding of files that are not ASCII, the comparison of floats, the call backs of the sort (what the n-th one raises)
  and the consumer of its rows are arguments of the definitions that use them;
  hypotheses on them are named in the theorems. A PostgreSQL transaction is atomic and the locks it takes
  serialize conflicting ones; lock timeouts are a value of its environment. The file operations of the sort
  succeed. Timestamps are integers, floats are rationals (their JSON texts where they are only printed).

  \<^bold>\<open>Bounds.\<close> No definition uses fuel: loops run over the rows, claims or characters at hand, and the parsers
  recurse on shorter input. Python integers and PostgreSQL bigints below the modelled limits are \<^typ>\<open>int\<close>.
  Text inside the control store is Latin-1 (\<^typ>\<open>string\<close>); JSON text is a list of code points.

  \<^bold>\<open>Not modelled.\<close> Sockets, pipes, process supervision, the threads of a process other than the polling ones, file system and
  database administration (I/O); \<^verbatim>\<open>retain_stderr\<close> and exception texts (redaction of free text, a parameter
  where it is stored); Python's recursion limit, \<^verbatim>\<open>NaN\<close> and \<^verbatim>\<open>Infinity\<close>, and the rounding and overflow of the scheduler's float times; extractors,
  the canonicalization of observations, graph storage apart from the sort and the digest, the server and the command line, which lie outside the coordinator.
\<close>

end
